(* ===== verification/Prelude.thy ===== *)
theory Prelude
  imports
    Main
    "HOL-Library.Monad_Syntax"
    "HOL-Library.Finite_Map"
    "HOL-Library.Multiset"
    "HOL-Library.List_Lexorder"
    "HOL-Library.Char_ord"
    "HOL-Library.Product_Lexorder"
begin

text \<open>
  Shared vocabulary of the development: the error monad, traversals, dictionaries,
  lists sorted by a key, and the codec interface.

  An operation of the program that raises is a value of type \<open>'a option\<close>: \<open>None\<close> is the
  exception, \<open>Some x\<close> the value returned.  Every raising site of \<open>sync_queue.py\<close> raises the
  same argument-free \<open>PatchQueueError\<close>, so nothing is lost by not naming it.

  Python's \<open>str\<close> and \<open>bytes\<close> are both \<open>string\<close> (a list of 8-bit characters): exact for
  \<open>bytes\<close>, and for \<open>str\<close> restricted to code points below 256.

  A Python dict whose iteration order is never observed is a finite map (\<open>('k, 'v) fmap\<close>).
\<close>

section \<open>The error monad\<close>

definition require :: "bool \<Rightarrow> unit option" where
  "require b = (if b then Some () else None)"

lemma require_simps [simp]:
  "require True = Some ()"
  "require False = None"
  "require b = Some u \<longleftrightarrow> b"
  "require b = None \<longleftrightarrow> \<not> b"
  by (auto simp: require_def)

lemma bind_require_Some [simp]:
  "(require b \<bind> f) = Some x \<longleftrightarrow> b \<and> f () = Some x"
  by (auto simp: require_def)

lemma bind_require_None:
  "(require b \<bind> f) = None \<longleftrightarrow> (b \<longrightarrow> f () = None)"
  by (auto simp: require_def)

lemma bind_SomeD: "(m \<bind> f) = Some y \<Longrightarrow> \<exists>x. m = Some x \<and> f x = Some y"
  by (cases m) auto

lemma bind_SomeE:
  assumes "(m \<bind> f) = Some y"
  obtains x where "m = Some x" and "f x = Some y"
  using assms by (cases m) auto

text \<open>A comprehension over a validator that raises: the first raise ends it.\<close>

fun traverse :: "('a \<Rightarrow> 'b option) \<Rightarrow> 'a list \<Rightarrow> 'b list option" where
  "traverse f [] = Some []"
| "traverse f (x # xs) = do { y \<leftarrow> f x; ys \<leftarrow> traverse f xs; Some (y # ys) }"

lemma traverse_map_Some:
  "(\<And>x. x \<in> set xs \<Longrightarrow> f (g x) = Some (h x)) \<Longrightarrow> traverse f (map g xs) = Some (map h xs)"
  by (induction xs) auto

lemma traverse_SomeD:
  "traverse f xs = Some ys \<Longrightarrow> list_all2 (\<lambda>x y. f x = Some y) xs ys"
  by (induction xs arbitrary: ys) (auto elim!: bind_SomeE)

lemma traverse_length: "traverse f xs = Some ys \<Longrightarrow> length ys = length xs"
  by (drule traverse_SomeD) (simp add: list_all2_lengthD)

lemma traverse_set:
  "traverse f xs = Some ys \<Longrightarrow> y \<in> set ys \<Longrightarrow> \<exists>x \<in> set xs. f x = Some y"
  by (induction xs arbitrary: ys) (auto elim!: bind_SomeE)

lemma traverse_cong [fundef_cong]:
  "xs = ys \<Longrightarrow> (\<And>x. x \<in> set ys \<Longrightarrow> f x = g x) \<Longrightarrow> traverse f xs = traverse g ys"
  by (induction xs arbitrary: ys) (auto cong: Option.bind_cong)

section \<open>Errors as sums\<close>

text \<open>Where a caller can tell the exceptions apart, a raise is \<open>Inl\<close> of the error.\<close>

definition and_then :: "'e + 'a \<Rightarrow> ('a \<Rightarrow> 'e + 'b) \<Rightarrow> 'e + 'b" where
  "and_then m f = (case m of Inl e \<Rightarrow> Inl e | Inr x \<Rightarrow> f x)"

definition or_error :: "'e \<Rightarrow> 'a option \<Rightarrow> 'e + 'a" where
  "or_error e m = (case m of None \<Rightarrow> Inl e | Some x \<Rightarrow> Inr x)"

lemma and_then_simps [simp]: "and_then (Inl e) f = Inl e" "and_then (Inr x) f = f x"
  by (simp_all add: and_then_def)

lemma and_then_Inr: "and_then m f = Inr y \<longleftrightarrow> (\<exists>x. m = Inr x \<and> f x = Inr y)"
  by (simp add: and_then_def split: sum.split)

lemma or_error_simps [simp]:
  "or_error e None = Inl e" "or_error e (Some x) = Inr x"
  "or_error e m = Inr x \<longleftrightarrow> m = Some x"
  "or_error e m = Inl e' \<longleftrightarrow> m = None \<and> e' = e"
  by (auto simp: or_error_def split: option.split)

section \<open>Dictionaries\<close>

text \<open>\<open>sorted(d.items())\<close>: the entries in the order of their keys.\<close>

definition items :: "('k::linorder, 'v) fmap \<Rightarrow> ('k \<times> 'v) list" where
  "items m = map (\<lambda>k. (k, the (fmlookup m k))) (sorted_list_of_fset (fmdom m))"

lemma map_fst_items: "map fst (items m) = sorted_list_of_fset (fmdom m)"
  by (simp add: items_def comp_def)

lemma set_keys_items [simp]: "fst ` set (items m) = fset (fmdom m)"
  using arg_cong [OF map_fst_items, of set m] by simp

lemma distinct_keys_items [simp]: "distinct (map fst (items m))"
  by (simp add: map_fst_items sorted_list_of_fset.rep_eq)

lemma sorted_keys_items [simp]: "sorted (map fst (items m))"
  by (simp add: map_fst_items sorted_list_of_fset.rep_eq)

lemma map_of_items [simp]: "map_of (items m) = fmlookup m"
proof
  fix k
  show "map_of (items m) k = fmlookup m k"
  proof (cases "k |\<in>| fmdom m")
    case True
    then obtain v where v: "fmlookup m k = Some v" by (auto simp: fmlookup_dom_iff)
    then have "(k, v) \<in> set (items m)" using True by (force simp: items_def)
    then show ?thesis using v by simp
  next
    case False
    then have "k \<notin> fst ` set (items m)" by simp
    then have "map_of (items m) k = None" by (simp add: map_of_eq_None_iff)
    then show ?thesis using False by (simp add: fmdom_notD)
  qed
qed

lemma set_items: "set (items m) = {(k, v). fmlookup m k = Some v}"
  by (auto simp flip: map_of_items)

lemma fmap_of_list_items [simp]: "fmap_of_list (items m) = m"
  by (rule fmap_ext) (simp add: fmlookup_of_list)

lemma items_empty [simp]: "items fmempty = []"
  by (simp add: items_def sorted_list_of_fset.rep_eq)

lemma length_items: "length (items m) = fcard (fmdom m)"
proof -
  have "length (items m) = length (sorted_list_of_fset (fmdom m))"
    by (simp add: items_def)
  then show ?thesis by (simp add: sorted_list_of_fset.rep_eq fcard.rep_eq)
qed

lemma map_eqI_Some: "(\<And>k v. m k = Some v \<longleftrightarrow> n k = Some v) \<Longrightarrow> m = n"
  by (rule ext) (metis not_None_eq)

lemma fmap_of_list_eqI:
  assumes "\<And>k v. (k, v) \<in> set xs \<longleftrightarrow> fmlookup m k = Some v"
  shows "fmap_of_list xs = m"
proof (rule fmap_ext)
  fix k
  show "fmlookup (fmap_of_list xs) k = fmlookup m k"
  proof (cases "map_of xs k")
    case None
    then have "k \<notin> fst ` set xs" by (simp add: map_of_eq_None_iff)
    then have "fmlookup m k = None" using assms by (metis fst_conv imageI not_None_eq)
    with None show ?thesis by (simp add: fmlookup_of_list)
  next
    case (Some v)
    then show ?thesis using assms map_of_SomeD by (fastforce simp: fmlookup_of_list)
  qed
qed

lemma fmlookup_upd: "fmlookup (fmupd k v m) = (fmlookup m)(k \<mapsto> v)"
  by (rule ext) simp

lemma fcard_dom: "fcard (fmdom m) = card (dom (fmlookup m))"
  by (simp add: fcard.rep_eq fmdom.rep_eq)

section \<open>Lists sorted by a key\<close>

lemma sort_key_id: "sorted (map f xs) \<Longrightarrow> sort_key f xs = xs"
  by (induction xs) (auto simp: insort_is_Cons)

lemma sort_key_id_iff: "xs = sort_key f xs \<longleftrightarrow> sorted (map f xs)"
  by (metis sort_key_id sorted_sort_key)

lemma sorted_key_unique:
  assumes "sorted (map f xs)" "sorted (map f ys)" "distinct (map f xs)" "distinct (map f ys)"
    and "set xs = set ys"
  shows "xs = ys"
proof -
  have eq: "map f xs = map f ys"
  proof (rule sorted_distinct_set_unique)
    show "set (map f xs) = set (map f ys)" using assms(5) by simp
  qed (use assms in auto)
  have "inj_on f (set xs \<union> set ys)" using assms(3,5) by (simp add: distinct_map)
  with eq show ?thesis by (simp add: inj_on_map_eq_map)
qed

lemma sort_key_set_eq:
  assumes "distinct (map f xs)" "distinct (map f ys)" "set xs = set ys"
  shows "sort_key f xs = sort_key f ys"
proof (rule sorted_key_unique [of f])
  show "distinct (map f (sort_key f xs))" "distinct (map f (sort_key f ys))"
    using assms by (simp_all add: distinct_map)
qed (use assms in simp_all)

text \<open>\<open>len({...})\<close>: how many different values a list has.\<close>

definition set_size :: "'a list \<Rightarrow> nat" where
  "set_size xs = length (remdups xs)"

lemma set_size_eq_length [simp]: "set_size xs = length xs \<longleftrightarrow> distinct xs"
  by (auto simp: set_size_def distinct_remdups_id)

lemma set_size_map_eq_length [simp]: "set_size (map f xs) = length xs \<longleftrightarrow> distinct (map f xs)"
  using set_size_eq_length [of "map f xs"] by simp

lemma set_size_card: "set_size xs = card (set xs)"
  by (simp add: set_size_def length_remdups_card_conv)

section \<open>Codecs\<close>

text \<open>
  Every persisted or transmitted class of the program has a pair \<open>to_dict\<close>/\<open>from_dict\<close>.
  What its users rely on: a value that satisfies the class invariant survives the
  round trip, and whatever \<open>from_dict\<close> lets through satisfies the invariant.
\<close>

locale roundtrip =
  fixes valid :: "'a \<Rightarrow> bool"
    and enc :: "'a \<Rightarrow> 'w"
    and dec :: "'w \<Rightarrow> 'a option"
  assumes dec_enc: "valid x \<Longrightarrow> dec (enc x) = Some x"
begin

lemma enc_inj: "valid x \<Longrightarrow> valid y \<Longrightarrow> enc x = enc y \<Longrightarrow> x = y"
  by (metis dec_enc option.inject)

lemma list_dec_enc: "\<forall>x \<in> set xs. valid x \<Longrightarrow> traverse dec (map enc xs) = Some xs"
  using traverse_map_Some [of xs dec enc id] by (simp add: dec_enc)

end

locale codec = roundtrip valid enc dec
  for valid :: "'a \<Rightarrow> bool" and enc :: "'a \<Rightarrow> 'w" and dec :: "'w \<Rightarrow> 'a option" +
  assumes dec_valid: "dec w = Some x \<Longrightarrow> valid x"
begin

lemma revalidate: "dec w = Some x \<Longrightarrow> dec (enc x) = Some x"
  by (rule dec_enc) (rule dec_valid)

lemma revalidate_iff: "dec (enc x) = Some x \<longleftrightarrow> valid x"
  using dec_enc dec_valid by blast

lemma list_dec_valid: "traverse dec ws = Some xs \<Longrightarrow> \<forall>x \<in> set xs. valid x"
  by (auto dest!: traverse_set intro: dec_valid)

end

end
