(* ===== verification/Sha256.thy ===== *)
theory Sha256
  imports Prelude "HOL-Library.Word"
begin

text \<open>
  The digests of Python's standard library that the vault uses: \<open>hashlib.sha256\<close>, its
  \<open>hexdigest\<close>, and \<open>hmac.new(key, message, hashlib.sha256).digest()\<close>, on byte strings.
  The library calls them as functions whose digest has a fixed length; that is the locale
  \<open>digest\<close>, interpreted below on SHA-256 as FIPS 180-4 defines it.
\<close>

unbundle bit_operations_syntax

type_synonym u32 = "32 word"

section \<open>SHA-256\<close>

definition sha_k :: "u32 list" where
  "sha_k =
    [1116352408, 1899447441, 3049323471, 3921009573, 961987163, 1508970993, 2453635748, 2870763221,
     3624381080, 310598401, 607225278, 1426881987, 1925078388, 2162078206, 2614888103, 3248222580,
     3835390401, 4022224774, 264347078, 604807628, 770255983, 1249150122, 1555081692, 1996064986,
     2554220882, 2821834349, 2952996808, 3210313671, 3336571891, 3584528711, 113926993, 338241895,
     666307205, 773529912, 1294757372, 1396182291, 1695183700, 1986661051, 2177026350, 2456956037,
     2730485921, 2820302411, 3259730800, 3345764771, 3516065817, 3600352804, 4094571909, 275423344,
     430227734, 506948616, 659060556, 883997877, 958139571, 1322822218, 1537002063, 1747873779,
     1955562222, 2024104815, 2227730452, 2361852424, 2428436474, 2756734187, 3204031479, 3329325298]"

type_synonym sha_state = "u32 \<times> u32 \<times> u32 \<times> u32 \<times> u32 \<times> u32 \<times> u32 \<times> u32"

definition sha_init :: sha_state where
  "sha_init = (1779033703, 3144134277, 1013904242, 2773480762, 1359893119, 2600822924, 528734635,
    1541459225)"

definition rotr :: "nat \<Rightarrow> u32 \<Rightarrow> u32" where
  "rotr n w = drop_bit n w OR push_bit (32 - n) w"

text \<open>The message schedule: \<open>ws\<close> holds the sixteen latest words, oldest first.\<close>

fun sha_schedule :: "nat \<Rightarrow> u32 list \<Rightarrow> u32 list" where
  "sha_schedule 0 ws = ws"
| "sha_schedule (Suc n) ws =
     (let w1 = ws ! 1; w14 = ws ! 14;
          s0 = rotr 7 w1 XOR rotr 18 w1 XOR drop_bit 3 w1;
          s1 = rotr 17 w14 XOR rotr 19 w14 XOR drop_bit 10 w14
      in hd ws # sha_schedule n (tl ws @ [ws ! 0 + s0 + ws ! 9 + s1]))"

fun sha_round :: "u32 \<times> u32 \<Rightarrow> sha_state \<Rightarrow> sha_state" where
  "sha_round (k, w) (a, b, c, d, e, f, g, h) =
     (let s1 = rotr 6 e XOR rotr 11 e XOR rotr 25 e;
          ch = (e AND f) XOR (NOT e AND g);
          t1 = h + s1 + ch + k + w;
          s0 = rotr 2 a XOR rotr 13 a XOR rotr 22 a;
          maj = (a AND b) XOR (a AND c) XOR (b AND c)
      in (t1 + (s0 + maj), a, b, c, d + t1, e, f, g))"

fun sha_add :: "sha_state \<Rightarrow> sha_state \<Rightarrow> sha_state" where
  "sha_add (a, b, c, d, e, f, g, h) (a', b', c', d', e', f', g', h') =
     (a + a', b + b', c + c', d + d', e + e', f + f', g + g', h + h')"

definition sha_block :: "u32 list \<Rightarrow> sha_state \<Rightarrow> sha_state" where
  "sha_block ws st = sha_add st (fold sha_round (zip sha_k (sha_schedule 48 ws)) st)"

definition byte_val :: "char \<Rightarrow> nat" where
  "byte_val c = of_char c"

definition byte_of :: "nat \<Rightarrow> char" where
  "byte_of n = char_of (n mod 256)"

text \<open>Big-endian words of a byte string.\<close>

fun be_words :: "string \<Rightarrow> u32 list" where
  "be_words (a # b # c # d # bs) =
     of_nat (((byte_val a * 256 + byte_val b) * 256 + byte_val c) * 256 + byte_val d) # be_words bs"
| "be_words _ = []"

definition be_bytes :: "u32 \<Rightarrow> string" where
  "be_bytes w = (let n = unat w in
     [byte_of (n div 16777216), byte_of (n div 65536), byte_of (n div 256), byte_of n])"

definition sha_pad :: "string \<Rightarrow> string" where
  "sha_pad m = (let l = length m; bits = 8 * l in
     m @ [byte_of 128] @ replicate ((119 - l mod 64) mod 64) (byte_of 0)
       @ map (\<lambda>i. byte_of (bits div 256 ^ i)) [7, 6, 5, 4, 3, 2, 1, 0])"

fun sha_blocks :: "nat \<Rightarrow> u32 list \<Rightarrow> sha_state \<Rightarrow> sha_state" where
  "sha_blocks 0 ws st = st"
| "sha_blocks (Suc n) ws st =
     (if ws = [] then st else sha_blocks n (drop 16 ws) (sha_block (take 16 ws) st))"

fun sha_bytes :: "sha_state \<Rightarrow> string" where
  "sha_bytes (a, b, c, d, e, f, g, h) = concat (map be_bytes [a, b, c, d, e, f, g, h])"

definition sha256 :: "string \<Rightarrow> string" where
  "sha256 m = (let ws = be_words (sha_pad m) in sha_bytes (sha_blocks (length ws) ws sha_init))"

lemma length_sha_bytes: "length (sha_bytes st) = 32"
  by (cases st rule: sha_bytes.cases) (simp add: be_bytes_def Let_def)

lemma length_sha256 [simp]: "length (sha256 m) = 32"
  by (simp add: sha256_def Let_def length_sha_bytes)

section \<open>Hexadecimal digests\<close>

definition hex_digit :: "nat \<Rightarrow> char" where
  "hex_digit n = (if n < 10 then char_of (48 + n) else char_of (87 + n))"

definition is_hex :: "char \<Rightarrow> bool" where
  "is_hex c \<longleftrightarrow> (let n = byte_val c in 48 \<le> n \<and> n \<le> 57 \<or> 97 \<le> n \<and> n \<le> 102)"

definition hex_of :: "string \<Rightarrow> string" where
  "hex_of bs = concat (map (\<lambda>b. [hex_digit (byte_val b div 16), hex_digit (byte_val b mod 16)]) bs)"

definition sha256_hex :: "string \<Rightarrow> string" where
  "sha256_hex m = hex_of (sha256 m)"

lemma byte_val_less [simp]: "byte_val c < 256"
  by (simp add: byte_val_def)

lemma byte_val_of [simp]: "byte_val (byte_of n) = n mod 256"
  by (simp add: byte_val_def byte_of_def)

lemma byte_of_val [simp]: "byte_of (byte_val c) = c"
  by (simp add: byte_of_def byte_val_def)

lemma byte_val_inject: "byte_val a = byte_val b \<longleftrightarrow> a = b"
  by (metis byte_of_val)

lemma is_hex_digit: "n < 16 \<Longrightarrow> is_hex (hex_digit n)"
  by (auto simp: is_hex_def hex_digit_def byte_val_def Let_def)

lemma length_hex_of [simp]: "length (hex_of bs) = 2 * length bs"
  by (induction bs) (auto simp: hex_of_def)

lemma list_all_hex_of [simp]: "list_all is_hex (hex_of bs)"
proof (induction bs)
  case (Cons b bs)
  have "byte_val b div 16 < 16" using byte_val_less [of b] by linarith
  with Cons show ?case by (simp add: hex_of_def is_hex_digit)
qed (simp add: hex_of_def)

text \<open>A collision: two different texts with the same digest.\<close>

definition collide :: "string \<Rightarrow> string \<Rightarrow> bool" where
  "collide m m' \<longleftrightarrow> m \<noteq> m' \<and> sha256_hex m = sha256_hex m'"

lemma same_digest: "sha256_hex m = sha256_hex m' \<longleftrightarrow> m = m' \<or> collide m m'"
  by (auto simp: collide_def)

lemma not_collide_refl [simp]: "\<not> collide m m"
  by (simp add: collide_def)

lemma length_sha256_hex [simp]: "length (sha256_hex m) = 64"
  by (simp add: sha256_hex_def)

lemma list_all_sha256_hex [simp]: "list_all is_hex (sha256_hex m)"
  by (simp add: sha256_hex_def)

section \<open>HMAC\<close>

text \<open>Keyed digests over any fixed-length digest with 64-byte blocks.\<close>

definition xor_bytes :: "nat \<Rightarrow> string \<Rightarrow> string" where
  "xor_bytes n bs = map (\<lambda>b. byte_of (byte_val b XOR n)) bs"

definition hmac_key :: "(string \<Rightarrow> string) \<Rightarrow> string \<Rightarrow> string" where
  "hmac_key H key = (let k = (if 64 < length key then H key else key)
     in k @ replicate (64 - length k) (byte_of 0))"

definition hmac :: "(string \<Rightarrow> string) \<Rightarrow> string \<Rightarrow> string \<Rightarrow> string" where
  "hmac H key message =
     (let k = hmac_key H key in H (xor_bytes 92 k @ H (xor_bytes 54 k @ message)))"

locale digest =
  fixes H :: "string \<Rightarrow> string" and L :: nat
  assumes digest_length: "length (H m) = L"
    and digest_fits: "L \<le> 64"
begin

lemma hmac_length: "length (hmac H key message) = L"
  by (simp add: hmac_def Let_def digest_length)

lemma hmac_key_length: "length (hmac_key H key) = 64"
  using digest_fits by (simp add: hmac_key_def Let_def digest_length)

end

interpretation sha256_digest: digest sha256 32
  by unfold_locales simp_all

definition hmac_sha256 :: "string \<Rightarrow> string \<Rightarrow> string" where
  "hmac_sha256 = hmac sha256"

lemma length_hmac_sha256 [simp]: "length (hmac_sha256 key m) = 32"
  by (simp add: hmac_sha256_def sha256_digest.hmac_length)

end
