(* ===== verification/Base64.thy ===== *)
theory Base64
  imports Sha256
begin

text \<open>
  Python's \<open>base64.b64encode\<close> and \<open>base64.b64decode(text, validate=True)\<close> on byte strings.
  The decoder accepts complete groups of four, with one or two padding characters in the
  last group only; as Python's does, it ignores the unused low bits of a padded group, so
  a text need not be the encoding of what it decodes to.
\<close>

definition b64_char :: "nat \<Rightarrow> char" where
  "b64_char n =
     (if n < 26 then char_of (65 + n)
      else if n < 52 then char_of (71 + n)
      else if n < 62 then char_of (n - 4)
      else if n = 62 then CHR ''+'' else CHR ''/'')"

definition b64_val :: "char \<Rightarrow> nat option" where
  "b64_val c = (let n = byte_val c in
     if 65 \<le> n \<and> n \<le> 90 then Some (n - 65)
     else if 97 \<le> n \<and> n \<le> 122 then Some (n - 71)
     else if 48 \<le> n \<and> n \<le> 57 then Some (n + 4)
     else if n = 43 then Some 62 else if n = 47 then Some 63 else None)"

fun b64encode :: "string \<Rightarrow> string" where
  "b64encode [] = []"
| "b64encode [a] =
     [b64_char (byte_val a div 4), b64_char ((byte_val a mod 4) * 16), CHR ''='', CHR ''='']"
| "b64encode [a, b] =
     [b64_char (byte_val a div 4), b64_char ((byte_val a mod 4) * 16 + byte_val b div 16),
      b64_char ((byte_val b mod 16) * 4), CHR ''='']"
| "b64encode (a # b # c # bs) =
     b64_char (byte_val a div 4) # b64_char ((byte_val a mod 4) * 16 + byte_val b div 16)
     # b64_char ((byte_val b mod 16) * 4 + byte_val c div 64) # b64_char (byte_val c mod 64)
     # b64encode bs"

fun b64decode :: "string \<Rightarrow> string option" where
  "b64decode [] = Some []"
| "b64decode (p # q # r # s # ts) =
     (if s = CHR ''='' \<and> ts = [] then
        if r = CHR ''='' then do {
          x \<leftarrow> b64_val p; y \<leftarrow> b64_val q;
          Some [byte_of (x * 4 + y div 16)] }
        else do {
          x \<leftarrow> b64_val p; y \<leftarrow> b64_val q; z \<leftarrow> b64_val r;
          Some [byte_of (x * 4 + y div 16), byte_of (y mod 16 * 16 + z div 4)] }
      else do {
        x \<leftarrow> b64_val p; y \<leftarrow> b64_val q; z \<leftarrow> b64_val r; w \<leftarrow> b64_val s;
        rest \<leftarrow> b64decode ts;
        Some (byte_of (x * 4 + y div 16) # byte_of (y mod 16 * 16 + z div 4)
              # byte_of (z mod 4 * 64 + w) # rest) })"
| "b64decode _ = None"

section \<open>The decoder inverts the encoder\<close>

lemma byte_val_char_of [simp]: "n < 256 \<Longrightarrow> byte_val (char_of n) = n"
  by (simp add: byte_val_def)

lemma b64_val_char [simp]: "n < 64 \<Longrightarrow> b64_val (b64_char n) = Some n"
  by (auto simp: b64_val_def b64_char_def Let_def byte_val_def)

lemma b64_val_pad: "b64_val (CHR ''='') = None"
  by (simp add: b64_val_def byte_val_def)

lemma b64_char_not_pad [simp]: "n < 64 \<Longrightarrow> b64_char n \<noteq> CHR ''=''"
  by (metis b64_val_char b64_val_pad option.distinct(1))

lemma six_bits [simp]:
  "byte_val a div 4 < 64"
  "byte_val a mod 4 * 16 < 64"
  "byte_val a mod 4 * 16 + byte_val b div 16 < 64"
  "byte_val b mod 16 * 4 < 64"
  "byte_val b mod 16 * 4 + byte_val c div 64 < 64"
  using byte_val_less [of a] byte_val_less [of b] byte_val_less [of c] by linarith+

lemma byte_quotients [simp]:
  "byte_val b div 16 div 16 = 0"
  "byte_val b div 16 mod 16 = byte_val b div 16"
  "byte_val b div 64 div 4 = 0"
  "byte_val b div 64 mod 4 = byte_val b div 64"
proof -
  have *: "byte_val b div 16 < 16" "byte_val b div 64 < 4"
    using byte_val_less [of b] by linarith+
  show "byte_val b div 16 div 16 = 0" "byte_val b div 64 div 4 = 0"
    using * by (simp_all only: div_less)
  show "byte_val b div 16 mod 16 = byte_val b div 16" "byte_val b div 64 mod 4 = byte_val b div 64"
    using * by (simp_all only: mod_less)
qed

lemma b64decode_encode [simp]: "b64decode (b64encode bs) = Some bs"
  by (induction bs rule: b64encode.induct) simp_all

lemma b64encode_inj: "b64encode a = b64encode b \<Longrightarrow> a = b"
  by (metis b64decode_encode option.inject)

lemma length_b64encode: "length (b64encode bs) = 4 * ((length bs + 2) div 3)"
proof (induction bs rule: b64encode.induct)
  case (4 a b c bs)
  have "(length bs + 5) div 3 = (length bs + 2) div 3 + 1" by presburger
  with 4 show ?case by (simp add: algebra_simps)
qed simp_all

lemma b64encode_Nil_iff [simp]: "b64encode bs = [] \<longleftrightarrow> bs = []"
  by (cases bs rule: b64encode.cases) auto

end
