(* ===== verification/Json.thy ===== *)
theory Json
  imports Sha256
begin

text \<open>
  JSON values as \<open>json.loads\<close> returns them and the canonical serialisation
  \<open>json.dumps(value, sort_keys=True, separators=(",", ":"), ensure_ascii=True)\<close>.

  A float is represented by the text \<open>json.dumps\<close> prints for it (which determines it), so
  \<open>JFloat ''1.0''\<close> is the float equal to the int 1.  A dict is the list of its entries.
\<close>

datatype json =
    JNull
  | JBool bool
  | JInt int
  | JFloat string
  | JStr string
  | JList "json list"
  | JObj "(string \<times> json) list"

section \<open>Comparison with an int\<close>

text \<open>Python's \<open>value == 1\<close> holds of the int, of \<open>True\<close> and of the float 1.0.\<close>

fun py_eq_one :: "json \<Rightarrow> bool" where
  "py_eq_one (JInt i) = (i = 1)"
| "py_eq_one (JBool b) = b"
| "py_eq_one (JFloat s) = (s = ''1.0'')"
| "py_eq_one _ = False"

section \<open>Canonical serialisation\<close>

fun nat_digits :: "nat \<Rightarrow> string" where
  "nat_digits n = (if n < 10 then [char_of (48 + n)]
                   else nat_digits (n div 10) @ [char_of (48 + n mod 10)])"

declare nat_digits.simps [simp del]

definition int_str :: "int \<Rightarrow> string" where
  "int_str i = (if i < 0 then CHR ''-'' # nat_digits (nat (- i)) else nat_digits (nat i))"

text \<open>The escapes of \<open>ensure_ascii\<close>: everything outside the printable ASCII range, the quote
  and the backslash.\<close>

definition esc_char :: "char \<Rightarrow> string" where
  "esc_char c = (let n = byte_val c in
     if n = 34 then [CHR 0x5C, CHR 0x22]
     else if n = 92 then [CHR 0x5C, CHR 0x5C]
     else if n = 10 then [CHR 0x5C, CHR ''n'']
     else if n = 13 then [CHR 0x5C, CHR ''r'']
     else if n = 9 then [CHR 0x5C, CHR ''t'']
     else if n = 12 then [CHR 0x5C, CHR ''f'']
     else if n = 8 then [CHR 0x5C, CHR ''b'']
     else if 32 \<le> n \<and> n \<le> 126 then [c]
     else [CHR 0x5C, CHR ''u'', CHR ''0'', CHR ''0'', hex_digit (n div 16), hex_digit (n mod 16)])"

definition quote :: "string \<Rightarrow> string" where
  "quote s = CHR 0x22 # concat (map esc_char s) @ [CHR 0x22]"

fun join :: "string \<Rightarrow> string list \<Rightarrow> string" where
  "join sep [] = []"
| "join sep [s] = s"
| "join sep (s # t # ss) = s @ sep @ join sep (t # ss)"

definition sort_entries :: "(string \<times> 'a) list \<Rightarrow> (string \<times> 'a) list" where
  "sort_entries es = sort_key fst es"

primrec dumps :: "json \<Rightarrow> string" where
  "dumps JNull = ''null''"
| "dumps (JBool b) = (if b then ''true'' else ''false'')"
| "dumps (JInt i) = int_str i"
| "dumps (JFloat s) = s"
| "dumps (JStr s) = quote s"
| "dumps (JList xs) = ''['' @ join '','' (map dumps xs) @ '']''"
| "dumps (JObj es) =
     ''{'' @ join '','' (map (\<lambda>(k, t). quote k @ '':'' @ t)
                          (sort_entries (map (map_prod id dumps) es))) @ ''}''"

text \<open>The serialisation depends on the entries of a dict, not on their order.\<close>

lemma dumps_obj_perm:
  assumes "distinct (map fst es)" "distinct (map fst es')" "set es = set es'"
  shows "dumps (JObj es) = dumps (JObj es')"
proof -
  have "sort_entries (map (map_prod id dumps) es) = sort_entries (map (map_prod id dumps) es')"
    unfolding sort_entries_def
    by (rule sort_key_set_eq) (use assms in \<open>simp_all add: comp_def\<close>)
  then show ?thesis by simp
qed

section \<open>Serialised size\<close>

text \<open>A bound on the length of a serialisation that needs no sorting and no digits.\<close>

lemma length_esc_char: "length (esc_char c) \<le> 6"
  by (simp add: esc_char_def Let_def)

lemma length_quote: "length (quote s) \<le> 2 + 6 * length s"
proof -
  have "length (concat (map esc_char s)) \<le> 6 * length s"
    by (induction s) (use length_esc_char in \<open>auto intro: add_mono order_trans\<close>)
  then show ?thesis by (simp add: quote_def)
qed

lemma length_join: "length (join sep ss) \<le> sum_list (map (\<lambda>s. length s + length sep) ss)"
  by (induction sep ss rule: join.induct) auto

primrec json_weight :: "json \<Rightarrow> nat" where
  "json_weight JNull = 4"
| "json_weight (JBool b) = 5"
| "json_weight (JInt i) = length (int_str i)"
| "json_weight (JFloat s) = length s"
| "json_weight (JStr s) = 2 + 6 * length s"
| "json_weight (JList xs) = 2 + sum_list (map (\<lambda>n. n + 1) (map json_weight xs))"
| "json_weight (JObj es) =
     2 + sum_list (map (\<lambda>(k, n). 4 + 6 * length k + n) (map (map_prod id json_weight) es))"

lemma sum_list_sort_entries: "sum_list (map f (sort_entries es)) = sum_list (map f es)"
  for f :: "_ \<Rightarrow> nat"
proof -
  have "mset (map f (sort_entries es)) = mset (map f es)"
    by (simp add: sort_entries_def)
  then show ?thesis by (metis sum_mset_sum_list)
qed

lemma sum_list_mono_map: "(\<And>x. x \<in> set xs \<Longrightarrow> f x \<le> g x) \<Longrightarrow> sum_list (map f xs) \<le> sum_list (map g xs)"
  for f :: "_ \<Rightarrow> nat"
  by (rule sum_list_mono) auto

text \<open>The same with the escaped length of every string, which is exact but for one comma.\<close>

primrec json_size :: "json \<Rightarrow> nat" where
  "json_size JNull = 4"
| "json_size (JBool b) = 5"
| "json_size (JInt i) = length (int_str i)"
| "json_size (JFloat s) = length s"
| "json_size (JStr s) = length (quote s)"
| "json_size (JList xs) = 2 + sum_list (map (\<lambda>n. n + 1) (map json_size xs))"
| "json_size (JObj es) =
     2 + sum_list (map (\<lambda>(k, n). 2 + length (quote k) + n) (map (map_prod id json_size) es))"

theorem dumps_size: "length (dumps j) \<le> json_size j"
proof (induction j)
  case (JList xs)
  have "length (join '','' (map dumps xs)) \<le> sum_list (map (\<lambda>x. length (dumps x) + 1) xs)"
    using length_join [of "'',''" "map dumps xs"] by (simp add: comp_def)
  also have "\<dots> \<le> sum_list (map (\<lambda>x. json_size x + 1) xs)"
    by (rule sum_list_mono_map) (use JList in auto)
  finally show ?case by (simp add: comp_def)
next
  case (JObj es)
  let ?t = "\<lambda>(k, t). quote k @ '':'' @ t"
  let ?es = "map (map_prod id dumps) es"
  have "length (join '','' (map ?t (sort_entries ?es)))
      \<le> sum_list (map (\<lambda>e. length (?t e) + 1) (sort_entries ?es))"
    using length_join [of "'',''" "map ?t (sort_entries ?es)"] by (simp add: comp_def)
  also have "\<dots> = sum_list (map (\<lambda>e. length (?t e) + 1) ?es)"
    by (rule sum_list_sort_entries)
  also have "\<dots> = sum_list (map (\<lambda>(k, j). length (quote k) + length (dumps j) + 2) es)"
    by (simp add: comp_def case_prod_unfold)
  also have "\<dots> \<le> sum_list (map (\<lambda>(k, j). 2 + length (quote k) + json_size j) es)"
    by (rule sum_list_mono_map) (use JObj in fastforce)
  finally show ?case by (simp add: comp_def case_prod_unfold)
qed auto

lemma size_weight: "json_size j \<le> json_weight j"
proof (induction j)
  case (JStr s)
  show ?case using length_quote [of s] by simp
next
  case (JList xs)
  have "sum_list (map (\<lambda>x. json_size x + 1) xs) \<le> sum_list (map (\<lambda>x. json_weight x + 1) xs)"
    by (rule sum_list_mono_map) (use JList in auto)
  then show ?case by (simp add: comp_def)
next
  case (JObj es)
  have "sum_list (map (\<lambda>(k, j). 2 + length (quote k) + json_size j) es)
      \<le> sum_list (map (\<lambda>(k, j). 4 + 6 * length k + json_weight j) es)"
  proof (rule sum_list_mono_map, clarify)
    fix k j assume "(k, j) \<in> set es"
    then have "json_size j \<le> json_weight j" using JObj by fastforce
    then show "2 + length (quote k) + json_size j \<le> 4 + 6 * length k + json_weight j"
      using length_quote [of k] by simp
  qed
  then show ?case by (simp add: comp_def case_prod_unfold)
qed auto

corollary length_dumps: "length (dumps j) \<le> json_weight j"
  using dumps_size [of j] size_weight [of j] by simp

text \<open>A string of printable characters is quoted as it is.\<close>

definition printable :: "char \<Rightarrow> bool" where
  "printable c \<longleftrightarrow> (let n = byte_val c in 32 \<le> n \<and> n \<le> 126 \<and> n \<noteq> 34 \<and> n \<noteq> 92)"

lemma length_quote_printable: "list_all printable s \<Longrightarrow> length (quote s) = length s + 2"
proof -
  have "list_all printable s \<Longrightarrow> concat (map esc_char s) = s"
    by (induction s) (auto simp: esc_char_def printable_def Let_def)
  then show "list_all printable s \<Longrightarrow> length (quote s) = length s + 2" by (simp add: quote_def)
qed

end
