(* ===== verification/Wire.thy ===== *)
theory Wire
  imports Base64 Json
begin

text \<open>
  The scalar validators of \<open>vaultsync/sync_queue.py\<close> (\<open>_mapping\<close> to \<open>_canonical_json\<close>): each takes a
  JSON value and returns the Python value it stands for, or raises.  Each has a lemma
  \<open>..._iff\<close> that says exactly which values pass.
\<close>

definition MAXIMUM_QUEUE_FILE_BYTES :: nat where
  "MAXIMUM_QUEUE_FILE_BYTES = 128 * 1024 * 1024"

definition MAXIMUM_QUEUE_OPERATIONS :: nat where
  "MAXIMUM_QUEUE_OPERATIONS = 65536"

definition MAXIMUM_ENVELOPE_FIELD_BYTES :: nat where
  "MAXIMUM_ENVELOPE_FIELD_BYTES = 96 * 1024 * 1024"

definition MAXIMUM_CURSOR_LENGTH :: nat where
  "MAXIMUM_CURSOR_LENGTH = 2048"

definition MAXIMUM_INTEGER :: int where
  "MAXIMUM_INTEGER = 2 ^ 63 - 1"

section \<open>Objects\<close>

type_synonym obj = "(string \<times> json) list"

fun mapping :: "json \<Rightarrow> obj option" where
  "mapping (JObj es) = Some es"
| "mapping _ = None"

definition exact :: "obj \<Rightarrow> string list \<Rightarrow> unit option" where
  "exact obj ks = require (set (map fst obj) = set ks)"

fun json_list :: "json \<Rightarrow> json list option" where
  "json_list (JList xs) = Some xs"
| "json_list _ = None"

fun json_bool :: "json \<Rightarrow> bool option" where
  "json_bool (JBool b) = Some b"
| "json_bool _ = None"

lemma mapping_iff [simp]: "mapping j = Some es \<longleftrightarrow> j = JObj es"
  by (cases j) auto

lemma json_list_iff [simp]: "json_list j = Some xs \<longleftrightarrow> j = JList xs"
  by (cases j) auto

lemma json_bool_iff [simp]: "json_bool j = Some b \<longleftrightarrow> j = JBool b"
  by (cases j) auto

section \<open>Text and identifiers\<close>

definition is_text :: "nat \<Rightarrow> string \<Rightarrow> bool" where
  "is_text maximum s \<longleftrightarrow> s \<noteq> [] \<and> length s \<le> maximum"

fun text_value :: "nat \<Rightarrow> json \<Rightarrow> string option" where
  "text_value maximum (JStr s) = (if is_text maximum s then Some s else None)"
| "text_value maximum _ = None"

definition identifier_char :: "char \<Rightarrow> bool" where
  "identifier_char c \<longleftrightarrow> (let n = byte_val c in
     65 \<le> n \<and> n \<le> 90 \<or> 97 \<le> n \<and> n \<le> 122 \<or> 48 \<le> n \<and> n \<le> 57
     \<or> c \<in> {CHR ''.'', CHR ''_'', CHR ''~'', CHR ''-''})"

definition match_identifier :: "string \<Rightarrow> bool" where
  "match_identifier s \<longleftrightarrow> 1 \<le> length s \<and> length s \<le> 128 \<and> list_all identifier_char s"

definition identifier_value :: "json \<Rightarrow> string option" where
  "identifier_value v = do {
     t \<leftarrow> text_value 128 v;
     require (match_identifier t \<and> t \<noteq> ''*'');
     Some t }"

definition is_identifier :: "string \<Rightarrow> bool" where
  "is_identifier s \<longleftrightarrow> s \<noteq> [] \<and> length s \<le> 128 \<and> list_all identifier_char s"

lemma text_value_iff [simp]: "text_value n v = Some s \<longleftrightarrow> v = JStr s \<and> is_text n s"
  by (cases v) auto

lemma identifier_char_star: "\<not> identifier_char (CHR ''*'')"
  by (simp add: identifier_char_def byte_val_def Let_def)

lemma identifier_value_iff [simp]: "identifier_value v = Some s \<longleftrightarrow> v = JStr s \<and> is_identifier s"
  by (cases v) (auto simp: identifier_value_def is_text_def match_identifier_def is_identifier_def
      identifier_char_star Suc_le_eq)

section \<open>Integers\<close>

text \<open>\<open>type(value) is not int\<close> rejects \<open>True\<close> and floats.\<close>

fun integer_value :: "json \<Rightarrow> int option" where
  "integer_value (JInt i) = (if i < 1 \<or> i > MAXIMUM_INTEGER then None else Some i)"
| "integer_value _ = None"

definition is_counter :: "int \<Rightarrow> bool" where
  "is_counter i \<longleftrightarrow> 1 \<le> i \<and> i \<le> MAXIMUM_INTEGER"

lemma integer_value_iff [simp]: "integer_value v = Some i \<longleftrightarrow> v = JInt i \<and> is_counter i"
  by (cases v) (auto simp: is_counter_def)

section \<open>UUIDs\<close>

text \<open>The pattern \<open>[0-9a-f]{8}-[0-9a-f]{4}-...\<close>: hexadecimal groups of given widths.\<close>

fun match_groups :: "nat list \<Rightarrow> string \<Rightarrow> bool" where
  "match_groups [] s = (s = [])"
| "match_groups [n] s = (length s = n \<and> list_all is_hex s)"
| "match_groups (n # m # ns) s =
     (n < length s \<and> list_all is_hex (take n s) \<and> s ! n = CHR ''-''
      \<and> match_groups (m # ns) (drop (Suc n) s))"

fun format_groups :: "nat list \<Rightarrow> string \<Rightarrow> string" where
  "format_groups [] h = []"
| "format_groups [n] h = h"
| "format_groups (n # m # ns) h = take n h @ CHR ''-'' # format_groups (m # ns) (drop n h)"

definition uuid_groups :: "nat list" where
  "uuid_groups = [8, 4, 4, 4, 12]"

definition match_uuid :: "string \<Rightarrow> bool" where
  "match_uuid s = match_groups uuid_groups s"

definition hex_digit_val :: "char \<Rightarrow> nat" where
  "hex_digit_val c = (let n = byte_val c in if n \<le> 57 then n - 48 else n - 87)"

definition hex_val :: "string \<Rightarrow> nat" where
  "hex_val h = foldl (\<lambda>n c. n * 16 + hex_digit_val c) 0 h"

fun hex_pad :: "nat \<Rightarrow> nat \<Rightarrow> string" where
  "hex_pad 0 n = []"
| "hex_pad (Suc w) n = hex_pad w (n div 16) @ [hex_digit (n mod 16)]"

text \<open>\<open>str(uuid.UUID(text))\<close>: the 128-bit number, printed as 32 digits in groups.\<close>

definition uuid_str :: "string \<Rightarrow> string" where
  "uuid_str t = format_groups uuid_groups (hex_pad 32 (hex_val (filter (\<lambda>c. c \<noteq> CHR ''-'') t)))"

definition canonical_uuid :: "json \<Rightarrow> string option" where
  "canonical_uuid v = do {
     t \<leftarrow> text_value 36 v;
     require (match_uuid t);
     require (uuid_str t = t);
     Some t }"

lemma hex_digit_of_val: "is_hex c \<Longrightarrow> hex_digit (hex_digit_val c) = c"
proof -
  assume "is_hex c"
  then have "48 \<le> byte_val c \<and> byte_val c \<le> 57 \<or> 97 \<le> byte_val c \<and> byte_val c \<le> 102"
    by (simp add: is_hex_def Let_def)
  then have "hex_digit (hex_digit_val c) = char_of (byte_val c)"
    by (auto simp: hex_digit_def hex_digit_val_def Let_def)
  then show ?thesis by (simp add: byte_val_def)
qed

lemma hex_digit_val_less: "is_hex c \<Longrightarrow> hex_digit_val c < 16"
  by (auto simp: is_hex_def hex_digit_val_def Let_def)

lemma hex_pad_val: "list_all is_hex h \<Longrightarrow> hex_pad (length h) (hex_val h) = h"
proof (induction h rule: rev_induct)
  case (snoc c h)
  then have "hex_digit_val c < 16" by (simp add: hex_digit_val_less)
  with snoc show ?case by (simp add: hex_val_def hex_digit_of_val)
qed simp

lemma hex_not_hyphen: "is_hex c \<Longrightarrow> c \<noteq> CHR ''-''"
  by (auto simp: is_hex_def byte_val_def Let_def)

lemma filter_hex [simp]: "list_all is_hex h \<Longrightarrow> filter (\<lambda>c. c \<noteq> CHR ''-'') h = h"
  by (rule filter_True) (auto simp: list_all_iff dest: hex_not_hyphen)

lemma match_groups_hex:
  "match_groups ns s \<Longrightarrow>
     list_all is_hex (filter (\<lambda>c. c \<noteq> CHR ''-'') s)
     \<and> length (filter (\<lambda>c. c \<noteq> CHR ''-'') s) = sum_list ns
     \<and> format_groups ns (filter (\<lambda>c. c \<noteq> CHR ''-'') s) = s"
proof (induction ns s rule: match_groups.induct)
  case (3 n m ns s)
  let ?f = "filter (\<lambda>c. c \<noteq> CHR ''-'')"
  have s: "s = take n s @ CHR ''-'' # drop (Suc n) s"
    using 3(2) by (metis id_take_nth_drop match_groups.simps(3))
  have f: "?f s = take n s @ ?f (drop (Suc n) s)"
    using 3(2) by (subst s) (simp del: append_take_drop_id)
  have n: "length (take n s) = n" using 3(2) by simp
  have IH: "list_all is_hex (?f (drop (Suc n) s))"
      "length (?f (drop (Suc n) s)) = sum_list (m # ns)"
      "format_groups (m # ns) (?f (drop (Suc n) s)) = drop (Suc n) s"
    using 3 by auto
  have "format_groups (n # m # ns) (?f s) = s"
    unfolding f using n IH(3) s by simp
  moreover have "list_all is_hex (?f s)" unfolding f using 3(2) IH(1) by simp
  moreover have "length (?f s) = sum_list (n # m # ns)" unfolding f using n IH(2) by simp
  ultimately show ?case by blast
qed auto

text \<open>The round trip through \<open>uuid.UUID\<close> rejects nothing that the pattern lets through.\<close>

lemma uuid_str_match: "match_uuid t \<Longrightarrow> uuid_str t = t"
proof -
  assume "match_uuid t"
  then have "match_groups uuid_groups t" by (simp add: match_uuid_def)
  moreover have "sum_list uuid_groups = 32" by (simp add: uuid_groups_def)
  ultimately have *: "list_all is_hex (filter (\<lambda>c. c \<noteq> CHR ''-'') t)"
      "length (filter (\<lambda>c. c \<noteq> CHR ''-'') t) = 32"
      "format_groups uuid_groups (filter (\<lambda>c. c \<noteq> CHR ''-'') t) = t"
    using match_groups_hex [of uuid_groups t] by auto
  then have "hex_pad 32 (hex_val (filter (\<lambda>c. c \<noteq> CHR ''-'') t)) = filter (\<lambda>c. c \<noteq> CHR ''-'') t"
    using hex_pad_val [OF *(1)] by simp
  then show ?thesis using *(3) by (simp add: uuid_str_def)
qed

definition is_uuid :: "string \<Rightarrow> bool" where
  "is_uuid s \<longleftrightarrow> is_text 36 s \<and> match_uuid s"

lemma canonical_uuid_iff [simp]: "canonical_uuid v = Some s \<longleftrightarrow> v = JStr s \<and> is_uuid s"
  by (cases v) (auto simp: canonical_uuid_def is_uuid_def uuid_str_match)

section \<open>Digests and base64\<close>

definition match_sha256 :: "string \<Rightarrow> bool" where
  "match_sha256 s \<longleftrightarrow> length s = 64 \<and> list_all is_hex s"

lemma match_sha256_hex [simp]: "match_sha256 (sha256_hex m)"
  by (simp add: match_sha256_def)

lemma is_text_match_sha256 [simp]: "match_sha256 s \<Longrightarrow> is_text 64 s"
  by (auto simp: match_sha256_def is_text_def)

definition canonical_base64 :: "nat option \<Rightarrow> nat \<Rightarrow> json \<Rightarrow> string option" where
  "canonical_base64 exact_bytes minimum_bytes v = do {
     t \<leftarrow> text_value (MAXIMUM_ENVELOPE_FIELD_BYTES * 2) v;
     decoded \<leftarrow> b64decode t;
     require (b64encode decoded = t);
     require (\<not> (length decoded < minimum_bytes \<or> length decoded > MAXIMUM_ENVELOPE_FIELD_BYTES));
     require (exact_bytes = None \<or> exact_bytes = Some (length decoded));
     Some t }"

definition is_base64 :: "nat option \<Rightarrow> nat \<Rightarrow> string \<Rightarrow> bool" where
  "is_base64 exact_bytes minimum_bytes s \<longleftrightarrow>
     is_text (MAXIMUM_ENVELOPE_FIELD_BYTES * 2) s \<and>
     (case b64decode s of None \<Rightarrow> False
      | Some bs \<Rightarrow> b64encode bs = s \<and> minimum_bytes \<le> length bs
          \<and> length bs \<le> MAXIMUM_ENVELOPE_FIELD_BYTES
          \<and> (exact_bytes = None \<or> exact_bytes = Some (length bs)))"

lemma canonical_base64_iff [simp]:
  "canonical_base64 e n v = Some s \<longleftrightarrow> v = JStr s \<and> is_base64 e n s"
proof
  assume "canonical_base64 e n v = Some s"
  then show "v = JStr s \<and> is_base64 e n s"
    by (auto simp: canonical_base64_def is_base64_def not_less elim!: bind_SomeE)
next
  assume "v = JStr s \<and> is_base64 e n s"
  then show "canonical_base64 e n v = Some s"
    by (auto simp: canonical_base64_def is_base64_def not_less split: option.splits)
qed

lemma is_base64_encode:
  assumes "1 \<le> n" "n \<le> length bs" "length bs \<le> 1024" "e = None \<or> e = Some (length bs)"
  shows "is_base64 e n (b64encode bs)"
proof -
  have "length (b64encode bs) \<le> MAXIMUM_ENVELOPE_FIELD_BYTES * 2"
    using assms(3) by (simp add: length_b64encode MAXIMUM_ENVELOPE_FIELD_BYTES_def)
  then show ?thesis using assms by (auto simp: is_base64_def is_text_def MAXIMUM_ENVELOPE_FIELD_BYTES_def)
qed

text \<open>The validators are used through their \<open>..._iff\<close> lemmas and, on a value that passes, as
  rewrite rules.\<close>

declare integer_value.simps [simp del] text_value.simps [simp del]

lemma validator_accepts [simp]:
  "is_counter i \<Longrightarrow> integer_value (JInt i) = Some i"
  "is_text n s \<Longrightarrow> text_value n (JStr s) = Some s"
  "is_identifier s \<Longrightarrow> identifier_value (JStr s) = Some s"
  "is_uuid s \<Longrightarrow> canonical_uuid (JStr s) = Some s"
  "is_base64 e n s \<Longrightarrow> canonical_base64 e n (JStr s) = Some s"
  by simp_all

definition canonical_json :: "json \<Rightarrow> string" where
  "canonical_json v = dumps v"

end
