(* ===== verification/Envelope.thy ===== *)
theory Envelope
  imports Wire
begin

text \<open>
  \<open>OpaqueCiphertextEnvelope\<close> and \<open>EncryptedPatchOperation\<close> of \<open>vaultsync/sync_queue.py\<close>: the data
  that every queue stores, its dictionaries, its total order and its fingerprint.
\<close>

section \<open>Envelopes\<close>

record envelope =
  env_format :: string
  env_version :: int
  object_id :: string
  revision :: string
  parent_revision :: "string option"
  key_epoch :: int
  nonce_b64 :: string
  ciphertext_b64 :: string
  aad_b64 :: string
  signature_b64 :: string
  tombstone :: bool
  content_sha256 :: string

definition OPAQUE_ENVELOPE_FORMAT :: string where
  "OPAQUE_ENVELOPE_FORMAT = ''atlasvault-opaque-ciphertext-envelope''"

definition envelope_keys :: "string list" where
  "envelope_keys = [''format'', ''version'', ''object_id'', ''revision'', ''parent_revision'', ''key_epoch'',
     ''nonce_b64'', ''ciphertext_b64'', ''aad_b64'', ''signature_b64'', ''tombstone'', ''content_sha256'']"

text \<open>A nullable field: \<open>None\<close> or a value that the validator lets through.\<close>

fun nullable :: "(json \<Rightarrow> 'a option) \<Rightarrow> json \<Rightarrow> 'a option option" where
  "nullable f JNull = Some None"
| "nullable f v = map_option Some (f v)"

fun json_opt :: "string option \<Rightarrow> json" where
  "json_opt None = JNull"
| "json_opt (Some s) = JStr s"

definition envelope_from_dict :: "json \<Rightarrow> envelope option" where
  "envelope_from_dict v = do {
     obj \<leftarrow> mapping v;
     exact obj envelope_keys;
     format_v \<leftarrow> map_of obj ''format'';
     require (format_v = JStr OPAQUE_ENVELOPE_FORMAT);
     version \<leftarrow> map_of obj ''version'' \<bind> integer_value;
     parent \<leftarrow> map_of obj ''parent_revision'' \<bind> nullable identifier_value;
     dead \<leftarrow> map_of obj ''tombstone'' \<bind> json_bool;
     ciphertext \<leftarrow> map_of obj ''ciphertext_b64'' \<bind> canonical_base64 None 16;
     digest_text \<leftarrow> map_of obj ''content_sha256'' \<bind> text_value 64;
     content \<leftarrow> b64decode ciphertext;
     require (match_sha256 digest_text \<and> sha256_hex content = digest_text);
     object_text \<leftarrow> map_of obj ''object_id'' \<bind> identifier_value;
     revision_text \<leftarrow> map_of obj ''revision'' \<bind> identifier_value;
     epoch \<leftarrow> map_of obj ''key_epoch'' \<bind> integer_value;
     nonce \<leftarrow> map_of obj ''nonce_b64'' \<bind> canonical_base64 (Some 12) 1;
     aad \<leftarrow> map_of obj ''aad_b64'' \<bind> canonical_base64 None 1;
     signature \<leftarrow> map_of obj ''signature_b64'' \<bind> canonical_base64 None 1;
     Some \<lparr>env_format = OPAQUE_ENVELOPE_FORMAT, env_version = version, object_id = object_text,
       revision = revision_text, parent_revision = parent, key_epoch = epoch, nonce_b64 = nonce,
       ciphertext_b64 = ciphertext, aad_b64 = aad, signature_b64 = signature, tombstone = dead,
       content_sha256 = digest_text\<rparr> }"

definition envelope_to_dict :: "envelope \<Rightarrow> json" where
  "envelope_to_dict e = JObj
     [(''format'', JStr (env_format e)), (''version'', JInt (env_version e)),
      (''object_id'', JStr (object_id e)), (''revision'', JStr (revision e)),
      (''parent_revision'', json_opt (parent_revision e)), (''key_epoch'', JInt (key_epoch e)),
      (''nonce_b64'', JStr (nonce_b64 e)), (''ciphertext_b64'', JStr (ciphertext_b64 e)),
      (''aad_b64'', JStr (aad_b64 e)), (''signature_b64'', JStr (signature_b64 e)),
      (''tombstone'', JBool (tombstone e)), (''content_sha256'', JStr (content_sha256 e))]"

text \<open>What every envelope that came through \<open>from_dict\<close> satisfies.\<close>

definition valid_envelope :: "envelope \<Rightarrow> bool" where
  "valid_envelope e \<longleftrightarrow>
     env_format e = OPAQUE_ENVELOPE_FORMAT \<and> is_counter (env_version e)
     \<and> is_identifier (object_id e) \<and> is_identifier (revision e)
     \<and> (\<forall>p. parent_revision e = Some p \<longrightarrow> is_identifier p)
     \<and> is_counter (key_epoch e) \<and> is_base64 (Some 12) 1 (nonce_b64 e)
     \<and> is_base64 None 16 (ciphertext_b64 e) \<and> is_base64 None 1 (aad_b64 e)
     \<and> is_base64 None 1 (signature_b64 e) \<and> match_sha256 (content_sha256 e)
     \<and> (\<exists>bs. b64decode (ciphertext_b64 e) = Some bs \<and> sha256_hex bs = content_sha256 e)"

lemma nullable_iff:
  "nullable identifier_value v = Some p \<longleftrightarrow> v = json_opt p \<and> (\<forall>s. p = Some s \<longrightarrow> is_identifier s)"
  by (cases v; cases p) auto

lemma nullable_accepts [simp]:
  "\<forall>s. p = Some s \<longrightarrow> is_identifier s \<Longrightarrow> nullable identifier_value (json_opt p) = Some p"
  by (simp add: nullable_iff)

lemma envelope_from_to: "valid_envelope e \<Longrightarrow> envelope_from_dict (envelope_to_dict e) = Some e"
  by (cases e) (auto simp: envelope_from_dict_def envelope_to_dict_def exact_def envelope_keys_def
      valid_envelope_def nullable_iff)

lemma envelope_from_valid: "envelope_from_dict v = Some e \<Longrightarrow> valid_envelope e"
  unfolding envelope_from_dict_def
  by (auto elim!: bind_SomeE simp: valid_envelope_def nullable_iff)

interpretation envelope_codec: codec valid_envelope envelope_to_dict envelope_from_dict
  by unfold_locales (simp_all add: envelope_from_to envelope_from_valid)

section \<open>Patch operations\<close>

record operation =
  op_format :: string
  op_version :: int
  operation_id :: string
  operation_type :: string
  author_device_id :: string
  author_sequence :: int
  lamport :: int
  op_envelope :: envelope

definition PATCH_FORMAT :: string where
  "PATCH_FORMAT = ''atlasvault-encrypted-patch-operation''"

definition operation_keys :: "string list" where
  "operation_keys = [''format'', ''version'', ''operation_id'', ''operation_type'', ''author_device_id'',
     ''author_sequence'', ''lamport'', ''envelope'']"

definition type_of_tombstone :: "bool \<Rightarrow> string" where
  "type_of_tombstone dead = (if dead then ''delete'' else ''upsert'')"

definition operation_from_dict :: "json \<Rightarrow> operation option" where
  "operation_from_dict v = do {
     obj \<leftarrow> mapping v;
     exact obj operation_keys;
     format_v \<leftarrow> map_of obj ''format'';
     version_v \<leftarrow> map_of obj ''version'';
     require (format_v = JStr PATCH_FORMAT \<and> py_eq_one version_v);
     env \<leftarrow> map_of obj ''envelope'' \<bind> envelope_from_dict;
     type_v \<leftarrow> map_of obj ''operation_type'';
     require (type_v = JStr (type_of_tombstone (tombstone env)));
     op_id \<leftarrow> map_of obj ''operation_id'' \<bind> canonical_uuid;
     author \<leftarrow> map_of obj ''author_device_id'' \<bind> identifier_value;
     sequence \<leftarrow> map_of obj ''author_sequence'' \<bind> integer_value;
     clock \<leftarrow> map_of obj ''lamport'' \<bind> integer_value;
     Some \<lparr>op_format = PATCH_FORMAT, op_version = 1, operation_id = op_id,
       operation_type = type_of_tombstone (tombstone env), author_device_id = author,
       author_sequence = sequence, lamport = clock, op_envelope = env\<rparr> }"

definition operation_to_dict :: "operation \<Rightarrow> json" where
  "operation_to_dict x = JObj
     [(''format'', JStr (op_format x)), (''version'', JInt (op_version x)),
      (''operation_id'', JStr (operation_id x)), (''operation_type'', JStr (operation_type x)),
      (''author_device_id'', JStr (author_device_id x)),
      (''author_sequence'', JInt (author_sequence x)), (''lamport'', JInt (lamport x)),
      (''envelope'', envelope_to_dict (op_envelope x))]"

definition valid_operation :: "operation \<Rightarrow> bool" where
  "valid_operation x \<longleftrightarrow>
     op_format x = PATCH_FORMAT \<and> op_version x = 1 \<and> is_uuid (operation_id x)
     \<and> operation_type x = type_of_tombstone (tombstone (op_envelope x))
     \<and> is_identifier (author_device_id x) \<and> is_counter (author_sequence x)
     \<and> is_counter (lamport x) \<and> valid_envelope (op_envelope x)"

lemma operation_from_to: "valid_operation x \<Longrightarrow> operation_from_dict (operation_to_dict x) = Some x"
  by (cases x) (simp add: operation_from_dict_def operation_to_dict_def exact_def operation_keys_def
      valid_operation_def envelope_from_to)

lemma operation_from_valid: "operation_from_dict v = Some x \<Longrightarrow> valid_operation x"
  unfolding operation_from_dict_def
  by (auto elim!: bind_SomeE simp: valid_operation_def envelope_from_valid)

interpretation operation_codec: codec valid_operation operation_to_dict operation_from_dict
  by unfold_locales (simp_all add: operation_from_to operation_from_valid)

text \<open>\<open>_validated_operation\<close>: what every entry point runs on the operation it is given.\<close>

definition validated_operation :: "operation \<Rightarrow> operation option" where
  "validated_operation x = operation_from_dict (operation_to_dict x)"

lemma json_opt_inject [simp]: "json_opt p = json_opt q \<longleftrightarrow> p = q"
  by (cases p; cases q) auto

lemma json_opt_eq [simp]:
  "json_opt p = JStr s \<longleftrightarrow> p = Some s" "JStr s = json_opt p \<longleftrightarrow> p = Some s"
  "json_opt p = JNull \<longleftrightarrow> p = None" "JNull = json_opt p \<longleftrightarrow> p = None"
  by (cases p; auto)+

lemma envelope_reparse: "envelope_from_dict (envelope_to_dict e) = Some e' \<Longrightarrow> e' = e"
  unfolding envelope_from_dict_def envelope_to_dict_def
  by (cases e) (auto elim!: bind_SomeE simp: nullable_iff)

lemma validated_operation_iff:
  "validated_operation x = Some y \<longleftrightarrow> y = x \<and> valid_operation x"
proof
  assume h: "validated_operation x = Some y"
  then have "valid_operation y" by (simp add: validated_operation_def operation_from_valid)
  moreover from h have "y = x"
    unfolding validated_operation_def operation_from_dict_def operation_to_dict_def
    by (cases x) (auto elim!: bind_SomeE dest!: envelope_reparse)
  ultimately show "y = x \<and> valid_operation x" by simp
next
  assume "y = x \<and> valid_operation x"
  then show "validated_operation x = Some y"
    by (simp add: validated_operation_def operation_from_to)
qed

section \<open>Order and fingerprint\<close>

definition order_key :: "operation \<Rightarrow> int \<times> string \<times> int \<times> string" where
  "order_key x = (lamport x, author_device_id x, author_sequence x, operation_id x)"

text \<open>\<open>__lt__\<close>; \<open>sorted(operations)\<close> is the stable sort by this relation.\<close>

definition operation_less :: "operation \<Rightarrow> operation \<Rightarrow> bool" where
  "operation_less x y \<longleftrightarrow> order_key x < order_key y"

definition sort_operations :: "operation list \<Rightarrow> operation list" where
  "sort_operations xs = sort_key order_key xs"

definition fingerprint :: "operation \<Rightarrow> string" where
  "fingerprint x = sha256_hex (canonical_json (operation_to_dict x))"

lemma match_fingerprint [simp]: "match_sha256 (fingerprint x)"
  by (simp add: fingerprint_def)

lemma order_key_operation_id: "order_key x = order_key y \<Longrightarrow> operation_id x = operation_id y"
  by (simp add: order_key_def)

lemma distinct_order_key: "distinct (map operation_id xs) \<Longrightarrow> distinct (map order_key xs)"
  by (auto simp: distinct_map inj_on_def dest: order_key_operation_id)

lemma sort_operations_simps [simp]:
  "set (sort_operations xs) = set xs"
  "length (sort_operations xs) = length xs"
  "sorted (map order_key (sort_operations xs))"
  by (simp_all add: sort_operations_def)

lemma sort_operations_id: "sorted (map order_key xs) \<Longrightarrow> sort_operations xs = xs"
  by (simp add: sort_operations_def sort_key_id)

lemma sort_operations_id_iff: "xs = sort_operations xs \<longleftrightarrow> sorted (map order_key xs)"
  by (simp add: sort_operations_def sort_key_id_iff)

lemma distinct_sort_operations:
  "distinct (map operation_id (sort_operations xs)) \<longleftrightarrow> distinct (map operation_id xs)"
proof -
  have "mset (map operation_id (sort_operations xs)) = mset (map operation_id xs)"
    by (simp add: sort_operations_def)
  then show ?thesis by (rule mset_eq_imp_distinct_iff)
qed

lemma order_key_inj_on: "distinct (map operation_id xs) \<Longrightarrow> inj_on order_key (set xs)"
  by (meson distinct_map distinct_order_key)

end
