(* ===== verification/Store.thy ===== *)
theory Store
  imports Wire
begin

text \<open>
  The durable state of one queue as its owner sees it: \<open>_EncryptedQueueFile.read\<close> returns the
  decrypted JSON object of the file, or the default where there is no file; \<open>write\<close> replaces
  the object, and raises before it touches the file when the serialised state or the
  encrypted file would be larger than the cap.  A \<open>store\<close> is that object, \<open>None\<close> for no file.
  (Failing system calls, and the bytes of the file, are outside this view.)
\<close>

type_synonym store = "json option"

definition store_read :: "store \<Rightarrow> json \<Rightarrow> json" where
  "store_read st dflt = (case st of None \<Rightarrow> dflt | Some v \<Rightarrow> v)"

text \<open>The length of the outer JSON object
  \<^verbatim>\<open>{"ciphertext_b64":"...","format":"...","nonce_b64":"...","version":1}\<close> around an
  AES-GCM ciphertext (16 bytes longer than the state) and a 12-byte nonce.\<close>

definition queue_file_length :: "nat \<Rightarrow> nat" where
  "queue_file_length n = 4 * ((n + 16 + 2) div 3) + 111"

definition write_fits :: "json \<Rightarrow> bool" where
  "write_fits state \<longleftrightarrow>
     (let n = length (canonical_json state) in
       0 < n \<and> n \<le> MAXIMUM_QUEUE_FILE_BYTES \<and> queue_file_length n \<le> MAXIMUM_QUEUE_FILE_BYTES)"

definition store_write :: "json \<Rightarrow> store option" where
  "store_write state = (if write_fits state then Some (Some state) else None)"

lemma store_read_simps [simp]:
  "store_read None d = d"
  "store_read (Some v) d = v"
  by (simp_all add: store_read_def)

lemma store_write_iff: "store_write v = Some st \<longleftrightarrow> write_fits v \<and> st = Some v"
  by (auto simp: store_write_def)

lemma store_write_None: "store_write v = None \<longleftrightarrow> \<not> write_fits v"
  by (simp add: store_write_def)

lemma dumps_obj_nonempty: "0 < length (canonical_json (JObj es))"
  by (simp add: canonical_json_def)

lemma write_fits_weight: "json_weight (JObj es) \<le> 90000000 \<Longrightarrow> write_fits (JObj es)"
proof -
  assume w: "json_weight (JObj es) \<le> 90000000"
  let ?n = "length (canonical_json (JObj es))"
  have n: "?n \<le> 90000000"
    using length_dumps [of "JObj es"] w by (simp add: canonical_json_def del: dumps.simps json_weight.simps)
  then have "4 * ((?n + 16 + 2) div 3) + 111 \<le> 128 * 1024 * 1024" by linarith
  with n show ?thesis
    using dumps_obj_nonempty [of es]
    by (simp add: write_fits_def queue_file_length_def MAXIMUM_QUEUE_FILE_BYTES_def Let_def)
qed

section \<open>Persistent components\<close>

text \<open>
  The contract every queue keeps with its file: the default object is a valid state, and a
  state that was written is the state that is loaded next.
\<close>

locale persistent = codec valid enc dec
  for valid :: "'a \<Rightarrow> bool" and enc :: "'a \<Rightarrow> json" and dec :: "json \<Rightarrow> 'a option" +
  fixes dflt :: json and initial :: 'a
  assumes load_default: "dec dflt = Some initial"
begin

lemma load_new: "dec (store_read None dflt) = Some initial"
  by (simp add: load_default)

lemma initial_valid: "valid initial"
  using load_default by (rule dec_valid)

lemma load_valid: "dec (store_read st dflt) = Some x \<Longrightarrow> valid x"
  by (rule dec_valid)

lemma load_written: "valid x \<Longrightarrow> store_write (enc x) = Some st \<Longrightarrow> dec (store_read st dflt) = Some x"
  by (simp add: store_write_iff dec_enc)

end

end
