(* ===== verification/Samples.thy ===== *)
theory Samples
  imports Envelope Store
begin

text \<open>
  Concrete envelopes and operations for the witnesses: all-zero nonce and ciphertext, given
  identifiers.  They satisfy every check of the wire format.
\<close>

definition sample_uuid :: "char \<Rightarrow> string" where
  "sample_uuid d = ''00000000-0000-0000-0000-00000000000'' @ [d]"

definition sample_envelope :: "string \<Rightarrow> string \<Rightarrow> string option \<Rightarrow> bool \<Rightarrow> envelope" where
  "sample_envelope obj rv parent dead =
     (let zeros = replicate 16 (byte_of 0) in
     \<lparr>env_format = OPAQUE_ENVELOPE_FORMAT, env_version = 1, object_id = obj, revision = rv,
       parent_revision = parent, key_epoch = 1, nonce_b64 = b64encode (replicate 12 (byte_of 0)),
       ciphertext_b64 = b64encode zeros, aad_b64 = b64encode (replicate 3 (byte_of 0)),
       signature_b64 = b64encode (replicate 3 (byte_of 0)), tombstone = dead,
       content_sha256 = sha256_hex zeros\<rparr>)"

definition sample_operation :: "char \<Rightarrow> string \<Rightarrow> int \<Rightarrow> int \<Rightarrow> envelope \<Rightarrow> operation" where
  "sample_operation d author n clock env =
     \<lparr>op_format = PATCH_FORMAT, op_version = 1, operation_id = sample_uuid d,
       operation_type = type_of_tombstone (tombstone env), author_device_id = author,
       author_sequence = n, lamport = clock, op_envelope = env\<rparr>"

lemma is_uuid_sample: "is_hex d \<Longrightarrow> is_uuid (sample_uuid d)"
  by (simp add: is_uuid_def is_text_def sample_uuid_def match_uuid_def uuid_groups_def is_hex_def
      byte_val_def Let_def numeral_eq_Suc)

lemma sample_uuid_inject [simp]: "sample_uuid d = sample_uuid d' \<longleftrightarrow> d = d'"
  by (simp add: sample_uuid_def)

lemma valid_sample_envelope:
  "is_identifier obj \<Longrightarrow> is_identifier rv \<Longrightarrow> (\<And>p. parent = Some p \<Longrightarrow> is_identifier p) \<Longrightarrow>
     valid_envelope (sample_envelope obj rv parent dead)"
  by (simp add: valid_envelope_def sample_envelope_def Let_def is_base64_encode is_counter_def
      MAXIMUM_INTEGER_def)

lemma valid_sample_operation:
  "is_hex d \<Longrightarrow> is_identifier author \<Longrightarrow> is_counter n \<Longrightarrow> is_counter clock \<Longrightarrow> valid_envelope env \<Longrightarrow>
     valid_operation (sample_operation d author n clock env)"
  by (simp add: valid_operation_def sample_operation_def is_uuid_sample)

lemma sample_operation_simps [simp]:
  "operation_id (sample_operation d author n clock env) = sample_uuid d"
  "author_device_id (sample_operation d author n clock env) = author"
  "author_sequence (sample_operation d author n clock env) = n"
  "lamport (sample_operation d author n clock env) = clock"
  "op_envelope (sample_operation d author n clock env) = env"
  by (simp_all add: sample_operation_def)

lemma sample_envelope_simps [simp]:
  "object_id (sample_envelope obj rv parent dead) = obj"
  "revision (sample_envelope obj rv parent dead) = rv"
  "parent_revision (sample_envelope obj rv parent dead) = parent"
  "tombstone (sample_envelope obj rv parent dead) = dead"
  by (simp_all add: sample_envelope_def Let_def)

text \<open>The two operations most witnesses use: device \<open>a\<close> creates object \<open>x\<close> and then deletes it.\<close>

definition sample_create :: operation where
  "sample_create = sample_operation (CHR ''1'') ''a'' 1 1 (sample_envelope ''x'' ''r1'' None False)"

definition sample_delete :: operation where
  "sample_delete = sample_operation (CHR ''2'') ''a'' 2 2 (sample_envelope ''x'' ''r2'' (Some ''r1'') True)"

lemma is_identifier_samples [simp]:
  "is_identifier ''a''" "is_identifier ''b''" "is_identifier ''x''" "is_identifier ''y''"
  "is_identifier ''r1''" "is_identifier ''r2''"
  by (simp_all add: is_identifier_def identifier_char_def byte_val_def Let_def)

lemma is_counter_samples [simp]:
  "is_counter 1" "is_counter 2" "is_counter 3"
  by (simp_all add: is_counter_def MAXIMUM_INTEGER_def)

lemma is_hex_samples [simp]:
  "is_hex (CHR ''1'')" "is_hex (CHR ''2'')" "is_hex (CHR ''3'')"
  by (simp_all add: is_hex_def byte_val_def Let_def)

lemma valid_sample_create: "valid_operation sample_create"
  and valid_sample_delete: "valid_operation sample_delete"
  by (auto simp: sample_create_def sample_delete_def intro!: valid_sample_operation valid_sample_envelope)

lemma sample_create_id: "operation_id sample_create = sample_uuid (CHR ''1'')"
  and sample_delete_id: "operation_id sample_delete = sample_uuid (CHR ''2'')"
  by (simp_all add: sample_create_def sample_delete_def)

section \<open>Sizes\<close>

lemma nat_digits_small [simp]: "n < 10 \<Longrightarrow> nat_digits n = [char_of (48 + n)]"
  by (subst nat_digits.simps) simp

lemma json_weight_opt: "json_weight (json_opt p) \<le> 4 + 6 * (case p of None \<Rightarrow> 0 | Some s \<Rightarrow> length s)"
  by (cases p) simp_all

lemma weight_sample_envelope:
  assumes "length obj \<le> 128" "length rv \<le> 128" "\<And>p. parent = Some p \<Longrightarrow> length p \<le> 128"
  shows "json_weight (envelope_to_dict (sample_envelope obj rv parent dead)) \<le> 10000"
proof -
  have "json_weight (json_opt parent) \<le> 4 + 6 * 128"
    using json_weight_opt [of parent] assms(3) by (cases parent) auto
  then show ?thesis using assms(1,2)
    by (simp add: envelope_to_dict_def sample_envelope_def Let_def length_b64encode int_str_def
        OPAQUE_ENVELOPE_FORMAT_def)
qed

lemma weight_operation:
  assumes "length (operation_id x) \<le> 128" "length (operation_type x) \<le> 128"
    and "length (author_device_id x) \<le> 128" "length (int_str (author_sequence x)) \<le> 128"
    and "length (int_str (lamport x)) \<le> 128" "op_format x = PATCH_FORMAT" "op_version x = 1"
    and "json_weight (envelope_to_dict (op_envelope x)) \<le> 10000"
  shows "json_weight (operation_to_dict x) \<le> 20000"
  using assms by (simp add: operation_to_dict_def PATCH_FORMAT_def int_str_def)

lemma weight_sample_operation:
  assumes "length author \<le> 128" "length (int_str n) \<le> 128" "length (int_str clock) \<le> 128"
    and "json_weight (envelope_to_dict env) \<le> 10000"
  shows "json_weight (operation_to_dict (sample_operation d author n clock env)) \<le> 20000"
  by (rule weight_operation)
    (use assms in \<open>simp_all add: sample_operation_def sample_uuid_def type_of_tombstone_def\<close>)

lemma weight_samples:
  "json_weight (operation_to_dict sample_create) \<le> 20000"
  "json_weight (operation_to_dict sample_delete) \<le> 20000"
  unfolding sample_create_def sample_delete_def
  by (auto intro!: weight_sample_operation weight_sample_envelope simp: int_str_def)

end
