(* ===== verification/Outbox.thy ===== *)
theory Outbox
  imports Samples
begin

text \<open>
  \<open>DurableEncryptedOutbox\<close> of \<open>vaultsync/sync_queue.py\<close>: the local operations that the remote
  side has not accepted yet, in the order of \<open>order_key\<close>.  Its contract is the finite map
  from operation identifiers to pending operations.
\<close>

definition OUTBOX_FORMAT :: string where
  "OUTBOX_FORMAT = ''atlasvault-encrypted-outbox-state''"

definition outbox_keys :: "string list" where
  "outbox_keys = [''format'', ''version'', ''operations'']"

definition outbox_default :: json where
  "outbox_default = JObj
     [(''format'', JStr OUTBOX_FORMAT), (''version'', JInt 1), (''operations'', JList [])]"

definition outbox_dict :: "operation list \<Rightarrow> json" where
  "outbox_dict ops = JObj
     [(''format'', JStr OUTBOX_FORMAT), (''version'', JInt 1),
      (''operations'', JList (map operation_to_dict ops))]"

definition outbox_from_state :: "json \<Rightarrow> operation list option" where
  "outbox_from_state v = do {
     state \<leftarrow> mapping v;
     exact state outbox_keys;
     format_v \<leftarrow> map_of state ''format'';
     version_v \<leftarrow> map_of state ''version'';
     require (format_v = JStr OUTBOX_FORMAT \<and> py_eq_one version_v);
     raw \<leftarrow> map_of state ''operations'' \<bind> json_list;
     require (length raw \<le> MAXIMUM_QUEUE_OPERATIONS);
     operations \<leftarrow> traverse operation_from_dict raw;
     require (operations = sort_operations operations
       \<and> set_size (map operation_id operations) = length operations);
     Some operations }"

definition load_outbox :: "store \<Rightarrow> operation list option" where
  "load_outbox st = outbox_from_state (store_read st outbox_default)"

definition outbox_pending :: "store \<Rightarrow> operation list option" where
  "outbox_pending st = load_outbox st"

definition outbox_next_pending :: "store \<Rightarrow> operation option option" where
  "outbox_next_pending st = do {
     pending \<leftarrow> outbox_pending st;
     Some (case pending of [] \<Rightarrow> None | x # _ \<Rightarrow> Some x) }"

definition outbox_enqueue :: "store \<Rightarrow> operation \<Rightarrow> store option" where
  "outbox_enqueue st x = do {
     new \<leftarrow> validated_operation x;
     operations \<leftarrow> load_outbox st;
     case find (\<lambda>current. operation_id current = operation_id new) operations of
       Some current \<Rightarrow> (if fingerprint current \<noteq> fingerprint new then None else Some st)
     | None \<Rightarrow> do {
         require (\<not> MAXIMUM_QUEUE_OPERATIONS \<le> length operations);
         store_write (outbox_dict (sort_operations (operations @ [new]))) } }"

definition outbox_confirm :: "store \<Rightarrow> string \<Rightarrow> store option" where
  "outbox_confirm st i = do {
     op_id \<leftarrow> canonical_uuid (JStr i);
     operations \<leftarrow> load_outbox st;
     let retained = filter (\<lambda>item. operation_id item \<noteq> op_id) operations;
     require (length retained \<noteq> length operations);
     store_write (outbox_dict retained) }"

section \<open>The loaded state\<close>

definition valid_outbox :: "operation list \<Rightarrow> bool" where
  "valid_outbox ops \<longleftrightarrow>
     (\<forall>x \<in> set ops. valid_operation x) \<and> sorted (map order_key ops)
     \<and> distinct (map operation_id ops) \<and> length ops \<le> MAXIMUM_QUEUE_OPERATIONS"

lemma outbox_from_to: "valid_outbox ops \<Longrightarrow> outbox_from_state (outbox_dict ops) = Some ops"
  by (simp add: outbox_from_state_def outbox_dict_def exact_def outbox_keys_def valid_outbox_def
      operation_codec.list_dec_enc sort_operations_id)

lemma outbox_from_valid: "outbox_from_state v = Some ops \<Longrightarrow> valid_outbox ops"
  unfolding outbox_from_state_def
  by (auto elim!: bind_SomeE dest: operation_codec.list_dec_valid traverse_length
      simp: valid_outbox_def sort_operations_id_iff)

lemma outbox_default_eq: "outbox_default = outbox_dict []"
  by (simp add: outbox_default_def outbox_dict_def)

lemma valid_outbox_Nil: "valid_outbox []"
  by (simp add: valid_outbox_def)

interpretation outbox: persistent valid_outbox outbox_dict outbox_from_state outbox_default "[]"
  by unfold_locales
    (simp_all add: outbox_from_to outbox_from_valid outbox_default_eq valid_outbox_Nil)

lemma load_outbox_valid: "load_outbox st = Some ops \<Longrightarrow> valid_outbox ops"
  unfolding load_outbox_def by (rule outbox.load_valid)

lemma load_outbox_written:
  "valid_outbox ops \<Longrightarrow> store_write (outbox_dict ops) = Some st \<Longrightarrow> load_outbox st = Some ops"
  unfolding load_outbox_def by (rule outbox.load_written)

section \<open>The contract: a finite map from identifiers to operations\<close>

definition outbox_abs :: "operation list \<Rightarrow> string \<Rightarrow> operation option" where
  "outbox_abs ops = map_of (map (\<lambda>x. (operation_id x, x)) ops)"

lemma outbox_abs_eq_Some:
  "valid_outbox ops \<Longrightarrow> outbox_abs ops i = Some x \<longleftrightarrow> x \<in> set ops \<and> operation_id x = i"
  by (auto simp: outbox_abs_def valid_outbox_def comp_def map_of_eq_Some_iff)

lemma outbox_abs_eq_None: "outbox_abs ops i = None \<longleftrightarrow> i \<notin> operation_id ` set ops"
  by (auto simp: outbox_abs_def map_of_eq_None_iff image_image)

lemma outbox_abs_find: "outbox_abs ops i = find (\<lambda>x. operation_id x = i) ops"
  by (induction ops) (auto simp: outbox_abs_def)

lemma valid_outbox_insert:
  assumes "valid_outbox ops" "valid_operation x" "outbox_abs ops (operation_id x) = None"
    and "length ops < MAXIMUM_QUEUE_OPERATIONS"
  shows "valid_outbox (sort_operations (ops @ [x]))"
  using assms by (auto simp: valid_outbox_def distinct_sort_operations outbox_abs_eq_None)

lemma outbox_abs_insert:
  assumes "valid_outbox ops" "valid_outbox (sort_operations (ops @ [x]))"
  shows "outbox_abs (sort_operations (ops @ [x])) = (outbox_abs ops)(operation_id x \<mapsto> x)"
proof (rule map_eqI_Some)
  fix i y
  have "distinct (map operation_id (ops @ [x]))"
    using assms(2) unfolding valid_outbox_def distinct_sort_operations by blast
  then show "outbox_abs (sort_operations (ops @ [x])) i = Some y
      \<longleftrightarrow> ((outbox_abs ops)(operation_id x \<mapsto> x)) i = Some y"
    unfolding outbox_abs_eq_Some [OF assms(2)]
    by (auto simp: outbox_abs_eq_Some [OF assms(1)] image_iff)
qed

lemma valid_outbox_filter: "valid_outbox ops \<Longrightarrow> valid_outbox (filter P ops)"
  by (auto simp: valid_outbox_def sorted_filter distinct_map_filter intro: le_trans [OF length_filter_le])

lemma outbox_abs_filter:
  assumes "valid_outbox ops"
  shows "outbox_abs (filter (\<lambda>y. operation_id y \<noteq> i) ops) = (outbox_abs ops)(i := None)"
proof (rule map_eqI_Some)
  fix k x
  show "outbox_abs (filter (\<lambda>y. operation_id y \<noteq> i) ops) k = Some x
      \<longleftrightarrow> ((outbox_abs ops)(i := None)) k = Some x"
    unfolding outbox_abs_eq_Some [OF valid_outbox_filter [OF assms]]
    by (auto simp: outbox_abs_eq_Some [OF assms])
qed

lemma outbox_enqueue_cases:
  assumes "load_outbox st = Some ops"
  shows "outbox_enqueue st x =
    (if \<not> valid_operation x then None
     else case outbox_abs ops (operation_id x) of
       Some y \<Rightarrow> if fingerprint y = fingerprint x then Some st else None
     | None \<Rightarrow> if length ops < MAXIMUM_QUEUE_OPERATIONS
               then store_write (outbox_dict (sort_operations (ops @ [x]))) else None)"
proof (cases "valid_operation x")
  case True
  then have "validated_operation x = Some x" by (simp add: validated_operation_iff)
  then show ?thesis using True assms
    by (auto simp: outbox_enqueue_def outbox_abs_find not_le split: option.splits)
next
  case False
  then have "validated_operation x = None"
    using validated_operation_iff [of x] by (cases "validated_operation x") auto
  then show ?thesis using False by (simp add: outbox_enqueue_def)
qed

lemma outbox_confirm_cases:
  assumes "load_outbox st = Some ops"
  shows "outbox_confirm st i =
    (if outbox_abs ops i = None then None
     else store_write (outbox_dict (filter (\<lambda>y. operation_id y \<noteq> i) ops)))"
proof (cases "outbox_abs ops i")
  case None
  then have "filter (\<lambda>y. operation_id y \<noteq> i) ops = ops"
    by (intro filter_True) (auto simp: outbox_abs_eq_None)
  then show ?thesis using None assms
    by (cases "canonical_uuid (JStr i)") (auto simp: outbox_confirm_def)
next
  case (Some y)
  then have y: "y \<in> set ops" "operation_id y = i"
    using outbox_abs_eq_Some [OF load_outbox_valid [OF assms]] by auto
  moreover from y have "is_uuid i"
    using load_outbox_valid [OF assms] by (auto simp: valid_outbox_def valid_operation_def)
  moreover have "length (filter (\<lambda>y. operation_id y \<noteq> i) ops) \<noteq> length ops"
    using y by (simp add: length_filter_less less_imp_neq)
  ultimately show ?thesis using Some assms by (simp add: outbox_confirm_def)
qed

lemma outbox_enqueue_SomeD:
  assumes "load_outbox st = Some ops" "outbox_enqueue st x = Some s"
  shows "if operation_id x \<in> operation_id ` set ops then s = st
    else s = Some (outbox_dict (sort_operations (ops @ [x])))
      \<and> load_outbox s = Some (sort_operations (ops @ [x]))"
proof (cases "outbox_abs ops (operation_id x)")
  case None
  then have "valid_outbox (sort_operations (ops @ [x]))"
    using assms load_outbox_valid [OF assms(1)]
    by (auto simp: outbox_enqueue_cases [OF assms(1)] valid_outbox_insert split: if_splits)
  moreover have "store_write (outbox_dict (sort_operations (ops @ [x]))) = Some s"
    using None assms(2) by (simp add: outbox_enqueue_cases [OF assms(1)] split: if_splits)
  moreover have "operation_id x \<notin> operation_id ` set ops"
    using None by (simp add: outbox_abs_eq_None)
  ultimately show ?thesis using load_outbox_written by (auto simp: store_write_iff)
next
  case (Some y)
  then have "operation_id x \<in> operation_id ` set ops"
    using outbox_abs_eq_None [of ops "operation_id x"] by auto
  then show ?thesis using Some assms(2)
    by (auto simp: outbox_enqueue_cases [OF assms(1)] split: if_splits)
qed

lemma sort_operations_swap:
  assumes "distinct (map operation_id (ops @ [x, y]))"
  shows "sort_operations (sort_operations (ops @ [x]) @ [y])
    = sort_operations (sort_operations (ops @ [y]) @ [x])"
  unfolding sort_operations_def
proof (rule sort_key_set_eq)
  have d: "distinct (map order_key (ops @ [x, y]))" using assms by (rule distinct_order_key)
  then show "distinct (map order_key (sort_key order_key (ops @ [x]) @ [y]))"
    and "distinct (map order_key (sort_key order_key (ops @ [y]) @ [x]))"
    by (auto simp: distinct_map)
qed auto

section \<open>Small outboxes\<close>

lemma load_outbox_new: "load_outbox None = Some []"
  unfolding load_outbox_def by (rule outbox.load_new)

lemma outbox_abs_Nil: "outbox_abs [] = Map.empty"
  by (simp add: outbox_abs_def)

lemma write_fits_outbox:
  assumes "\<forall>x \<in> set ops. json_weight (operation_to_dict x) \<le> 20000" "length ops \<le> 100"
  shows "write_fits (outbox_dict ops)"
proof -
  have "sum_list (map (\<lambda>x. json_weight (operation_to_dict x) + 1) ops) \<le> 20001 * length ops"
    using assms(1) by (induction ops) auto
  then show ?thesis unfolding outbox_dict_def using assms(2)
    by (intro write_fits_weight) (simp add: comp_def OUTBOX_FORMAT_def int_str_def)
qed

lemma write_fits_sample: "write_fits (outbox_dict (sort_operations [sample_create]))"
  and write_fits_Nil: "write_fits (outbox_dict [])"
  by (auto intro!: write_fits_outbox simp: weight_samples)

lemma sample_create_less: "operation_less sample_create sample_delete"
  by (simp add: operation_less_def order_key_def sample_create_def sample_delete_def)

lemma load_outbox_sample: "load_outbox (Some (outbox_dict [sample_create])) = Some [sample_create]"
  unfolding load_outbox_def
  by (simp add: outbox_from_to valid_outbox_def valid_sample_create MAXIMUM_QUEUE_OPERATIONS_def)

lemma load_outbox_samples:
  "load_outbox (Some (outbox_dict [sample_create, sample_delete])) = Some [sample_create, sample_delete]"
  unfolding load_outbox_def
  using sample_create_less
  by (simp add: outbox_from_to valid_outbox_def valid_sample_create valid_sample_delete
      MAXIMUM_QUEUE_OPERATIONS_def sample_create_id sample_delete_id operation_less_def)

lemma outbox_enqueue_two:
  assumes "{x, y} = {sample_create, sample_delete}"
  shows "\<exists>s. outbox_enqueue None x \<bind> (\<lambda>s. outbox_enqueue s y) = Some s"
proof -
  have xy: "valid_operation x" "valid_operation y" "operation_id x \<noteq> operation_id y"
      "json_weight (operation_to_dict x) \<le> 20000" "json_weight (operation_to_dict y) \<le> 20000"
    using assms valid_sample_create valid_sample_delete weight_samples
    by (auto simp: doubleton_eq_iff sample_create_id sample_delete_id)
  then have "outbox_enqueue None x = Some (Some (outbox_dict (sort_operations [x])))"
    by (simp add: outbox_enqueue_cases [OF load_outbox_new] outbox_abs_Nil store_write_iff
        MAXIMUM_QUEUE_OPERATIONS_def write_fits_outbox)
  moreover from this have l: "load_outbox (Some (outbox_dict (sort_operations [x]))) = Some (sort_operations [x])"
    using outbox_enqueue_SomeD [OF load_outbox_new, of x] by simp
  then have "outbox_enqueue (Some (outbox_dict (sort_operations [x]))) y \<noteq> None"
    using xy unfolding outbox_enqueue_cases [OF l]
    by (auto simp: store_write_None outbox_abs_def MAXIMUM_QUEUE_OPERATIONS_def write_fits_outbox
        sort_operations_def split: option.splits)
  ultimately show ?thesis by auto
qed

section \<open>Properties\<close>

text \<open>C6: enqueueing refines the insertion of a key into a finite map.  A new identifier is
  added with its operation; a known one with the same fingerprint leaves the file untouched;
  the call raises exactly for an operation that is not well formed, a known identifier with
  another fingerprint, a full outbox, or a file that would be too large.\<close>

theorem outbox_enqueue_refines:
  assumes "load_outbox st = Some ops"
  shows "case outbox_enqueue st x of
      Some st' \<Rightarrow> \<exists>ops'. load_outbox st' = Some ops' \<and> valid_operation x \<and>
        (case outbox_abs ops (operation_id x) of
           None \<Rightarrow> outbox_abs ops' = (outbox_abs ops)(operation_id x \<mapsto> x)
         | Some y \<Rightarrow> st' = st \<and> ops' = ops \<and> fingerprint y = fingerprint x)
    | None \<Rightarrow> \<not> valid_operation x
        \<or> (case outbox_abs ops (operation_id x) of
             None \<Rightarrow> length ops = MAXIMUM_QUEUE_OPERATIONS
               \<or> \<not> write_fits (outbox_dict (sort_operations (ops @ [x])))
           | Some y \<Rightarrow> fingerprint y \<noteq> fingerprint x)"
proof (cases "valid_operation x \<and> outbox_abs ops (operation_id x) = None
    \<and> length ops < MAXIMUM_QUEUE_OPERATIONS")
  case True
  have v: "valid_outbox ops" using assms by (rule load_outbox_valid)
  from True have v': "valid_outbox (sort_operations (ops @ [x]))"
    using v by (simp add: valid_outbox_insert)
  show ?thesis using True assms load_outbox_written [OF v'] outbox_abs_insert [OF v v']
    by (auto simp: outbox_enqueue_cases [OF assms] store_write_iff store_write_None split: option.splits)
next
  case False
  have "length ops \<le> MAXIMUM_QUEUE_OPERATIONS"
    using load_outbox_valid [OF assms] by (simp add: valid_outbox_def)
  with False show ?thesis using assms
    by (auto simp: outbox_enqueue_cases [OF assms] split: option.splits)
qed

theorem outbox_enqueue_refines_witness:
  "\<exists>st' ops'. outbox_enqueue None sample_create = Some st' \<and> load_outbox st' = Some ops'
     \<and> outbox_abs ops' = [sample_uuid (CHR ''1'') \<mapsto> sample_create]"
  using outbox_enqueue_refines [OF load_outbox_new, of sample_create] write_fits_sample
  by (auto simp: outbox_abs_Nil valid_sample_create MAXIMUM_QUEUE_OPERATIONS_def sample_create_id
      split: option.splits)

text \<open>Confirming a pending operation removes that operation and nothing else; an identifier
  that is not pending is an error.\<close>

theorem outbox_confirm_refines:
  assumes "load_outbox st = Some ops"
  shows "case outbox_confirm st i of
      Some st' \<Rightarrow> \<exists>ops'. load_outbox st' = Some ops' \<and> outbox_abs ops i \<noteq> None
        \<and> outbox_abs ops' = (outbox_abs ops)(i := None)
    | None \<Rightarrow> outbox_abs ops i = None
        \<or> \<not> write_fits (outbox_dict (filter (\<lambda>y. operation_id y \<noteq> i) ops))"
proof -
  have v: "valid_outbox ops" using assms by (rule load_outbox_valid)
  show ?thesis
    using load_outbox_written [OF valid_outbox_filter [OF v]] outbox_abs_filter [OF v]
    by (auto simp: outbox_confirm_cases [OF assms] store_write_None split: option.splits)
qed

theorem outbox_confirm_refines_witness:
  "\<exists>st' ops'. outbox_confirm (Some (outbox_dict [sample_create])) (sample_uuid (CHR ''1'')) = Some st'
     \<and> load_outbox st' = Some ops' \<and> outbox_abs ops' = Map.empty"
  using outbox_confirm_refines [OF load_outbox_sample, of "sample_uuid (CHR ''1'')"] write_fits_Nil
  by (auto simp: outbox_abs_def sample_create_id split: option.splits)

text \<open>The operation offered for transfer is pending and is the least of the pending
  operations in the total order (Lamport clock, author, author sequence, identifier).\<close>

theorem outbox_next_pending_least:
  assumes "load_outbox st = Some ops" and "ops \<noteq> []"
  shows "\<exists>x. outbox_next_pending st = Some (Some x) \<and> x \<in> set ops
    \<and> (\<forall>y \<in> set ops. y = x \<or> operation_less x y)"
proof -
  obtain x xs where ops: "ops = x # xs" using assms(2) by (cases ops) auto
  have v: "valid_outbox ops" using assms(1) by (rule load_outbox_valid)
  then have "\<forall>y \<in> set ops. y = x \<or> order_key x < order_key y"
    using order_key_inj_on [of ops] unfolding ops
    by (auto simp: valid_outbox_def inj_on_def less_le)
  then show ?thesis using assms(1) unfolding ops
    by (auto simp: outbox_next_pending_def outbox_pending_def operation_less_def)
qed

theorem outbox_next_pending_least_witness:
  "outbox_next_pending (Some (outbox_dict [sample_create, sample_delete])) = Some (Some sample_create)
     \<and> operation_less sample_create sample_delete"
  using outbox_next_pending_least [OF load_outbox_samples]
  by (auto simp: sample_create_less outbox_next_pending_def outbox_pending_def load_outbox_samples)

text \<open>The file does not depend on the order in which two operations are enqueued.\<close>

theorem outbox_enqueue_commute:
  assumes "load_outbox st = Some ops" and "operation_id x \<noteq> operation_id y"
    and "outbox_enqueue st x \<bind> (\<lambda>s. outbox_enqueue s y) = Some s1"
    and "outbox_enqueue st y \<bind> (\<lambda>s. outbox_enqueue s x) = Some s2"
  shows "s1 = s2"
proof -
  obtain sx sy where x: "outbox_enqueue st x = Some sx" "outbox_enqueue sx y = Some s1"
    and y: "outbox_enqueue st y = Some sy" "outbox_enqueue sy x = Some s2"
    using assms(3,4) by (auto elim!: bind_SomeE)
  let ?known = "\<lambda>z. operation_id z \<in> operation_id ` set ops"
  note dx = outbox_enqueue_SomeD [OF assms(1) x(1)] and dy = outbox_enqueue_SomeD [OF assms(1) y(1)]
  consider "?known x" | "?known y" | "\<not> ?known x" "\<not> ?known y" by blast
  then show ?thesis
  proof cases
    case 1
    then show ?thesis using dx dy x y assms(1,2) outbox_enqueue_SomeD [of sy _ x s2]
      by (auto split: if_splits)
  next
    case 2
    then show ?thesis using dx dy x y assms(1,2) outbox_enqueue_SomeD [of sx _ y s1]
      by (auto split: if_splits)
  next
    case 3
    then have lx: "load_outbox sx = Some (sort_operations (ops @ [x]))"
      and ly: "load_outbox sy = Some (sort_operations (ops @ [y]))"
      using dx dy by auto
    have "distinct (map operation_id (ops @ [x, y]))"
      using 3 assms(2) load_outbox_valid [OF assms(1)] by (auto simp: valid_outbox_def)
    then show ?thesis
      using outbox_enqueue_SomeD [OF lx x(2)] outbox_enqueue_SomeD [OF ly y(2)] 3 assms(2)
      by (auto simp: sort_operations_swap split: if_splits)
  qed
qed


theorem outbox_enqueue_commute_witness:
  "outbox_enqueue None sample_create \<bind> (\<lambda>s. outbox_enqueue s sample_delete)
     = outbox_enqueue None sample_delete \<bind> (\<lambda>s. outbox_enqueue s sample_create)
   \<and> outbox_enqueue None sample_create \<bind> (\<lambda>s. outbox_enqueue s sample_delete) \<noteq> None"
proof -
  obtain s1 where s1: "outbox_enqueue None sample_create \<bind> (\<lambda>s. outbox_enqueue s sample_delete) = Some s1"
    using outbox_enqueue_two [of sample_create sample_delete] by auto
  obtain s2 where s2: "outbox_enqueue None sample_delete \<bind> (\<lambda>s. outbox_enqueue s sample_create) = Some s2"
    using outbox_enqueue_two [of sample_delete sample_create] by auto
  show ?thesis
    using outbox_enqueue_commute [OF load_outbox_new _ s1 s2] s1 s2
    by (simp add: sample_create_id sample_delete_id)
qed

end
