(* ===== verification/Dicts.thy ===== *)
theory Dicts
  imports Envelope Store
begin

text \<open>
  Dictionaries inside the persisted JSON (\<open>applied_fingerprints\<close>, \<open>author_sequences\<close>,
  \<open>object_revisions\<close>), and \<open>_advance_metadata\<close>, the check that both the inbox and the
  collection run on every operation they accept.
\<close>

section \<open>Dictionaries as JSON objects\<close>

definition dict_to_json :: "('v \<Rightarrow> json) \<Rightarrow> (string, 'v) fmap \<Rightarrow> json" where
  "dict_to_json f m = JObj (map (map_prod id f) (items m))"

definition dict_entries :: "(json \<Rightarrow> string option) \<Rightarrow> (json \<Rightarrow> 'v option) \<Rightarrow> obj
    \<Rightarrow> (string \<times> 'v) list option" where
  "dict_entries key val obj =
     traverse (\<lambda>(k, v). do { k' \<leftarrow> key (JStr k); v' \<leftarrow> val v; Some (k', v') }) obj"

definition dict_from_json :: "(json \<Rightarrow> string option) \<Rightarrow> (json \<Rightarrow> 'v option) \<Rightarrow> obj
    \<Rightarrow> (string, 'v) fmap option" where
  "dict_from_json key val obj = map_option fmap_of_list (dict_entries key val obj)"

text \<open>A digest in lower-case hexadecimal (the check on every stored fingerprint).\<close>

definition digest_value :: "json \<Rightarrow> string option" where
  "digest_value v = do { t \<leftarrow> text_value 64 v; require (match_sha256 t); Some t }"

lemma digest_value_iff [simp]: "digest_value v = Some s \<longleftrightarrow> v = JStr s \<and> match_sha256 s"
  by (auto simp: digest_value_def elim!: bind_SomeE)

definition valid_dict :: "(string \<Rightarrow> bool) \<Rightarrow> ('v \<Rightarrow> bool) \<Rightarrow> (string, 'v) fmap \<Rightarrow> bool" where
  "valid_dict K V m \<longleftrightarrow> (\<forall>k v. fmlookup m k = Some v \<longrightarrow> K k \<and> V v)"

lemma valid_dict_empty [simp]: "valid_dict K V fmempty"
  by (simp add: valid_dict_def)

lemma valid_dict_upd: "valid_dict K V m \<Longrightarrow> K k \<Longrightarrow> V v \<Longrightarrow> valid_dict K V (fmupd k v m)"
  by (auto simp: valid_dict_def)

text \<open>The interface of a pair of validators with the predicates they decide.\<close>

locale dict_codec =
  fixes key :: "json \<Rightarrow> string option" and K :: "string \<Rightarrow> bool"
    and val :: "json \<Rightarrow> 'v option" and V :: "'v \<Rightarrow> bool" and f :: "'v \<Rightarrow> json"
  assumes key_iff: "key (JStr k) = Some k' \<longleftrightarrow> k' = k \<and> K k"
    and val_enc: "V v \<Longrightarrow> val (f v) = Some v"
    and val_valid: "val w = Some v \<Longrightarrow> V v"
begin

lemma entries_items: "valid_dict K V m \<Longrightarrow> dict_entries key val (map (map_prod id f) (items m)) = Some (items m)"
proof -
  assume v: "valid_dict K V m"
  have "traverse (\<lambda>(k, v). do { k' \<leftarrow> key (JStr k); v' \<leftarrow> val v; Some (k', v') })
      (map (map_prod id f) (items m)) = Some (map id (items m))"
  proof (rule traverse_map_Some)
    fix e assume mem: "e \<in> set (items m)"
    obtain k w where e: "e = (k, w)" by (cases e)
    with mem have "fmlookup m k = Some w" by (simp add: set_items)
    with v have "K k" and "V w" by (auto simp: valid_dict_def)
    then have "key (JStr k) = Some k" by (simp add: key_iff)
    with e \<open>V w\<close> show "(case map_prod id f e of (k, v) \<Rightarrow>
        do { k' \<leftarrow> key (JStr k); v' \<leftarrow> val v; Some (k', v') }) = Some (id e)"
      by (simp add: val_enc)
  qed
  then show ?thesis by (simp add: dict_entries_def)
qed

lemma from_to: "valid_dict K V m \<Longrightarrow> dict_from_json key val (map (map_prod id f) (items m)) = Some m"
  by (simp add: dict_from_json_def entries_items)

lemma entries_valid: "dict_entries key val obj = Some es \<Longrightarrow> (k, v) \<in> set es \<Longrightarrow> K k \<and> V v"
  unfolding dict_entries_def
  by (drule (1) traverse_set) (auto elim!: bind_SomeE simp: key_iff val_valid)

lemma from_valid: "dict_from_json key val obj = Some m \<Longrightarrow> valid_dict K V m"
  by (auto simp: dict_from_json_def valid_dict_def fmlookup_of_list dest!: map_of_SomeD
      dest: entries_valid)

lemma from_card: "dict_from_json key val obj = Some m \<Longrightarrow> fcard (fmdom m) \<le> length obj"
proof -
  assume "dict_from_json key val obj = Some m"
  then obtain es where es: "dict_entries key val obj = Some es" and m: "m = fmap_of_list es"
    by (auto simp: dict_from_json_def)
  have "fcard (fmdom m) = card (set (map fst es))"
    by (simp add: m fcard.rep_eq fset_of_list.rep_eq)
  also have "\<dots> \<le> length es" by (metis card_length length_map)
  also have "length es = length obj" using es by (simp add: dict_entries_def traverse_length)
  finally show ?thesis .
qed

end

interpretation fingerprint_dict: dict_codec canonical_uuid is_uuid digest_value match_sha256 JStr
  by unfold_locales auto

interpretation sequence_dict: dict_codec identifier_value is_identifier integer_value is_counter JInt
  by unfold_locales auto

interpretation revision_dict: dict_codec identifier_value is_identifier identifier_value is_identifier JStr
  by unfold_locales auto

section \<open>The position in the total order\<close>

type_synonym order = "int \<times> string \<times> int \<times> string"

definition order_to_json :: "order \<Rightarrow> json" where
  "order_to_json r = (case r of (l, d, n, i) \<Rightarrow> JList [JInt l, JStr d, JInt n, JStr i])"

definition order_from_json :: "json \<Rightarrow> order option" where
  "order_from_json v = do {
     raw \<leftarrow> json_list v;
     case raw of
       [l, d, n, i] \<Rightarrow> do {
         clock \<leftarrow> integer_value l;
         device \<leftarrow> identifier_value d;
         sequence \<leftarrow> integer_value n;
         op_id \<leftarrow> canonical_uuid i;
         Some (clock, device, sequence, op_id) }
     | _ \<Rightarrow> None }"

definition valid_order :: "order \<Rightarrow> bool" where
  "valid_order r \<longleftrightarrow> (case r of (l, d, n, i) \<Rightarrow>
     is_counter l \<and> is_identifier d \<and> is_counter n \<and> is_uuid i)"

lemma order_from_json_iff [simp]:
  "order_from_json v = Some r \<longleftrightarrow> v = order_to_json r \<and> valid_order r"
  by (cases r)
    (auto simp: order_from_json_def order_to_json_def valid_order_def elim!: bind_SomeE
      split: list.splits)

lemma order_from_to: "valid_order r \<Longrightarrow> order_from_json (order_to_json r) = Some r"
  by simp

lemma valid_order_key: "valid_operation x \<Longrightarrow> valid_order (order_key x)"
  by (simp add: valid_order_def order_key_def valid_operation_def)

section \<open>Advancing over one operation\<close>

record metadata =
  md_sequences :: "(string, int) fmap"
  md_revisions :: "(string, string) fmap"
  md_last_order :: "order option"

definition next_sequence :: "(string, int) fmap \<Rightarrow> string \<Rightarrow> int" where
  "next_sequence m device = (case fmlookup m device of None \<Rightarrow> 0 | Some n \<Rightarrow> n) + 1"

definition advance_metadata :: "operation \<Rightarrow> metadata \<Rightarrow> metadata option" where
  "advance_metadata x md = do {
     require (\<not> (\<exists>r \<in> set_option (md_last_order md). order_key x \<le> r));
     require (author_sequence x = next_sequence (md_sequences md) (author_device_id x));
     require (parent_revision (op_envelope x) = fmlookup (md_revisions md) (object_id (op_envelope x)));
     Some \<lparr>md_sequences = fmupd (author_device_id x) (author_sequence x) (md_sequences md),
       md_revisions = fmupd (object_id (op_envelope x)) (revision (op_envelope x)) (md_revisions md),
       md_last_order = Some (order_key x)\<rparr> }"

definition valid_metadata :: "metadata \<Rightarrow> bool" where
  "valid_metadata md \<longleftrightarrow> valid_dict is_identifier is_counter (md_sequences md)
     \<and> valid_dict is_identifier is_identifier (md_revisions md)
     \<and> (\<forall>r. md_last_order md = Some r \<longrightarrow> valid_order r)"

lemma advance_metadata_SomeD:
  assumes "advance_metadata x md = Some md'"
  shows "md' = \<lparr>md_sequences = fmupd (author_device_id x) (author_sequence x) (md_sequences md),
       md_revisions = fmupd (object_id (op_envelope x)) (revision (op_envelope x)) (md_revisions md),
       md_last_order = Some (order_key x)\<rparr>"
    "\<And>r. md_last_order md = Some r \<Longrightarrow> r < order_key x"
    "author_sequence x = next_sequence (md_sequences md) (author_device_id x)"
    "parent_revision (op_envelope x) = fmlookup (md_revisions md) (object_id (op_envelope x))"
  using assms by (auto simp: advance_metadata_def not_le)

lemma advance_metadata_valid:
  "advance_metadata x md = Some md' \<Longrightarrow> valid_metadata md \<Longrightarrow> valid_operation x \<Longrightarrow> valid_metadata md'"
proof -
  assume h: "advance_metadata x md = Some md'" "valid_metadata md" "valid_operation x"
  then have "valid_order (order_key x)" by (simp add: valid_order_key)
  then show ?thesis unfolding advance_metadata_SomeD(1) [OF h(1)] using h(2,3)
    by (auto simp: valid_metadata_def valid_operation_def valid_envelope_def intro!: valid_dict_upd)
qed

fun advance_all :: "operation list \<Rightarrow> metadata \<Rightarrow> metadata option" where
  "advance_all [] md = Some md"
| "advance_all (x # xs) md = do { md' \<leftarrow> advance_metadata x md; advance_all xs md' }"

lemma advance_all_append:
  "advance_all (xs @ ys) md = advance_all xs md \<bind> advance_all ys"
  by (induction xs arbitrary: md) (auto split: bind_split)

end
