(* ===== verification/History.thy ===== *)
theory History
  imports Dicts
begin

text \<open>
  What a history that was accepted operation by operation looks like: \<open>advance_all\<close> from the
  empty metadata succeeds on exactly the lists that are strictly increasing in the total
  order, number the operations of every author 1, 2, 3, ..., and link every revision of an
  object to the revision before it.
\<close>

definition empty_metadata :: metadata where
  "empty_metadata = \<lparr>md_sequences = fmempty, md_revisions = fmempty, md_last_order = None\<rparr>"

definition by_author :: "string \<Rightarrow> operation list \<Rightarrow> operation list" where
  "by_author d xs = filter (\<lambda>x. author_device_id x = d) xs"

definition on_object :: "string \<Rightarrow> operation list \<Rightarrow> envelope list" where
  "on_object i xs = map op_envelope (filter (\<lambda>x. object_id (op_envelope x) = i) xs)"

fun revision_chain :: "string option \<Rightarrow> envelope list \<Rightarrow> bool" where
  "revision_chain p [] = True"
| "revision_chain p (e # es) = (parent_revision e = p \<and> revision_chain (Some (revision e)) es)"

definition last_revision :: "envelope list \<Rightarrow> string option" where
  "last_revision es = (if es = [] then None else Some (revision (last es)))"

definition contiguous :: "operation list \<Rightarrow> bool" where
  "contiguous xs \<longleftrightarrow> map author_sequence xs = map (\<lambda>n. int n + 1) [0..<length xs]"

definition accepted_history :: "operation list \<Rightarrow> bool" where
  "accepted_history xs \<longleftrightarrow>
     sorted_wrt (\<lambda>x y. order_key x < order_key y) xs
     \<and> (\<forall>d. contiguous (by_author d xs)) \<and> (\<forall>i. revision_chain None (on_object i xs))"

text \<open>The metadata after a history is determined by the history.\<close>

definition metadata_of :: "operation list \<Rightarrow> metadata \<Rightarrow> bool" where
  "metadata_of xs md \<longleftrightarrow>
     (\<forall>d. fmlookup (md_sequences md) d
        = (if by_author d xs = [] then None else Some (int (length (by_author d xs)))))
     \<and> (\<forall>i. fmlookup (md_revisions md) i = last_revision (on_object i xs))
     \<and> md_last_order md = (if xs = [] then None else Some (order_key (last xs)))"

lemma by_author_simps [simp]:
  "by_author d [] = []"
  "by_author d (xs @ ys) = by_author d xs @ by_author d ys"
  "by_author d [x] = (if author_device_id x = d then [x] else [])"
  by (simp_all add: by_author_def)

lemma on_object_simps [simp]:
  "on_object i [] = []"
  "on_object i (xs @ ys) = on_object i xs @ on_object i ys"
  "on_object i [x] = (if object_id (op_envelope x) = i then [op_envelope x] else [])"
  by (simp_all add: on_object_def)

lemma revision_chain_snoc:
  "revision_chain p (es @ [e]) \<longleftrightarrow>
     revision_chain p es \<and> parent_revision e = (if es = [] then p else Some (revision (last es)))"
  by (induction es arbitrary: p) auto

lemma contiguous_snoc:
  "contiguous (xs @ [x]) \<longleftrightarrow> contiguous xs \<and> author_sequence x = int (length xs) + 1"
  by (auto simp: contiguous_def)

lemma sorted_wrt_snoc:
  "sorted_wrt P (xs @ [x]) \<longleftrightarrow> sorted_wrt P xs \<and> (\<forall>y \<in> set xs. P y x)"
  by (auto simp: sorted_wrt_append)

lemma metadata_of_empty [simp]: "metadata_of [] md \<longleftrightarrow> md = empty_metadata"
  by (cases md) (auto simp: metadata_of_def empty_metadata_def last_revision_def intro!: fmap_ext)

lemma metadata_of_sequence: "metadata_of xs md \<Longrightarrow>
    next_sequence (md_sequences md) d = int (length (by_author d xs)) + 1"
  by (auto simp: metadata_of_def next_sequence_def)

lemma last_order_greatest:
  assumes "sorted_wrt (\<lambda>x y. order_key x < order_key y) xs" "y \<in> set xs"
  shows "order_key y \<le> order_key (last xs)"
  using assms by (induction xs rule: rev_induct) (auto simp: sorted_wrt_snoc less_imp_le)

lemma all_contiguous_snoc:
  "(\<forall>d. contiguous (by_author d (xs @ [x]))) \<longleftrightarrow>
     (\<forall>d. contiguous (by_author d xs))
     \<and> author_sequence x = int (length (by_author (author_device_id x) xs)) + 1"
proof -
  have "contiguous (by_author d (xs @ [x])) \<longleftrightarrow> contiguous (by_author d xs)
      \<and> (author_device_id x = d \<longrightarrow> author_sequence x = int (length (by_author d xs)) + 1)" for d
    by (simp add: contiguous_snoc)
  then show ?thesis by auto
qed

lemma all_chains_snoc:
  "(\<forall>i. revision_chain None (on_object i (xs @ [x]))) \<longleftrightarrow>
     (\<forall>i. revision_chain None (on_object i xs))
     \<and> parent_revision (op_envelope x) = last_revision (on_object (object_id (op_envelope x)) xs)"
proof -
  have "revision_chain None (on_object i (xs @ [x])) \<longleftrightarrow> revision_chain None (on_object i xs)
      \<and> (object_id (op_envelope x) = i \<longrightarrow> parent_revision (op_envelope x) = last_revision (on_object i xs))"
    for i
    by (simp add: revision_chain_snoc last_revision_def)
  then show ?thesis by auto
qed

lemma accepted_history_Nil [simp]: "accepted_history []"
  by (simp add: accepted_history_def contiguous_def)

lemma accepted_history_snoc:
  "accepted_history (xs @ [x]) \<longleftrightarrow> accepted_history xs
     \<and> (\<forall>y \<in> set xs. order_key y < order_key x)
     \<and> author_sequence x = int (length (by_author (author_device_id x) xs)) + 1
     \<and> parent_revision (op_envelope x) = last_revision (on_object (object_id (op_envelope x)) xs)"
  unfolding accepted_history_def sorted_wrt_snoc all_contiguous_snoc all_chains_snoc by blast

lemma last_order_below:
  assumes "accepted_history xs" "metadata_of xs md"
  shows "(\<forall>r. md_last_order md = Some r \<longrightarrow> r < k) \<longleftrightarrow> (\<forall>y \<in> set xs. order_key y < k)"
proof (cases "xs = []")
  case False
  then have "md_last_order md = Some (order_key (last xs))" and l: "last xs \<in> set xs"
    using assms(2) by (simp_all add: metadata_of_def)
  then have "(\<forall>r. md_last_order md = Some r \<longrightarrow> r < k) \<longleftrightarrow> order_key (last xs) < k"
    by (simp del: split_paired_All)
  also have "\<dots> \<longleftrightarrow> (\<forall>y \<in> set xs. order_key y < k)"
    using l last_order_greatest [of xs] assms(1)
    by (auto simp: accepted_history_def simp del: split_paired_All intro: le_less_trans)
  finally show ?thesis .
qed (use assms in \<open>simp add: empty_metadata_def\<close>)

lemma advance_metadata_iff:
  assumes "accepted_history xs" "metadata_of xs md"
  shows "(\<exists>md'. advance_metadata x md = Some md') \<longleftrightarrow> accepted_history (xs @ [x])"
proof -
  have "(\<exists>md'. advance_metadata x md = Some md') \<longleftrightarrow>
      (\<forall>r. md_last_order md = Some r \<longrightarrow> r < order_key x)
      \<and> author_sequence x = next_sequence (md_sequences md) (author_device_id x)
      \<and> parent_revision (op_envelope x) = fmlookup (md_revisions md) (object_id (op_envelope x))"
    by (cases "md_last_order md")
      (simp_all add: advance_metadata_def not_le del: split_paired_All split_paired_Ex)
  also have "\<dots> \<longleftrightarrow> accepted_history (xs @ [x])"
    unfolding accepted_history_snoc last_order_below [OF assms] metadata_of_sequence [OF assms(2)]
    using assms by (auto simp: metadata_of_def)
  finally show ?thesis .
qed

lemma advance_metadata_of:
  assumes "metadata_of xs md" "advance_metadata x md = Some md'"
  shows "metadata_of (xs @ [x]) md'"
proof -
  have "author_sequence x = int (length (by_author (author_device_id x) xs)) + 1"
    using advance_metadata_SomeD(3) [OF assms(2)] metadata_of_sequence [OF assms(1)] by simp
  then show ?thesis using assms(1)
    unfolding advance_metadata_SomeD(1) [OF assms(2)] metadata_of_def
    by (auto simp: last_revision_def)
qed

lemma advance_all_metadata_of: "advance_all xs empty_metadata = Some md \<Longrightarrow> metadata_of xs md"
proof (induction xs arbitrary: md rule: rev_induct)
  case (snoc x xs)
  then obtain m where "advance_all xs empty_metadata = Some m" "advance_metadata x m = Some md"
    by (auto simp: advance_all_append elim!: bind_SomeE)
  with snoc.IH show ?case by (meson advance_metadata_of)
qed simp

theorem advance_all_history:
  "(\<exists>md. advance_all xs empty_metadata = Some md) \<longleftrightarrow> accepted_history xs"
proof (induction xs rule: rev_induct)
  case (snoc x xs)
  show ?case
  proof (cases "advance_all xs empty_metadata")
    case None
    then show ?thesis using snoc by (simp add: advance_all_append accepted_history_snoc)
  next
    case (Some m)
    then have "accepted_history xs" "metadata_of xs m"
      using snoc advance_all_metadata_of by auto
    then show ?thesis
      using advance_metadata_iff [of xs m x] Some by (auto simp: advance_all_append elim: bind_SomeE)
  qed
qed simp

lemma accepted_history_distinct: "accepted_history xs \<Longrightarrow> distinct (map order_key xs)"
  by (induction xs rule: rev_induct) (auto simp: accepted_history_snoc)

section \<open>The fingerprints of a history\<close>

definition log_index :: "operation list \<Rightarrow> string \<rightharpoonup> string" where
  "log_index log = map_of (map (\<lambda>x. (operation_id x, fingerprint x)) log)"

lemma log_index_None: "log_index log i = None \<longleftrightarrow> i \<notin> operation_id ` set log"
  by (auto simp: log_index_def map_of_eq_None_iff image_image)

lemma log_index_snoc:
  assumes "operation_id x \<notin> operation_id ` set log"
  shows "log_index (log @ [x]) = (log_index log)(operation_id x \<mapsto> fingerprint x)"
proof (rule ext)
  fix i
  have "log_index (log @ [x]) i = (case log_index log i of
      None \<Rightarrow> if i = operation_id x then Some (fingerprint x) else None | Some d \<Rightarrow> Some d)"
    by (auto simp: log_index_def map_add_def split: option.splits)
  then show "log_index (log @ [x]) i = ((log_index log)(operation_id x \<mapsto> fingerprint x)) i"
    using assms log_index_None [of log "operation_id x"] by (auto split: option.splits)
qed

lemma log_index_mem: "distinct (map operation_id log) \<Longrightarrow> x \<in> set log \<Longrightarrow>
    log_index log (operation_id x) = Some (fingerprint x)"
  unfolding log_index_def by (rule map_of_is_SomeI) (auto simp: comp_def)

lemma dom_log_index: "dom (log_index log) = operation_id ` set log"
  by (rule set_eqI) (use log_index_None [of log] in \<open>metis domIff\<close>)

lemma log_index_card: "distinct (map operation_id log) \<Longrightarrow> card (dom (log_index log)) = length log"
  using distinct_card [of "map operation_id log"] by (simp add: dom_log_index)

end
