(* ===== verification/Inbox.thy ===== *)
theory Inbox
  imports History Samples
begin

text \<open>
  \<open>DurableEncryptedInbox\<close> of \<open>vaultsync/sync_queue.py\<close>: pages of remote operations are staged
  against a cursor and applied one by one.  The inbox remembers a fingerprint of everything it
  has applied, the last sequence of every author, the revision of every object and the last
  position in the total order; a page is staged only if all of it can be applied.
\<close>

section \<open>State\<close>

record inbox_state =
  ib_cursor :: "string option"
  pending_page :: bool
  pending_next_cursor :: "string option"
  ib_pending :: "operation list"
  applied_fingerprints :: "(string, string) fmap"
  author_sequences :: "(string, int) fmap"
  object_revisions :: "(string, string) fmap"
  last_order :: "order option"

definition INBOX_FORMAT :: string where
  "INBOX_FORMAT = ''atlasvault-encrypted-inbox-state''"

definition inbox_keys :: "string list" where
  "inbox_keys = [''format'', ''version'', ''cursor'', ''pending_page'', ''pending_next_cursor'',
     ''pending_operations'', ''applied_fingerprints'', ''author_sequences'', ''object_revisions'',
     ''last_order'']"

definition inbox_default :: json where
  "inbox_default = JObj
     [(''format'', JStr INBOX_FORMAT), (''version'', JInt 1), (''cursor'', JNull),
      (''pending_page'', JBool False), (''pending_next_cursor'', JNull),
      (''pending_operations'', JList []), (''applied_fingerprints'', JObj []),
      (''author_sequences'', JObj []), (''object_revisions'', JObj []), (''last_order'', JNull)]"

definition cursor_value :: "json \<Rightarrow> string option option" where
  "cursor_value v = nullable (text_value MAXIMUM_CURSOR_LENGTH) v"

definition inbox_dict :: "inbox_state \<Rightarrow> json" where
  "inbox_dict s = JObj
     [(''format'', JStr INBOX_FORMAT), (''version'', JInt 1), (''cursor'', json_opt (ib_cursor s)),
      (''pending_page'', JBool (pending_page s)),
      (''pending_next_cursor'', json_opt (pending_next_cursor s)),
      (''pending_operations'', JList (map operation_to_dict (ib_pending s))),
      (''applied_fingerprints'', dict_to_json JStr (applied_fingerprints s)),
      (''author_sequences'', dict_to_json JInt (author_sequences s)),
      (''object_revisions'', dict_to_json JStr (object_revisions s)),
      (''last_order'', (case last_order s of None \<Rightarrow> JNull | Some r \<Rightarrow> order_to_json r))]"

definition inbox_from_state :: "json \<Rightarrow> inbox_state option" where
  "inbox_from_state v = do {
     state \<leftarrow> mapping v;
     exact state inbox_keys;
     format_v \<leftarrow> map_of state ''format'';
     version_v \<leftarrow> map_of state ''version'';
     require (format_v = JStr INBOX_FORMAT \<and> py_eq_one version_v);
     raw_pending \<leftarrow> map_of state ''pending_operations'' \<bind> json_list;
     require (length raw_pending \<le> MAXIMUM_QUEUE_OPERATIONS);
     pending \<leftarrow> traverse operation_from_dict raw_pending;
     require (pending = sort_operations pending
       \<and> set_size (map operation_id pending) = length pending);
     fingerprints \<leftarrow> map_of state ''applied_fingerprints'' \<bind> mapping;
     require (length fingerprints \<le> MAXIMUM_QUEUE_OPERATIONS);
     validated_fingerprints \<leftarrow> dict_from_json canonical_uuid digest_value fingerprints;
     sequences \<leftarrow> map_of state ''author_sequences'' \<bind> mapping;
     revisions \<leftarrow> map_of state ''object_revisions'' \<bind> mapping;
     require (length sequences \<le> MAXIMUM_QUEUE_OPERATIONS
       \<and> length revisions \<le> MAXIMUM_QUEUE_OPERATIONS);
     validated_sequences \<leftarrow> dict_from_json identifier_value integer_value sequences;
     validated_revisions \<leftarrow> dict_from_json identifier_value identifier_value revisions;
     raw_order \<leftarrow> map_of state ''last_order'';
     order \<leftarrow> nullable order_from_json raw_order;
     page \<leftarrow> map_of state ''pending_page'' \<bind> json_bool;
     next_cursor \<leftarrow> map_of state ''pending_next_cursor'' \<bind> cursor_value;
     require ((pending \<noteq> []) = page);
     cursor \<leftarrow> map_of state ''cursor'' \<bind> cursor_value;
     Some \<lparr>ib_cursor = cursor, pending_page = page, pending_next_cursor = next_cursor,
       ib_pending = pending, applied_fingerprints = validated_fingerprints,
       author_sequences = validated_sequences, object_revisions = validated_revisions,
       last_order = order\<rparr> }"

definition load_inbox :: "store \<Rightarrow> inbox_state option" where
  "load_inbox st = inbox_from_state (store_read st inbox_default)"

section \<open>Operations\<close>

definition inbox_metadata :: "inbox_state \<Rightarrow> metadata" where
  "inbox_metadata s = \<lparr>md_sequences = author_sequences s, md_revisions = object_revisions s,
     md_last_order = last_order s\<rparr>"

text \<open>The loop of \<open>stage_page\<close>: operations that were applied before are skipped, after their
  fingerprint is compared; the others must follow on from the state.\<close>

fun stage_new :: "(string, string) fmap \<Rightarrow> operation list \<Rightarrow> metadata \<Rightarrow> operation list option" where
  "stage_new applied [] md = Some []"
| "stage_new applied (x # xs) md =
     (case fmlookup applied (operation_id x) of
        Some known \<Rightarrow> (if known \<noteq> fingerprint x then None else stage_new applied xs md)
      | None \<Rightarrow> do {
          md' \<leftarrow> advance_metadata x md;
          rest \<leftarrow> stage_new applied xs md';
          Some (x # rest) })"

definition stage_page :: "store \<Rightarrow> string option \<Rightarrow> string option \<Rightarrow> operation list \<Rightarrow> store option" where
  "stage_page st expected_cursor next_cursor operations = do {
     expected \<leftarrow> cursor_value (json_opt expected_cursor);
     following \<leftarrow> cursor_value (json_opt next_cursor);
     state \<leftarrow> load_inbox st;
     require (\<not> (ib_pending state \<noteq> [] \<or> ib_cursor state \<noteq> expected));
     require (length operations \<le> MAXIMUM_QUEUE_OPERATIONS);
     incoming \<leftarrow> traverse validated_operation operations;
     require (incoming = sort_operations incoming
       \<and> set_size (map operation_id incoming) = length incoming);
     new_operations \<leftarrow> stage_new (applied_fingerprints state) incoming (inbox_metadata state);
     require (fcard (fmdom (applied_fingerprints state)) + length new_operations
       \<le> MAXIMUM_QUEUE_OPERATIONS);
     store_write (inbox_dict (state\<lparr>
       ib_cursor := (if new_operations = [] then following else ib_cursor state),
       pending_page := new_operations \<noteq> [],
       pending_next_cursor := following,
       ib_pending := new_operations\<rparr>)) }"

text \<open>\<open>apply_next\<close> with a callback that returns (\<open>True\<close>) or raises (\<open>False\<close>) on an operation.  It runs
  before the state is written, so a call that raises after it has handed the operation over and left
  the file as it was.\<close>

datatype apply_outcome = Apply_rejected | Nothing_pending
  | Callback_raised operation | Commit_raised operation | Applied operation

definition apply_next :: "store \<Rightarrow> (operation \<Rightarrow> bool) \<Rightarrow> apply_outcome \<times> store" where
  "apply_next st callback = (case load_inbox st of
     None \<Rightarrow> (Apply_rejected, st)
   | Some state \<Rightarrow> (case ib_pending state of
       [] \<Rightarrow> (Nothing_pending, st)
     | x # remaining \<Rightarrow>
         if \<not> callback x then (Callback_raised x, st)
         else (case do {
             md \<leftarrow> advance_metadata x (inbox_metadata state);
             store_write (inbox_dict (state\<lparr>
               ib_cursor := (if remaining = [] then pending_next_cursor state else ib_cursor state),
               pending_page := remaining \<noteq> [],
               pending_next_cursor := (if remaining \<noteq> [] then pending_next_cursor state else None),
               ib_pending := remaining,
               applied_fingerprints := fmupd (operation_id x) (fingerprint x) (applied_fingerprints state),
               author_sequences := md_sequences md,
               object_revisions := md_revisions md,
               last_order := md_last_order md\<rparr>)) } of
           None \<Rightarrow> (Commit_raised x, st)
         | Some st' \<Rightarrow> (Applied x, st'))))"

definition inbox_cursor :: "store \<Rightarrow> string option option" where
  "inbox_cursor st = map_option ib_cursor (load_inbox st)"

definition inbox_pending_operations :: "store \<Rightarrow> operation list option" where
  "inbox_pending_operations st = map_option ib_pending (load_inbox st)"

section \<open>The persisted state\<close>

definition valid_inbox :: "inbox_state \<Rightarrow> bool" where
  "valid_inbox s \<longleftrightarrow>
     (\<forall>c. ib_cursor s = Some c \<longrightarrow> is_text MAXIMUM_CURSOR_LENGTH c)
     \<and> (\<forall>c. pending_next_cursor s = Some c \<longrightarrow> is_text MAXIMUM_CURSOR_LENGTH c)
     \<and> pending_page s = (ib_pending s \<noteq> [])
     \<and> (\<forall>x \<in> set (ib_pending s). valid_operation x) \<and> sorted (map order_key (ib_pending s))
     \<and> distinct (map operation_id (ib_pending s))
     \<and> length (ib_pending s) \<le> MAXIMUM_QUEUE_OPERATIONS
     \<and> valid_dict is_uuid match_sha256 (applied_fingerprints s)
     \<and> valid_metadata (inbox_metadata s)
     \<and> fcard (fmdom (applied_fingerprints s)) \<le> MAXIMUM_QUEUE_OPERATIONS
     \<and> fcard (fmdom (author_sequences s)) \<le> MAXIMUM_QUEUE_OPERATIONS
     \<and> fcard (fmdom (object_revisions s)) \<le> MAXIMUM_QUEUE_OPERATIONS"

lemma cursor_value_iff [simp]:
  "cursor_value v = Some c \<longleftrightarrow>
     v = json_opt c \<and> (\<forall>t. c = Some t \<longrightarrow> is_text MAXIMUM_CURSOR_LENGTH t)"
  by (cases v; cases c) (auto simp: cursor_value_def)

lemma cursor_value_accepts [simp]:
  "\<forall>t. c = Some t \<longrightarrow> is_text MAXIMUM_CURSOR_LENGTH t \<Longrightarrow> cursor_value (json_opt c) = Some c"
  by simp

lemma nullable_order_iff:
  "nullable order_from_json v = Some r \<longleftrightarrow>
     v = (case r of None \<Rightarrow> JNull | Some q \<Rightarrow> order_to_json q) \<and> (\<forall>q. r = Some q \<longrightarrow> valid_order q)"
  by (cases v; cases r) (auto simp: order_to_json_def split: prod.splits)

lemma nullable_order_accepts [simp]:
  "\<forall>q. r = Some q \<longrightarrow> valid_order q \<Longrightarrow>
     nullable order_from_json (case r of None \<Rightarrow> JNull | Some q \<Rightarrow> order_to_json q) = Some r"
  by (simp add: nullable_order_iff)

lemma inbox_from_to: "valid_inbox s \<Longrightarrow> inbox_from_state (inbox_dict s) = Some s"
  by (simp add: inbox_from_state_def inbox_dict_def exact_def inbox_keys_def valid_inbox_def
      operation_codec.list_dec_enc sort_operations_id dict_to_json_def length_items
      fingerprint_dict.from_to sequence_dict.from_to revision_dict.from_to
      valid_metadata_def inbox_metadata_def)

lemma inbox_from_valid: "inbox_from_state v = Some s \<Longrightarrow> valid_inbox s"
  unfolding inbox_from_state_def
  by (elim bind_SomeE)
    (auto simp: valid_inbox_def valid_metadata_def inbox_metadata_def sort_operations_id_iff nullable_order_iff
      dest: operation_codec.list_dec_valid traverse_length fingerprint_dict.from_valid
        sequence_dict.from_valid revision_dict.from_valid
      dest: fingerprint_dict.from_card sequence_dict.from_card revision_dict.from_card)

definition initial_inbox :: inbox_state where
  "initial_inbox = \<lparr>ib_cursor = None, pending_page = False, pending_next_cursor = None,
     ib_pending = [], applied_fingerprints = fmempty, author_sequences = fmempty,
     object_revisions = fmempty, last_order = None\<rparr>"

lemma inbox_default_eq: "inbox_default = inbox_dict initial_inbox"
  by (simp add: inbox_default_def inbox_dict_def initial_inbox_def dict_to_json_def)

lemma valid_initial_inbox: "valid_inbox initial_inbox"
  by (simp add: valid_inbox_def initial_inbox_def valid_metadata_def inbox_metadata_def fcard.rep_eq)

interpretation inbox: persistent valid_inbox inbox_dict inbox_from_state inbox_default initial_inbox
  by unfold_locales
    (simp_all add: inbox_from_to inbox_from_valid inbox_default_eq valid_initial_inbox)

section \<open>Staging\<close>

definition unapplied :: "(string, string) fmap \<Rightarrow> operation list \<Rightarrow> operation list" where
  "unapplied applied xs = filter (\<lambda>x. fmlookup applied (operation_id x) = None) xs"

lemma stage_new_Some:
  "stage_new applied xs md = Some ys \<longleftrightarrow>
     ys = unapplied applied xs \<and> (\<exists>md'. advance_all ys md = Some md')
     \<and> (\<forall>x \<in> set xs. \<forall>d. fmlookup applied (operation_id x) = Some d \<longrightarrow> d = fingerprint x)"
proof (induction applied xs md arbitrary: ys rule: stage_new.induct)
  case (2 applied x xs md)
  show ?case
  proof (cases "fmlookup applied (operation_id x)")
    case None
    show ?thesis
    proof (cases "advance_metadata x md")
      case (Some md')
      then show ?thesis using 2(1) [OF None Some] None
        by (cases ys) (auto simp: unapplied_def Option.bind_eq_Some_conv)
    qed (use None in \<open>auto simp: unapplied_def\<close>)
  next
    case (Some d)
    then show ?thesis using 2(2) [OF Some] Some by (auto simp: unapplied_def)
  qed
qed (auto simp: unapplied_def)

lemma traverse_validated: "traverse validated_operation xs = Some ys \<longleftrightarrow> ys = xs \<and> (\<forall>x \<in> set xs. valid_operation x)"
  by (induction xs arbitrary: ys) (auto simp: validated_operation_iff Option.bind_eq_Some_conv)

text \<open>What holds of the inbox beyond what the loader checks, once it is only ever written by its
  own operations: the staged page can be applied to the end.\<close>

definition inbox_ready :: "inbox_state \<Rightarrow> bool" where
  "inbox_ready s \<longleftrightarrow> valid_inbox s
     \<and> (\<exists>md. advance_all (ib_pending s) (inbox_metadata s) = Some md)
     \<and> unapplied (applied_fingerprints s) (ib_pending s) = ib_pending s
     \<and> fcard (fmdom (applied_fingerprints s)) + length (ib_pending s) \<le> MAXIMUM_QUEUE_OPERATIONS
     \<and> fcard (fmdom (author_sequences s)) \<le> fcard (fmdom (applied_fingerprints s))
     \<and> fcard (fmdom (object_revisions s)) \<le> fcard (fmdom (applied_fingerprints s))"

definition staged :: "inbox_state \<Rightarrow> string option \<Rightarrow> operation list \<Rightarrow> inbox_state" where
  "staged s following new = s\<lparr>ib_cursor := (if new = [] then following else ib_cursor s),
     pending_page := new \<noteq> [], pending_next_cursor := following, ib_pending := new\<rparr>"

lemma stage_page_SomeD:
  assumes "load_inbox st = Some s" "stage_page st e n ops = Some st'"
  defines "new \<equiv> unapplied (applied_fingerprints s) ops"
  shows "st' = Some (inbox_dict (staged s n new))" "write_fits (inbox_dict (staged s n new))"
    "ib_pending s = []" "ib_cursor s = e" "\<forall>x \<in> set ops. valid_operation x"
    "sorted (map order_key ops)" "distinct (map operation_id ops)"
    "\<exists>md. advance_all new (inbox_metadata s) = Some md"
    "fcard (fmdom (applied_fingerprints s)) + length new \<le> MAXIMUM_QUEUE_OPERATIONS"
    "\<forall>c. n = Some c \<longrightarrow> is_text MAXIMUM_CURSOR_LENGTH c"
    "\<forall>x \<in> set ops. \<forall>d. fmlookup (applied_fingerprints s) (operation_id x) = Some d
       \<longrightarrow> d = fingerprint x"
    "length ops \<le> MAXIMUM_QUEUE_OPERATIONS"
  using assms(1,2) unfolding stage_page_def new_def staged_def
  by (auto elim!: bind_SomeE simp: store_write_iff stage_new_Some traverse_validated
      sort_operations_id_iff)

lemma distinct_unapplied: "distinct (map operation_id xs) \<Longrightarrow> distinct (map operation_id (unapplied m xs))"
  by (simp add: unapplied_def distinct_map_filter)

lemma unapplied_idem [simp]: "unapplied m (unapplied m xs) = unapplied m xs"
  by (simp add: unapplied_def)

lemma set_unapplied: "set (unapplied m xs) \<subseteq> set xs"
  by (auto simp: unapplied_def)

lemma staged_ready:
  assumes "inbox_ready s" "load_inbox st = Some s" "stage_page st e n ops = Some st'"
  shows "inbox_ready (staged s n (unapplied (applied_fingerprints s) ops))"
proof -
  let ?new = "unapplied (applied_fingerprints s) ops"
  note d = stage_page_SomeD [OF assms(2,3)]
  have "sorted (map order_key ?new)" using d(6) by (simp add: unapplied_def sorted_filter)
  moreover have "length ?new \<le> MAXIMUM_QUEUE_OPERATIONS" using d(9) by simp
  moreover have "\<forall>x \<in> set ?new. valid_operation x" using d(5) set_unapplied by blast
  ultimately show ?thesis using assms(1) d(8-10) distinct_unapplied [OF d(7)]
    by (auto simp: inbox_ready_def valid_inbox_def staged_def inbox_metadata_def)
qed

lemma stage_page_ready:
  assumes "inbox_ready s" "load_inbox st = Some s" "stage_page st e n ops = Some st'"
  shows "load_inbox st' = Some (staged s n (unapplied (applied_fingerprints s) ops))"
proof -
  let ?s = "staged s n (unapplied (applied_fingerprints s) ops)"
  have "valid_inbox ?s" using staged_ready [OF assms] by (simp add: inbox_ready_def)
  then show ?thesis
    using stage_page_SomeD(1) [OF assms(2,3)] by (simp add: load_inbox_def inbox_from_to)
qed

section \<open>Applying\<close>

definition applied :: "inbox_state \<Rightarrow> operation \<Rightarrow> operation list \<Rightarrow> metadata \<Rightarrow> inbox_state" where
  "applied s x remaining md = s\<lparr>
     ib_cursor := (if remaining = [] then pending_next_cursor s else ib_cursor s),
     pending_page := remaining \<noteq> [],
     pending_next_cursor := (if remaining \<noteq> [] then pending_next_cursor s else None),
     ib_pending := remaining,
     applied_fingerprints := fmupd (operation_id x) (fingerprint x) (applied_fingerprints s),
     author_sequences := md_sequences md, object_revisions := md_revisions md,
     last_order := md_last_order md\<rparr>"

lemma inbox_metadata_applied [simp]: "inbox_metadata (applied s x remaining md) = md"
  by (simp add: applied_def inbox_metadata_def)

lemma fcard_finsert_mono: "fcard A \<le> n \<Longrightarrow> fcard (finsert a A) \<le> Suc n"
  by (simp add: fcard_finsert_if)

lemma fcard_fmupd_new: "fmlookup m k = None \<Longrightarrow> fcard (fmdom (fmupd k v m)) = Suc (fcard (fmdom m))"
  by (simp add: fcard_finsert_if fmdom_notI)

lemma applied_valid:
  assumes v: "valid_inbox s" and p: "ib_pending s = x # remaining" and m: "valid_metadata md"
    and c: "fcard (fmdom (md_sequences md)) \<le> MAXIMUM_QUEUE_OPERATIONS"
      "fcard (fmdom (md_revisions md)) \<le> MAXIMUM_QUEUE_OPERATIONS"
      "fcard (fmdom (fmupd (operation_id x) (fingerprint x) (applied_fingerprints s)))
        \<le> MAXIMUM_QUEUE_OPERATIONS"
  shows "valid_inbox (applied s x remaining md)"
proof -
  have "valid_dict is_uuid match_sha256 (fmupd (operation_id x) (fingerprint x) (applied_fingerprints s))"
    using v p by (auto intro!: valid_dict_upd simp: valid_inbox_def valid_operation_def)
  then show ?thesis using v p c m
    unfolding valid_inbox_def inbox_metadata_applied by (auto simp: applied_def)
qed

lemma applied_ready:
  assumes r: "inbox_ready s" and p: "ib_pending s = x # remaining"
    and a: "advance_metadata x (inbox_metadata s) = Some md"
  shows "inbox_ready (applied s x remaining md)"
proof -
  let ?f = "fmupd (operation_id x) (fingerprint x) (applied_fingerprints s)"
  have x: "valid_operation x" "fmlookup (applied_fingerprints s) (operation_id x) = None"
      "operation_id x \<notin> operation_id ` set remaining"
    using r p unfolding inbox_ready_def valid_inbox_def unapplied_def
    by (auto split: if_splits dest: filter_eq_ConsD)
  note md = advance_metadata_SomeD(1) [OF a]
  have c: "fcard (fmdom (md_sequences md)) \<le> fcard (fmdom ?f)"
      "fcard (fmdom (md_revisions md)) \<le> fcard (fmdom ?f)"
      "fcard (fmdom ?f) + length remaining \<le> MAXIMUM_QUEUE_OPERATIONS"
    using r p fcard_fmupd_new [OF x(2)] unfolding md inbox_ready_def inbox_metadata_def
    by (auto intro: fcard_finsert_mono)
  have m: "valid_metadata md"
    using advance_metadata_valid [OF a] x(1) r by (simp add: inbox_ready_def valid_inbox_def)
  have v: "valid_inbox (applied s x remaining md)"
    using r c by (intro applied_valid [OF _ p m]) (auto simp: inbox_ready_def)
  have "unapplied ?f remaining = remaining"
    using r p x(2,3) unfolding inbox_ready_def unapplied_def
    by (auto simp: filter_id_conv)
  moreover have "\<exists>md'. advance_all remaining md = Some md'"
    using r p a by (auto simp: inbox_ready_def)
  ultimately show ?thesis using v c
    unfolding inbox_ready_def inbox_metadata_applied by (simp add: applied_def)
qed

text \<open>One call of \<open>apply_next\<close> on a ready inbox.\<close>

lemma apply_next_cases:
  assumes r: "inbox_ready s" and l: "load_inbox st = Some s"
  shows "apply_next st cb = (case ib_pending s of
      [] \<Rightarrow> (Nothing_pending, st)
    | x # remaining \<Rightarrow> (let s' = applied s x remaining (the (advance_metadata x (inbox_metadata s))) in
        if \<not> cb x then (Callback_raised x, st)
        else if write_fits (inbox_dict s') then (Applied x, Some (inbox_dict s')) else (Commit_raised x, st)))"
proof (cases "ib_pending s")
  case (Cons x remaining)
  then obtain md where "advance_metadata x (inbox_metadata s) = Some md"
    using r by (auto simp: inbox_ready_def elim!: bind_SomeE)
  then show ?thesis using l Cons
    by (cases "cb x") (simp_all add: apply_next_def applied_def store_write_def Let_def)
qed (use l in \<open>simp add: apply_next_def\<close>)

lemma apply_next_ready:
  assumes r: "inbox_ready s" and l: "load_inbox st = Some s"
    and a: "apply_next st cb = (Applied x, st')"
  obtains remaining md where "ib_pending s = x # remaining" "cb x"
    "advance_metadata x (inbox_metadata s) = Some md"
    "load_inbox st' = Some (applied s x remaining md)"
proof -
  obtain remaining where p: "ib_pending s = x # remaining" and cb: "cb x"
    using a unfolding apply_next_cases [OF r l] by (auto split: list.splits if_splits simp: Let_def)
  then obtain md where md: "advance_metadata x (inbox_metadata s) = Some md"
    using r by (auto simp: inbox_ready_def elim!: bind_SomeE)
  have "valid_inbox (applied s x remaining md)"
    using applied_ready [OF r p md] by (simp add: inbox_ready_def)
  then have "load_inbox st' = Some (applied s x remaining md)"
    using a p cb md unfolding apply_next_cases [OF r l] load_inbox_def
    by (auto split: if_splits simp: Let_def inbox_from_to)
  with p cb md that show thesis by blast
qed

section \<open>Every history of calls\<close>

text \<open>
  The file under any sequence of calls: pages are staged and operations are committed; a call that
  raises leaves the file as it was and is no step.  The second component is the log of the operations
  that were committed.
\<close>

inductive inbox_step :: "store \<times> operation list \<Rightarrow> store \<times> operation list \<Rightarrow> bool" where
  inbox_stage: "stage_page st e n ops = Some st' \<Longrightarrow> inbox_step (st, log) (st', log)"
| inbox_apply: "apply_next st cb = (Applied x, st') \<Longrightarrow> inbox_step (st, log) (st', log @ [x])"

inductive inbox_reachable :: "store \<Rightarrow> operation list \<Rightarrow> bool" where
  inbox_new: "inbox_reachable None []"
| inbox_more: "inbox_reachable st log \<Longrightarrow> inbox_step (st, log) (st', log') \<Longrightarrow> inbox_reachable st' log'"

inductive_cases inbox_stepE: "inbox_step (st, log) (st', log')"

lemma inbox_reachable_stage: "inbox_reachable st log \<Longrightarrow> stage_page st e n ops = Some st' \<Longrightarrow> inbox_reachable st' log"
  by (rule inbox_more, assumption, rule inbox_stage)

lemma inbox_reachable_apply:
  "inbox_reachable st log \<Longrightarrow> apply_next st cb = (Applied x, st') \<Longrightarrow> inbox_reachable st' (log @ [x])"
  by (rule inbox_more, assumption, rule inbox_apply)

definition inbox_tracks :: "inbox_state \<Rightarrow> operation list \<Rightarrow> bool" where
  "inbox_tracks s log \<longleftrightarrow> inbox_ready s
     \<and> advance_all log empty_metadata = Some (inbox_metadata s)
     \<and> fmlookup (applied_fingerprints s) = log_index log \<and> distinct (map operation_id log)
     \<and> list_all valid_operation log"

lemma initial_tracks: "inbox_tracks initial_inbox []"
  using valid_initial_inbox
  by (auto simp: inbox_tracks_def inbox_ready_def initial_inbox_def inbox_metadata_def
      empty_metadata_def log_index_def unapplied_def fcard.rep_eq)

lemma load_initial: "load_inbox None = Some initial_inbox"
  unfolding load_inbox_def by (rule inbox.load_new)

lemma staged_tracks:
  assumes "inbox_tracks s log" "load_inbox st = Some s" "stage_page st e n ops = Some st'"
  shows "inbox_tracks (staged s n (unapplied (applied_fingerprints s) ops)) log"
proof -
  have "inbox_metadata (staged s n ys) = inbox_metadata s"
    "applied_fingerprints (staged s n ys) = applied_fingerprints s" for ys
    by (simp_all add: staged_def inbox_metadata_def)
  then show ?thesis using assms staged_ready [OF _ assms(2,3)] by (simp add: inbox_tracks_def)
qed

lemma applied_tracks:
  assumes t: "inbox_tracks s log" and p: "ib_pending s = x # remaining"
    and a: "advance_metadata x (inbox_metadata s) = Some md"
  shows "inbox_tracks (applied s x remaining md) (log @ [x])"
proof -
  have "fmlookup (applied_fingerprints s) (operation_id x) = None"
    using t p unfolding inbox_tracks_def inbox_ready_def unapplied_def
    by (auto split: if_splits dest: filter_eq_ConsD)
  then have new: "operation_id x \<notin> operation_id ` set log"
    using t by (simp add: inbox_tracks_def log_index_None)
  moreover have "valid_operation x"
    using t p by (simp add: inbox_tracks_def inbox_ready_def valid_inbox_def)
  moreover have "applied_fingerprints (applied s x remaining md)
      = fmupd (operation_id x) (fingerprint x) (applied_fingerprints s)"
    by (simp add: applied_def)
  ultimately show ?thesis
    using t a applied_ready [OF _ p a]
    by (auto simp: inbox_tracks_def advance_all_append log_index_snoc)
qed

lemma inbox_reachable_tracks:
  "inbox_reachable st log \<Longrightarrow> \<exists>s. load_inbox st = Some s \<and> inbox_tracks s log"
proof (induction rule: inbox_reachable.induct)
  case inbox_new
  then show ?case using load_initial initial_tracks by blast
next
  case (inbox_more st log st' log')
  then obtain s where s: "load_inbox st = Some s" "inbox_tracks s log" by blast
  then have r: "inbox_ready s" by (simp add: inbox_tracks_def)
  from inbox_more(2) consider
      (stage) e n ops where "stage_page st e n ops = Some st'" "log' = log"
    | (commit) cb x where "apply_next st cb = (Applied x, st')" "log' = log @ [x]"
    by (auto elim: inbox_stepE)
  then show ?case
  proof cases
    case (stage e n ops)
    then show ?thesis using staged_tracks [OF s(2,1)] stage_page_ready [OF r s(1)] by blast
  next
    case (commit cb x)
    then show ?thesis using apply_next_ready [OF r s(1) commit(1)] applied_tracks [OF s(2)] by metis
  qed
qed

section \<open>What the callback sees\<close>

text \<open>The operation a call of \<open>apply_next\<close> has handed to the callback, and the one it has committed.\<close>

fun offered :: "apply_outcome \<Rightarrow> operation list" where
  "offered (Callback_raised x) = [x]"
| "offered (Commit_raised x) = [x]"
| "offered (Applied x) = [x]"
| "offered _ = []"

fun committed :: "apply_outcome \<Rightarrow> operation list" where
  "committed (Applied x) = [x]"
| "committed _ = []"

text \<open>Runs with the calls that raise: \<open>handed\<close> lists the operations the callback was called with.  A call
  may also end between the callback and the write, when the disk fails or the process stops.\<close>

inductive inbox_run :: "store \<Rightarrow> operation list \<Rightarrow> operation list \<Rightarrow> bool" where
  run_new: "inbox_run None [] []"
| run_stage: "inbox_run st handed log \<Longrightarrow> stage_page st e n ops = Some st' \<Longrightarrow> inbox_run st' handed log"
| run_apply: "inbox_run st handed log \<Longrightarrow> apply_next st cb = (r, st') \<Longrightarrow>
     inbox_run st' (handed @ offered r) (log @ committed r)"
| run_interrupted: "inbox_run st handed log \<Longrightarrow> load_inbox st = Some s \<Longrightarrow> ib_pending s = x # rest \<Longrightarrow>
     inbox_run st (handed @ [x]) log"

text \<open>Without immediate repetitions, what was handed over is what was committed, and at most the
  operation that is next.\<close>

definition in_step :: "inbox_state \<Rightarrow> operation list \<Rightarrow> operation list \<Rightarrow> bool" where
  "in_step s handed log \<longleftrightarrow> remdups_adj handed = log
     \<or> (\<exists>x rest. ib_pending s = x # rest \<and> remdups_adj handed = log @ [x])"

lemma remdups_adj_snoc: "remdups_adj (xs @ [x]) = (if xs \<noteq> [] \<and> last xs = x then remdups_adj xs else remdups_adj xs @ [x])"
  by (induction xs rule: remdups_adj.induct) auto

lemma tracks_pending_new:
  assumes "inbox_tracks s log" "ib_pending s = x # rest"
  shows "x \<notin> set log"
proof -
  have "fmlookup (applied_fingerprints s) (operation_id x) = None"
    using assms unfolding inbox_tracks_def inbox_ready_def unapplied_def
    by (auto split: if_splits dest: filter_eq_ConsD)
  then show ?thesis using assms(1) by (auto simp: inbox_tracks_def log_index_None)
qed

lemma in_step_offer:
  assumes "inbox_tracks s log" "in_step s handed log" "ib_pending s = x # rest"
  shows "remdups_adj (handed @ [x]) = log @ [x]"
proof (cases "remdups_adj handed = log")
  case True
  then have "last handed \<noteq> x" if "handed \<noteq> []"
    using tracks_pending_new [OF assms(1,3)] that by (metis last_in_set remdups_adj_set)
  then show ?thesis using True by (auto simp: remdups_adj_snoc)
next
  case False
  then have e: "remdups_adj handed = log @ [x]" using assms(2,3) by (auto simp: in_step_def)
  then have "handed \<noteq> []" by auto
  moreover from this have "last handed = x" using e by (metis last_remdups_adj last_snoc)
  ultimately show ?thesis using e by (simp add: remdups_adj_snoc)
qed

lemma inbox_run_tracks:
  "inbox_run st handed log \<Longrightarrow> \<exists>s. load_inbox st = Some s \<and> inbox_tracks s log \<and> in_step s handed log"
proof (induction rule: inbox_run.induct)
  case run_new
  then show ?case using load_initial initial_tracks by (auto simp: in_step_def)
next
  case (run_stage st handed log e n ops st')
  then obtain s where s: "load_inbox st = Some s" "inbox_tracks s log" "in_step s handed log" by blast
  then have "ib_pending s = []" using stage_page_SomeD(3) [OF s(1) run_stage.hyps(2)] by simp
  then have "remdups_adj handed = log" using s(3) by (simp add: in_step_def)
  then show ?case
    using staged_tracks [OF s(2,1) run_stage.hyps(2)] stage_page_ready [OF _ s(1) run_stage.hyps(2)] s(2)
    by (auto simp: in_step_def inbox_tracks_def)
next
  case (run_apply st handed log cb r st')
  then obtain s where s: "load_inbox st = Some s" "inbox_tracks s log" "in_step s handed log" by blast
  then have r: "inbox_ready s" by (simp add: inbox_tracks_def)
  show ?case
  proof (cases "ib_pending s")
    case Nil
    then have "r = Nothing_pending" "st' = st"
      using run_apply.hyps(2) unfolding apply_next_cases [OF r s(1)] by simp_all
    then show ?thesis using s by auto
  next
    case (Cons x rest)
    note o = in_step_offer [OF s(2,3) Cons]
    show ?thesis
    proof (cases "r = Applied x")
      case True
      then have "apply_next st cb = (Applied x, st')" using run_apply.hyps(2) by simp
      then obtain md where "advance_metadata x (inbox_metadata s) = Some md" "load_inbox st' = Some (applied s x rest md)"
        using apply_next_ready [OF r s(1)] Cons by (metis list.inject)
      then show ?thesis using True o applied_tracks [OF s(2) Cons] by (auto simp: in_step_def)
    next
      case False
      then have "st' = st" "offered r = [x]" "committed r = []"
        using run_apply.hyps(2) unfolding apply_next_cases [OF r s(1)] by (auto simp: Cons Let_def split: if_splits)
      then show ?thesis using s(1,2) o Cons by (auto simp: in_step_def)
    qed
  qed
next
  case (run_interrupted st handed log s x rest)
  then have "inbox_tracks s log" "in_step s handed log" by auto
  then show ?case using run_interrupted.hyps(2,3) in_step_offer by (auto simp: in_step_def)
qed

end
