(* ===== verification/Sizes.thy ===== *)
theory Sizes
  imports History Samples
begin

text \<open>
  Bounds on the serialised size of the dictionaries and operations in a queue, from which it
  follows that a small queue fits the cap on its file.
\<close>

lemma length_nat_digits: "n < 10 ^ k \<Longrightarrow> 0 < k \<Longrightarrow> length (nat_digits n) \<le> k"
proof (induction k arbitrary: n)
  case (Suc k)
  show ?case
  proof (cases "n < 10")
    case False
    with Suc(2) have "k > 0" by (cases k) auto
    moreover have "n div 10 < 10 ^ k" using Suc(2) by (intro less_mult_imp_div_less) simp
    ultimately have "length (nat_digits (n div 10)) \<le> k" using Suc(1) by simp
    then show ?thesis by (subst nat_digits.simps) simp
  qed simp
qed simp

lemma length_int_str: "is_counter i \<Longrightarrow> length (int_str i) \<le> 19"
proof -
  assume c: "is_counter i"
  then have "nat i < 10 ^ 19" unfolding is_counter_def MAXIMUM_INTEGER_def by simp linarith
  then have "length (nat_digits (nat i)) \<le> 19" by (rule length_nat_digits) simp
  with c show ?thesis by (simp add: is_counter_def int_str_def)
qed

lemma dict_weight:
  assumes "\<And>k v. fmlookup m k = Some v \<Longrightarrow> length k \<le> 128 \<and> json_weight (f v) \<le> 1000"
  shows "json_weight (dict_to_json f m) \<le> 2 + 2000 * fcard (fmdom m)"
proof -
  have "sum_list (map (\<lambda>(k, v). 4 + 6 * length k + json_weight (f v)) xs) \<le> 2000 * length xs"
    if "\<forall>(k, v) \<in> set xs. length k \<le> 128 \<and> json_weight (f v) \<le> 1000" for xs
    using that by (induction xs) auto
  from this [of "items m"] show ?thesis using assms
    by (auto simp: dict_to_json_def set_items length_items comp_def case_prod_unfold)
qed

lemma fingerprints_weight:
  "valid_dict is_uuid match_sha256 m \<Longrightarrow> json_weight (dict_to_json JStr m) \<le> 2 + 2000 * fcard (fmdom m)"
  by (rule dict_weight)
    (auto simp: valid_dict_def is_uuid_def is_text_def dest!: is_text_match_sha256 spec)

lemma sequences_weight:
  "valid_dict is_identifier is_counter m \<Longrightarrow> json_weight (dict_to_json JInt m) \<le> 2 + 2000 * fcard (fmdom m)"
  by (rule dict_weight) (auto simp: valid_dict_def is_identifier_def dest!: spec length_int_str)

lemma revisions_weight:
  "valid_dict is_identifier is_identifier m \<Longrightarrow> json_weight (dict_to_json JStr m) \<le> 2 + 2000 * fcard (fmdom m)"
  by (rule dict_weight) (auto simp: valid_dict_def is_identifier_def dest!: spec)

lemma order_weight: "valid_order r \<Longrightarrow> json_weight (order_to_json r) \<le> 2000"
  by (cases r)
    (auto simp: valid_order_def order_to_json_def is_identifier_def is_uuid_def is_text_def
      dest!: length_int_str)

definition small_operation :: "operation \<Rightarrow> bool" where
  "small_operation x \<longleftrightarrow> json_weight (operation_to_dict x) \<le> 20000"

lemma operations_weight:
  "list_all small_operation xs \<Longrightarrow>
     json_weight (JList (map operation_to_dict xs)) \<le> 2 + 20001 * length xs"
  by (induction xs) (auto simp: small_operation_def)

lemma small_samples [simp]: "small_operation sample_create" "small_operation sample_delete"
  using weight_samples by (simp_all add: small_operation_def)

end
