(* ===== verification/InboxHistory.thy ===== *)
theory InboxHistory
  imports Inbox Sizes
begin

text \<open>
  What any sequence of calls to the inbox achieves: its history is delivered in order, at least once,
  and committed exactly once, it never gets stuck on a page it accepted, redelivered operations are absorbed, and
  the cursor moves when a page is drained.
\<close>

section \<open>A small inbox fits its file\<close>

lemma cursor_weight:
  "\<forall>c. p = Some c \<longrightarrow> is_text MAXIMUM_CURSOR_LENGTH c \<Longrightarrow> json_weight (json_opt p) \<le> 13000"
  by (cases p) (auto simp: is_text_def MAXIMUM_CURSOR_LENGTH_def)

definition small_inbox :: "inbox_state \<Rightarrow> bool" where
  "small_inbox s \<longleftrightarrow> inbox_ready s \<and> list_all small_operation (ib_pending s)
     \<and> length (ib_pending s) \<le> 1000 \<and> fcard (fmdom (applied_fingerprints s)) \<le> 1000"

lemma optional_order_weight:
  "\<forall>r. q = Some r \<longrightarrow> valid_order r \<Longrightarrow>
     json_weight (case q of None \<Rightarrow> JNull | Some r \<Rightarrow> order_to_json r) \<le> 2000"
  by (cases q) (simp_all add: order_weight del: split_paired_All)

lemma write_fits_inbox:
  assumes "small_inbox s"
  shows "write_fits (inbox_dict s)"
proof -
  have v: "valid_inbox s" "list_all small_operation (ib_pending s)" "length (ib_pending s) \<le> 1000"
    "fcard (fmdom (applied_fingerprints s)) \<le> 1000" "fcard (fmdom (author_sequences s)) \<le> 1000"
    "fcard (fmdom (object_revisions s)) \<le> 1000"
    using assms by (auto simp: small_inbox_def inbox_ready_def)
  have d: "\<forall>c. ib_cursor s = Some c \<longrightarrow> is_text MAXIMUM_CURSOR_LENGTH c"
    "\<forall>c. pending_next_cursor s = Some c \<longrightarrow> is_text MAXIMUM_CURSOR_LENGTH c"
    "valid_dict is_uuid match_sha256 (applied_fingerprints s)"
    "valid_dict is_identifier is_counter (author_sequences s)"
    "valid_dict is_identifier is_identifier (object_revisions s)"
    "\<forall>r. last_order s = Some r \<longrightarrow> valid_order r"
    using v(1) unfolding valid_inbox_def valid_metadata_def inbox_metadata_def by simp_all
  show ?thesis unfolding inbox_dict_def
    by (intro write_fits_weight)
      (use v(3-6) cursor_weight [OF d(1)] cursor_weight [OF d(2)] operations_weight [OF v(2)]
        fingerprints_weight [OF d(3)] sequences_weight [OF d(4)] revisions_weight [OF d(5)]
        optional_order_weight [OF d(6)] in \<open>simp add: INBOX_FORMAT_def int_str_def\<close>)
qed

section \<open>The state tracks the log\<close>

lemma inbox_reachable_load:
  assumes "inbox_reachable st log" "load_inbox st = Some s"
  shows "inbox_tracks s log"
  using inbox_reachable_tracks [OF assms(1)] assms(2) by auto

lemma tracks_history: "inbox_tracks s log \<Longrightarrow> accepted_history log"
  using advance_all_history [of log] by (simp add: inbox_tracks_def)

lemma tracks_card: "inbox_tracks s log \<Longrightarrow> fcard (fmdom (applied_fingerprints s)) = length log"
proof -
  assume t: "inbox_tracks s log"
  have "fcard (fmdom (applied_fingerprints s)) = card (dom (fmlookup (applied_fingerprints s)))"
    by (simp add: fcard.rep_eq fmdom.rep_eq)
  also have "\<dots> = card (operation_id ` set log)" using t by (simp add: inbox_tracks_def dom_log_index)
  also have "\<dots> = length (map operation_id log)"
    using t distinct_card [of "map operation_id log"] by (simp add: inbox_tracks_def)
  finally show ?thesis by simp
qed

definition not_in_log :: "operation list \<Rightarrow> operation list \<Rightarrow> operation list" where
  "not_in_log log ops = filter (\<lambda>x. operation_id x \<notin> operation_id ` set log) ops"

lemma tracks_unapplied:
  "inbox_tracks s log \<Longrightarrow> unapplied (applied_fingerprints s) ops = not_in_log log ops"
  by (simp add: inbox_tracks_def unapplied_def not_in_log_def log_index_None)

lemma tracks_advance_all:
  assumes "inbox_tracks s log"
  shows "(\<exists>md. advance_all new (inbox_metadata s) = Some md) \<longleftrightarrow> accepted_history (log @ new)"
  using assms unfolding advance_all_history [symmetric] advance_all_append
  by (simp add: inbox_tracks_def)

definition agrees_with_log :: "operation list \<Rightarrow> operation list \<Rightarrow> bool" where
  "agrees_with_log log ops \<longleftrightarrow> (\<forall>x \<in> set ops. \<forall>y \<in> set log.
     operation_id x = operation_id y \<longrightarrow> fingerprint x = fingerprint y)"

lemma tracks_agrees:
  assumes "inbox_tracks s log"
  shows "(\<forall>x \<in> set ops. \<forall>d. fmlookup (applied_fingerprints s) (operation_id x) = Some d \<longrightarrow> d = fingerprint x)
     \<longleftrightarrow> agrees_with_log log ops"
proof -
  have l: "fmlookup (applied_fingerprints s) = log_index log" and d: "distinct (map operation_id log)"
    using assms by (simp_all add: inbox_tracks_def)
  have "(\<forall>d. log_index log i = Some d \<longrightarrow> d = f) \<longleftrightarrow> (\<forall>y \<in> set log. i = operation_id y \<longrightarrow> f = fingerprint y)" for i f
  proof (cases "\<exists>y \<in> set log. operation_id y = i")
    case True
    then obtain y where y: "y \<in> set log" "operation_id y = i" by blast
    have "z = y" if "z \<in> set log" "i = operation_id z" for z
      using d y that inj_onD [of operation_id "set log" z y] by (simp add: distinct_map)
    moreover have "log_index log i = Some (fingerprint y)" using log_index_mem [OF d y(1)] y(2) by simp
    ultimately show ?thesis using y by (metis option.inject)
  next
    case False
    then have "log_index log i = None" unfolding log_index_None by blast
    with False show ?thesis by auto
  qed
  then show ?thesis unfolding l agrees_with_log_def by blast
qed

lemma traverse_validated_if:
  "traverse validated_operation xs = (if \<forall>x \<in> set xs. valid_operation x then Some xs else None)"
  using traverse_validated [of xs xs] traverse_validated [of xs]
  by (cases "traverse validated_operation xs") auto

text \<open>The guard of \<open>stage_page\<close> on a reachable inbox, by its log.\<close>

lemma inbox_stage_spec:
  assumes "inbox_reachable st log" and "load_inbox st = Some s"
  shows "stage_page st e n ops = (let new = not_in_log log ops in
    if ib_pending s = [] \<and> ib_cursor s = e \<and> (\<forall>c. n = Some c \<longrightarrow> is_text MAXIMUM_CURSOR_LENGTH c)
      \<and> length ops \<le> MAXIMUM_QUEUE_OPERATIONS \<and> (\<forall>x \<in> set ops. valid_operation x)
      \<and> sorted (map order_key ops) \<and> distinct (map operation_id ops)
      \<and> agrees_with_log log ops \<and> accepted_history (log @ new)
      \<and> length log + length new \<le> MAXIMUM_QUEUE_OPERATIONS
    then store_write (inbox_dict (staged s n new)) else None)"
proof -
  have t: "inbox_tracks s log" by (rule inbox_reachable_load [OF assms])
  have c: "\<forall>c. ib_cursor s = Some c \<longrightarrow> is_text MAXIMUM_CURSOR_LENGTH c"
    using t by (simp add: inbox_tracks_def inbox_ready_def valid_inbox_def)
  have k: "fcard (fmdom (applied_fingerprints s)) = length log" by (rule tracks_card [OF t])
  note tracked = tracks_unapplied [OF t] tracks_advance_all [OF t] tracks_agrees [OF t] k
  define new where "new = not_in_log log ops"
  let ?ok = "ib_pending s = [] \<and> ib_cursor s = e \<and> (\<forall>c. n = Some c \<longrightarrow> is_text MAXIMUM_CURSOR_LENGTH c)
      \<and> length ops \<le> MAXIMUM_QUEUE_OPERATIONS \<and> (\<forall>x \<in> set ops. valid_operation x)
      \<and> sorted (map order_key ops) \<and> distinct (map operation_id ops)
      \<and> agrees_with_log log ops \<and> accepted_history (log @ new)
      \<and> length log + length new \<le> MAXIMUM_QUEUE_OPERATIONS"
  have "stage_page st e n ops = (if ?ok then store_write (inbox_dict (staged s n new)) else None)"
  proof (cases ?ok)
    case True
    then have "stage_new (applied_fingerprints s) ops (inbox_metadata s) = Some new"
      unfolding stage_new_Some tracked new_def by blast
    moreover from True have "cursor_value (json_opt e) = Some e" "cursor_value (json_opt n) = Some n"
      using c by simp_all
    ultimately show ?thesis using True assms(2)
      by (simp add: stage_page_def traverse_validated_if sort_operations_id_iff staged_def k
          del: cursor_value_iff)
  next
    case False
    have "stage_page st e n ops \<noteq> Some st'" for st'
    proof
      assume "stage_page st e n ops = Some st'"
      note d = stage_page_SomeD [OF assms(2) this, unfolded tracked, folded new_def]
      then have ?ok by blast
      with False show False by blast
    qed
    then show ?thesis using False by (metis not_None_eq)
  qed
  then show ?thesis by (simp only: Let_def new_def)
qed

section \<open>A concrete run\<close>

definition sample_page :: "operation list" where
  "sample_page = [sample_create, sample_delete]"

lemma sample_page_history: "accepted_history sample_page" "accepted_history [sample_create]"
proof -
  show one: "accepted_history [sample_create]"
    using accepted_history_snoc [of "[]" sample_create]
    by (simp add: sample_create_def last_revision_def)
  have "order_key sample_create < order_key sample_delete"
    by (simp add: order_key_def sample_create_def sample_delete_def)
  then show "accepted_history sample_page"
    using one accepted_history_snoc [of "[sample_create]" sample_delete]
    by (simp add: sample_page_def sample_create_def sample_delete_def last_revision_def
        by_author_def on_object_def)
qed

lemma sample_page_valid:
  "\<forall>x \<in> set sample_page. valid_operation x" "sorted (map order_key sample_page)"
  "distinct (map operation_id sample_page)"
proof -
  show "\<forall>x \<in> set sample_page. valid_operation x"
    by (simp add: sample_page_def valid_sample_create valid_sample_delete)
  show "distinct (map operation_id sample_page)"
    by (simp add: sample_page_def sample_create_def sample_delete_def)
  show "sorted (map order_key sample_page)"
    by (simp add: sample_page_def order_key_def sample_create_def sample_delete_def)
qed

definition sample_cursor :: "string option" where
  "sample_cursor = Some ''c1''"

lemma sample_cursor_text: "\<forall>c. sample_cursor = Some c \<longrightarrow> is_text MAXIMUM_CURSOR_LENGTH c"
  by (simp add: sample_cursor_def is_text_def MAXIMUM_CURSOR_LENGTH_def)

definition sample_staged :: inbox_state where
  "sample_staged = staged initial_inbox sample_cursor sample_page"

lemma inbox_written:
  "inbox_reachable st log \<Longrightarrow> load_inbox st = Some s \<Longrightarrow> small_inbox s \<Longrightarrow> write_fits (inbox_dict s)"
  by (rule write_fits_inbox)

lemma sample_stage_writes: "stage_page None None sample_cursor sample_page = store_write (inbox_dict sample_staged)"
proof -
  have "stage_page None (ib_cursor initial_inbox) sample_cursor sample_page
      = store_write (inbox_dict (staged initial_inbox sample_cursor (not_in_log [] sample_page)))"
    unfolding inbox_stage_spec [OF inbox_new load_initial] Let_def
    using sample_page_valid sample_page_history sample_cursor_text
    by (auto simp: initial_inbox_def agrees_with_log_def not_in_log_def sample_page_def
        MAXIMUM_QUEUE_OPERATIONS_def)
  then show ?thesis by (simp add: sample_staged_def initial_inbox_def not_in_log_def)
qed

lemma sample_staged_small: "small_inbox sample_staged"
proof -
  have fields: "ib_pending sample_staged = sample_page" "applied_fingerprints sample_staged = fmempty"
    "inbox_metadata sample_staged = inbox_metadata initial_inbox"
    "author_sequences sample_staged = fmempty" "object_revisions sample_staged = fmempty"
    by (simp_all add: sample_staged_def staged_def initial_inbox_def inbox_metadata_def)
  have "\<exists>md. advance_all sample_page (inbox_metadata initial_inbox) = Some md"
    using tracks_advance_all [OF initial_tracks, of sample_page] sample_page_history by simp
  moreover have "valid_inbox sample_staged"
    using valid_initial_inbox sample_page_valid sample_cursor_text
    unfolding sample_staged_def staged_def
    by (auto simp: valid_inbox_def inbox_metadata_def sample_page_def MAXIMUM_QUEUE_OPERATIONS_def
        initial_inbox_def)
  ultimately show ?thesis
    unfolding small_inbox_def inbox_ready_def fields
    by (simp add: unapplied_def sample_page_def MAXIMUM_QUEUE_OPERATIONS_def fcard.rep_eq)
qed

lemma small_applied:
  assumes "small_inbox s" "ib_pending s = x # rest" "advance_metadata x (inbox_metadata s) = Some md"
    and "fcard (fmdom (applied_fingerprints s)) < 1000"
  shows "small_inbox (applied s x rest md)"
proof -
  have "fcard (fmdom (fmupd (operation_id x) (fingerprint x) (applied_fingerprints s)))
      \<le> Suc (fcard (fmdom (applied_fingerprints s)))"
    by (simp add: fcard_finsert_if)
  then show ?thesis
    using assms applied_ready [OF _ assms(2,3)] by (simp add: small_inbox_def applied_def)
qed

lemma apply_step:
  assumes "inbox_reachable st log" "load_inbox st = Some s" "small_inbox s" "ib_pending s = x # rest"
    and "fcard (fmdom (applied_fingerprints s)) < 1000"
  obtains st' md where "apply_next st (\<lambda>_. True) = (Applied x, st')" "inbox_reachable st' (log @ [x])"
    "load_inbox st' = Some (applied s x rest md)" "small_inbox (applied s x rest md)"
proof -
  have r: "inbox_ready s" using assms(3) by (simp add: small_inbox_def)
  then obtain md where md: "advance_metadata x (inbox_metadata s) = Some md"
    using assms(4) by (auto simp: inbox_ready_def elim!: bind_SomeE)
  have s: "small_inbox (applied s x rest md)" by (rule small_applied [OF assms(3,4) md assms(5)])
  let ?st = "Some (inbox_dict (applied s x rest md))"
  have a: "apply_next st (\<lambda>_. True) = (Applied x, ?st)"
    using apply_next_cases [OF r assms(2), of "\<lambda>_. True"] assms(4) md write_fits_inbox [OF s]
    by (simp add: Let_def)
  have "load_inbox ?st = Some (applied s x rest md)"
    using s by (simp add: load_inbox_def inbox_from_to small_inbox_def inbox_ready_def)
  with a s inbox_reachable_apply [OF assms(1) a] that show thesis by blast
qed

lemma sample_run_staged:
  obtains st where "inbox_reachable st []" "load_inbox st = Some sample_staged"
    "stage_page None None sample_cursor sample_page = Some st"
proof -
  let ?st = "Some (inbox_dict sample_staged)"
  have p: "stage_page None None sample_cursor sample_page = Some ?st"
    unfolding sample_stage_writes using write_fits_inbox [OF sample_staged_small]
    by (simp add: store_write_def)
  moreover have "load_inbox ?st = Some sample_staged"
    using sample_staged_small
    by (simp add: load_inbox_def inbox_from_to small_inbox_def inbox_ready_def)
  ultimately show thesis using inbox_reachable_stage [OF inbox_new p] that by blast
qed

lemma sample_staged_simps:
  "ib_pending sample_staged = [sample_create, sample_delete]" "applied_fingerprints sample_staged = fmempty"
  "pending_next_cursor sample_staged = sample_cursor" "ib_cursor sample_staged = None"
  by (simp_all add: sample_staged_def staged_def initial_inbox_def sample_page_def)

lemma sample_run_applied:
  obtains st s where "inbox_reachable st sample_page" "load_inbox st = Some s"
    "ib_pending s = []" "ib_cursor s = sample_cursor" "small_inbox s"
proof -
  obtain st where st: "inbox_reachable st []" "load_inbox st = Some sample_staged"
    by (rule sample_run_staged)
  obtain st1 md1 where 1: "inbox_reachable st1 ([] @ [sample_create])"
    "load_inbox st1 = Some (applied sample_staged sample_create [sample_delete] md1)"
    "small_inbox (applied sample_staged sample_create [sample_delete] md1)"
    by (rule apply_step [OF st sample_staged_small sample_staged_simps(1)])
      (simp_all add: sample_staged_simps fcard.rep_eq)
  let ?s1 = "applied sample_staged sample_create [sample_delete] md1"
  obtain st2 md2 where 2: "inbox_reachable st2 (([] @ [sample_create]) @ [sample_delete])"
    "load_inbox st2 = Some (applied ?s1 sample_delete [] md2)" "small_inbox (applied ?s1 sample_delete [] md2)"
    by (rule apply_step [OF 1, of sample_delete "[]"])
      (simp_all add: applied_def sample_staged_simps fcard.rep_eq)
  show thesis
    by (rule that [OF _ 2(2)]) (use 2 in \<open>simp_all add: sample_page_def applied_def sample_staged_simps\<close>)
qed

section \<open>Properties\<close>




text \<open>C5: a page is staged exactly when nothing is pending, the cursor is the expected one, the next
  cursor is a text of admissible length, the operations are no more than a page may have, well formed,
  sorted and distinct, agree with what was applied under the same identifiers, and those that are new
  extend the committed history to an accepted history within the capacity; then only the new
  operations are staged, unless the file would be too large.\<close>

theorem inbox_stage_page_spec:
  assumes "inbox_reachable st log" and "load_inbox st = Some s"
  shows "stage_page st e n ops = (let new = not_in_log log ops in
    if ib_pending s = [] \<and> ib_cursor s = e \<and> (\<forall>c. n = Some c \<longrightarrow> is_text MAXIMUM_CURSOR_LENGTH c)
      \<and> length ops \<le> MAXIMUM_QUEUE_OPERATIONS \<and> (\<forall>x \<in> set ops. valid_operation x)
      \<and> sorted (map order_key ops) \<and> distinct (map operation_id ops)
      \<and> agrees_with_log log ops \<and> accepted_history (log @ new)
      \<and> length log + length new \<le> MAXIMUM_QUEUE_OPERATIONS
    then store_write (inbox_dict (staged s n new)) else None)"
  by (rule inbox_stage_spec [OF assms])

theorem inbox_stage_page_spec_witness:
  "stage_page None None sample_cursor sample_page = Some (Some (inbox_dict sample_staged))"
  using inbox_stage_page_spec [OF inbox_new load_initial, of None sample_cursor sample_page]
    sample_stage_writes write_fits_inbox [OF sample_staged_small]
  by (simp add: store_write_def)

text \<open>An operation that was staged can always be applied: the call fails only if the
  callback refuses the operation or the file would be too large.\<close>

theorem inbox_never_stuck:
  assumes "inbox_reachable st log" and "load_inbox st = Some s" and "ib_pending s = x # rest"
  shows "\<exists>md. advance_metadata x (inbox_metadata s) = Some md
    \<and> apply_next st cb = (if \<not> cb x then (Callback_raised x, st)
        else if write_fits (inbox_dict (applied s x rest md)) then (Applied x, Some (inbox_dict (applied s x rest md)))
        else (Commit_raised x, st))"
proof -
  have r: "inbox_ready s" using inbox_reachable_load [OF assms(1,2)] by (simp add: inbox_tracks_def)
  then obtain md where "advance_metadata x (inbox_metadata s) = Some md"
    using assms(3) by (auto simp: inbox_ready_def elim!: bind_SomeE)
  then show ?thesis using apply_next_cases [OF r assms(2), of cb] assms(3) by (simp add: Let_def)
qed

theorem inbox_never_stuck_witness:
  "\<exists>st st'. inbox_reachable st [] \<and> apply_next st (\<lambda>_. True) = (Applied sample_create, st')"
proof -
  obtain st where st: "inbox_reachable st []" "load_inbox st = Some sample_staged"
    by (rule sample_run_staged)
  obtain md where md: "advance_metadata sample_create (inbox_metadata sample_staged) = Some md"
    "apply_next st (\<lambda>_. True) =
      (if \<not> True then (Callback_raised sample_create, st)
       else if write_fits (inbox_dict (applied sample_staged sample_create [sample_delete] md))
       then (Applied sample_create, Some (inbox_dict (applied sample_staged sample_create [sample_delete] md)))
       else (Commit_raised sample_create, st))"
    using inbox_never_stuck [OF st sample_staged_simps(1), of "\<lambda>_. True"] by blast
  have "small_inbox (applied sample_staged sample_create [sample_delete] md)"
    by (rule small_applied [OF sample_staged_small sample_staged_simps(1) md(1)])
      (simp add: sample_staged_simps fcard.rep_eq)
  then show ?thesis using st(1) md(2) write_fits_inbox by auto
qed

text \<open>Applying removes the first pending operation and records its fingerprint; the cursor
  moves to that of the next page when, and only when, the page is drained.\<close>

theorem inbox_cursor_with_page:
  assumes "inbox_reachable st log" and "apply_next st cb = (Applied x, st')"
  shows "\<exists>s s'. load_inbox st = Some s \<and> load_inbox st' = Some s'
    \<and> ib_pending s = x # ib_pending s'
    \<and> ib_cursor s' = (if ib_pending s' = [] then pending_next_cursor s else ib_cursor s)
    \<and> applied_fingerprints s' = fmupd (operation_id x) (fingerprint x) (applied_fingerprints s)"
proof -
  obtain s where s: "load_inbox st = Some s" "inbox_ready s"
    using inbox_reachable_tracks [OF assms(1)] by (auto simp: inbox_tracks_def)
  obtain remaining md where "ib_pending s = x # remaining" "load_inbox st' = Some (applied s x remaining md)"
    using apply_next_ready [OF s(2,1) assms(2)] by blast
  with s(1) show ?thesis by (auto simp: applied_def)
qed

theorem inbox_cursor_with_page_witness:
  "\<exists>st s'. load_inbox st = Some s' \<and> ib_pending s' = [sample_delete] \<and> ib_cursor s' = None
     \<and> applied_fingerprints s' = fmupd (sample_uuid (CHR ''1'')) (fingerprint sample_create) fmempty"
proof -
  obtain st where st: "inbox_reachable st []" "load_inbox st = Some sample_staged"
    by (rule sample_run_staged)
  obtain st1 md1 where 1: "apply_next st (\<lambda>_. True) = (Applied sample_create, st1)"
    by (rule apply_step [OF st sample_staged_small sample_staged_simps(1)])
      (simp_all add: sample_staged_simps fcard.rep_eq)
  obtain s' where s': "load_inbox st1 = Some s'" "ib_pending sample_staged = sample_create # ib_pending s'"
    "ib_cursor s' = (if ib_pending s' = [] then sample_cursor else ib_cursor sample_staged)"
    "applied_fingerprints s' = fmupd (sample_uuid (CHR ''1'')) (fingerprint sample_create) fmempty"
    using inbox_cursor_with_page [OF st(1) 1] st(2) sample_staged_simps sample_create_id by auto
  then have "ib_pending s' = [sample_delete]" "ib_cursor s' = None"
    by (auto simp: sample_staged_simps split: if_splits)
  with s'(1,4) show ?thesis by blast
qed

text \<open>Redelivery is absorbed: a page of operations that were all applied before moves the
  cursor and stages nothing.\<close>

theorem inbox_redelivery_absorbed:
  assumes "inbox_reachable st log" and "load_inbox st = Some s" and "ib_pending s = []"
    and "set ops \<subseteq> set log" and "sorted (map order_key ops)" and "distinct (map operation_id ops)"
    and "\<forall>c. n = Some c \<longrightarrow> is_text MAXIMUM_CURSOR_LENGTH c"
  shows "stage_page st (ib_cursor s) n ops = store_write (inbox_dict (staged s n []))"
proof -
  have t: "inbox_tracks s log" by (rule inbox_reachable_load [OF assms(1,2)])
  then have log: "distinct (map operation_id log)" "\<forall>x \<in> set log. valid_operation x"
    "length log \<le> MAXIMUM_QUEUE_OPERATIONS"
    using tracks_card [OF t] by (auto simp: inbox_tracks_def inbox_ready_def list_all_iff)
  have "card (set ops) \<le> card (set log)" using assms(4) by (simp add: card_mono)
  then have "length ops \<le> length log"
    using assms(6) log(1) by (simp add: distinct_map distinct_card)
  moreover have "not_in_log log ops = []" using assms(4) by (auto simp: not_in_log_def filter_empty_conv)
  moreover have "agrees_with_log log ops"
    using assms(4) log(1) by (auto simp: agrees_with_log_def distinct_map dest: inj_onD)
  moreover have "\<forall>x \<in> set ops. valid_operation x" using assms(4) log(2) by blast
  ultimately show ?thesis
    unfolding inbox_stage_spec [OF assms(1,2)] Let_def
    using assms(3,5-7) log(3) tracks_history [OF t] by simp
qed

theorem inbox_redelivery_absorbed_witness:
  "\<exists>st s. inbox_reachable st sample_page \<and> load_inbox st = Some s
     \<and> stage_page st sample_cursor None sample_page = store_write (inbox_dict (staged s None []))"
proof -
  obtain st s where s: "inbox_reachable st sample_page" "load_inbox st = Some s" "ib_pending s = []"
    "ib_cursor s = sample_cursor" "small_inbox s"
    by (rule sample_run_applied)
  then show ?thesis
    using inbox_redelivery_absorbed [OF s(1-3) subset_refl sample_page_valid(2,3), of None] by auto
qed

end
