(* ===== verification/Snapshot.thy ===== *)
theory Snapshot
  imports History Sizes "HOL-Library.AList"
begin

text \<open>
  \<open>AuthenticatedCollectionSnapshot\<close> of \<open>vaultsync/sync_queue.py\<close>: the state of a collection after a
  prefix of its history, authenticated by HMAC-SHA-256 over the canonical JSON of its payload.
\<close>

section \<open>Data\<close>

type_synonym owners = "(string \<times> int, string) fmap"

record snapshot =
  collection_id :: string
  collection_revision :: int
  snapshot_order :: order
  snapshot_records :: "envelope list"
  snapshot_fingerprints :: "(string, string) fmap"
  snapshot_sequences :: "(string, int) fmap"
  snapshot_owners :: owners
  authentication_tag_b64 :: string
  canonical_payload_sha256 :: string

definition SNAPSHOT_FORMAT :: string where
  "SNAPSHOT_FORMAT = ''atlasvault-authenticated-collection-snapshot''"

definition SNAPSHOT_PAYLOAD_FORMAT :: string where
  "SNAPSHOT_PAYLOAD_FORMAT = ''atlasvault-authenticated-collection-snapshot-payload''"

definition SNAPSHOT_AUTHENTICATION_ALGORITHM :: string where
  "SNAPSHOT_AUTHENTICATION_ALGORITHM = ''HMAC-SHA256''"

definition snapshot_keys :: "string list" where
  "snapshot_keys = [''format'', ''version'', ''payload'', ''authentication'']"

definition payload_keys :: "string list" where
  "payload_keys = [''format'', ''version'', ''collection_id'', ''collection_revision'', ''last_order'',
     ''records'', ''applied_fingerprints'', ''author_sequences'', ''author_sequence_owners'',
     ''record_count'', ''live_record_count'', ''tombstone_count'']"

section \<open>Sequence owners\<close>

text \<open>\<open>_sequence_owners_json\<close>: for every device the dictionary from its sequence numbers, as
  decimal texts, to the operation that carries the number.  \<open>AList.update\<close> is the assignment to
  a Python dictionary, new keys at the end.\<close>

definition add_owner :: "(string \<times> (string \<times> string) list) list \<Rightarrow> (string \<times> int) \<times> string
    \<Rightarrow> (string \<times> (string \<times> string) list) list" where
  "add_owner result e = (case e of ((device, sequence), op_id) \<Rightarrow>
     AList.update device
       (AList.update (int_str sequence) op_id
         (case map_of result device of None \<Rightarrow> [] | Some inner \<Rightarrow> inner)) result)"

definition sequence_owners :: "owners \<Rightarrow> (string \<times> (string \<times> string) list) list" where
  "sequence_owners owners = foldl add_owner [] (items owners)"

definition sequence_owners_json :: "owners \<Rightarrow> json" where
  "sequence_owners_json owners =
     JObj (map (map_prod id (\<lambda>inner. JObj (map (map_prod id JStr) inner))) (sequence_owners owners))"

definition is_digit :: "char \<Rightarrow> bool" where
  "is_digit c \<longleftrightarrow> 48 \<le> byte_val c \<and> byte_val c \<le> 57"

definition digits_val :: "string \<Rightarrow> nat" where
  "digits_val t = foldl (\<lambda>n c. n * 10 + (byte_val c - 48)) 0 t"

text \<open>\<open>int\<close> raises on more than this many digits (the interpreter's default limit).\<close>

definition INT_MAX_STR_DIGITS :: nat where
  "INT_MAX_STR_DIGITS = 4300"

definition owner_entry :: "string \<times> json \<Rightarrow> (int \<times> string) option" where
  "owner_entry e = (case e of (sequence_text, v) \<Rightarrow> do {
     require (sequence_text \<noteq> [] \<and> list_all is_digit sequence_text);
     require (length sequence_text \<le> INT_MAX_STR_DIGITS);
     let sequence = int (digits_val sequence_text);
     require (\<not> (sequence < 1 \<or> int_str sequence \<noteq> sequence_text));
     op_id \<leftarrow> canonical_uuid v;
     Some (sequence, op_id) })"

definition device_owners :: "obj \<Rightarrow> string \<times> int \<Rightarrow> ((string \<times> int) \<times> string) list option" where
  "device_owners raw_owners e = (case e of (device, maximum_sequence) \<Rightarrow> do {
     raw \<leftarrow> map_of raw_owners device \<bind> mapping;
     require (int (length raw) = maximum_sequence);
     entries \<leftarrow> traverse owner_entry raw;
     require (set (map fst entries) = set [1..maximum_sequence]);
     Some (map (\<lambda>(n, i). ((device, n), i)) entries) })"

section \<open>Dictionaries\<close>

fun json_int :: "json \<Rightarrow> int option" where
  "json_int (JInt i) = Some i"
| "json_int _ = None"

definition live_count :: "envelope list \<Rightarrow> nat" where
  "live_count records = length (filter (\<lambda>e. \<not> tombstone e) records)"

definition tombstone_count :: "envelope list \<Rightarrow> nat" where
  "tombstone_count records = length (filter tombstone records)"

definition snapshot_payload :: "string \<Rightarrow> int \<Rightarrow> order \<Rightarrow> envelope list \<Rightarrow> (string, string) fmap
    \<Rightarrow> (string, int) fmap \<Rightarrow> owners \<Rightarrow> json" where
  "snapshot_payload cid rv ord records fingerprints sequences owners = JObj
     [(''format'', JStr SNAPSHOT_PAYLOAD_FORMAT), (''version'', JInt 1), (''collection_id'', JStr cid),
      (''collection_revision'', JInt rv), (''last_order'', order_to_json ord),
      (''records'', JList (map envelope_to_dict records)),
      (''applied_fingerprints'', dict_to_json JStr fingerprints),
      (''author_sequences'', dict_to_json JInt sequences),
      (''author_sequence_owners'', sequence_owners_json owners),
      (''record_count'', JInt (int (length records))),
      (''live_record_count'', JInt (int (live_count records))),
      (''tombstone_count'', JInt (int (tombstone_count records)))]"

definition snapshot_outer :: "json \<Rightarrow> string \<Rightarrow> json" where
  "snapshot_outer payload tag = JObj
     [(''format'', JStr SNAPSHOT_FORMAT), (''version'', JInt 1), (''payload'', payload),
      (''authentication'', JObj [(''algorithm'', JStr SNAPSHOT_AUTHENTICATION_ALGORITHM), (''tag_b64'', JStr tag)])]"

definition snapshot_to_dict :: "snapshot \<Rightarrow> json" where
  "snapshot_to_dict s = snapshot_outer
     (snapshot_payload (collection_id s) (collection_revision s) (snapshot_order s) (snapshot_records s)
       (snapshot_fingerprints s) (snapshot_sequences s) (snapshot_owners s))
     (authentication_tag_b64 s)"

definition snapshot_from_dict :: "string \<Rightarrow> json \<Rightarrow> snapshot option" where
  "snapshot_from_dict authentication_key v = do {
     require (length authentication_key = 32);
     outer \<leftarrow> mapping v;
     exact outer snapshot_keys;
     format_v \<leftarrow> map_of outer ''format'';
     version_v \<leftarrow> map_of outer ''version'';
     require (format_v = JStr SNAPSHOT_FORMAT \<and> py_eq_one version_v);
     payload_v \<leftarrow> map_of outer ''payload'';
     payload \<leftarrow> mapping payload_v;
     authentication \<leftarrow> map_of outer ''authentication'' \<bind> mapping;
     exact authentication [''algorithm'', ''tag_b64''];
     algorithm \<leftarrow> map_of authentication ''algorithm'';
     require (algorithm = JStr SNAPSHOT_AUTHENTICATION_ALGORITHM);
     tag_text \<leftarrow> map_of authentication ''tag_b64'' \<bind> canonical_base64 (Some 32) 1;
     tag \<leftarrow> b64decode tag_text;
     require (tag = hmac_sha256 authentication_key (canonical_json payload_v));
     exact payload payload_keys;
     payload_format \<leftarrow> map_of payload ''format'';
     payload_version \<leftarrow> map_of payload ''version'';
     require (payload_format = JStr SNAPSHOT_PAYLOAD_FORMAT \<and> py_eq_one payload_version);
     rv \<leftarrow> map_of payload ''collection_revision'' \<bind> integer_value;
     ord \<leftarrow> map_of payload ''last_order'' \<bind> order_from_json;
     raw_records \<leftarrow> map_of payload ''records'' \<bind> json_list;
     require (length raw_records \<le> MAXIMUM_QUEUE_OPERATIONS);
     records \<leftarrow> traverse envelope_from_dict raw_records;
     require (sort_key object_id records = records
       \<and> set_size (map object_id records) = length records);
     raw_fingerprints \<leftarrow> map_of payload ''applied_fingerprints'' \<bind> mapping;
     require (int (length raw_fingerprints) = rv \<and> rv \<le> int MAXIMUM_QUEUE_OPERATIONS);
     fingerprints \<leftarrow> dict_from_json canonical_uuid digest_value raw_fingerprints;
     raw_sequences \<leftarrow> map_of payload ''author_sequences'' \<bind> mapping;
     require (raw_sequences \<noteq> [] \<and> length raw_sequences \<le> MAXIMUM_QUEUE_OPERATIONS);
     sequences \<leftarrow> dict_from_json identifier_value integer_value raw_sequences;
     require (sum_list (map snd (items sequences)) = rv
       \<and> snd (snd (snd ord)) |\<in>| fmdom fingerprints);
     raw_owners \<leftarrow> map_of payload ''author_sequence_owners'' \<bind> mapping;
     require (set (map fst raw_owners) = fset (fmdom sequences));
     owner_entries \<leftarrow> traverse (device_owners raw_owners) (items sequences);
     let owners = fmap_of_list (concat owner_entries);
     require (int (fcard (fmran owners)) = rv \<and> fmran owners = fmdom fingerprints);
     record_count \<leftarrow> map_of payload ''record_count'' \<bind> json_int;
     live \<leftarrow> map_of payload ''live_record_count'' \<bind> json_int;
     dead \<leftarrow> map_of payload ''tombstone_count'' \<bind> json_int;
     require (record_count = int (length records) \<and> live = int (live_count records)
       \<and> dead = int (tombstone_count records) \<and> live + dead = record_count);
     cid \<leftarrow> map_of payload ''collection_id'' \<bind> identifier_value;
     Some \<lparr>collection_id = cid, collection_revision = rv, snapshot_order = ord,
       snapshot_records = records, snapshot_fingerprints = fingerprints,
       snapshot_sequences = sequences, snapshot_owners = owners,
       authentication_tag_b64 = tag_text,
       canonical_payload_sha256 = sha256_hex (canonical_json payload_v)\<rparr> }"

definition snapshot_create :: "string \<Rightarrow> string \<Rightarrow> (string, envelope) fmap \<Rightarrow> (string, string) fmap
    \<Rightarrow> (string, int) fmap \<Rightarrow> owners \<Rightarrow> order \<Rightarrow> snapshot option" where
  "snapshot_create authentication_key cid records fingerprints sequences owners ord =
     (let payload = snapshot_payload cid (int (fcard (fmdom fingerprints))) ord (map snd (items records))
           fingerprints sequences owners;
         tag = hmac_sha256 authentication_key (canonical_json payload)
      in snapshot_from_dict authentication_key (snapshot_outer payload (b64encode tag)))"

section \<open>Decimal texts\<close>

lemma foldl_digits: "foldl (\<lambda>n c. n * 10 + (byte_val c - 48)) 0 (t @ [c]) = digits_val t * 10 + (byte_val c - 48)"
  by (simp add: digits_val_def)

lemma byte_val_digit: "n < 10 \<Longrightarrow> byte_val (char_of (48 + n)) = 48 + n"
  by (simp add: byte_val_def)

lemma is_digit_char: "n < 10 \<Longrightarrow> is_digit (char_of (48 + n))" for n :: nat
  by (simp add: is_digit_def byte_val_digit)

lemma nat_digits_parse: "digits_val (nat_digits n) = n \<and> list_all is_digit (nat_digits n) \<and> nat_digits n \<noteq> []"
proof (induction n rule: nat_digits.induct)
  case (1 n)
  show ?case
  proof (cases "n < 10")
    case True
    then show ?thesis by (subst (1 2 3) nat_digits.simps) (simp add: digits_val_def is_digit_def byte_val_digit)
  next
    case False
    have "digits_val (nat_digits n) = digits_val (nat_digits (n div 10)) * 10 + n mod 10"
      using False by (subst nat_digits.simps) (simp add: digits_val_def byte_val_digit)
    then show ?thesis using 1 False
      by (subst (2 3) nat_digits.simps) (simp add: is_digit_char)
  qed
qed

lemma int_str_parse: "0 \<le> i \<Longrightarrow> int (digits_val (int_str i)) = i"
  "0 \<le> i \<Longrightarrow> list_all is_digit (int_str i)" "0 \<le> i \<Longrightarrow> int_str i \<noteq> []"
  using nat_digits_parse [of "nat i"] by (auto simp: int_str_def)

lemma int_str_inject: "0 \<le> i \<Longrightarrow> 0 \<le> j \<Longrightarrow> int_str i = int_str j \<longleftrightarrow> i = j"
  by (metis int_str_parse(1))

lemma owner_entry_accepts:
  "is_counter n \<Longrightarrow> is_uuid i \<Longrightarrow> owner_entry (int_str n, JStr i) = Some (n, i)"
  using length_int_str [of n] int_str_parse [of n]
  by (simp add: owner_entry_def is_counter_def INT_MAX_STR_DIGITS_def Let_def)

lemma owner_entry_valid: "owner_entry e = Some (n, i) \<Longrightarrow> 1 \<le> n \<and> is_uuid i"
  by (auto simp: owner_entry_def Let_def elim!: bind_SomeE split: prod.splits)

section \<open>Sequence owners, there and back\<close>

lemma update_new: "k \<notin> fst ` set xs \<Longrightarrow> AList.update k v xs = xs @ [(k, v)]"
  by (induction xs) auto

definition owned_by :: "string \<Rightarrow> ((string \<times> int) \<times> string) list \<Rightarrow> ((string \<times> int) \<times> string) list" where
  "owned_by d xs = filter (\<lambda>e. fst (fst e) = d) xs"

definition owner_text :: "(string \<times> int) \<times> string \<Rightarrow> string \<times> string" where
  "owner_text e = (int_str (snd (fst e)), snd e)"

lemma map_of_update: "map_of (AList.update k v xs) = (map_of xs)(k \<mapsto> v)"
  by (rule AList.update_conv')

lemma owners_by_device:
  assumes "distinct (map fst xs)" "\<forall>e \<in> set xs. 0 \<le> snd (fst e)"
  shows "map_of (foldl add_owner [] xs) d =
    (if owned_by d xs = [] then None else Some (map owner_text (owned_by d xs)))"
  using assms
proof (induction xs arbitrary: d rule: rev_induct)
  case (snoc e xs)
  obtain dev n i where e: "e = ((dev, n), i)" by (cases e) auto
  let ?r = "foldl add_owner [] xs"
  have IH: "map_of ?r d = (if owned_by d xs = [] then None else Some (map owner_text (owned_by d xs)))" for d
    using snoc by simp
  let ?inner = "case map_of ?r dev of None \<Rightarrow> [] | Some inner \<Rightarrow> inner"
  have inner: "?inner = map owner_text (owned_by dev xs)" by (simp add: IH)
  have "int_str n \<notin> fst ` set (map owner_text (owned_by dev xs))"
  proof
    assume "int_str n \<in> fst ` set (map owner_text (owned_by dev xs))"
    then obtain f where f: "f \<in> set xs" "fst (fst f) = dev" "int_str n = int_str (snd (fst f))"
      by (auto simp: owned_by_def owner_text_def)
    then have "n = snd (fst f)" using snoc.prems(2) int_str_inject e by (metis UnCI list.set_intros(1) set_append fst_conv snd_conv)
    then have "fst f = fst e" using f e by (simp add: prod_eq_iff)
    then show False using f(1) snoc.prems(1) by (metis distinct_append imageI list.set_map map_append not_distinct_conv_prefix list.simps(9))
  qed
  then have "AList.update (int_str n) i ?inner = map owner_text (owned_by dev (xs @ [e]))"
    unfolding inner by (subst update_new) (simp_all add: owned_by_def owner_text_def e)
  then have step: "foldl add_owner [] (xs @ [e]) = AList.update dev (map owner_text (owned_by dev (xs @ [e]))) ?r"
    by (simp add: add_owner_def e)
  show ?case unfolding step map_of_update using IH [of d] by (auto simp: owned_by_def e)
qed (simp add: owned_by_def)

lemma add_owner_dom: "dom (map_of (add_owner r e)) = insert (fst (fst e)) (dom (map_of r))"
  by (cases e) (auto simp: add_owner_def map_of_update simp del: fun_upd_apply split: prod.splits)

lemma owners_devices: "set (map fst (foldl add_owner [] xs)) = (fst \<circ> fst) ` set xs"
proof -
  have "dom (map_of (foldl add_owner [] xs)) = (fst \<circ> fst) ` set xs"
  proof (induction xs rule: rev_induct)
    case (snoc e xs)
    then show ?case by (simp add: add_owner_dom)
  qed simp
  then show ?thesis by (simp add: dom_map_of_conv_image_fst)
qed

text \<open>The owners of a collection: exactly the numbers up to the last sequence of every device.\<close>

definition complete_owners :: "(string, int) fmap \<Rightarrow> owners \<Rightarrow> bool" where
  "complete_owners sequences owners \<longleftrightarrow>
     (\<forall>d n. (d, n) |\<in>| fmdom owners \<longleftrightarrow> (\<exists>m. fmlookup sequences d = Some m \<and> 1 \<le> n \<and> n \<le> m))
     \<and> (\<forall>i. i |\<in>| fmran owners \<longrightarrow> is_uuid i)"

lemma owned_items:
  assumes "complete_owners sequences owners" "fmlookup sequences d = Some m"
  shows "set (map (snd \<circ> fst) (owned_by d (items owners))) = {1..m}"
    "distinct (map (snd \<circ> fst) (owned_by d (items owners)))"
proof -
  have c: "(d, n) |\<in>| fmdom owners \<longleftrightarrow> 1 \<le> n \<and> n \<le> m" for n
    using assms by (simp add: complete_owners_def)
  have "n \<in> set (map (snd \<circ> fst) (owned_by d (items owners))) \<longleftrightarrow> (d, n) |\<in>| fmdom owners" for n
  proof -
    have "n \<in> set (map (snd \<circ> fst) (owned_by d (items owners)))
        \<longleftrightarrow> (\<exists>e. e \<in> set (items owners) \<and> fst e = (d, n))"
      unfolding owned_by_def by force
    also have "\<dots> \<longleftrightarrow> (d, n) |\<in>| fmdom owners" unfolding set_items fmlookup_dom_iff by auto
    finally show ?thesis .
  qed
  then show "set (map (snd \<circ> fst) (owned_by d (items owners))) = {1..m}"
    unfolding c by (intro set_eqI) (simp only: atLeastAtMost_iff)
  have "distinct (map fst (owned_by d (items owners)))"
    by (simp add: owned_by_def distinct_map_filter)
  moreover have "inj_on snd (fst ` set (owned_by d (items owners)))"
    by (rule inj_onI) (auto simp: owned_by_def)
  ultimately have "distinct (map snd (map fst (owned_by d (items owners))))"
    unfolding distinct_map [of snd] by simp
  then show "distinct (map (snd \<circ> fst) (owned_by d (items owners)))" by (simp only: map_map)
qed

lemma length_owned_items:
  assumes "complete_owners sequences owners" "fmlookup sequences d = Some m" "is_counter m"
  shows "int (length (owned_by d (items owners))) = m"
proof -
  have "length (owned_by d (items owners)) = card {1..m}"
    using distinct_card [OF owned_items(2) [OF assms(1,2)]] owned_items(1) [OF assms(1,2)] by simp
  then show ?thesis using assms(3) by (simp add: is_counter_def)
qed

lemma owned_accepts:
  assumes "complete_owners sequences owners" "fmlookup sequences d = Some m" "is_counter m"
  shows "traverse owner_entry (map (map_prod id JStr) (map owner_text (owned_by d (items owners))))
    = Some (map (\<lambda>e. (snd (fst e), snd e)) (owned_by d (items owners)))"
proof -
  have "owner_entry (map_prod id JStr (owner_text e)) = Some (snd (fst e), snd e)"
    if e: "e \<in> set (owned_by d (items owners))" for e
  proof -
    have "snd (fst e) \<in> {1..m}" using e unfolding owned_items(1) [OF assms(1,2), symmetric] by simp
    then have "is_counter (snd (fst e))" using assms(3) by (simp add: is_counter_def)
    moreover have "fmlookup owners (fst e) = Some (snd e)"
      using e by (auto simp: owned_by_def set_items)
    then have "is_uuid (snd e)" using assms(1) by (auto simp: complete_owners_def intro: fmranI)
    ultimately show ?thesis by (simp add: owner_text_def owner_entry_accepts)
  qed
  then show ?thesis unfolding map_map
    using traverse_map_Some [of "owned_by d (items owners)" owner_entry "map_prod id JStr \<circ> owner_text"
        "\<lambda>e. (snd (fst e), snd e)"] by simp
qed

lemma device_owners_json:
  assumes "complete_owners sequences owners" "fmlookup sequences d = Some m" "is_counter m"
  shows "device_owners (map (map_prod id (\<lambda>inner. JObj (map (map_prod id JStr) inner))) (sequence_owners owners)) (d, m)
    = Some (owned_by d (items owners))"
proof -
  let ?own = "owned_by d (items owners)"
  have len: "int (length ?own) = m" by (rule length_owned_items [OF assms])
  have ne: "?own \<noteq> []" using len assms(3) by (auto simp: is_counter_def)
  have pos: "\<forall>e \<in> set (items owners). 0 \<le> snd (fst e)"
    using assms(1) by (force simp: set_items complete_owners_def fmlookup_dom_iff)
  have "map_of (sequence_owners owners) d = Some (map owner_text ?own)"
    unfolding sequence_owners_def using owners_by_device [OF distinct_keys_items pos] ne by simp
  then have "map_of (map (map_prod id (\<lambda>inner. JObj (map (map_prod id JStr) inner))) (sequence_owners owners)) d
      = Some (JObj (map (map_prod id JStr) (map owner_text ?own)))"
    by (simp add: map_prod_def map_of_map)
  moreover have "map (\<lambda>(n, i). ((d, n), i)) (map (\<lambda>e. (snd (fst e), snd e)) ?own) = ?own"
    by (auto simp: owned_by_def comp_def intro!: map_idI)
  moreover have "set (map fst (map (\<lambda>e. (snd (fst e), snd e)) ?own)) = set [1..m]"
    using owned_items(1) [OF assms(1,2)] by (simp only: map_map comp_def fst_conv set_upto)
  ultimately show ?thesis
    using owned_accepts [OF assms] len by (simp add: device_owners_def image_image)
qed

lemma sequence_owners_round:
  assumes "complete_owners sequences owners" "valid_dict is_identifier is_counter sequences"
  shows "\<exists>entries. traverse (device_owners (map (map_prod id (\<lambda>inner. JObj (map (map_prod id JStr) inner)))
      (sequence_owners owners))) (items sequences) = Some entries
    \<and> fmap_of_list (concat entries) = owners"
proof -
  let ?entries = "map (\<lambda>(d, m). owned_by d (items owners)) (items sequences)"
  have "traverse (device_owners (map (map_prod id (\<lambda>inner. JObj (map (map_prod id JStr) inner)))
      (sequence_owners owners))) (map id (items sequences)) = Some ?entries"
  proof (rule traverse_map_Some, clarify)
    fix d m assume "(d, m) \<in> set (items sequences)"
    then have "fmlookup sequences d = Some m" by (simp add: set_items)
    then show "device_owners (map (map_prod id (\<lambda>inner. JObj (map (map_prod id JStr) inner)))
      (sequence_owners owners)) (id (d, m)) = Some (owned_by d (items owners))"
      using assms by (simp add: device_owners_json valid_dict_def)
  qed
  moreover have "fmap_of_list (concat ?entries) = owners"
  proof (rule fmap_of_list_eqI)
    fix k v
    have "fmlookup owners k = Some v \<Longrightarrow> \<exists>m. fmlookup sequences (fst k) = Some m"
      using assms(1) fmdomI [of owners k v] by (cases k) (auto simp: complete_owners_def)
    then show "(k, v) \<in> set (concat ?entries) \<longleftrightarrow> fmlookup owners k = Some v"
      by (auto simp: owned_by_def set_items)
  qed
  ultimately show ?thesis by auto
qed

section \<open>The invariant of a snapshot\<close>

definition payload_of :: "snapshot \<Rightarrow> json" where
  "payload_of s = snapshot_payload (collection_id s) (collection_revision s) (snapshot_order s)
     (snapshot_records s) (snapshot_fingerprints s) (snapshot_sequences s) (snapshot_owners s)"

definition sound_snapshot :: "snapshot \<Rightarrow> bool" where
  "sound_snapshot s \<longleftrightarrow> is_identifier (collection_id s)
     \<and> is_counter (collection_revision s) \<and> collection_revision s \<le> int MAXIMUM_QUEUE_OPERATIONS
     \<and> valid_order (snapshot_order s)
     \<and> snd (snd (snd (snapshot_order s))) |\<in>| fmdom (snapshot_fingerprints s)
     \<and> (\<forall>e \<in> set (snapshot_records s). valid_envelope e)
     \<and> sorted (map object_id (snapshot_records s)) \<and> distinct (map object_id (snapshot_records s))
     \<and> length (snapshot_records s) \<le> MAXIMUM_QUEUE_OPERATIONS
     \<and> valid_dict is_uuid match_sha256 (snapshot_fingerprints s)
     \<and> int (fcard (fmdom (snapshot_fingerprints s))) = collection_revision s
     \<and> valid_dict is_identifier is_counter (snapshot_sequences s)
     \<and> fcard (fmdom (snapshot_sequences s)) \<le> MAXIMUM_QUEUE_OPERATIONS
     \<and> sum_list (map snd (items (snapshot_sequences s))) = collection_revision s
     \<and> complete_owners (snapshot_sequences s) (snapshot_owners s)
     \<and> fmran (snapshot_owners s) = fmdom (snapshot_fingerprints s)"

definition valid_snapshot :: "string \<Rightarrow> snapshot \<Rightarrow> bool" where
  "valid_snapshot key s \<longleftrightarrow> length key = 32 \<and> sound_snapshot s
     \<and> authentication_tag_b64 s = b64encode (hmac_sha256 key (canonical_json (payload_of s)))
     \<and> canonical_payload_sha256 s = sha256_hex (canonical_json (payload_of s))"

lemma live_tombstone_count: "live_count xs + tombstone_count xs = length xs"
  by (induction xs) (auto simp: live_count_def tombstone_count_def)

lemma owners_json_keys:
  assumes "complete_owners sequences owners" "valid_dict is_identifier is_counter sequences"
  shows "set (map fst (map (map_prod id (\<lambda>inner. JObj (map (map_prod id JStr) inner))) (sequence_owners owners)))
    = fset (fmdom sequences)"
proof -
  have "set (map fst (map (map_prod id (\<lambda>inner. JObj (map (map_prod id JStr) inner))) (sequence_owners owners)))
      = set (map fst (sequence_owners owners))" by (simp add: image_image)
  also have "\<dots> = {d. \<exists>n. (d, n) |\<in>| fmdom owners}"
    unfolding sequence_owners_def owners_devices set_items fmlookup_dom_iff by force
  also have "\<dots> = fset (fmdom sequences)"
  proof (rule set_eqI)
    fix d
    have "d |\<in>| fmdom sequences \<longleftrightarrow> (\<exists>m. fmlookup sequences d = Some m \<and> 1 \<le> m)"
      using assms(2) by (auto simp: fmlookup_dom_iff valid_dict_def is_counter_def)
    also have "\<dots> \<longleftrightarrow> (\<exists>n m. fmlookup sequences d = Some m \<and> 1 \<le> n \<and> n \<le> m)"
      by (meson order.trans order_refl)
    also have "\<dots> \<longleftrightarrow> (\<exists>n. (d, n) |\<in>| fmdom owners)"
      using assms(1) by (simp add: complete_owners_def)
    finally show "d \<in> {d. \<exists>n. (d, n) |\<in>| fmdom owners} \<longleftrightarrow> d \<in> fset (fmdom sequences)" by simp
  qed
  finally show ?thesis .
qed

lemma is_base64_tag: "is_base64 (Some 32) 1 (b64encode (hmac_sha256 key m))"
  by (rule is_base64_encode) simp_all

lemma snapshot_eqI:
  "Some r = Some s \<longleftrightarrow> collection_id r = collection_id s \<and> collection_revision r = collection_revision s
     \<and> snapshot_order r = snapshot_order s \<and> snapshot_records r = snapshot_records s
     \<and> snapshot_fingerprints r = snapshot_fingerprints s \<and> snapshot_sequences r = snapshot_sequences s
     \<and> snapshot_owners r = snapshot_owners s \<and> authentication_tag_b64 r = authentication_tag_b64 s
     \<and> canonical_payload_sha256 r = canonical_payload_sha256 s"
  for r s :: snapshot
  by (cases r; cases s) simp

lemma snapshot_from_to:
  assumes "valid_snapshot key s"
  shows "snapshot_from_dict key (snapshot_to_dict s) = Some s"
proof -
  note v = assms [unfolded valid_snapshot_def sound_snapshot_def]
  have c: "complete_owners (snapshot_sequences s) (snapshot_owners s)"
    "valid_dict is_identifier is_counter (snapshot_sequences s)" using v by blast+
  obtain entries where e: "traverse (device_owners (map (map_prod id (\<lambda>inner. JObj (map (map_prod id JStr) inner)))
      (sequence_owners (snapshot_owners s)))) (items (snapshot_sequences s)) = Some entries"
    "fmap_of_list (concat entries) = snapshot_owners s"
    using sequence_owners_round [OF c] by blast
  have k: "fst ` set (map (map_prod id (\<lambda>inner. JObj (map (map_prod id JStr) inner))) (sequence_owners (snapshot_owners s)))
    = fset (fmdom (snapshot_sequences s))"
    using owners_json_keys [of "snapshot_sequences s" "snapshot_owners s"] c by (simp only: set_map)
  have ne: "items (snapshot_sequences s) \<noteq> []" using v by (auto simp: is_counter_def)
  have "snapshot_from_dict key (snapshot_outer (payload_of s) (authentication_tag_b64 s)) = Some s"
    using v e k ne live_tombstone_count [of "snapshot_records s"] is_base64_tag [of key "canonical_json (payload_of s)"]
    unfolding snapshot_from_dict_def snapshot_outer_def payload_of_def snapshot_payload_def
    by (simp add: exact_def snapshot_keys_def payload_keys_def sort_key_id length_items dict_to_json_def
      fingerprint_dict.from_to sequence_dict.from_to sequence_owners_json_def Let_def
      order_from_to envelope_codec.list_dec_enc snapshot_eqI)
  then show ?thesis by (simp add: snapshot_to_dict_def payload_of_def)
qed

section \<open>What an accepted snapshot satisfies\<close>

lemma traverse_owner_entry_valid:
  assumes "traverse owner_entry raw = Some es" "(n, i) \<in> set es"
  shows "is_uuid i"
proof -
  obtain e where "owner_entry e = Some (n, i)" using traverse_set [OF assms] by blast
  then show ?thesis using owner_entry_valid by blast
qed

lemma device_owners_SomeD:
  assumes "device_owners raw (d, m) = Some es"
  shows "fst ` set es = {d} \<times> {1..m}" "\<forall>e \<in> set es. is_uuid (snd e)"
proof -
  obtain inner entries where e: "traverse owner_entry inner = Some entries"
    "set (map fst entries) = set [1..m]" "es = map (\<lambda>(n, i). ((d, n), i)) entries"
    using assms by (auto simp: device_owners_def elim!: bind_SomeE)
  have "fst ` set es = (\<lambda>n. (d, n)) ` set (map fst entries)"
    unfolding e(3) by (simp add: image_image case_prod_unfold)
  then show "fst ` set es = {d} \<times> {1..m}" unfolding e(2) by auto
  show "\<forall>e \<in> set es. is_uuid (snd e)"
    unfolding e(3) using traverse_owner_entry_valid [OF e(1)] by auto
qed

lemma entries_complete:
  assumes "traverse (device_owners raw) (items sequences) = Some entries"
  shows "complete_owners sequences (fmap_of_list (concat entries))"
proof -
  have all: "list_all2 (\<lambda>x y. device_owners raw x = Some y) (items sequences) entries"
    by (rule traverse_SomeD [OF assms])
  have "k \<in> fst ` set (concat entries) \<longleftrightarrow> (\<exists>m. fmlookup sequences (fst k) = Some m \<and> snd k \<in> {1..m})" for k
  proof
    assume "k \<in> fst ` set (concat entries)"
    then obtain es where es: "es \<in> set entries" "k \<in> fst ` set es" by auto
    then obtain dm where dm: "dm \<in> set (items sequences)" "device_owners raw dm = Some es"
      using traverse_set [OF assms] by blast
    then have "fst ` set es = {fst dm} \<times> {1..snd dm}"
      using device_owners_SomeD(1) [of raw "fst dm" "snd dm"] by simp
    with es dm(1) show "\<exists>m. fmlookup sequences (fst k) = Some m \<and> snd k \<in> {1..m}"
      by (auto simp: set_items)
  next
    assume "\<exists>m. fmlookup sequences (fst k) = Some m \<and> snd k \<in> {1..m}"
    then obtain m where m: "(fst k, m) \<in> set (items sequences)" "snd k \<in> {1..m}" by (auto simp: set_items)
    then obtain j where "j < length (items sequences)" "items sequences ! j = (fst k, m)"
      by (auto simp: in_set_conv_nth)
    then have es: "entries ! j \<in> set entries" "device_owners raw (fst k, m) = Some (entries ! j)"
      using all by (auto simp: list_all2_conv_all_nth)
    then have "k \<in> fst ` set (entries ! j)" using device_owners_SomeD(1) [OF es(2)] m(2) by (cases k) simp
    with es(1) show "k \<in> fst ` set (concat entries)" by auto
  qed
  then have dom: "(d, n) |\<in>| fmdom (fmap_of_list (concat entries))
      \<longleftrightarrow> (\<exists>m. fmlookup sequences d = Some m \<and> 1 \<le> n \<and> n \<le> m)" for d n
    unfolding fmdom_fmap_of_list fset_of_list_elem set_map by (simp only: fst_conv snd_conv atLeastAtMost_iff)
  have "is_uuid i" if "i |\<in>| fmran (fmap_of_list (concat entries))" for i
  proof -
    from that obtain k where "fmlookup (fmap_of_list (concat entries)) k = Some i"
      by (auto simp del: fmlookup_of_list split_paired_Ex elim!: fmranE)
    then have "(k, i) \<in> set (concat entries)" by (auto simp: fmlookup_of_list dest: map_of_SomeD)
    then obtain es where es: "es \<in> set entries" "(k, i) \<in> set es" by auto
    then obtain dm where "device_owners raw dm = Some es" using traverse_set [OF assms] by blast
    then show ?thesis using device_owners_SomeD(2) [of raw "fst dm" "snd dm" es] es(2) by force
  qed
  with dom show ?thesis by (simp add: complete_owners_def)
qed

lemma snapshot_from_dictE:
  assumes "snapshot_from_dict key v = Some s"
  obtains payload_v raw_records raw_fingerprints raw_sequences raw_owners entries raw_order tag where
    "length key = 32" "mapping v \<bind> (\<lambda>outer. map_of outer ''payload'') = Some payload_v"
    "mapping v \<bind> (\<lambda>outer. map_of outer ''authentication'' \<bind> mapping) \<bind> (\<lambda>a. map_of a ''tag_b64'')
      = Some (JStr (authentication_tag_b64 s))"
    "is_base64 (Some 32) 1 (authentication_tag_b64 s)"
    "b64decode (authentication_tag_b64 s) = Some tag"
    "tag = hmac_sha256 key (canonical_json payload_v)"
    "canonical_payload_sha256 s = sha256_hex (canonical_json payload_v)"
    "is_counter (collection_revision s)"
    "order_from_json raw_order = Some (snapshot_order s)"
    "length raw_records \<le> MAXIMUM_QUEUE_OPERATIONS"
    "traverse envelope_from_dict raw_records = Some (snapshot_records s)"
    "sort_key object_id (snapshot_records s) = snapshot_records s
       \<and> set_size (map object_id (snapshot_records s)) = length (snapshot_records s)"
    "int (length raw_fingerprints) = collection_revision s \<and> collection_revision s \<le> int MAXIMUM_QUEUE_OPERATIONS"
    "dict_from_json canonical_uuid digest_value raw_fingerprints = Some (snapshot_fingerprints s)"
    "raw_sequences \<noteq> [] \<and> length raw_sequences \<le> MAXIMUM_QUEUE_OPERATIONS"
    "dict_from_json identifier_value integer_value raw_sequences = Some (snapshot_sequences s)"
    "sum_list (map snd (items (snapshot_sequences s))) = collection_revision s
       \<and> snd (snd (snd (snapshot_order s))) |\<in>| fmdom (snapshot_fingerprints s)"
    "traverse (device_owners raw_owners) (items (snapshot_sequences s)) = Some entries"
    "snapshot_owners s = fmap_of_list (concat entries)"
    "int (fcard (fmran (snapshot_owners s))) = collection_revision s
       \<and> fmran (snapshot_owners s) = fmdom (snapshot_fingerprints s)"
    "is_identifier (collection_id s)"
  using assms unfolding snapshot_from_dict_def Let_def
  apply (elim bind_SomeE)
  apply (simp only: require_simps option.inject integer_value_iff identifier_value_iff canonical_base64_iff)
  apply (elim conjE)
  apply hypsubst
  apply (rule that)
  apply (assumption | simp only: snapshot.simps bind.bind_lunit Option.bind.bind_lunit)+
  done

lemma snapshot_from_sound:
  assumes "snapshot_from_dict key v = Some s"
  shows "sound_snapshot s"
  using assms
proof (rule snapshot_from_dictE)
  fix payload_v raw_records raw_fingerprints raw_sequences raw_owners entries raw_order tag
  assume r: "length raw_records \<le> MAXIMUM_QUEUE_OPERATIONS"
      "traverse envelope_from_dict raw_records = Some (snapshot_records s)"
      "sort_key object_id (snapshot_records s) = snapshot_records s
       \<and> set_size (map object_id (snapshot_records s)) = length (snapshot_records s)"
    and c: "is_counter (collection_revision s)"
      "int (length raw_fingerprints) = collection_revision s \<and> collection_revision s \<le> int MAXIMUM_QUEUE_OPERATIONS"
    and o: "order_from_json raw_order = Some (snapshot_order s)" "is_identifier (collection_id s)"
    and f: "dict_from_json canonical_uuid digest_value raw_fingerprints = Some (snapshot_fingerprints s)"
    and q: "raw_sequences \<noteq> [] \<and> length raw_sequences \<le> MAXIMUM_QUEUE_OPERATIONS"
      "dict_from_json identifier_value integer_value raw_sequences = Some (snapshot_sequences s)"
      "sum_list (map snd (items (snapshot_sequences s))) = collection_revision s
       \<and> snd (snd (snd (snapshot_order s))) |\<in>| fmdom (snapshot_fingerprints s)"
    and w: "traverse (device_owners raw_owners) (items (snapshot_sequences s)) = Some entries"
      "snapshot_owners s = fmap_of_list (concat entries)"
      "int (fcard (fmran (snapshot_owners s))) = collection_revision s
       \<and> fmran (snapshot_owners s) = fmdom (snapshot_fingerprints s)"
  have "sorted (map object_id (snapshot_records s))" using r(3) by (metis sorted_sort_key)
  moreover have "fcard (fmdom (snapshot_sequences s)) \<le> MAXIMUM_QUEUE_OPERATIONS"
    using sequence_dict.from_card [OF q(2)] q(1) by simp
  moreover have "complete_owners (snapshot_sequences s) (snapshot_owners s)"
    unfolding w(2) by (rule entries_complete [OF w(1)])
  moreover have "distinct (map object_id (snapshot_records s))"
    using r(3) by (simp only: set_size_map_eq_length)
  moreover have "int (fcard (fmdom (snapshot_fingerprints s))) = collection_revision s"
    using w(3) by metis
  ultimately show ?thesis
    using r(1) c o q(3) w(3) envelope_codec.list_dec_valid [OF r(2)] traverse_length [OF r(2)]
      fingerprint_dict.from_valid [OF f] sequence_dict.from_valid [OF q(2)]
    unfolding sound_snapshot_def by simp
qed

interpretation snapshot_codec: roundtrip "valid_snapshot key" snapshot_to_dict "snapshot_from_dict key"
  for key by unfold_locales (rule snapshot_from_to)

end
