(* ===== verification/Collection.thy ===== *)
theory Collection
  imports Snapshot
begin

text \<open>
  \<open>_CollectionReplay\<close>, \<open>_load_collection\<close> and \<open>DurableEncryptedPatchCollection\<close> of
  \<open>vaultsync/sync_queue.py\<close>: a collection is a snapshot and a tail of operations; its records are
  what replaying the tail over the snapshot gives; compaction turns both into a new snapshot.
\<close>

section \<open>Replay\<close>

record replay =
  rp_records :: "(string, envelope) fmap"
  rp_fingerprints :: "(string, string) fmap"
  rp_sequences :: "(string, int) fmap"
  rp_owners :: owners
  rp_revisions :: "(string, string) fmap"
  rp_order :: "order option"

definition empty_replay :: replay where
  "empty_replay = \<lparr>rp_records = fmempty, rp_fingerprints = fmempty, rp_sequences = fmempty,
     rp_owners = fmempty, rp_revisions = fmempty, rp_order = None\<rparr>"

definition replay_from_snapshot :: "snapshot option \<Rightarrow> replay" where
  "replay_from_snapshot snap = (case snap of
     None \<Rightarrow> empty_replay
   | Some s \<Rightarrow>
       (let records = fmap_of_list (rev (map (\<lambda>e. (object_id e, e)) (snapshot_records s))) in
        \<lparr>rp_records = records, rp_fingerprints = snapshot_fingerprints s,
          rp_sequences = snapshot_sequences s, rp_owners = snapshot_owners s,
          rp_revisions = fmmap revision records, rp_order = Some (snapshot_order s)\<rparr>))"

text \<open>\<open>_CollectionReplay.apply\<close>: whether the operation was new, and the replay after it.\<close>

definition replay_apply :: "operation \<Rightarrow> replay \<Rightarrow> (bool \<times> replay) option" where
  "replay_apply x r = (case fmlookup (rp_fingerprints r) (operation_id x) of
     Some known \<Rightarrow> (if known \<noteq> fingerprint x then None else Some (False, r))
   | None \<Rightarrow> do {
       require (\<not> (MAXIMUM_QUEUE_OPERATIONS \<le> fcard (fmdom (rp_fingerprints r))));
       let sequence_key = (author_device_id x, author_sequence x);
       require (\<not> (\<exists>i \<in> set_option (fmlookup (rp_owners r) sequence_key). i \<noteq> operation_id x));
       md \<leftarrow> advance_metadata x \<lparr>md_sequences = rp_sequences r, md_revisions = rp_revisions r,
         md_last_order = rp_order r\<rparr>;
       Some (True, r\<lparr>
         rp_records := fmupd (object_id (op_envelope x)) (op_envelope x) (rp_records r),
         rp_fingerprints := fmupd (operation_id x) (fingerprint x) (rp_fingerprints r),
         rp_sequences := md_sequences md,
         rp_owners := fmupd sequence_key (operation_id x) (rp_owners r),
         rp_revisions := md_revisions md,
         rp_order := md_last_order md\<rparr>) })"

text \<open>The loop of \<open>_load_collection\<close>: an operation of the tail that is not new is an error.\<close>

fun replay_tail :: "operation list \<Rightarrow> replay \<Rightarrow> replay option" where
  "replay_tail [] r = Some r"
| "replay_tail (x # xs) r = do {
     (fresh, r') \<leftarrow> replay_apply x r;
     require fresh;
     replay_tail xs r' }"

section \<open>The persisted collection\<close>

definition COLLECTION_STATE_FORMAT :: string where
  "COLLECTION_STATE_FORMAT = ''atlasvault-encrypted-patch-collection-state''"

definition collection_keys :: "string list" where
  "collection_keys = [''format'', ''version'', ''collection_id'', ''snapshot'', ''tail_operations'']"

definition collection_dict :: "string \<Rightarrow> snapshot option \<Rightarrow> operation list \<Rightarrow> json" where
  "collection_dict cid snap tail = JObj
     [(''format'', JStr COLLECTION_STATE_FORMAT), (''version'', JInt 1), (''collection_id'', JStr cid),
      (''snapshot'', (case snap of None \<Rightarrow> JNull | Some s \<Rightarrow> snapshot_to_dict s)),
      (''tail_operations'', JList (map operation_to_dict tail))]"

definition collection_default :: "string \<Rightarrow> json" where
  "collection_default cid = JObj
     [(''format'', JStr COLLECTION_STATE_FORMAT), (''version'', JInt 1), (''collection_id'', JStr cid),
      (''snapshot'', JNull), (''tail_operations'', JList [])]"

definition collection_from_state :: "string \<Rightarrow> string \<Rightarrow> json \<Rightarrow> (snapshot option \<times> operation list \<times> replay) option" where
  "collection_from_state key cid v = do {
     state \<leftarrow> mapping v;
     exact state collection_keys;
     format_v \<leftarrow> map_of state ''format'';
     version_v \<leftarrow> map_of state ''version'';
     require (format_v = JStr COLLECTION_STATE_FORMAT \<and> py_eq_one version_v);
     stored_id \<leftarrow> map_of state ''collection_id'' \<bind> identifier_value;
     require (stored_id = cid);
     snapshot_value \<leftarrow> map_of state ''snapshot'';
     snap \<leftarrow> nullable (snapshot_from_dict key) snapshot_value;
     require (\<not> (\<exists>s \<in> set_option snap. collection_id s \<noteq> cid));
     raw_tail \<leftarrow> map_of state ''tail_operations'' \<bind> json_list;
     require (length raw_tail \<le> MAXIMUM_QUEUE_OPERATIONS);
     tail \<leftarrow> traverse operation_from_dict raw_tail;
     require (tail = sort_operations tail \<and> set_size (map operation_id tail) = length tail);
     r \<leftarrow> replay_tail tail (replay_from_snapshot snap);
     Some (snap, tail, r) }"

definition load_collection :: "string \<Rightarrow> string \<Rightarrow> store \<Rightarrow> (snapshot option \<times> operation list \<times> replay) option" where
  "load_collection key cid st = collection_from_state key cid (store_read st (collection_default cid))"

section \<open>Operations\<close>

text \<open>A collection object: the key and the identifier its constructor checks.\<close>

definition collection_init :: "string \<Rightarrow> json \<Rightarrow> string option" where
  "collection_init key cid = do { require (length key = 32); identifier_value cid }"

definition collection_append :: "string \<Rightarrow> string \<Rightarrow> store \<Rightarrow> operation \<Rightarrow> store option" where
  "collection_append key cid st x = do {
     x \<leftarrow> validated_operation x;
     (snap, tail, r) \<leftarrow> load_collection key cid st;
     (fresh, r') \<leftarrow> replay_apply x r;
     if \<not> fresh then Some st
     else store_write (collection_dict cid snap (tail @ [x])) }"

definition collection_records :: "string \<Rightarrow> string \<Rightarrow> store \<Rightarrow> envelope list option" where
  "collection_records key cid st = do {
     (snap, tail, r) \<leftarrow> load_collection key cid st;
     Some (map snd (items (rp_records r))) }"

definition collection_tail :: "string \<Rightarrow> string \<Rightarrow> store \<Rightarrow> operation list option" where
  "collection_tail key cid st = map_option (\<lambda>(snap, tail, r). tail) (load_collection key cid st)"

definition collection_snapshot :: "string \<Rightarrow> string \<Rightarrow> store \<Rightarrow> snapshot option option" where
  "collection_snapshot key cid st = map_option (\<lambda>(snap, tail, r). snap) (load_collection key cid st)"

definition committed_operation_count :: "string \<Rightarrow> string \<Rightarrow> store \<Rightarrow> nat option" where
  "committed_operation_count key cid st =
     map_option (\<lambda>(snap, tail, r). fcard (fmdom (rp_fingerprints r))) (load_collection key cid st)"

text \<open>\<open>compact\<close>; \<open>before_replace\<close> says whether the callback, run before the file is replaced,
  returns.\<close>

definition collection_compact :: "string \<Rightarrow> string \<Rightarrow> store \<Rightarrow> bool \<Rightarrow> (snapshot \<times> store) option" where
  "collection_compact key cid st before_replace = do {
     (snap, tail, r) \<leftarrow> load_collection key cid st;
     ord \<leftarrow> rp_order r;
     require (rp_fingerprints r \<noteq> fmempty);
     s \<leftarrow> snapshot_create key cid (rp_records r) (rp_fingerprints r) (rp_sequences r) (rp_owners r) ord;
     st' \<leftarrow> store_write (collection_dict cid (Some s) []);
     require before_replace;
     Some (s, st') }"

section \<open>What a replay tracks\<close>

definition replay_metadata :: "replay \<Rightarrow> metadata" where
  "replay_metadata r = \<lparr>md_sequences = rp_sequences r, md_revisions = rp_revisions r,
     md_last_order = rp_order r\<rparr>"

text \<open>The replay of a history: its metadata, and for every identifier, sequence number and
  object what the history says of it.\<close>

definition owner_of :: "operation list \<Rightarrow> string \<times> int \<rightharpoonup> string" where
  "owner_of log = map_of (rev (map (\<lambda>x. ((author_device_id x, author_sequence x), operation_id x)) log))"

definition current_record :: "operation list \<Rightarrow> string \<rightharpoonup> envelope" where
  "current_record log i = (if on_object i log = [] then None else Some (last (on_object i log)))"

definition replay_tracks :: "replay \<Rightarrow> operation list \<Rightarrow> bool" where
  "replay_tracks r log \<longleftrightarrow>
     advance_all log empty_metadata = Some (replay_metadata r)
     \<and> fmlookup (rp_fingerprints r) = log_index log
     \<and> fmlookup (rp_owners r) = owner_of log
     \<and> fmlookup (rp_records r) = current_record log
     \<and> distinct (map operation_id log) \<and> list_all valid_operation log
     \<and> length log \<le> MAXIMUM_QUEUE_OPERATIONS"

end
