(* ===== verification/CollectionHistory.thy ===== *)
theory CollectionHistory
  imports Collection
begin

text \<open>
  What any sequence of appends and compactions achieves: the collection tracks its accepted
  history, its records are the last envelope of every object, and compaction changes nothing
  that can be observed and always succeeds.
\<close>

section \<open>Sequence owners and records of a history\<close>

lemma owner_of_snoc: "owner_of (log @ [x]) = (owner_of log)((author_device_id x, author_sequence x) \<mapsto> operation_id x)"
  by (simp add: owner_of_def)

lemma current_record_snoc:
  "current_record (log @ [x]) = (current_record log)(object_id (op_envelope x) \<mapsto> op_envelope x)"
  by (rule ext) (simp add: current_record_def)

lemma current_record_Some:
  "current_record log i = Some e \<longleftrightarrow> on_object i log \<noteq> [] \<and> e = last (on_object i log)"
  by (auto simp: current_record_def)

lemma set_on_object: "e \<in> set (on_object i log) \<longleftrightarrow> object_id e = i \<and> (\<exists>x \<in> set log. op_envelope x = e)"
  by (auto simp: on_object_def)

lemma current_record_mem:
  assumes "current_record log i = Some e"
  shows "object_id e = i" "\<exists>x \<in> set log. op_envelope x = e"
  using assms last_in_set [of "on_object i log"] set_on_object [of e i log]
  by (auto simp: current_record_Some)

lemma current_record_revision: "last_revision (on_object i log) = map_option revision (current_record log i)"
  by (simp add: current_record_def last_revision_def)

lemma owner_of_dom:
  "(d, n) \<in> dom (owner_of log) \<longleftrightarrow> (\<exists>x \<in> set log. author_device_id x = d \<and> author_sequence x = n)"
  by (force simp: owner_of_def dom_map_of_conv_image_fst)

lemma owner_of_ran:
  assumes "distinct (map (\<lambda>x. (author_device_id x, author_sequence x)) log)"
  shows "ran (owner_of log) = operation_id ` set log"
proof -
  have "distinct (map fst (rev (map (\<lambda>x. ((author_device_id x, author_sequence x), operation_id x)) log)))"
    using assms by (simp only: rev_map [symmetric] map_map comp_def fst_conv distinct_rev)
  then show ?thesis unfolding owner_of_def by (subst ran_distinct) (auto simp: image_image)
qed

lemma contiguous_sequences: "contiguous xs \<Longrightarrow> author_sequence ` set xs = {1..int (length xs)}"
proof -
  assume "contiguous xs"
  then have "author_sequence ` set xs = (\<lambda>n. int n + 1) ` {0..<length xs}"
    unfolding contiguous_def by (metis list.set_map set_upt)
  also have "\<dots> = {1..int (length xs)}"
  proof (intro set_eqI iffI)
    fix n assume "n \<in> {1..int (length xs)}"
    then show "n \<in> (\<lambda>n. int n + 1) ` {0..<length xs}"
      by (intro image_eqI [of _ _ "nat (n - 1)"]) auto
  qed auto
  finally show ?thesis .
qed

lemma contiguous_distinct: "contiguous xs \<Longrightarrow> distinct (map author_sequence xs)"
  by (simp add: contiguous_def distinct_map inj_on_def)

lemma history_sequence_mem:
  assumes "accepted_history log"
  shows "(\<exists>x \<in> set log. author_device_id x = d \<and> author_sequence x = n)
     \<longleftrightarrow> n \<in> {1..int (length (by_author d log))}"
proof -
  have "(\<exists>x \<in> set log. author_device_id x = d \<and> author_sequence x = n) \<longleftrightarrow> n \<in> author_sequence ` set (by_author d log)"
    by (auto simp: by_author_def)
  then show ?thesis using contiguous_sequences assms by (simp add: accepted_history_def)
qed

lemma history_sequence_distinct:
  assumes "accepted_history log"
  shows "distinct (map (\<lambda>x. (author_device_id x, author_sequence x)) log)"
proof -
  have "x = y" if "x \<in> set log" "y \<in> set log" "author_device_id x = author_device_id y"
    "author_sequence x = author_sequence y" for x y
  proof -
    have "contiguous (by_author (author_device_id x) log)" using assms by (simp add: accepted_history_def)
    then have "inj_on author_sequence (set (by_author (author_device_id x) log))"
      using contiguous_distinct by (auto simp: distinct_map)
    then show ?thesis using that by (auto simp: by_author_def dest: inj_onD)
  qed
  moreover have "distinct log" using accepted_history_distinct [OF assms] by (simp add: distinct_map)
  ultimately show ?thesis by (auto simp: distinct_map inj_on_def)
qed

lemma sum_by_author:
  "finite A \<Longrightarrow> author_device_id ` set xs \<subseteq> A \<Longrightarrow> (\<Sum>d \<in> A. length (by_author d xs)) = length xs"
proof (induction xs)
  case (Cons x xs)
  have "(\<Sum>d \<in> A. length (by_author d (x # xs)))
      = (\<Sum>d \<in> A. length (by_author d xs) + (if author_device_id x = d then 1 else 0))"
    by (rule sum.cong) (auto simp: by_author_def)
  then show ?case using Cons by (simp add: sum.distrib)
qed (simp add: by_author_def)

lemma sum_items: "sum_list (map snd (items m)) = (\<Sum>k \<in> fset (fmdom m). the (fmlookup m k))"
proof -
  have "sum_list (map snd (items m)) = sum_list (map (\<lambda>k. the (fmlookup m k)) (sorted_list_of_fset (fmdom m)))"
    by (simp add: items_def comp_def)
  also have "\<dots> = (\<Sum>k \<in> set (sorted_list_of_fset (fmdom m)). the (fmlookup m k))"
    by (rule sum_list_distinct_conv_sum_set) (simp add: sorted_list_of_fset.rep_eq)
  finally show ?thesis by (simp add: sorted_list_of_fset.rep_eq)
qed

lemma sequences_total:
  assumes "metadata_of log md"
  shows "sum_list (map snd (items (md_sequences md))) = int (length log)"
proof -
  have dom: "fset (fmdom (md_sequences md)) = author_device_id ` set log"
  proof (rule set_eqI)
    fix d
    have "d |\<in>| fmdom (md_sequences md) \<longleftrightarrow> by_author d log \<noteq> []"
      using assms by (auto simp: metadata_of_def fmlookup_dom_iff)
    also have "\<dots> \<longleftrightarrow> d \<in> author_device_id ` set log"
      by (auto simp: by_author_def filter_empty_conv)
    finally show "d \<in> fset (fmdom (md_sequences md)) \<longleftrightarrow> d \<in> author_device_id ` set log" .
  qed
  have "sum_list (map snd (items (md_sequences md)))
      = (\<Sum>d \<in> author_device_id ` set log. int (length (by_author d log)))"
    unfolding sum_items dom
  proof (rule sum.cong [OF refl])
    fix d assume "d \<in> author_device_id ` set log"
    then have "by_author d log \<noteq> []" by (auto simp: by_author_def filter_empty_conv)
    then show "the (fmlookup (md_sequences md) d) = int (length (by_author d log))"
      using assms by (simp add: metadata_of_def)
  qed
  also have "\<dots> = int (length log)" unfolding of_nat_sum [symmetric] by (simp add: sum_by_author)
  finally show ?thesis .
qed

section \<open>Replaying\<close>

lemma replay_tracks_empty: "replay_tracks empty_replay []"
  by (auto simp: replay_tracks_def empty_replay_def replay_metadata_def empty_metadata_def
      log_index_def owner_of_def current_record_def)

lemma replay_tracks_unique:
  assumes "replay_tracks r log" "replay_tracks r' log"
  shows "r = r'"
proof -
  have "replay_metadata r = replay_metadata r'" using assms by (simp add: replay_tracks_def)
  moreover have "rp_fingerprints r = rp_fingerprints r'" "rp_owners r = rp_owners r'" "rp_records r = rp_records r'"
    using assms by (auto simp: replay_tracks_def intro!: fmap_ext)
  ultimately show ?thesis by (cases r; cases r') (simp add: replay_metadata_def)
qed

lemma replay_tracks_history: "replay_tracks r log \<Longrightarrow> accepted_history log"
  using advance_all_history [of log] by (simp add: replay_tracks_def)

lemma replay_tracks_metadata: "replay_tracks r log \<Longrightarrow> metadata_of log (replay_metadata r)"
  by (simp add: replay_tracks_def advance_all_metadata_of)

lemma replay_tracks_card: "replay_tracks r log \<Longrightarrow> fcard (fmdom (rp_fingerprints r)) = length log"
  by (simp add: replay_tracks_def fcard_dom log_index_card)

lemma owner_of_fresh:
  assumes "accepted_history (log @ [x])"
  shows "owner_of log (author_device_id x, author_sequence x) = None"
proof -
  have "author_sequence x = int (length (by_author (author_device_id x) log)) + 1"
    using assms by (simp add: accepted_history_snoc)
  then have "\<not> (\<exists>y \<in> set log. author_device_id y = author_device_id x \<and> author_sequence y = author_sequence x)"
    using assms history_sequence_mem [of log "author_device_id x" "author_sequence x"]
    by (simp add: accepted_history_snoc)
  then have "(author_device_id x, author_sequence x) \<notin> dom (owner_of log)" unfolding owner_of_dom .
  then show ?thesis unfolding domIff by simp
qed

definition replay_step :: "operation \<Rightarrow> metadata \<Rightarrow> replay \<Rightarrow> replay" where
  "replay_step x md r = r\<lparr>
     rp_records := fmupd (object_id (op_envelope x)) (op_envelope x) (rp_records r),
     rp_fingerprints := fmupd (operation_id x) (fingerprint x) (rp_fingerprints r),
     rp_sequences := md_sequences md,
     rp_owners := fmupd (author_device_id x, author_sequence x) (operation_id x) (rp_owners r),
     rp_revisions := md_revisions md, rp_order := md_last_order md\<rparr>"

lemma replay_step_tracks:
  assumes t: "replay_tracks r log" and a: "advance_metadata x (replay_metadata r) = Some md"
    and n: "operation_id x \<notin> operation_id ` set log" and v: "valid_operation x"
    and l: "length log < MAXIMUM_QUEUE_OPERATIONS"
  shows "replay_tracks (replay_step x md r) (log @ [x])"
proof -
  have "replay_metadata (replay_step x md r) = md" by (simp add: replay_metadata_def replay_step_def)
  then show ?thesis using t a v l n
    by (simp add: replay_tracks_def advance_all_append replay_step_def fmlookup_upd log_index_snoc
        owner_of_snoc current_record_snoc del: fmupd_lookup)
qed

text \<open>What \<open>apply\<close> does on the replay of a history.\<close>

lemma replay_apply_known:
  assumes t: "replay_tracks r log" and y: "y \<in> set log" "operation_id y = operation_id x"
  shows "replay_apply x r = (if fingerprint y = fingerprint x then Some (False, r) else None)"
  using log_index_mem [of log y] t y by (simp add: replay_tracks_def replay_apply_def)

lemma replay_apply_new:
  assumes t: "replay_tracks r log" and n: "operation_id x \<notin> operation_id ` set log" and v: "valid_operation x"
  shows "if length log < MAXIMUM_QUEUE_OPERATIONS \<and> accepted_history (log @ [x])
     then \<exists>r'. replay_apply x r = Some (True, r') \<and> replay_tracks r' (log @ [x])
     else replay_apply x r = None"
proof -
  have f: "fmlookup (rp_fingerprints r) (operation_id x) = None"
    using t n by (simp add: replay_tracks_def log_index_None)
  have card: "fcard (fmdom (rp_fingerprints r)) = length log" by (rule replay_tracks_card [OF t])
  have own: "fmlookup (rp_owners r) = owner_of log" using t by (simp add: replay_tracks_def)
  note adv = advance_metadata_iff [OF replay_tracks_history [OF t] replay_tracks_metadata [OF t], of x]
  have unfolded: "replay_apply x r = do {
       require (length log < MAXIMUM_QUEUE_OPERATIONS);
       require (\<not> (\<exists>i \<in> set_option (owner_of log (author_device_id x, author_sequence x)). i \<noteq> operation_id x));
       md \<leftarrow> advance_metadata x (replay_metadata r);
       Some (True, replay_step x md r) }"
    by (simp add: replay_apply_def f card own Let_def not_le replay_metadata_def replay_step_def)
  show ?thesis
  proof (cases "length log < MAXIMUM_QUEUE_OPERATIONS \<and> accepted_history (log @ [x])")
    case True
    then obtain md where "advance_metadata x (replay_metadata r) = Some md" using adv by blast
    then show ?thesis using True replay_step_tracks [OF t _ n v] owner_of_fresh [of log x]
      by (simp add: unfolded)
  next
    case False
    then have "length log < MAXIMUM_QUEUE_OPERATIONS \<Longrightarrow> advance_metadata x (replay_metadata r) = None"
      using adv by (metis not_None_eq)
    with False show ?thesis by (cases "length log < MAXIMUM_QUEUE_OPERATIONS") (auto simp: unfolded bind_require_None)
  qed
qed

lemma replay_tail_tracks:
  "replay_tracks r log \<Longrightarrow> accepted_history (log @ xs) \<Longrightarrow> distinct (map operation_id (log @ xs)) \<Longrightarrow>
     list_all valid_operation xs \<Longrightarrow> length (log @ xs) \<le> MAXIMUM_QUEUE_OPERATIONS \<Longrightarrow>
     \<exists>r'. replay_tail xs r = Some r' \<and> replay_tracks r' (log @ xs)"
proof (induction xs arbitrary: r log)
  case (Cons x xs)
  have h: "accepted_history (log @ [x])"
    using Cons.prems(2) advance_all_history [of "log @ x # xs"] advance_all_history [of "log @ [x]"]
      advance_all_append [of "log @ [x]" xs empty_metadata]
    by (auto elim!: bind_SomeE)
  then obtain r' where r': "replay_apply x r = Some (True, r')" "replay_tracks r' (log @ [x])"
    using replay_apply_new [OF Cons.prems(1), of x] Cons.prems(3-5) by auto
  have "\<exists>r''. replay_tail xs r' = Some r'' \<and> replay_tracks r'' ((log @ [x]) @ xs)"
    by (rule Cons.IH [OF r'(2)]) (use Cons.prems in auto)
  with r' show ?case by auto
qed simp

section \<open>Snapshots of a history\<close>

definition snapshot_for :: "string \<Rightarrow> string \<Rightarrow> replay \<Rightarrow> order \<Rightarrow> snapshot" where
  "snapshot_for key cid r ord =
     (let payload = snapshot_payload cid (int (fcard (fmdom (rp_fingerprints r)))) ord
        (map snd (items (rp_records r))) (rp_fingerprints r) (rp_sequences r) (rp_owners r) in
      \<lparr>collection_id = cid, collection_revision = int (fcard (fmdom (rp_fingerprints r))),
        snapshot_order = ord, snapshot_records = map snd (items (rp_records r)),
        snapshot_fingerprints = rp_fingerprints r, snapshot_sequences = rp_sequences r,
        snapshot_owners = rp_owners r,
        authentication_tag_b64 = b64encode (hmac_sha256 key (canonical_json payload)),
        canonical_payload_sha256 = sha256_hex (canonical_json payload)\<rparr>)"

lemma snapshot_for_payload:
  "payload_of (snapshot_for key cid r ord) = snapshot_payload cid (int (fcard (fmdom (rp_fingerprints r)))) ord
        (map snd (items (rp_records r))) (rp_fingerprints r) (rp_sequences r) (rp_owners r)"
  by (simp add: payload_of_def snapshot_for_def Let_def)

lemma snapshot_for_valid_iff:
  "valid_snapshot key (snapshot_for key cid r ord) \<longleftrightarrow>
     length key = 32 \<and> sound_snapshot (snapshot_for key cid r ord)"
  unfolding valid_snapshot_def snapshot_for_payload by (simp add: snapshot_for_def Let_def)

lemma snapshot_create_for:
  "valid_snapshot key (snapshot_for key cid r ord) \<Longrightarrow>
     snapshot_create key cid (rp_records r) (rp_fingerprints r) (rp_sequences r) (rp_owners r) ord
       = Some (snapshot_for key cid r ord)"
  using snapshot_from_to [of key "snapshot_for key cid r ord"]
  by (simp add: snapshot_create_def snapshot_to_dict_def snapshot_for_def Let_def)

lemma records_by_object:
  assumes "replay_tracks r log"
  shows "map object_id (map snd (items (rp_records r))) = map fst (items (rp_records r))"
    "e \<in> set (map snd (items (rp_records r))) \<Longrightarrow> \<exists>x \<in> set log. op_envelope x = e"
proof -
  have l: "fmlookup (rp_records r) = current_record log" using assms by (simp add: replay_tracks_def)
  have "object_id (snd p) = fst p" if "p \<in> set (items (rp_records r))" for p
    using that current_record_mem(1) by (auto simp: set_items l)
  then show "map object_id (map snd (items (rp_records r))) = map fst (items (rp_records r))" by simp
  show "\<exists>x \<in> set log. op_envelope x = e" if "e \<in> set (map snd (items (rp_records r)))"
    using that current_record_mem(2) by (auto simp: set_items l)
qed

lemma replay_from_snapshot_for:
  assumes t: "replay_tracks r log" and o: "rp_order r = Some ord"
  shows "replay_from_snapshot (Some (snapshot_for key cid r ord)) = r"
proof -
  have l: "fmlookup (rp_records r) = current_record log" using t by (simp add: replay_tracks_def)
  have pairs: "map (\<lambda>e. (object_id e, e)) (map snd (items (rp_records r))) = items (rp_records r)"
    unfolding map_map comp_def
    by (rule map_idI) (use current_record_mem(1) in \<open>auto simp: set_items l\<close>)
  have records: "fmap_of_list (rev (items (rp_records r))) = rp_records r"
    by (rule fmap_of_list_eqI) (simp add: set_items)
  have "fmmap revision (rp_records r) = rp_revisions r"
  proof (rule fmap_ext)
    fix i
    show "fmlookup (fmmap revision (rp_records r)) i = fmlookup (rp_revisions r) i"
      using replay_tracks_metadata [OF t]
      by (simp add: metadata_of_def replay_metadata_def l current_record_revision)
  qed
  then have "replay_from_snapshot (Some (snapshot_for key cid r ord)) =
      \<lparr>rp_records = rp_records r, rp_fingerprints = rp_fingerprints r, rp_sequences = rp_sequences r,
        rp_owners = rp_owners r, rp_revisions = rp_revisions r, rp_order = rp_order r\<rparr>"
    by (simp add: replay_from_snapshot_def snapshot_for_def Let_def pairs records o del: map_map)
  then show ?thesis by simp
qed

lemma replay_order: "replay_tracks r log \<Longrightarrow> log \<noteq> [] \<Longrightarrow> rp_order r = Some (order_key (last log))"
  using replay_tracks_metadata [of r log] by (simp add: metadata_of_def replay_metadata_def)

lemma replay_sequences:
  "replay_tracks r log \<Longrightarrow> fmlookup (rp_sequences r) d =
     (if by_author d log = [] then None else Some (int (length (by_author d log))))"
  using replay_tracks_metadata [of r log] by (simp add: metadata_of_def replay_metadata_def)

lemma length_by_author: "length (by_author d xs) \<le> length xs"
  by (simp add: by_author_def)

lemma dom_card_le: "fmlookup m = f \<Longrightarrow> dom f = g ` set xs \<Longrightarrow> fcard (fmdom m) \<le> length xs"
  by (simp add: fcard_dom) (metis card_image_le card_length finite_set le_trans)

lemma replay_tracks_complete:
  assumes t: "replay_tracks r log"
  shows "complete_owners (rp_sequences r) (rp_owners r)"
    and "fmran (rp_owners r) = fmdom (rp_fingerprints r)"
proof -
  have l: "fmlookup (rp_owners r) = owner_of log" "fmlookup (rp_fingerprints r) = log_index log"
    and v: "list_all valid_operation log"
    using t by (simp_all add: replay_tracks_def)
  note h = replay_tracks_history [OF t]
  have ran: "fset (fmran (rp_owners r)) = operation_id ` set log"
    using owner_of_ran [OF history_sequence_distinct [OF h]] by (simp add: fmran.rep_eq l)
  then show "fmran (rp_owners r) = fmdom (rp_fingerprints r)"
    by (simp add: fset_eq_iff fmdom.rep_eq l dom_log_index flip: fset_inject)
  have "(d, n) |\<in>| fmdom (rp_owners r) \<longleftrightarrow> (\<exists>m. fmlookup (rp_sequences r) d = Some m \<and> 1 \<le> n \<and> n \<le> m)" for d n
  proof -
    have "(d, n) |\<in>| fmdom (rp_owners r) \<longleftrightarrow> (d, n) \<in> dom (owner_of log)"
      unfolding fmdom.rep_eq l ..
    also have "\<dots> \<longleftrightarrow> n \<in> {1..int (length (by_author d log))}"
      unfolding owner_of_dom by (rule history_sequence_mem [OF h])
    finally show ?thesis using replay_sequences [OF t, of d] by auto
  qed
  moreover have "is_uuid i" if "i |\<in>| fmran (rp_owners r)" for i
    using that v unfolding ran by (auto simp: list_all_iff valid_operation_def)
  ultimately show "complete_owners (rp_sequences r) (rp_owners r)" by (simp add: complete_owners_def)
qed

lemma metadata_valid:
  assumes "advance_all log md = Some md'" "valid_metadata md" "list_all valid_operation log"
  shows "valid_metadata md'"
  using assms by (induction log arbitrary: md) (auto elim!: bind_SomeE dest: advance_metadata_valid)

lemma sound_snapshot_for:
  assumes t: "replay_tracks r log" and n: "log \<noteq> []" and i: "is_identifier cid"
  shows "sound_snapshot (snapshot_for key cid r (order_key (last log)))"
proof -
  have l: "fmlookup (rp_fingerprints r) = log_index log" "fmlookup (rp_records r) = current_record log"
    and v: "list_all valid_operation log" and d: "distinct (map operation_id log)"
    and len: "length log \<le> MAXIMUM_QUEUE_OPERATIONS"
    using t by (simp_all add: replay_tracks_def)
  have m: "metadata_of log (replay_metadata r)" by (rule replay_tracks_metadata [OF t])
  have vm: "valid_metadata (replay_metadata r)"
    using metadata_valid [of log empty_metadata "replay_metadata r"] t
    by (auto simp: replay_tracks_def valid_metadata_def empty_metadata_def)
  have card: "fcard (fmdom (rp_fingerprints r)) = length log" by (rule replay_tracks_card [OF t])
  have lst: "last log \<in> set log" "valid_operation (last log)" using n v by (auto simp: list_all_iff)
  have dom_records: "dom (current_record log) = (\<lambda>x. object_id (op_envelope x)) ` set log"
    by (auto simp: current_record_def on_object_def filter_empty_conv split: if_splits)
  have dom_sequences: "dom (fmlookup (rp_sequences r)) = author_device_id ` set log"
    unfolding replay_sequences [OF t, abs_def]
    by (auto simp: by_author_def filter_empty_conv split: if_splits)
  have "is_counter (int (length log))"
    using n len by (cases log) (auto simp: is_counter_def MAXIMUM_INTEGER_def MAXIMUM_QUEUE_OPERATIONS_def)
  moreover have "valid_order (order_key (last log))" using lst(2) by (rule valid_order_key)
  moreover have "operation_id (last log) |\<in>| fmdom (rp_fingerprints r)"
    using lst(1) by (simp add: fmdom.rep_eq l dom_log_index)
  moreover have "\<forall>e \<in> set (map snd (items (rp_records r))). valid_envelope e"
    using records_by_object(2) [OF t] v by (fastforce simp: list_all_iff valid_operation_def)
  moreover have "length (map snd (items (rp_records r))) \<le> MAXIMUM_QUEUE_OPERATIONS"
    using dom_card_le [OF l(2) dom_records] len by (simp add: length_items)
  moreover have "fcard (fmdom (rp_sequences r)) \<le> MAXIMUM_QUEUE_OPERATIONS"
    using dom_card_le [OF refl dom_sequences] len by simp
  moreover have "valid_dict is_uuid match_sha256 (rp_fingerprints r)"
    unfolding valid_dict_def l
  proof (intro allI impI)
    fix j f assume "log_index log j = Some f"
    then have "(j, f) \<in> set (map (\<lambda>x. (operation_id x, fingerprint x)) log)"
      unfolding log_index_def by (rule map_of_SomeD)
    then show "is_uuid j \<and> match_sha256 f" using v by (auto simp: list_all_iff valid_operation_def)
  qed
  moreover have "valid_dict is_identifier is_counter (rp_sequences r)"
    using vm by (simp add: valid_metadata_def replay_metadata_def)
  moreover have "sum_list (map snd (items (rp_sequences r))) = int (length log)"
    using sequences_total [OF m] by (simp add: replay_metadata_def)
  ultimately show ?thesis
    using i len replay_tracks_complete [OF t] records_by_object(1) [OF t]
    unfolding sound_snapshot_def snapshot_for_def Let_def
    by (simp add: card order_key_def del: map_map)
qed

section \<open>The persisted state\<close>

definition collection_holds :: "string \<Rightarrow> string \<Rightarrow> snapshot option \<Rightarrow> operation list \<Rightarrow> operation list \<Rightarrow> bool" where
  "collection_holds key cid snap tail log \<longleftrightarrow>
     (\<exists>base. log = base @ tail \<and> replay_tracks (replay_from_snapshot snap) base)
     \<and> accepted_history log \<and> distinct (map operation_id log) \<and> list_all valid_operation log
     \<and> length log \<le> MAXIMUM_QUEUE_OPERATIONS
     \<and> (\<forall>s. snap = Some s \<longrightarrow> valid_snapshot key s \<and> collection_id s = cid)"

lemma history_sorted: "accepted_history log \<Longrightarrow> sorted (map order_key log)"
  by (induction log rule: rev_induct) (auto simp: accepted_history_snoc sorted_append less_imp_le)

lemma collection_from_to:
  assumes h: "collection_holds key cid snap tail log" and i: "is_identifier cid"
  shows "\<exists>r. collection_from_state key cid (collection_dict cid snap tail) = Some (snap, tail, r)
     \<and> replay_tracks r log"
proof -
  obtain base where b: "log = base @ tail" "replay_tracks (replay_from_snapshot snap) base"
    using h by (auto simp: collection_holds_def)
  then obtain r where r: "replay_tail tail (replay_from_snapshot snap) = Some r" "replay_tracks r log"
    using replay_tail_tracks [OF b(2), of tail] h by (auto simp: collection_holds_def)
  have srt: "sorted (map order_key tail)" "distinct (map operation_id tail)"
      "\<forall>x \<in> set tail. valid_operation x" "length tail \<le> MAXIMUM_QUEUE_OPERATIONS"
    using h b(1) history_sorted [of log] by (auto simp: collection_holds_def sorted_append list_all_iff)
  have "nullable (snapshot_from_dict key) (case snap of None \<Rightarrow> JNull | Some s \<Rightarrow> snapshot_to_dict s) = Some snap"
  proof (cases snap)
    case (Some s)
    then have "snapshot_from_dict key (snapshot_to_dict s) = Some s"
      using h by (simp add: collection_holds_def snapshot_from_to)
    with Some show ?thesis by (simp add: snapshot_to_dict_def snapshot_outer_def)
  qed simp
  moreover have "\<forall>s \<in> set_option snap. collection_id s = cid" using h by (auto simp: collection_holds_def)
  ultimately show ?thesis using r srt i
    by (simp add: collection_from_state_def collection_dict_def exact_def collection_keys_def
        operation_codec.list_dec_enc sort_operations_id)
qed

lemma collection_load_written:
  assumes "collection_holds key cid snap tail log" "is_identifier cid"
  shows "\<exists>r. load_collection key cid (Some (collection_dict cid snap tail)) = Some (snap, tail, r)
     \<and> replay_tracks r log"
  using collection_from_to [OF assms] by (simp add: load_collection_def)

lemma collection_default_eq: "collection_default cid = collection_dict cid None []"
  by (simp add: collection_default_def collection_dict_def)

lemma collection_holds_empty: "collection_holds key cid None [] []"
  using replay_tracks_empty by (simp add: collection_holds_def replay_from_snapshot_def)

lemma collection_load_new:
  "is_identifier cid \<Longrightarrow> load_collection key cid None = Some (None, [], empty_replay)"
  using collection_from_to [OF collection_holds_empty, of cid key] replay_tracks_unique [OF _ replay_tracks_empty]
  by (auto simp: load_collection_def collection_default_eq)

definition collection_tracks :: "string \<Rightarrow> string \<Rightarrow> store \<Rightarrow> operation list \<Rightarrow> bool" where
  "collection_tracks key cid st log \<longleftrightarrow> (\<exists>snap tail r.
     load_collection key cid st = Some (snap, tail, r) \<and> replay_tracks r log
     \<and> collection_holds key cid snap tail log)"

lemma collection_tracks_written:
  "collection_holds key cid snap tail log \<Longrightarrow> is_identifier cid \<Longrightarrow>
     collection_tracks key cid (Some (collection_dict cid snap tail)) log"
  using collection_load_written by (fastforce simp: collection_tracks_def)

section \<open>Appending\<close>

lemma collection_holds_snoc:
  assumes "collection_holds key cid snap tail log" "accepted_history (log @ [x])" "valid_operation x"
    and "operation_id x \<notin> operation_id ` set log" "length log < MAXIMUM_QUEUE_OPERATIONS"
  shows "collection_holds key cid snap (tail @ [x]) (log @ [x])"
  using assms by (auto simp: collection_holds_def)

lemma collection_append_eq:
  assumes l: "load_collection key cid st = Some (snap, tail, r)" and t: "replay_tracks r log"
  shows "collection_append key cid st x =
    (if \<not> valid_operation x then None
     else if operation_id x \<in> operation_id ` set log then
       (if \<exists>y \<in> set log. operation_id y = operation_id x \<and> fingerprint y = fingerprint x then Some st else None)
     else if length log < MAXIMUM_QUEUE_OPERATIONS \<and> accepted_history (log @ [x])
     then store_write (collection_dict cid snap (tail @ [x])) else None)"
proof (cases "valid_operation x")
  case False
  then have "validated_operation x = None" using validated_operation_iff [of x] by (cases "validated_operation x") auto
  with False show ?thesis by (simp add: collection_append_def)
next
  case True
  then have v: "validated_operation x = Some x" by (simp add: validated_operation_iff)
  show ?thesis
  proof (cases "operation_id x \<in> operation_id ` set log")
    case known: True
    then obtain y where y: "y \<in> set log" "operation_id y = operation_id x" by force
    have "z = y" if "z \<in> set log" "operation_id z = operation_id x" for z
      using t y that inj_onD [of operation_id "set log" z y] by (simp add: replay_tracks_def distinct_map)
    then have "(\<exists>z \<in> set log. operation_id z = operation_id x \<and> fingerprint z = fingerprint x)
        \<longleftrightarrow> fingerprint y = fingerprint x" using y by blast
    then show ?thesis using True known v l replay_apply_known [OF t y]
      by (simp add: collection_append_def)
  next
    case fresh: False
    then show ?thesis using True v l replay_apply_new [OF t fresh True]
      by (auto simp: collection_append_def)
  qed
qed

section \<open>Compacting\<close>

lemma collection_holds_compacted:
  assumes "replay_tracks r log" "log \<noteq> []" "is_identifier cid" "length key = 32"
  shows "collection_holds key cid (Some (snapshot_for key cid r (order_key (last log)))) [] log"
proof -
  let ?s = "snapshot_for key cid r (order_key (last log))"
  have "valid_snapshot key ?s"
    using sound_snapshot_for [OF assms(1-3)] assms(4) by (simp add: snapshot_for_valid_iff)
  moreover have "replay_from_snapshot (Some ?s) = r"
    by (rule replay_from_snapshot_for [OF assms(1) replay_order [OF assms(1,2)]])
  moreover have "collection_id ?s = cid" by (simp add: snapshot_for_def Let_def)
  ultimately show ?thesis
    using assms(1) replay_tracks_history [OF assms(1)] by (simp add: collection_holds_def replay_tracks_def)
qed

lemma collection_compact_eq:
  assumes l: "load_collection key cid st = Some (snap, tail, r)" and t: "replay_tracks r log"
    and i: "is_identifier cid" "length key = 32"
  shows "collection_compact key cid st b =
    (if log = [] then None else
      (let s = snapshot_for key cid r (order_key (last log)) in
       if write_fits (collection_dict cid (Some s) []) \<and> b
       then Some (s, Some (collection_dict cid (Some s) [])) else None))"
proof (cases "log = []")
  case True
  then have "rp_order r = None"
    using replay_tracks_metadata [OF t] by (simp add: replay_metadata_def empty_metadata_def)
  with True l show ?thesis by (simp add: collection_compact_def)
next
  case False
  let ?s = "snapshot_for key cid r (order_key (last log))"
  have o: "rp_order r = Some (order_key (last log))" by (rule replay_order [OF t False])
  have "rp_fingerprints r \<noteq> fmempty" using replay_tracks_card [OF t] False by (auto simp: fcard.rep_eq)
  moreover have "snapshot_create key cid (rp_records r) (rp_fingerprints r) (rp_sequences r) (rp_owners r)
      (order_key (last log)) = Some ?s"
    using collection_holds_compacted [OF t False i] by (simp add: collection_holds_def snapshot_create_for)
  ultimately show ?thesis using l o False
    by (simp add: collection_compact_def store_write_def Let_def)
qed

section \<open>Every history of calls\<close>

inductive collection_step :: "string \<Rightarrow> string \<Rightarrow> store \<times> operation list \<Rightarrow> store \<times> operation list \<Rightarrow> bool"
  for key cid where
  step_append: "collection_append key cid st x = Some st' \<Longrightarrow>
     collection_step key cid (st, log) (st', if operation_id x \<in> operation_id ` set log then log else log @ [x])"
| step_compact: "collection_compact key cid st b = Some (s, st') \<Longrightarrow>
     collection_step key cid (st, log) (st', log)"

inductive collection_reachable :: "string \<Rightarrow> string \<Rightarrow> store \<Rightarrow> operation list \<Rightarrow> bool" for key cid where
  collection_new: "collection_init key (JStr cid) = Some cid \<Longrightarrow> collection_reachable key cid None []"
| collection_more: "collection_reachable key cid st log \<Longrightarrow> collection_step key cid (st, log) (st', log')
     \<Longrightarrow> collection_reachable key cid st' log'"

inductive_simps collection_step_iff: "collection_step key cid (st, log) (st', log')"

lemma collection_init_iff [simp]:
  "collection_init key (JStr cid) = Some cid \<longleftrightarrow> length key = 32 \<and> is_identifier cid"
  by (simp add: collection_init_def)

lemma collection_append_tracks:
  assumes t: "collection_tracks key cid st log" and i: "is_identifier cid"
    and a: "collection_append key cid st x = Some st'"
  shows "collection_tracks key cid st' (if operation_id x \<in> operation_id ` set log then log else log @ [x])"
proof -
  obtain snap tail r where l: "load_collection key cid st = Some (snap, tail, r)" "replay_tracks r log"
      "collection_holds key cid snap tail log"
    using t by (auto simp: collection_tracks_def)
  note a' = a [unfolded collection_append_eq [OF l(1,2)]]
  show ?thesis
  proof (cases "operation_id x \<in> operation_id ` set log")
    case True
    then show ?thesis using a' t by (simp split: if_splits)
  next
    case False
    then have "collection_holds key cid snap (tail @ [x]) (log @ [x])"
      using a' collection_holds_snoc [OF l(3)] by (simp split: if_splits)
    then show ?thesis using a' False collection_tracks_written i
      by (auto simp: store_write_iff split: if_splits)
  qed
qed

lemma collection_compact_tracks:
  assumes t: "collection_tracks key cid st log" and i: "is_identifier cid" "length key = 32"
    and a: "collection_compact key cid st b = Some (s, st')"
  shows "collection_tracks key cid st' log"
proof -
  obtain snap tail r where l: "load_collection key cid st = Some (snap, tail, r)" "replay_tracks r log"
    using t by (auto simp: collection_tracks_def)
  then show ?thesis using a collection_tracks_written [OF collection_holds_compacted i(1)] i
    unfolding collection_compact_eq [OF l i] by (auto simp: Let_def split: if_splits)
qed

lemma collection_reachable_init: "collection_reachable key cid st log \<Longrightarrow> length key = 32 \<and> is_identifier cid"
  by (induction rule: collection_reachable.induct) simp_all

lemma collection_reachable_tracks:
  "collection_reachable key cid st log \<Longrightarrow> collection_tracks key cid st log"
proof (induction rule: collection_reachable.induct)
  case collection_new
  then show ?case
    using collection_load_new [of cid key] collection_holds_empty replay_tracks_empty
    by (auto simp: collection_tracks_def)
next
  case (collection_more st log st' log')
  then have "length key = 32 \<and> is_identifier cid" by (simp add: collection_reachable_init)
  with collection_more show ?case
    by (auto simp: collection_step_iff intro: collection_compact_tracks collection_append_tracks
        dest: collection_append_tracks split: if_splits)
qed

lemma collection_records_tracks:
  assumes "load_collection key cid st = Some (snap, tail, r)" "replay_tracks r log"
  shows "collection_records key cid st = Some (map snd (items (rp_records r)))"
    and "e \<in> set (map snd (items (rp_records r))) \<longleftrightarrow> current_record log (object_id e) = Some e"
    and "sorted (map object_id (map snd (items (rp_records r))))"
    and "distinct (map object_id (map snd (items (rp_records r))))"
proof -
  have l: "fmlookup (rp_records r) = current_record log" using assms(2) by (simp add: replay_tracks_def)
  show "e \<in> set (map snd (items (rp_records r))) \<longleftrightarrow> current_record log (object_id e) = Some e"
    using current_record_mem(1) [of log _ e] by (auto simp: set_items l image_iff) 
  show "sorted (map object_id (map snd (items (rp_records r))))"
    "distinct (map object_id (map snd (items (rp_records r))))"
    unfolding records_by_object(1) [OF assms(2)] by simp_all
qed (use assms(1) in \<open>simp add: collection_records_def\<close>)

end
