(* ===== verification/CollectionProperties.thy ===== *)
theory CollectionProperties
  imports CollectionHistory
begin

text \<open>
  A concrete collection with its snapshot, and the properties of collections and snapshots.
\<close>

section \<open>A concrete collection\<close>

definition sample_key :: string where
  "sample_key = replicate 32 (byte_of 7)"

lemma length_sample_key [simp]: "length sample_key = 32"
  by (simp add: sample_key_def)

lemma history_create: "accepted_history [sample_create]"
  using accepted_history_snoc [of "[]" sample_create] by (simp add: sample_create_def last_revision_def)

lemma write_fits_tail:
  assumes "length cid \<le> 128" "list_all small_operation tail" "length tail \<le> 1000"
  shows "write_fits (collection_dict cid None tail)"
  unfolding collection_dict_def
  by (intro write_fits_weight)
    (use assms operations_weight [OF assms(2)] in \<open>simp add: COLLECTION_STATE_FORMAT_def int_str_def\<close>)

definition sample_collection :: store where
  "sample_collection = Some (collection_dict ''a'' None [sample_create])"

lemma sample_append: "collection_append sample_key ''a'' None sample_create = Some sample_collection"
  unfolding collection_append_eq [OF collection_load_new [OF is_identifier_samples(1)] replay_tracks_empty]
  by (simp add: valid_sample_create history_create MAXIMUM_QUEUE_OPERATIONS_def store_write_def
      sample_collection_def write_fits_tail)

lemma sample_collection_reachable: "collection_reachable sample_key ''a'' sample_collection [sample_create]"
  using collection_more [OF collection_new step_append [OF sample_append, of "[]"]] by simp

definition sample_replay :: replay where
  "sample_replay = \<lparr>rp_records = fmupd ''x'' (op_envelope sample_create) fmempty,
     rp_fingerprints = fmupd (operation_id sample_create) (fingerprint sample_create) fmempty,
     rp_sequences = fmupd ''a'' 1 fmempty, rp_owners = fmupd (''a'', 1) (operation_id sample_create) fmempty,
     rp_revisions = fmupd ''x'' ''r1'' fmempty, rp_order = Some (order_key sample_create)\<rparr>"

lemma sample_replay_tracks: "replay_tracks sample_replay [sample_create]"
proof -
  obtain md where md: "advance_metadata sample_create (replay_metadata empty_replay) = Some md"
    by (simp add: advance_metadata_def replay_metadata_def empty_replay_def sample_create_def next_sequence_def)
  have "md = \<lparr>md_sequences = fmupd ''a'' 1 fmempty, md_revisions = fmupd ''x'' ''r1'' fmempty,
      md_last_order = Some (order_key sample_create)\<rparr>"
    using advance_metadata_SomeD(1) [OF md]
    by (simp add: replay_metadata_def empty_replay_def sample_create_def)
  then have "replay_step sample_create md empty_replay = sample_replay"
    by (simp add: replay_step_def sample_replay_def empty_replay_def sample_create_def)
  moreover have "replay_tracks (replay_step sample_create md empty_replay) ([] @ [sample_create])"
    by (rule replay_step_tracks [OF replay_tracks_empty md])
      (simp_all add: valid_sample_create MAXIMUM_QUEUE_OPERATIONS_def)
  ultimately show ?thesis by simp
qed

lemma sample_collection_load:
  obtains snap tail where "load_collection sample_key ''a'' sample_collection = Some (snap, tail, sample_replay)"
  using collection_reachable_tracks [OF sample_collection_reachable]
    replay_tracks_unique [OF _ sample_replay_tracks]
  by (auto simp: collection_tracks_def)

lemma items_single: "items (fmupd k v fmempty) = [(k, v)]"
  by (simp add: items_def sorted_list_of_fset.rep_eq)

definition sample_snapshot :: snapshot where
  "sample_snapshot = snapshot_for sample_key ''a'' sample_replay (order_key sample_create)"

lemma sample_snapshot_valid: "valid_snapshot sample_key sample_snapshot"
  unfolding sample_snapshot_def snapshot_for_valid_iff
  using sound_snapshot_for [OF sample_replay_tracks, of "''a''" sample_key] by simp

lemma sample_snapshot_fits: "write_fits (collection_dict ''a'' (Some sample_snapshot) [])"
proof -
  have "json_weight (envelope_to_dict (op_envelope sample_create)) \<le> 10000"
    using weight_sample_envelope [of "''x''" "''r1''" None False] by (simp add: sample_create_def)
  moreover have "json_weight (order_to_json (order_key sample_create)) \<le> 2000"
    by (rule order_weight) (simp add: valid_order_key valid_sample_create)
  moreover have "length (operation_id sample_create) = 36" by (simp add: sample_create_def sample_uuid_def)
  ultimately show ?thesis
    unfolding collection_dict_def
    by (intro write_fits_weight)
      (simp add: sample_snapshot_def snapshot_for_def Let_def snapshot_to_dict_def snapshot_outer_def
        snapshot_payload_def sample_replay_def items_single sequence_owners_json_def sequence_owners_def
        add_owner_def dict_to_json_def int_str_def length_b64encode live_count_def tombstone_count_def
        fcard.rep_eq fingerprint_def COLLECTION_STATE_FORMAT_def SNAPSHOT_FORMAT_def
        SNAPSHOT_PAYLOAD_FORMAT_def SNAPSHOT_AUTHENTICATION_ALGORITHM_def)
qed

section \<open>Properties\<close>

text \<open>C1: whatever is appended and compacted in whatever order, the collection holds one accepted
  history: strictly increasing in the total order, the sequence numbers of every author
  1, 2, 3, ..., every revision of an object on top of the one before, no identifier twice.\<close>

theorem collection_accepted_history:
  assumes "collection_reachable key cid st log"
  shows "accepted_history log \<and> distinct (map operation_id log)
    \<and> committed_operation_count key cid st = Some (length log)"
proof -
  obtain snap tail r where "load_collection key cid st = Some (snap, tail, r)" "replay_tracks r log"
    using collection_reachable_tracks [OF assms] by (auto simp: collection_tracks_def)
  then show ?thesis
    using replay_tracks_history [of r log] replay_tracks_card [of r log]
    by (simp add: committed_operation_count_def replay_tracks_def)
qed

theorem collection_accepted_history_witness:
  "collection_reachable sample_key ''a'' sample_collection [sample_create]
     \<and> committed_operation_count sample_key ''a'' sample_collection = Some 1"
  using collection_accepted_history [OF sample_collection_reachable] sample_collection_reachable by simp

text \<open>C3: the records of a collection are, sorted by object and without duplicates, the envelopes
  of the last operation of the history on every object.\<close>

theorem collection_records_latest:
  assumes "collection_reachable key cid st log"
  shows "\<exists>rs. collection_records key cid st = Some rs
    \<and> sorted (map object_id rs) \<and> distinct (map object_id rs)
    \<and> (\<forall>e. e \<in> set rs \<longleftrightarrow> current_record log (object_id e) = Some e)"
proof -
  obtain snap tail r where l: "load_collection key cid st = Some (snap, tail, r)" "replay_tracks r log"
    using collection_reachable_tracks [OF assms] by (auto simp: collection_tracks_def)
  show ?thesis
    by (intro exI [of _ "map snd (items (rp_records r))"] conjI allI)
      (rule collection_records_tracks [OF l])+
qed

theorem collection_records_latest_witness:
  "\<exists>rs. collection_records sample_key ''a'' sample_collection = Some rs \<and> op_envelope sample_create \<in> set rs"
proof -
  obtain rs where "collection_records sample_key ''a'' sample_collection = Some rs"
    "\<forall>e. e \<in> set rs \<longleftrightarrow> current_record [sample_create] (object_id e) = Some e"
    using collection_records_latest [OF sample_collection_reachable] by blast
  moreover have "current_record [sample_create] (object_id (op_envelope sample_create)) = Some (op_envelope sample_create)"
    by (simp add: current_record_def)
  ultimately show ?thesis by blast
qed

text \<open>Appending.  An operation that is not well formed raises; a known identifier leaves the
  file as it is if the operation is the same and raises otherwise; a new operation is stored
  exactly when it extends the history to an accepted history, the collection is not full and
  the file not too large.\<close>

theorem collection_append_spec:
  assumes "collection_reachable key cid st log"
  shows "\<exists>snap tail. map_option fst (load_collection key cid st) = Some snap
    \<and> collection_tail key cid st = Some tail
    \<and> collection_append key cid st x =
        (if \<not> valid_operation x then None
         else if operation_id x \<in> operation_id ` set log then
           (if \<exists>y \<in> set log. operation_id y = operation_id x \<and> fingerprint y = fingerprint x
            then Some st else None)
         else if length log < MAXIMUM_QUEUE_OPERATIONS \<and> accepted_history (log @ [x])
         then store_write (collection_dict cid snap (tail @ [x])) else None)"
proof -
  obtain snap tail r where "load_collection key cid st = Some (snap, tail, r)" "replay_tracks r log"
    using collection_reachable_tracks [OF assms] by (auto simp: collection_tracks_def)
  then show ?thesis using collection_append_eq by (simp add: collection_tail_def)
qed

theorem collection_append_spec_witness:
  "collection_append sample_key ''a'' sample_collection sample_create = Some sample_collection"
  using collection_append_spec [OF sample_collection_reachable, of sample_create]
  by (simp add: valid_sample_create)

text \<open>C4: compaction loses nothing and cannot fail but for an empty collection or a file that
  would be too large: the snapshot it writes passes every check of the loader, and what is
  loaded afterwards is the replay that was there before, with an empty tail.\<close>

theorem collection_compact_transparent:
  assumes "collection_reachable key cid st log" and "log \<noteq> []"
  shows "\<exists>snap tail r s. load_collection key cid st = Some (snap, tail, r)
    \<and> collection_compact key cid st True =
        (if write_fits (collection_dict cid (Some s) []) then Some (s, Some (collection_dict cid (Some s) [])) else None)
    \<and> load_collection key cid (Some (collection_dict cid (Some s) [])) = Some (Some s, [], r)
    \<and> collection_revision s = int (length log)"
proof -
  obtain snap tail r where l: "load_collection key cid st = Some (snap, tail, r)" "replay_tracks r log"
    using collection_reachable_tracks [OF assms(1)] by (auto simp: collection_tracks_def)
  have i: "is_identifier cid" "length key = 32" using collection_reachable_init [OF assms(1)] by simp_all
  let ?s = "snapshot_for key cid r (order_key (last log))"
  obtain r' where r': "load_collection key cid (Some (collection_dict cid (Some ?s) [])) = Some (Some ?s, [], r')"
    "replay_tracks r' log"
    using collection_load_written [OF collection_holds_compacted [OF l(2) assms(2) i] i(1)] by blast
  have "load_collection key cid (Some (collection_dict cid (Some ?s) [])) = Some (Some ?s, [], r)"
    using r'(1) replay_tracks_unique [OF r'(2) l(2)] by simp
  moreover have "collection_compact key cid st True =
      (if write_fits (collection_dict cid (Some ?s) []) then Some (?s, Some (collection_dict cid (Some ?s) [])) else None)"
    using collection_compact_eq [OF l i, of True] assms(2) by (simp only: Let_def if_False simp_thms)
  moreover have "collection_revision ?s = int (length log)"
    using replay_tracks_card [OF l(2)] by (simp add: snapshot_for_def Let_def)
  ultimately show ?thesis using l(1) by blast
qed

theorem collection_compact_transparent_witness:
  "\<exists>s st'. collection_compact sample_key ''a'' sample_collection True = Some (s, st')
     \<and> load_collection sample_key ''a'' st' = Some (Some s, [], sample_replay)"
proof -
  obtain snap tail where l: "load_collection sample_key ''a'' sample_collection = Some (snap, tail, sample_replay)"
    by (rule sample_collection_load)
  have c: "collection_compact sample_key ''a'' sample_collection True
      = Some (sample_snapshot, Some (collection_dict ''a'' (Some sample_snapshot) []))"
    unfolding collection_compact_eq [OF l sample_replay_tracks is_identifier_samples(1) length_sample_key] Let_def
      last.simps if_True simp_thms sample_snapshot_def [symmetric]
    using sample_snapshot_fits by simp
  obtain snap' tail' r s where h: "load_collection sample_key ''a'' sample_collection = Some (snap', tail', r)"
    "collection_compact sample_key ''a'' sample_collection True =
        (if write_fits (collection_dict ''a'' (Some s) []) then Some (s, Some (collection_dict ''a'' (Some s) [])) else None)"
    "load_collection sample_key ''a'' (Some (collection_dict ''a'' (Some s) [])) = Some (Some s, [], r)"
    using collection_compact_transparent [OF sample_collection_reachable list.distinct(2)] by blast
  have "r = sample_replay" using h(1) unfolding l by blast
  moreover have "s = sample_snapshot" using h(2) unfolding c by (metis option.inject option.distinct(1) prod.inject)
  ultimately show ?thesis using c h(3) by blast
qed

text \<open>A snapshot that is well formed and carries its own tag survives serialisation.\<close>

theorem snapshot_round_trip:
  assumes "valid_snapshot key s"
  shows "snapshot_from_dict key (snapshot_to_dict s) = Some s"
  by (rule snapshot_codec.dec_enc [OF assms])

theorem snapshot_round_trip_witness:
  "snapshot_from_dict sample_key (snapshot_to_dict sample_snapshot) = Some sample_snapshot"
  by (rule snapshot_round_trip [OF sample_snapshot_valid])

text \<open>A snapshot is accepted only with the HMAC of its payload under the key, and what it
  says is consistent: well-formed records sorted by object, every sequence number of every
  device owned once, as many fingerprints as numbers, the last operation among them.\<close>

theorem snapshot_accepted_authentic:
  assumes "snapshot_from_dict key v = Some s"
  shows "sound_snapshot s \<and> (\<exists>payload. mapping v \<bind> (\<lambda>outer. map_of outer ''payload'') = Some payload
    \<and> b64decode (authentication_tag_b64 s) = Some (hmac_sha256 key (canonical_json payload))
    \<and> canonical_payload_sha256 s = sha256_hex (canonical_json payload))"
  by (rule snapshot_from_dictE [OF assms]) (use snapshot_from_sound [OF assms] in blast)

theorem snapshot_accepted_authentic_witness:
  "sound_snapshot sample_snapshot"
  using snapshot_accepted_authentic [OF snapshot_from_to [OF sample_snapshot_valid]] by blast

end
