(* ===== verification/Canonical.thy ===== *)
theory Canonical
  imports Snapshot
begin

text \<open>
  The canonical serialisation loses nothing but the order of keys: two values with the same
  canonical JSON are equal up to that order.  So a fingerprint, a MAC or a comparison of
  canonical bytes is about the value.
\<close>

section \<open>Strings\<close>

lemma byte_val_eq: "n < 256 \<Longrightarrow> byte_val c = n \<longleftrightarrow> c = char_of n"
  using byte_val_inject [of c "char_of n"] by (simp add: byte_val_def)

lemma hex_digit_back: "n < 16 \<Longrightarrow> hex_digit_val (hex_digit n) = n"
  by (simp add: hex_digit_def hex_digit_val_def byte_val_def Let_def)

text \<open>Reading one escaped character back.\<close>

definition read_escape :: "char \<Rightarrow> string \<Rightarrow> (char \<times> string) option" where
  "read_escape d r =
     (if d = CHR 0x22 \<or> d = CHR 0x5C then Some (d, r)
      else if d = CHR ''n'' then Some (char_of (10::nat), r)
      else if d = CHR ''r'' then Some (char_of (13::nat), r)
      else if d = CHR ''t'' then Some (char_of (9::nat), r)
      else if d = CHR ''f'' then Some (char_of (12::nat), r)
      else if d = CHR ''b'' then Some (char_of (8::nat), r)
      else case r of _ # _ # h # l # r' \<Rightarrow>
          Some (char_of (16 * hex_digit_val h + hex_digit_val l), r') | _ \<Rightarrow> None)"

fun read_char :: "string \<Rightarrow> (char \<times> string) option" where
  "read_char (c # r) = (if c = CHR 0x5C then (case r of d # r' \<Rightarrow> read_escape d r' | [] \<Rightarrow> None) else Some (c, r))"
| "read_char [] = None"

lemma read_esc_char: "read_char (esc_char c @ r) = Some (c, r)"
proof -
  have hex: "char_of (16 * hex_digit_val (hex_digit (byte_val c div 16)) + hex_digit_val (hex_digit (byte_val c mod 16))) = c"
    using byte_val_less [of c] by (simp add: hex_digit_back less_mult_imp_div_less) (simp add: byte_val_def)
  have c: "char_of (34::nat) = CHR 0x22" "char_of (92::nat) = CHR 0x5C" by code_simp+
  show ?thesis
    unfolding esc_char_def Let_def by (auto simp: read_escape_def byte_val_eq hex c)
qed

lemma esc_char_first: "esc_char c @ r = CHR 0x22 # s \<Longrightarrow> False"
proof -
  have c: "char_of (34::nat) = CHR 0x22" by code_simp
  show "esc_char c @ r = CHR 0x22 # s \<Longrightarrow> False"
    unfolding esc_char_def Let_def by (auto simp: byte_val_eq c split: if_splits)
qed

lemma quote_prefix_free: "quote s @ r = quote s' @ r' \<Longrightarrow> s = s' \<and> r = r'"
proof (induction s arbitrary: s')
  case Nil
  show ?case
  proof (cases s')
    case (Cons d t)
    then have "esc_char d @ concat (map esc_char t) @ CHR 0x22 # r' = CHR 0x22 # r"
      using Nil by (simp add: quote_def)
    then show ?thesis using esc_char_first by blast
  qed (use Nil in \<open>simp add: quote_def\<close>)
next
  case (Cons c s)
  show ?case
  proof (cases s')
    case Nil
    then have "esc_char c @ concat (map esc_char s) @ CHR 0x22 # r = CHR 0x22 # r'"
      using Cons.prems by (simp add: quote_def)
    then show ?thesis using esc_char_first by blast
  next
    case (Cons d t)
    have "esc_char c @ concat (map esc_char s) @ CHR 0x22 # r = esc_char d @ concat (map esc_char t) @ CHR 0x22 # r'"
      using Cons.prems Cons by (simp add: quote_def)
    then have "c = d \<and> concat (map esc_char s) @ CHR 0x22 # r = concat (map esc_char t) @ CHR 0x22 # r'"
      using read_esc_char by (metis option.inject prod.inject)
    then show ?thesis using Cons.IH [of t] Cons by (simp add: quote_def)
  qed
qed

section \<open>Numbers\<close>

lemma int_str_chars: "c \<in> set (int_str i) \<Longrightarrow> c = CHR ''-'' \<or> is_digit c"
  using nat_digits_parse [of "nat i"] nat_digits_parse [of "nat (- i)"]
  by (auto simp: int_str_def list_all_iff split: if_splits)

lemma nat_digits_inject: "nat_digits n = nat_digits m \<longleftrightarrow> n = m"
  by (metis nat_digits_parse)

lemma digit_not_minus: "\<not> is_digit (CHR ''-'')"
  by (simp add: is_digit_def byte_val_def)

lemma nat_digits_no_minus: "nat_digits n = CHR ''-'' # t \<Longrightarrow> False"
  using nat_digits_parse [of n] digit_not_minus by auto

lemma int_str_inject_all: "int_str i = int_str j \<longleftrightarrow> i = j"
  using nat_digits_no_minus nat_digits_no_minus [OF sym]
  by (auto simp: int_str_def nat_digits_inject split: if_splits)

text \<open>What follows a value inside a container.\<close>

definition delimited :: "string \<Rightarrow> bool" where
  "delimited r \<longleftrightarrow> r = [] \<or> hd r \<in> {CHR '','', CHR '']'', CHR ''}''}"

lemma delimited_simps [simp]:
  "delimited []" "delimited (CHR '','' # r)" "delimited (CHR '']'' # r)" "delimited (CHR ''}'' # r)"
  by (simp_all add: delimited_def)

lemma append_split_class:
  assumes "xs @ r = ys @ r'" "\<forall>x \<in> set xs. P x" "\<forall>x \<in> set ys. P x"
    and "r = [] \<or> \<not> P (hd r)" "r' = [] \<or> \<not> P (hd r')"
  shows "xs = ys \<and> r = r'"
proof -
  have "takeWhile P (xs @ r) = xs" "takeWhile P (ys @ r') = ys"
    using assms(2-5) by (cases r; cases r'; simp add: takeWhile_append2)+
  then show ?thesis using assms(1) by (metis same_append_eq)
qed

lemma int_str_prefix_free:
  assumes "int_str i @ r = int_str j @ r'" "delimited r" "delimited r'"
  shows "i = j \<and> r = r'"
proof -
  have "s = [] \<or> \<not> (hd s = CHR ''-'' \<or> is_digit (hd s))" if "delimited s" for s
    using that by (auto simp: delimited_def is_digit_def byte_val_def)
  then have "int_str i = int_str j \<and> r = r'"
    using append_split_class [OF assms(1), of "\<lambda>c. c = CHR ''-'' \<or> is_digit c"] int_str_chars assms(2,3)
    by blast
  then show ?thesis by (simp add: int_str_inject_all)
qed

section \<open>Values\<close>

text \<open>Floats are left out: their texts are not checked here.  \<open>normal\<close> orders the entries of
  every object by their keys, which is all that the serialisation forgets.\<close>

primrec float_free :: "json \<Rightarrow> bool" where
  "float_free JNull = True"
| "float_free (JBool b) = True"
| "float_free (JInt i) = True"
| "float_free (JFloat s) = False"
| "float_free (JStr s) = True"
| "float_free (JList xs) = list_all id (map float_free xs)"
| "float_free (JObj es) = list_all snd (map (map_prod id float_free) es)"

primrec normal :: "json \<Rightarrow> json" where
  "normal JNull = JNull"
| "normal (JBool b) = JBool b"
| "normal (JInt i) = JInt i"
| "normal (JFloat s) = JFloat s"
| "normal (JStr s) = JStr s"
| "normal (JList xs) = JList (map normal xs)"
| "normal (JObj es) = JObj (sort_entries (map (map_prod id normal) es))"

lemma join_Cons: "join sep (s # ss) = s @ concat (map (\<lambda>t. sep @ t) ss)"
  by (induction ss arbitrary: s) auto

lemma insort_map_prod: "insort_key fst (map_prod id f e) (map (map_prod id f) es) = map (map_prod id f) (insort_key fst e es)"
  by (induction es) auto

lemma sort_entries_map: "sort_entries (map (map_prod id f) es) = map (map_prod id f) (sort_entries es)"
  unfolding sort_entries_def by (induction es) (simp_all only: list.map sort_key_simps insort_map_prod)

definition starts_value :: "string \<Rightarrow> bool" where
  "starts_value t \<longleftrightarrow> t \<noteq> [] \<and> hd t \<notin> {CHR '','', CHR '']'', CHR ''}''}"

lemma starts_value_append: "starts_value t \<Longrightarrow> starts_value (t @ r)"
  by (auto simp: starts_value_def)

text \<open>Elements separated by commas can be told apart if each of them can.\<close>

definition separable :: "('a \<Rightarrow> string) \<Rightarrow> ('a \<Rightarrow> 'b) \<Rightarrow> 'a set \<Rightarrow> 'a set \<Rightarrow> bool" where
  "separable f g X Y \<longleftrightarrow> (\<forall>x \<in> X. \<forall>y \<in> Y. \<forall>r r'. delimited r \<longrightarrow> delimited r' \<longrightarrow>
     f x @ r = f y @ r' \<longrightarrow> g x = g y \<and> r = r')"

lemma separableD:
  "separable f g X Y \<Longrightarrow> x \<in> X \<Longrightarrow> y \<in> Y \<Longrightarrow> delimited r \<Longrightarrow> delimited r' \<Longrightarrow> f x @ r = f y @ r' \<Longrightarrow>
     g x = g y \<and> r = r'"
  unfolding separable_def by blast

lemma separable_mono: "separable f g X Y \<Longrightarrow> X' \<subseteq> X \<Longrightarrow> Y' \<subseteq> Y \<Longrightarrow> separable f g X' Y'"
  unfolding separable_def by blast

definition comma_tail :: "('a \<Rightarrow> string) \<Rightarrow> 'a list \<Rightarrow> string" where
  "comma_tail f xs = concat (map (\<lambda>x. CHR '','' # f x) xs)"

lemma comma_tail_simps [simp]:
  "comma_tail f [] = []" "comma_tail f (x # xs) = CHR '','' # f x @ comma_tail f xs"
  by (simp_all add: comma_tail_def)

lemma join_comma: "join '','' (map f (x # xs)) = f x @ comma_tail f xs"
  by (simp add: join_Cons comma_tail_def comp_def)

lemma delimited_tail: "c \<in> {CHR '']'', CHR ''}''} \<Longrightarrow> delimited (comma_tail f xs @ c # r)"
  by (cases xs) auto

lemma tail_prefix_free:
  assumes "separable f g (set xs) (set ys)" "c \<in> {CHR '']'', CHR ''}''}"
    and "comma_tail f xs @ c # r = comma_tail f ys @ c # r'"
  shows "map g xs = map g ys \<and> r = r'"
  using assms
proof (induction xs arbitrary: ys)
  case Nil
  then show ?case by (cases ys) auto
next
  case (Cons x xs)
  then obtain y ys' where ys: "ys = y # ys'" by (cases ys) auto
  have "f x @ comma_tail f xs @ c # r = f y @ comma_tail f ys' @ c # r'" using Cons.prems(3) ys by simp
  then have step: "g x = g y \<and> comma_tail f xs @ c # r = comma_tail f ys' @ c # r'"
    using Cons.prems(2) by (intro separableD [OF Cons.prems(1)]) (simp_all add: ys delimited_tail)
  have "map g xs = map g ys' \<and> r = r'"
    by (rule Cons.IH [OF separable_mono [OF Cons.prems(1)] Cons.prems(2)]) (use step ys in auto)
  then show ?case using step ys by simp
qed

lemma join_prefix_free:
  assumes el: "separable f g (set xs) (set ys)"
    and op: "\<forall>x \<in> set xs \<union> set ys. starts_value (f x)"
    and c: "c \<in> {CHR '']'', CHR ''}''}"
    and eq: "join '','' (map f xs) @ c # r = join '','' (map f ys) @ c # r'"
  shows "map g xs = map g ys \<and> r = r'"
proof -
  have no: "join '','' (map f (z # zs)) @ s \<noteq> c # t" if "starts_value (f z)" for z zs s t
    using starts_value_append [OF that, of "comma_tail f zs @ s"] c
    unfolding join_comma append_assoc starts_value_def by auto
  show ?thesis
  proof (cases xs)
    case Nil
    have "ys = []"
    proof (cases ys)
      case (Cons y ys')
      have "join '','' (map f (y # ys')) @ c # r' = c # r" using eq Nil Cons by simp
      then show ?thesis using no [of y ys' "c # r'" r] op Cons by simp
    qed simp
    with Nil eq show ?thesis by simp
  next
    case (Cons x xs')
    have "join '','' (map f (x # xs')) @ c # r \<noteq> c # r'" using no [of x] op Cons by simp
    then obtain y ys' where ys: "ys = y # ys'" using eq Cons by (cases ys) auto
    have "comma_tail f xs @ c # r = comma_tail f ys @ c # r'"
      using eq unfolding Cons ys join_comma by simp
    then show ?thesis by (rule tail_prefix_free [OF el c])
  qed
qed

lemma dumps_starts_value: "float_free j \<Longrightarrow> starts_value (dumps j)"
proof (cases j)
  case (JInt i)
  have "int_str i \<noteq> []" using nat_digits_parse by (simp add: int_str_def)
  then have "hd (int_str i) = CHR ''-'' \<or> is_digit (hd (int_str i))"
    by (intro int_str_chars [of _ i] hd_in_set)
  then show ?thesis using JInt \<open>int_str i \<noteq> []\<close>
    by (auto simp: starts_value_def is_digit_def byte_val_def)
qed (auto simp: starts_value_def quote_def)

definition render_entry :: "string \<times> json \<Rightarrow> string" where
  "render_entry e = quote (fst e) @ '':'' @ dumps (snd e)"

lemma dumps_obj: "dumps (JObj es) = CHR ''{'' # join '','' (map render_entry (sort_entries es)) @ ''}''"
  by (simp add: sort_entries_map render_entry_def [abs_def] comp_def case_prod_unfold)

lemma normal_obj: "normal (JObj es) = JObj (map (map_prod id normal) (sort_entries es))"
  by (simp add: sort_entries_map)

lemma set_sort_entries [simp]: "set (sort_entries es) = set es"
  by (simp add: sort_entries_def)

text \<open>The first character tells the constructor.\<close>

definition first_shape :: "char \<Rightarrow> nat" where
  "first_shape c = (if c = CHR ''n'' then 0 else if c = CHR ''t'' then 1 else if c = CHR ''f'' then 2
     else if c = CHR 0x22 then 3 else if c = CHR ''['' then 4 else if c = CHR ''{'' then 5 else 6)"

fun shape :: "json \<Rightarrow> nat" where
  "shape JNull = 0"
| "shape (JBool b) = (if b then 1 else 2)"
| "shape (JStr s) = 3"
| "shape (JList xs) = 4"
| "shape (JObj es) = 5"
| "shape _ = 6"

lemma shape_cases:
  "shape j = 0 \<longleftrightarrow> j = JNull" "shape j = 1 \<longleftrightarrow> j = JBool True" "shape j = 2 \<longleftrightarrow> j = JBool False"
  "shape j = 3 \<longleftrightarrow> (\<exists>s. j = JStr s)" "shape j = 4 \<longleftrightarrow> (\<exists>xs. j = JList xs)"
  "shape j = 5 \<longleftrightarrow> (\<exists>es. j = JObj es)"
  "float_free j \<Longrightarrow> shape j = 6 \<longleftrightarrow> (\<exists>i. j = JInt i)"
  by (cases j; simp)+

lemma first_shape_dumps: "float_free j \<Longrightarrow> dumps j \<noteq> [] \<and> first_shape (hd (dumps j)) = shape j"
proof (cases j)
  case (JInt i)
  have "int_str i \<noteq> []" using nat_digits_parse by (simp add: int_str_def)
  then have "hd (int_str i) = CHR ''-'' \<or> is_digit (hd (int_str i))"
    by (intro int_str_chars [of _ i] hd_in_set)
  then show ?thesis using JInt \<open>int_str i \<noteq> []\<close>
    by (auto simp: first_shape_def is_digit_def byte_val_def)
qed (auto simp: first_shape_def quote_def)

lemma same_shape:
  assumes "float_free j" "float_free j'" "dumps j @ r = dumps j' @ r'"
  shows "shape j = shape j'"
  using first_shape_dumps [OF assms(1)] first_shape_dumps [OF assms(2)] assms(3)
  by (metis hd_append2)

lemma separable_entries:
  assumes "\<And>x y r r'. x \<in> snd ` set es \<Longrightarrow> y \<in> snd ` set es' \<Longrightarrow> delimited r \<Longrightarrow> delimited r' \<Longrightarrow>
      dumps x @ r = dumps y @ r' \<Longrightarrow> normal x = normal y \<and> r = r'"
  shows "separable render_entry (map_prod id normal) (set es) (set es')"
  unfolding separable_def
proof (intro ballI allI impI)
  fix e e' r r' assume e: "e \<in> set es" "e' \<in> set es'" "delimited r" "delimited r'"
    and eq: "render_entry e @ r = render_entry e' @ r'"
  then have "fst e = fst e' \<and> dumps (snd e) @ r = dumps (snd e') @ r'"
    using quote_prefix_free [of "fst e" "'':'' @ dumps (snd e) @ r" "fst e'" "'':'' @ dumps (snd e') @ r'"]
    by (simp add: render_entry_def)
  moreover from this have "normal (snd e) = normal (snd e') \<and> r = r'" using assms e by blast
  ultimately show "map_prod id normal e = map_prod id normal e' \<and> r = r'"
    by (simp add: prod_eq_iff)
qed

theorem dumps_prefix_free:
  "float_free j \<Longrightarrow> float_free j' \<Longrightarrow> delimited r \<Longrightarrow> delimited r' \<Longrightarrow> dumps j @ r = dumps j' @ r' \<Longrightarrow>
     normal j = normal j' \<and> r = r'"
proof (induction j arbitrary: j' r r')
  case JNull
  then have "j' = JNull" using same_shape [OF JNull.prems(1,2,5)] shape_cases(1) by simp
  then show ?case using JNull by simp
next
  case (JBool b)
  have "shape j' = shape (JBool b)" by (rule same_shape [OF JBool.prems(1,2,5), symmetric])
  then have "j' = JBool b" by (cases j'; cases b) (auto split: if_splits)
  then show ?case using JBool by simp
next
  case (JInt i)
  then obtain k where "j' = JInt k"
    using same_shape [OF JInt.prems(1,2,5)] shape_cases(7) [of j'] by auto
  then show ?case using JInt.prems int_str_prefix_free [of i r k r'] by simp
next
  case (JStr s)
  then obtain t where "j' = JStr t" using same_shape [OF JStr.prems(1,2,5)] shape_cases(4) [of j'] by auto
  then show ?case using JStr.prems quote_prefix_free [of s r t r'] by simp
next
  case (JList xs)
  obtain ys where ys: "j' = JList ys" using same_shape [OF JList.prems(1,2,5)] shape_cases(5) [of j'] by auto
  have ff: "\<forall>x \<in> set xs. float_free x" "\<forall>y \<in> set ys. float_free y"
    using JList.prems(1,2) unfolding ys by (simp_all add: list_all_iff)
  have "separable dumps normal (set xs) (set ys)"
    unfolding separable_def
  proof (intro ballI allI impI)
    fix x y r r' assume h: "x \<in> set xs" "y \<in> set ys" "delimited r" "delimited r'" "dumps x @ r = dumps y @ r'"
    show "normal x = normal y \<and> r = r'"
      by (rule JList.IH [OF h(1) _ _ h(3,4,5)]) (use ff h(1,2) in blast)+
  qed
  moreover have "\<forall>x \<in> set xs \<union> set ys. starts_value (dumps x)"
    using ff dumps_starts_value by blast
  ultimately have "map normal xs = map normal ys \<and> r = r'"
    by (rule join_prefix_free [where c = "CHR '']''"]) (use JList.prems(5) ys in simp_all)
  then show ?case by (simp add: ys)
next
  case (JObj es)
  obtain es' where es': "j' = JObj es'" using same_shape [OF JObj.prems(1,2,5)] shape_cases(6) [of j'] by auto
  have ff: "\<forall>x \<in> snd ` set es. float_free x" "\<forall>y \<in> snd ` set es'. float_free y"
    using JObj.prems(1,2) unfolding es' by (auto simp: list_all_iff)
  have IH: "normal x = normal y \<and> r = r'"
    if "x \<in> snd ` set es" "y \<in> snd ` set es'" "delimited r" "delimited r'" "dumps x @ r = dumps y @ r'"
    for x y r r'
  proof -
    from that(1) obtain k where e: "(k, x) \<in> set es" by auto
    have "x \<in> Basic_BNFs.snds (k, x)" by simp
    note e = e this
    show ?thesis by (rule JObj.IH [OF e _ _ that(3-5)]) (use ff that(1,2) in blast)+
  qed
  have "separable render_entry (map_prod id normal) (set (sort_entries es)) (set (sort_entries es'))"
    unfolding set_sort_entries by (rule separable_entries) (rule IH)
  moreover have "\<forall>e \<in> set (sort_entries es) \<union> set (sort_entries es'). starts_value (render_entry e)"
    by (simp add: render_entry_def starts_value_def quote_def)
  ultimately have "map (map_prod id normal) (sort_entries es) = map (map_prod id normal) (sort_entries es') \<and> r = r'"
    by (rule join_prefix_free [where c = "CHR ''}''"])
      (use JObj.prems(5) in \<open>simp_all add: es' dumps_obj del: dumps.simps\<close>)
  then show ?case by (simp only: es' normal_obj)
qed simp

corollary canonical_json_inject:
  "float_free j \<Longrightarrow> float_free j' \<Longrightarrow> canonical_json j = canonical_json j' \<Longrightarrow> normal j = normal j'"
  using dumps_prefix_free [of j j' "[]" "[]"] by (simp add: canonical_json_def)

section \<open>Envelopes and operations\<close>

lemma same_keys_unique:
  fixes xs ys :: "(string \<times> 'b) list"
  assumes "map fst xs = map fst ys" "distinct (map fst xs)" "sort_entries xs = sort_entries ys"
  shows "xs = ys"
proof -
  have "set xs = set ys" using arg_cong [OF assms(3), of set] by simp
  then have "map_of xs = map_of ys"
    using assms(1,2) map_of_inject_set [of xs ys] by simp
  moreover have "map (\<lambda>k. (k, the (map_of zs k))) (map fst zs) = zs" if "distinct (map fst zs)"
    for zs :: "(string \<times> 'b) list"
    unfolding map_map comp_def by (rule map_idI) (use that in \<open>auto simp: map_of_is_SomeI\<close>)
  ultimately show ?thesis using assms(1,2) by metis
qed

lemma normal_obj_inject:
  assumes "normal (JObj xs) = normal (JObj ys)" "map fst xs = map fst ys" "distinct (map fst xs)"
  shows "map (map_prod id normal) xs = map (map_prod id normal) ys"
  by (rule same_keys_unique) (use assms in \<open>simp_all add: comp_def\<close>)

lemma normal_json_opt [simp]: "normal (json_opt p) = json_opt p"
  by (cases p) simp_all

lemma float_free_json_opt [simp]: "float_free (json_opt p)"
  by (cases p) simp_all

lemma float_free_envelope [simp]: "float_free (envelope_to_dict e)"
  by (simp add: envelope_to_dict_def)

lemma float_free_operation [simp]: "float_free (operation_to_dict x)"
  by (simp add: operation_to_dict_def)

lemma normal_envelope_inject:
  assumes "normal (envelope_to_dict e) = normal (envelope_to_dict e')"
  shows "e = e'"
proof -
  have "map (map_prod id normal) (the (mapping (envelope_to_dict e)))
      = map (map_prod id normal) (the (mapping (envelope_to_dict e')))"
    by (rule normal_obj_inject) (use assms in \<open>simp_all add: envelope_to_dict_def del: normal.simps\<close>)
  then show ?thesis by (cases e; cases e') (simp add: envelope_to_dict_def)
qed

lemma envelope_canonical_inject:
  "canonical_json (envelope_to_dict e) = canonical_json (envelope_to_dict e') \<longleftrightarrow> e = e'"
  using canonical_json_inject [of "envelope_to_dict e" "envelope_to_dict e'"] normal_envelope_inject by auto

lemma operation_canonical_inject:
  "canonical_json (operation_to_dict x) = canonical_json (operation_to_dict y) \<longleftrightarrow> x = y"
proof
  assume "canonical_json (operation_to_dict x) = canonical_json (operation_to_dict y)"
  then have n: "normal (operation_to_dict x) = normal (operation_to_dict y)"
    by (intro canonical_json_inject) simp_all
  have "map (map_prod id normal) (the (mapping (operation_to_dict x)))
      = map (map_prod id normal) (the (mapping (operation_to_dict y)))"
    by (rule normal_obj_inject) (use n in \<open>simp_all add: operation_to_dict_def del: normal.simps\<close>)
  then show "x = y"
    by (cases x; cases y) (auto simp: operation_to_dict_def dest: normal_envelope_inject)
qed simp

section \<open>Property\<close>

text \<open>Canonical bytes identify an operation and an envelope: the bytes that are hashed for a
  fingerprint, authenticated in a snapshot and compared in a validation determine every field.\<close>

theorem canonical_bytes_identify:
  "(canonical_json (operation_to_dict x) = canonical_json (operation_to_dict y) \<longleftrightarrow> x = y)
   \<and> (canonical_json (envelope_to_dict e) = canonical_json (envelope_to_dict f) \<longleftrightarrow> e = f)"
  using operation_canonical_inject envelope_canonical_inject by blast

end
