(* ===== verification/Convergent.thy ===== *)
theory Convergent
  imports Canonical Collection
begin

text \<open>
  \<open>DurableEncryptedConvergentReplica\<close> of \<open>vaultsync/sync_queue.py\<close>: a set of operations and a set
  of snapshots that were delivered in any order, the check that they are consistent
  (\<open>_validate_convergent_history\<close>) and the records they resolve to
  (\<open>_resolve_convergent_records\<close>).
\<close>

section \<open>The check of a history\<close>

text \<open>A loop whose body may raise.\<close>

fun fold_option :: "('a \<Rightarrow> 's \<Rightarrow> 's option) \<Rightarrow> 'a list \<Rightarrow> 's \<Rightarrow> 's option" where
  "fold_option f [] s = Some s"
| "fold_option f (x # xs) s = do { s' \<leftarrow> f x s; fold_option f xs s' }"

record history_check =
  hc_receipts :: "(string, string) fmap"
  hc_snapshot_sequences :: "(string, int) fmap"
  hc_sequence_owners :: owners
  hc_operation_sequences :: "(string, string \<times> int) fmap"
  hc_revision_values :: "(string \<times> string, string) fmap"
  hc_revision_parents :: "(string \<times> string, string option) fmap"

definition empty_check :: history_check where
  "empty_check = \<lparr>hc_receipts = fmempty, hc_snapshot_sequences = fmempty, hc_sequence_owners = fmempty,
     hc_operation_sequences = fmempty, hc_revision_values = fmempty, hc_revision_parents = fmempty\<rparr>"

definition add_receipt :: "string \<times> string \<Rightarrow> history_check \<Rightarrow> history_check option" where
  "add_receipt e h = (case e of (op_id, receipt_digest) \<Rightarrow> do {
     require (\<not> (\<exists>known \<in> set_option (fmlookup (hc_receipts h) op_id). known \<noteq> receipt_digest));
     Some (h\<lparr>hc_receipts := fmupd op_id receipt_digest (hc_receipts h)\<rparr>) })"

definition add_envelope :: "envelope \<Rightarrow> history_check \<Rightarrow> history_check option" where
  "add_envelope e h = do {
     require (parent_revision e \<noteq> Some (revision e));
     let key = (object_id e, revision e);
     let encoded = canonical_json (envelope_to_dict e);
     require (\<not> (\<exists>known \<in> set_option (fmlookup (hc_revision_values h) key). known \<noteq> encoded));
     Some (h\<lparr>hc_revision_values := fmupd key encoded (hc_revision_values h),
       hc_revision_parents := fmupd key (parent_revision e) (hc_revision_parents h)\<rparr>) }"

definition add_sequence_owner :: "(string \<times> int) \<times> string \<Rightarrow> history_check \<Rightarrow> history_check option" where
  "add_sequence_owner e h = (case e of (sequence_key, op_id) \<Rightarrow> do {
     require (\<not> ((\<exists>known_owner \<in> set_option (fmlookup (hc_sequence_owners h) sequence_key). known_owner \<noteq> op_id)
       \<or> (\<exists>known_sequence \<in> set_option (fmlookup (hc_operation_sequences h) op_id). known_sequence \<noteq> sequence_key)));
     Some (h\<lparr>hc_sequence_owners := fmupd sequence_key op_id (hc_sequence_owners h),
       hc_operation_sequences := fmupd op_id sequence_key (hc_operation_sequences h)\<rparr>) })"

definition add_sequence :: "string \<times> int \<Rightarrow> history_check \<Rightarrow> history_check" where
  "add_sequence e h = (case e of (device, sequence) \<Rightarrow>
     h\<lparr>hc_snapshot_sequences := fmupd device
       (max (case fmlookup (hc_snapshot_sequences h) device of None \<Rightarrow> 0 | Some n \<Rightarrow> n) sequence)
       (hc_snapshot_sequences h)\<rparr>)"

text \<open>The bodies of the loops over the snapshots and over the operations.\<close>

definition check_snapshot :: "snapshot \<Rightarrow> history_check \<Rightarrow> history_check option" where
  "check_snapshot s h = do {
     h \<leftarrow> fold_option add_receipt (items (snapshot_fingerprints s)) h;
     let h = fold add_sequence (items (snapshot_sequences s)) h;
     h \<leftarrow> fold_option add_sequence_owner (items (snapshot_owners s)) h;
     fold_option add_envelope (snapshot_records s) h }"

definition check_operation :: "operation \<Rightarrow> history_check \<Rightarrow> history_check option" where
  "check_operation x h = do {
     let receipt_digest = fingerprint x;
     let known_receipt = fmlookup (hc_receipts h) (operation_id x);
     h \<leftarrow> add_receipt (operation_id x, receipt_digest) h;
     let sequence_key = (author_device_id x, author_sequence x);
     h \<leftarrow> add_sequence_owner (sequence_key, operation_id x) h;
     require (\<not> (known_receipt = None \<and> author_sequence x \<le>
       (case fmlookup (hc_snapshot_sequences h) (author_device_id x) of None \<Rightarrow> 0 | Some n \<Rightarrow> n)));
     add_envelope (op_envelope x) h }"

text \<open>The walk from a revision along the parents that are known: it raises (\<open>False\<close>) when it
  meets a revision twice.\<close>

function chain_ends :: "(string \<times> string, string option) fmap \<Rightarrow> (string \<times> string) set
    \<Rightarrow> (string \<times> string) option \<Rightarrow> bool" where
  "chain_ends parents seen None = True"
| "chain_ends parents seen (Some current) =
     (case fmlookup parents current of
        None \<Rightarrow> True
      | Some parent \<Rightarrow>
          (if current \<in> seen then False
           else chain_ends parents (insert current seen) (map_option (\<lambda>p. (fst current, p)) parent)))"
  by pat_completeness auto

termination
proof (relation "measure (\<lambda>(parents, seen, current). card (fset (fmdom parents) - seen))")
  fix parents :: "(string \<times> string, string option) fmap" and seen current parent
  assume "fmlookup parents current = Some parent" "current \<notin> seen"
  then have "fset (fmdom parents) - insert current seen \<subset> fset (fmdom parents) - seen"
    by (auto dest: fmdomI)
  then show "((parents, insert current seen, map_option (\<lambda>p. (fst current, p)) parent), parents, seen, Some current)
      \<in> measure (\<lambda>(parents, seen, current). card (fset (fmdom parents) - seen))"
    by (simp add: psubset_card_mono)
qed simp

definition validate_convergent_history :: "operation list \<Rightarrow> snapshot list \<Rightarrow> (string, string) fmap option" where
  "validate_convergent_history ops snaps = do {
     h \<leftarrow> fold_option check_snapshot snaps empty_check;
     h \<leftarrow> fold_option check_operation ops h;
     require (\<not> (MAXIMUM_QUEUE_OPERATIONS < fcard (fmdom (hc_receipts h))));
     require (list_all (\<lambda>start. chain_ends (hc_revision_parents h) {} (Some start))
       (map fst (items (hc_revision_parents h))));
     Some (hc_receipts h) }"

section \<open>The persisted replica\<close>

record convergent_state =
  cr_operations :: "operation list"
  cr_snapshots :: "snapshot list"
  cr_pending :: "string list"
  cr_receipts :: "(string, string) fmap"

definition CONVERGENT_REPLICA_STATE_FORMAT :: string where
  "CONVERGENT_REPLICA_STATE_FORMAT = ''atlasvault-encrypted-convergent-replica-state''"

definition convergent_keys :: "string list" where
  "convergent_keys = [''format'', ''version'', ''collection_id'', ''operations'', ''snapshots'', ''pending_operation_ids'']"

definition convergent_default :: "string \<Rightarrow> json" where
  "convergent_default cid = JObj
     [(''format'', JStr CONVERGENT_REPLICA_STATE_FORMAT), (''version'', JInt 1), (''collection_id'', JStr cid),
      (''operations'', JList []), (''snapshots'', JList []), (''pending_operation_ids'', JList [])]"

definition convergent_dict :: "string \<Rightarrow> convergent_state \<Rightarrow> json" where
  "convergent_dict cid s = JObj
     [(''format'', JStr CONVERGENT_REPLICA_STATE_FORMAT), (''version'', JInt 1), (''collection_id'', JStr cid),
      (''operations'', JList (map operation_to_dict (cr_operations s))),
      (''snapshots'', JList (map snapshot_to_dict (cr_snapshots s))),
      (''pending_operation_ids'', JList (map JStr (cr_pending s)))]"

definition convergent_from_state :: "string \<Rightarrow> string \<Rightarrow> json \<Rightarrow> convergent_state option" where
  "convergent_from_state key cid v = do {
     state \<leftarrow> mapping v;
     exact state convergent_keys;
     format_v \<leftarrow> map_of state ''format'';
     version_v \<leftarrow> map_of state ''version'';
     require (format_v = JStr CONVERGENT_REPLICA_STATE_FORMAT \<and> py_eq_one version_v);
     stored_id \<leftarrow> map_of state ''collection_id'' \<bind> identifier_value;
     require (stored_id = cid);
     raw_operations \<leftarrow> map_of state ''operations'' \<bind> json_list;
     raw_snapshots \<leftarrow> map_of state ''snapshots'' \<bind> json_list;
     raw_pending \<leftarrow> map_of state ''pending_operation_ids'' \<bind> json_list;
     require (\<not> (MAXIMUM_QUEUE_OPERATIONS < length raw_operations
       \<or> MAXIMUM_QUEUE_OPERATIONS < length raw_snapshots
       \<or> MAXIMUM_QUEUE_OPERATIONS < length raw_pending));
     ops \<leftarrow> traverse operation_from_dict raw_operations;
     require (ops = sort_key operation_id ops \<and> set_size (map operation_id ops) = length ops);
     snaps \<leftarrow> traverse (snapshot_from_dict key) raw_snapshots;
     require (list_all (\<lambda>s. collection_id s = cid) snaps \<and> snaps = sort_key canonical_payload_sha256 snaps
       \<and> set_size (map canonical_payload_sha256 snaps) = length snaps);
     pending \<leftarrow> traverse canonical_uuid raw_pending;
     require (pending = sort pending \<and> set_size pending = length pending);
     require (set pending \<subseteq> set (map operation_id ops));
     receipts \<leftarrow> validate_convergent_history ops snaps;
     Some \<lparr>cr_operations = ops, cr_snapshots = snaps, cr_pending = pending, cr_receipts = receipts\<rparr> }"

definition load_convergent :: "string \<Rightarrow> string \<Rightarrow> store \<Rightarrow> convergent_state option" where
  "load_convergent key cid st = convergent_from_state key cid (store_read st (convergent_default cid))"

section \<open>Resolution\<close>

record candidate =
  cd_envelope :: envelope
  cd_operation :: "operation option"
  cd_snapshot :: "snapshot option"

definition candidates :: "convergent_state \<Rightarrow> candidate list" where
  "candidates s =
     concat (map (\<lambda>snap. map (\<lambda>e. \<lparr>cd_envelope = e, cd_operation = None, cd_snapshot = Some snap\<rparr>)
       (snapshot_records snap)) (cr_snapshots s))
     @ map (\<lambda>x. \<lparr>cd_envelope = op_envelope x, cd_operation = Some x, cd_snapshot = None\<rparr>) (cr_operations s)"

text \<open>\<open>_snapshot_dominates\<close>\<close>

definition snapshot_dominates :: "snapshot option \<Rightarrow> snapshot option \<Rightarrow> bool" where
  "snapshot_dominates newer older = (case (newer, older) of
     (Some n, Some q) \<Rightarrow> collection_revision q < collection_revision n
       \<and> list_all (\<lambda>(sequence_key, op_id). fmlookup (snapshot_owners n) sequence_key = Some op_id)
            (items (snapshot_owners q))
   | _ \<Rightarrow> False)"

text \<open>\<open>max(..., key=...)\<close>: the first greatest element; of nothing it raises.\<close>

fun max_by :: "('a \<Rightarrow> 'k::linorder) \<Rightarrow> 'a list \<Rightarrow> 'a option" where
  "max_by f [] = None"
| "max_by f (x # xs) = Some (foldl (\<lambda>m y. if f m < f y then y else m) x xs)"

text \<open>Python's \<open>other is not candidate\<close> compares positions in the list.\<close>

definition undominated :: "candidate list \<Rightarrow> candidate list" where
  "undominated cs = map snd (filter (\<lambda>(i, c).
     \<not> list_ex (\<lambda>(j, d). j \<noteq> i \<and> snapshot_dominates (cd_snapshot d) (cd_snapshot c)) (enumerate 0 cs))
     (enumerate 0 cs))"

definition resolve_object :: "candidate list \<Rightarrow> envelope option" where
  "resolve_object all_candidates = (
     let dead = filter (\<lambda>c. tombstone (cd_envelope c)) all_candidates;
         cs = (if list_ex (\<lambda>c. tombstone (cd_envelope c)) all_candidates then dead else all_candidates);
         operation_cs = filter (\<lambda>c. cd_operation c \<noteq> None) cs
     in if operation_cs \<noteq> []
        then map_option cd_envelope (max_by (\<lambda>c. order_key (the (cd_operation c))) operation_cs)
        else map_option cd_envelope
          (max_by (\<lambda>c. canonical_payload_sha256 (the (cd_snapshot c)))
            (undominated (filter (\<lambda>c. cd_snapshot c \<noteq> None) cs))))"

text \<open>\<open>_resolve_convergent_records\<close>: the candidates are grouped by object, in the order in which
  they come.\<close>

definition resolve_convergent_records :: "convergent_state \<Rightarrow> envelope list option" where
  "resolve_convergent_records s =
     traverse (\<lambda>i. resolve_object (filter (\<lambda>c. object_id (cd_envelope c) = i) (candidates s)))
       (sort (remdups (map (\<lambda>c. object_id (cd_envelope c)) (candidates s))))"

section \<open>Operations\<close>

text \<open>\<open>_write\<close>\<close>

definition convergent_write :: "string \<Rightarrow> operation list \<Rightarrow> snapshot list \<Rightarrow> string list \<Rightarrow> store option" where
  "convergent_write cid ops snaps pending = do {
     let ordered_operations = sort_key operation_id ops;
     let ordered_snapshots = sort_key canonical_payload_sha256 snaps;
     let ordered_pending = sort pending;
     receipts \<leftarrow> validate_convergent_history ordered_operations ordered_snapshots;
     require (set ordered_pending \<subseteq> set (map operation_id ordered_operations));
     store_write (convergent_dict cid \<lparr>cr_operations = ordered_operations, cr_snapshots = ordered_snapshots,
       cr_pending = ordered_pending, cr_receipts = receipts\<rparr>) }"

definition ingest_remote :: "string \<Rightarrow> string \<Rightarrow> store \<Rightarrow> operation \<Rightarrow> (bool \<times> store) option" where
  "ingest_remote key cid st x = do {
     x \<leftarrow> validated_operation x;
     state \<leftarrow> load_convergent key cid st;
     case fmlookup (cr_receipts state) (operation_id x) of
       Some known \<Rightarrow> (if known \<noteq> fingerprint x then None else Some (False, st))
     | None \<Rightarrow> do {
         st' \<leftarrow> convergent_write cid (cr_operations state @ [x]) (cr_snapshots state) (cr_pending state);
         Some (True, st') } }"

definition queue_local :: "string \<Rightarrow> string \<Rightarrow> store \<Rightarrow> operation \<Rightarrow> (bool \<times> store) option" where
  "queue_local key cid st x = do {
     x \<leftarrow> validated_operation x;
     state \<leftarrow> load_convergent key cid st;
     case fmlookup (cr_receipts state) (operation_id x) of
       Some known \<Rightarrow> (if known \<noteq> fingerprint x then None else Some (False, st))
     | None \<Rightarrow> do {
         st' \<leftarrow> convergent_write cid (cr_operations state @ [x]) (cr_snapshots state)
           (cr_pending state @ [operation_id x]);
         Some (True, st') } }"

definition merge_snapshot :: "string \<Rightarrow> string \<Rightarrow> store \<Rightarrow> snapshot \<Rightarrow> (bool \<times> store) option" where
  "merge_snapshot key cid st s = do {
     verified \<leftarrow> snapshot_from_dict key (snapshot_to_dict s);
     require (collection_id verified = cid);
     state \<leftarrow> load_convergent key cid st;
     if list_ex (\<lambda>item. canonical_payload_sha256 item = canonical_payload_sha256 verified) (cr_snapshots state)
     then Some (False, st)
     else do {
       st' \<leftarrow> convergent_write cid (cr_operations state) (cr_snapshots state @ [verified]) (cr_pending state);
       Some (True, st') } }"

definition convergent_records :: "string \<Rightarrow> string \<Rightarrow> store \<Rightarrow> envelope list option" where
  "convergent_records key cid st = load_convergent key cid st \<bind> resolve_convergent_records"

definition accepted_operation_count :: "string \<Rightarrow> string \<Rightarrow> store \<Rightarrow> nat option" where
  "accepted_operation_count key cid st =
     map_option (\<lambda>s. fcard (fmdom (cr_receipts s))) (load_convergent key cid st)"

definition convergent_pending :: "string \<Rightarrow> string \<Rightarrow> store \<Rightarrow> operation list option" where
  "convergent_pending key cid st = do {
     state \<leftarrow> load_convergent key cid st;
     Some (sort_operations (filter (\<lambda>x. operation_id x \<in> set (cr_pending state)) (cr_operations state))) }"

definition convergent_confirm :: "string \<Rightarrow> string \<Rightarrow> store \<Rightarrow> json \<Rightarrow> store option" where
  "convergent_confirm key cid st op_id = do {
     i \<leftarrow> canonical_uuid op_id;
     state \<leftarrow> load_convergent key cid st;
     require (i \<in> set (cr_pending state));
     convergent_write cid (cr_operations state) (cr_snapshots state) (filter (\<lambda>j. j \<noteq> i) (cr_pending state)) }"

text \<open>\<open>synchronize_to\<close>: the loop over the pending operations, with the two files after it.  Where a
  call raises, what was transferred before it stays transferred.\<close>

fun transfer :: "string \<Rightarrow> string \<Rightarrow> string \<Rightarrow> operation list \<Rightarrow> store \<Rightarrow> store \<Rightarrow> nat
    \<Rightarrow> nat option \<times> store \<times> store" where
  "transfer key remote_key cid [] st remote accepted = (Some accepted, st, remote)"
| "transfer key remote_key cid (x # xs) st remote accepted =
     (case ingest_remote remote_key cid remote x of
        None \<Rightarrow> (None, st, remote)
      | Some (_, remote') \<Rightarrow>
          (case convergent_confirm key cid st (JStr (operation_id x)) of
             None \<Rightarrow> (None, st, remote')
           | Some st' \<Rightarrow> transfer key remote_key cid xs st' remote' (accepted + 1)))"

definition synchronize_to :: "string \<Rightarrow> string \<Rightarrow> string \<Rightarrow> string \<Rightarrow> store \<Rightarrow> store
    \<Rightarrow> nat option \<times> store \<times> store" where
  "synchronize_to key cid remote_key remote_cid st remote =
     (if remote_cid \<noteq> cid then (None, st, remote)
      else (case convergent_pending key cid st of
        None \<Rightarrow> (None, st, remote)
      | Some xs \<Rightarrow> transfer key remote_key cid xs st remote 0))"

end
