(* ===== verification/HistoryCheck.thy ===== *)
theory HistoryCheck
  imports Convergent
begin

text \<open>
  What \<open>_validate_convergent_history\<close> decides: each of its loops adds to a set or raises, so that
  the check as a whole is a predicate on the set of operations and the set of snapshots,
  whatever order they come in, and every subset of an accepted history is accepted.
\<close>

section \<open>Loops that add to a set\<close>

text \<open>
  The interface of a loop body that either adds an element to what the state stands for or
  raises: it raises exactly when the extended set would not be acceptable.
\<close>

locale accumulator =
  fixes add :: "'e \<Rightarrow> 's \<Rightarrow> 's option" and stands :: "'s \<Rightarrow> 'e set \<Rightarrow> bool"
    and ok :: "'e set \<Rightarrow> bool" and good :: "'e \<Rightarrow> bool"
  assumes add_ok: "stands s A \<Longrightarrow> ok A \<Longrightarrow> good e \<Longrightarrow> ok (insert e A) \<Longrightarrow> \<exists>s'. add e s = Some s' \<and> stands s' (insert e A)"
    and add_bad: "stands s A \<Longrightarrow> ok A \<Longrightarrow> good e \<Longrightarrow> \<not> ok (insert e A) \<Longrightarrow> add e s = None"
    and ok_mono: "ok B \<Longrightarrow> A \<subseteq> B \<Longrightarrow> ok A"
begin

lemma loop_ok:
  "stands s A \<Longrightarrow> \<forall>e \<in> set es. good e \<Longrightarrow> ok (A \<union> set es) \<Longrightarrow>
     \<exists>s'. fold_option add es s = Some s' \<and> stands s' (A \<union> set es)"
proof (induction es arbitrary: s A)
  case (Cons e es)
  have "ok A" "ok (insert e A)" using Cons.prems(3) by (auto intro: ok_mono)
  then obtain s' where s': "add e s = Some s'" "stands s' (insert e A)"
    using add_ok Cons.prems(1,2) by force
  have "\<exists>s''. fold_option add es s' = Some s'' \<and> stands s'' (insert e A \<union> set es)"
    by (rule Cons.IH [OF s'(2)]) (use Cons.prems in simp_all)
  with s'(1) show ?case by simp
qed simp

lemma loop_bad:
  "stands s A \<Longrightarrow> ok A \<Longrightarrow> \<forall>e \<in> set es. good e \<Longrightarrow> \<not> ok (A \<union> set es) \<Longrightarrow> fold_option add es s = None"
proof (induction es arbitrary: s A)
  case (Cons e es)
  show ?case
  proof (cases "ok (insert e A)")
    case True
    then obtain s' where s': "add e s = Some s'" "stands s' (insert e A)"
      using add_ok Cons.prems by force
    have "fold_option add es s' = None"
      by (rule Cons.IH [OF s'(2) True]) (use Cons.prems in simp_all)
    with s'(1) show ?thesis by simp
  next
    case False
    then have "add e s = None" using add_bad Cons.prems by simp
    then show ?thesis by simp
  qed
qed simp

lemma loop_iff:
  "stands s A \<Longrightarrow> ok A \<Longrightarrow> \<forall>e \<in> set es. good e \<Longrightarrow>
     (\<exists>s'. fold_option add es s = Some s') \<longleftrightarrow> ok (A \<union> set es)"
  using loop_ok loop_bad by (metis option.distinct(1))

end

section \<open>Receipts, sequence owners and envelopes\<close>

lemma graph_upd:
  assumes "single_valued (insert (k, v) (Map.graph (fmlookup m)))"
  shows "Map.graph (fmlookup (fmupd k v m)) = insert (k, v) (Map.graph (fmlookup m))"
  using assms by (auto simp: graph_def single_valued_def split: if_splits)

lemma single_valued_insert_graph:
  "single_valued (insert (k, v) (Map.graph (fmlookup m))) \<longleftrightarrow> (\<forall>w \<in> set_option (fmlookup m k). w = v)"
  by (auto simp: graph_def single_valued_def)

definition standing_receipts :: "history_check \<Rightarrow> history_check \<Rightarrow> (string \<times> string) set \<Rightarrow> bool" where
  "standing_receipts frame h R \<longleftrightarrow> Map.graph (fmlookup (hc_receipts h)) = R \<and> h\<lparr>hc_receipts := fmempty\<rparr> = frame"

interpretation receipts: accumulator add_receipt "standing_receipts frame" single_valued "\<lambda>_. True" for frame
proof
  fix h R and e :: "string \<times> string"
  assume s: "standing_receipts frame h R"
  obtain i d where e: "e = (i, d)" by (cases e)
  have "single_valued (insert e R) \<longleftrightarrow> (\<forall>w \<in> set_option (fmlookup (hc_receipts h) i). w = d)"
    using s single_valued_insert_graph [of i d "hc_receipts h"] by (simp add: e standing_receipts_def)
  then show "single_valued (insert e R) \<Longrightarrow> \<exists>h'. add_receipt e h = Some h' \<and> standing_receipts frame h' (insert e R)"
    "\<not> single_valued (insert e R) \<Longrightarrow> add_receipt e h = None"
    using s graph_upd [of i d "hc_receipts h"]
    by (auto simp: add_receipt_def e standing_receipts_def bind_require_None)
qed (rule single_valued_subset)

definition standing_owners :: "history_check \<Rightarrow> history_check \<Rightarrow> ((string \<times> int) \<times> string) set \<Rightarrow> bool" where
  "standing_owners frame h O' \<longleftrightarrow> Map.graph (fmlookup (hc_sequence_owners h)) = O'
     \<and> Map.graph (fmlookup (hc_operation_sequences h)) = O'\<inverse>
     \<and> h\<lparr>hc_sequence_owners := fmempty, hc_operation_sequences := fmempty\<rparr> = frame"

definition one_to_one :: "('a \<times> 'b) set \<Rightarrow> bool" where
  "one_to_one R \<longleftrightarrow> single_valued R \<and> single_valued (R\<inverse>)"

interpretation owners: accumulator add_sequence_owner "standing_owners frame" one_to_one "\<lambda>_. True" for frame
proof
  fix h R and e :: "(string \<times> int) \<times> string"
  assume s: "standing_owners frame h R"
  obtain k i where e: "e = (k, i)" by (cases e) auto
  have g: "Map.graph (fmlookup (hc_sequence_owners h)) = R" "Map.graph (fmlookup (hc_operation_sequences h)) = R\<inverse>"
    using s by (simp_all add: standing_owners_def)
  have c: "(insert (k, i) R)\<inverse> = insert (i, k) (R\<inverse>)" by auto
  have ok: "one_to_one (insert e R) \<longleftrightarrow> (\<forall>w \<in> set_option (fmlookup (hc_sequence_owners h) k). w = i)
      \<and> (\<forall>w \<in> set_option (fmlookup (hc_operation_sequences h) i). w = k)"
    using single_valued_insert_graph [of k i "hc_sequence_owners h"]
      single_valued_insert_graph [of i k "hc_operation_sequences h"]
    by (simp only: one_to_one_def e c g)
  show "one_to_one (insert e R) \<Longrightarrow> \<exists>h'. add_sequence_owner e h = Some h' \<and> standing_owners frame h' (insert e R)"
  proof -
    assume o: "one_to_one (insert e R)"
    then have sv: "single_valued (insert (k, i) (Map.graph (fmlookup (hc_sequence_owners h))))"
      "single_valued (insert (i, k) (Map.graph (fmlookup (hc_operation_sequences h))))"
      by (simp_all only: one_to_one_def e c g)
    show ?thesis
      using o [unfolded ok] graph_upd [OF sv(1)] graph_upd [OF sv(2)] s
      by (auto simp: add_sequence_owner_def e standing_owners_def)
  qed
  show "\<not> one_to_one (insert e R) \<Longrightarrow> add_sequence_owner e h = None"
    unfolding ok by (auto simp: add_sequence_owner_def e bind_require_None)
qed (unfold one_to_one_def single_valued_def, blast)

definition revision_key :: "envelope \<Rightarrow> string \<times> string" where
  "revision_key e = (object_id e, revision e)"

definition lists_envelopes :: "(string \<times> string, string) fmap \<Rightarrow> (string \<times> string, string option) fmap
    \<Rightarrow> envelope set \<Rightarrow> bool" where
  "lists_envelopes values parents E \<longleftrightarrow>
     (\<forall>k v. fmlookup values k = Some v
        \<longleftrightarrow> (\<exists>e \<in> E. revision_key e = k \<and> canonical_json (envelope_to_dict e) = v))
     \<and> (\<forall>k p. fmlookup parents k = Some p \<longleftrightarrow> (\<exists>e \<in> E. revision_key e = k \<and> parent_revision e = p))"

definition standing_envelopes :: "history_check \<Rightarrow> history_check \<Rightarrow> envelope set \<Rightarrow> bool" where
  "standing_envelopes frame h E \<longleftrightarrow> lists_envelopes (hc_revision_values h) (hc_revision_parents h) E
     \<and> h\<lparr>hc_revision_values := fmempty, hc_revision_parents := fmempty\<rparr> = frame"

definition distinct_revisions :: "envelope set \<Rightarrow> bool" where
  "distinct_revisions E \<longleftrightarrow> (\<forall>e \<in> E. parent_revision e \<noteq> Some (revision e)) \<and> inj_on revision_key E"

lemma add_envelope_eq:
  "add_envelope e h = do {
     require (parent_revision e \<noteq> Some (revision e));
     require (\<forall>known \<in> set_option (fmlookup (hc_revision_values h) (revision_key e)).
       known = canonical_json (envelope_to_dict e));
     Some (h\<lparr>hc_revision_values := fmupd (revision_key e) (canonical_json (envelope_to_dict e)) (hc_revision_values h),
       hc_revision_parents := fmupd (revision_key e) (parent_revision e) (hc_revision_parents h)\<rparr>) }"
  by (simp add: add_envelope_def Let_def revision_key_def)

interpretation envelopes: accumulator add_envelope "standing_envelopes frame" distinct_revisions "\<lambda>_. True" for frame
proof
  fix h E and e :: envelope
  assume s: "standing_envelopes frame h E" and d: "distinct_revisions E"
  have v: "fmlookup (hc_revision_values h) k = Some v
      \<longleftrightarrow> (\<exists>f \<in> E. revision_key f = k \<and> canonical_json (envelope_to_dict f) = v)" for k v
    using s unfolding standing_envelopes_def lists_envelopes_def by blast
  have p: "fmlookup (hc_revision_parents h) k = Some q \<longleftrightarrow> (\<exists>f \<in> E. revision_key f = k \<and> parent_revision f = q)" for k q
    using s unfolding standing_envelopes_def lists_envelopes_def by blast
  have known: "(\<forall>known \<in> set_option (fmlookup (hc_revision_values h) (revision_key e)).
      known = canonical_json (envelope_to_dict e)) \<longleftrightarrow> (\<forall>f \<in> E. revision_key f = revision_key e \<longrightarrow> f = e)"
    unfolding Ball_def elem_set v by (metis envelope_canonical_inject)
  have ok: "distinct_revisions (insert e E) \<longleftrightarrow> parent_revision e \<noteq> Some (revision e)
      \<and> (\<forall>f \<in> E. revision_key f = revision_key e \<longrightarrow> f = e)"
    using d by (auto simp: distinct_revisions_def inj_on_def)
  show "distinct_revisions (insert e E) \<Longrightarrow> \<exists>h'. add_envelope e h = Some h' \<and> standing_envelopes frame h' (insert e E)"
  proof -
    assume o: "distinct_revisions (insert e E)"
    let ?h = "h\<lparr>hc_revision_values := fmupd (revision_key e) (canonical_json (envelope_to_dict e)) (hc_revision_values h),
       hc_revision_parents := fmupd (revision_key e) (parent_revision e) (hc_revision_parents h)\<rparr>"
    have "add_envelope e h = Some ?h" using o unfolding add_envelope_eq ok known by simp
    moreover have "standing_envelopes frame ?h (insert e E)"
      using o s unfolding standing_envelopes_def lists_envelopes_def ok by (auto simp: v p)
    ultimately show ?thesis by blast
  qed
  show "\<not> distinct_revisions (insert e E) \<Longrightarrow> add_envelope e h = None"
    unfolding ok add_envelope_eq known by (auto simp: bind_require_None)
qed (auto simp: distinct_revisions_def intro: inj_on_subset)

section \<open>What a check of operations and snapshots stands for\<close>

definition receipt_pairs :: "operation set \<Rightarrow> snapshot set \<Rightarrow> (string \<times> string) set" where
  "receipt_pairs X S = (\<lambda>x. (operation_id x, fingerprint x)) ` X \<union> (\<Union>s \<in> S. set (items (snapshot_fingerprints s)))"

definition owner_pairs :: "operation set \<Rightarrow> snapshot set \<Rightarrow> ((string \<times> int) \<times> string) set" where
  "owner_pairs X S = (\<lambda>x. ((author_device_id x, author_sequence x), operation_id x)) ` X
     \<union> (\<Union>s \<in> S. set (items (snapshot_owners s)))"

definition known_envelopes :: "operation set \<Rightarrow> snapshot set \<Rightarrow> envelope set" where
  "known_envelopes X S = op_envelope ` X \<union> (\<Union>s \<in> S. set (snapshot_records s))"

lemmas known_sets = receipt_pairs_def owner_pairs_def known_envelopes_def

text \<open>No identifier with two fingerprints, no sequence number with two operations, no operation
  with two sequence numbers, no revision with two envelopes, none that is its own parent.\<close>

definition coherent :: "operation set \<Rightarrow> snapshot set \<Rightarrow> bool" where
  "coherent X S \<longleftrightarrow> single_valued (receipt_pairs X S) \<and> one_to_one (owner_pairs X S)
     \<and> distinct_revisions (known_envelopes X S)"

lemma coherent_mono:
  assumes "coherent X S" "X' \<subseteq> X" "S' \<subseteq> S"
  shows "coherent X' S'"
proof -
  have "receipt_pairs X' S' \<subseteq> receipt_pairs X S" "owner_pairs X' S' \<subseteq> owner_pairs X S"
    "known_envelopes X' S' \<subseteq> known_envelopes X S"
    using assms(2,3) unfolding known_sets by blast+
  then show ?thesis
    using assms(1) receipts.ok_mono owners.ok_mono envelopes.ok_mono unfolding coherent_def by blast
qed

definition standing :: "history_check \<Rightarrow> operation set \<Rightarrow> snapshot set \<Rightarrow> bool" where
  "standing h X S \<longleftrightarrow>
     Map.graph (fmlookup (hc_receipts h)) = receipt_pairs X S
     \<and> Map.graph (fmlookup (hc_sequence_owners h)) = owner_pairs X S
     \<and> Map.graph (fmlookup (hc_operation_sequences h)) = (owner_pairs X S)\<inverse>
     \<and> lists_envelopes (hc_revision_values h) (hc_revision_parents h) (known_envelopes X S)
     \<and> (\<forall>d m. fmlookup (hc_snapshot_sequences h) d = Some m \<longrightarrow> (\<exists>s \<in> S. fmlookup (snapshot_sequences s) d = Some m))"

lemma standing_empty: "standing empty_check {} {}"
  by (simp add: standing_def lists_envelopes_def known_sets empty_check_def graph_def)

lemma coherent_empty: "coherent {} {}"
  by (simp add: coherent_def known_sets one_to_one_def distinct_revisions_def single_valued_def)

text \<open>The frames: each loop changes the fields of its own component only.\<close>

lemma receipts_frame:
  assumes "standing_receipts (h\<lparr>hc_receipts := fmempty\<rparr>) h' R"
  shows "h' = h\<lparr>hc_receipts := hc_receipts h'\<rparr>"
  using assms by (cases h; cases h') (simp add: standing_receipts_def)

lemma owners_frame:
  assumes "standing_owners (h\<lparr>hc_sequence_owners := fmempty, hc_operation_sequences := fmempty\<rparr>) h' R"
  shows "h' = h\<lparr>hc_sequence_owners := hc_sequence_owners h', hc_operation_sequences := hc_operation_sequences h'\<rparr>"
  using assms by (cases h; cases h') (simp add: standing_owners_def)

lemma envelopes_frame:
  assumes "standing_envelopes (h\<lparr>hc_revision_values := fmempty, hc_revision_parents := fmempty\<rparr>) h' R"
  shows "h' = h\<lparr>hc_revision_values := hc_revision_values h', hc_revision_parents := hc_revision_parents h'\<rparr>"
  using assms by (cases h; cases h') (simp add: standing_envelopes_def)

lemma standing_own_frames:
  "standing_receipts (h\<lparr>hc_receipts := fmempty\<rparr>) h R \<longleftrightarrow> Map.graph (fmlookup (hc_receipts h)) = R"
  "standing_owners (h\<lparr>hc_sequence_owners := fmempty, hc_operation_sequences := fmempty\<rparr>) h O'
     \<longleftrightarrow> Map.graph (fmlookup (hc_sequence_owners h)) = O' \<and> Map.graph (fmlookup (hc_operation_sequences h)) = O'\<inverse>"
  "standing_envelopes (h\<lparr>hc_revision_values := fmempty, hc_revision_parents := fmempty\<rparr>) h E
     \<longleftrightarrow> lists_envelopes (hc_revision_values h) (hc_revision_parents h) E"
  by (auto simp: standing_receipts_def standing_owners_def standing_envelopes_def)

lemma fold_add_sequence:
  assumes "\<forall>(d, n) \<in> set es. 0 \<le> n"
  shows "\<exists>q. fold add_sequence es h = h\<lparr>hc_snapshot_sequences := q\<rparr>
     \<and> (\<forall>d m. fmlookup q d = Some m \<longrightarrow> fmlookup (hc_snapshot_sequences h) d = Some m \<or> (d, m) \<in> set es)"
  using assms
proof (induction es arbitrary: h)
  case Nil
  show ?case by (intro exI [of _ "hc_snapshot_sequences h"]) simp
next
  case (Cons e es)
  obtain dev n where e: "e = (dev, n)" by (cases e)
  have n: "0 \<le> n" using Cons.prems e by simp
  let ?h = "add_sequence e h"
  obtain q where q: "fold add_sequence es ?h = ?h\<lparr>hc_snapshot_sequences := q\<rparr>"
    "\<forall>d m. fmlookup q d = Some m \<longrightarrow> fmlookup (hc_snapshot_sequences ?h) d = Some m \<or> (d, m) \<in> set es"
    using Cons by fastforce
  have "fmlookup (hc_snapshot_sequences ?h) d = Some m \<Longrightarrow>
      fmlookup (hc_snapshot_sequences h) d = Some m \<or> (d, m) = e" for d m
    using n by (auto simp: add_sequence_def e max_def split: if_splits option.splits)
  then have "\<forall>d m. fmlookup q d = Some m \<longrightarrow> fmlookup (hc_snapshot_sequences h) d = Some m \<or> (d, m) \<in> set (e # es)"
    using q(2) by auto
  moreover have "fold add_sequence (e # es) h = h\<lparr>hc_snapshot_sequences := q\<rparr>"
    using q(1) by (simp add: add_sequence_def e)
  ultimately show ?case by blast
qed

text \<open>The three loops, with what they change written out.\<close>

lemma receipts_loop:
  assumes "Map.graph (fmlookup (hc_receipts h)) = R" "single_valued R"
  shows "if single_valued (R \<union> set es)
    then \<exists>m. fold_option add_receipt es h = Some (h\<lparr>hc_receipts := m\<rparr>) \<and> Map.graph (fmlookup m) = R \<union> set es
    else fold_option add_receipt es h = None"
proof -
  have s: "standing_receipts (h\<lparr>hc_receipts := fmempty\<rparr>) h R" using assms(1) by (simp add: standing_own_frames)
  show ?thesis
  proof (cases "single_valued (R \<union> set es)")
    case True
    then obtain h' where h': "fold_option add_receipt es h = Some h'"
      "standing_receipts (h\<lparr>hc_receipts := fmempty\<rparr>) h' (R \<union> set es)"
      using receipts.loop_ok [OF s] by blast
    moreover have "Map.graph (fmlookup (hc_receipts h')) = R \<union> set es"
      using h'(2) by (simp add: standing_receipts_def)
    ultimately show ?thesis using True receipts_frame [OF h'(2)] by metis
  qed (use receipts.loop_bad [OF s assms(2)] in simp)
qed

lemma owners_loop:
  assumes "Map.graph (fmlookup (hc_sequence_owners h)) = R" "Map.graph (fmlookup (hc_operation_sequences h)) = R\<inverse>"
    and "one_to_one R"
  shows "if one_to_one (R \<union> set es)
    then \<exists>m m'. fold_option add_sequence_owner es h = Some (h\<lparr>hc_sequence_owners := m, hc_operation_sequences := m'\<rparr>)
      \<and> Map.graph (fmlookup m) = R \<union> set es \<and> Map.graph (fmlookup m') = (R \<union> set es)\<inverse>
    else fold_option add_sequence_owner es h = None"
proof -
  let ?f = "h\<lparr>hc_sequence_owners := fmempty, hc_operation_sequences := fmempty\<rparr>"
  have s: "standing_owners ?f h R" using assms(1,2) by (simp add: standing_own_frames)
  show ?thesis
  proof (cases "one_to_one (R \<union> set es)")
    case True
    then obtain h' where h': "fold_option add_sequence_owner es h = Some h'" "standing_owners ?f h' (R \<union> set es)"
      using owners.loop_ok [OF s] by blast
    moreover have "Map.graph (fmlookup (hc_sequence_owners h')) = R \<union> set es"
      "Map.graph (fmlookup (hc_operation_sequences h')) = (R \<union> set es)\<inverse>"
      using h'(2) by (simp_all add: standing_owners_def)
    ultimately show ?thesis using True owners_frame [OF h'(2)] by metis
  qed (use owners.loop_bad [OF s assms(3)] in simp)
qed

lemma envelopes_loop:
  assumes "lists_envelopes (hc_revision_values h) (hc_revision_parents h) E" "distinct_revisions E"
  shows "if distinct_revisions (E \<union> set es)
    then \<exists>m m'. fold_option add_envelope es h = Some (h\<lparr>hc_revision_values := m, hc_revision_parents := m'\<rparr>)
      \<and> lists_envelopes m m' (E \<union> set es)
    else fold_option add_envelope es h = None"
proof -
  let ?f = "h\<lparr>hc_revision_values := fmempty, hc_revision_parents := fmempty\<rparr>"
  have s: "standing_envelopes ?f h E" using assms(1) by (simp add: standing_own_frames)
  show ?thesis
  proof (cases "distinct_revisions (E \<union> set es)")
    case True
    then obtain h' where h': "fold_option add_envelope es h = Some h'" "standing_envelopes ?f h' (E \<union> set es)"
      using envelopes.loop_ok [OF s] by blast
    moreover have "lists_envelopes (hc_revision_values h') (hc_revision_parents h') (E \<union> set es)"
      using h'(2) by (simp add: standing_envelopes_def)
    ultimately show ?thesis using True envelopes_frame [OF h'(2)] by metis
  qed (use envelopes.loop_bad [OF s assms(2)] in simp)
qed

lemma known_insert:
  "receipt_pairs X (insert s S) = receipt_pairs X S \<union> set (items (snapshot_fingerprints s))"
  "owner_pairs X (insert s S) = owner_pairs X S \<union> set (items (snapshot_owners s))"
  "known_envelopes X (insert s S) = known_envelopes X S \<union> set (snapshot_records s)"
  "receipt_pairs (insert x X) S = receipt_pairs X S \<union> set [(operation_id x, fingerprint x)]"
  "owner_pairs (insert x X) S = owner_pairs X S \<union> set [((author_device_id x, author_sequence x), operation_id x)]"
  "known_envelopes (insert x X) S = known_envelopes X S \<union> set [op_envelope x]"
  unfolding known_sets by auto

lemma check_snapshot_step:
  assumes st: "standing h X S" and c: "coherent X S" and v: "sound_snapshot s"
  shows "if coherent X (insert s S)
    then \<exists>h'. check_snapshot s h = Some h' \<and> standing h' X (insert s S) else check_snapshot s h = None"
proof -
  note c = c [unfolded coherent_def] and st = st [unfolded standing_def]
  note R = receipts_loop [of h "receipt_pairs X S" "items (snapshot_fingerprints s)", folded known_insert]
  show ?thesis
  proof (cases "single_valued (receipt_pairs X (insert s S))")
    case False
    then show ?thesis using R st c by (simp add: check_snapshot_def coherent_def)
  next
    case r: True
    then obtain m where m: "fold_option add_receipt (items (snapshot_fingerprints s)) h = Some (h\<lparr>hc_receipts := m\<rparr>)"
      "Map.graph (fmlookup m) = receipt_pairs X (insert s S)"
      using R st c by auto
    have "\<forall>(d, n) \<in> set (items (snapshot_sequences s)). 0 \<le> n"
      using v by (force simp: set_items sound_snapshot_def valid_dict_def is_counter_def)
    then obtain q where q: "fold add_sequence (items (snapshot_sequences s)) (h\<lparr>hc_receipts := m\<rparr>)
        = h\<lparr>hc_receipts := m, hc_snapshot_sequences := q\<rparr>"
      "\<forall>d n. fmlookup q d = Some n \<longrightarrow>
         fmlookup (hc_snapshot_sequences h) d = Some n \<or> (d, n) \<in> set (items (snapshot_sequences s))"
      using fold_add_sequence [of "items (snapshot_sequences s)" "h\<lparr>hc_receipts := m\<rparr>"] by auto
    let ?h = "h\<lparr>hc_receipts := m, hc_snapshot_sequences := q\<rparr>"
    have sq: "\<forall>d n. fmlookup q d = Some n \<longrightarrow> (\<exists>t \<in> insert s S. fmlookup (snapshot_sequences t) d = Some n)"
      using q(2) st unfolding set_items by blast
    note W = owners_loop [of ?h "owner_pairs X S" "items (snapshot_owners s)", folded known_insert]
    show ?thesis
    proof (cases "one_to_one (owner_pairs X (insert s S))")
      case False
      then show ?thesis using W st c m q(1) by (simp add: check_snapshot_def coherent_def Let_def)
    next
      case o: True
      then obtain o1 o2 where w: "fold_option add_sequence_owner (items (snapshot_owners s)) ?h
          = Some (?h\<lparr>hc_sequence_owners := o1, hc_operation_sequences := o2\<rparr>)"
        "Map.graph (fmlookup o1) = owner_pairs X (insert s S)"
        "Map.graph (fmlookup o2) = (owner_pairs X (insert s S))\<inverse>"
        using W st c by auto
      note E = envelopes_loop [of "?h\<lparr>hc_sequence_owners := o1, hc_operation_sequences := o2\<rparr>"
          "known_envelopes X S" "snapshot_records s", folded known_insert]
      show ?thesis
      proof (cases "distinct_revisions (known_envelopes X (insert s S))")
        case False
        then show ?thesis using E st c m q(1) w by (simp add: check_snapshot_def coherent_def Let_def)
      next
        case e: True
        then obtain v1 v2 where "fold_option add_envelope (snapshot_records s)
            (?h\<lparr>hc_sequence_owners := o1, hc_operation_sequences := o2\<rparr>)
          = Some (?h\<lparr>hc_sequence_owners := o1, hc_operation_sequences := o2,
              hc_revision_values := v1, hc_revision_parents := v2\<rparr>)"
          "lists_envelopes v1 v2 (known_envelopes X (insert s S))"
          using E st c by auto
        then show ?thesis using m w q(1) sq r o e
          by (auto simp: check_snapshot_def Let_def standing_def coherent_def)
      qed
    qed
  qed
qed

text \<open>The comparison with the sequences of the snapshots never fails where they are sound: a
  number up to the last one of a snapshot has an owner in it, and its receipt is there.\<close>

lemma covered_has_receipt:
  assumes s: "s \<in> S" "sound_snapshot s" "fmlookup (snapshot_sequences s) (author_device_id x) = Some m"
    and x: "valid_operation x" "author_sequence x \<le> m"
    and o: "one_to_one (owner_pairs (insert x X) S)"
  shows "\<exists>d. (operation_id x, d) \<in> receipt_pairs X S"
proof -
  let ?k = "(author_device_id x, author_sequence x)"
  have "1 \<le> author_sequence x" using x(1) by (simp add: valid_operation_def is_counter_def)
  then have "?k |\<in>| fmdom (snapshot_owners s)"
    using s x(2) by (auto simp: sound_snapshot_def complete_owners_def)
  then obtain i where i: "fmlookup (snapshot_owners s) ?k = Some i" by (auto simp: fmlookup_dom_iff)
  then have "(?k, i) \<in> owner_pairs (insert x X) S" "(?k, operation_id x) \<in> owner_pairs (insert x X) S"
    using s(1) by (auto simp: owner_pairs_def set_items)
  then have "i = operation_id x" using o by (auto simp: one_to_one_def dest: single_valuedD)
  moreover have "i |\<in>| fmran (snapshot_owners s)" using i by (rule fmranI)
  ultimately have "operation_id x |\<in>| fmdom (snapshot_fingerprints s)"
    using s(2) by (simp add: sound_snapshot_def)
  then show ?thesis using s(1) by (auto simp: receipt_pairs_def set_items fmlookup_dom_iff)
qed

lemma fold_option_single: "fold_option f [x] s = f x s"
  by (cases "f x s") simp_all

lemma check_operation_step:
  assumes st: "standing h X S" and c: "coherent X S" and snd: "\<forall>s \<in> S. sound_snapshot s"
    and x: "valid_operation x"
  shows "if coherent (insert x X) S
    then \<exists>h'. check_operation x h = Some h' \<and> standing h' (insert x X) S else check_operation x h = None"
proof -
  note c = c [unfolded coherent_def] and st = st [unfolded standing_def]
  let ?k = "(author_device_id x, author_sequence x)"
  note R = receipts_loop [of h "receipt_pairs X S" "[(operation_id x, fingerprint x)]", folded known_insert,
      unfolded fold_option_single]
  show ?thesis
  proof (cases "single_valued (receipt_pairs (insert x X) S)")
    case False
    then have "add_receipt (operation_id x, fingerprint x) h = None" using R st c by simp
    then show ?thesis using False by (simp add: check_operation_def coherent_def)
  next
    case True
    then obtain m where m: "add_receipt (operation_id x, fingerprint x) h = Some (h\<lparr>hc_receipts := m\<rparr>)"
      "Map.graph (fmlookup m) = receipt_pairs (insert x X) S"
      using R st c by auto
    let ?h = "h\<lparr>hc_receipts := m\<rparr>"
    note W = owners_loop [of ?h "owner_pairs X S" "[(?k, operation_id x)]", folded known_insert, unfolded fold_option_single]
    show ?thesis
    proof (cases "one_to_one (owner_pairs (insert x X) S)")
      case False
      then have "add_sequence_owner (?k, operation_id x) ?h = None" using W st c by simp
      then show ?thesis using False m by (simp add: check_operation_def coherent_def Let_def)
    next
      case o: True
      then obtain o1 o2 where w: "add_sequence_owner (?k, operation_id x) ?h
          = Some (?h\<lparr>hc_sequence_owners := o1, hc_operation_sequences := o2\<rparr>)"
        "Map.graph (fmlookup o1) = owner_pairs (insert x X) S"
        "Map.graph (fmlookup o2) = (owner_pairs (insert x X) S)\<inverse>"
        using W st c by auto
      have covered: "fmlookup (hc_receipts h) (operation_id x) \<noteq> None"
        if sq: "fmlookup (hc_snapshot_sequences h) (author_device_id x) = Some q" and le: "author_sequence x \<le> q" for q
      proof -
        obtain s where s: "s \<in> S" "fmlookup (snapshot_sequences s) (author_device_id x) = Some q"
          using st sq by blast
        then obtain d where "(operation_id x, d) \<in> receipt_pairs X S"
          using covered_has_receipt [OF s(1) _ s(2) x le o] snd by blast
        then have "(operation_id x, d) \<in> Map.graph (fmlookup (hc_receipts h))" using st by blast
        then show ?thesis by (simp add: graph_def)
      qed
      have "1 \<le> author_sequence x" using x by (simp add: valid_operation_def is_counter_def)
      then have fence: "\<not> (fmlookup (hc_receipts h) (operation_id x) = None \<and> author_sequence x \<le>
          (case fmlookup (hc_snapshot_sequences h) (author_device_id x) of None \<Rightarrow> 0 | Some n \<Rightarrow> n))"
        using covered by (auto split: option.splits)
      note E = envelopes_loop [of "?h\<lparr>hc_sequence_owners := o1, hc_operation_sequences := o2\<rparr>"
          "known_envelopes X S" "[op_envelope x]", folded known_insert, unfolded fold_option_single]
      have run: "check_operation x h = add_envelope (op_envelope x)
          (?h\<lparr>hc_sequence_owners := o1, hc_operation_sequences := o2\<rparr>)"
        using m(1) w(1) fence by (simp add: check_operation_def Let_def)
      show ?thesis
      proof (cases "distinct_revisions (known_envelopes (insert x X) S)")
        case False
        then show ?thesis unfolding run using E st c by (simp add: coherent_def)
      next
        case d: True
        then obtain v1 v2 where "check_operation x h
          = Some (?h\<lparr>hc_sequence_owners := o1, hc_operation_sequences := o2,
              hc_revision_values := v1, hc_revision_parents := v2\<rparr>)"
          "lists_envelopes v1 v2 (known_envelopes (insert x X) S)"
          unfolding run using E st c by auto
        then show ?thesis using m w d o True st by (auto simp: standing_def coherent_def)
      qed
    qed
  qed
qed

definition standing_operations :: "snapshot set \<Rightarrow> history_check \<Rightarrow> operation set \<Rightarrow> bool" where
  "standing_operations S h X \<longleftrightarrow> standing h X S \<and> (\<forall>s \<in> S. sound_snapshot s)"

interpretation snapshots_loop: accumulator check_snapshot "\<lambda>h. standing h {}" "coherent {}" sound_snapshot
proof
  fix h S s
  assume h: "standing h {} S" "coherent {} S" "sound_snapshot s"
  show "coherent {} (insert s S) \<Longrightarrow> \<exists>h'. check_snapshot s h = Some h' \<and> standing h' {} (insert s S)"
    using check_snapshot_step [OF h] by simp
  show "\<not> coherent {} (insert s S) \<Longrightarrow> check_snapshot s h = None"
    using check_snapshot_step [OF h] by simp
qed (auto intro: coherent_mono)

interpretation operations_loop: accumulator check_operation "standing_operations S" "\<lambda>X. coherent X S" valid_operation
  for S
proof
  fix h X x
  assume h: "standing_operations S h X" "coherent X S" "valid_operation x"
  then have s: "standing h X S" "\<forall>s \<in> S. sound_snapshot s" by (simp_all add: standing_operations_def)
  show "coherent (insert x X) S \<Longrightarrow> \<exists>h'. check_operation x h = Some h' \<and> standing_operations S h' (insert x X)"
    using check_operation_step [OF s(1) h(2) s(2) h(3)] s(2) by (simp add: standing_operations_def)
  show "\<not> coherent (insert x X) S \<Longrightarrow> check_operation x h = None"
    using check_operation_step [OF s(1) h(2) s(2) h(3)] by simp
qed (auto intro: coherent_mono)

section \<open>Cycles among revisions\<close>

definition parent_links :: "(string \<times> string, string option) fmap \<Rightarrow> ((string \<times> string) \<times> (string \<times> string)) set" where
  "parent_links parents = {(k, l). \<exists>p. fmlookup parents k = Some (Some p) \<and> l = (fst k, p)}"

lemma parent_links_unique: "(k, l) \<in> parent_links parents \<Longrightarrow> (k, l') \<in> parent_links parents \<Longrightarrow> l = l'"
  by (auto simp: parent_links_def)

text \<open>A walk that starts on a cycle comes back.\<close>

lemma chain_on_cycle:
  "current = Some c \<Longrightarrow> (c, c) \<in> (parent_links parents)\<^sup>+ \<Longrightarrow> \<not> chain_ends parents seen current"
proof (induction parents seen current arbitrary: c rule: chain_ends.induct)
  case (2 parents seen current)
  obtain l where l: "(c, l) \<in> parent_links parents" "(l, c) \<in> (parent_links parents)\<^sup>*"
    using 2(3) by (meson tranclD)
  then obtain p where p: "fmlookup parents c = Some (Some p)" "l = (fst c, p)" by (auto simp: parent_links_def)
  have "(l, l) \<in> (parent_links parents)\<^sup>+" using l by (meson rtrancl_into_trancl1)
  moreover have c: "current = c" using 2(2) by simp
  ultimately have "c \<notin> seen \<Longrightarrow> \<not> chain_ends parents (insert c seen) (Some l)"
    using 2(1) [of "Some p" l] p by simp
  then have "\<not> chain_ends parents seen (Some c)" using p by (subst chain_ends.simps) simp
  then show ?case unfolding c .
qed simp

text \<open>A walk that comes back has found a cycle.\<close>

lemma chain_finds_cycle:
  "\<not> chain_ends parents seen current \<Longrightarrow> current = Some c \<Longrightarrow> \<forall>s \<in> seen. (s, c) \<in> (parent_links parents)\<^sup>+ \<Longrightarrow>
     \<exists>k. (k, k) \<in> (parent_links parents)\<^sup>+"
proof (induction parents seen current arbitrary: c rule: chain_ends.induct)
  case (2 parents seen current)
  have c: "current = c" using 2(3) by simp
  obtain parent where parent: "fmlookup parents c = Some parent"
    using 2(2) by (auto simp: c split: option.splits)
  show ?case
  proof (cases "c \<in> seen")
    case True
    then show ?thesis using 2(4) by blast
  next
    case False
    then have n: "\<not> chain_ends parents (insert c seen) (map_option (\<lambda>p. (fst c, p)) parent)"
      using 2(2) parent by (simp add: c)
    then obtain p where p: "parent = Some p" by (cases parent) auto
    have link: "(c, (fst c, p)) \<in> parent_links parents" using parent p by (simp add: parent_links_def)
    then have "\<forall>s \<in> insert c seen. (s, (fst c, p)) \<in> (parent_links parents)\<^sup>+"
      using 2(4) by (auto intro: trancl_into_trancl)
    then show ?thesis using 2(1) [of parent "(fst c, p)"] n parent p False by (simp add: c)
  qed
qed simp

theorem chains_end_iff:
  "list_all (\<lambda>start. chain_ends parents {} (Some start)) (map fst (items parents)) \<longleftrightarrow> acyclic (parent_links parents)"
proof
  assume h: "list_all (\<lambda>start. chain_ends parents {} (Some start)) (map fst (items parents))"
  show "acyclic (parent_links parents)"
  proof (rule acyclicI, intro allI notI)
    fix k assume k: "(k, k) \<in> (parent_links parents)\<^sup>+"
    then obtain l where "(k, l) \<in> parent_links parents" by (meson tranclD)
    then have "k \<in> set (map fst (items parents))" by (auto simp: parent_links_def dest!: fmdomI)
    then have "chain_ends parents {} (Some k)" using h by (simp add: list_all_iff)
    then show False using chain_on_cycle [OF refl k] by blast
  qed
next
  assume "acyclic (parent_links parents)"
  then have "chain_ends parents {} (Some k)" for k
    using chain_finds_cycle [OF _ refl, of parents "{}" k] unfolding acyclic_def by blast
  then show "list_all (\<lambda>start. chain_ends parents {} (Some start)) (map fst (items parents))"
    by (simp add: list_all_iff)
qed

section \<open>The check depends on the sets only\<close>

text \<open>The parents known from a set of envelopes.\<close>

definition revision_links :: "envelope set \<Rightarrow> ((string \<times> string) \<times> (string \<times> string)) set" where
  "revision_links E = {(revision_key e, (object_id e, p)) | e p. e \<in> E \<and> parent_revision e = Some p}"

lemma listed_links: "lists_envelopes values parents E \<Longrightarrow> parent_links parents = revision_links E"
  unfolding parent_links_def revision_links_def lists_envelopes_def
  by (fastforce simp: revision_key_def)

definition consistent :: "operation set \<Rightarrow> snapshot set \<Rightarrow> bool" where
  "consistent X S \<longleftrightarrow> coherent X S \<and> card (Domain (receipt_pairs X S)) \<le> MAXIMUM_QUEUE_OPERATIONS
     \<and> acyclic (revision_links (known_envelopes X S))"

lemma finite_receipts: "finite X \<Longrightarrow> finite S \<Longrightarrow> finite (receipt_pairs X S)"
  by (simp add: receipt_pairs_def)

lemma consistent_mono:
  assumes "consistent X S" "X' \<subseteq> X" "S' \<subseteq> S" "finite X" "finite S"
  shows "consistent X' S'"
proof -
  have sub: "receipt_pairs X' S' \<subseteq> receipt_pairs X S" "known_envelopes X' S' \<subseteq> known_envelopes X S"
    using assms(2,3) unfolding known_sets by blast+
  then have "card (Domain (receipt_pairs X' S')) \<le> card (Domain (receipt_pairs X S))"
    using assms(4,5) finite_receipts by (intro card_mono) (auto intro: finite_Domain)
  moreover have "revision_links (known_envelopes X' S') \<subseteq> revision_links (known_envelopes X S)"
    using sub(2) unfolding revision_links_def by blast
  ultimately show ?thesis
    using assms(1) coherent_mono [OF _ assms(2,3)] acyclic_subset unfolding consistent_def by force
qed

lemma graph_domain: "fset (fmdom m) = Domain (Map.graph (fmlookup m))"
  by (auto simp: graph_def Domain_iff fmdom.rep_eq dom_def)

lemma graph_inject: "Map.graph (fmlookup m) = Map.graph (fmlookup m') \<Longrightarrow> m = m'"
proof (rule fmap_ext)
  fix k
  assume g: "Map.graph (fmlookup m) = Map.graph (fmlookup m')"
  have "fmlookup m k = Some v \<longleftrightarrow> fmlookup m' k = Some v" for v
    using arg_cong [OF g, of "\<lambda>G. (k, v) \<in> G"] by (simp add: graph_def)
  then show "fmlookup m k = fmlookup m' k" by (metis not_None_eq)
qed

theorem validate_iff:
  assumes "\<forall>x \<in> set ops. valid_operation x" "\<forall>s \<in> set snaps. sound_snapshot s"
  shows "if consistent (set ops) (set snaps)
    then \<exists>m. validate_convergent_history ops snaps = Some m
      \<and> Map.graph (fmlookup m) = receipt_pairs (set ops) (set snaps)
    else validate_convergent_history ops snaps = None"
proof (cases "coherent {} (set snaps)")
  case False
  then have "\<not> consistent (set ops) (set snaps)" using coherent_mono by (auto simp: consistent_def)
  then show ?thesis
    using snapshots_loop.loop_bad [OF standing_empty coherent_empty assms(2)] False
    by (simp add: validate_convergent_history_def)
next
  case s: True
  then obtain h where h: "fold_option check_snapshot snaps empty_check = Some h" "standing h {} (set snaps)"
    using snapshots_loop.loop_ok [OF standing_empty assms(2)] by auto
  then have so: "standing_operations (set snaps) h {}" using assms(2) by (simp add: standing_operations_def)
  show ?thesis
  proof (cases "coherent (set ops) (set snaps)")
    case False
    then show ?thesis using operations_loop.loop_bad [OF so s assms(1)] h(1)
      by (simp add: validate_convergent_history_def consistent_def)
  next
    case True
    then obtain h' where h': "fold_option check_operation ops h = Some h'" "standing h' (set ops) (set snaps)"
      using operations_loop.loop_ok [OF so assms(1)] by (auto simp: standing_operations_def)
    have g: "Map.graph (fmlookup (hc_receipts h')) = receipt_pairs (set ops) (set snaps)"
      using h'(2) by (simp add: standing_def)
    have l: "parent_links (hc_revision_parents h') = revision_links (known_envelopes (set ops) (set snaps))"
      by (rule listed_links [of "hc_revision_values h'"]) (use h'(2) in \<open>simp add: standing_def\<close>)
    have "fcard (fmdom (hc_receipts h')) = card (Domain (receipt_pairs (set ops) (set snaps)))"
      by (simp add: fcard.rep_eq graph_domain g)
    then have "validate_convergent_history ops snaps =
        (if consistent (set ops) (set snaps) then Some (hc_receipts h') else None)"
      unfolding validate_convergent_history_def h(1) h'(1) Option.bind.bind_lunit chains_end_iff l
      using True by (auto simp: consistent_def require_def)
    then show ?thesis using g by auto
  qed
qed

end
