(* ===== verification/Replica.thy ===== *)
theory Replica
  imports HistoryCheck
begin

text \<open>
  The persisted state of a convergent replica: what is written is what is loaded, the state is
  determined by its sets of operations, snapshots and pending identifiers, and a set of
  operations can be delivered in any order.
\<close>

section \<open>The persisted replica\<close>

definition valid_convergent :: "string \<Rightarrow> string \<Rightarrow> convergent_state \<Rightarrow> bool" where
  "valid_convergent key cid s \<longleftrightarrow> is_identifier cid
     \<and> (\<forall>x \<in> set (cr_operations s). valid_operation x)
     \<and> sorted (map operation_id (cr_operations s)) \<and> distinct (map operation_id (cr_operations s))
     \<and> (\<forall>t \<in> set (cr_snapshots s). valid_snapshot key t \<and> collection_id t = cid)
     \<and> sorted (map canonical_payload_sha256 (cr_snapshots s))
     \<and> distinct (map canonical_payload_sha256 (cr_snapshots s))
     \<and> length (cr_snapshots s) \<le> MAXIMUM_QUEUE_OPERATIONS
     \<and> sorted (cr_pending s) \<and> distinct (cr_pending s)
     \<and> set (cr_pending s) \<subseteq> operation_id ` set (cr_operations s)
     \<and> validate_convergent_history (cr_operations s) (cr_snapshots s) = Some (cr_receipts s)"

lemma valid_snapshot_sound: "valid_snapshot key s \<Longrightarrow> sound_snapshot s"
  by (simp add: valid_snapshot_def)

text \<open>The receipts bound the operations.\<close>

lemma consistent_bound:
  assumes "consistent (set ops) S" "distinct (map operation_id ops)" "finite S"
  shows "length ops \<le> MAXIMUM_QUEUE_OPERATIONS"
proof -
  have "operation_id ` set ops \<subseteq> Domain (receipt_pairs (set ops) S)" by (auto simp: receipt_pairs_def)
  then have "card (operation_id ` set ops) \<le> card (Domain (receipt_pairs (set ops) S))"
    using assms(3) by (intro card_mono finite_Domain finite_receipts) simp_all
  moreover have "card (operation_id ` set ops) = length ops"
    using distinct_card [OF assms(2)] by simp
  ultimately show ?thesis using assms(1) by (simp add: consistent_def)
qed

lemma valid_convergent_consistent:
  assumes "valid_convergent key cid s"
  shows "consistent (set (cr_operations s)) (set (cr_snapshots s))"
    and "Map.graph (fmlookup (cr_receipts s)) = receipt_pairs (set (cr_operations s)) (set (cr_snapshots s))"
proof -
  have v: "validate_convergent_history (cr_operations s) (cr_snapshots s) = Some (cr_receipts s)"
    "\<forall>x \<in> set (cr_operations s). valid_operation x" "\<forall>t \<in> set (cr_snapshots s). sound_snapshot t"
    using assms valid_snapshot_sound unfolding valid_convergent_def by blast+
  show "consistent (set (cr_operations s)) (set (cr_snapshots s))"
    using validate_iff [OF v(2,3)] v(1) by (auto split: if_splits)
  then show "Map.graph (fmlookup (cr_receipts s)) = receipt_pairs (set (cr_operations s)) (set (cr_snapshots s))"
    using validate_iff [OF v(2,3)] v(1) by auto
qed

lemma valid_convergent_bounds:
  assumes "valid_convergent key cid s"
  shows "length (cr_operations s) \<le> MAXIMUM_QUEUE_OPERATIONS" "length (cr_pending s) \<le> MAXIMUM_QUEUE_OPERATIONS"
proof -
  have d: "distinct (map operation_id (cr_operations s))" "distinct (cr_pending s)"
    "set (cr_pending s) \<subseteq> operation_id ` set (cr_operations s)"
    using assms by (simp_all add: valid_convergent_def)
  show l: "length (cr_operations s) \<le> MAXIMUM_QUEUE_OPERATIONS"
    by (rule consistent_bound [OF valid_convergent_consistent(1) [OF assms] d(1)]) simp
  have "length (cr_pending s) = card (set (cr_pending s))" using distinct_card [OF d(2)] by simp
  also have "\<dots> \<le> card (operation_id ` set (cr_operations s))" using d(3) by (intro card_mono) simp_all
  also have "\<dots> \<le> length (cr_operations s)" by (metis card_length length_map list.set_map)
  finally show "length (cr_pending s) \<le> MAXIMUM_QUEUE_OPERATIONS" using l by simp
qed

lemma sort_id: "sorted xs \<Longrightarrow> sort xs = xs"
  using sort_key_id [of "\<lambda>x. x" xs] by simp

lemma traverse_uuids: "\<forall>i \<in> set is. is_uuid i \<Longrightarrow> traverse canonical_uuid (map JStr is) = Some is"
  using traverse_map_Some [of "is" canonical_uuid JStr id] by simp

lemma convergent_from_to:
  assumes "valid_convergent key cid s"
  shows "convergent_from_state key cid (convergent_dict cid s) = Some s"
proof -
  note v = assms [unfolded valid_convergent_def]
  have "traverse (snapshot_from_dict key) (map snapshot_to_dict (cr_snapshots s)) = Some (cr_snapshots s)"
    by (rule snapshot_codec.list_dec_enc) (use v in blast)
  moreover have "traverse canonical_uuid (map JStr (cr_pending s)) = Some (cr_pending s)"
    by (rule traverse_uuids) (use v in \<open>auto simp: valid_operation_def\<close>)
  ultimately show ?thesis
    using v valid_convergent_bounds [OF assms]
    unfolding convergent_from_state_def convergent_dict_def
    by (simp add: exact_def convergent_keys_def operation_codec.list_dec_enc sort_key_id sort_id
        list_all_iff not_less)
qed

interpretation convergent_codec: roundtrip "valid_convergent key cid" "convergent_dict cid" "convergent_from_state key cid"
  for key cid by unfold_locales (rule convergent_from_to)

lemma convergent_load_written:
  "valid_convergent key cid s \<Longrightarrow> load_convergent key cid (Some (convergent_dict cid s)) = Some s"
  by (simp add: load_convergent_def convergent_from_to)

definition initial_replica :: convergent_state where
  "initial_replica = \<lparr>cr_operations = [], cr_snapshots = [], cr_pending = [], cr_receipts = fmempty\<rparr>"

lemma valid_initial_replica: "is_identifier cid \<Longrightarrow> valid_convergent key cid initial_replica"
  by (simp add: valid_convergent_def initial_replica_def validate_convergent_history_def empty_check_def fcard.rep_eq)

lemma convergent_default_eq: "convergent_default cid = convergent_dict cid initial_replica"
  by (simp add: convergent_default_def convergent_dict_def initial_replica_def)

lemma convergent_load_new: "is_identifier cid \<Longrightarrow> load_convergent key cid None = Some initial_replica"
  by (simp add: load_convergent_def convergent_default_eq convergent_from_to valid_initial_replica)

section \<open>Writing\<close>

definition replica_of :: "operation list \<Rightarrow> snapshot list \<Rightarrow> string list \<Rightarrow> convergent_state" where
  "replica_of ops snaps pending =
     \<lparr>cr_operations = sort_key operation_id ops, cr_snapshots = sort_key canonical_payload_sha256 snaps,
       cr_pending = sort pending,
       cr_receipts = the (validate_convergent_history (sort_key operation_id ops) (sort_key canonical_payload_sha256 snaps))\<rparr>"

text \<open>What a list of operations, snapshots and pending identifiers has to satisfy to be written.\<close>

definition writable :: "string \<Rightarrow> string \<Rightarrow> operation list \<Rightarrow> snapshot list \<Rightarrow> string list \<Rightarrow> bool" where
  "writable key cid ops snaps pending \<longleftrightarrow> is_identifier cid
     \<and> (\<forall>x \<in> set ops. valid_operation x) \<and> distinct (map operation_id ops)
     \<and> (\<forall>t \<in> set snaps. valid_snapshot key t \<and> collection_id t = cid)
     \<and> distinct (map canonical_payload_sha256 snaps) \<and> length snaps \<le> MAXIMUM_QUEUE_OPERATIONS
     \<and> distinct pending \<and> set pending \<subseteq> operation_id ` set ops"

lemma distinct_map_sort_key: "distinct (map f (sort_key g xs)) \<longleftrightarrow> distinct (map f xs)"
proof -
  have "mset (map f (sort_key g xs)) = mset (map f xs)" by simp
  then show ?thesis by (rule mset_eq_imp_distinct_iff)
qed

lemma replica_of_valid:
  assumes "writable key cid ops snaps pending" "consistent (set ops) (set snaps)"
  shows "valid_convergent key cid (replica_of ops snaps pending)"
proof -
  have w: "\<forall>x \<in> set ops. valid_operation x" "\<forall>t \<in> set snaps. sound_snapshot t"
    using assms(1) valid_snapshot_sound unfolding writable_def by blast+
  have "\<exists>m. validate_convergent_history (sort_key operation_id ops) (sort_key canonical_payload_sha256 snaps) = Some m"
    using validate_iff [of "sort_key operation_id ops" "sort_key canonical_payload_sha256 snaps"] w assms(2)
    by auto
  then show ?thesis using assms(1)
    by (auto simp: valid_convergent_def replica_of_def writable_def distinct_map_sort_key)
qed

lemma convergent_write_eq:
  assumes "writable key cid ops snaps pending"
  shows "convergent_write cid ops snaps pending =
    (if consistent (set ops) (set snaps) then store_write (convergent_dict cid (replica_of ops snaps pending)) else None)"
proof -
  have w: "\<forall>x \<in> set ops. valid_operation x" "\<forall>t \<in> set snaps. sound_snapshot t"
      "set pending \<subseteq> operation_id ` set ops"
    using assms valid_snapshot_sound unfolding writable_def by blast+
  show ?thesis
    using validate_iff [of "sort_key operation_id ops" "sort_key canonical_payload_sha256 snaps"] w
    by (auto simp: convergent_write_def replica_of_def Let_def split: if_splits)
qed

lemma valid_convergent_writable:
  "valid_convergent key cid s \<Longrightarrow> writable key cid (cr_operations s) (cr_snapshots s) (cr_pending s)"
  by (simp add: valid_convergent_def writable_def)

text \<open>A valid replica is determined by its sets.\<close>

lemma replica_of_cong:
  assumes "distinct (map operation_id ops)" "distinct (map operation_id ops')" "set ops = set ops'"
    and "distinct (map canonical_payload_sha256 snaps)" "distinct (map canonical_payload_sha256 snaps')" "set snaps = set snaps'"
    and "distinct pending" "distinct pending'" "set pending = set pending'"
  shows "replica_of ops snaps pending = replica_of ops' snaps' pending'"
proof -
  have "sort_key operation_id ops = sort_key operation_id ops'"
    by (rule sort_key_set_eq [OF assms(1-3)])
  moreover have "sort_key canonical_payload_sha256 snaps = sort_key canonical_payload_sha256 snaps'"
    by (rule sort_key_set_eq [OF assms(4-6)])
  moreover have "sort pending = sort pending'"
    using sort_key_set_eq [of "\<lambda>x. x" pending pending'] assms(7-9) by simp
  ultimately show ?thesis by (simp add: replica_of_def)
qed

lemma valid_convergent_replica_of:
  "valid_convergent key cid s \<Longrightarrow> replica_of (cr_operations s) (cr_snapshots s) (cr_pending s) = s"
  by (cases s) (simp add: valid_convergent_def replica_of_def sort_key_id sort_id)

lemma valid_convergent_unique:
  assumes "valid_convergent key cid s" "valid_convergent key' cid' s'"
    and "set (cr_operations s) = set (cr_operations s')" "set (cr_snapshots s) = set (cr_snapshots s')"
    and "set (cr_pending s) = set (cr_pending s')"
  shows "s = s'"
proof -
  have "replica_of (cr_operations s) (cr_snapshots s) (cr_pending s)
      = replica_of (cr_operations s') (cr_snapshots s') (cr_pending s')"
    by (rule replica_of_cong) (use assms in \<open>simp_all add: valid_convergent_def\<close>)
  then show ?thesis
    by (simp only: valid_convergent_replica_of [OF assms(1)] valid_convergent_replica_of [OF assms(2)])
qed

section \<open>The size of the file\<close>

text \<open>A replica with fewer operations, and otherwise the same, has no longer file.\<close>

lemma length_join_exact: "ss \<noteq> [] \<Longrightarrow> length (join sep ss) + length sep = sum_list (map (\<lambda>t. length t + length sep) ss)"
  by (induction sep ss rule: join.induct) auto

lemma length_dumps_list:
  "xs \<noteq> [] \<Longrightarrow> length (dumps (JList xs)) = 1 + sum_list (map (\<lambda>x. length (dumps x) + 1) xs)"
  using length_join_exact [of "map dumps xs" "'',''"] by (simp add: comp_def)

lemma length_dumps_obj:
  assumes "es \<noteq> []"
  shows "length (dumps (JObj es)) = 1 + sum_list (map (\<lambda>(k, j). length (quote k) + length (dumps j) + 2) es)"
proof -
  let ?es = "map (map_prod id dumps) es"
  let ?ss = "map (\<lambda>(k, t). quote k @ '':'' @ t) (sort_entries ?es)"
  have "mset (sort_entries ?es) = mset ?es" by (simp add: sort_entries_def)
  then have "?ss \<noteq> []" using assms by (metis Nil_is_map_conv mset_zero_iff)
  then have "length (join '','' ?ss) + 1 = sum_list (map (\<lambda>t. length t + 1) ?ss)"
    using length_join_exact [of ?ss "'',''"] by simp
  also have "\<dots> = sum_list (map (\<lambda>(k, t). length (quote k) + length t + 2) (sort_entries ?es))"
    by (simp add: comp_def case_prod_unfold)
  also have "\<dots> = sum_list (map (\<lambda>(k, j). length (quote k) + length (dumps j) + 2) es)"
    by (simp add: sum_list_sort_entries comp_def case_prod_unfold)
  finally show ?thesis by simp
qed

lemma sum_list_subset:
  fixes f :: "'a \<Rightarrow> nat"
  assumes "distinct xs" "set xs \<subseteq> set ys"
  shows "sum_list (map f xs) \<le> sum_list (map f ys)"
proof -
  have "sum_list (map f xs) = sum f (set xs)" by (rule sum_list_distinct_conv_sum_set [OF assms(1)])
  also have "\<dots> \<le> sum f (set (remdups ys))" by (rule sum_mono2) (use assms(2) in auto)
  also have "\<dots> = sum_list (map f (remdups ys))"
    by (rule sum_list_distinct_conv_sum_set [symmetric]) simp
  also have "\<dots> \<le> sum_list (map f ys)" by (induction ys) auto
  finally show ?thesis .
qed

lemma length_dumps_list_subset:
  assumes "distinct xs" "set xs \<subseteq> set ys"
  shows "length (dumps (JList (map f xs))) \<le> length (dumps (JList (map f ys)))"
proof (cases "xs = []")
  case False
  then have "ys \<noteq> []" using assms(2) by auto
  with False show ?thesis
    using sum_list_subset [OF assms, of "\<lambda>x. length (dumps (f x)) + 1"]
    by (simp add: length_dumps_list comp_def del: dumps.simps)
qed simp

lemma write_fits_mono:
  assumes "write_fits v" "0 < length (canonical_json w)" "length (canonical_json w) \<le> length (canonical_json v)"
  shows "write_fits w"
proof -
  have "(length (canonical_json w) + 16 + 2) div 3 \<le> (length (canonical_json v) + 16 + 2) div 3"
    using assms(3) by (intro div_le_mono) simp
  then show ?thesis using assms unfolding write_fits_def queue_file_length_def Let_def by linarith
qed

lemma convergent_fits_mono:
  assumes "write_fits (convergent_dict cid s')"
    and "valid_convergent key cid s" "set (cr_operations s) \<subseteq> set (cr_operations s')"
    and "cr_snapshots s = cr_snapshots s'" "cr_pending s = cr_pending s'"
  shows "write_fits (convergent_dict cid s)"
proof (rule write_fits_mono [OF assms(1)])
  show "0 < length (canonical_json (convergent_dict cid s))"
    unfolding convergent_dict_def by (rule dumps_obj_nonempty)
  have "distinct (cr_operations s)" using assms(2) by (auto simp: valid_convergent_def distinct_map)
  then show "length (canonical_json (convergent_dict cid s)) \<le> length (canonical_json (convergent_dict cid s'))"
    using length_dumps_list_subset [OF _ assms(3), of operation_to_dict]
    unfolding convergent_dict_def canonical_json_def
    by (simp add: length_dumps_obj assms(4,5) del: dumps.simps)
qed

section \<open>The calls\<close>

lemma receipts_domain: "Domain (receipt_pairs X S) = operation_id ` X \<union> (\<Union>t \<in> S. fset (fmdom (snapshot_fingerprints t)))"
  by (simp add: receipt_pairs_def Domain_fst image_Un image_UN image_image)

lemma receipts_known:
  assumes "valid_convergent key cid s"
  shows "fmlookup (cr_receipts s) i = None \<longleftrightarrow>
    i \<notin> operation_id ` set (cr_operations s) \<and> (\<forall>t \<in> set (cr_snapshots s). i |\<notin>| fmdom (snapshot_fingerprints t))"
proof -
  have "fmlookup (cr_receipts s) i = None \<longleftrightarrow> i \<notin> Domain (Map.graph (fmlookup (cr_receipts s)))"
    by (auto simp: graph_def Domain_iff)
  also have "\<dots> \<longleftrightarrow> i \<notin> Domain (receipt_pairs (set (cr_operations s)) (set (cr_snapshots s)))"
    by (simp add: valid_convergent_consistent(2) [OF assms])
  also have "\<dots> \<longleftrightarrow> i \<notin> operation_id ` set (cr_operations s)
      \<and> (\<forall>t \<in> set (cr_snapshots s). i |\<notin>| fmdom (snapshot_fingerprints t))"
    unfolding receipts_domain by blast
  finally show ?thesis .
qed

lemma ingest_new:
  assumes l: "load_convergent key cid st = Some s" and v: "valid_convergent key cid s"
    and x: "valid_operation x" and n: "fmlookup (cr_receipts s) (operation_id x) = None"
  shows "ingest_remote key cid st x =
    (if consistent (insert x (set (cr_operations s))) (set (cr_snapshots s))
     then map_option (Pair True) (store_write (convergent_dict cid (replica_of (cr_operations s @ [x]) (cr_snapshots s) (cr_pending s))))
     else None)"
proof -
  have w: "writable key cid (cr_operations s @ [x]) (cr_snapshots s) (cr_pending s)"
    using valid_convergent_writable [OF v] x n receipts_known [OF v] by (auto simp: writable_def)
  have "validated_operation x = Some x" using x by (simp add: validated_operation_iff)
  then show ?thesis using l n convergent_write_eq [OF w]
    by (simp add: ingest_remote_def store_write_def)
qed

lemma replica_of_sets [simp]:
  "set (cr_operations (replica_of ops snaps pending)) = set ops"
  "set (cr_snapshots (replica_of ops snaps pending)) = set snaps"
  "set (cr_pending (replica_of ops snaps pending)) = set pending"
  by (simp_all add: replica_of_def)

lemma fingerprint_receipt:
  assumes "valid_convergent key cid s" "x \<in> set (cr_operations s)"
  shows "fmlookup (cr_receipts s) (operation_id x) = Some (fingerprint x)"
proof -
  have "(operation_id x, fingerprint x) \<in> Map.graph (fmlookup (cr_receipts s))"
    unfolding valid_convergent_consistent(2) [OF assms(1)] using assms(2) by (simp add: receipt_pairs_def)
  then show ?thesis by (simp add: graph_def)
qed

text \<open>A call that stores an operation leaves the replica that has it in addition.\<close>

lemma ingest_SomeD:
  assumes l: "load_convergent key cid st = Some s" and v: "valid_convergent key cid s"
    and i: "ingest_remote key cid st x = Some (fresh, st')"
  shows "valid_operation x"
    and "fresh \<longleftrightarrow> fmlookup (cr_receipts s) (operation_id x) = None"
    and "\<not> fresh \<Longrightarrow> st' = st \<and> fmlookup (cr_receipts s) (operation_id x) = Some (fingerprint x)"
    and "fresh \<Longrightarrow> st' = Some (convergent_dict cid (replica_of (cr_operations s @ [x]) (cr_snapshots s) (cr_pending s)))
      \<and> valid_convergent key cid (replica_of (cr_operations s @ [x]) (cr_snapshots s) (cr_pending s))
      \<and> load_convergent key cid st' = Some (replica_of (cr_operations s @ [x]) (cr_snapshots s) (cr_pending s))"
    and "fresh \<Longrightarrow> write_fits (convergent_dict cid (replica_of (cr_operations s @ [x]) (cr_snapshots s) (cr_pending s)))"
proof -
  show x: "valid_operation x"
    using i validated_operation_iff [of x] by (auto simp: ingest_remote_def elim!: bind_SomeE)
  then have vx: "validated_operation x = Some x" by (simp add: validated_operation_iff)
  show f: "fresh \<longleftrightarrow> fmlookup (cr_receipts s) (operation_id x) = None"
    using i l vx by (auto simp: ingest_remote_def elim!: bind_SomeE split: option.splits if_splits)
  show "\<not> fresh \<Longrightarrow> st' = st \<and> fmlookup (cr_receipts s) (operation_id x) = Some (fingerprint x)"
    using i l vx by (auto simp: ingest_remote_def elim!: bind_SomeE split: option.splits if_splits)
  assume fresh
  then have n: "fmlookup (cr_receipts s) (operation_id x) = None" using f by simp
  let ?s = "replica_of (cr_operations s @ [x]) (cr_snapshots s) (cr_pending s)"
  have w: "writable key cid (cr_operations s @ [x]) (cr_snapshots s) (cr_pending s)"
    using valid_convergent_writable [OF v] x n receipts_known [OF v] by (auto simp: writable_def)
  have c: "consistent (insert x (set (cr_operations s))) (set (cr_snapshots s))"
    and e: "st' = Some (convergent_dict cid ?s)" and fits: "write_fits (convergent_dict cid ?s)"
    using i unfolding ingest_new [OF l v x n] by (auto simp: store_write_iff split: if_splits)
  show "write_fits (convergent_dict cid ?s)" by (rule fits)
  have "valid_convergent key cid ?s" by (rule replica_of_valid [OF w]) (use c in simp)
  with e show "st' = Some (convergent_dict cid ?s) \<and> valid_convergent key cid ?s
      \<and> load_convergent key cid st' = Some ?s"
    using convergent_load_written by blast
qed

lemma receipts_after:
  assumes "valid_convergent key cid s" "valid_convergent key cid s'"
    and "set (cr_operations s') = insert x (set (cr_operations s))" "set (cr_snapshots s') = set (cr_snapshots s)"
  shows "fmlookup (cr_receipts s') i =
    (if i = operation_id x then Some (fingerprint x) else fmlookup (cr_receipts s) i)"
proof -
  have g: "fmlookup (cr_receipts t) i = Some d \<longleftrightarrow> (i, d) \<in> receipt_pairs (set (cr_operations t)) (set (cr_snapshots t))"
    if "valid_convergent key cid t" for t d
    unfolding valid_convergent_consistent(2) [OF that, symmetric] by (simp add: graph_def)
  show ?thesis
  proof (cases "i = operation_id x")
    case True
    then show ?thesis using fingerprint_receipt [OF assms(2), of x] assms(3) by simp
  next
    case False
    then have "fmlookup (cr_receipts s') i = Some d \<longleftrightarrow> fmlookup (cr_receipts s) i = Some d" for d
      unfolding g [OF assms(1)] g [OF assms(2)] assms(3,4) by (auto simp: receipt_pairs_def)
    with False show ?thesis by (metis not_None_eq)
  qed
qed

section \<open>Delivery in any order\<close>

fun deliver :: "string \<Rightarrow> string \<Rightarrow> store \<Rightarrow> operation list \<Rightarrow> store option" where
  "deliver key cid st [] = Some st"
| "deliver key cid st (x # xs) = do { (fresh, st') \<leftarrow> ingest_remote key cid st x; deliver key cid st' xs }"

definition unknown :: "convergent_state \<Rightarrow> operation set \<Rightarrow> operation set" where
  "unknown s X = {x \<in> X. fmlookup (cr_receipts s) (operation_id x) = None}"

definition deliverable :: "convergent_state \<Rightarrow> operation set \<Rightarrow> bool" where
  "deliverable s X \<longleftrightarrow> (\<forall>x \<in> X. valid_operation x
       \<and> (\<forall>d \<in> set_option (fmlookup (cr_receipts s) (operation_id x)). d = fingerprint x))
     \<and> consistent (set (cr_operations s) \<union> unknown s X) (set (cr_snapshots s))"

text \<open>The replica after a delivery.\<close>

definition extends_by :: "string \<Rightarrow> string \<Rightarrow> store \<Rightarrow> convergent_state \<Rightarrow> operation set \<Rightarrow> store \<Rightarrow> bool" where
  "extends_by key cid st s X st' \<longleftrightarrow> (\<exists>s'. load_convergent key cid st' = Some s' \<and> valid_convergent key cid s'
     \<and> set (cr_operations s') = set (cr_operations s) \<union> X \<and> cr_snapshots s' = cr_snapshots s
     \<and> cr_pending s' = cr_pending s
     \<and> st' = (if X \<subseteq> set (cr_operations s) then st else Some (convergent_dict cid s'))
     \<and> (X \<subseteq> set (cr_operations s) \<or> write_fits (convergent_dict cid s')))"

lemma extends_by_unique:
  assumes "extends_by key cid st s X st1" "extends_by key cid st s X st2"
  shows "st1 = st2"
proof -
  obtain s1 where s1: "valid_convergent key cid s1" "set (cr_operations s1) = set (cr_operations s) \<union> X"
    "cr_snapshots s1 = cr_snapshots s" "cr_pending s1 = cr_pending s"
    "st1 = (if X \<subseteq> set (cr_operations s) then st else Some (convergent_dict cid s1))"
    using assms(1) unfolding extends_by_def by blast
  obtain s2 where s2: "valid_convergent key cid s2" "set (cr_operations s2) = set (cr_operations s) \<union> X"
    "cr_snapshots s2 = cr_snapshots s" "cr_pending s2 = cr_pending s"
    "st2 = (if X \<subseteq> set (cr_operations s) then st else Some (convergent_dict cid s2))"
    using assms(2) unfolding extends_by_def by blast
  have "s1 = s2" by (rule valid_convergent_unique [OF s1(1) s2(1)]) (simp_all add: s1 s2)
  with s1(5) s2(5) show ?thesis by simp
qed

lemma unknown_after:
  assumes v: "valid_convergent key cid s" "valid_convergent key cid s'"
    and s': "set (cr_operations s') = insert x (set (cr_operations s))" "set (cr_snapshots s') = set (cr_snapshots s)"
    and inj: "inj_on operation_id (insert x X)"
  shows "insert x (set (cr_operations s)) \<union> unknown s' X = set (cr_operations s) \<union> insert x (unknown s X)"
proof -
  have "z = x" if "z \<in> X" "operation_id z = operation_id x" for z
    using inj_onD [OF inj that(2)] that(1) by simp
  then show ?thesis unfolding unknown_def receipts_after [OF v s'] by auto
qed

lemma unknown_subset:
  assumes "valid_convergent key cid s" "x \<in> unknown s X"
  shows "x \<notin> set (cr_operations s)"
  using assms fingerprint_receipt [OF assms(1)] by (auto simp: unknown_def)

lemma deliver_extends:
  assumes "load_convergent key cid st = Some s" "valid_convergent key cid s"
    and "deliver key cid st xs = Some st'" "inj_on operation_id (set xs)"
  shows "extends_by key cid st s (unknown s (set xs)) st'"
  using assms
proof (induction xs arbitrary: st s)
  case Nil
  then show ?case by (auto simp: extends_by_def unknown_def)
next
  case (Cons x xs)
  obtain fresh st1 where i: "ingest_remote key cid st x = Some (fresh, st1)" "deliver key cid st1 xs = Some st'"
    using Cons.prems(3) by (auto elim!: bind_SomeE)
  note d = ingest_SomeD [OF Cons.prems(1,2) i(1)]
  show ?case
  proof (cases fresh)
    case False
    then have "unknown s (set (x # xs)) = unknown s (set xs)" using d(2) by (auto simp: unknown_def)
    then show ?thesis using Cons.IH [OF Cons.prems(1,2)] i(2) d(3) False Cons.prems(4) by simp
  next
    case True
    let ?s = "replica_of (cr_operations s @ [x]) (cr_snapshots s) (cr_pending s)"
    have l1: "load_convergent key cid st1 = Some ?s" and v1: "valid_convergent key cid ?s"
      and e1: "st1 = Some (convergent_dict cid ?s)" and w1: "write_fits (convergent_dict cid ?s)"
      using d(4,5) True by auto
    have f: "cr_snapshots ?s = cr_snapshots s" "cr_pending ?s = cr_pending s"
      using Cons.prems(2) by (simp_all add: replica_of_def valid_convergent_def sort_key_id sort_id)
    have "extends_by key cid st1 ?s (unknown ?s (set xs)) st'"
      by (rule Cons.IH [OF l1 v1 i(2)]) (use Cons.prems(4) in simp)
    then obtain s' where s': "load_convergent key cid st' = Some s'" "valid_convergent key cid s'"
      "set (cr_operations s') = set (cr_operations ?s) \<union> unknown ?s (set xs)"
      "cr_snapshots s' = cr_snapshots s" "cr_pending s' = cr_pending s"
      "st' = (if unknown ?s (set xs) \<subseteq> set (cr_operations ?s) then st1 else Some (convergent_dict cid s'))"
      "unknown ?s (set xs) \<subseteq> set (cr_operations ?s) \<or> write_fits (convergent_dict cid s')"
      unfolding extends_by_def f by blast
    have u: "unknown s (insert x (set xs)) = insert x (unknown s (set xs))"
      using d(2) True by (auto simp: unknown_def)
    have ops: "set (cr_operations s') = set (cr_operations s) \<union> unknown s (set (x # xs))"
      using s'(3) unknown_after [OF Cons.prems(2) v1, of x "set xs"] Cons.prems(4) by (simp add: u)
    have "s' = ?s" if "unknown ?s (set xs) \<subseteq> set (cr_operations ?s)"
      by (rule valid_convergent_unique [OF s'(2) v1]) (use s' f that in auto)
    then have "st' = Some (convergent_dict cid s')" "write_fits (convergent_dict cid s')"
      using s'(6,7) e1 w1 by (auto split: if_splits)
    moreover have "x \<notin> set (cr_operations s)"
      by (rule unknown_subset [OF Cons.prems(2), of x "{x}"]) (use d(2) True in \<open>simp add: unknown_def\<close>)
    ultimately show ?thesis using s' ops unfolding extends_by_def by (auto simp: u)
  qed
qed

lemma deliver_deliverable:
  assumes "load_convergent key cid st = Some s" "valid_convergent key cid s"
    and "deliver key cid st xs = Some st'" "inj_on operation_id (set xs)"
  shows "deliverable s (set xs)"
proof -
  obtain s' where s': "valid_convergent key cid s'" "set (cr_operations s') = set (cr_operations s) \<union> unknown s (set xs)"
    "cr_snapshots s' = cr_snapshots s"
    using deliver_extends [OF assms] unfolding extends_by_def by blast
  have "consistent (set (cr_operations s) \<union> unknown s (set xs)) (set (cr_snapshots s))"
    using valid_convergent_consistent(1) [OF s'(1)] by (simp add: s')
  moreover have "valid_operation x \<and> (\<forall>d \<in> set_option (fmlookup (cr_receipts s) (operation_id x)). d = fingerprint x)"
    if "x \<in> set xs" for x
    using assms that
  proof (induction xs arbitrary: st s)
    case (Cons y xs)
    obtain fresh st1 where i: "ingest_remote key cid st y = Some (fresh, st1)" "deliver key cid st1 xs = Some st'"
      using Cons.prems(3) by (auto elim!: bind_SomeE)
    note d = ingest_SomeD [OF Cons.prems(1,2) i(1)]
    show ?case
    proof (cases "x = y")
      case True
      then show ?thesis using d(1-3) by (cases fresh) auto
    next
      case False
      then have x: "x \<in> set xs" using Cons.prems(5) by simp
      have inj: "inj_on operation_id (set xs)" using Cons.prems(4) by simp
      show ?thesis
      proof (cases fresh)
        case False
        then show ?thesis using Cons.IH [OF Cons.prems(1,2) _ inj x] i(2) d(3) by simp
      next
        case fr: True
        let ?s = "replica_of (cr_operations s @ [y]) (cr_snapshots s) (cr_pending s)"
        have l1: "load_convergent key cid st1 = Some ?s" and v1: "valid_convergent key cid ?s"
          using d(4) fr by auto
        have "operation_id x \<noteq> operation_id y"
          using False x Cons.prems(4) inj_onD [of operation_id "set (y # xs)" x y] by auto
        then show ?thesis
          using Cons.IH [OF l1 v1 i(2) inj x] receipts_after [OF Cons.prems(2) v1, of y "operation_id x"] by simp
      qed
    qed
  qed simp
  ultimately show ?thesis by (simp add: deliverable_def)
qed

lemma deliver_total:
  assumes "load_convergent key cid st = Some s" "valid_convergent key cid s" "inj_on operation_id (set xs)"
    and "deliverable s (set xs)"
    and fits: "\<And>s'. unknown s (set xs) \<noteq> {} \<Longrightarrow> valid_convergent key cid s' \<Longrightarrow>
        set (cr_operations s') \<subseteq> set (cr_operations s) \<union> unknown s (set xs) \<Longrightarrow>
        cr_snapshots s' = cr_snapshots s \<Longrightarrow> cr_pending s' = cr_pending s \<Longrightarrow> write_fits (convergent_dict cid s')"
  shows "\<exists>st'. deliver key cid st xs = Some st'"
  using assms
proof (induction xs arbitrary: st s)
  case (Cons x xs)
  have x: "valid_operation x" using Cons.prems(4) by (simp add: deliverable_def)
  have vx: "validated_operation x = Some x" using x by (simp add: validated_operation_iff)
  have inj: "inj_on operation_id (set xs)" using Cons.prems(3) by simp
  show ?case
  proof (cases "fmlookup (cr_receipts s) (operation_id x)")
    case (Some d)
    then have "d = fingerprint x" using Cons.prems(4) by (simp add: deliverable_def)
    with Some have i: "ingest_remote key cid st x = Some (False, st)"
      using vx Cons.prems(1) by (simp add: ingest_remote_def)
    have u: "unknown s (set (x # xs)) = unknown s (set xs)" using Some by (auto simp: unknown_def)
    then have "deliverable s (set xs)" using Cons.prems(4) by (simp add: deliverable_def)
    then have "\<exists>st'. deliver key cid st xs = Some st'"
      by (rule Cons.IH [OF Cons.prems(1,2) inj]) (rule Cons.prems(5) [unfolded u])
    with i show ?thesis by simp
  next
    case None
    let ?s = "replica_of (cr_operations s @ [x]) (cr_snapshots s) (cr_pending s)"
    have u: "unknown s (insert x (set xs)) = insert x (unknown s (set xs))" using None by (auto simp: unknown_def)
    have c: "consistent (set (cr_operations s) \<union> insert x (unknown s (set xs))) (set (cr_snapshots s))"
      using Cons.prems(4) by (simp add: deliverable_def u)
    have c1: "consistent (insert x (set (cr_operations s))) (set (cr_snapshots s))"
      by (rule consistent_mono [OF c]) (auto simp: unknown_def)
    have w: "writable key cid (cr_operations s @ [x]) (cr_snapshots s) (cr_pending s)"
      using valid_convergent_writable [OF Cons.prems(2)] x None receipts_known [OF Cons.prems(2)]
      by (auto simp: writable_def)
    have v1: "valid_convergent key cid ?s" by (rule replica_of_valid [OF w]) (use c1 in simp)
    have f: "cr_snapshots ?s = cr_snapshots s" "cr_pending ?s = cr_pending s"
      using Cons.prems(2) by (simp_all add: replica_of_def valid_convergent_def sort_key_id sort_id)
    have ops: "set (cr_operations ?s) \<union> unknown ?s (set xs) = set (cr_operations s) \<union> unknown s (set (x # xs))"
      using unknown_after [OF Cons.prems(2) v1, of x "set xs"] Cons.prems(3) u by simp
    have "write_fits (convergent_dict cid ?s)" by (rule Cons.prems(5) [OF _ v1]) (use f ops u in auto)
    then have i: "ingest_remote key cid st x = Some (True, Some (convergent_dict cid ?s))"
      using ingest_new [OF Cons.prems(1,2) x None] c1 by (simp add: store_write_def)
    have "deliverable ?s (set xs)"
      unfolding deliverable_def
    proof (intro conjI ballI)
      fix y assume y: "y \<in> set xs"
      then show "valid_operation y" using Cons.prems(4) by (simp add: deliverable_def)
    next
      fix y d assume y: "y \<in> set xs" and d: "d \<in> set_option (fmlookup (cr_receipts ?s) (operation_id y))"
      then show "d = fingerprint y"
        using Cons.prems(3,4) receipts_after [OF Cons.prems(2) v1, of x "operation_id y"]
          inj_onD [OF Cons.prems(3), of x y]
        by (auto simp: deliverable_def split: if_splits)
    next
      show "consistent (set (cr_operations ?s) \<union> unknown ?s (set xs)) (set (cr_snapshots ?s))"
        using c unknown_after [OF Cons.prems(2) v1, of x "set xs"] Cons.prems(3) by simp
    qed
    then have "\<exists>st'. deliver key cid (Some (convergent_dict cid ?s)) xs = Some st'"
    proof (rule Cons.IH [OF convergent_load_written [OF v1] v1 inj])
      fix t assume t: "valid_convergent key cid t" "cr_snapshots t = cr_snapshots ?s" "cr_pending t = cr_pending ?s"
        "set (cr_operations t) \<subseteq> set (cr_operations ?s) \<union> unknown ?s (set xs)"
      show "write_fits (convergent_dict cid t)"
        by (rule Cons.prems(5) [OF _ t(1)]) (use t f ops u in auto)
    qed
    with i show ?thesis by simp
  qed
qed simp

text \<open>Every file on the way of one order is no longer than the last file of the other, which was
  written; so the other order goes through too.\<close>

lemma deliver_order:
  assumes "load_convergent key cid st = Some s" "valid_convergent key cid s"
    and "deliver key cid st xs = Some st'" "set ys = set xs" "inj_on operation_id (set xs)"
  shows "deliver key cid st ys = Some st'"
proof -
  have e: "extends_by key cid st s (unknown s (set xs)) st'" by (rule deliver_extends [OF assms(1-3,5)])
  have "deliverable s (set ys)" unfolding assms(4) by (rule deliver_deliverable [OF assms(1-3,5)])
  moreover have "write_fits (convergent_dict cid t)"
    if n: "unknown s (set ys) \<noteq> {}" and t: "valid_convergent key cid t" "cr_snapshots t = cr_snapshots s"
      "cr_pending t = cr_pending s" "set (cr_operations t) \<subseteq> set (cr_operations s) \<union> unknown s (set ys)" for t
  proof -
    obtain x where "x \<in> unknown s (set xs)" using n unfolding assms(4) by blast
    then have "\<not> unknown s (set xs) \<subseteq> set (cr_operations s)" using unknown_subset [OF assms(2)] by blast
    then obtain s' where s': "set (cr_operations s') = set (cr_operations s) \<union> unknown s (set xs)"
      "cr_snapshots s' = cr_snapshots s" "cr_pending s' = cr_pending s" "write_fits (convergent_dict cid s')"
      using e unfolding extends_by_def by blast
    show ?thesis by (rule convergent_fits_mono [OF s'(4) t(1)]) (use t s' assms(4) in simp_all)
  qed
  ultimately obtain st2 where st2: "deliver key cid st ys = Some st2"
    using deliver_total [OF assms(1,2), of ys] assms(4,5) by auto
  have "extends_by key cid st s (unknown s (set xs)) st2"
    using deliver_extends [OF assms(1,2) st2] assms(4,5) by simp
  then show ?thesis using st2 extends_by_unique [OF e] by blast
qed

end
