(* ===== verification/ReplicaCalls.thy ===== *)
theory ReplicaCalls
  imports Replica
begin

text \<open>
  The calls of a convergent replica on a valid state, and the invariant of every sequence of
  calls: what is on disk loads and is valid, or it was written by the merge of one snapshot more than a
  file may hold.
\<close>

section \<open>The other calls\<close>

lemma queue_local_SomeD:
  assumes l: "load_convergent key cid st = Some s" and v: "valid_convergent key cid s"
    and i: "queue_local key cid st x = Some (fresh, st')"
  shows "valid_operation x"
    and "fresh \<longleftrightarrow> fmlookup (cr_receipts s) (operation_id x) = None"
    and "\<not> fresh \<Longrightarrow> st' = st"
    and "fresh \<Longrightarrow> valid_convergent key cid (replica_of (cr_operations s @ [x]) (cr_snapshots s) (cr_pending s @ [operation_id x]))
      \<and> load_convergent key cid st' = Some (replica_of (cr_operations s @ [x]) (cr_snapshots s) (cr_pending s @ [operation_id x]))"
proof -
  show x: "valid_operation x"
    using i validated_operation_iff [of x] by (auto simp: queue_local_def elim!: bind_SomeE)
  then have vx: "validated_operation x = Some x" by (simp add: validated_operation_iff)
  show f: "fresh \<longleftrightarrow> fmlookup (cr_receipts s) (operation_id x) = None"
    using i l vx by (auto simp: queue_local_def elim!: bind_SomeE split: option.splits if_splits)
  show "\<not> fresh \<Longrightarrow> st' = st"
    using i l vx by (auto simp: queue_local_def elim!: bind_SomeE split: option.splits if_splits)
  assume fresh
  then have n: "fmlookup (cr_receipts s) (operation_id x) = None" using f by simp
  let ?s = "replica_of (cr_operations s @ [x]) (cr_snapshots s) (cr_pending s @ [operation_id x])"
  have w: "writable key cid (cr_operations s @ [x]) (cr_snapshots s) (cr_pending s @ [operation_id x])"
    using valid_convergent_writable [OF v] x n receipts_known [OF v] by (auto simp: writable_def)
  have "convergent_write cid (cr_operations s @ [x]) (cr_snapshots s) (cr_pending s @ [operation_id x]) = Some st'"
    using i l vx n \<open>fresh\<close> by (auto simp: queue_local_def elim!: bind_SomeE)
  then have c: "consistent (set (cr_operations s @ [x])) (set (cr_snapshots s))"
    and e: "st' = Some (convergent_dict cid ?s)"
    unfolding convergent_write_eq [OF w] by (auto simp: store_write_iff split: if_splits)
  have "valid_convergent key cid ?s" by (rule replica_of_valid [OF w c])
  with e show "valid_convergent key cid ?s \<and> load_convergent key cid st' = Some ?s"
    using convergent_load_written by blast
qed

text \<open>What \<open>merge_snapshot\<close> stores of a well-formed snapshot is the snapshot with its digest taken
  over its own serialisation, and that one is valid.\<close>

lemma verified_snapshot:
  assumes "sound_snapshot s" "snapshot_from_dict key (snapshot_to_dict s) = Some v"
  shows "valid_snapshot key v" "v = s\<lparr>canonical_payload_sha256 := sha256_hex (canonical_json (payload_of s))\<rparr>"
proof -
  let ?v = "s\<lparr>canonical_payload_sha256 := sha256_hex (canonical_json (payload_of s))\<rparr>"
  have d: "snapshot_to_dict ?v = snapshot_to_dict s" "payload_of ?v = payload_of s"
    by (simp_all add: snapshot_to_dict_def payload_of_def)
  have tag: "authentication_tag_b64 s = b64encode (hmac_sha256 key (canonical_json (payload_of s)))
      \<and> length key = 32"
    using assms(2)
  proof (rule snapshot_from_dictE)
    fix payload_v tag
    assume p: "length key = 32" "mapping (snapshot_to_dict s) \<bind> (\<lambda>outer. map_of outer ''payload'') = Some payload_v"
      and t: "mapping (snapshot_to_dict s) \<bind> (\<lambda>outer. map_of outer ''authentication'' \<bind> mapping)
          \<bind> (\<lambda>a. map_of a ''tag_b64'') = Some (JStr (authentication_tag_b64 v))"
        "is_base64 (Some 32) 1 (authentication_tag_b64 v)" "b64decode (authentication_tag_b64 v) = Some tag"
        "tag = hmac_sha256 key (canonical_json payload_v)"
    have "payload_v = payload_of s" "authentication_tag_b64 v = authentication_tag_b64 s"
      using p(2) t(1) by (simp_all add: snapshot_to_dict_def snapshot_outer_def payload_of_def)
    then show ?thesis using p(1) t(2-4) by (simp add: is_base64_def)
  qed
  moreover have "sound_snapshot ?v" using assms(1) by (simp add: sound_snapshot_def)
  ultimately have "valid_snapshot key ?v" by (simp add: valid_snapshot_def d)
  then show "valid_snapshot key v" "v = ?v"
    using assms(2) snapshot_from_to [of key ?v] d(1) by auto
qed

lemma merge_SomeD:
  assumes l: "load_convergent key cid st = Some s" and v: "valid_convergent key cid s"
    and snd: "sound_snapshot t" and room: "length (cr_snapshots s) < MAXIMUM_QUEUE_OPERATIONS"
    and m: "merge_snapshot key cid st t = Some (fresh, st')"
  defines "t' \<equiv> t\<lparr>canonical_payload_sha256 := sha256_hex (canonical_json (payload_of t))\<rparr>"
  shows "\<not> fresh \<Longrightarrow> st' = st"
    and "fresh \<Longrightarrow> valid_convergent key cid (replica_of (cr_operations s) (cr_snapshots s @ [t']) (cr_pending s))
      \<and> load_convergent key cid st' = Some (replica_of (cr_operations s) (cr_snapshots s @ [t']) (cr_pending s))"
proof -
  obtain w where w: "snapshot_from_dict key (snapshot_to_dict t) = Some w" "collection_id w = cid"
    using m by (auto simp: merge_snapshot_def elim!: bind_SomeE)
  then have tv: "valid_snapshot key t'" "w = t'" using verified_snapshot [OF snd w(1)] by (simp_all add: t'_def)
  show "\<not> fresh \<Longrightarrow> st' = st"
    using m l w by (auto simp: merge_snapshot_def elim!: bind_SomeE split: if_splits)
  assume fresh
  then have new: "canonical_payload_sha256 t' \<notin> canonical_payload_sha256 ` set (cr_snapshots s)"
    and wr: "convergent_write cid (cr_operations s) (cr_snapshots s @ [t']) (cr_pending s) = Some st'"
    using m l w tv(2) by (auto simp: merge_snapshot_def list_ex_iff elim!: bind_SomeE split: if_splits)
  have wt: "writable key cid (cr_operations s) (cr_snapshots s @ [t']) (cr_pending s)"
    using valid_convergent_writable [OF v] new tv w(2) room by (auto simp: writable_def)
  let ?s = "replica_of (cr_operations s) (cr_snapshots s @ [t']) (cr_pending s)"
  have c: "consistent (set (cr_operations s)) (set (cr_snapshots s @ [t']))"
    and e: "st' = Some (convergent_dict cid ?s)"
    using wr unfolding convergent_write_eq [OF wt] by (auto simp: store_write_iff split: if_splits)
  have "valid_convergent key cid ?s" by (rule replica_of_valid [OF wt c])
  with e show "valid_convergent key cid ?s \<and> load_convergent key cid st' = Some ?s"
    using convergent_load_written by blast
qed

lemma confirm_SomeD:
  assumes l: "load_convergent key cid st = Some s" and v: "valid_convergent key cid s"
    and c: "convergent_confirm key cid st (JStr i) = Some st'"
  shows "i \<in> set (cr_pending s)"
    and "valid_convergent key cid (replica_of (cr_operations s) (cr_snapshots s) (filter (\<lambda>j. j \<noteq> i) (cr_pending s)))"
    and "load_convergent key cid st' = Some (replica_of (cr_operations s) (cr_snapshots s) (filter (\<lambda>j. j \<noteq> i) (cr_pending s)))"
proof -
  let ?p = "filter (\<lambda>j. j \<noteq> i) (cr_pending s)"
  show "i \<in> set (cr_pending s)" using c l by (auto simp: convergent_confirm_def elim!: bind_SomeE)
  have wr: "convergent_write cid (cr_operations s) (cr_snapshots s) ?p = Some st'"
    using c l by (auto simp: convergent_confirm_def elim!: bind_SomeE)
  have wt: "writable key cid (cr_operations s) (cr_snapshots s) ?p"
    using valid_convergent_writable [OF v] by (auto simp: writable_def)
  have cs: "consistent (set (cr_operations s)) (set (cr_snapshots s))" by (rule valid_convergent_consistent(1) [OF v])
  show vr: "valid_convergent key cid (replica_of (cr_operations s) (cr_snapshots s) ?p)"
    by (rule replica_of_valid [OF wt cs])
  have "st' = Some (convergent_dict cid (replica_of (cr_operations s) (cr_snapshots s) ?p))"
    using wr cs unfolding convergent_write_eq [OF wt] by (simp add: store_write_iff)
  then show "load_convergent key cid st' = Some (replica_of (cr_operations s) (cr_snapshots s) ?p)"
    using vr convergent_load_written by blast
qed

text \<open>The number of snapshots is bounded when the file is read and not when it is written.\<close>

lemma load_snapshots_bound:
  "load_convergent key cid (Some (convergent_dict cid s)) = Some z \<Longrightarrow> length (cr_snapshots s) \<le> MAXIMUM_QUEUE_OPERATIONS"
  by (auto simp: load_convergent_def convergent_from_state_def convergent_dict_def elim!: bind_SomeE)

lemma merge_beyond_limit:
  assumes l: "load_convergent key cid st = Some s" and full: "MAXIMUM_QUEUE_OPERATIONS \<le> length (cr_snapshots s)"
    and m: "merge_snapshot key cid st t = Some (fresh, st')"
  shows "if fresh then load_convergent key cid st' = None else st' = st"
proof (cases fresh)
  case True
  obtain w where w: "convergent_write cid (cr_operations s) (cr_snapshots s @ [w]) (cr_pending s) = Some st'"
    using m l True by (auto simp: merge_snapshot_def elim!: bind_SomeE split: if_splits)
  then obtain z where "st' = Some (convergent_dict cid z)" "length (cr_snapshots z) = Suc (length (cr_snapshots s))"
    by (auto simp: convergent_write_def Let_def store_write_iff elim!: bind_SomeE)
  then show ?thesis
    using True full load_snapshots_bound [of key cid z] by (cases "load_convergent key cid st'") auto
qed (use m l in \<open>auto simp: merge_snapshot_def elim!: bind_SomeE split: if_splits\<close>)

section \<open>Every history of calls\<close>

text \<open>
  The replica under any sequence of calls.  A snapshot that is merged satisfies
  \<open>sound_snapshot\<close>, as every instance that \<open>from_dict\<close> returns does (\<open>snapshot_from_sound\<close>).
\<close>

inductive replica_step :: "string \<Rightarrow> string \<Rightarrow> store \<Rightarrow> store \<Rightarrow> bool" for key cid where
  step_ingest: "ingest_remote key cid st x = Some (fresh, st') \<Longrightarrow> replica_step key cid st st'"
| step_queue: "queue_local key cid st x = Some (fresh, st') \<Longrightarrow> replica_step key cid st st'"
| step_merge: "sound_snapshot t \<Longrightarrow> merge_snapshot key cid st t = Some (fresh, st') \<Longrightarrow> replica_step key cid st st'"
| step_confirm: "convergent_confirm key cid st v = Some st' \<Longrightarrow> replica_step key cid st st'"

inductive replica_reachable :: "string \<Rightarrow> string \<Rightarrow> store \<Rightarrow> bool" for key cid where
  replica_new: "is_identifier cid \<Longrightarrow> replica_reachable key cid None"
| replica_more: "replica_reachable key cid st \<Longrightarrow> replica_step key cid st st' \<Longrightarrow> replica_reachable key cid st'"

lemma replica_steps_reachable:
  "(replica_step key cid)\<^sup>*\<^sup>* st st' \<Longrightarrow> replica_reachable key cid st \<Longrightarrow> replica_reachable key cid st'"
  by (induction rule: rtranclp_induct) (auto intro: replica_more)

text \<open>Every call reads the file first.\<close>

lemma replica_step_loads: "replica_step key cid st st' \<Longrightarrow> \<exists>s. load_convergent key cid st = Some s"
  by (auto simp: ingest_remote_def queue_local_def merge_snapshot_def convergent_confirm_def
      elim!: replica_step.cases bind_SomeE)

text \<open>The file that does not load: it was written over a file that holds as many snapshots as can be read, by
  the merge of another one.\<close>

definition overfull :: "string \<Rightarrow> string \<Rightarrow> store \<Rightarrow> bool" where
  "overfull key cid st \<longleftrightarrow> load_convergent key cid st = None
     \<and> (\<exists>before s t. replica_reachable key cid before \<and> load_convergent key cid before = Some s
          \<and> length (cr_snapshots s) = MAXIMUM_QUEUE_OPERATIONS
          \<and> merge_snapshot key cid before t = Some (True, st))"

text \<open>The accepted operations and the merged snapshots of a replica only grow.\<close>

definition grows :: "convergent_state \<Rightarrow> convergent_state \<Rightarrow> bool" where
  "grows s s' \<longleftrightarrow> set (cr_operations s) \<subseteq> set (cr_operations s') \<and> set (cr_snapshots s) \<subseteq> set (cr_snapshots s')"

lemma grows_refl [simp]: "grows s s"
  by (simp add: grows_def)

lemma grows_trans: "grows s s1 \<Longrightarrow> grows s1 s' \<Longrightarrow> grows s s'"
  by (auto simp: grows_def)

lemma grows_replica_of:
  "set (cr_operations s) \<subseteq> set ops \<Longrightarrow> set (cr_snapshots s) \<subseteq> set snaps \<Longrightarrow> grows s (replica_of ops snaps pending)"
  by (simp add: grows_def)

lemma replica_step_grows:
  assumes "replica_step key cid st st'" "load_convergent key cid st = Some s" "valid_convergent key cid s"
  shows "(\<exists>s'. load_convergent key cid st' = Some s' \<and> valid_convergent key cid s' \<and> grows s s')
    \<or> load_convergent key cid st' = None \<and> length (cr_snapshots s) = MAXIMUM_QUEUE_OPERATIONS
      \<and> (\<exists>t. merge_snapshot key cid st t = Some (True, st'))"
  using assms(1)
proof cases
  case (step_ingest x fresh)
  note d = ingest_SomeD [OF assms(2,3) step_ingest]
  have "grows s (replica_of (cr_operations s @ [x]) (cr_snapshots s) (cr_pending s))"
    by (rule grows_replica_of) auto
  then show ?thesis using d(3,4) assms(2,3) grows_refl by (cases fresh) blast+
next
  case (step_queue x fresh)
  note d = queue_local_SomeD [OF assms(2,3) step_queue]
  have "grows s (replica_of (cr_operations s @ [x]) (cr_snapshots s) (cr_pending s @ [operation_id x]))"
    by (rule grows_replica_of) auto
  then show ?thesis using d(3,4) assms(2,3) grows_refl by (cases fresh) blast+
next
  case (step_merge t fresh)
  show ?thesis
  proof (cases "length (cr_snapshots s) < MAXIMUM_QUEUE_OPERATIONS")
    case True
    note d = merge_SomeD [OF assms(2,3) step_merge(1) True step_merge(2)]
    have "grows s (replica_of (cr_operations s) (cr_snapshots s @ [t\<lparr>canonical_payload_sha256 :=
        sha256_hex (canonical_json (payload_of t))\<rparr>]) (cr_pending s))"
      by (rule grows_replica_of) auto
    then show ?thesis using d assms(2,3) grows_refl by (cases fresh) blast+
  next
    case False
    then have full: "length (cr_snapshots s) = MAXIMUM_QUEUE_OPERATIONS"
      using assms(3) by (simp add: valid_convergent_def)
    show ?thesis
    proof (cases fresh)
      case True
      have "load_convergent key cid st' = None"
        using merge_beyond_limit [OF assms(2) _ step_merge(2)] full True by simp
      moreover have "merge_snapshot key cid st t = Some (True, st')" using step_merge(2) True by simp
      ultimately show ?thesis using full by blast
    next
      case False
      have "st' = st" using merge_beyond_limit [OF assms(2) _ step_merge(2)] full False by simp
      then show ?thesis using assms(2,3) grows_refl by blast
    qed
  qed
next
  case (step_confirm v)
  then obtain i where "v = JStr i" by (auto simp: convergent_confirm_def elim!: bind_SomeE)
  with step_confirm have "convergent_confirm key cid st (JStr i) = Some st'" by simp
  note d = confirm_SomeD [OF assms(2,3) this]
  have "grows s (replica_of (cr_operations s) (cr_snapshots s) (filter (\<lambda>j. j \<noteq> i) (cr_pending s)))"
    by (rule grows_replica_of) simp_all
  with d(2,3) show ?thesis by blast
qed

lemma replica_reachable_cases:
  "replica_reachable key cid st \<Longrightarrow>
     (\<exists>s. load_convergent key cid st = Some s \<and> valid_convergent key cid s) \<or> overfull key cid st"
proof (induction rule: replica_reachable.induct)
  case replica_new
  then show ?case using convergent_load_new valid_initial_replica by blast
next
  case (replica_more st st')
  obtain s where s: "load_convergent key cid st = Some s" using replica_step_loads [OF replica_more.hyps(2)] by blast
  then have "valid_convergent key cid s" using replica_more.IH by (auto simp: overfull_def)
  from replica_step_grows [OF replica_more.hyps(2) s this] show ?case
    using replica_more.hyps(1) s unfolding overfull_def by blast
qed

lemma replica_reachable_valid:
  "replica_reachable key cid st \<Longrightarrow> load_convergent key cid st = Some s \<Longrightarrow> valid_convergent key cid s"
  using replica_reachable_cases [of key cid st] by (auto simp: overfull_def)

lemma replica_reachable_loads:
  "replica_reachable key cid st \<Longrightarrow> \<not> overfull key cid st \<Longrightarrow>
     \<exists>s. load_convergent key cid st = Some s \<and> valid_convergent key cid s"
  using replica_reachable_cases by blast

lemma replica_steps_grow:
  assumes "(replica_step key cid)\<^sup>*\<^sup>* st st'" "load_convergent key cid st = Some s" "valid_convergent key cid s"
  shows "load_convergent key cid st' = None
    \<or> (\<exists>s'. load_convergent key cid st' = Some s' \<and> valid_convergent key cid s' \<and> grows s s')"
  using assms(1)
proof (induction rule: rtranclp_induct)
  case base
  then show ?case using assms(2,3) grows_refl by blast
next
  case (step st1 st2)
  obtain s1 where s1: "load_convergent key cid st1 = Some s1" "valid_convergent key cid s1" "grows s s1"
    using step.IH replica_step_loads [OF step.hyps(2)] by auto
  from replica_step_grows [OF step.hyps(2) s1(1,2)] show ?case using s1(3) grows_trans by blast
qed

end
