(* ===== verification/Resolution.thy ===== *)
theory Resolution
  imports ReplicaCalls
begin

text \<open>
  What \<open>_resolve_convergent_records\<close> computes, that it always computes something, and what
  \<open>synchronize_to\<close> does to the two files whether or not it gets through.
\<close>

section \<open>Maxima\<close>

lemma foldl_max:
  "foldl (\<lambda>m y. if f m < f y then y else m) x xs \<in> insert x (set xs)
     \<and> (\<forall>y \<in> insert x (set xs). f y \<le> f (foldl (\<lambda>m y. if f m < f y then y else m) x xs))"
  for f :: "'a \<Rightarrow> 'k::linorder"
proof (induction xs arbitrary: x)
  case (Cons z xs)
  have "f x \<le> f (if f x < f z then z else x)" "f z \<le> f (if f x < f z then z else x)" by auto
  then show ?case using Cons [of "if f x < f z then z else x"] by (auto intro: order_trans split: if_splits)
qed simp

lemma max_by_Some:
  assumes "max_by f xs = Some m"
  shows "m \<in> set xs" "y \<in> set xs \<Longrightarrow> f y \<le> f m"
  using assms foldl_max [of f] by (cases xs; force)+

lemma max_by_None [simp]: "max_by f xs = None \<longleftrightarrow> xs = []"
  by (cases xs) simp_all

section \<open>Candidates\<close>

lemma enumerate_filter_set:
  "c \<in> set (map snd (filter (\<lambda>(i, c). P i c) (enumerate 0 cs))) \<longleftrightarrow> (\<exists>i < length cs. cs ! i = c \<and> P i c)"
  by (force simp: in_set_enumerate_eq image_iff)

lemma undominated_iff:
  "c \<in> set (undominated cs) \<longleftrightarrow> (\<exists>i < length cs. cs ! i = c
     \<and> \<not> (\<exists>j < length cs. j \<noteq> i \<and> snapshot_dominates (cd_snapshot (cs ! j)) (cd_snapshot c)))"
  unfolding undominated_def enumerate_filter_set list_ex_iff
  by (fastforce simp: in_set_enumerate_eq)

lemma undominated_subset: "set (undominated cs) \<subseteq> set cs"
  by (auto simp: undominated_iff)

text \<open>Something is always undominated: a snapshot is dominated only by one of a greater revision.\<close>

lemma undominated_nonempty:
  assumes "cs \<noteq> []" "\<forall>c \<in> set cs. cd_snapshot c \<noteq> None"
  shows "undominated cs \<noteq> []"
proof -
  let ?f = "\<lambda>c. collection_revision (the (cd_snapshot c))"
  obtain m where m: "m \<in> set cs" "\<forall>y \<in> set cs. ?f y \<le> ?f m"
    using max_by_Some [of ?f cs] max_by_None [of ?f cs] assms(1) by (cases "max_by ?f cs") auto
  then obtain i where i: "i < length cs" "cs ! i = m" by (auto simp: in_set_conv_nth)
  have "\<not> snapshot_dominates (cd_snapshot (cs ! j)) (cd_snapshot m)" if "j < length cs" for j
    using m(2) nth_mem [OF that] assms(2) m(1)
    by (force simp: snapshot_dominates_def split: option.splits)
  then have "m \<in> set (undominated cs)" using i by (auto simp: undominated_iff)
  then show ?thesis by auto
qed

lemma candidate_source:
  assumes "c \<in> set (candidates s)"
  shows "cd_operation c = None \<longleftrightarrow> cd_snapshot c \<noteq> None"
    and "cd_operation c = Some x \<Longrightarrow> x \<in> set (cr_operations s) \<and> cd_envelope c = op_envelope x"
  using assms by (auto simp: candidates_def)

lemma candidate_envelopes:
  "cd_envelope ` set (candidates s) = known_envelopes (set (cr_operations s)) (set (cr_snapshots s))"
  by (auto simp: candidates_def known_envelopes_def image_Un image_UN image_image)

lemma candidate_operation:
  "x \<in> set (cr_operations s) \<Longrightarrow>
     \<lparr>cd_envelope = op_envelope x, cd_operation = Some x, cd_snapshot = None\<rparr> \<in> set (candidates s)"
  by (auto simp: candidates_def)

definition on_candidates :: "string \<Rightarrow> convergent_state \<Rightarrow> candidate list" where
  "on_candidates i s = filter (\<lambda>c. object_id (cd_envelope c) = i) (candidates s)"

text \<open>The candidates that are left after the tombstones have been preferred.\<close>

definition class_candidates :: "candidate list \<Rightarrow> candidate list" where
  "class_candidates cs = (if list_ex (\<lambda>c. tombstone (cd_envelope c)) cs
     then filter (\<lambda>c. tombstone (cd_envelope c)) cs else cs)"

lemma class_candidates_mem:
  "c \<in> set (class_candidates cs) \<longleftrightarrow> c \<in> set cs
     \<and> (tombstone (cd_envelope c) \<longleftrightarrow> (\<exists>d \<in> set cs. tombstone (cd_envelope d)))"
  by (auto simp: class_candidates_def list_ex_iff)

lemma class_candidates_nonempty: "cs \<noteq> [] \<Longrightarrow> class_candidates cs \<noteq> []"
  by (auto simp: class_candidates_def list_ex_iff filter_empty_conv)

lemma resolve_object_eq:
  "resolve_object cs = (
     let ops = filter (\<lambda>c. cd_operation c \<noteq> None) (class_candidates cs) in
     map_option cd_envelope
       (if ops \<noteq> [] then max_by (\<lambda>c. order_key (the (cd_operation c))) ops
        else max_by (\<lambda>c. canonical_payload_sha256 (the (cd_snapshot c)))
          (undominated (filter (\<lambda>c. cd_snapshot c \<noteq> None) (class_candidates cs)))))"
  by (simp add: resolve_object_def class_candidates_def Let_def)

lemma resolve_object_Some:
  assumes "cs \<noteq> []" "set cs \<subseteq> set (candidates s)"
  shows "\<exists>c. resolve_object cs = Some (cd_envelope c) \<and> c \<in> set (class_candidates cs)
    \<and> (\<forall>d \<in> set (class_candidates cs). \<forall>x. cd_operation d = Some x \<longrightarrow>
         (\<exists>y. cd_operation c = Some y \<and> order_key x \<le> order_key y))"
proof (cases "filter (\<lambda>c. cd_operation c \<noteq> None) (class_candidates cs) = []")
  case True
  then have all: "\<forall>c \<in> set (class_candidates cs). cd_operation c = None" by (simp add: filter_empty_conv)
  have cand: "c \<in> set (class_candidates cs) \<Longrightarrow> c \<in> set (candidates s)" for c
    using assms(2) by (auto simp: class_candidates_mem)
  let ?snaps = "filter (\<lambda>c. cd_snapshot c \<noteq> None) (class_candidates cs)"
  have "?snaps = class_candidates cs"
    using all cand candidate_source(1) by (intro filter_True) blast
  then have "?snaps \<noteq> []" using class_candidates_nonempty [OF assms(1)] by simp
  then have "undominated ?snaps \<noteq> []" by (rule undominated_nonempty) simp
  then obtain m where m: "max_by (\<lambda>c. canonical_payload_sha256 (the (cd_snapshot c))) (undominated ?snaps) = Some m"
    by (cases "max_by (\<lambda>c. canonical_payload_sha256 (the (cd_snapshot c))) (undominated ?snaps)") auto
  have "m \<in> set (class_candidates cs)" using max_by_Some(1) [OF m] undominated_subset by fastforce
  then show ?thesis using True m all unfolding resolve_object_eq by (auto simp: Let_def)
next
  case False
  let ?ops = "filter (\<lambda>c. cd_operation c \<noteq> None) (class_candidates cs)"
  obtain m where m: "max_by (\<lambda>c. order_key (the (cd_operation c))) ?ops = Some m"
    using False by (cases "max_by (\<lambda>c. order_key (the (cd_operation c))) ?ops") auto
  have mem: "m \<in> set ?ops" by (rule max_by_Some(1) [OF m])
  then obtain y where y: "cd_operation m = Some y" by auto
  have "order_key x \<le> order_key y" if "d \<in> set (class_candidates cs)" "cd_operation d = Some x" for d x
    using max_by_Some(2) [OF m, of d] that y by simp
  then show ?thesis using False m mem y unfolding resolve_object_eq
    by (intro exI [of _ m]) (auto simp: Let_def)
qed

section \<open>Records\<close>

lemma traverse_total:
  "(\<And>x. x \<in> set xs \<Longrightarrow> \<exists>y. f x = Some y \<and> P x y) \<Longrightarrow> \<exists>ys. traverse f xs = Some ys \<and> list_all2 P xs ys"
proof (induction xs)
  case (Cons x xs)
  then obtain y where "f x = Some y" "P x y" by (meson list.set_intros(1))
  moreover obtain ys where "traverse f xs = Some ys" "list_all2 P xs ys"
    using Cons by (meson list.set_intros(2))
  ultimately show ?case by simp
qed simp

text \<open>What the record of an object is, by the known envelopes and operations.\<close>

definition resolves_to :: "convergent_state \<Rightarrow> string \<Rightarrow> envelope \<Rightarrow> bool" where
  "resolves_to s i e \<longleftrightarrow>
     (let known = known_envelopes (set (cr_operations s)) (set (cr_snapshots s)) in
      e \<in> known \<and> object_id e = i
      \<and> (tombstone e \<longleftrightarrow> (\<exists>f \<in> known. object_id f = i \<and> tombstone f))
      \<and> (\<forall>x \<in> set (cr_operations s). object_id (op_envelope x) = i \<longrightarrow> tombstone (op_envelope x) = tombstone e \<longrightarrow>
           (\<exists>y \<in> set (cr_operations s). e = op_envelope y \<and> order_key x \<le> order_key y)))"

lemma resolve_object_resolves:
  assumes "on_candidates i s \<noteq> []"
  shows "\<exists>e. resolve_object (on_candidates i s) = Some e \<and> resolves_to s i e"
proof -
  have sub: "set (on_candidates i s) \<subseteq> set (candidates s)" by (auto simp: on_candidates_def)
  obtain c where c: "resolve_object (on_candidates i s) = Some (cd_envelope c)"
    "c \<in> set (class_candidates (on_candidates i s))"
    "\<forall>d \<in> set (class_candidates (on_candidates i s)). \<forall>x. cd_operation d = Some x \<longrightarrow>
         (\<exists>y. cd_operation c = Some y \<and> order_key x \<le> order_key y)"
    using resolve_object_Some [OF assms sub] by blast
  have cc: "c \<in> set (candidates s)" "object_id (cd_envelope c) = i"
    using c(2) by (auto simp: class_candidates_mem on_candidates_def)
  have known: "f \<in> known_envelopes (set (cr_operations s)) (set (cr_snapshots s)) \<longleftrightarrow>
      (\<exists>d \<in> set (candidates s). cd_envelope d = f)" for f
    unfolding candidate_envelopes [symmetric] by auto
  have class_iff: "tombstone (cd_envelope c) \<longleftrightarrow> (\<exists>d \<in> set (on_candidates i s). tombstone (cd_envelope d))"
    using c(2) by (simp add: class_candidates_mem)
  have win: "\<exists>y \<in> set (cr_operations s). cd_envelope c = op_envelope y \<and> order_key x \<le> order_key y"
    if "x \<in> set (cr_operations s)" "object_id (op_envelope x) = i" "tombstone (op_envelope x) = tombstone (cd_envelope c)" for x
  proof -
    let ?d = "\<lparr>cd_envelope = op_envelope x, cd_operation = Some x, cd_snapshot = None\<rparr>"
    have "?d \<in> set (class_candidates (on_candidates i s))"
      using candidate_operation [OF that(1)] that(2,3) class_iff
      by (simp add: class_candidates_mem on_candidates_def)
    then obtain y where "cd_operation c = Some y" "order_key x \<le> order_key y" using c(3) by fastforce
    then show ?thesis using candidate_source(2) [OF cc(1)] by blast
  qed
  have dead: "tombstone (cd_envelope c) \<longleftrightarrow> (\<exists>f \<in> known_envelopes (set (cr_operations s)) (set (cr_snapshots s)).
      object_id f = i \<and> tombstone f)"
    unfolding class_iff candidate_envelopes [symmetric] by (auto simp: on_candidates_def)
  have "cd_envelope c \<in> known_envelopes (set (cr_operations s)) (set (cr_snapshots s))"
    unfolding candidate_envelopes [symmetric] using cc(1) by simp
  then have "resolves_to s i (cd_envelope c)"
    unfolding resolves_to_def Let_def using cc(2) dead win by blast
  then show ?thesis using c(1) by blast
qed

lemma resolve_records:
  "\<exists>rs. resolve_convergent_records s = Some rs
    \<and> map object_id rs = sort (remdups (map (\<lambda>c. object_id (cd_envelope c)) (candidates s)))
    \<and> (\<forall>e \<in> set rs. resolves_to s (object_id e) e)"
proof -
  let ?ids = "sort (remdups (map (\<lambda>c. object_id (cd_envelope c)) (candidates s)))"
  have "\<exists>e. resolve_object (on_candidates i s) = Some e \<and> resolves_to s i e" if "i \<in> set ?ids" for i
    by (rule resolve_object_resolves) (use that in \<open>auto simp: on_candidates_def filter_empty_conv\<close>)
  then obtain rs where rs: "traverse (\<lambda>i. resolve_object (on_candidates i s)) ?ids = Some rs"
    "list_all2 (resolves_to s) ?ids rs"
    using traverse_total [of ?ids "\<lambda>i. resolve_object (on_candidates i s)" "resolves_to s"] by blast
  have "map object_id rs = ?ids"
    using rs(2) by (auto simp: list_all2_conv_all_nth resolves_to_def Let_def intro!: nth_equalityI)
  moreover have "resolves_to s (object_id e) e" if e: "e \<in> set rs" for e
  proof -
    obtain k where k: "k < length rs" "rs ! k = e" using e by (auto simp: in_set_conv_nth)
    then have "resolves_to s (?ids ! k) e" using rs(2) by (auto simp: list_all2_conv_all_nth)
    then show ?thesis by (simp add: resolves_to_def Let_def)
  qed
  ultimately show ?thesis using rs(1) by (auto simp: resolve_convergent_records_def on_candidates_def)
qed

section \<open>Synchronisation\<close>

text \<open>
  How a stage of the transfer changes the two replicas: the sender keeps its operations, what it
  no longer has pending is known to the receiver, and the receiver forgets nothing.
\<close>

definition handed_over :: "convergent_state \<Rightarrow> convergent_state \<Rightarrow> convergent_state \<Rightarrow> convergent_state \<Rightarrow> bool" where
  "handed_over s r s' r' \<longleftrightarrow>
     set (cr_operations s') = set (cr_operations s) \<and> set (cr_pending s') \<subseteq> set (cr_pending s)
   \<and> (\<forall>i d. fmlookup (cr_receipts r) i = Some d \<longrightarrow> fmlookup (cr_receipts r') i = Some d)
   \<and> (\<forall>x \<in> set (cr_operations s). operation_id x \<in> set (cr_pending s) \<longrightarrow> operation_id x \<notin> set (cr_pending s') \<longrightarrow>
        fmlookup (cr_receipts r') (operation_id x) = Some (fingerprint x))"

lemma handed_over_refl [simp]: "handed_over s r s r"
  by (simp add: handed_over_def)

lemma handed_over_trans:
  assumes "handed_over s r s1 r1" and "handed_over s1 r1 s' r'"
  shows "handed_over s r s' r'"
proof -
  have "fmlookup (cr_receipts r') (operation_id x) = Some (fingerprint x)"
    if x: "x \<in> set (cr_operations s)" "operation_id x \<in> set (cr_pending s)" "operation_id x \<notin> set (cr_pending s')" for x
  proof (cases "operation_id x \<in> set (cr_pending s1)")
    case True
    have "x \<in> set (cr_operations s1)" using assms(1) x(1) by (simp add: handed_over_def)
    then show ?thesis using True x(3) assms(2) by (simp add: handed_over_def)
  next
    case False
    then have "fmlookup (cr_receipts r1) (operation_id x) = Some (fingerprint x)"
      using x(1,2) assms(1) by (simp add: handed_over_def)
    then show ?thesis using assms(2) by (simp add: handed_over_def)
  qed
  moreover have "set (cr_operations s') = set (cr_operations s)" "set (cr_pending s') \<subseteq> set (cr_pending s)"
    using assms by (auto simp: handed_over_def simp del: split_paired_All)
  moreover have "fmlookup (cr_receipts r') i = Some d" if "fmlookup (cr_receipts r) i = Some d" for i d
    using assms that by (simp add: handed_over_def)
  ultimately show ?thesis by (simp add: handed_over_def)
qed

lemma ingest_hands_over:
  assumes "load_convergent rkey cid remote = Some r" "valid_convergent rkey cid r"
    and "ingest_remote rkey cid remote x = Some (fresh, remote1)"
  obtains r1 where "load_convergent rkey cid remote1 = Some r1" "valid_convergent rkey cid r1"
    "handed_over s r s r1" "fmlookup (cr_receipts r1) (operation_id x) = Some (fingerprint x)"
proof -
  note d = ingest_SomeD [OF assms]
  define r1 where "r1 = (if fresh then replica_of (cr_operations r @ [x]) (cr_snapshots r) (cr_pending r) else r)"
  have l1: "load_convergent rkey cid remote1 = Some r1" and v1: "valid_convergent rkey cid r1"
    using d(3,4) assms(1,2) by (auto simp: r1_def)
  have rec: "fmlookup (cr_receipts r1) i = (if i = operation_id x then Some (fingerprint x) else fmlookup (cr_receipts r) i)" for i
  proof (cases fresh)
    case True
    then show ?thesis using receipts_after [OF assms(2) v1, of x i] assms(2)
      by (simp add: r1_def replica_of_def)
  qed (use d(3) in \<open>auto simp: r1_def\<close>)
  have "fmlookup (cr_receipts r) i = Some e \<Longrightarrow> fmlookup (cr_receipts r1) i = Some e" for i e
    using d(2,3) by (cases fresh) (auto simp: rec)
  then show thesis using that [OF l1 v1] rec by (simp add: handed_over_def)
qed

lemma confirm_hands_over:
  assumes "valid_convergent key cid s" "x \<in> set (cr_operations s)"
    and "fmlookup (cr_receipts r) (operation_id x) = Some (fingerprint x)"
  shows "handed_over s r (replica_of (cr_operations s) (cr_snapshots s)
    (filter (\<lambda>j. j \<noteq> operation_id x) (cr_pending s))) r"
proof -
  have "y = x" if "y \<in> set (cr_operations s)" "operation_id y = operation_id x" for y
    using that assms(1,2) inj_onD [of operation_id "set (cr_operations s)" y x]
    by (simp add: valid_convergent_def distinct_map)
  then show ?thesis using assms(3) by (auto simp: handed_over_def)
qed

lemma transfer_spec:
  assumes "load_convergent key cid st = Some s" "valid_convergent key cid s"
    and "load_convergent rkey cid remote = Some r" "valid_convergent rkey cid r"
    and "distinct (map operation_id xs)" "set xs \<subseteq> set (cr_operations s)"
    and "transfer key rkey cid xs st remote acc = (res, st', remote')"
  shows "\<exists>s' r'. load_convergent key cid st' = Some s' \<and> valid_convergent key cid s'
    \<and> load_convergent rkey cid remote' = Some r' \<and> valid_convergent rkey cid r' \<and> handed_over s r s' r'
    \<and> (\<forall>n. res = Some n \<longrightarrow> n = acc + length xs \<and> set (cr_pending s') = set (cr_pending s) - operation_id ` set xs)"
  using assms
proof (induction xs arbitrary: st s remote r acc)
  case Nil
  then show ?case by auto
next
  case (Cons x xs)
  show ?case
  proof (cases "ingest_remote rkey cid remote x")
    case None
    then show ?thesis using Cons.prems by auto
  next
    case (Some p)
    obtain fresh remote1 where p: "p = (fresh, remote1)" by (cases p)
    obtain r1 where r1: "load_convergent rkey cid remote1 = Some r1" "valid_convergent rkey cid r1"
      "handed_over s r s r1" "fmlookup (cr_receipts r1) (operation_id x) = Some (fingerprint x)"
      using ingest_hands_over [OF Cons.prems(3,4) Some [unfolded p]] .
    show ?thesis
    proof (cases "convergent_confirm key cid st (JStr (operation_id x))")
      case None
      then have "st' = st" "remote' = remote1" "res = None" using Cons.prems(7) Some p by simp_all
      then show ?thesis using Cons.prems(1,2) r1 by blast
    next
      case c: (Some st1)
      note cd = confirm_SomeD [OF Cons.prems(1,2) c]
      define s1 where "s1 = replica_of (cr_operations s) (cr_snapshots s) (filter (\<lambda>j. j \<noteq> operation_id x) (cr_pending s))"
      have h: "handed_over s r s1 r1"
        using handed_over_trans [OF r1(3) confirm_hands_over [OF Cons.prems(2) _ r1(4)]] Cons.prems(6)
        by (simp add: s1_def)
      have pending: "set (cr_pending s1) = set (cr_pending s) - {operation_id x}" by (auto simp: s1_def)
      have ops: "set xs \<subseteq> set (cr_operations s1)" "distinct (map operation_id xs)"
        using Cons.prems(5,6) by (simp_all add: s1_def)
      have t: "transfer key rkey cid xs st1 remote1 (acc + 1) = (res, st', remote')"
        using Cons.prems(7) Some p c by simp
      obtain s' r' where IH: "load_convergent key cid st' = Some s'" "valid_convergent key cid s'"
        "load_convergent rkey cid remote' = Some r'" "valid_convergent rkey cid r'" "handed_over s1 r1 s' r'"
        "\<forall>n. res = Some n \<longrightarrow> n = acc + 1 + length xs \<and> set (cr_pending s') = set (cr_pending s1) - operation_id ` set xs"
        using Cons.IH [OF cd(3,2) [folded s1_def] r1(1,2) ops(2,1) t] by blast
      have "\<forall>n. res = Some n \<longrightarrow> n = acc + length (x # xs)
          \<and> set (cr_pending s') = set (cr_pending s) - operation_id ` set (x # xs)"
        using IH(6) pending by auto
      then show ?thesis using IH(1-4) handed_over_trans [OF h IH(5)] by blast
    qed
  qed
qed

end
