(* ===== verification/ReplicaSamples.thy ===== *)
theory ReplicaSamples
  imports Resolution CollectionProperties
begin

text \<open>
  Concrete replicas: device \<open>a\<close> creates object \<open>x\<close> and then updates it; the snapshot a compacted
  collection makes of the two operations; files small enough to be written.
\<close>

section \<open>Two operations and their snapshot\<close>

definition sample_update :: operation where
  "sample_update = sample_operation (CHR ''2'') ''a'' 2 2 (sample_envelope ''x'' ''r2'' (Some ''r1'') False)"

lemma valid_sample_update: "valid_operation sample_update"
  unfolding sample_update_def by (intro valid_sample_operation valid_sample_envelope) auto

lemma small_sample_update [simp]: "small_operation sample_update"
  unfolding small_operation_def sample_update_def
  by (auto intro!: weight_sample_operation weight_sample_envelope simp: int_str_def)

lemma sample_ids: "operation_id sample_create < operation_id sample_update"
  "operation_id sample_create \<noteq> operation_id sample_update"
proof -
  show "operation_id sample_create < operation_id sample_update"
    by (simp add: sample_create_def sample_update_def sample_operation_simps sample_uuid_def)
  then show "operation_id sample_create \<noteq> operation_id sample_update" by auto
qed

lemma sample_fields:
  "author_device_id sample_create = ''a''" "author_sequence sample_create = 1" "op_envelope sample_create = sample_envelope ''x'' ''r1'' None False"
  "author_device_id sample_update = ''a''" "author_sequence sample_update = 2" "op_envelope sample_update = sample_envelope ''x'' ''r2'' (Some ''r1'') False"
  by (simp_all add: sample_create_def sample_update_def)

definition update_replay :: replay where
  "update_replay = \<lparr>rp_records = fmupd ''x'' (op_envelope sample_update) fmempty,
     rp_fingerprints = fmupd (operation_id sample_update) (fingerprint sample_update)
       (fmupd (operation_id sample_create) (fingerprint sample_create) fmempty),
     rp_sequences = fmupd ''a'' 2 fmempty,
     rp_owners = fmupd (''a'', 2) (operation_id sample_update) (fmupd (''a'', 1) (operation_id sample_create) fmempty),
     rp_revisions = fmupd ''x'' ''r2'' fmempty, rp_order = Some (order_key sample_update)\<rparr>"

lemma order_create_update: "order_key sample_create < order_key sample_update"
  by (simp add: order_key_def sample_create_def sample_update_def)

lemma update_replay_tracks: "replay_tracks update_replay [sample_create, sample_update]"
proof -
  have "\<exists>md. advance_metadata sample_update (replay_metadata sample_replay) = Some md"
    using order_create_update
    by (simp add: advance_metadata_def replay_metadata_def sample_replay_def next_sequence_def sample_fields)
  then obtain md where md: "advance_metadata sample_update (replay_metadata sample_replay) = Some md" by blast
  have "md = \<lparr>md_sequences = fmupd ''a'' 2 fmempty, md_revisions = fmupd ''x'' ''r2'' fmempty,
      md_last_order = Some (order_key sample_update)\<rparr>"
    using advance_metadata_SomeD(1) [OF md]
    by (simp add: replay_metadata_def sample_replay_def sample_fields)
  then have "replay_step sample_update md sample_replay = update_replay"
    by (simp add: replay_step_def update_replay_def sample_replay_def sample_fields)
  moreover have "replay_tracks (replay_step sample_update md sample_replay) ([sample_create] @ [sample_update])"
    by (rule replay_step_tracks [OF sample_replay_tracks md])
      (use sample_ids(2) in \<open>simp_all add: valid_sample_update MAXIMUM_QUEUE_OPERATIONS_def\<close>)
  ultimately show ?thesis by simp
qed

definition update_snapshot :: snapshot where
  "update_snapshot = snapshot_for sample_key ''a'' update_replay (order_key sample_update)"

lemma update_snapshot_valid: "valid_snapshot sample_key update_snapshot"
  unfolding update_snapshot_def snapshot_for_valid_iff
  using sound_snapshot_for [OF update_replay_tracks, of "''a''" sample_key] by simp

lemma items_two: "k < l \<Longrightarrow> items (fmupd l w (fmupd k v fmempty)) = [(k, v), (l, w)]" for k :: "'k::linorder"
  by (auto simp: items_def sorted_list_of_fset.rep_eq)

lemma update_snapshot_fields:
  "collection_id update_snapshot = ''a''"
  "snapshot_records update_snapshot = [op_envelope sample_update]"
  "snapshot_fingerprints update_snapshot = rp_fingerprints update_replay"
  "snapshot_owners update_snapshot = rp_owners update_replay"
  by (simp_all add: update_snapshot_def snapshot_for_def Let_def update_replay_def items_single)

lemma update_items:
  "items (rp_fingerprints update_replay) = [(operation_id sample_create, fingerprint sample_create), (operation_id sample_update, fingerprint sample_update)]"
  "items (rp_owners update_replay) = [((''a'', 1), operation_id sample_create), ((''a'', 2), operation_id sample_update)]"
  "items (rp_records update_replay) = [(''x'', op_envelope sample_update)]"
  "items (rp_sequences update_replay) = [(''a'', 2)]"
  using sample_ids(1) by (simp_all add: update_replay_def items_two items_single)

section \<open>Consistency\<close>

lemma create_update_consistent:
  assumes "X \<subseteq> {sample_create, sample_update}" "S \<subseteq> {update_snapshot}"
  shows "consistent X S"
proof -
  let ?X = "{sample_create, sample_update}" and ?S = "{update_snapshot}"
  have r: "receipt_pairs ?X ?S = {(operation_id sample_create, fingerprint sample_create), (operation_id sample_update, fingerprint sample_update)}"
    by (auto simp: receipt_pairs_def update_snapshot_fields update_items)
  have o: "owner_pairs ?X ?S = {((''a'', 1), operation_id sample_create), ((''a'', 2), operation_id sample_update)}"
    by (auto simp: owner_pairs_def update_snapshot_fields update_items sample_fields)
  have k: "known_envelopes ?X ?S = {sample_envelope ''x'' ''r1'' None False, sample_envelope ''x'' ''r2'' (Some ''r1'') False}"
    by (auto simp: known_envelopes_def update_snapshot_fields sample_fields)
  have "coherent ?X ?S"
    using sample_ids(2) unfolding coherent_def r o k
    by (auto simp: single_valued_def one_to_one_def distinct_revisions_def revision_key_def sample_envelope_simps)
  moreover have "card (Domain (receipt_pairs ?X ?S)) \<le> MAXIMUM_QUEUE_OPERATIONS"
    using sample_ids(2) unfolding r by (simp add: MAXIMUM_QUEUE_OPERATIONS_def)
  moreover have "revision_links (known_envelopes ?X ?S) = {((''x'', ''r2''), (''x'', ''r1''))}"
    unfolding k revision_links_def revision_key_def
    by (auto simp: sample_envelope_simps intro!: exI [of _ "sample_envelope ''x'' ''r2'' (Some ''r1'') False"])
  moreover have "acyclic {((''x'', ''r2''), (''x'', ''r1''))}"
  proof -
    have "acyclic {}" by (simp add: acyclic_def)
    then show ?thesis by (simp add: acyclic_insert)
  qed
  ultimately have "consistent ?X ?S" by (simp add: consistent_def)
  then show ?thesis by (rule consistent_mono [OF _ assms]) simp_all
qed

section \<open>Files that fit\<close>

lemma update_snapshot_weight: "json_weight (snapshot_to_dict update_snapshot) \<le> 40000"
proof -
  have "json_weight (envelope_to_dict (op_envelope sample_update)) \<le> 10000"
    using weight_sample_envelope [of "''x''" "''r2''" "Some ''r1''" False] by (simp add: sample_fields)
  moreover have "json_weight (order_to_json (order_key sample_update)) \<le> 2000"
    by (rule order_weight) (simp add: valid_order_key valid_sample_update)
  moreover have "length (operation_id sample_create) = 36" "length (operation_id sample_update) = 36"
    by (simp_all add: sample_create_def sample_update_def sample_uuid_def)
  moreover have "fcard (fmdom (rp_fingerprints update_replay)) = 2"
    using sample_ids(2) by (simp add: update_replay_def fcard.rep_eq)
  moreover have "json_weight (sequence_owners_json (rp_owners update_replay)) \<le> 2000"
    using sample_ids(1)
    by (simp add: sequence_owners_json_def sequence_owners_def update_items add_owner_def int_str_def
        sample_create_def sample_update_def sample_uuid_def)
  moreover have "\<not> tombstone (op_envelope sample_update)" by (simp add: sample_fields)
  ultimately show ?thesis
    by (simp add: update_snapshot_def snapshot_for_def Let_def snapshot_to_dict_def snapshot_outer_def
        snapshot_payload_def dict_to_json_def update_items int_str_def length_b64encode live_count_def tombstone_count_def
        SNAPSHOT_FORMAT_def SNAPSHOT_PAYLOAD_FORMAT_def SNAPSHOT_AUTHENTICATION_ALGORITHM_def fingerprint_def)
qed

lemma replica_fits:
  assumes "set (cr_operations s) \<subseteq> {sample_create, sample_update}" "distinct (cr_operations s)"
    and "set (cr_snapshots s) \<subseteq> {update_snapshot}" "distinct (cr_snapshots s)" "cr_pending s = []"
  shows "write_fits (convergent_dict ''a'' s)"
proof -
  have "length (cr_operations s) \<le> card {sample_create, sample_update}"
    using distinct_card [OF assms(2)] card_mono [OF _ assms(1)] by simp
  also have "\<dots> \<le> 2" by (rule card_insert_le_m1) simp_all
  finally have n: "length (cr_operations s) \<le> 2" .
  have "list_all small_operation (cr_operations s)" using assms(1) by (auto simp: list_all_iff)
  then have "json_weight (JList (map operation_to_dict (cr_operations s))) \<le> 50000"
    using operations_weight [of "cr_operations s"] n by simp
  moreover have "json_weight (JList (map snapshot_to_dict (cr_snapshots s))) \<le> 50000"
  proof -
    have "length (cr_snapshots s) \<le> 1"
      using distinct_card [OF assms(4)] card_mono [OF _ assms(3)] by simp
    then show ?thesis using assms(3) update_snapshot_weight by (cases "cr_snapshots s") auto
  qed
  ultimately show ?thesis unfolding convergent_dict_def
    by (intro write_fits_weight) (simp add: assms(5) CONVERGENT_REPLICA_STATE_FORMAT_def int_str_def)
qed

section \<open>Replicas\<close>

definition sample_replica :: "operation list \<Rightarrow> snapshot list \<Rightarrow> store" where
  "sample_replica ops snaps = Some (convergent_dict ''a'' (replica_of ops snaps []))"

lemma sample_writable:
  assumes "set ops \<subseteq> {sample_create, sample_update}" "distinct ops"
    and "set snaps \<subseteq> {update_snapshot}" "distinct snaps"
  shows "writable sample_key ''a'' ops snaps []"
proof -
  have "inj_on operation_id {sample_create, sample_update}" using sample_ids(2) by (auto simp: inj_on_def)
  then have "distinct (map operation_id ops)"
    using assms(2) inj_on_subset [OF _ assms(1)] by (simp add: distinct_map)
  moreover have "distinct (map canonical_payload_sha256 snaps)"
  proof -
    have "inj_on canonical_payload_sha256 {update_snapshot}" by simp
    then show ?thesis using assms(4) inj_on_subset [OF _ assms(3)] by (simp add: distinct_map)
  qed
  moreover have "length snaps \<le> MAXIMUM_QUEUE_OPERATIONS"
    using distinct_card [OF assms(4)] card_mono [OF _ assms(3)] by (simp add: MAXIMUM_QUEUE_OPERATIONS_def)
  ultimately show ?thesis
    using assms(1,3) valid_sample_create valid_sample_update update_snapshot_valid update_snapshot_fields(1)
    by (auto simp: writable_def)
qed

lemma sample_replica_state:
  assumes "set ops \<subseteq> {sample_create, sample_update}" "distinct ops"
    and "set snaps \<subseteq> {update_snapshot}" "distinct snaps"
  shows "valid_convergent sample_key ''a'' (replica_of ops snaps [])"
    and "write_fits (convergent_dict ''a'' (replica_of ops snaps []))"
    and "load_convergent sample_key ''a'' (sample_replica ops snaps) = Some (replica_of ops snaps [])"
proof -
  show v: "valid_convergent sample_key ''a'' (replica_of ops snaps [])"
    by (rule replica_of_valid [OF sample_writable [OF assms] create_update_consistent]) (use assms in auto)
  show "write_fits (convergent_dict ''a'' (replica_of ops snaps []))"
    by (rule replica_fits) (use assms in \<open>simp_all add: replica_of_def\<close>)
  show "load_convergent sample_key ''a'' (sample_replica ops snaps) = Some (replica_of ops snaps [])"
    unfolding sample_replica_def by (rule convergent_load_written [OF v])
qed

lemma sample_new: "load_convergent sample_key ''a'' None = Some (replica_of [] [] [])"
proof -
  have "replica_of [] [] [] = initial_replica"
    using valid_convergent_replica_of [OF valid_initial_replica [of "''a''" sample_key]] by (simp add: initial_replica_def)
  then show ?thesis by (simp add: convergent_load_new)
qed

text \<open>Both an empty file and the file of an empty replica load as the empty replica.\<close>

definition sample_start :: "operation list \<Rightarrow> snapshot list \<Rightarrow> store" where
  "sample_start ops snaps = (if ops = [] \<and> snaps = [] then None else sample_replica ops snaps)"

lemma sample_start_load:
  assumes "set ops \<subseteq> {sample_create, sample_update}" "distinct ops"
    and "set snaps \<subseteq> {update_snapshot}" "distinct snaps"
  shows "load_convergent sample_key ''a'' (sample_start ops snaps) = Some (replica_of ops snaps [])"
  using sample_new sample_replica_state(3) [OF assms] by (simp add: sample_start_def)

lemma sample_ingest:
  assumes "x \<in> {sample_create, sample_update}"
    and "set ops \<subseteq> {sample_create, sample_update}" "distinct ops" "x \<notin> set ops"
  shows "ingest_remote sample_key ''a'' (sample_start ops []) x = Some (True, sample_replica (ops @ [x]) [])"
proof -
  have ops: "set (ops @ [x]) \<subseteq> {sample_create, sample_update}" "distinct (ops @ [x])" using assms by auto
  have l: "load_convergent sample_key ''a'' (sample_start ops []) = Some (replica_of ops [] [])"
    by (rule sample_start_load) (use assms in auto)
  have v: "valid_convergent sample_key ''a'' (replica_of ops [] [])"
    by (rule sample_replica_state(1)) (use assms in auto)
  have x: "valid_operation x" using assms(1) valid_sample_create valid_sample_update by auto
  have "operation_id x \<notin> operation_id ` set ops"
    using assms(1,2,4) sample_ids(2) by (auto simp: image_iff)
  then have n: "fmlookup (cr_receipts (replica_of ops [] [])) (operation_id x) = None"
    unfolding receipts_known [OF v] by simp
  have c: "consistent (insert x (set ops)) {}"
    by (rule create_update_consistent) (use ops in auto)
  have "distinct (map operation_id (ops @ [x]))"
    using sample_writable [OF ops, of "[]"] by (simp add: writable_def)
  then have r: "replica_of (cr_operations (replica_of ops [] []) @ [x]) [] [] = replica_of (ops @ [x]) [] []"
    by (intro replica_of_cong) (auto simp: replica_of_def distinct_map_sort_key)
  have e: "cr_snapshots (replica_of ops [] []) = []" "cr_pending (replica_of ops [] []) = []"
    by (simp_all add: replica_of_def)
  have f: "write_fits (convergent_dict ''a'' (replica_of (ops @ [x]) [] []))"
    by (rule sample_replica_state(2) [OF ops]) simp_all
  show ?thesis
    using ingest_new [OF l v x n] c f by (simp add: e r store_write_def sample_replica_def)
qed

lemma sample_merge:
  assumes "set ops \<subseteq> {sample_create, sample_update}" "distinct ops"
  shows "merge_snapshot sample_key ''a'' (sample_start ops []) update_snapshot = Some (True, sample_replica ops [update_snapshot])"
proof -
  have l: "load_convergent sample_key ''a'' (sample_start ops []) = Some (replica_of ops [] [])"
    by (rule sample_start_load) (use assms in auto)
  have s: "snapshot_from_dict sample_key (snapshot_to_dict update_snapshot) = Some update_snapshot"
    by (rule snapshot_from_to [OF update_snapshot_valid])
  have w: "writable sample_key ''a'' ops [update_snapshot] []"
    by (rule sample_writable [OF assms]) simp_all
  have c: "consistent (set ops) {update_snapshot}" by (rule create_update_consistent) (use assms in auto)
  have f: "write_fits (convergent_dict ''a'' (replica_of ops [update_snapshot] []))"
    by (rule sample_replica_state(2) [OF assms]) simp_all
  have wo: "writable sample_key ''a'' (cr_operations (replica_of ops [] [])) [update_snapshot] []"
    by (rule sample_writable) (use assms in \<open>simp_all add: replica_of_def\<close>)
  have r: "replica_of (cr_operations (replica_of ops [] [])) [update_snapshot] [] = replica_of ops [update_snapshot] []"
    by (rule replica_of_cong)
      (use w wo in \<open>simp_all add: writable_def\<close>)
  have e: "cr_snapshots (replica_of ops [] []) = []" "cr_pending (replica_of ops [] []) = []"
    by (simp_all add: replica_of_def)
  show ?thesis
    using convergent_write_eq [OF wo] c f l s
    by (simp add: merge_snapshot_def e r store_write_def sample_replica_def update_snapshot_fields(1))
qed

lemma sample_known:
  assumes "set ops \<subseteq> {sample_create, sample_update}" "distinct ops" "x \<in> {sample_create, sample_update}"
  shows "ingest_remote sample_key ''a'' (sample_replica ops [update_snapshot]) x = Some (False, sample_replica ops [update_snapshot])"
proof -
  let ?s = "replica_of ops [update_snapshot] []"
  have l: "load_convergent sample_key ''a'' (sample_replica ops [update_snapshot]) = Some ?s"
    and v: "valid_convergent sample_key ''a'' ?s"
    by (rule sample_replica_state [OF assms(1,2)]; simp)+
  have "(operation_id x, fingerprint x) \<in> receipt_pairs (set ops) {update_snapshot}"
    using assms(3) by (auto simp: receipt_pairs_def update_snapshot_fields update_items)
  then have "fmlookup (cr_receipts ?s) (operation_id x) = Some (fingerprint x)"
    using valid_convergent_consistent(2) [OF v] by (auto simp: graph_def)
  moreover have "validated_operation x = Some x"
    using assms(3) valid_sample_create valid_sample_update by (auto simp: validated_operation_iff)
  ultimately show ?thesis using l by (simp add: ingest_remote_def)
qed

lemma sample_reachable:
  "replica_reachable sample_key ''a'' (sample_replica [sample_create] [])"
  "replica_reachable sample_key ''a'' (sample_replica [sample_create] [update_snapshot])"
  "replica_reachable sample_key ''a'' (sample_replica [] [update_snapshot])"
proof -
  have new: "replica_reachable sample_key ''a'' None" by (rule replica_new) simp
  have s: "sound_snapshot update_snapshot" by (rule valid_snapshot_sound [OF update_snapshot_valid])
  have i: "ingest_remote sample_key ''a'' None sample_create = Some (True, sample_replica [sample_create] [])"
    using sample_ingest [of sample_create "[]"] by (simp add: sample_start_def)
  show r1: "replica_reachable sample_key ''a'' (sample_replica [sample_create] [])"
    by (rule replica_more [OF new step_ingest [OF i]])
  have m: "merge_snapshot sample_key ''a'' (sample_replica [sample_create] []) update_snapshot
      = Some (True, sample_replica [sample_create] [update_snapshot])"
    using sample_merge [of "[sample_create]"] by (simp add: sample_start_def)
  show "replica_reachable sample_key ''a'' (sample_replica [sample_create] [update_snapshot])"
    by (rule replica_more [OF r1 step_merge [OF s m]])
  have m0: "merge_snapshot sample_key ''a'' None update_snapshot = Some (True, sample_replica [] [update_snapshot])"
    using sample_merge [of "[]"] by (simp add: sample_start_def)
  show "replica_reachable sample_key ''a'' (sample_replica [] [update_snapshot])"
    by (rule replica_more [OF new step_merge [OF s m0]])
qed

text \<open>The same operation queued locally: it is pending.\<close>

definition sample_queued :: store where
  "sample_queued = Some (convergent_dict ''a'' (replica_of [sample_create] [] [operation_id sample_create]))"

lemma sample_queued_state:
  "valid_convergent sample_key ''a'' (replica_of [sample_create] [] [operation_id sample_create])"
  "write_fits (convergent_dict ''a'' (replica_of [sample_create] [] [operation_id sample_create]))"
  "writable sample_key ''a'' [sample_create] [] [operation_id sample_create]"
proof -
  show w: "writable sample_key ''a'' [sample_create] [] [operation_id sample_create]"
    using sample_writable [of "[sample_create]" "[]"] by (simp add: writable_def)
  show "valid_convergent sample_key ''a'' (replica_of [sample_create] [] [operation_id sample_create])"
    by (rule replica_of_valid [OF w create_update_consistent]) simp_all
  have "json_weight (operation_to_dict sample_create) \<le> 20000" by (rule weight_samples)
  moreover have "length (operation_id sample_create) = 36" by (simp add: sample_create_def sample_uuid_def)
  ultimately show "write_fits (convergent_dict ''a'' (replica_of [sample_create] [] [operation_id sample_create]))"
    unfolding convergent_dict_def
    by (intro write_fits_weight) (simp add: replica_of_def CONVERGENT_REPLICA_STATE_FORMAT_def int_str_def)
qed

lemma sample_queued_load:
  "load_convergent sample_key ''a'' sample_queued = Some (replica_of [sample_create] [] [operation_id sample_create])"
  unfolding sample_queued_def by (rule convergent_load_written [OF sample_queued_state(1)])

lemma sample_queue: "queue_local sample_key ''a'' None sample_create = Some (True, sample_queued)"
proof -
  have v: "valid_convergent sample_key ''a'' (replica_of [] [] [])" by (rule sample_replica_state(1)) simp_all
  have "fmlookup (cr_receipts (replica_of [] [] [])) (operation_id sample_create) = None"
    unfolding receipts_known [OF v] by simp
  moreover have "cr_operations (replica_of [] [] []) = []" "cr_snapshots (replica_of [] [] []) = []" "cr_pending (replica_of [] [] []) = []"
    by (simp_all add: replica_of_def)
  moreover have "consistent {sample_create} {}" by (rule create_update_consistent) simp_all
  moreover have "validated_operation sample_create = Some sample_create"
    by (simp add: validated_operation_iff valid_sample_create)
  ultimately show ?thesis
    using convergent_write_eq [OF sample_queued_state(3)] sample_queued_state(2) sample_new
    by (simp add: queue_local_def store_write_def sample_queued_def)
qed

section \<open>What the replicas show\<close>

lemma sample_records_A:
  "convergent_records sample_key ''a'' (sample_replica [sample_create] [update_snapshot]) = Some [op_envelope sample_create]"
proof -
  have l: "load_convergent sample_key ''a'' (sample_replica [sample_create] [update_snapshot])
      = Some (replica_of [sample_create] [update_snapshot] [])"
    by (rule sample_replica_state(3)) simp_all
  have c: "candidates (replica_of [sample_create] [update_snapshot] []) =
      [\<lparr>cd_envelope = op_envelope sample_update, cd_operation = None, cd_snapshot = Some update_snapshot\<rparr>,
       \<lparr>cd_envelope = op_envelope sample_create, cd_operation = Some sample_create, cd_snapshot = None\<rparr>]"
    by (simp add: candidates_def replica_of_def update_snapshot_fields)
  show ?thesis
    by (simp add: convergent_records_def l resolve_convergent_records_def c resolve_object_def sample_fields)
qed

lemma sample_records_B:
  "convergent_records sample_key ''a'' (sample_replica [] [update_snapshot]) = Some [op_envelope sample_update]"
proof -
  have l: "load_convergent sample_key ''a'' (sample_replica [] [update_snapshot]) = Some (replica_of [] [update_snapshot] [])"
    by (rule sample_replica_state(3)) simp_all
  have c: "candidates (replica_of [] [update_snapshot] []) =
      [\<lparr>cd_envelope = op_envelope sample_update, cd_operation = None, cd_snapshot = Some update_snapshot\<rparr>]"
    by (simp add: candidates_def replica_of_def update_snapshot_fields)
  show ?thesis
    by (simp add: convergent_records_def l resolve_convergent_records_def c resolve_object_def sample_fields undominated_def)
qed

lemma sample_count:
  assumes "set ops \<subseteq> {sample_create, sample_update}" "distinct ops"
  shows "accepted_operation_count sample_key ''a'' (sample_replica ops [update_snapshot]) = Some 2"
proof -
  let ?s = "replica_of ops [update_snapshot] []"
  have l: "load_convergent sample_key ''a'' (sample_replica ops [update_snapshot]) = Some ?s"
    and v: "valid_convergent sample_key ''a'' ?s"
    by (rule sample_replica_state [OF assms]; simp)+
  have "fset (fmdom (cr_receipts ?s)) = Domain (receipt_pairs (set ops) {update_snapshot})"
    using valid_convergent_consistent(2) [OF v] by (simp add: graph_domain)
  also have "\<dots> = {operation_id sample_create, operation_id sample_update}"
    unfolding receipts_domain using assms(1) by (auto simp: update_snapshot_fields update_replay_def)
  finally have "fcard (fmdom (cr_receipts ?s)) = 2" using sample_ids(2) by (simp add: fcard.rep_eq)
  then show ?thesis by (simp add: accepted_operation_count_def l)
qed

lemma sample_counts:
  "accepted_operation_count sample_key ''a'' (sample_replica [sample_create] [update_snapshot]) = Some 2"
  "accepted_operation_count sample_key ''a'' (sample_replica [] [update_snapshot]) = Some 2"
  by (rule sample_count; simp)+

section \<open>A deletion\<close>

definition deleted_replica :: store where
  "deleted_replica = Some (convergent_dict ''a'' (replica_of [sample_delete] [] []))"

lemma deleted_state:
  "writable sample_key ''a'' [sample_delete] [] []" "consistent {sample_delete} {}"
  "write_fits (convergent_dict ''a'' (replica_of [sample_delete] [] []))"
proof -
  show "writable sample_key ''a'' [sample_delete] [] []" by (simp add: writable_def valid_sample_delete)
  have "revision_links {op_envelope sample_delete} = {((''x'', ''r2''), (''x'', ''r1''))}"
    by (auto simp: revision_links_def revision_key_def sample_delete_def)
  moreover have "acyclic {((''x'', ''r2''), (''x'', ''r1''))}"
  proof -
    have "acyclic {}" by (simp add: acyclic_def)
    then show ?thesis by (simp add: acyclic_insert)
  qed
  moreover have "parent_revision (op_envelope sample_delete) \<noteq> Some (revision (op_envelope sample_delete))"
    by (simp add: sample_delete_def)
  ultimately show "consistent {sample_delete} {}"
    by (simp add: consistent_def coherent_def receipt_pairs_def owner_pairs_def known_envelopes_def
        distinct_revisions_def one_to_one_def single_valued_def MAXIMUM_QUEUE_OPERATIONS_def)
  show "write_fits (convergent_dict ''a'' (replica_of [sample_delete] [] []))"
    unfolding convergent_dict_def
    using weight_samples(2)
    by (intro write_fits_weight) (simp add: replica_of_def CONVERGENT_REPLICA_STATE_FORMAT_def int_str_def)
qed

lemma deleted_ingest: "ingest_remote sample_key ''a'' None sample_delete = Some (True, deleted_replica)"
proof -
  have v: "valid_convergent sample_key ''a'' (replica_of [] [] [])" by (rule sample_replica_state(1)) simp_all
  have n: "fmlookup (cr_receipts (replica_of [] [] [])) (operation_id sample_delete) = None"
    unfolding receipts_known [OF v] by simp
  have "cr_operations (replica_of [] [] []) = []" "cr_snapshots (replica_of [] [] []) = []" "cr_pending (replica_of [] [] []) = []"
    by (simp_all add: replica_of_def)
  then show ?thesis
    using ingest_new [OF sample_new v valid_sample_delete n] deleted_state
    by (simp add: store_write_def deleted_replica_def)
qed

lemma deleted_replica_reachable: "replica_reachable sample_key ''a'' deleted_replica"
  by (rule replica_more [OF _ step_ingest [OF deleted_ingest]]) (rule replica_new, simp)

lemma deleted_replica_load:
  "\<exists>s. load_convergent sample_key ''a'' deleted_replica = Some s \<and> sample_delete \<in> set (cr_operations s)"
proof -
  have "valid_convergent sample_key ''a'' (replica_of [sample_delete] [] [])"
    by (rule replica_of_valid [OF deleted_state(1)]) (use deleted_state(2) in simp)
  then show ?thesis unfolding deleted_replica_def using convergent_load_written
    by (intro exI [of _ "replica_of [sample_delete] [] []"]) simp
qed

end
