(* ===== verification/ReplicaProperties.thy ===== *)
theory ReplicaProperties
  imports ReplicaSamples
begin

text \<open>
  The properties of the convergent replica.
\<close>

section \<open>What is known\<close>

lemma known_envelopes_mono: "X \<subseteq> X' \<Longrightarrow> S \<subseteq> S' \<Longrightarrow> known_envelopes X S \<subseteq> known_envelopes X' S'"
  unfolding known_envelopes_def by blast

lemma known_grow: "grows s s' \<Longrightarrow> known_envelopes (set (cr_operations s)) (set (cr_snapshots s))
    \<subseteq> known_envelopes (set (cr_operations s')) (set (cr_snapshots s'))"
  by (rule known_envelopes_mono) (simp_all add: grows_def)

text \<open>An object with a known envelope has a record.\<close>

lemma known_object_resolved:
  assumes "resolve_convergent_records s = Some rs" "f \<in> known_envelopes (set (cr_operations s)) (set (cr_snapshots s))"
  obtains e where "e \<in> set rs" "object_id e = object_id f" "resolves_to s (object_id f) e"
proof -
  have o: "map object_id rs = sort (remdups (map (\<lambda>c. object_id (cd_envelope c)) (candidates s)))"
    and r: "\<forall>e \<in> set rs. resolves_to s (object_id e) e"
    using resolve_records [of s] assms(1) by auto
  have "object_id f \<in> set (map object_id rs)"
    unfolding o using assms(2) by (auto simp: candidate_envelopes [symmetric])
  with r show thesis using that by auto
qed

section \<open>Properties\<close>

text \<open>C8: whatever calls are made in whatever order, the file of a replica loads or is overfull: the
  one exception is a file written by the merge of a snapshot into a replica that holds as many
  snapshots as can be read.  What it loads is consistent: no identifier with two contents, no sequence
  number used twice, no revision with two envelopes and no cycle of parents; the receipts are those of
  the operations and snapshots, and what is pending has been accepted.  The snapshots that are merged
  are well-formed instances, as all are that from_dict returns.\<close>

theorem replica_always_loads:
  assumes "replica_reachable key cid st"
  shows "case load_convergent key cid st of
      Some s \<Rightarrow> consistent (set (cr_operations s)) (set (cr_snapshots s))
        \<and> Map.graph (fmlookup (cr_receipts s)) = receipt_pairs (set (cr_operations s)) (set (cr_snapshots s))
        \<and> set (cr_pending s) \<subseteq> operation_id ` set (cr_operations s)
        \<and> length (cr_operations s) \<le> MAXIMUM_QUEUE_OPERATIONS
    | None \<Rightarrow> overfull key cid st"
proof (cases "load_convergent key cid st")
  case None
  then show ?thesis using replica_reachable_cases [OF assms] by simp
next
  case (Some s)
  then have v: "valid_convergent key cid s" by (rule replica_reachable_valid [OF assms])
  then have "set (cr_pending s) \<subseteq> operation_id ` set (cr_operations s)"
    unfolding valid_convergent_def by blast
  then show ?thesis using Some valid_convergent_consistent [OF v] valid_convergent_bounds(1) [OF v] by simp
qed

theorem replica_always_loads_witness:
  "\<exists>s. load_convergent sample_key ''a'' (sample_replica [sample_create] [update_snapshot]) = Some s
    \<and> consistent (set (cr_operations s)) (set (cr_snapshots s))"
proof -
  have "load_convergent sample_key ''a'' (sample_replica [sample_create] [update_snapshot])
      = Some (replica_of [sample_create] [update_snapshot] [])"
    by (rule sample_replica_state(3)) simp_all
  then show ?thesis using replica_always_loads [OF sample_reachable(2)] by simp
qed

text \<open>C11: the validation of a history, with its loops over snapshots, operations and parent
  chains, succeeds exactly on the consistent sets and returns their receipts; so its result does
  not depend on the order of its arguments.\<close>

theorem validation_is_consistency:
  assumes "\<forall>x \<in> set ops. valid_operation x" and "\<forall>t \<in> set snaps. sound_snapshot t"
  shows "(validate_convergent_history ops snaps = None \<longleftrightarrow> \<not> consistent (set ops) (set snaps))
    \<and> (\<forall>m. validate_convergent_history ops snaps = Some m \<longrightarrow>
         Map.graph (fmlookup m) = receipt_pairs (set ops) (set snaps))"
proof (cases "consistent (set ops) (set snaps)")
  case True
  obtain m where m: "validate_convergent_history ops snaps = Some m"
    "Map.graph (fmlookup m) = receipt_pairs (set ops) (set snaps)"
    using validate_iff [OF assms] unfolding if_P [OF True] by (elim exE conjE)
  show ?thesis unfolding m(1) using True m(2) by simp
next
  case False
  have "validate_convergent_history ops snaps = None"
    using validate_iff [OF assms] unfolding if_not_P [OF False] .
  with False show ?thesis by simp
qed

theorem validation_is_consistency_witness:
  "validate_convergent_history [sample_create, sample_update] [update_snapshot] \<noteq> None"
  using validation_is_consistency [of "[sample_create, sample_update]" "[update_snapshot]"]
    create_update_consistent [of "{sample_create, sample_update}" "{update_snapshot}"]
    valid_sample_create valid_sample_update valid_snapshot_sound [OF update_snapshot_valid]
  by simp

text \<open>C12: the walk along the parents ends from every revision, and it ends without an error from
  all of them exactly when the parents have no cycle.\<close>

theorem parent_walk_finds_cycles:
  "list_all (\<lambda>start. chain_ends parents {} (Some start)) (map fst (items parents)) \<longleftrightarrow> acyclic (parent_links parents)"
  by (rule chains_end_iff)

text \<open>C7: the order of delivery does not matter: if a list of operations is delivered to a replica without
  an error, then the same operations in any other order, and with any repetitions, are delivered
  without an error too and leave the same file, byte for byte.\<close>

theorem delivery_order_irrelevant:
  assumes "replica_reachable key cid st" and "deliver key cid st xs = Some st'"
    and "set ys = set xs" and "inj_on operation_id (set xs)"
  shows "deliver key cid st ys = Some st'"
proof (cases "load_convergent key cid st")
  case None
  then have "xs = []" using assms(2) by (cases xs) (auto simp: ingest_remote_def elim!: bind_SomeE)
  then show ?thesis using assms(2,3) by simp
next
  case (Some s)
  show ?thesis by (rule deliver_order [OF Some replica_reachable_valid [OF assms(1) Some] assms(2-4)])
qed

theorem delivery_order_irrelevant_witness:
  "deliver sample_key ''a'' None [sample_update, sample_create, sample_update]
    = Some (sample_replica [sample_create, sample_update] [])"
proof (rule delivery_order_irrelevant)
  show "replica_reachable sample_key ''a'' None" by (rule replica_new) simp
  have "ingest_remote sample_key ''a'' None sample_create = Some (True, sample_replica [sample_create] [])"
    using sample_ingest [of sample_create "[]"] by (simp add: sample_start_def)
  moreover have "ingest_remote sample_key ''a'' (sample_replica [sample_create] []) sample_update
      = Some (True, sample_replica [sample_create, sample_update] [])"
    using sample_ingest [of sample_update "[sample_create]"] sample_ids(2) by (fastforce simp: sample_start_def)
  ultimately show "deliver sample_key ''a'' None [sample_create, sample_update] = Some (sample_replica [sample_create, sample_update] [])"
    by simp
  show "inj_on operation_id (set [sample_create, sample_update])" using sample_ids(2) by (auto simp: inj_on_def)
qed auto

text \<open>Two replicas that hold the same operations and snapshots agree on the records, on the
  number of accepted operations and on which identifiers are known, however they came by them and
  whatever each has pending.\<close>

theorem replicas_converge:
  assumes "replica_reachable key cid st1" and "replica_reachable key cid st2"
    and "load_convergent key cid st1 = Some s1" and "load_convergent key cid st2 = Some s2"
    and "set (cr_operations s1) = set (cr_operations s2)" and "set (cr_snapshots s1) = set (cr_snapshots s2)"
  shows "convergent_records key cid st1 = convergent_records key cid st2
    \<and> accepted_operation_count key cid st1 = accepted_operation_count key cid st2
    \<and> cr_receipts s1 = cr_receipts s2"
proof -
  have v: "valid_convergent key cid s1" "valid_convergent key cid s2"
    using replica_reachable_valid assms(1-4) by blast+
  have "cr_operations s1 = cr_operations s2"
    by (rule sorted_key_unique [of operation_id]) (use v assms(5) in \<open>simp_all add: valid_convergent_def\<close>)
  moreover have "cr_snapshots s1 = cr_snapshots s2"
    by (rule sorted_key_unique [of canonical_payload_sha256]) (use v assms(6) in \<open>simp_all add: valid_convergent_def\<close>)
  moreover from calculation have "cr_receipts s1 = cr_receipts s2"
    using v by (simp add: valid_convergent_def)
  ultimately show ?thesis using assms(3,4)
    by (simp add: convergent_records_def accepted_operation_count_def resolve_convergent_records_def candidates_def)
qed

theorem replicas_converge_witness:
  "\<exists>st. queue_local sample_key ''a'' None sample_create = Some (True, st) \<and> st \<noteq> sample_replica [sample_create] []
    \<and> convergent_records sample_key ''a'' st = convergent_records sample_key ''a'' (sample_replica [sample_create] [])"
proof -
  let ?q = "replica_of [sample_create] [] [operation_id sample_create]"
  have r: "replica_reachable sample_key ''a'' sample_queued"
    by (rule replica_more [OF _ step_queue [OF sample_queue]]) (rule replica_new, simp)
  have "sample_queued \<noteq> sample_replica [sample_create] []"
    by (simp add: sample_queued_def sample_replica_def convergent_dict_def replica_of_def)
  moreover have "convergent_records sample_key ''a'' sample_queued = convergent_records sample_key ''a'' (sample_replica [sample_create] [])"
    using replicas_converge [OF r sample_reachable(1) sample_queued_load(1)]
      sample_replica_state(3) [of "[sample_create]" "[]"] by (simp add: replica_of_def)
  ultimately show ?thesis using sample_queue by blast
qed

text \<open>A replica always has records, one per object in order of the objects: an envelope it has
  accepted, a tombstone if any accepted envelope of the object is one, and otherwise, among the
  operations of the same kind on the object, that of the greatest in the total order.\<close>

theorem resolution_rule:
  "\<exists>rs. resolve_convergent_records s = Some rs
    \<and> sorted (map object_id rs) \<and> distinct (map object_id rs)
    \<and> object_id ` set rs = object_id ` known_envelopes (set (cr_operations s)) (set (cr_snapshots s))
    \<and> (\<forall>e \<in> set rs. resolves_to s (object_id e) e)"
proof -
  obtain rs where rs: "resolve_convergent_records s = Some rs"
    "map object_id rs = sort (remdups (map (\<lambda>c. object_id (cd_envelope c)) (candidates s)))"
    "\<forall>e \<in> set rs. resolves_to s (object_id e) e"
    using resolve_records by blast
  have "set (map object_id rs) = object_id ` known_envelopes (set (cr_operations s)) (set (cr_snapshots s))"
    unfolding rs(2) candidate_envelopes [symmetric] by (auto simp: image_image)
  then have "object_id ` set rs = object_id ` known_envelopes (set (cr_operations s)) (set (cr_snapshots s))"
    by simp
  moreover have "sorted (map object_id rs)" "distinct (map object_id rs)" unfolding rs(2) by simp_all
  ultimately show ?thesis using rs(1,3) by blast
qed

theorem resolution_rule_witness:
  "\<exists>rs. resolve_convergent_records (replica_of [sample_create] [update_snapshot] []) = Some rs
    \<and> distinct (map object_id rs) \<and> object_id ` set rs = {''x''}"
proof -
  have "object_id ` known_envelopes {sample_create} {update_snapshot} = {''x''}"
    by (simp add: known_envelopes_def update_snapshot_fields sample_fields)
  then show ?thesis using resolution_rule [of "replica_of [sample_create] [update_snapshot] []"] by fastforce
qed

text \<open>C9: a deletion is final: once an accepted envelope of an object is a tombstone, the record of
  the object is a tombstone after any further calls, whatever they deliver, for as long as there are
  records; reading them fails only from an overfull file.\<close>

theorem tombstones_are_final:
  assumes "replica_reachable key cid st" and "load_convergent key cid st = Some s"
    and "f \<in> known_envelopes (set (cr_operations s)) (set (cr_snapshots s))" and "tombstone f"
    and "(replica_step key cid)\<^sup>*\<^sup>* st st'"
  shows "case convergent_records key cid st' of
      Some rs \<Rightarrow> \<exists>e \<in> set rs. object_id e = object_id f \<and> tombstone e
    | None \<Rightarrow> overfull key cid st'"
proof (cases "load_convergent key cid st'")
  case None
  then show ?thesis
    using replica_reachable_cases [OF replica_steps_reachable [OF assms(5,1)]] by (simp add: convergent_records_def)
next
  case (Some s')
  have "grows s s'"
    using replica_steps_grow [OF assms(5,2) replica_reachable_valid [OF assms(1,2)]] Some by simp
  then have f: "f \<in> known_envelopes (set (cr_operations s')) (set (cr_snapshots s'))"
    using known_grow assms(3) by blast
  obtain rs where rs: "resolve_convergent_records s' = Some rs" using resolve_records by blast
  obtain e where e: "e \<in> set rs" "object_id e = object_id f" "resolves_to s' (object_id f) e"
    using known_object_resolved [OF rs f] .
  have "tombstone e" using e(3) f assms(4) unfolding resolves_to_def Let_def by blast
  then show ?thesis using e(1,2) Some rs by (auto simp: convergent_records_def)
qed

theorem tombstones_are_final_witness:
  "\<exists>rs. convergent_records sample_key ''a'' deleted_replica = Some rs
    \<and> (\<exists>e \<in> set rs. object_id e = ''x'' \<and> tombstone e)"
proof -
  obtain s where s: "load_convergent sample_key ''a'' deleted_replica = Some s" "sample_delete \<in> set (cr_operations s)"
    using deleted_replica_load by blast
  obtain rs where rs: "convergent_records sample_key ''a'' deleted_replica = Some rs"
    using s(1) resolve_records [of s] by (auto simp: convergent_records_def)
  have f: "op_envelope sample_delete \<in> known_envelopes (set (cr_operations s)) (set (cr_snapshots s))"
    using s(2) by (simp add: known_envelopes_def)
  have "case convergent_records sample_key ''a'' deleted_replica of
      Some rs \<Rightarrow> \<exists>e \<in> set rs. object_id e = object_id (op_envelope sample_delete) \<and> tombstone e
    | None \<Rightarrow> overfull sample_key ''a'' deleted_replica"
    by (rule tombstones_are_final [OF deleted_replica_reachable s(1) f _ rtranclp.rtrancl_refl])
      (simp add: sample_delete_def)
  then show ?thesis using rs by (simp add: sample_delete_def)
qed

text \<open>C10: synchronisation loses nothing.  Whether or not it gets through, both files still load, the
  sender still holds all its operations, the receiver forgets nothing it had accepted, and every
  operation that is no longer pending with the sender is accepted by the receiver.  If it gets
  through, nothing that was pending is left and the count is the number of operations sent.\<close>

theorem synchronization_loses_nothing:
  assumes "replica_reachable key cid st" and "replica_reachable rkey cid remote"
    and "load_convergent key cid st = Some s" and "load_convergent rkey cid remote = Some r"
    and "synchronize_to key cid rkey cid st remote = (res, st', remote')"
  shows "\<exists>s' r'. load_convergent key cid st' = Some s' \<and> load_convergent rkey cid remote' = Some r'
    \<and> handed_over s r s' r'
    \<and> (\<forall>n. res = Some n \<longrightarrow> cr_pending s' = [] \<and> n = length (cr_pending s))"
proof -
  have v: "valid_convergent key cid s" "valid_convergent rkey cid r"
    using replica_reachable_valid assms(1-4) by blast+
  let ?xs = "sort_operations (filter (\<lambda>x. operation_id x \<in> set (cr_pending s)) (cr_operations s))"
  have p: "convergent_pending key cid st = Some ?xs" using assms(3) by (simp add: convergent_pending_def)
  have d: "distinct (map operation_id (cr_operations s))" "distinct (cr_pending s)"
    "set (cr_pending s) \<subseteq> operation_id ` set (cr_operations s)"
    using v(1) by (simp_all add: valid_convergent_def)
  have ids: "operation_id ` set ?xs = set (cr_pending s)" using d(3) by auto
  have dx: "distinct (map operation_id ?xs)"
    using d(1) by (simp add: distinct_sort_operations distinct_map_filter)
  have "length ?xs = card (set (cr_pending s))"
    using distinct_card [OF dx] ids by simp
  then have n: "length ?xs = length (cr_pending s)" using distinct_card [OF d(2)] by simp
  have t: "transfer key rkey cid ?xs st remote 0 = (res, st', remote')"
    using assms(5) p by (simp add: synchronize_to_def)
  obtain s' r' where "load_convergent key cid st' = Some s'" "load_convergent rkey cid remote' = Some r'"
    "handed_over s r s' r'"
    "\<forall>n. res = Some n \<longrightarrow> n = 0 + length ?xs \<and> set (cr_pending s') = set (cr_pending s) - operation_id ` set ?xs"
    using transfer_spec [OF assms(3) v(1) assms(4) v(2) dx _ t] by auto
  then show ?thesis unfolding ids n by (intro exI [of _ s'] exI [of _ r']) auto
qed

theorem synchronization_loses_nothing_witness:
  "\<exists>s' r'. load_convergent sample_key ''a'' (fst (snd (synchronize_to sample_key ''a'' sample_key ''a'' sample_queued None))) = Some s'
    \<and> load_convergent sample_key ''a'' (snd (snd (synchronize_to sample_key ''a'' sample_key ''a'' sample_queued None))) = Some r'
    \<and> handed_over (replica_of [sample_create] [] [operation_id sample_create]) (replica_of [] [] []) s' r'"
proof -
  have n: "replica_reachable sample_key ''a'' None" by (rule replica_new) simp
  have q: "replica_reachable sample_key ''a'' sample_queued"
    by (rule replica_more [OF n step_queue [OF sample_queue]])
  obtain res st' remote' where e: "synchronize_to sample_key ''a'' sample_key ''a'' sample_queued None = (res, st', remote')"
    by (cases "synchronize_to sample_key ''a'' sample_key ''a'' sample_queued None")
  show ?thesis unfolding e fst_conv snd_conv
    using synchronization_loses_nothing [OF q n sample_queued_load sample_new e] by blast
qed

text \<open>An operation received twice is absorbed, one that reuses an identifier with other content
  raises, one that is not well formed raises; a new one is stored exactly if the replica stays
  consistent and the file is not too large.\<close>

theorem ingest_spec:
  assumes "replica_reachable key cid st" and "load_convergent key cid st = Some s"
  shows "ingest_remote key cid st x =
    (if \<not> valid_operation x then None
     else case fmlookup (cr_receipts s) (operation_id x) of
       Some known \<Rightarrow> if known = fingerprint x then Some (False, st) else None
     | None \<Rightarrow>
         if consistent (insert x (set (cr_operations s))) (set (cr_snapshots s))
         then map_option (Pair True)
           (store_write (convergent_dict cid (replica_of (cr_operations s @ [x]) (cr_snapshots s) (cr_pending s))))
         else None)"
proof -
  have v: "valid_convergent key cid s" by (rule replica_reachable_valid [OF assms(1,2)])
  have i: "validated_operation x = (if valid_operation x then Some x else None)"
    by (cases "validated_operation x") (use validated_operation_iff [of x] in auto)
  show ?thesis
  proof (cases "valid_operation x \<and> fmlookup (cr_receipts s) (operation_id x) = None")
    case True
    then show ?thesis using ingest_new [OF assms(2) v] by simp
  next
    case False
    then show ?thesis using i assms(2) by (auto simp: ingest_remote_def)
  qed
qed

theorem ingest_spec_witness:
  "ingest_remote sample_key ''a'' (sample_replica [sample_create] []) sample_create = Some (False, sample_replica [sample_create] [])"
proof -
  have l: "load_convergent sample_key ''a'' (sample_replica [sample_create] []) = Some (replica_of [sample_create] [] [])"
    and v: "valid_convergent sample_key ''a'' (replica_of [sample_create] [] [])"
    by (rule sample_replica_state; simp)+
  have "fmlookup (cr_receipts (replica_of [sample_create] [] [])) (operation_id sample_create) = Some (fingerprint sample_create)"
    by (rule fingerprint_receipt [OF v]) simp
  then show ?thesis using ingest_spec [OF sample_reachable(1) l, of sample_create] valid_sample_create by simp
qed

text \<open>C13: The records depend on the order of delivery once a snapshot is involved.  The history is
  a creation of an object and an update of it; the snapshot holds both.  A replica that receives the
  creation and then merges the snapshot shows the superseded creation, since an explicit operation
  wins over any snapshot; one that merges the snapshot first recognises the creation and shows the
  update.  Both have accepted the same two operations.\<close>

theorem snapshot_order_changes_records:
  "\<exists>st1 st2 stA stB.
     ingest_remote sample_key ''a'' None sample_create = Some (True, st1)
   \<and> merge_snapshot sample_key ''a'' st1 update_snapshot = Some (True, stA)
   \<and> merge_snapshot sample_key ''a'' None update_snapshot = Some (True, st2)
   \<and> ingest_remote sample_key ''a'' st2 sample_create = Some (False, stB)
   \<and> convergent_records sample_key ''a'' stA = Some [op_envelope sample_create]
   \<and> convergent_records sample_key ''a'' stB = Some [op_envelope sample_update]
   \<and> accepted_operation_count sample_key ''a'' stA = Some 2
   \<and> accepted_operation_count sample_key ''a'' stB = Some 2"
proof -
  have i: "ingest_remote sample_key ''a'' None sample_create = Some (True, sample_replica [sample_create] [])"
    using sample_ingest [of sample_create "[]"] by (simp add: sample_start_def)
  have m: "merge_snapshot sample_key ''a'' (sample_replica [sample_create] []) update_snapshot
      = Some (True, sample_replica [sample_create] [update_snapshot])"
    using sample_merge [of "[sample_create]"] by (simp add: sample_start_def)
  have m0: "merge_snapshot sample_key ''a'' None update_snapshot = Some (True, sample_replica [] [update_snapshot])"
    using sample_merge [of "[]"] by (simp add: sample_start_def)
  have k: "ingest_remote sample_key ''a'' (sample_replica [] [update_snapshot]) sample_create
      = Some (False, sample_replica [] [update_snapshot])"
    by (rule sample_known) simp_all
  show ?thesis
    using i m m0 k sample_records_A sample_records_B sample_counts by blast
qed

end
