(* ===== verification/Commitment.thy ===== *)
theory Commitment
  imports Envelope Store Snapshot
begin

text \<open>
  Signed state commitments and the rollback tracker (\<open>SignedStateCommitment\<close>, \<open>RollbackTracker\<close>).
  Ed25519 is a parameter: \<open>sign\<close> is the private key's signing function, \<open>verify\<close> takes a public
  key, a signature and a message.  The tracker's file is a \<open>store\<close>; its lock makes every call one
  step.
\<close>

section \<open>Commitments\<close>

definition COMMITMENT_FORMAT :: string where
  "COMMITMENT_FORMAT = ''atlasvault-state-commitment''"

definition ZERO_ROOT :: string where
  "ZERO_ROOT = replicate 64 (CHR ''0'')"

definition MAX_COMMITMENT_SEQUENCE :: int where
  "MAX_COMMITMENT_SEQUENCE = 9007199254740991"

definition ROOT_SIGNATURE_DOMAIN :: string where
  "ROOT_SIGNATURE_DOMAIN = ''atlasvault-state-root-signature-v1'' @ [CHR 0x00]"

fun commitment_hex :: "json \<Rightarrow> string option" where
  "commitment_hex (JStr s) = (if match_sha256 s then Some s else None)"
| "commitment_hex _ = None"

fun commitment_sequence :: "bool \<Rightarrow> json \<Rightarrow> int option" where
  "commitment_sequence allow_zero (JInt n) =
     (if (if allow_zero then 0 else 1) \<le> n \<and> n \<le> MAX_COMMITMENT_SEQUENCE then Some n else None)"
| "commitment_sequence _ _ = None"

definition state_digest :: "string \<Rightarrow> string option" where
  "state_digest v = do {
     require (16 \<le> length v \<and> length v \<le> MAXIMUM_QUEUE_FILE_BYTES);
     Some (sha256_hex v) }"

definition newline :: string where
  "newline = [CHR 0x0A]"

definition commitment_transcript :: "string \<Rightarrow> int \<Rightarrow> string \<Rightarrow> string \<Rightarrow> string" where
  "commitment_transcript collection seq previous dig =
     ''atlasvault-state-commitment-v1'' @ newline @ collection @ newline @ int_str seq @ newline
       @ previous @ newline @ dig @ newline"

definition commitment_root :: "string \<Rightarrow> int \<Rightarrow> string \<Rightarrow> string \<Rightarrow> string" where
  "commitment_root collection seq previous dig = sha256_hex (commitment_transcript collection seq previous dig)"

text \<open>\<open>bytes.fromhex\<close> on an even number of hexadecimal digits.\<close>

fun from_hex :: "string \<Rightarrow> string" where
  "from_hex (a # b # s) = byte_of (16 * hex_digit_val a + hex_digit_val b) # from_hex s"
| "from_hex _ = []"

record commitment =
  cm_collection :: string
  cm_sequence :: int
  cm_previous :: string
  cm_state_sha256 :: string
  cm_root :: string
  cm_signature_b64 :: string

definition commitment_keys :: "string list" where
  "commitment_keys = [''format'', ''version'', ''collection_id'', ''sequence'', ''previous_root'',
     ''state_sha256'', ''root'', ''signature_b64'']"

definition commitment_from_dict :: "json \<Rightarrow> commitment option" where
  "commitment_from_dict v = do {
     obj \<leftarrow> mapping v;
     exact obj commitment_keys;
     format_v \<leftarrow> map_of obj ''format'';
     version_v \<leftarrow> map_of obj ''version'';
     require (format_v = JStr COMMITMENT_FORMAT \<and> version_v = JInt 1);
     collection \<leftarrow> map_of obj ''collection_id'' \<bind> identifier_value;
     seq \<leftarrow> map_of obj ''sequence'' \<bind> commitment_sequence False;
     previous \<leftarrow> map_of obj ''previous_root'' \<bind> commitment_hex;
     dig \<leftarrow> map_of obj ''state_sha256'' \<bind> commitment_hex;
     root \<leftarrow> map_of obj ''root'' \<bind> commitment_hex;
     signature_v \<leftarrow> map_of obj ''signature_b64'';
     require (\<exists>t \<in> (case signature_v of JStr t \<Rightarrow> {t} | _ \<Rightarrow> {}). length t = 88);
     signature \<leftarrow> canonical_base64 (Some 64) 1 signature_v;
     require (\<not> ((seq = 1) \<noteq> (previous = ZERO_ROOT) \<or> root \<noteq> commitment_root collection seq previous dig));
     Some \<lparr>cm_collection = collection, cm_sequence = seq, cm_previous = previous, cm_state_sha256 = dig,
       cm_root = root, cm_signature_b64 = signature\<rparr> }"

definition commitment_to_dict :: "commitment \<Rightarrow> json" where
  "commitment_to_dict c = JObj
     [(''format'', JStr COMMITMENT_FORMAT), (''version'', JInt 1), (''collection_id'', JStr (cm_collection c)),
      (''sequence'', JInt (cm_sequence c)), (''previous_root'', JStr (cm_previous c)),
      (''state_sha256'', JStr (cm_state_sha256 c)), (''root'', JStr (cm_root c)),
      (''signature_b64'', JStr (cm_signature_b64 c))]"

definition signed_message :: "string \<Rightarrow> string" where
  "signed_message root = ROOT_SIGNATURE_DOMAIN @ from_hex root"

definition commitment_sign :: "(string \<Rightarrow> string) \<Rightarrow> string \<Rightarrow> string \<Rightarrow> int \<Rightarrow> string \<Rightarrow> commitment option" where
  "commitment_sign sign opaque_state collection_text seq_in previous_root = do {
     collection \<leftarrow> identifier_value (JStr collection_text);
     seq \<leftarrow> commitment_sequence False (JInt seq_in);
     previous \<leftarrow> commitment_hex (JStr previous_root);
     dig \<leftarrow> state_digest opaque_state;
     let root = commitment_root collection seq previous dig;
     commitment_from_dict (commitment_to_dict
       \<lparr>cm_collection = collection, cm_sequence = seq, cm_previous = previous, cm_state_sha256 = dig,
         cm_root = root, cm_signature_b64 = b64encode (sign (signed_message root))\<rparr>) }"

definition valid_commitment :: "commitment \<Rightarrow> bool" where
  "valid_commitment c \<longleftrightarrow> is_identifier (cm_collection c)
     \<and> 1 \<le> cm_sequence c \<and> cm_sequence c \<le> MAX_COMMITMENT_SEQUENCE
     \<and> match_sha256 (cm_previous c) \<and> match_sha256 (cm_state_sha256 c)
     \<and> cm_root c = commitment_root (cm_collection c) (cm_sequence c) (cm_previous c) (cm_state_sha256 c)
     \<and> (cm_sequence c = 1 \<longleftrightarrow> cm_previous c = ZERO_ROOT)
     \<and> length (cm_signature_b64 c) = 88 \<and> is_base64 (Some 64) 1 (cm_signature_b64 c)"

lemma commitment_hex_iff [simp]: "commitment_hex v = Some s \<longleftrightarrow> v = JStr s \<and> match_sha256 s"
  by (cases v) auto

lemma commitment_sequence_iff [simp]:
  "commitment_sequence z v = Some n \<longleftrightarrow> v = JInt n \<and> (if z then 0 else 1) \<le> n \<and> n \<le> MAX_COMMITMENT_SEQUENCE"
  by (cases v) auto

lemma match_root [simp]: "match_sha256 (commitment_root c n p d)"
  by (simp add: commitment_root_def)

lemma commitment_from_to: "valid_commitment c \<Longrightarrow> commitment_from_dict (commitment_to_dict c) = Some c"
  by (cases c) (simp add: valid_commitment_def commitment_from_dict_def commitment_to_dict_def exact_def commitment_keys_def)

lemma commitment_from_valid: "commitment_from_dict v = Some c \<Longrightarrow> valid_commitment c"
  unfolding commitment_from_dict_def
  by (auto elim!: bind_SomeE simp: valid_commitment_def split: json.splits)

interpretation commitment_codec: codec valid_commitment commitment_to_dict commitment_from_dict
  by unfold_locales (rule commitment_from_to, assumption, rule commitment_from_valid)

end
