(* ===== verification/RollbackTracker.thy ===== *)
theory RollbackTracker
  imports Commitment Canonical
begin

text \<open>
  \<open>RollbackTracker\<close>: the anchor a client keeps of the last state it accepted from the server, and
  what no sequence of served commitments can make it do.
\<close>

section \<open>The anchor\<close>

definition tracker_init :: "string \<Rightarrow> string \<Rightarrow> string option" where
  "tracker_init collection_text trusted_signer = do {
     require (length trusted_signer = 32);
     identifier_value (JStr collection_text) }"

definition anchor :: "string \<Rightarrow> string \<Rightarrow> int \<Rightarrow> string \<Rightarrow> json" where
  "anchor coll public seq root = JObj
     [(''collection_id'', JStr coll), (''signing_public_b64'', JStr (b64encode public)),
      (''sequence'', JInt seq), (''root'', JStr root)]"

definition anchor_keys :: "string list" where
  "anchor_keys = [''collection_id'', ''signing_public_b64'', ''sequence'', ''root'']"

definition tracker_initialize :: "string \<Rightarrow> string \<Rightarrow> store \<Rightarrow> store option" where
  "tracker_initialize coll public st = do {
     require (st = None);
     store_write (anchor coll public 0 ZERO_ROOT) }"

text \<open>\<open>_load\<close>: the sequence number and root of the anchor.\<close>

definition tracker_load :: "string \<Rightarrow> string \<Rightarrow> store \<Rightarrow> (int \<times> string) option" where
  "tracker_load coll public st = do {
     state \<leftarrow> mapping (store_read st (JObj []));
     exact state anchor_keys;
     seq \<leftarrow> map_of state ''sequence'' \<bind> commitment_sequence True;
     root \<leftarrow> map_of state ''root'' \<bind> commitment_hex;
     expected \<leftarrow> mapping (anchor coll public seq root);
     require (list_all (\<lambda>k. map_of state k = map_of expected k) anchor_keys);
     require (\<not> ((seq = 0) \<noteq> (root = ZERO_ROOT)));
     Some (seq, root) }"

definition tracker_checkpoint :: "string \<Rightarrow> string \<Rightarrow> store \<Rightarrow> json option" where
  "tracker_checkpoint coll public st =
     map_option (\<lambda>(seq, root). anchor coll public seq root) (tracker_load coll public st)"

definition tracker_accept :: "(string \<Rightarrow> string \<Rightarrow> string \<Rightarrow> bool) \<Rightarrow> string \<Rightarrow> string \<Rightarrow> store
    \<Rightarrow> json \<Rightarrow> string \<Rightarrow> (bool \<times> store) option" where
  "tracker_accept verify coll public st served opaque_state = do {
     (seq, root) \<leftarrow> tracker_load coll public st;
     c \<leftarrow> commitment_from_dict served;
     dig \<leftarrow> state_digest opaque_state;
     require (\<not> (cm_collection c \<noteq> coll \<or> cm_state_sha256 c \<noteq> dig));
     signature \<leftarrow> b64decode (cm_signature_b64 c);
     require (verify public signature (signed_message (cm_root c)));
     if cm_sequence c = seq \<and> cm_root c = root then Some (False, st)
     else do {
       require (\<not> (cm_sequence c \<noteq> seq + 1 \<or> cm_previous c \<noteq> root));
       st' \<leftarrow> store_write (anchor coll public (cm_sequence c) (cm_root c));
       Some (True, st') } }"

section \<open>Loading\<close>

lemma anchor_fits:
  assumes "is_identifier coll" "length public = 32" "match_sha256 root" "length (int_str seq) \<le> 100"
  shows "write_fits (anchor coll public seq root)"
  unfolding anchor_def
  by (intro write_fits_weight) (use assms in \<open>simp add: length_b64encode is_identifier_def match_sha256_def\<close>)

lemma zero_root_hex [simp]: "match_sha256 ZERO_ROOT"
  by (simp add: match_sha256_def ZERO_ROOT_def is_hex_def byte_val_def Let_def list_all_iff)

lemma tracker_load_anchor:
  assumes "0 \<le> seq" "seq \<le> MAX_COMMITMENT_SEQUENCE" "match_sha256 root" "seq = 0 \<longleftrightarrow> root = ZERO_ROOT"
  shows "tracker_load coll public (Some (anchor coll public seq root)) = Some (seq, root)"
  using assms by (simp add: tracker_load_def anchor_def exact_def anchor_keys_def)

lemma tracker_load_anchorD:
  "tracker_load coll public (Some (anchor coll public seq root)) = Some (n, r) \<Longrightarrow> n = seq \<and> r = root"
  by (auto simp: tracker_load_def anchor_def elim!: bind_SomeE split: if_splits)

section \<open>What is accepted\<close>

text \<open>A served commitment that is well formed, for this collection and this state, and signed by the
  trusted signer.\<close>

definition authentic :: "(string \<Rightarrow> string \<Rightarrow> string \<Rightarrow> bool) \<Rightarrow> string \<Rightarrow> string \<Rightarrow> commitment \<Rightarrow> string \<Rightarrow> bool" where
  "authentic verify coll public c opaque_state \<longleftrightarrow> valid_commitment c \<and> cm_collection c = coll
     \<and> state_digest opaque_state = Some (cm_state_sha256 c)
     \<and> (\<exists>signature. b64decode (cm_signature_b64 c) = Some signature
         \<and> verify public signature (signed_message (cm_root c)))"

lemma tracker_accept_eq:
  assumes "tracker_load coll public st = Some (seq, root)"
  shows "tracker_accept verify coll public st served opaque_state =
    (case commitment_from_dict served of None \<Rightarrow> None | Some c \<Rightarrow>
       if \<not> authentic verify coll public c opaque_state then None
       else if cm_sequence c = seq \<and> cm_root c = root then Some (False, st)
       else if cm_sequence c = seq + 1 \<and> cm_previous c = root
         then map_option (Pair True) (store_write (anchor coll public (cm_sequence c) (cm_root c)))
       else None)"
proof (cases "commitment_from_dict served")
  case (Some c)
  have v: "valid_commitment c" by (rule commitment_codec.dec_valid [OF Some])
  then obtain signature where s: "b64decode (cm_signature_b64 c) = Some signature"
    by (auto simp: valid_commitment_def is_base64_def split: option.splits)
  show ?thesis
    using assms Some v s
    by (cases "state_digest opaque_state")
      (auto simp: tracker_accept_def authentic_def store_write_def require_def)
qed (simp add: tracker_accept_def assms)

section \<open>Runs\<close>

text \<open>The root a client holds after a list of accepted commitments, each with its state.\<close>

definition last_root :: "(commitment \<times> string) list \<Rightarrow> string" where
  "last_root log = (if log = [] then ZERO_ROOT else cm_root (fst (last log)))"

inductive tracker_reachable :: "(string \<Rightarrow> string \<Rightarrow> string \<Rightarrow> bool) \<Rightarrow> string \<Rightarrow> string \<Rightarrow> store
    \<Rightarrow> (commitment \<times> string) list \<Rightarrow> bool" for verify coll public where
  tracker_start: "tracker_initialize coll public st = Some st' \<Longrightarrow> tracker_reachable verify coll public st' []"
| tracker_new: "tracker_reachable verify coll public st log \<Longrightarrow> commitment_from_dict served = Some c \<Longrightarrow>
     tracker_accept verify coll public st served opaque_state = Some (True, st') \<Longrightarrow>
     tracker_reachable verify coll public st' (log @ [(c, opaque_state)])"
| tracker_same: "tracker_reachable verify coll public st log \<Longrightarrow>
     tracker_accept verify coll public st served opaque_state = Some (False, st') \<Longrightarrow>
     tracker_reachable verify coll public st' log"

fun commitment_chain :: "string \<Rightarrow> int \<Rightarrow> commitment list \<Rightarrow> bool" where
  "commitment_chain root n [] = True"
| "commitment_chain root n (c # cs) \<longleftrightarrow>
     cm_previous c = root \<and> cm_sequence c = n + 1 \<and> commitment_chain (cm_root c) (n + 1) cs"

lemma commitment_chain_snoc:
  "commitment_chain root n (cs @ [c]) \<longleftrightarrow> commitment_chain root n cs
     \<and> cm_previous c = (if cs = [] then root else cm_root (last cs)) \<and> cm_sequence c = n + int (length cs) + 1"
  by (induction cs arbitrary: root n) auto

lemma last_root_map: "last_root log = (if map fst log = [] then ZERO_ROOT else cm_root (last (map fst log)))"
  by (simp add: last_root_def last_map)

definition tracker_holds :: "(string \<Rightarrow> string \<Rightarrow> string \<Rightarrow> bool) \<Rightarrow> string \<Rightarrow> string \<Rightarrow> store
    \<Rightarrow> (commitment \<times> string) list \<Rightarrow> bool" where
  "tracker_holds verify coll public st log \<longleftrightarrow>
     st = Some (anchor coll public (int (length log)) (last_root log))
     \<and> commitment_chain ZERO_ROOT 0 (map fst log)
     \<and> (\<forall>(c, opaque_state) \<in> set log. authentic verify coll public c opaque_state)"

lemma tracker_accept_holds:
  assumes "tracker_holds verify coll public st log" "commitment_from_dict served = Some c"
    and "tracker_accept verify coll public st served opaque_state = Some (fresh, st')"
  shows "if fresh then tracker_holds verify coll public st' (log @ [(c, opaque_state)])
    else st' = st \<and> cm_sequence c = int (length log) \<and> cm_root c = last_root log"
    and "authentic verify coll public c opaque_state"
proof -
  obtain seq root where l: "tracker_load coll public st = Some (seq, root)"
    using assms(3) by (auto simp: tracker_accept_def elim!: bind_SomeE)
  then have sr: "seq = int (length log)" "root = last_root log"
    using assms(1) tracker_load_anchorD by (auto simp: tracker_holds_def)
  have e: "tracker_accept verify coll public st served opaque_state =
    (if \<not> authentic verify coll public c opaque_state then None
       else if cm_sequence c = seq \<and> cm_root c = root then Some (False, st)
       else if cm_sequence c = seq + 1 \<and> cm_previous c = root
         then map_option (Pair True) (store_write (anchor coll public (cm_sequence c) (cm_root c)))
       else None)"
    unfolding tracker_accept_eq [OF l] by (simp add: assms(2))
  show a: "authentic verify coll public c opaque_state"
    using assms(3) unfolding e by (auto split: if_splits)
  show "if fresh then tracker_holds verify coll public st' (log @ [(c, opaque_state)])
    else st' = st \<and> cm_sequence c = int (length log) \<and> cm_root c = last_root log"
  proof (cases fresh)
    case True
    then have "cm_sequence c = seq + 1" "cm_previous c = root"
      "st' = Some (anchor coll public (cm_sequence c) (cm_root c))"
      using assms(3) unfolding e by (auto simp: store_write_iff split: if_splits)
    then show ?thesis
      using True assms(1) a sr by (auto simp: tracker_holds_def commitment_chain_snoc last_root_def last_map add.commute)
  next
    case False
    then show ?thesis using assms(3) sr unfolding e by (auto split: if_splits)
  qed
qed

lemma tracker_reachable_holds:
  "tracker_reachable verify coll public st log \<Longrightarrow> tracker_holds verify coll public st log"
proof (induction rule: tracker_reachable.induct)
  case (tracker_start st st')
  then show ?case
    by (auto simp: tracker_holds_def tracker_initialize_def last_root_def store_write_iff)
next
  case (tracker_new st log served c opaque_state st')
  then show ?case using tracker_accept_holds(1) [OF tracker_new.IH tracker_new.hyps(2,3)] by simp
next
  case (tracker_same st log served opaque_state st')
  then obtain c where "commitment_from_dict served = Some c"
    by (auto simp: tracker_accept_def elim!: bind_SomeE)
  from tracker_accept_holds(1) [OF tracker_same.IH this tracker_same.hyps(2)] tracker_same.IH show ?case by simp
qed

section \<open>A concrete run\<close>

definition sample_state :: string where
  "sample_state = replicate 16 (byte_of 5)"

definition sample_signature :: string where
  "sample_signature = replicate 64 (byte_of 1)"

definition sample_commitment :: commitment where
  "sample_commitment = (let root = commitment_root ''a'' 1 ZERO_ROOT (sha256_hex sample_state) in
     \<lparr>cm_collection = ''a'', cm_sequence = 1, cm_previous = ZERO_ROOT, cm_state_sha256 = sha256_hex sample_state,
       cm_root = root, cm_signature_b64 = b64encode sample_signature\<rparr>)"

definition sample_public :: string where
  "sample_public = replicate 32 (byte_of 2)"

definition sample_verify :: "string \<Rightarrow> string \<Rightarrow> string \<Rightarrow> bool" where
  "sample_verify public signature m \<longleftrightarrow> public = sample_public \<and> signature = sample_signature"

lemma sample_state_digest: "state_digest sample_state = Some (sha256_hex sample_state)"
  by (simp add: state_digest_def sample_state_def MAXIMUM_QUEUE_FILE_BYTES_def)

lemma length_sample_signature [simp]: "length sample_signature = 64"
  by (simp add: sample_signature_def)

lemma sample_signature_text: "is_base64 (Some 64) 1 (b64encode sample_signature)"
  "length (b64encode sample_signature) = 88"
proof -
  show "is_base64 (Some 64) 1 (b64encode sample_signature)" by (rule is_base64_encode) simp_all
  show "length (b64encode sample_signature) = 88" by (simp add: length_b64encode)
qed

lemma sample_commitment_authentic: "authentic sample_verify ''a'' sample_public sample_commitment sample_state"
  using sample_signature_text
  by (simp add: authentic_def valid_commitment_def sample_commitment_def Let_def MAX_COMMITMENT_SEQUENCE_def
      sample_state_digest sample_verify_def)

definition sample_anchor :: store where
  "sample_anchor = Some (anchor ''a'' sample_public 0 ZERO_ROOT)"

lemma sample_initialize: "tracker_initialize ''a'' sample_public None = Some sample_anchor"
  using anchor_fits [of "''a''" sample_public ZERO_ROOT 0]
  by (simp add: tracker_initialize_def store_write_def sample_anchor_def sample_public_def int_str_def)

lemma sample_accept:
  "tracker_accept sample_verify ''a'' sample_public sample_anchor (commitment_to_dict sample_commitment) sample_state
    = Some (True, Some (anchor ''a'' sample_public 1 (cm_root sample_commitment)))"
proof -
  have l: "tracker_load ''a'' sample_public sample_anchor = Some (0, ZERO_ROOT)"
    unfolding sample_anchor_def by (rule tracker_load_anchor) (simp_all add: MAX_COMMITMENT_SEQUENCE_def)
  have v: "commitment_from_dict (commitment_to_dict sample_commitment) = Some sample_commitment"
    by (rule commitment_from_to) (use sample_commitment_authentic in \<open>simp add: authentic_def\<close>)
  have f: "cm_sequence sample_commitment = 1" "cm_previous sample_commitment = ZERO_ROOT"
    "match_sha256 (cm_root sample_commitment)"
    by (simp_all add: sample_commitment_def Let_def)
  have "write_fits (anchor ''a'' sample_public 1 (cm_root sample_commitment))"
    by (rule anchor_fits) (use f in \<open>simp_all add: sample_public_def int_str_def\<close>)
  then show ?thesis
    unfolding tracker_accept_eq [OF l] using sample_commitment_authentic f v by (simp add: store_write_def)
qed

lemma sample_tracker:
  "tracker_reachable sample_verify ''a'' sample_public sample_anchor []"
  "tracker_reachable sample_verify ''a'' sample_public
     (Some (anchor ''a'' sample_public 1 (cm_root sample_commitment))) [(sample_commitment, sample_state)]"
proof -
  show s: "tracker_reachable sample_verify ''a'' sample_public sample_anchor []"
    by (rule tracker_start [OF sample_initialize])
  have "commitment_from_dict (commitment_to_dict sample_commitment) = Some sample_commitment"
    by (rule commitment_from_to) (use sample_commitment_authentic in \<open>simp add: authentic_def\<close>)
  from tracker_new [OF s this sample_accept] show "tracker_reachable sample_verify ''a'' sample_public
     (Some (anchor ''a'' sample_public 1 (cm_root sample_commitment))) [(sample_commitment, sample_state)]"
    by simp
qed

section \<open>The transcript\<close>

lemma split_at_newline:
  assumes "a @ newline @ r = b @ newline @ s" "CHR 0x0A \<notin> set a" "CHR 0x0A \<notin> set b"
  shows "a = b \<and> r = s"
  using assms
proof (induction a arbitrary: b)
  case Nil
  then show ?case by (cases b) (auto simp: newline_def)
next
  case (Cons x a)
  then show ?case by (cases b) (auto simp: newline_def)
qed

lemma no_newline:
  "is_identifier t \<Longrightarrow> CHR 0x0A \<notin> set t" "match_sha256 h \<Longrightarrow> CHR 0x0A \<notin> set h" "CHR 0x0A \<notin> set (int_str n)"
proof -
  show "is_identifier t \<Longrightarrow> CHR 0x0A \<notin> set t"
    by (auto simp: is_identifier_def list_all_iff identifier_char_def byte_val_def Let_def dest!: bspec)
  show "match_sha256 h \<Longrightarrow> CHR 0x0A \<notin> set h"
    by (auto simp: match_sha256_def list_all_iff is_hex_def byte_val_def Let_def dest!: bspec)
  show "CHR 0x0A \<notin> set (int_str n)"
    using int_str_chars [of "CHR 0x0A" n] by (auto simp: is_digit_def byte_val_def)
qed

text \<open>Fields that end in a newline each, and contain none, can be told apart.\<close>

definition text_lines :: "string list \<Rightarrow> string" where
  "text_lines fs = concat (map (\<lambda>f. f @ newline) fs)"

lemma text_lines_inject:
  "text_lines fs = text_lines gs \<Longrightarrow> list_all (\<lambda>f. CHR 0x0A \<notin> set f) (fs @ gs) \<Longrightarrow> fs = gs"
proof (induction fs arbitrary: gs)
  case Nil
  then show ?case by (cases gs) (simp_all add: text_lines_def newline_def)
next
  case (Cons f fs)
  obtain g gs' where g: "gs = g # gs'"
    using Cons.prems(1) by (cases gs) (simp_all add: text_lines_def newline_def)
  have "f @ newline @ text_lines fs = g @ newline @ text_lines gs'"
    using Cons.prems(1) by (simp add: text_lines_def g)
  then have "f = g \<and> text_lines fs = text_lines gs'"
    by (rule split_at_newline) (use Cons.prems(2) g in simp_all)
  then show ?case using Cons.IH [of gs'] Cons.prems(2) g by simp
qed

text \<open>The text that is hashed to a root determines the collection, the sequence number, the
  previous root and the digest of the state.\<close>

theorem transcript_determines_commitment:
  assumes "valid_commitment c" and "valid_commitment d"
    and "commitment_transcript (cm_collection c) (cm_sequence c) (cm_previous c) (cm_state_sha256 c)
       = commitment_transcript (cm_collection d) (cm_sequence d) (cm_previous d) (cm_state_sha256 d)"
  shows "cm_collection c = cm_collection d \<and> cm_sequence c = cm_sequence d \<and> cm_previous c = cm_previous d
    \<and> cm_state_sha256 c = cm_state_sha256 d \<and> cm_root c = cm_root d"
proof -
  note n = no_newline
  have v: "is_identifier (cm_collection c)" "is_identifier (cm_collection d)" "match_sha256 (cm_previous c)"
    "match_sha256 (cm_previous d)" "match_sha256 (cm_state_sha256 c)" "match_sha256 (cm_state_sha256 d)"
    using assms(1,2) by (simp_all add: valid_commitment_def)
  have e: "cm_collection c @ newline @ int_str (cm_sequence c) @ newline @ cm_previous c @ newline @ cm_state_sha256 c @ newline
      = cm_collection d @ newline @ int_str (cm_sequence d) @ newline @ cm_previous d @ newline @ cm_state_sha256 d @ newline"
    using assms(3) by (simp add: commitment_transcript_def)
  note s1 = split_at_newline [OF e n(1) [OF v(1)] n(1) [OF v(2)]]
  note s2 = split_at_newline [OF conjunct2 [OF s1] n(3) n(3)]
  note s3 = split_at_newline [OF conjunct2 [OF s2] n(2) [OF v(3)] n(2) [OF v(4)]]
  have "cm_state_sha256 c @ newline @ [] = cm_state_sha256 d @ newline @ []" using s3 by simp
  note s4 = split_at_newline [OF this n(2) [OF v(5)] n(2) [OF v(6)]]
  have "cm_sequence c = cm_sequence d" using s2 int_str_inject_all by blast
  then show ?thesis using s1 s3 s4 assms(1,2) by (simp add: valid_commitment_def)
qed

theorem transcript_determines_commitment_witness:
  "cm_root sample_commitment = cm_root (sample_commitment\<lparr>cm_signature_b64 := cm_signature_b64 sample_commitment\<rparr>)"
  using transcript_determines_commitment [of sample_commitment
      "sample_commitment\<lparr>cm_signature_b64 := cm_signature_b64 sample_commitment\<rparr>"] sample_commitment_authentic
  by (simp add: authentic_def)

text \<open>The transcript of a commitment, and two commitments with the same root.\<close>

definition transcript :: "commitment \<Rightarrow> string" where
  "transcript c = commitment_transcript (cm_collection c) (cm_sequence c) (cm_previous c) (cm_state_sha256 c)"

text \<open>Two commitments that differ in nothing but how they are signed, over the same state.\<close>

definition same_commitment :: "commitment \<times> string \<Rightarrow> commitment \<times> string \<Rightarrow> bool" where
  "same_commitment = (\<lambda>(c, opaque_state) (d, opaque_state'). opaque_state = opaque_state'
     \<and> c = d\<lparr>cm_signature_b64 := cm_signature_b64 c\<rparr>)"

lemma same_root:
  assumes "authentic verify coll public c opaque_state" "authentic verify coll public d opaque_state'"
    and "cm_root c = cm_root d"
  shows "same_commitment (c, opaque_state) (d, opaque_state') \<or> collide (transcript c) (transcript d)
    \<or> collide opaque_state opaque_state'"
proof -
  have v: "valid_commitment c" "valid_commitment d"
    and dig: "sha256_hex opaque_state = cm_state_sha256 c" "sha256_hex opaque_state' = cm_state_sha256 d"
    using assms(1,2) by (auto simp: authentic_def state_digest_def require_def split: if_splits)
  have "sha256_hex (transcript c) = sha256_hex (transcript d)"
    using v assms(3) by (simp add: valid_commitment_def transcript_def commitment_root_def)
  then consider "collide (transcript c) (transcript d)" | "transcript c = transcript d" by (auto simp: same_digest)
  then show ?thesis
  proof cases
    case 2
    have e: "cm_collection c = cm_collection d" "cm_sequence c = cm_sequence d" "cm_previous c = cm_previous d"
      "cm_state_sha256 c = cm_state_sha256 d" "cm_root c = cm_root d"
      using transcript_determines_commitment [OF v 2 [unfolded transcript_def]] by simp_all
    then have "c = d\<lparr>cm_signature_b64 := cm_signature_b64 c\<rparr>" by (cases c; cases d) simp
    moreover have "opaque_state = opaque_state' \<or> collide opaque_state opaque_state'"
      using e(4) by (simp add: same_digest [symmetric] dig)
    ultimately show ?thesis by (auto simp: same_commitment_def)
  qed simp
qed

section \<open>Properties\<close>

text \<open>Whatever the server serves, the commitments a client accepts form one hash chain: the first
  on the zero root, every next one on the root before it, with sequence numbers 1, 2, 3, ..., each
  signed by the trusted signer over the state it was served with; and the anchor on disk is the
  number and root of the last.\<close>

theorem accepted_commitments_chain:
  assumes "tracker_reachable verify coll public st log"
  shows "st = Some (anchor coll public (int (length log)) (last_root log))
    \<and> commitment_chain ZERO_ROOT 0 (map fst log)
    \<and> (\<forall>(c, opaque_state) \<in> set log. authentic verify coll public c opaque_state)"
  using tracker_reachable_holds [OF assms] by (simp add: tracker_holds_def)

theorem accepted_commitments_chain_witness:
  "commitment_chain ZERO_ROOT 0 [sample_commitment]"
  using accepted_commitments_chain [OF sample_tracker(2)] by simp

text \<open>C14: no rollback and no fork.  A call that succeeds with a new commitment has the next sequence number and
  is on top of the last root; one that succeeds without is for the commitment and the state that were accepted last
  and leaves the file alone.  So no state is accepted again that an accepted one has replaced, and none beside it:
  every other commitment with the number of the last or an earlier one raises, and so does every other
  state for the last commitment, unless two different texts that are at hand have the same digest.\<close>

theorem no_rollback_no_fork:
  assumes "tracker_reachable verify coll public st log"
    and "tracker_accept verify coll public st served opaque_state = Some (fresh, st')"
  shows "\<exists>c. commitment_from_dict served = Some c \<and> authentic verify coll public c opaque_state
    \<and> (if fresh then cm_sequence c = int (length log) + 1 \<and> cm_previous c = last_root log
         \<and> st' = Some (anchor coll public (int (length log) + 1) (cm_root c))
       else cm_sequence c = int (length log) \<and> cm_root c = last_root log \<and> st' = st
         \<and> log \<noteq> []
         \<and> (same_commitment (c, opaque_state) (last log)
             \<or> collide (transcript c) (transcript (fst (last log))) \<or> collide opaque_state (snd (last log))))"
proof -
  obtain c where c: "commitment_from_dict served = Some c"
    using assms(2) by (auto simp: tracker_accept_def elim!: bind_SomeE)
  note t = tracker_reachable_holds [OF assms(1)]
  note h = tracker_accept_holds [OF t c assms(2)]
  show ?thesis
  proof (cases fresh)
    case True
    then have "tracker_holds verify coll public st' (log @ [(c, opaque_state)])" using h(1) by simp
    then show ?thesis using True c h(2)
      by (auto simp: tracker_holds_def commitment_chain_snoc last_root_map add.commute)
  next
    case False
    then have f: "cm_sequence c = int (length log)" "cm_root c = last_root log" "st' = st" using h(1) by simp_all
    have "1 \<le> cm_sequence c" using h(2) by (simp add: authentic_def valid_commitment_def)
    then have ne: "log \<noteq> []" using f(1) by auto
    obtain d opaque_state' where d: "last log = (d, opaque_state')" by (rule prod.exhaust)
    have "authentic verify coll public d opaque_state'"
      using t ne d last_in_set [OF ne] by (auto simp: tracker_holds_def)
    from same_root [OF h(2) this] have "same_commitment (c, opaque_state) (last log)
        \<or> collide (transcript c) (transcript (fst (last log))) \<or> collide opaque_state (snd (last log))"
      using f(2) ne d by (simp add: last_root_def)
    then show ?thesis using False c h(2) f ne by simp
  qed
qed

theorem no_rollback_no_fork_witness:
  "\<exists>c. commitment_from_dict (commitment_to_dict sample_commitment) = Some c
    \<and> authentic sample_verify ''a'' sample_public c sample_state
    \<and> cm_sequence c = 1 \<and> cm_previous c = ZERO_ROOT"
  using no_rollback_no_fork [OF sample_tracker(1) sample_accept] by (auto simp: last_root_def)

text \<open>The honest signer gets through: a state of admissible size, signed for the sequence number
  after the anchor and on top of its root, is accepted.\<close>

theorem honest_commitment_accepted:
  assumes "tracker_reachable verify coll public st log" and "tracker_load coll public st \<noteq> None"
    and "is_identifier coll" and "length public = 32"
    and "\<And>m. verify public (sign m) m"
    and "commitment_sign sign opaque_state coll (int (length log) + 1) (last_root log) = Some c"
  shows "tracker_accept verify coll public st (commitment_to_dict c) opaque_state
    = Some (True, Some (anchor coll public (int (length log) + 1) (cm_root c)))"
proof -
  have st: "st = Some (anchor coll public (int (length log)) (last_root log))"
    using tracker_reachable_holds [OF assms(1)] by (simp add: tracker_holds_def)
  then have l: "tracker_load coll public st = Some (int (length log), last_root log)"
    using assms(2) tracker_load_anchorD by fastforce
  obtain dig where dig: "state_digest opaque_state = Some dig"
    using assms(6) by (auto simp: commitment_sign_def elim!: bind_SomeE)
  define root where "root = commitment_root coll (int (length log) + 1) (last_root log) dig"
  define d where "d = \<lparr>cm_collection = coll, cm_sequence = int (length log) + 1, cm_previous = last_root log,
    cm_state_sha256 = dig, cm_root = root, cm_signature_b64 = b64encode (sign (signed_message root))\<rparr>"
  have "commitment_from_dict (commitment_to_dict d) = Some c"
    using assms(6) dig by (auto simp: commitment_sign_def d_def root_def Let_def elim!: bind_SomeE split: if_splits)
  moreover from this have "c = d"
    by (auto simp: commitment_from_dict_def commitment_to_dict_def d_def elim!: bind_SomeE split: if_splits)
  ultimately have c: "commitment_from_dict (commitment_to_dict c) = Some c" "c = d" by simp_all
  have v: "valid_commitment c" by (rule commitment_codec.dec_valid [OF c(1)])
  have a: "authentic verify coll public c opaque_state"
    using v dig assms(5) by (simp add: authentic_def c(2) d_def b64decode_encode)
  have "length (int_str (int (length log) + 1)) \<le> 100"
    by (rule order_trans [OF length_int_str]) (use v in \<open>simp_all add: valid_commitment_def c(2) d_def MAX_COMMITMENT_SEQUENCE_def is_counter_def MAXIMUM_INTEGER_def\<close>)
  then have "write_fits (anchor coll public (int (length log) + 1) (cm_root c))"
    by (intro anchor_fits assms(3,4)) (simp_all add: c(2) d_def root_def)
  then show ?thesis
    unfolding tracker_accept_eq [OF l] using a c(1) by (simp add: c(2) d_def store_write_def)
qed

theorem honest_commitment_accepted_witness:
  "\<exists>c. commitment_sign (\<lambda>m. sample_signature) sample_state ''a'' 1 ZERO_ROOT = Some c
    \<and> tracker_accept sample_verify ''a'' sample_public sample_anchor (commitment_to_dict c) sample_state
        = Some (True, Some (anchor ''a'' sample_public 1 (cm_root c)))"
proof -
  have "commitment_from_dict (commitment_to_dict sample_commitment) = Some sample_commitment"
    by (rule commitment_from_to) (use sample_commitment_authentic in \<open>simp add: authentic_def\<close>)
  then have s: "commitment_sign (\<lambda>m. sample_signature) sample_state ''a'' 1 ZERO_ROOT = Some sample_commitment"
    by (simp add: commitment_sign_def sample_state_digest sample_commitment_def Let_def MAX_COMMITMENT_SEQUENCE_def)
  have l: "tracker_load ''a'' sample_public sample_anchor \<noteq> None"
    unfolding sample_anchor_def by (subst tracker_load_anchor) (simp_all add: MAX_COMMITMENT_SEQUENCE_def)
  show ?thesis
    using honest_commitment_accepted [OF sample_tracker(1) l _ _ _ , of "\<lambda>m. sample_signature" sample_state sample_commitment]
      s by (simp add: last_root_def sample_public_def sample_verify_def)
qed

end
