(* ===== verification/Expiry.thy ===== *)
theory Expiry
  imports Prelude Complex_Main
begin

text \<open>
  Clocks and expiry queues of the synchronisation server (\<open>controls.py\<close>, \<open>storage.py\<close>).  A reading
  of the clock is a float: a finite one is a rational number, and sums of times are exact.

  A heap of \<open>heapq\<close> with entries (time, serial, key) is the list of its entries in the order in
  which \<open>heappop\<close> returns them; the serials are all different, so the order is that of the first
  two components.
\<close>

datatype reading = Finite rat | NonFinite

text \<open>The least int that is too large to be a float.\<close>

definition FLOAT_OVERFLOW :: int where
  "FLOAT_OVERFLOW = 2 ^ 1024 - 2 ^ 970"

type_synonym 'k expiries = "((rat \<times> nat) \<times> 'k) list"

section \<open>Heaps\<close>

definition heap_push :: "(rat \<times> nat) \<times> 'k \<Rightarrow> 'k expiries \<Rightarrow> 'k expiries" where
  "heap_push = insort_key fst"

text \<open>What a client relies on: pushing adds one entry, and the entry on top is a least one.\<close>

locale expiry_heap =
  fixes push :: "(rat \<times> nat) \<times> 'k \<Rightarrow> 'h \<Rightarrow> 'h"
    and entries :: "'h \<Rightarrow> 'k expiries"
    and ordered :: "'h \<Rightarrow> bool"
  assumes push_entries: "mset (entries (push e h)) = add_mset e (mset (entries h))"
    and push_ordered: "ordered h \<Longrightarrow> ordered (push e h)"
    and top_least: "ordered h \<Longrightarrow> entries h = e # es \<Longrightarrow> f \<in> set es \<Longrightarrow> fst e \<le> fst f"
begin

lemma set_push [simp]: "set (entries (push e h)) = insert e (set (entries h))"
  using arg_cong [OF push_entries [of e h], of set_mset] by simp

lemma length_push [simp]: "length (entries (push e h)) = Suc (length (entries h))"
  using arg_cong [OF push_entries [of e h], of size] by simp

end

interpretation heapq: expiry_heap heap_push "\<lambda>h. h" "\<lambda>h. sorted (map fst h)"
  by unfold_locales (auto simp: heap_push_def sorted_insort_key)

section \<open>Pruning\<close>

text \<open>
  The loop the server runs before it serves a request: it pops at most \<open>n\<close> entries whose time has
  come and hands their keys to \<open>drop_key\<close>.  The result is what is left of the budget, the heap and
  the state.
\<close>

fun prune :: "nat \<Rightarrow> rat \<Rightarrow> ('k \<Rightarrow> 's \<Rightarrow> 's) \<Rightarrow> 'k expiries \<Rightarrow> 's \<Rightarrow> nat \<times> 'k expiries \<times> 's" where
  "prune (Suc n) now drop_key (((t, i), k) # h) s =
     (if t \<le> now then prune n now drop_key h (drop_key k s) else (Suc n, ((t, i), k) # h, s))"
| "prune n now drop_key h s = (n, h, s)"

lemma prune_rel:
  assumes "prune n now drop_key h s = (n', h', s')"
    and refl: "\<And>s. R s s" and trans: "\<And>s t u. R s t \<Longrightarrow> R t u \<Longrightarrow> R s u" and step: "\<And>k s. R s (drop_key k s)"
  shows "R s s'"
  using assms(1)
proof (induction n arbitrary: h s)
  case 0
  then show ?case using refl by simp
next
  case (Suc n)
  show ?case
  proof (cases "h = [] \<or> now < fst (fst (hd h))")
    case True
    then show ?thesis using Suc.prems refl by (cases h rule: list.exhaust) (auto split: prod.splits)
  next
    case False
    then obtain t i k h0 where h: "h = ((t, i), k) # h0" "t \<le> now" by (cases h) (auto simp: not_less)
    then have "prune n now drop_key h0 (drop_key k s) = (n', h', s')" using Suc.prems by simp
    then show ?thesis by (rule trans [OF step Suc.IH])
  qed
qed

text \<open>
  What is kept with an expiry: \<open>look\<close> reads it from the state, \<open>drop_at\<close> removes a key if what it
  stands for has expired, and leaves everything else alone.
\<close>

locale expiring =
  fixes look :: "'s \<Rightarrow> 'k \<Rightarrow> 'v option"
    and drop_at :: "rat \<Rightarrow> 'k \<Rightarrow> 's \<Rightarrow> 's"
    and expiry :: "'v \<Rightarrow> rat"
  assumes look_drop: "look (drop_at now k s) j =
    (if j = k \<and> (\<exists>v. look s k = Some v \<and> expiry v \<le> now) then None else look s j)"
begin

text \<open>Everything that will expire is in the heap with its time.\<close>

definition covered :: "'k expiries \<Rightarrow> 's \<Rightarrow> bool" where
  "covered h s \<longleftrightarrow> (\<forall>k v. look s k = Some v \<longrightarrow> (\<exists>i. ((expiry v, i), k) \<in> set h))"

lemma prune_induct [consumes 1, case_names stop pop]:
  assumes "prune n now (drop_at now) h s = (n', h', s')"
    and "\<And>n h s. (0 < n \<Longrightarrow> h \<noteq> [] \<Longrightarrow> now < fst (fst (hd h))) \<Longrightarrow> P n h s n h s"
    and "\<And>n t i k h s n' h' s'. t \<le> now \<Longrightarrow> P n h (drop_at now k s) n' h' s' \<Longrightarrow>
      P (Suc n) (((t, i), k) # h) s n' h' s'"
  shows "P n h s n' h' s'"
  using assms(1)
proof (induction n arbitrary: h s)
  case 0
  then show ?case using assms(2) by simp
next
  case (Suc n)
  show ?case
  proof (cases h)
    case Nil
    then show ?thesis using Suc.prems assms(2) [of "Suc n" "[]"] by simp
  next
    case (Cons e h0)
    obtain t i k where e: "e = ((t, i), k)" by (metis prod.collapse)
    show ?thesis
    proof (cases "t \<le> now")
      case True
      then show ?thesis using Suc Cons e assms(3) by simp
    next
      case False
      then have "now < fst (fst (hd h))" by (simp add: Cons e)
      then have "P (Suc n) h s (Suc n) h s" by (rule assms(2))
      then show ?thesis using Suc.prems Cons e False by auto
    qed
  qed
qed

lemma prune_look:
  assumes "prune n now (drop_at now) h s = (n', h', s')"
  shows "look s' j = look s j \<or> look s' j = None \<and> (\<exists>v. look s j = Some v \<and> expiry v \<le> now)"
  using assms
proof (induction rule: prune_induct)
  case (pop n t i k h s n' h' s')
  then show ?case using look_drop [of now k s j] by (auto split: if_splits)
qed simp

lemma prune_live:
  assumes "prune n now (drop_at now) h s = (n', h', s')" "look s j = Some v" "now < expiry v"
  shows "look s' j = Some v"
  using prune_look [OF assms(1), of j] assms(2,3) by auto

lemma prune_old:
  assumes "prune n now (drop_at now) h s = (n', h', s')" "look s' j = Some v"
  shows "look s j = Some v"
  using prune_look [OF assms(1), of j] assms(2) by auto

lemma prune_sorted:
  assumes "prune n now (drop_at now) h s = (n', h', s')" "sorted (map fst h)"
  shows "sorted (map fst h') \<and> set h' \<subseteq> set h"
  using assms by (induction rule: prune_induct) auto

lemma covered_pop:
  assumes "covered (((t, i), k) # h) s" "t \<le> now"
  shows "covered h (drop_at now k s)"
  unfolding covered_def
proof (intro allI impI)
  fix j v
  assume l: "look (drop_at now k s) j = Some v"
  then have s: "look s j = Some v" and live: "j = k \<Longrightarrow> now < expiry v"
    unfolding look_drop by (auto split: if_splits)
  obtain m where "((expiry v, m), j) \<in> set (((t, i), k) # h)" using assms(1) s unfolding covered_def by blast
  then show "\<exists>m. ((expiry v, m), j) \<in> set h" using live assms(2) by auto
qed

lemma prune_covered:
  assumes "prune n now (drop_at now) h s = (n', h', s')" "covered h s"
  shows "covered h' s'"
  using assms by (induction rule: prune_induct) (use covered_pop in blast)+

text \<open>If the budget is not used up, nothing that has expired is left.\<close>

lemma prune_complete:
  assumes "prune n now (drop_at now) h s = (n', h', s')" "covered h s" "sorted (map fst h)" "0 < n'"
    and "look s' j = Some v"
  shows "now < expiry v"
  using assms
proof (induction rule: prune_induct)
  case (stop n h s)
  then obtain m where m: "((expiry v, m), j) \<in> set h" unfolding covered_def by blast
  then obtain e h0 where h: "h = e # h0" by (cases h) auto
  then have "fst (fst e) \<le> expiry v" using m stop.prems(2) by (auto simp: less_eq_prod_def)
  with stop.hyps [OF stop.prems(3)] show ?case by (simp add: h)
next
  case (pop n t i k h s n' h' s')
  then show ?case using covered_pop by simp
qed

lemma covered_push:
  assumes "covered h s" "\<And>j v. look s' j = Some v \<Longrightarrow> look s j = Some v \<or> j = k \<and> expiry v = t"
  shows "covered (heap_push ((t, i), k) h) s'"
  using assms unfolding covered_def heapq.set_push by (metis insert_iff)

end

section \<open>Clocks that do not go back\<close>

text \<open>\<open>math.isfinite\<close> and the comparison with the last observation: the reading, if it is accepted.\<close>

definition observe :: "rat option \<Rightarrow> reading \<Rightarrow> rat option" where
  "observe last_observed r = (case r of NonFinite \<Rightarrow> None
     | Finite now \<Rightarrow> (if (\<exists>t \<in> set_option last_observed. now < t) then None else Some now))"

lemma observe_Some:
  "observe last_observed r = Some now \<longleftrightarrow> r = Finite now \<and> (\<forall>t. last_observed = Some t \<longrightarrow> t \<le> now)"
  by (auto simp: observe_def not_less split: reading.splits option.splits)

end
