(* ===== verification/Controls.thy ===== *)
theory Controls
  imports Expiry
begin

text \<open>
  The abuse controls of the synchronisation server (\<open>atlasvault_api/controls.py\<close>): the limits and
  their validation, the fixed-window limiters and the telemetry.  Each limiter runs under a lock,
  so a call is one step; it answers \<open>True\<close> or raises (\<open>False\<close>), and the state after a raise is part
  of the result, since a call that raises may already have changed it.
\<close>

section \<open>Limits\<close>

text \<open>A value passed for a limit.  \<open>type(x) is int\<close> tells an int from a bool.\<close>

datatype py_number = PyInt int | PyBool bool | PyFloat reading | PyOther

record ('n, 'w) policy =
  account_request_limit :: 'n
  device_request_limit :: 'n
  bootstrap_verification_limit :: 'n
  account_verification_limit :: 'n
  window_seconds :: 'w
  max_request_bytes :: 'n
  max_account_request_bytes :: 'n
  max_accounts :: 'n
  max_challenges :: 'n
  max_challenges_per_device :: 'n
  max_sessions :: 'n
  max_sessions_per_device :: 'n
  max_devices_per_account :: 'n
  max_retained_vaults :: 'n
  max_retained_vaults_per_account :: 'n
  max_retained_objects_per_account :: 'n
  max_retained_patches_per_account :: 'n
  max_retained_revisions_per_account :: 'n
  max_retained_bytes :: 'n
  max_retained_bytes_per_account :: 'n
  reserved_retained_bytes :: 'n

type_synonym raw_policy = "(py_number, py_number) policy"
type_synonym limits = "(int, rat) policy"

definition default_policy :: raw_policy where
  "default_policy = \<lparr>account_request_limit = PyInt 40, device_request_limit = PyInt 24,
     bootstrap_verification_limit = PyInt 64, account_verification_limit = PyInt 64,
     window_seconds = PyFloat (Finite 60), max_request_bytes = PyInt (192 * 1024 * 1024),
     max_account_request_bytes = PyInt (64 * 1024), max_accounts = PyInt 1024,
     max_challenges = PyInt 4096, max_challenges_per_device = PyInt 8, max_sessions = PyInt 4096,
     max_sessions_per_device = PyInt 8, max_devices_per_account = PyInt 256,
     max_retained_vaults = PyInt 4096, max_retained_vaults_per_account = PyInt 128,
     max_retained_objects_per_account = PyInt 16384, max_retained_patches_per_account = PyInt 65536,
     max_retained_revisions_per_account = PyInt 131072, max_retained_bytes = PyInt (1024 * 1024 * 1024),
     max_retained_bytes_per_account = PyInt (256 * 1024 * 1024),
     reserved_retained_bytes = PyInt (256 * 1024 * 1024)\<rparr>"

fun integer_limit :: "py_number \<Rightarrow> int option" where
  "integer_limit (PyInt n) = (if n < 1 then None else Some n)"
| "integer_limit _ = None"

text \<open>\<open>math.isfinite\<close> raises on an int that is too large for a float.\<close>

fun window_limit :: "py_number \<Rightarrow> rat option" where
  "window_limit (PyInt n) = (if 0 < n \<and> n < FLOAT_OVERFLOW then Some (of_int n) else None)"
| "window_limit (PyFloat (Finite w)) = (if 0 < w then Some w else None)"
| "window_limit _ = None"

text \<open>\<open>__post_init__\<close>: the policy with its values read, or a raise.\<close>

definition policy_check :: "raw_policy \<Rightarrow> limits option" where
  "policy_check p = do {
     account_request \<leftarrow> integer_limit (account_request_limit p);
     device_request \<leftarrow> integer_limit (device_request_limit p);
     bootstrap_verification \<leftarrow> integer_limit (bootstrap_verification_limit p);
     account_verification \<leftarrow> integer_limit (account_verification_limit p);
     request_bytes \<leftarrow> integer_limit (max_request_bytes p);
     account_request_bytes \<leftarrow> integer_limit (max_account_request_bytes p);
     accounts \<leftarrow> integer_limit (max_accounts p);
     challenges \<leftarrow> integer_limit (max_challenges p);
     challenges_per_device \<leftarrow> integer_limit (max_challenges_per_device p);
     sessions \<leftarrow> integer_limit (max_sessions p);
     sessions_per_device \<leftarrow> integer_limit (max_sessions_per_device p);
     devices_per_account \<leftarrow> integer_limit (max_devices_per_account p);
     retained_vaults \<leftarrow> integer_limit (max_retained_vaults p);
     retained_vaults_per_account \<leftarrow> integer_limit (max_retained_vaults_per_account p);
     retained_objects \<leftarrow> integer_limit (max_retained_objects_per_account p);
     retained_patches \<leftarrow> integer_limit (max_retained_patches_per_account p);
     retained_revisions \<leftarrow> integer_limit (max_retained_revisions_per_account p);
     retained_bytes \<leftarrow> integer_limit (max_retained_bytes p);
     retained_bytes_per_account \<leftarrow> integer_limit (max_retained_bytes_per_account p);
     reserved \<leftarrow> integer_limit (reserved_retained_bytes p);
     window \<leftarrow> window_limit (window_seconds p);
     require (\<not> (reserved \<ge> retained_bytes \<or> retained_bytes_per_account > retained_bytes - reserved));
     Some \<lparr>account_request_limit = account_request, device_request_limit = device_request,
       bootstrap_verification_limit = bootstrap_verification,
       account_verification_limit = account_verification, window_seconds = window,
       max_request_bytes = request_bytes, max_account_request_bytes = account_request_bytes,
       max_accounts = accounts, max_challenges = challenges,
       max_challenges_per_device = challenges_per_device, max_sessions = sessions,
       max_sessions_per_device = sessions_per_device, max_devices_per_account = devices_per_account,
       max_retained_vaults = retained_vaults,
       max_retained_vaults_per_account = retained_vaults_per_account,
       max_retained_objects_per_account = retained_objects,
       max_retained_patches_per_account = retained_patches,
       max_retained_revisions_per_account = retained_revisions, max_retained_bytes = retained_bytes,
       max_retained_bytes_per_account = retained_bytes_per_account,
       reserved_retained_bytes = reserved\<rparr> }"

text \<open>What the limiters and the store rely on.\<close>

definition valid_limits :: "limits \<Rightarrow> bool" where
  "valid_limits p \<longleftrightarrow> 1 \<le> account_request_limit p \<and> 1 \<le> device_request_limit p
     \<and> 1 \<le> account_verification_limit p \<and> 0 < window_seconds p
     \<and> 1 \<le> max_retained_vaults p \<and> 1 \<le> max_retained_vaults_per_account p
     \<and> 1 \<le> max_retained_objects_per_account p \<and> 1 \<le> max_retained_patches_per_account p
     \<and> 1 \<le> max_retained_revisions_per_account p
     \<and> 1 \<le> reserved_retained_bytes p \<and> 1 \<le> max_retained_bytes_per_account p
     \<and> max_retained_bytes_per_account p + reserved_retained_bytes p \<le> max_retained_bytes p"

lemma integer_limit_iff [simp]: "integer_limit v = Some n \<longleftrightarrow> v = PyInt n \<and> 1 \<le> n"
  by (cases v) auto

lemma window_limit_pos: "window_limit v = Some w \<Longrightarrow> 0 < w"
  by (cases v rule: window_limit.cases) (auto split: if_splits)

lemma policy_check_valid: "policy_check p = Some q \<Longrightarrow> valid_limits q"
  unfolding policy_check_def by (elim bind_SomeE) (auto simp: valid_limits_def window_limit_pos)

definition default_limits :: limits where
  "default_limits = the (policy_check default_policy)"

lemma default_policy_check: "policy_check default_policy = Some default_limits"
  by (simp add: default_limits_def policy_check_def default_policy_def)

section \<open>Fixed-window counters\<close>

record counter =
  started_at :: rat
  counted :: int

definition MAX_COUNTER_PRUNE_PER_REQUEST :: nat where
  "MAX_COUNTER_PRUNE_PER_REQUEST = 64"

type_synonym 'k window_table = "('k, counter) fmap \<times> 'k expiries"

text \<open>\<open>_counter\<close>: the counter of a key, with the table and the serial after it; \<open>None\<close> is the raise.\<close>

definition window_counter :: "rat \<Rightarrow> 'k \<Rightarrow> rat \<Rightarrow> 'k window_table \<Rightarrow> nat \<Rightarrow> (counter \<times> 'k window_table \<times> nat) option" where
  "window_counter window key now table serial = (case table of (counters, expiries) \<Rightarrow>
     (let fresh = \<lparr>started_at = now, counted = 0\<rparr>;
          started_anew = Some (fresh, (fmupd key fresh counters,
            heap_push ((now + window, serial + 1), key) expiries), serial + 1)
      in case fmlookup counters key of
           None \<Rightarrow> started_anew
         | Some c \<Rightarrow> (if now - started_at c \<ge> window then started_anew
             else if now < started_at c then None
             else Some (c, table, serial))))"

text \<open>The body of the loop of \<open>_prune\<close>, for a key popped from the heap.\<close>

definition drop_counter :: "rat \<Rightarrow> rat \<Rightarrow> 'k \<Rightarrow> ('k, counter) fmap \<Rightarrow> ('k, counter) fmap" where
  "drop_counter window now key counters = (case fmlookup counters key of
     None \<Rightarrow> counters
   | Some c \<Rightarrow> (if now - started_at c \<ge> window then fmdrop key counters else counters))"

definition prune_table :: "rat \<Rightarrow> rat \<Rightarrow> nat \<Rightarrow> 'k window_table \<Rightarrow> nat \<times> 'k window_table" where
  "prune_table window now budget table =
     (case prune budget now (drop_counter window now) (snd table) (fst table) of
        (remaining, expiries, counters) \<Rightarrow> (remaining, counters, expiries))"

definition bump :: "'k \<Rightarrow> counter \<Rightarrow> 'k window_table \<Rightarrow> 'k window_table" where
  "bump key c table = (fmupd key (c\<lparr>counted := counted c + 1\<rparr>) (fst table), snd table)"

interpretation window_counters: expiring fmlookup "drop_counter window" "\<lambda>c. started_at c + window" for window
  by unfold_locales (auto simp: drop_counter_def algebra_simps split: option.splits)

section \<open>The limiter of accounts and devices\<close>

record principal =
  principal_account :: string
  principal_device :: string

record limiter =
  lm_accounts :: "string window_table"
  lm_devices :: "(string \<times> string) window_table"
  lm_serial :: nat
  lm_last_observed :: "rat option"

definition initial_limiter :: limiter where
  "initial_limiter = \<lparr>lm_accounts = (fmempty, []), lm_devices = (fmempty, []), lm_serial = 0,
     lm_last_observed = None\<rparr>"

definition consume :: "limits \<Rightarrow> principal \<Rightarrow> reading \<Rightarrow> limiter \<Rightarrow> bool \<times> limiter" where
  "consume policy p r l = (case observe (lm_last_observed l) r of
     None \<Rightarrow> (False, l)
   | Some now \<Rightarrow>
      (let window = window_seconds policy;
           (remaining, accounts) = prune_table window now MAX_COUNTER_PRUNE_PER_REQUEST (lm_accounts l);
           (_, devices) = prune_table window now remaining (lm_devices l);
           pruned = l\<lparr>lm_last_observed := Some now, lm_accounts := accounts, lm_devices := devices\<rparr>;
           device_key = (principal_account p, principal_device p)
       in case window_counter window (principal_account p) now accounts (lm_serial l) of
            None \<Rightarrow> (False, pruned)
          | Some (account, accounts', serial1) \<Rightarrow>
             (case window_counter window device_key now devices serial1 of
                None \<Rightarrow> (False, pruned\<lparr>lm_accounts := accounts', lm_serial := serial1\<rparr>)
              | Some (device, devices', serial2) \<Rightarrow>
                 (let counted_in = pruned\<lparr>lm_accounts := accounts', lm_devices := devices', lm_serial := serial2\<rparr>
                  in if counted account \<ge> account_request_limit policy
                        \<or> counted device \<ge> device_request_limit policy
                     then (False, counted_in)
                     else (True, counted_in\<lparr>lm_accounts := bump (principal_account p) account accounts',
                       lm_devices := bump device_key device devices'\<rparr>)))))"

section \<open>The limiter of verifications\<close>

record verification_limiter =
  vl_window_started_at :: "rat option"
  vl_count :: int
  vl_last_observed :: "rat option"

definition initial_verification_limiter :: verification_limiter where
  "initial_verification_limiter = \<lparr>vl_window_started_at = None, vl_count = 0, vl_last_observed = None\<rparr>"

definition verification_consume :: "int \<Rightarrow> rat \<Rightarrow> reading \<Rightarrow> verification_limiter \<Rightarrow> bool \<times> verification_limiter" where
  "verification_consume limit window r v = (case observe (vl_last_observed v) r of
     None \<Rightarrow> (False, v)
   | Some now \<Rightarrow>
      (let v1 = v\<lparr>vl_last_observed := Some now\<rparr>;
           v2 = (if (\<forall>t \<in> set_option (vl_window_started_at v1). now - t \<ge> window)
                 then v1\<lparr>vl_window_started_at := Some now, vl_count := 0\<rparr> else v1)
       in if vl_count v2 \<ge> limit then (False, v2) else (True, v2\<lparr>vl_count := vl_count v2 + 1\<rparr>)))"

section \<open>Telemetry\<close>

definition CATEGORIES :: "string list" where
  "CATEGORIES = [''account'', ''storage'', ''enrollment_admitted'', ''other'']"

definition MAX_RETAINED_SECURITY_EVENTS :: nat where
  "MAX_RETAINED_SECURITY_EVENTS = 256"

definition status_outcome :: "int \<Rightarrow> string" where
  "status_outcome status_code =
     (if 200 \<le> status_code \<and> status_code < 400 then ''success''
      else case map_of [(400, ''invalid''), (401, ''unauthorized''), (403, ''forbidden''), (404, ''not_found''),
          (409, ''conflict''), (413, ''too_large''), (422, ''invalid''), (429, ''rate_limited'')] status_code of
        None \<Rightarrow> ''error'' | Some text \<Rightarrow> text)"

record security_event =
  event_category :: string
  event_outcome :: string
  event_status_code :: int

record telemetry =
  tl_events :: "security_event list"
  tl_metrics :: "(string \<times> string, nat) fmap"

definition initial_telemetry :: telemetry where
  "initial_telemetry = \<lparr>tl_events = [], tl_metrics = fmempty\<rparr>"

definition telemetry_record :: "string \<Rightarrow> int \<Rightarrow> telemetry \<Rightarrow> telemetry" where
  "telemetry_record category_in status_code t =
     (let category = (if category_in \<in> set CATEGORIES then category_in else ''other'');
          outcome = status_outcome status_code;
          events = tl_events t @ [\<lparr>event_category = category, event_outcome = outcome,
            event_status_code = status_code\<rparr>]
      in \<lparr>tl_events = drop (length events - MAX_RETAINED_SECURITY_EVENTS) events,
           tl_metrics = fmupd (category, outcome)
             ((case fmlookup (tl_metrics t) (category, outcome) of None \<Rightarrow> 0 | Some n \<Rightarrow> n) + 1) (tl_metrics t)\<rparr>)"

definition telemetry_snapshot :: "telemetry \<Rightarrow> security_event list \<times> ((string \<times> string) \<times> nat) list" where
  "telemetry_snapshot t = (tl_events t, items (tl_metrics t))"

end
