(* ===== verification/Limiter.thy ===== *)
theory Limiter
  imports Controls
begin

text \<open>
  What the fixed-window limiters admit: the counters of a table against the list of requests that
  were admitted, each with the start of the window it was admitted in.
\<close>

section \<open>Admitted requests\<close>

type_synonym 'k admission = "'k \<times> rat \<times> rat"

definition in_window :: "'k \<Rightarrow> rat \<Rightarrow> 'k admission list \<Rightarrow> 'k admission list" where
  "in_window k s adm = filter (\<lambda>(j, u, _). j = k \<and> u = s) adm"

definition before :: "rat option \<Rightarrow> rat \<Rightarrow> bool" where
  "before last_observed t \<longleftrightarrow> (\<exists>u. last_observed = Some u \<and> t \<le> u)"

text \<open>
  A table of windows of length \<open>w\<close> for the admissions: every admission lies in its window, different
  windows of a key do not overlap, no window admits more than \<open>cap\<close>, and the counter of a key is
  that of its latest window; a key without a counter has no window that is still open.
\<close>

definition window_open :: "rat \<Rightarrow> rat option \<Rightarrow> rat \<Rightarrow> bool" where
  "window_open w last_observed s \<longleftrightarrow> \<not> before last_observed (s + w)"

definition admissions_spaced :: "rat \<Rightarrow> int \<Rightarrow> rat option \<Rightarrow> 'k admission list \<Rightarrow> bool" where
  "admissions_spaced w cap last_observed adm \<longleftrightarrow>
     (\<forall>(k, s, t) \<in> set adm. s \<le> t \<and> t < s + w \<and> before last_observed t)
   \<and> (\<forall>(k, s, t) \<in> set adm. \<forall>(j, u, v) \<in> set adm. j = k \<longrightarrow> s < u \<longrightarrow> s + w \<le> u)
   \<and> (\<forall>k s. int (length (in_window k s adm)) \<le> cap)"

definition counter_tracks :: "rat \<Rightarrow> rat option \<Rightarrow> 'k admission list \<Rightarrow> 'k \<Rightarrow> counter option \<Rightarrow> bool" where
  "counter_tracks w last_observed adm k entry = (case entry of
     None \<Rightarrow> (\<forall>(j, s, t) \<in> set adm. j = k \<longrightarrow> before last_observed (s + w))
   | Some c \<Rightarrow> counted c = int (length (in_window k (started_at c) adm)) \<and> before last_observed (started_at c)
       \<and> (\<forall>(j, s, t) \<in> set adm. j = k \<longrightarrow> s = started_at c \<or> s + w \<le> started_at c))"

definition table_tracks :: "rat \<Rightarrow> int \<Rightarrow> rat option \<Rightarrow> ('k, counter) fmap \<Rightarrow> 'k admission list \<Rightarrow> bool" where
  "table_tracks w cap last_observed counters adm \<longleftrightarrow> admissions_spaced w cap last_observed adm
     \<and> (\<forall>k. counter_tracks w last_observed adm k (fmlookup counters k))"

lemma before_mono: "before last_observed t \<Longrightarrow> (\<And>u. last_observed = Some u \<Longrightarrow> u \<le> now) \<Longrightarrow> before (Some now) t"
  by (auto simp: before_def)

lemma before_Some [simp]: "before (Some u) t \<longleftrightarrow> t \<le> u"
  by (simp add: before_def)

lemma table_tracks_later:
  assumes "table_tracks w cap last_observed counters adm" "\<And>u. last_observed = Some u \<Longrightarrow> u \<le> now"
  shows "table_tracks w cap (Some now) counters adm"
proof -
  have b: "before (Some now) t" if "before last_observed t" for t by (rule before_mono [OF that assms(2)])
  have a: "admissions_spaced w cap last_observed adm" using assms(1) by (simp add: table_tracks_def)
  have "before (Some now) t" if "(k, s, t) \<in> set adm" for k s t
  proof (rule b)
    show "before last_observed t" using a that by (auto simp: admissions_spaced_def)
  qed
  then have "admissions_spaced w cap (Some now) adm" using a by (auto simp: admissions_spaced_def)
  moreover have "counter_tracks w (Some now) adm k (fmlookup counters k)" for k
  proof -
    have t: "counter_tracks w last_observed adm k (fmlookup counters k)" using assms(1) by (simp add: table_tracks_def)
    show ?thesis
    proof (cases "fmlookup counters k")
      case None
      have "before (Some now) (s + w)" if "(k, s, t) \<in> set adm" for s t
        by (rule b) (use t None that in \<open>auto simp: counter_tracks_def\<close>)
      then show ?thesis using None by (auto simp: counter_tracks_def)
    next
      case (Some c)
      have "before (Some now) (started_at c)" by (rule b) (use t Some in \<open>simp add: counter_tracks_def\<close>)
      then show ?thesis using t Some by (simp add: counter_tracks_def)
    qed
  qed
  ultimately show ?thesis by (simp add: table_tracks_def)
qed

lemma counter_tracks_expired:
  assumes "counter_tracks w (Some now) adm k (Some c)" "started_at c + w \<le> now"
  shows "counter_tracks w (Some now) adm k None"
proof -
  have "s + w \<le> now" if "(k, s, t) \<in> set adm" for s t
  proof -
    have "s = started_at c \<or> s + w \<le> started_at c" using assms(1) that unfolding counter_tracks_def by auto
    moreover have "started_at c \<le> now" using assms(1) by (simp add: counter_tracks_def)
    ultimately show ?thesis using assms(2) by linarith
  qed
  then show ?thesis by (auto simp: counter_tracks_def)
qed

lemma table_tracks_prune:
  assumes "table_tracks w cap (Some now) (fst table) adm" "prune_table w now n table = (n', table')"
  shows "table_tracks w cap (Some now) (fst table') adm"
proof -
  obtain h' where p: "prune n now (drop_counter w now) (snd table) (fst table) = (n', h', fst table')"
    using assms(2) unfolding prune_table_def
    by (cases "prune n now (drop_counter w now) (snd table) (fst table)") auto
  have "counter_tracks w (Some now) adm k (fmlookup (fst table') k)" for k
  proof -
    have t: "counter_tracks w (Some now) adm k (fmlookup (fst table) k)" using assms(1) by (simp add: table_tracks_def)
    from window_counters.prune_look [OF p, of k] show ?thesis
      using t counter_tracks_expired by (auto simp: algebra_simps)
  qed
  then show ?thesis using assms(1) by (simp add: table_tracks_def)
qed

section \<open>A counter taken and raised\<close>

lemma fresh_counter_tracks:
  assumes "counter_tracks w (Some now) adm k None" "0 < w"
  shows "counter_tracks w (Some now) adm k (Some \<lparr>started_at = now, counted = 0\<rparr>)"
proof -
  have "in_window k now adm = []"
    using assms by (force simp: in_window_def filter_empty_conv counter_tracks_def)
  then show ?thesis using assms by (auto simp: counter_tracks_def)
qed

lemma window_counter_tracks:
  assumes t: "table_tracks w cap (Some now) (fst table) adm" and w: "0 < w"
    and c: "window_counter w k now table serial = Some (c, table', serial')"
  shows "table_tracks w cap (Some now) (fst table') adm" "fmlookup (fst table') k = Some c"
    "started_at c \<le> now" "now < started_at c + w"
    "j \<noteq> k \<Longrightarrow> fmlookup (fst table') j = fmlookup (fst table) j"
proof -
  have tk: "counter_tracks w (Some now) adm j (fmlookup (fst table) j)" for j
    using t by (simp add: table_tracks_def)
  have "(c = \<lparr>started_at = now, counted = 0\<rparr> \<and> fst table' = fmupd k c (fst table)
      \<and> counter_tracks w (Some now) adm k None)
    \<or> (fmlookup (fst table) k = Some c \<and> table' = table \<and> now < started_at c + w \<and> started_at c \<le> now)"
  proof (cases "fmlookup (fst table) k")
    case None
    then show ?thesis using c tk [of k] by (auto simp: window_counter_def Let_def split: prod.splits)
  next
    case (Some d)
    show ?thesis
    proof (cases "now - started_at d \<ge> w")
      case True
      then have "counter_tracks w (Some now) adm k None"
        using counter_tracks_expired tk [of k] Some by (simp add: algebra_simps)
      then show ?thesis using c Some True by (auto simp: window_counter_def Let_def split: prod.splits)
    next
      case False
      then show ?thesis using c Some by (auto simp: window_counter_def Let_def split: prod.splits if_splits)
    qed
  qed
  then show "table_tracks w cap (Some now) (fst table') adm" "fmlookup (fst table') k = Some c"
    "started_at c \<le> now" "now < started_at c + w"
    "j \<noteq> k \<Longrightarrow> fmlookup (fst table') j = fmlookup (fst table) j"
    using t tk fresh_counter_tracks [OF _ w] w by (auto simp: table_tracks_def)
qed

lemma in_window_snoc: "in_window k s (adm @ [(j, u, v)]) = in_window k s adm @ (if j = k \<and> u = s then [(j, u, v)] else [])"
  by (simp add: in_window_def)

lemma bump_tracks:
  assumes t: "table_tracks w cap (Some now) (fst table) adm" and k: "fmlookup (fst table) k = Some c"
    and now: "started_at c \<le> now" "now < started_at c + w" and cap: "counted c < cap"
  shows "table_tracks w cap (Some now) (fst (bump k c table)) (adm @ [(k, started_at c, now)])"
proof -
  have tk: "counter_tracks w (Some now) adm j (fmlookup (fst table) j)" for j
    using t by (simp add: table_tracks_def)
  have c: "counted c = int (length (in_window k (started_at c) adm))"
    "\<And>s v. (k, s, v) \<in> set adm \<Longrightarrow> s = started_at c \<or> s + w \<le> started_at c"
    using tk [of k] k by (auto simp: counter_tracks_def)
  have a: "admissions_spaced w cap (Some now) adm" using t by (simp add: table_tracks_def)
  have "admissions_spaced w cap (Some now) (adm @ [(k, started_at c, now)])"
    unfolding admissions_spaced_def
  proof (intro conjI)
    show "\<forall>(j, s, v) \<in> set (adm @ [(k, started_at c, now)]). s \<le> v \<and> v < s + w \<and> before (Some now) v"
      using a now by (auto simp: admissions_spaced_def)
    show "\<forall>(j, s, v) \<in> set (adm @ [(k, started_at c, now)]). \<forall>(j', s', v') \<in> set (adm @ [(k, started_at c, now)]).
        j' = j \<longrightarrow> s < s' \<longrightarrow> s + w \<le> s'"
      using a c(2) now by (fastforce simp: admissions_spaced_def)
    show "\<forall>j s. int (length (in_window j s (adm @ [(k, started_at c, now)]))) \<le> cap"
      using a c(1) cap by (auto simp: admissions_spaced_def in_window_snoc)
  qed
  moreover have "counter_tracks w (Some now) (adm @ [(k, started_at c, now)]) j (fmlookup (fst (bump k c table)) j)" for j
    using tk [of j] k by (auto simp: counter_tracks_def bump_def in_window_snoc split: option.splits)
  ultimately show ?thesis by (simp add: table_tracks_def)
qed

section \<open>What a counter is worth\<close>

definition live_count :: "rat \<Rightarrow> rat \<Rightarrow> counter option \<Rightarrow> int" where
  "live_count w now entry = (case entry of None \<Rightarrow> 0 | Some c \<Rightarrow> if now < started_at c + w then counted c else 0)"

lemma window_counter_live:
  assumes t: "table_tracks w cap (Some now) (fst table) adm" and w: "0 < w"
  shows "\<exists>c table' serial'. window_counter w k now table serial = Some (c, table', serial')
    \<and> counted c = live_count w now (fmlookup (fst table) k)"
proof -
  obtain m h where m: "table = (m, h)" by (rule prod.exhaust)
  show ?thesis
  proof (cases "fmlookup m k")
    case None
    then show ?thesis by (simp add: m window_counter_def Let_def live_count_def)
  next
    case (Some d)
    have "started_at d \<le> now"
      using t Some m by (auto simp: table_tracks_def counter_tracks_def dest: spec [of _ k])
    then show ?thesis using Some
      by (cases "now - started_at d \<ge> w") (auto simp: m window_counter_def Let_def live_count_def)
  qed
qed

lemma prune_table_live:
  assumes "prune_table w now n table = (n', table')"
  shows "live_count w now (fmlookup (fst table') k) = live_count w now (fmlookup (fst table) k)"
proof -
  obtain h' where p: "prune n now (drop_counter w now) (snd table) (fst table) = (n', h', fst table')"
    using assms unfolding prune_table_def
    by (cases "prune n now (drop_counter w now) (snd table) (fst table)") auto
  show ?thesis using window_counters.prune_look [OF p, of k]
    by (auto simp: live_count_def algebra_simps)
qed

section \<open>A call\<close>

definition limiter_tracks :: "limits \<Rightarrow> limiter \<Rightarrow> string admission list \<Rightarrow> (string \<times> string) admission list \<Rightarrow> bool" where
  "limiter_tracks policy l accs devs \<longleftrightarrow>
     table_tracks (window_seconds policy) (account_request_limit policy) (lm_last_observed l) (fst (lm_accounts l)) accs
   \<and> table_tracks (window_seconds policy) (device_request_limit policy) (lm_last_observed l) (fst (lm_devices l)) devs"

definition device_key :: "principal \<Rightarrow> string \<times> string" where
  "device_key p = (principal_account p, principal_device p)"

text \<open>The starts of the windows that the counters of a principal's account and device are in.\<close>

definition windows_after :: "limiter \<Rightarrow> principal \<Rightarrow> rat option \<times> rat option" where
  "windows_after l p = (map_option started_at (fmlookup (fst (lm_accounts l)) (principal_account p)),
     map_option started_at (fmlookup (fst (lm_devices l)) (device_key p)))"

lemma consume_tracks:
  assumes v: "valid_limits policy" and t: "limiter_tracks policy l accs devs"
    and c: "consume policy p r l = (ok, l')"
  shows "if ok then \<exists>now s u. r = Finite now \<and> windows_after l' p = (Some s, Some u)
      \<and> limiter_tracks policy l' (accs @ [(principal_account p, s, now)]) (devs @ [(device_key p, u, now)])
    else limiter_tracks policy l' accs devs"
    and "ok \<longleftrightarrow> (\<exists>now. observe (lm_last_observed l) r = Some now
      \<and> live_count (window_seconds policy) now (fmlookup (fst (lm_accounts l)) (principal_account p)) < account_request_limit policy
      \<and> live_count (window_seconds policy) now (fmlookup (fst (lm_devices l)) (device_key p)) < device_request_limit policy)"
    and "observe (lm_last_observed l) r = None \<Longrightarrow> l' = l"
proof -
  define w where "w = window_seconds policy"
  have w: "0 < w" using v by (simp add: valid_limits_def w_def)
  show n: "observe (lm_last_observed l) r = None \<Longrightarrow> l' = l" using c by (simp add: consume_def)
  have "(if ok then \<exists>now s u. r = Finite now \<and> windows_after l' p = (Some s, Some u)
      \<and> limiter_tracks policy l' (accs @ [(principal_account p, s, now)]) (devs @ [(device_key p, u, now)])
    else limiter_tracks policy l' accs devs)
    \<and> (ok \<longleftrightarrow> (\<exists>now. observe (lm_last_observed l) r = Some now
      \<and> live_count w now (fmlookup (fst (lm_accounts l)) (principal_account p)) < account_request_limit policy
      \<and> live_count w now (fmlookup (fst (lm_devices l)) (device_key p)) < device_request_limit policy))"
  proof (cases "observe (lm_last_observed l) r")
    case None
    then show ?thesis using c t by (simp add: consume_def)
  next
    case (Some now)
    then have r: "r = Finite now" and later: "\<And>u. lm_last_observed l = Some u \<Longrightarrow> u \<le> now"
      by (auto simp: observe_Some)
    have ta: "table_tracks w (account_request_limit policy) (Some now) (fst (lm_accounts l)) accs"
      and td: "table_tracks w (device_request_limit policy) (Some now) (fst (lm_devices l)) devs"
      using t table_tracks_later later unfolding limiter_tracks_def w_def by blast+
    obtain n1 accounts where pa: "prune_table w now MAX_COUNTER_PRUNE_PER_REQUEST (lm_accounts l) = (n1, accounts)"
      by (rule prod.exhaust)
    obtain n2 devices where pd: "prune_table w now n1 (lm_devices l) = (n2, devices)" by (rule prod.exhaust)
    note ta1 = table_tracks_prune [OF ta pa] and td1 = table_tracks_prune [OF td pd]
    obtain a accounts' serial1 where wa: "window_counter w (principal_account p) now accounts (lm_serial l) = Some (a, accounts', serial1)"
      and la: "counted a = live_count w now (fmlookup (fst (lm_accounts l)) (principal_account p))"
      using window_counter_live [OF ta1 w, of "principal_account p" "lm_serial l"] prune_table_live [OF pa, of "principal_account p"] by auto
    obtain d devices' serial2 where wd: "window_counter w (device_key p) now devices serial1 = Some (d, devices', serial2)"
      and ld: "counted d = live_count w now (fmlookup (fst (lm_devices l)) (device_key p))"
      using window_counter_live [OF td1 w, of "device_key p" serial1] prune_table_live [OF pd, of "device_key p"] by auto
    note wa1 = window_counter_tracks [OF ta1 w wa] and wd1 = window_counter_tracks [OF td1 w wd]
    define full where "full \<longleftrightarrow> counted a \<ge> account_request_limit policy \<or> counted d \<ge> device_request_limit policy"
    define taken where "taken = l\<lparr>lm_last_observed := Some now, lm_accounts := accounts', lm_devices := devices', lm_serial := serial2\<rparr>"
    have e: "(ok, l') = (if full then (False, taken)
        else (True, taken\<lparr>lm_accounts := bump (principal_account p) a accounts', lm_devices := bump (device_key p) d devices'\<rparr>))"
      using c Some pa pd wa wd
      by (auto simp: consume_def Let_def w_def [symmetric] device_key_def [symmetric] full_def taken_def split: if_splits)
    have ok: "ok \<longleftrightarrow> \<not> full" using e by (simp split: if_splits)
    have "limiter_tracks policy l' (accs @ [(principal_account p, started_at a, now)]) (devs @ [(device_key p, started_at d, now)])
        \<and> windows_after l' p = (Some (started_at a), Some (started_at d))" if ok
      using e that ok bump_tracks [OF wa1(1,2,3,4)] bump_tracks [OF wd1(1,2,3,4)]
      by (simp add: limiter_tracks_def taken_def full_def w_def windows_after_def) (simp add: bump_def)
    moreover have "limiter_tracks policy l' accs devs" if "\<not> ok"
      using e that ok wa1(1) wd1(1) by (simp add: limiter_tracks_def taken_def w_def)
    ultimately show ?thesis using r ok Some by (auto simp: full_def la ld not_le)
  qed
  then show "if ok then \<exists>now s u. r = Finite now \<and> windows_after l' p = (Some s, Some u)
      \<and> limiter_tracks policy l' (accs @ [(principal_account p, s, now)]) (devs @ [(device_key p, u, now)])
    else limiter_tracks policy l' accs devs"
    and "ok \<longleftrightarrow> (\<exists>now. observe (lm_last_observed l) r = Some now
      \<and> live_count (window_seconds policy) now (fmlookup (fst (lm_accounts l)) (principal_account p)) < account_request_limit policy
      \<and> live_count (window_seconds policy) now (fmlookup (fst (lm_devices l)) (device_key p)) < device_request_limit policy)"
    unfolding w_def by blast+
qed

section \<open>Runs\<close>

text \<open>A run with the list of what was admitted: who, when, and in which windows of the account and of
  the device, as the counters have them after the call.\<close>

record admitted =
  adm_principal :: principal
  adm_time :: rat
  adm_account_window :: "rat option"
  adm_device_window :: "rat option"

inductive limiter_run :: "limits \<Rightarrow> limiter \<Rightarrow> admitted list \<Rightarrow> bool" for policy where
  limiter_start: "limiter_run policy initial_limiter []"
| limiter_refuse: "limiter_run policy l adm \<Longrightarrow> consume policy p r l = (False, l') \<Longrightarrow> limiter_run policy l' adm"
| limiter_admit: "limiter_run policy l adm \<Longrightarrow> consume policy p (Finite now) l = (True, l') \<Longrightarrow>
     limiter_run policy l' (adm @ [\<lparr>adm_principal = p, adm_time = now,
       adm_account_window = fst (windows_after l' p), adm_device_window = snd (windows_after l' p)\<rparr>])"

definition by_account :: "admitted list \<Rightarrow> (string \<times> rat option \<times> rat) list" where
  "by_account adm = map (\<lambda>x. (principal_account (adm_principal x), adm_account_window x, adm_time x)) adm"

definition by_device :: "admitted list \<Rightarrow> ((string \<times> string) \<times> rat option \<times> rat) list" where
  "by_device adm = map (\<lambda>x. (device_key (adm_principal x), adm_device_window x, adm_time x)) adm"

definition with_starts :: "'k admission list \<Rightarrow> ('k \<times> rat option \<times> rat) list" where
  "with_starts adm = map (\<lambda>(k, s, t). (k, Some s, t)) adm"

lemma with_starts_snoc: "with_starts (adm @ [(k, s, t)]) = with_starts adm @ [(k, Some s, t)]"
  by (simp add: with_starts_def)

text \<open>
  What a fixed-window limiter promises of its admissions, each with its key, the start of its window and its
  time: an admission lies in its window, which lasts for \<open>w\<close>; two windows of a key do not overlap; and
  no window of a key has more than \<open>cap\<close> of them.
\<close>

definition windows_bounded :: "rat \<Rightarrow> int \<Rightarrow> ('k \<times> rat option \<times> rat) list \<Rightarrow> bool" where
  "windows_bounded w cap xs \<longleftrightarrow>
     (\<forall>(k, s, t) \<in> set xs. \<exists>u. s = Some u \<and> u \<le> t \<and> t < u + w)
   \<and> (\<forall>k s u t v. (k, Some s, t) \<in> set xs \<longrightarrow> (k, Some u, v) \<in> set xs \<longrightarrow> s = u \<or> s + w \<le> u \<or> u + w \<le> s)
   \<and> (\<forall>k s. int (length (filter (\<lambda>(j, u, _). j = k \<and> u = s) xs)) \<le> cap)"

lemma table_tracks_start: "0 \<le> cap \<Longrightarrow> table_tracks w cap None fmempty []"
  by (simp add: table_tracks_def admissions_spaced_def counter_tracks_def in_window_def)

lemma windows_boundedI:
  assumes a: "admissions_spaced w cap last_observed adm" and "0 \<le> cap"
  shows "windows_bounded w cap (with_starts adm)"
  unfolding windows_bounded_def
proof (intro conjI allI impI)
  show "\<forall>(k, s, t) \<in> set (with_starts adm). \<exists>u. s = Some u \<and> u \<le> t \<and> t < u + w"
    using a by (auto simp: with_starts_def admissions_spaced_def)
next
  fix k s u t v assume "(k, Some s, t) \<in> set (with_starts adm)" "(k, Some u, v) \<in> set (with_starts adm)"
  then have "(k, s, t) \<in> set adm" "(k, u, v) \<in> set adm" by (auto simp: with_starts_def)
  then show "s = u \<or> s + w \<le> u \<or> u + w \<le> s"
    using a unfolding admissions_spaced_def by (cases s u rule: linorder_cases) blast+
next
  fix k s
  have "filter (\<lambda>(j, u, _). j = k \<and> u = s) (with_starts adm) = with_starts (filter (\<lambda>(j, u, _). j = k \<and> Some u = s) adm)"
    by (simp add: with_starts_def filter_map comp_def case_prod_unfold)
  then have "length (filter (\<lambda>(j, u, _). j = k \<and> u = s) (with_starts adm))
      = (case s of None \<Rightarrow> 0 | Some u \<Rightarrow> length (in_window k u adm))"
    by (cases s) (simp_all add: with_starts_def in_window_def)
  then show "int (length (filter (\<lambda>(j, u, _). j = k \<and> u = s) (with_starts adm))) \<le> cap"
    using a assms(2) by (cases s) (simp_all add: admissions_spaced_def)
qed

lemma limiter_run_tracks:
  assumes "limiter_run policy l adm" "valid_limits policy"
  shows "\<exists>accs devs. limiter_tracks policy l accs devs \<and> with_starts accs = by_account adm \<and> with_starts devs = by_device adm"
  using assms
proof (induction rule: limiter_run.induct)
  case limiter_start
  then have "limiter_tracks policy initial_limiter [] []"
    by (simp add: limiter_tracks_def initial_limiter_def table_tracks_start valid_limits_def)
  then show ?case by (intro exI [of _ "[]"]) (simp add: with_starts_def by_account_def by_device_def)
next
  case (limiter_refuse l adm p r l')
  then obtain accs devs where i: "limiter_tracks policy l accs devs"
    "with_starts accs = by_account adm" "with_starts devs = by_device adm" by blast
  have "limiter_tracks policy l' accs devs"
    using consume_tracks(1) [OF limiter_refuse.prems i(1) limiter_refuse.hyps(2)] by simp
  then show ?case using i(2,3) by blast
next
  case (limiter_admit l adm p now l')
  then obtain accs devs where i: "limiter_tracks policy l accs devs"
    "with_starts accs = by_account adm" "with_starts devs = by_device adm" by blast
  obtain s u where "limiter_tracks policy l' (accs @ [(principal_account p, s, now)]) (devs @ [(device_key p, u, now)])"
    "windows_after l' p = (Some s, Some u)"
    using consume_tracks(1) [OF limiter_admit.prems i(1) limiter_admit.hyps(2)] by auto
  then show ?case using i(2,3)
    by (intro exI [of _ "accs @ [(principal_account p, s, now)]"] exI [of _ "devs @ [(device_key p, u, now)]"])
      (simp add: with_starts_snoc by_account_def by_device_def)
qed

end
