(* ===== verification/ControlsProperties.thy ===== *)
theory ControlsProperties
  imports Limiter
begin

text \<open>
  The properties of the abuse controls: how many requests pass in any interval, when a request
  passes, and what the telemetry keeps.
\<close>

section \<open>Admissions in an interval\<close>

lemma length_filter_two:
  "(\<And>x. x \<in> set xs \<Longrightarrow> P x \<Longrightarrow> Q x \<or> R x) \<Longrightarrow> length (filter P xs) \<le> length (filter Q xs) + length (filter R xs)"
  by (induction xs) auto

text \<open>An interval of the length of a window meets at most two windows.\<close>

lemma admissions_in_interval:
  assumes a: "admissions_spaced w cap last_observed adm" and w: "0 < w"
  shows "int (length (filter (\<lambda>(j, s, t). j = k \<and> from \<le> t \<and> t < from + w) (with_starts adm))) \<le> 2 * cap"
proof -
  define P :: "'a admission \<Rightarrow> bool" where "P = (\<lambda>(j, s, t). j = k \<and> from \<le> t \<and> t < from + w)"
  have spaced: "s + w \<le> u" if "(k, s, t) \<in> set adm" "(k, u, v) \<in> set adm" "s < u" for s t u v
    using a that unfolding admissions_spaced_def by blast
  have inside: "s \<le> t" "t < s + w" if "(k, s, t) \<in> set adm" for s t
    using a that unfolding admissions_spaced_def by auto
  have cap: "int (length (in_window k s adm)) \<le> cap" for s
    using a unfolding admissions_spaced_def by blast
  define S where "S = {s. \<exists>t. (k, s, t) \<in> set adm \<and> from \<le> t \<and> t < from + w}"
  have "S \<subseteq> (\<lambda>(j, s, t). s) ` set adm" unfolding S_def by force
  then have fin: "finite S" by (rule finite_subset) simp
  obtain s0 s1 where cover: "S \<subseteq> {s0, s1}"
  proof (cases "S = {}")
    case False
    define s0 where "s0 = Min S"
    have s0: "s0 \<in> S" "\<And>s. s \<in> S \<Longrightarrow> s0 \<le> s" using fin False by (simp_all add: s0_def)
    show thesis
    proof (cases "S - {s0} = {}")
      case True
      then show thesis using that [of s0 s0] by blast
    next
      case False
      define s1 where "s1 = Min (S - {s0})"
      have s1: "s1 \<in> S" "s1 \<noteq> s0" "\<And>s. s \<in> S \<Longrightarrow> s \<noteq> s0 \<Longrightarrow> s1 \<le> s"
        using fin False Min_in [of "S - {s0}"] by (auto simp: s1_def)
      have "s = s0 \<or> s = s1" if s: "s \<in> S" for s
      proof (rule ccontr)
        assume "\<not> (s = s0 \<or> s = s1)"
        then have lt: "s0 < s1" "s1 < s" using s0(2) [OF s1(1)] s1(2,3) s by force+
        obtain t0 where t0: "(k, s0, t0) \<in> set adm" "from \<le> t0" using s0(1) by (auto simp: S_def)
        obtain t1 where t1: "(k, s1, t1) \<in> set adm" using s1(1) by (auto simp: S_def)
        obtain t where t: "(k, s, t) \<in> set adm" "t < from + w" using s by (auto simp: S_def)
        show False
          using spaced [OF t0(1) t1 lt(1)] spaced [OF t1 t(1) lt(2)] inside(2) [OF t0(1)] inside(1) [OF t(1)] t0(2) t(2)
          by linarith
      qed
      then show thesis using that by blast
    qed
  qed (use that in blast)
  have "length (filter P adm) \<le> length (in_window k s0 adm) + length (in_window k s1 adm)"
    unfolding in_window_def
  proof (rule length_filter_two)
    fix x assume x: "x \<in> set adm" "P x"
    obtain j s t where e: "x = (j, s, t)" by (rule prod_cases3)
    have "j = k" "s \<in> S" using x by (auto simp: e P_def S_def)
    then show "(\<lambda>(j, u, _). j = k \<and> u = s0) x \<or> (\<lambda>(j, u, _). j = k \<and> u = s1) x"
      using cover by (auto simp: e)
  qed
  moreover have "length (filter (\<lambda>(j, s, t). j = k \<and> from \<le> t \<and> t < from + w) (with_starts adm)) = length (filter P adm)"
    unfolding with_starts_def filter_map length_map P_def by (rule arg_cong [of _ _ length], rule filter_cong) auto
  ultimately show ?thesis using cap [of s0] cap [of s1] by linarith
qed

section \<open>A concrete limiter\<close>

lemma default_limits_simps:
  "account_request_limit default_limits = 40" "device_request_limit default_limits = 24"
  "window_seconds default_limits = 60"
  by (simp_all add: default_limits_def policy_check_def default_policy_def)

lemma default_limits_valid: "valid_limits default_limits"
  by (rule policy_check_valid [OF default_policy_check])

definition sample_principal :: principal where
  "sample_principal = \<lparr>principal_account = ''a'', principal_device = ''d''\<rparr>"

definition sample_peer :: principal where
  "sample_peer = \<lparr>principal_account = ''a'', principal_device = ''e''\<rparr>"

text \<open>Limits of two requests per account and one per device and minute: of the requests of one device at the
  seconds 0, 20 and 65 and of another at 30 and 40, all but those at 20 and 40 pass.\<close>

definition tight_limits :: limits where
  "tight_limits = default_limits\<lparr>account_request_limit := 2, device_request_limit := 1\<rparr>"

lemma tight_limits_simps: "account_request_limit tight_limits = 2" "device_request_limit tight_limits = 1"
    "window_seconds tight_limits = 60"
  by (simp_all add: tight_limits_def default_limits_simps)

lemma tight_limits_valid: "valid_limits tight_limits"
  using default_limits_valid by (simp add: valid_limits_def tight_limits_def)

definition after_call :: "principal \<Rightarrow> rat \<Rightarrow> limiter \<Rightarrow> limiter" where
  "after_call p now l = snd (consume tight_limits p (Finite now) l)"

definition sample_limiter :: "nat \<Rightarrow> limiter" where
  "sample_limiter n = fold (\<lambda>(p, now). after_call p now)
     (take n [(sample_principal, 0), (sample_principal, 20), (sample_peer, 30), (sample_peer, 40), (sample_principal, 65)])
     initial_limiter"

lemma sample_answers:
  "consume tight_limits sample_principal (Finite 0) initial_limiter = (True, sample_limiter 1)"
  "consume tight_limits sample_principal (Finite 20) (sample_limiter 1) = (False, sample_limiter 2)"
  "consume tight_limits sample_peer (Finite 30) (sample_limiter 2) = (True, sample_limiter 3)"
  "consume tight_limits sample_peer (Finite 40) (sample_limiter 3) = (False, sample_limiter 4)"
  "consume tight_limits sample_principal (Finite 65) (sample_limiter 4) = (True, sample_limiter 5)"
proof -
  have "fst (consume tight_limits sample_principal (Finite 0) initial_limiter)"
    "\<not> fst (consume tight_limits sample_principal (Finite 20) (sample_limiter 1))"
    "fst (consume tight_limits sample_peer (Finite 30) (sample_limiter 2))"
    "\<not> fst (consume tight_limits sample_peer (Finite 40) (sample_limiter 3))"
    "fst (consume tight_limits sample_principal (Finite 65) (sample_limiter 4))"
    by code_simp+
  then show "consume tight_limits sample_principal (Finite 0) initial_limiter = (True, sample_limiter 1)"
    "consume tight_limits sample_principal (Finite 20) (sample_limiter 1) = (False, sample_limiter 2)"
    "consume tight_limits sample_peer (Finite 30) (sample_limiter 2) = (True, sample_limiter 3)"
    "consume tight_limits sample_peer (Finite 40) (sample_limiter 3) = (False, sample_limiter 4)"
    "consume tight_limits sample_principal (Finite 65) (sample_limiter 4) = (True, sample_limiter 5)"
    by (simp_all add: prod_eq_iff sample_limiter_def after_call_def)
qed

lemma sample_windows:
  "windows_after (sample_limiter 1) sample_principal = (Some 0, Some 0)"
  "windows_after (sample_limiter 3) sample_peer = (Some 0, Some 30)"
  "windows_after (sample_limiter 5) sample_principal = (Some 65, Some 65)"
  by code_simp+

definition sample_admitted :: "admitted list" where
  "sample_admitted =
     [\<lparr>adm_principal = sample_principal, adm_time = 0, adm_account_window = Some 0, adm_device_window = Some 0\<rparr>,
      \<lparr>adm_principal = sample_peer, adm_time = 30, adm_account_window = Some 0, adm_device_window = Some 30\<rparr>,
      \<lparr>adm_principal = sample_principal, adm_time = 65, adm_account_window = Some 65, adm_device_window = Some 65\<rparr>]"

lemma sample_limiter_run: "limiter_run tight_limits (sample_limiter 5) sample_admitted"
proof -
  note 1 = limiter_admit [OF limiter_start sample_answers(1)]
  note 2 = limiter_refuse [OF limiter_admit [OF limiter_refuse [OF 1 sample_answers(2)] sample_answers(3)] sample_answers(4)]
  from limiter_admit [OF 2 sample_answers(5)] show ?thesis
    unfolding sample_windows fst_conv snd_conv append.simps sample_admitted_def .
qed

section \<open>Properties\<close>

text \<open>C15: whatever requests arrive and whatever the clock reads, every request that passes is counted in a
  window of its account and in one of its device; a window lasts for the configured time, two windows of
  an account or of a device do not overlap, and each has at most the limit of admissions.  So in any
  interval as long as a window, wherever it begins, at most twice the limit pass; starting new
  sessions or using other devices does not raise the bounds.\<close>

theorem limiter_bounds_admissions:
  assumes "limiter_run policy l adm" and "valid_limits policy"
  shows "windows_bounded (window_seconds policy) (account_request_limit policy) (by_account adm)
    \<and> windows_bounded (window_seconds policy) (device_request_limit policy) (by_device adm)
    \<and> int (length (filter (\<lambda>(j, s, t). j = a \<and> from \<le> t \<and> t < from + window_seconds policy) (by_account adm)))
      \<le> 2 * account_request_limit policy
    \<and> int (length (filter (\<lambda>(j, s, t). j = d \<and> from \<le> t \<and> t < from + window_seconds policy) (by_device adm)))
      \<le> 2 * device_request_limit policy"
proof -
  obtain accs devs where t: "limiter_tracks policy l accs devs"
    "with_starts accs = by_account adm" "with_starts devs = by_device adm"
    using limiter_run_tracks [OF assms] by blast
  have w: "0 < window_seconds policy" "0 \<le> account_request_limit policy" "0 \<le> device_request_limit policy"
    using assms(2) by (simp_all add: valid_limits_def)
  have s: "admissions_spaced (window_seconds policy) (account_request_limit policy) (lm_last_observed l) accs"
    "admissions_spaced (window_seconds policy) (device_request_limit policy) (lm_last_observed l) devs"
    using t(1) by (simp_all add: limiter_tracks_def table_tracks_def)
  show ?thesis
    using admissions_in_interval [OF s(1) w(1), of a "from"] admissions_in_interval [OF s(2) w(1), of d "from"]
      windows_boundedI [OF s(1) w(2)] windows_boundedI [OF s(2) w(3)]
    unfolding t(2,3) by blast
qed

theorem limiter_bounds_admissions_witness:
  "limiter_run tight_limits (sample_limiter 5) sample_admitted
    \<and> windows_bounded 60 2 (by_account sample_admitted) \<and> windows_bounded 60 1 (by_device sample_admitted)
    \<and> length (filter (\<lambda>(j, s, t). j = ''a'' \<and> 10 \<le> t \<and> t < 10 + (60 :: rat)) (by_account sample_admitted)) = 2"
  using limiter_bounds_admissions [OF sample_limiter_run tight_limits_valid, of "''a''" 10] sample_limiter_run
  unfolding tight_limits_simps
  by (simp add: by_account_def sample_admitted_def sample_principal_def sample_peer_def)

text \<open>A request passes exactly when the clock reads a finite time that is not earlier than the last
  one and neither the account's nor the device's open window is full; in particular it passes once
  both windows have run out.  A reading that is not finite or goes back raises and changes nothing.\<close>

theorem limiter_admission_rule:
  assumes "limiter_run policy l adm" and "valid_limits policy"
  shows "(fst (consume policy p r l) \<longleftrightarrow> (\<exists>now. observe (lm_last_observed l) r = Some now
      \<and> live_count (window_seconds policy) now (fmlookup (fst (lm_accounts l)) (principal_account p)) < account_request_limit policy
      \<and> live_count (window_seconds policy) now (fmlookup (fst (lm_devices l)) (device_key p)) < device_request_limit policy))
    \<and> (observe (lm_last_observed l) r = None \<longrightarrow> consume policy p r l = (False, l))"
proof -
  obtain accs devs where t: "limiter_tracks policy l accs devs" using limiter_run_tracks [OF assms] by blast
  obtain ok l' where c: "consume policy p r l = (ok, l')" by (rule prod.exhaust)
  show ?thesis
    using consume_tracks(2,3) [OF assms(2) t c] c by auto
qed

theorem limiter_admission_rule_witness:
  "fst (consume default_limits sample_principal (Finite 0) initial_limiter)
    \<and> consume default_limits sample_principal NonFinite initial_limiter = (False, initial_limiter)"
  using limiter_admission_rule [OF limiter_start default_limits_valid, of sample_principal "Finite 0"]
    limiter_admission_rule [OF limiter_start default_limits_valid, of sample_principal NonFinite]
  by (simp add: observe_def initial_limiter_def live_count_def default_limits_simps)

section \<open>The limiter of verifications\<close>

inductive verification_run :: "int \<Rightarrow> rat \<Rightarrow> verification_limiter \<Rightarrow> rat list \<Rightarrow> bool" for cap w where
  verification_start: "verification_run cap w initial_verification_limiter []"
| verification_refuse: "verification_run cap w v ts \<Longrightarrow> verification_consume cap w r v = (False, v') \<Longrightarrow>
     verification_run cap w v' ts"
| verification_admit: "verification_run cap w v ts \<Longrightarrow> verification_consume cap w (Finite now) v = (True, v') \<Longrightarrow>
     verification_run cap w v' (ts @ [now])"

text \<open>Its window as a table with one key.\<close>

definition verification_table :: "verification_limiter \<Rightarrow> (unit, counter) fmap" where
  "verification_table v = (case vl_window_started_at v of None \<Rightarrow> fmempty
     | Some s \<Rightarrow> fmupd () \<lparr>started_at = s, counted = vl_count v\<rparr> fmempty)"

lemma table_tracks_unit:
  "table_tracks w cap (Some now) m adm \<Longrightarrow> 0 < w \<Longrightarrow> counter_tracks w (Some now) adm () None \<Longrightarrow>
     table_tracks w cap (Some now) (fmupd () \<lparr>started_at = now, counted = 0\<rparr> fmempty) adm"
  using fresh_counter_tracks by (auto simp: table_tracks_def)

lemma verification_consume_tracks:
  assumes w: "0 < w" and t: "table_tracks w cap (vl_last_observed v) (verification_table v) adm"
    and c: "verification_consume cap w r v = (ok, v')"
  shows "if ok then \<exists>now s. r = Finite now \<and> table_tracks w cap (vl_last_observed v') (verification_table v') (adm @ [((), s, now)])
    else table_tracks w cap (vl_last_observed v') (verification_table v') adm"
proof (cases "observe (vl_last_observed v) r")
  case None
  then show ?thesis using c t by (simp add: verification_consume_def)
next
  case (Some now)
  then have r: "r = Finite now" and later: "\<And>u. vl_last_observed v = Some u \<Longrightarrow> u \<le> now" by (auto simp: observe_Some)
  have tn: "table_tracks w cap (Some now) (verification_table v) adm" by (rule table_tracks_later [OF t later])
  define v1 where "v1 = v\<lparr>vl_last_observed := Some now\<rparr>"
  define v2 where "v2 = (if (\<forall>t \<in> set_option (vl_window_started_at v1). now - t \<ge> w)
                 then v1\<lparr>vl_window_started_at := Some now, vl_count := 0\<rparr> else v1)"
  have e: "(ok, v') = (if vl_count v2 \<ge> cap then (False, v2) else (True, v2\<lparr>vl_count := vl_count v2 + 1\<rparr>))"
    unfolding c [symmetric] verification_consume_def Some option.case Let_def v2_def v1_def ..
  have l2: "vl_last_observed v2 = Some now" by (simp add: v1_def v2_def)
  obtain s where s: "vl_window_started_at v2 = Some s" "s \<le> now" "now < s + w"
    "table_tracks w cap (Some now) (verification_table v2) adm"
  proof (cases "\<forall>t \<in> set_option (vl_window_started_at v). now - t \<ge> w")
    case True
    have "counter_tracks w (Some now) adm () (fmlookup (verification_table v) ())" using tn by (simp add: table_tracks_def)
    then have "counter_tracks w (Some now) adm () None"
      using True counter_tracks_expired by (fastforce simp: verification_table_def algebra_simps split: option.splits)
    then have "table_tracks w cap (Some now) (verification_table v2) adm"
      using table_tracks_unit [OF tn w] True by (simp add: v2_def v1_def verification_table_def)
    then show thesis using that [of now] True w by (simp add: v2_def v1_def)
  next
    case False
    then obtain s where s: "vl_window_started_at v = Some s" "now < s + w" by auto
    have "counter_tracks w (Some now) adm () (Some \<lparr>started_at = s, counted = vl_count v\<rparr>)"
      using tn s(1) by (simp add: table_tracks_def verification_table_def)
    then have "s \<le> now" by (simp add: counter_tracks_def)
    then show thesis using that [of s] False s tn by (simp add: v2_def v1_def verification_table_def)
  qed
  show ?thesis
  proof (cases "vl_count v2 \<ge> cap")
    case True
    then show ?thesis using e s(4) l2 by simp
  next
    case False
    have "table_tracks w cap (Some now) (fst (bump () \<lparr>started_at = s, counted = vl_count v2\<rparr> (verification_table v2, []))) (adm @ [((), s, now)])"
      using bump_tracks [of w cap now "(verification_table v2, [])" adm "()" "\<lparr>started_at = s, counted = vl_count v2\<rparr>"] s False
      by (simp add: verification_table_def)
    then show ?thesis using e False l2 r s(1) by (auto simp: bump_def verification_table_def)
  qed
qed

text \<open>The limiter of account-route verifications admits at most twice its limit in any interval as
  long as its window.\<close>

theorem verification_limiter_bound:
  assumes "verification_run cap w v ts" and "0 < w" and "0 \<le> cap"
  shows "int (length (filter (\<lambda>t. from \<le> t \<and> t < from + w) ts)) \<le> 2 * cap"
proof -
  have "\<exists>adm. table_tracks w cap (vl_last_observed v) (verification_table v) adm \<and> map (\<lambda>(k, s, t). t) adm = ts"
    using assms(1)
  proof (induction rule: verification_run.induct)
    case verification_start
    have "table_tracks w cap (vl_last_observed initial_verification_limiter) (verification_table initial_verification_limiter) []"
      using assms(3) by (simp add: initial_verification_limiter_def verification_table_def table_tracks_start)
    then show ?case by (intro exI [of _ "[]"]) simp
  next
    case (verification_refuse v ts r v')
    then show ?case using verification_consume_tracks [OF assms(2) _ verification_refuse.hyps(2)] by auto
  next
    case (verification_admit v ts now v')
    then obtain adm where adm: "table_tracks w cap (vl_last_observed v) (verification_table v) adm" "map (\<lambda>(k, s, t). t) adm = ts" by blast
    obtain s where "table_tracks w cap (vl_last_observed v') (verification_table v') (adm @ [((), s, now)])"
      using verification_consume_tracks [OF assms(2) adm(1) verification_admit.hyps(2)] by auto
    then show ?case using adm(2) by (intro exI [of _ "adm @ [((), s, now)]"]) simp
  qed
  then obtain adm :: "unit admission list" where adm: "admissions_spaced w cap (vl_last_observed v) adm" "map (\<lambda>(k, s, t). t) adm = ts"
    unfolding table_tracks_def by blast
  show ?thesis using admissions_in_interval [OF adm(1) assms(2), of "()" "from"]
    unfolding with_starts_def adm(2) [symmetric] filter_map length_map by (simp add: comp_def case_prod_unfold)
qed

theorem verification_limiter_bound_witness:
  "int (length (filter (\<lambda>t. 0 \<le> t \<and> t < 0 + 60) [0::rat])) \<le> 2 * 64"
proof -
  have "verification_consume 64 60 (Finite 0) initial_verification_limiter
      = (True, \<lparr>vl_window_started_at = Some 0, vl_count = 1, vl_last_observed = Some 0\<rparr>)"
    by (simp add: verification_consume_def observe_def initial_verification_limiter_def)
  from verification_limiter_bound [OF verification_admit [OF verification_start this], of 0] show ?thesis by simp
qed

section \<open>Telemetry\<close>

definition event_of :: "string \<times> int \<Rightarrow> security_event" where
  "event_of e = \<lparr>event_category = (if fst e \<in> set CATEGORIES then fst e else ''other''),
     event_outcome = status_outcome (snd e), event_status_code = snd e\<rparr>"

definition telemetry_of :: "(string \<times> int) list \<Rightarrow> telemetry" where
  "telemetry_of calls = foldl (\<lambda>t e. telemetry_record (fst e) (snd e) t) initial_telemetry calls"

definition OUTCOMES :: "string list" where
  "OUTCOMES = [''success'', ''invalid'', ''unauthorized'', ''forbidden'', ''not_found'', ''conflict'',
     ''too_large'', ''rate_limited'', ''error'']"

lemma status_outcome_known: "status_outcome s \<in> set OUTCOMES"
  by (simp add: status_outcome_def OUTCOMES_def)

lemma telemetry_of_snoc: "telemetry_of (calls @ [e]) = telemetry_record (fst e) (snd e) (telemetry_of calls)"
  by (simp add: telemetry_of_def)

lemma telemetry_events:
  "tl_events (telemetry_of calls) = drop (length calls - MAX_RETAINED_SECURITY_EVENTS) (map event_of calls)"
proof (induction calls rule: rev_induct)
  case (snoc e calls)
  have r: "tl_events (telemetry_record c s t) = drop (Suc (length (tl_events t)) - MAX_RETAINED_SECURITY_EVENTS)
      (tl_events t @ [event_of (c, s)])" for c s t
    by (simp add: telemetry_record_def Let_def event_of_def)
  show ?case unfolding telemetry_of_snoc r snoc.IH
    by (cases "length calls \<le> 256") (simp_all add: MAX_RETAINED_SECURITY_EVENTS_def Suc_diff_le [symmetric])
qed (simp add: telemetry_of_def initial_telemetry_def)

definition metric_key :: "security_event \<Rightarrow> string \<times> string" where
  "metric_key e = (event_category e, event_outcome e)"

lemma telemetry_metrics:
  "fmlookup (tl_metrics (telemetry_of calls)) k =
    (let n = length (filter (\<lambda>e. metric_key (event_of e) = k) calls) in if n = 0 then None else Some n)"
proof (induction calls rule: rev_induct)
  case (snoc e calls)
  have r: "fmlookup (tl_metrics (telemetry_record c s t)) k = (if metric_key (event_of (c, s)) = k
      then Some ((case fmlookup (tl_metrics t) k of None \<Rightarrow> 0 | Some n \<Rightarrow> n) + 1) else fmlookup (tl_metrics t) k)" for c s t
    by (auto simp: telemetry_record_def Let_def event_of_def metric_key_def)
  show ?case unfolding telemetry_of_snoc r by (simp add: snoc.IH Let_def)
qed (simp add: telemetry_of_def initial_telemetry_def)

text \<open>The telemetry is bounded and carries nothing of a request but a category and an outcome from
  fixed lists and the status code: it keeps the last 256 events in order, and a metric counts the
  calls of its category and outcome, so there are at most 36 of them.\<close>

theorem telemetry_bounded:
  "tl_events (telemetry_of calls) = drop (length calls - MAX_RETAINED_SECURITY_EVENTS) (map event_of calls)
   \<and> length (fst (telemetry_snapshot (telemetry_of calls))) \<le> MAX_RETAINED_SECURITY_EVENTS
   \<and> length (snd (telemetry_snapshot (telemetry_of calls))) \<le> 36
   \<and> fset (fmdom (tl_metrics (telemetry_of calls))) \<subseteq> set CATEGORIES \<times> set OUTCOMES
   \<and> fmlookup (tl_metrics (telemetry_of calls)) k =
      (let n = length (filter (\<lambda>e. metric_key (event_of e) = k) calls) in if n = 0 then None else Some n)"
proof -
  have sub: "fset (fmdom (tl_metrics (telemetry_of calls))) \<subseteq> set CATEGORIES \<times> set OUTCOMES"
  proof
    fix j assume "j \<in> fset (fmdom (tl_metrics (telemetry_of calls)))"
    then have "filter (\<lambda>e. metric_key (event_of e) = j) calls \<noteq> []"
      using telemetry_metrics [of calls j] by (auto simp: fmdom.rep_eq dom_def Let_def split: if_splits)
    then obtain e where "metric_key (event_of e) = j" by (auto simp: filter_empty_conv)
    then show "j \<in> set CATEGORIES \<times> set OUTCOMES"
      using status_outcome_known [of "snd e"] by (auto simp: metric_key_def event_of_def CATEGORIES_def)
  qed
  have "card (fset (fmdom (tl_metrics (telemetry_of calls)))) \<le> card (set CATEGORIES \<times> set OUTCOMES)"
    by (rule card_mono [OF _ sub]) simp
  also have "\<dots> = 36" by (simp add: card_cartesian_product CATEGORIES_def OUTCOMES_def)
  finally have "length (items (tl_metrics (telemetry_of calls))) \<le> 36" by (simp add: length_items fcard.rep_eq)
  then show ?thesis using sub
    by (simp add: telemetry_events telemetry_metrics telemetry_snapshot_def MAX_RETAINED_SECURITY_EVENTS_def)
qed

end
