(* ===== verification/Storage.thy ===== *)
theory Storage
  imports Controls Envelope
begin

text \<open>
  The opaque store of the synchronisation server (\<open>atlasvault_api/storage.py\<close>): envelopes under
  compare-and-set, receipts for retries, capacity, and cursors over patches.

  A call takes the store and returns the result, an error or a value, and the store after it,
  since a call that raises may have pruned receipts and moved the clock.  Its other inputs are
  explicit: the reading of the clock, the results of the entropy source, and \<open>encode\<close>, the bytes
  of pydantic's \<open>model_dump_json\<close>.  Objects are never shared between vaults, so the reference to a
  vault's state in the heap of receipts is the key of the vault.
\<close>

section \<open>Models\<close>

definition OPAQUE_ID_MAX_LENGTH :: nat where
  "OPAQUE_ID_MAX_LENGTH = 128"

definition REVISION_MAX_LENGTH :: nat where
  "REVISION_MAX_LENGTH = 128"

definition IDEMPOTENCY_KEY_MAX_LENGTH :: nat where
  "IDEMPOTENCY_KEY_MAX_LENGTH = 128"

definition MAX_KEY_EPOCH :: int where
  "MAX_KEY_EPOCH = 2 ^ 63 - 1"

text \<open>The three alternatives of \<open>OPAQUE_ID_PATTERN\<close>.\<close>

definition match_opaque_id :: "string \<Rightarrow> bool" where
  "match_opaque_id s \<longleftrightarrow> (case s of [] \<Rightarrow> False
     | c # t \<Rightarrow> (identifier_char c \<and> c \<noteq> CHR ''.'' \<and> list_all identifier_char t)
         \<or> (c = CHR ''.'' \<and> (case t of [] \<Rightarrow> False
             | d # u \<Rightarrow> (identifier_char d \<and> d \<noteq> CHR ''.'' \<and> list_all identifier_char u)
                 \<or> (d = CHR ''.'' \<and> u \<noteq> [] \<and> list_all identifier_char u))))"

definition match_revision :: "string \<Rightarrow> bool" where
  "match_revision s \<longleftrightarrow> s \<noteq> [] \<and> list_all identifier_char s"

record metadata_envelope =
  me_format :: string
  me_version :: int
  me_vault_id :: string
  me_revision :: string
  me_key_epoch :: int
  me_nonce_b64 :: string
  me_ciphertext_b64 :: string
  me_aad_b64 :: string
  me_signature_b64 :: string
  me_content_sha256 :: string

definition valid_revision_field :: "string \<Rightarrow> bool" where
  "valid_revision_field s \<longleftrightarrow> 1 \<le> length s \<and> length s \<le> REVISION_MAX_LENGTH \<and> match_revision s \<and> s \<noteq> ''*''"

definition valid_metadata_model :: "metadata_envelope \<Rightarrow> bool" where
  "valid_metadata_model m \<longleftrightarrow> me_format m = ''atlasvault-encrypted-metadata-envelope'' \<and> 1 \<le> me_version m
     \<and> 1 \<le> length (me_vault_id m) \<and> length (me_vault_id m) \<le> OPAQUE_ID_MAX_LENGTH \<and> match_opaque_id (me_vault_id m)
     \<and> valid_revision_field (me_revision m) \<and> 1 \<le> me_key_epoch m \<and> me_key_epoch m \<le> MAX_KEY_EPOCH
     \<and> list_all (\<lambda>s. 1 \<le> length s) [me_nonce_b64 m, me_ciphertext_b64 m, me_aad_b64 m, me_signature_b64 m]
     \<and> match_sha256 (me_content_sha256 m)"

text \<open>\<open>OpaqueCiphertextEnvelopeModel\<close> has the fields of the client's envelope.\<close>

definition valid_opaque_model :: "envelope \<Rightarrow> bool" where
  "valid_opaque_model e \<longleftrightarrow> env_format e = OPAQUE_ENVELOPE_FORMAT \<and> 1 \<le> env_version e
     \<and> 1 \<le> length (object_id e) \<and> length (object_id e) \<le> OPAQUE_ID_MAX_LENGTH \<and> match_opaque_id (object_id e)
     \<and> valid_revision_field (revision e) \<and> (\<forall>p. parent_revision e = Some p \<longrightarrow> valid_revision_field p)
     \<and> 1 \<le> key_epoch e \<and> key_epoch e \<le> MAX_KEY_EPOCH
     \<and> list_all (\<lambda>s. 1 \<le> length s) [nonce_b64 e, ciphertext_b64 e, aad_b64 e, signature_b64 e]
     \<and> match_sha256 (content_sha256 e)"

datatype storage_envelope = MetadataModel metadata_envelope | OpaqueModel envelope

fun se_revision :: "storage_envelope \<Rightarrow> string" where
  "se_revision (MetadataModel m) = me_revision m"
| "se_revision (OpaqueModel e) = revision e"

section \<open>Errors and state\<close>

datatype storage_error = Conflict | NotFound | InvalidRequest | CapacityExceeded | TypeMismatch | EntropyFailure

record write_attempt =
  expected_revision :: string
  envelope_fingerprint :: string

record prepared_write =
  pw_attempt :: write_attempt
  pw_bytes :: nat

record receipt =
  rc_attempt :: write_attempt
  rc_response :: storage_envelope
  rc_expires_at :: rat

record vault_state =
  vs_metadata :: "metadata_envelope option"
  vs_metadata_fps :: "(string, string) fmap"
  vs_objects :: "(string, envelope) fmap"
  vs_object_fps :: "(string, (string, string) fmap) fmap"
  vs_patches :: "envelope list"
  vs_patches_by_revision :: "(string, envelope) fmap"
  vs_snapshot :: "envelope option"
  vs_snapshot_fps :: "(string, string) fmap"
  vs_receipts :: "(string \<times> string, receipt) fmap"

definition empty_vault :: vault_state where
  "empty_vault = \<lparr>vs_metadata = None, vs_metadata_fps = fmempty, vs_objects = fmempty, vs_object_fps = fmempty,
     vs_patches = [], vs_patches_by_revision = fmempty, vs_snapshot = None, vs_snapshot_fps = fmempty,
     vs_receipts = fmempty\<rparr>"

record cursor_record =
  cu_account :: string
  cu_vault :: string
  cu_start :: nat
  cu_end :: nat
  cu_page_size :: int
  cu_expires_at :: rat
  cu_next :: "string option"

record capacity_delta =
  cd_vaults :: int
  cd_objects :: int
  cd_patches :: int
  cd_revisions :: int
  cd_bytes :: int

type_synonym vault_key = "string \<times> string"
type_synonym receipt_key = "string \<times> string"

record opaque_store =
  os_vaults :: "(vault_key, vault_state) fmap"
  os_vaults_per_account :: "(string, int) fmap"
  os_objects_per_account :: "(string, int) fmap"
  os_patches_per_account :: "(string, int) fmap"
  os_revisions_per_account :: "(string, int) fmap"
  os_retained_bytes :: int
  os_bytes_per_account :: "(string, int) fmap"
  os_cursors :: "(string, cursor_record) fmap"
  os_cursor_expiries :: "string expiries"
  os_cursor_serial :: nat
  os_receipt_expiries :: "(vault_key \<times> receipt_key) expiries"
  os_receipt_serial :: nat
  os_last_clock :: "rat option"

definition initial_store :: opaque_store where
  "initial_store = \<lparr>os_vaults = fmempty, os_vaults_per_account = fmempty, os_objects_per_account = fmempty,
     os_patches_per_account = fmempty, os_revisions_per_account = fmempty, os_retained_bytes = 0,
     os_bytes_per_account = fmempty, os_cursors = fmempty, os_cursor_expiries = [], os_cursor_serial = 0,
     os_receipt_expiries = [], os_receipt_serial = 0, os_last_clock = None\<rparr>"

text \<open>\<open>d.get(key, 0)\<close>\<close>

definition get0 :: "('k, int) fmap \<Rightarrow> 'k \<Rightarrow> int" where
  "get0 m k = (case fmlookup m k of None \<Rightarrow> 0 | Some n \<Rightarrow> n)"

type_synonym 'a outcome = "storage_error + 'a"

section \<open>Checks\<close>

definition header_safe :: "string \<Rightarrow> bool" where
  "header_safe s \<longleftrightarrow> list_all (\<lambda>c. 33 \<le> byte_val c \<and> byte_val c \<le> 126) s"

definition require_write_tokens :: "string \<Rightarrow> string \<Rightarrow> bool" where
  "require_write_tokens expected idempotency_key \<longleftrightarrow>
     \<not> (expected = [] \<or> length expected > REVISION_MAX_LENGTH \<or> expected \<noteq> ''*'' \<and> \<not> match_revision expected
       \<or> idempotency_key = [] \<or> length idempotency_key > IDEMPOTENCY_KEY_MAX_LENGTH \<or> \<not> header_safe idempotency_key)"

definition prepare_write :: "(storage_envelope \<Rightarrow> string) \<Rightarrow> storage_envelope \<Rightarrow> string \<Rightarrow> string \<Rightarrow> prepared_write outcome" where
  "prepare_write encode env expected idempotency_key =
     (if \<not> require_write_tokens expected idempotency_key then Inl InvalidRequest
      else Inr \<lparr>pw_attempt = \<lparr>expected_revision = expected, envelope_fingerprint = sha256 (encode env)\<rparr>,
        pw_bytes = length (encode env)\<rparr>)"

definition same_revision :: "storage_envelope option \<Rightarrow> storage_envelope \<Rightarrow> storage_envelope option outcome" where
  "same_revision current incoming = (case current of
     None \<Rightarrow> Inr None
   | Some c \<Rightarrow> (if se_revision c \<noteq> se_revision incoming then Inr None
       else if c \<noteq> incoming then Inl Conflict else Inr (Some c)))"

definition require_cas :: "string option \<Rightarrow> string \<Rightarrow> bool" where
  "require_cas current_revision expected = (case current_revision of
     None \<Rightarrow> expected = ''*'' | Some r \<Rightarrow> expected = r)"

definition require_parent_cas :: "envelope option \<Rightarrow> envelope \<Rightarrow> string \<Rightarrow> bool" where
  "require_parent_cas current incoming expected \<longleftrightarrow>
     require_cas (map_option revision current) expected \<and> parent_revision incoming = map_option revision current"

definition require_metadata :: "storage_envelope \<Rightarrow> metadata_envelope outcome" where
  "require_metadata v = (case v of MetadataModel m \<Rightarrow> Inr m | _ \<Rightarrow> Inl TypeMismatch)"

definition require_opaque :: "storage_envelope \<Rightarrow> envelope outcome" where
  "require_opaque v = (case v of OpaqueModel e \<Rightarrow> Inr e | _ \<Rightarrow> Inl TypeMismatch)"

section \<open>Clock, receipts and capacity\<close>

definition IDEMPOTENCY_RECEIPT_LIFETIME_SECONDS :: rat where
  "IDEMPOTENCY_RECEIPT_LIFETIME_SECONDS = 600"

definition MAX_RECEIPT_PRUNE_PER_WRITE :: nat where
  "MAX_RECEIPT_PRUNE_PER_WRITE = 64"

definition clock_now :: "reading \<Rightarrow> opaque_store \<Rightarrow> (rat \<times> opaque_store) option" where
  "clock_now r st = (case observe (os_last_clock st) r of
     None \<Rightarrow> None | Some now \<Rightarrow> Some (now, st\<lparr>os_last_clock := Some now\<rparr>))"

definition vault_of :: "opaque_store \<Rightarrow> vault_key \<Rightarrow> vault_state" where
  "vault_of st v = (case fmlookup (os_vaults st) v of None \<Rightarrow> empty_vault | Some s \<Rightarrow> s)"

definition drop_receipt :: "rat \<Rightarrow> vault_key \<times> receipt_key \<Rightarrow> (vault_key, vault_state) fmap \<Rightarrow> (vault_key, vault_state) fmap" where
  "drop_receipt now k vaults = (case k of (v, rk) \<Rightarrow>
     (case fmlookup vaults v of None \<Rightarrow> vaults
      | Some s \<Rightarrow> (case fmlookup (vs_receipts s) rk of None \<Rightarrow> vaults
          | Some receipt \<Rightarrow> (if rc_expires_at receipt \<le> now
              then fmupd v (s\<lparr>vs_receipts := fmdrop rk (vs_receipts s)\<rparr>) vaults else vaults))))"

definition prune_expired_receipts :: "rat \<Rightarrow> opaque_store \<Rightarrow> opaque_store" where
  "prune_expired_receipts now st =
     (case prune MAX_RECEIPT_PRUNE_PER_WRITE now (drop_receipt now) (os_receipt_expiries st) (os_vaults st) of
        (_, expiries, vaults) \<Rightarrow> st\<lparr>os_receipt_expiries := expiries, os_vaults := vaults\<rparr>)"

text \<open>\<open>_replay\<close>: the stored response, if there is one; an expired receipt is dropped from the state.\<close>

definition replay_receipt :: "vault_state \<Rightarrow> receipt_key \<Rightarrow> write_attempt \<Rightarrow> rat \<Rightarrow> storage_envelope option outcome \<times> vault_state" where
  "replay_receipt s rk attempt now = (case fmlookup (vs_receipts s) rk of
     None \<Rightarrow> (Inr None, s)
   | Some receipt \<Rightarrow>
       (if rc_expires_at receipt \<le> now then (Inr None, s\<lparr>vs_receipts := fmdrop rk (vs_receipts s)\<rparr>)
        else if rc_attempt receipt \<noteq> attempt then (Inl Conflict, s)
        else (Inr (Some (rc_response receipt)), s)))"

text \<open>A vault's state is shared with the store once the vault is retained.\<close>

definition share :: "vault_key \<Rightarrow> vault_state \<Rightarrow> opaque_store \<Rightarrow> opaque_store" where
  "share v s st = (if v |\<in>| fmdom (os_vaults st) then st\<lparr>os_vaults := fmupd v s (os_vaults st)\<rparr> else st)"

definition record_receipt :: "vault_key \<Rightarrow> receipt_key \<Rightarrow> write_attempt \<Rightarrow> storage_envelope \<Rightarrow> rat
    \<Rightarrow> vault_state \<times> opaque_store \<Rightarrow> vault_state \<times> opaque_store" where
  "record_receipt v rk attempt response now p = (case p of (s, st) \<Rightarrow>
     (let expires_at = now + IDEMPOTENCY_RECEIPT_LIFETIME_SECONDS;
          s' = s\<lparr>vs_receipts := fmupd rk
            \<lparr>rc_attempt = attempt, rc_response = response, rc_expires_at = expires_at\<rparr> (vs_receipts s)\<rparr>;
          serial = os_receipt_serial st + 1
      in (s', share v s' (st\<lparr>os_receipt_serial := serial,
            os_receipt_expiries := heap_push ((expires_at, serial), (v, rk)) (os_receipt_expiries st)\<rparr>))))"

definition capacity_delta_of :: "vault_key \<Rightarrow> nat \<Rightarrow> int \<Rightarrow> int \<Rightarrow> opaque_store \<Rightarrow> capacity_delta" where
  "capacity_delta_of v envelope_bytes objects patches st =
     \<lparr>cd_vaults = (if v |\<notin>| fmdom (os_vaults st) then 1 else 0), cd_objects = objects, cd_patches = patches,
       cd_revisions = 1, cd_bytes = int envelope_bytes\<rparr>"

definition has_capacity :: "limits \<Rightarrow> string \<Rightarrow> capacity_delta \<Rightarrow> opaque_store \<Rightarrow> bool" where
  "has_capacity limits_in account d st \<longleftrightarrow>
     \<not> (int (fcard (fmdom (os_vaults st))) + cd_vaults d > max_retained_vaults limits_in
       \<or> get0 (os_vaults_per_account st) account + cd_vaults d > max_retained_vaults_per_account limits_in
       \<or> get0 (os_objects_per_account st) account + cd_objects d > max_retained_objects_per_account limits_in
       \<or> get0 (os_patches_per_account st) account + cd_patches d > max_retained_patches_per_account limits_in
       \<or> get0 (os_revisions_per_account st) account + cd_revisions d > max_retained_revisions_per_account limits_in
       \<or> os_retained_bytes st + cd_bytes d > max_retained_bytes limits_in - reserved_retained_bytes limits_in
       \<or> get0 (os_bytes_per_account st) account + cd_bytes d > max_retained_bytes_per_account limits_in)"

definition add_to :: "string \<Rightarrow> int \<Rightarrow> (string, int) fmap \<Rightarrow> (string, int) fmap" where
  "add_to account n m = fmupd account (get0 m account + n) m"

definition retain_state :: "vault_key \<Rightarrow> vault_state \<Rightarrow> capacity_delta \<Rightarrow> opaque_store \<Rightarrow> opaque_store" where
  "retain_state v s d st = (let account = fst v in st\<lparr>
     os_vaults := fmupd v s (os_vaults st),
     os_vaults_per_account := (if cd_vaults d \<noteq> 0 then add_to account (cd_vaults d) (os_vaults_per_account st)
       else os_vaults_per_account st),
     os_objects_per_account := (if cd_objects d \<noteq> 0 then add_to account (cd_objects d) (os_objects_per_account st)
       else os_objects_per_account st),
     os_patches_per_account := (if cd_patches d \<noteq> 0 then add_to account (cd_patches d) (os_patches_per_account st)
       else os_patches_per_account st),
     os_revisions_per_account := add_to account (cd_revisions d) (os_revisions_per_account st),
     os_retained_bytes := os_retained_bytes st + cd_bytes d,
     os_bytes_per_account := add_to account (cd_bytes d) (os_bytes_per_account st)\<rparr>)"

section \<open>Writes\<close>

definition put_metadata :: "(storage_envelope \<Rightarrow> string) \<Rightarrow> limits \<Rightarrow> string \<Rightarrow> string \<Rightarrow> metadata_envelope
    \<Rightarrow> string \<Rightarrow> string \<Rightarrow> reading \<Rightarrow> opaque_store \<Rightarrow> metadata_envelope outcome \<times> opaque_store" where
  "put_metadata encode limits_in account vault env expected idempotency_key r st =
     (if me_vault_id env \<noteq> vault then (Inl InvalidRequest, st) else
      case prepare_write encode (MetadataModel env) expected idempotency_key of
        Inl e \<Rightarrow> (Inl e, st)
      | Inr prepared \<Rightarrow> (case clock_now r st of
          None \<Rightarrow> (Inl InvalidRequest, st)
        | Some (now, st0) \<Rightarrow>
            (let st1 = prune_expired_receipts now st0;
                 v = (account, vault);
                 rk = (''metadata'', idempotency_key);
                 (replayed, s) = replay_receipt (vault_of st1 v) rk (pw_attempt prepared) now;
                 st2 = share v s st1
             in case replayed of
                  Inl e \<Rightarrow> (Inl e, st2)
                | Inr (Some response) \<Rightarrow> (require_metadata response, st2)
                | Inr None \<Rightarrow>
                   (case same_revision (map_option MetadataModel (vs_metadata s)) (MetadataModel env) of
                      Inl e \<Rightarrow> (Inl e, st2)
                    | Inr (Some duplicate) \<Rightarrow> (require_metadata duplicate,
                        snd (record_receipt v rk (pw_attempt prepared) duplicate now (s, st2)))
                    | Inr None \<Rightarrow>
                        (if me_revision env |\<in>| fmdom (vs_metadata_fps s) then (Inl Conflict, st2)
                         else if \<not> require_cas (map_option me_revision (vs_metadata s)) expected then (Inl Conflict, st2)
                         else (let d = capacity_delta_of v (pw_bytes prepared) 0 0 st2 in
                           if \<not> has_capacity limits_in account d st2 then (Inl CapacityExceeded, st2)
                           else (let s1 = s\<lparr>vs_metadata := Some env, vs_metadata_fps := fmupd (me_revision env)
                                       (envelope_fingerprint (pw_attempt prepared)) (vs_metadata_fps s)\<rparr>;
                                     (s2, st3) = record_receipt v rk (pw_attempt prepared) (MetadataModel env) now (s1, share v s1 st2)
                                 in (Inr env, retain_state v s2 d st3))))))))"

text \<open>\<open>d.get(object_id, {})\<close>, and \<open>state.patches[-1] if state.patches else None\<close>\<close>

definition object_history :: "vault_state \<Rightarrow> string \<Rightarrow> (string, string) fmap" where
  "object_history s oid = (case fmlookup (vs_object_fps s) oid of None \<Rightarrow> fmempty | Some m \<Rightarrow> m)"

definition last_patch :: "vault_state \<Rightarrow> envelope option" where
  "last_patch s = (if vs_patches s \<noteq> [] then Some (last (vs_patches s)) else None)"

definition put_object :: "(storage_envelope \<Rightarrow> string) \<Rightarrow> limits \<Rightarrow> string \<Rightarrow> string \<Rightarrow> string \<Rightarrow> envelope
    \<Rightarrow> string \<Rightarrow> string \<Rightarrow> reading \<Rightarrow> opaque_store \<Rightarrow> envelope outcome \<times> opaque_store" where
  "put_object encode limits_in account vault oid env expected idempotency_key r st =
     (if object_id env \<noteq> oid then (Inl InvalidRequest, st) else
      case prepare_write encode (OpaqueModel env) expected idempotency_key of
        Inl e \<Rightarrow> (Inl e, st)
      | Inr prepared \<Rightarrow> (case clock_now r st of
          None \<Rightarrow> (Inl InvalidRequest, st)
        | Some (now, st0) \<Rightarrow>
            (let st1 = prune_expired_receipts now st0;
                 v = (account, vault);
                 rk = (''object:'' @ oid, idempotency_key);
                 (replayed, s) = replay_receipt (vault_of st1 v) rk (pw_attempt prepared) now;
                 st2 = share v s st1
             in case replayed of
                  Inl e \<Rightarrow> (Inl e, st2)
                | Inr (Some response) \<Rightarrow> (require_opaque response, st2)
                | Inr None \<Rightarrow>
                   (case same_revision (map_option OpaqueModel (fmlookup (vs_objects s) oid)) (OpaqueModel env) of
                      Inl e \<Rightarrow> (Inl e, st2)
                    | Inr (Some duplicate) \<Rightarrow> (require_opaque duplicate,
                        snd (record_receipt v rk (pw_attempt prepared) duplicate now (s, st2)))
                    | Inr None \<Rightarrow>
                        (if revision env |\<in>| fmdom (object_history s oid) then (Inl Conflict, st2)
                         else if \<not> require_parent_cas (fmlookup (vs_objects s) oid) env expected then (Inl Conflict, st2)
                         else (let d = capacity_delta_of v (pw_bytes prepared)
                                 (if fmlookup (vs_objects s) oid = None then 1 else 0) 0 st2 in
                           if \<not> has_capacity limits_in account d st2 then (Inl CapacityExceeded, st2)
                           else (let s1 = s\<lparr>vs_objects := fmupd oid env (vs_objects s),
                                       vs_object_fps := fmupd oid (fmupd (revision env)
                                         (envelope_fingerprint (pw_attempt prepared)) (object_history s oid)) (vs_object_fps s)\<rparr>;
                                     (s2, st3) = record_receipt v rk (pw_attempt prepared) (OpaqueModel env) now (s1, share v s1 st2)
                                 in (Inr env, retain_state v s2 d st3))))))))"

definition append_patch :: "(storage_envelope \<Rightarrow> string) \<Rightarrow> limits \<Rightarrow> string \<Rightarrow> string \<Rightarrow> envelope
    \<Rightarrow> string \<Rightarrow> string \<Rightarrow> reading \<Rightarrow> opaque_store \<Rightarrow> envelope outcome \<times> opaque_store" where
  "append_patch encode limits_in account vault env expected idempotency_key r st =
     (case prepare_write encode (OpaqueModel env) expected idempotency_key of
        Inl e \<Rightarrow> (Inl e, st)
      | Inr prepared \<Rightarrow> (case clock_now r st of
          None \<Rightarrow> (Inl InvalidRequest, st)
        | Some (now, st0) \<Rightarrow>
            (let st1 = prune_expired_receipts now st0;
                 v = (account, vault);
                 rk = (''patches'', idempotency_key);
                 (replayed, s) = replay_receipt (vault_of st1 v) rk (pw_attempt prepared) now;
                 st2 = share v s st1
             in case replayed of
                  Inl e \<Rightarrow> (Inl e, st2)
                | Inr (Some response) \<Rightarrow> (require_opaque response, st2)
                | Inr None \<Rightarrow>
                   (case same_revision (map_option OpaqueModel (fmlookup (vs_patches_by_revision s) (revision env))) (OpaqueModel env) of
                      Inl e \<Rightarrow> (Inl e, st2)
                    | Inr (Some duplicate) \<Rightarrow> (require_opaque duplicate,
                        snd (record_receipt v rk (pw_attempt prepared) duplicate now (s, st2)))
                    | Inr None \<Rightarrow>
                        (if \<not> require_parent_cas (last_patch s) env expected then (Inl Conflict, st2)
                         else (let d = capacity_delta_of v (pw_bytes prepared) 0 1 st2 in
                           if \<not> has_capacity limits_in account d st2 then (Inl CapacityExceeded, st2)
                           else (let s1 = s\<lparr>vs_patches := vs_patches s @ [env],
                                       vs_patches_by_revision := fmupd (revision env) env (vs_patches_by_revision s)\<rparr>;
                                     (s2, st3) = record_receipt v rk (pw_attempt prepared) (OpaqueModel env) now (s1, share v s1 st2)
                                 in (Inr env, retain_state v s2 d st3))))))))"

definition put_snapshot :: "(storage_envelope \<Rightarrow> string) \<Rightarrow> limits \<Rightarrow> string \<Rightarrow> string \<Rightarrow> envelope
    \<Rightarrow> string \<Rightarrow> string \<Rightarrow> reading \<Rightarrow> opaque_store \<Rightarrow> envelope outcome \<times> opaque_store" where
  "put_snapshot encode limits_in account vault env expected idempotency_key r st =
     (case prepare_write encode (OpaqueModel env) expected idempotency_key of
        Inl e \<Rightarrow> (Inl e, st)
      | Inr prepared \<Rightarrow> (case clock_now r st of
          None \<Rightarrow> (Inl InvalidRequest, st)
        | Some (now, st0) \<Rightarrow>
            (let st1 = prune_expired_receipts now st0;
                 v = (account, vault);
                 rk = (''snapshot'', idempotency_key);
                 (replayed, s) = replay_receipt (vault_of st1 v) rk (pw_attempt prepared) now;
                 st2 = share v s st1
             in case replayed of
                  Inl e \<Rightarrow> (Inl e, st2)
                | Inr (Some response) \<Rightarrow> (require_opaque response, st2)
                | Inr None \<Rightarrow>
                   (case same_revision (map_option OpaqueModel (vs_snapshot s)) (OpaqueModel env) of
                      Inl e \<Rightarrow> (Inl e, st2)
                    | Inr (Some duplicate) \<Rightarrow> (require_opaque duplicate,
                        snd (record_receipt v rk (pw_attempt prepared) duplicate now (s, st2)))
                    | Inr None \<Rightarrow>
                        (if revision env |\<in>| fmdom (vs_snapshot_fps s) then (Inl Conflict, st2)
                         else if \<not> require_parent_cas (vs_snapshot s) env expected then (Inl Conflict, st2)
                         else (let d = capacity_delta_of v (pw_bytes prepared) 0 0 st2 in
                           if \<not> has_capacity limits_in account d st2 then (Inl CapacityExceeded, st2)
                           else (let s1 = s\<lparr>vs_snapshot := Some env, vs_snapshot_fps := fmupd (revision env)
                                       (envelope_fingerprint (pw_attempt prepared)) (vs_snapshot_fps s)\<rparr>;
                                     (s2, st3) = record_receipt v rk (pw_attempt prepared) (OpaqueModel env) now (s1, share v s1 st2)
                                 in (Inr env, retain_state v s2 d st3))))))))"

section \<open>Reads\<close>

definition get_metadata :: "string \<Rightarrow> string \<Rightarrow> opaque_store \<Rightarrow> metadata_envelope outcome" where
  "get_metadata account vault st = (case fmlookup (os_vaults st) (account, vault) of
     None \<Rightarrow> Inl NotFound | Some s \<Rightarrow> (case vs_metadata s of None \<Rightarrow> Inl NotFound | Some m \<Rightarrow> Inr m))"

definition get_object :: "string \<Rightarrow> string \<Rightarrow> string \<Rightarrow> opaque_store \<Rightarrow> envelope outcome" where
  "get_object account vault oid st = (case fmlookup (os_vaults st) (account, vault) of
     None \<Rightarrow> Inl NotFound | Some s \<Rightarrow> (case fmlookup (vs_objects s) oid of None \<Rightarrow> Inl NotFound | Some e \<Rightarrow> Inr e))"

definition get_snapshot :: "string \<Rightarrow> string \<Rightarrow> opaque_store \<Rightarrow> envelope outcome" where
  "get_snapshot account vault st = (case fmlookup (os_vaults st) (account, vault) of
     None \<Rightarrow> Inl NotFound | Some s \<Rightarrow> (case vs_snapshot s of None \<Rightarrow> Inl NotFound | Some e \<Rightarrow> Inr e))"

section \<open>Pages\<close>

definition DEFAULT_PAGE_SIZE :: int where
  "DEFAULT_PAGE_SIZE = 100"

definition MAX_PAGE_SIZE :: int where
  "MAX_PAGE_SIZE = 100"

definition CURSOR_PREFIX :: string where
  "CURSOR_PREFIX = ''avcur1-''"

definition CURSOR_LIFETIME_SECONDS :: rat where
  "CURSOR_LIFETIME_SECONDS = 300"

definition MAX_CURSOR_PRUNE_PER_LIST :: nat where
  "MAX_CURSOR_PRUNE_PER_LIST = 64"

definition drop_cursor :: "rat \<Rightarrow> string \<Rightarrow> (string, cursor_record) fmap \<Rightarrow> (string, cursor_record) fmap" where
  "drop_cursor now token cursors = (case fmlookup cursors token of
     None \<Rightarrow> cursors | Some c \<Rightarrow> (if cu_expires_at c \<le> now then fmdrop token cursors else cursors))"

definition prune_expired_cursors :: "rat \<Rightarrow> opaque_store \<Rightarrow> opaque_store" where
  "prune_expired_cursors now st =
     (case prune MAX_CURSOR_PRUNE_PER_LIST now (drop_cursor now) (os_cursor_expiries st) (os_cursors st) of
        (_, expiries, cursors) \<Rightarrow> st\<lparr>os_cursor_expiries := expiries, os_cursors := cursors\<rparr>)"

text \<open>The attempts of \<open>_new_cursor\<close>, on the results of the entropy source that are left.\<close>

fun fresh_token :: "string list \<Rightarrow> (string, cursor_record) fmap \<Rightarrow> string outcome" where
  "fresh_token [] cursors = Inl EntropyFailure"
| "fresh_token (b # bs) cursors =
     (if length b \<noteq> 16 then Inl EntropyFailure
      else (let token = CURSOR_PREFIX @ hex_of b in
        if token |\<notin>| fmdom cursors then Inr token else fresh_token bs cursors))"

definition new_cursor :: "(nat \<Rightarrow> string) \<Rightarrow> vault_key \<Rightarrow> nat \<Rightarrow> nat \<Rightarrow> int \<Rightarrow> rat \<Rightarrow> opaque_store \<Rightarrow> string outcome \<times> opaque_store" where
  "new_cursor entropy v start_at end_at page_size now st =
     (case fresh_token (map entropy [0..<8]) (os_cursors st) of
        Inl e \<Rightarrow> (Inl e, st)
      | Inr token \<Rightarrow>
          (let expires_at = now + CURSOR_LIFETIME_SECONDS; serial = os_cursor_serial st + 1 in
           (Inr token, st\<lparr>os_cursors := fmupd token \<lparr>cu_account = fst v, cu_vault = snd v, cu_start = start_at,
                cu_end = end_at, cu_page_size = page_size, cu_expires_at = expires_at, cu_next = None\<rparr> (os_cursors st),
              os_cursor_serial := serial,
              os_cursor_expiries := heap_push ((expires_at, serial), token) (os_cursor_expiries st)\<rparr>)))"

type_synonym page = "envelope list \<times> string option"

definition page_of :: "(nat \<Rightarrow> string) \<Rightarrow> vault_key \<Rightarrow> envelope list \<Rightarrow> nat \<Rightarrow> nat \<Rightarrow> int \<Rightarrow> (string \<times> cursor_record) option
    \<Rightarrow> rat \<Rightarrow> opaque_store \<Rightarrow> page outcome \<times> opaque_store" where
  "page_of entropy v patches start_at end_at page_size record_in now st =
     (if \<not> (1 \<le> page_size \<and> page_size \<le> MAX_PAGE_SIZE) \<or> \<not> (start_at \<le> end_at \<and> end_at \<le> length patches)
      then (Inl InvalidRequest, st)
      else (let stop = min (start_at + nat page_size) end_at;
                objects = take (stop - start_at) (drop start_at patches)
            in if stop < end_at then
                 (case record_in of
                    Some (token, c) \<Rightarrow>
                      (case cu_next c of
                         Some next_token \<Rightarrow> (Inr (objects, Some next_token), st)
                       | None \<Rightarrow> (case new_cursor entropy v stop end_at page_size now st of
                           (Inl e, st1) \<Rightarrow> (Inl e, st1)
                         | (Inr next_token, st1) \<Rightarrow> (Inr (objects, Some next_token),
                             st1\<lparr>os_cursors := fmupd token (c\<lparr>cu_next := Some next_token\<rparr>) (os_cursors st1)\<rparr>)))
                  | None \<Rightarrow> (case new_cursor entropy v stop end_at page_size now st of
                       (Inl e, st1) \<Rightarrow> (Inl e, st1)
                     | (Inr next_token, st1) \<Rightarrow> (Inr (objects, Some next_token), st1)))
               else (Inr (objects, None), st)))"

definition list_patches :: "(nat \<Rightarrow> string) \<Rightarrow> string \<Rightarrow> string \<Rightarrow> string option \<Rightarrow> int option \<Rightarrow> reading \<Rightarrow> opaque_store
    \<Rightarrow> page outcome \<times> opaque_store" where
  "list_patches entropy account vault cursor_in page_size r st =
     (case clock_now r st of
        None \<Rightarrow> (Inl InvalidRequest, st)
      | Some (now, st0) \<Rightarrow>
          (let st1 = prune_expired_cursors now st0;
               v = (account, vault);
               patches = (case fmlookup (os_vaults st1) v of None \<Rightarrow> [] | Some s \<Rightarrow> vs_patches s)
           in case cursor_in of
                None \<Rightarrow> page_of entropy v patches 0 (length patches)
                  (case page_size of None \<Rightarrow> DEFAULT_PAGE_SIZE | Some n \<Rightarrow> if n = 0 then DEFAULT_PAGE_SIZE else n) None now st1
              | Some token \<Rightarrow> (case fmlookup (os_cursors st1) token of
                  None \<Rightarrow> (Inl InvalidRequest, st1)
                | Some c \<Rightarrow>
                    (if cu_expires_at c \<le> now \<or> cu_account c \<noteq> account \<or> cu_vault c \<noteq> vault
                        \<or> (\<exists>n \<in> set_option page_size. n \<noteq> cu_page_size c)
                     then (Inl InvalidRequest,
                       if cu_expires_at c \<le> now then st1\<lparr>os_cursors := fmdrop token (os_cursors st1)\<rparr> else st1)
                     else page_of entropy v patches (cu_start c) (cu_end c) (cu_page_size c) (Some (token, c)) now st1))))"

end
