(* ===== verification/StoreWrites.thy ===== *)
theory StoreWrites
  imports Storage History
begin

text \<open>
  The four writes of the store share one course; here it is written once, over what is written,
  and each write is an instance.  What a write leaves of the contents of the vaults is either all
  of them, or all of them but for one revision that was admitted.
\<close>

section \<open>One course for four writes\<close>

datatype target = ToMetadata metadata_envelope | ToObject string envelope | ToPatches envelope | ToSnapshot envelope

fun target_envelope :: "target \<Rightarrow> storage_envelope" where
  "target_envelope (ToMetadata m) = MetadataModel m"
| "target_envelope (ToObject oid e) = OpaqueModel e"
| "target_envelope (ToPatches e) = OpaqueModel e"
| "target_envelope (ToSnapshot e) = OpaqueModel e"

fun target_scope :: "target \<Rightarrow> string" where
  "target_scope (ToMetadata m) = ''metadata''"
| "target_scope (ToObject oid e) = ''object:'' @ oid"
| "target_scope (ToPatches e) = ''patches''"
| "target_scope (ToSnapshot e) = ''snapshot''"

fun target_fits :: "string \<Rightarrow> target \<Rightarrow> bool" where
  "target_fits vault (ToMetadata m) \<longleftrightarrow> me_vault_id m = vault"
| "target_fits vault (ToObject oid e) \<longleftrightarrow> object_id e = oid"
| "target_fits vault _ = True"

text \<open>The stored envelope a new one is compared with.\<close>

fun target_current :: "target \<Rightarrow> vault_state \<Rightarrow> storage_envelope option" where
  "target_current (ToMetadata m) s = map_option MetadataModel (vs_metadata s)"
| "target_current (ToObject oid e) s = map_option OpaqueModel (fmlookup (vs_objects s) oid)"
| "target_current (ToPatches e) s = map_option OpaqueModel (fmlookup (vs_patches_by_revision s) (revision e))"
| "target_current (ToSnapshot e) s = map_option OpaqueModel (vs_snapshot s)"

fun target_admitted :: "target \<Rightarrow> string \<Rightarrow> vault_state \<Rightarrow> bool" where
  "target_admitted (ToMetadata m) expected s \<longleftrightarrow> me_revision m |\<notin>| fmdom (vs_metadata_fps s)
     \<and> require_cas (map_option me_revision (vs_metadata s)) expected"
| "target_admitted (ToObject oid e) expected s \<longleftrightarrow> revision e |\<notin>| fmdom (object_history s oid)
     \<and> require_parent_cas (fmlookup (vs_objects s) oid) e expected"
| "target_admitted (ToPatches e) expected s \<longleftrightarrow> require_parent_cas (last_patch s) e expected"
| "target_admitted (ToSnapshot e) expected s \<longleftrightarrow> revision e |\<notin>| fmdom (vs_snapshot_fps s)
     \<and> require_parent_cas (vs_snapshot s) e expected"

fun target_objects :: "target \<Rightarrow> vault_state \<Rightarrow> int" where
  "target_objects (ToObject oid e) s = (if fmlookup (vs_objects s) oid = None then 1 else 0)"
| "target_objects _ s = 0"

fun target_patches :: "target \<Rightarrow> int" where
  "target_patches (ToPatches e) = 1"
| "target_patches _ = 0"

fun target_update :: "target \<Rightarrow> string \<Rightarrow> vault_state \<Rightarrow> vault_state" where
  "target_update (ToMetadata m) fp s = s\<lparr>vs_metadata := Some m, vs_metadata_fps := fmupd (me_revision m) fp (vs_metadata_fps s)\<rparr>"
| "target_update (ToObject oid e) fp s = s\<lparr>vs_objects := fmupd oid e (vs_objects s),
     vs_object_fps := fmupd oid (fmupd (revision e) fp (object_history s oid)) (vs_object_fps s)\<rparr>"
| "target_update (ToPatches e) fp s = s\<lparr>vs_patches := vs_patches s @ [e],
     vs_patches_by_revision := fmupd (revision e) e (vs_patches_by_revision s)\<rparr>"
| "target_update (ToSnapshot e) fp s = s\<lparr>vs_snapshot := Some e, vs_snapshot_fps := fmupd (revision e) fp (vs_snapshot_fps s)\<rparr>"

definition store_put :: "(storage_envelope \<Rightarrow> string) \<Rightarrow> limits \<Rightarrow> string \<Rightarrow> string \<Rightarrow> target \<Rightarrow> string \<Rightarrow> string
    \<Rightarrow> reading \<Rightarrow> opaque_store \<Rightarrow> storage_envelope outcome \<times> opaque_store" where
  "store_put encode limits_in account vault w expected idempotency_key r st =
     (if \<not> target_fits vault w then (Inl InvalidRequest, st) else
      case prepare_write encode (target_envelope w) expected idempotency_key of
        Inl e \<Rightarrow> (Inl e, st)
      | Inr prepared \<Rightarrow> (case clock_now r st of
          None \<Rightarrow> (Inl InvalidRequest, st)
        | Some (now, st0) \<Rightarrow>
            (let st1 = prune_expired_receipts now st0;
                 v = (account, vault);
                 rk = (target_scope w, idempotency_key);
                 (replayed, s) = replay_receipt (vault_of st1 v) rk (pw_attempt prepared) now;
                 st2 = share v s st1
             in case replayed of
                  Inl e \<Rightarrow> (Inl e, st2)
                | Inr (Some response) \<Rightarrow> (Inr response, st2)
                | Inr None \<Rightarrow>
                   (case same_revision (target_current w s) (target_envelope w) of
                      Inl e \<Rightarrow> (Inl e, st2)
                    | Inr (Some duplicate) \<Rightarrow> (Inr duplicate,
                        snd (record_receipt v rk (pw_attempt prepared) duplicate now (s, st2)))
                    | Inr None \<Rightarrow>
                        (if \<not> target_admitted w expected s then (Inl Conflict, st2)
                         else (let d = capacity_delta_of v (pw_bytes prepared) (target_objects w s) (target_patches w) st2 in
                           if \<not> has_capacity limits_in account d st2 then (Inl CapacityExceeded, st2)
                           else (let s1 = target_update w (envelope_fingerprint (pw_attempt prepared)) s;
                                     (s2, st3) = record_receipt v rk (pw_attempt prepared) (target_envelope w) now (s1, share v s1 st2)
                                 in (Inr (target_envelope w), retain_state v s2 d st3))))))))"

definition answer :: "(storage_envelope \<Rightarrow> 'a outcome) \<Rightarrow> storage_envelope outcome \<times> opaque_store \<Rightarrow> 'a outcome \<times> opaque_store" where
  "answer f p = (case fst p of Inl e \<Rightarrow> (Inl e, snd p) | Inr v \<Rightarrow> (f v, snd p))"

lemma answer_simps:
  "answer f (Inl e, st) = (Inl e, st)"
  "answer f (Inr v, st) = (f v, st)"
  "answer f (Let x g) = Let x (\<lambda>y. answer f (g y))"
  "answer f (if b then p else q) = (if b then answer f p else answer f q)"
  "answer f (case opt of None \<Rightarrow> p | Some y \<Rightarrow> h y) = (case opt of None \<Rightarrow> answer f p | Some y \<Rightarrow> answer f (h y))"
  "answer f (case s of Inl e \<Rightarrow> i e | Inr z \<Rightarrow> j z) = (case s of Inl e \<Rightarrow> answer f (i e) | Inr z \<Rightarrow> answer f (j z))"
  "answer f (case t of (a, b) \<Rightarrow> k a b) = (case t of (a, b) \<Rightarrow> answer f (k a b))"
  by (simp_all add: answer_def Let_def split: option.split sum.split prod.split)

lemmas target_course = store_put_def answer_simps target_fits.simps target_envelope.simps target_scope.simps
  target_current.simps target_admitted.simps target_objects.simps target_patches.simps target_update.simps
  require_metadata_def require_opaque_def storage_envelope.case not_True_eq_False if_False de_Morgan_conj not_not

lemma if_or_same: "(if a \<or> b then p else q) = (if a then p else if b then p else q)"
  by simp

lemma put_metadata_eq:
  "put_metadata encode l account vault m expected k r st
    = answer require_metadata (store_put encode l account vault (ToMetadata m) expected k r st)"
  by (simp only: put_metadata_def target_course if_or_same)

lemma put_object_eq:
  "put_object encode l account vault oid e expected k r st
    = answer require_opaque (store_put encode l account vault (ToObject oid e) expected k r st)"
  by (simp only: put_object_def target_course if_or_same)

lemma append_patch_eq:
  "append_patch encode l account vault e expected k r st
    = answer require_opaque (store_put encode l account vault (ToPatches e) expected k r st)"
  by (simp only: append_patch_def target_course if_or_same)

lemma put_snapshot_eq:
  "put_snapshot encode l account vault e expected k r st
    = answer require_opaque (store_put encode l account vault (ToSnapshot e) expected k r st)"
  by (simp only: put_snapshot_def target_course if_or_same)

section \<open>Contents\<close>

text \<open>A vault without its receipts, and two stores that agree but for receipts and clock.\<close>

definition contents :: "vault_state \<Rightarrow> vault_state" where
  "contents s = s\<lparr>vs_receipts := fmempty\<rparr>"

definition books :: "opaque_store \<Rightarrow> (string, int) fmap \<times> (string, int) fmap \<times> (string, int) fmap \<times> (string, int) fmap
    \<times> int \<times> (string, int) fmap" where
  "books st = (os_vaults_per_account st, os_objects_per_account st, os_patches_per_account st,
     os_revisions_per_account st, os_retained_bytes st, os_bytes_per_account st)"

definition unchanged :: "opaque_store \<Rightarrow> opaque_store \<Rightarrow> bool" where
  "unchanged st st' \<longleftrightarrow> fmdom (os_vaults st') = fmdom (os_vaults st)
     \<and> (\<forall>v. contents (vault_of st' v) = contents (vault_of st v)) \<and> books st' = books st
     \<and> os_cursors st' = os_cursors st \<and> os_cursor_expiries st' = os_cursor_expiries st
     \<and> os_cursor_serial st' = os_cursor_serial st"

lemma unchanged_refl [simp]: "unchanged st st"
  by (simp add: unchanged_def)

lemma unchanged_trans: "unchanged st t \<Longrightarrow> unchanged t u \<Longrightarrow> unchanged st u"
  by (simp add: unchanged_def)

lemma unchanged_contents: "unchanged st t \<Longrightarrow> contents (vault_of t u) = contents (vault_of st u)"
  unfolding unchanged_def by blast

lemma contents_receipts [simp]: "contents (s\<lparr>vs_receipts := m\<rparr>) = contents s"
  by (simp add: contents_def)

lemma contents_iff:
  "contents s = contents t \<longleftrightarrow> vs_metadata s = vs_metadata t \<and> vs_metadata_fps s = vs_metadata_fps t
     \<and> vs_objects s = vs_objects t \<and> vs_object_fps s = vs_object_fps t \<and> vs_patches s = vs_patches t
     \<and> vs_patches_by_revision s = vs_patches_by_revision t \<and> vs_snapshot s = vs_snapshot t
     \<and> vs_snapshot_fps s = vs_snapshot_fps t"
  by (cases s; cases t) (auto simp: contents_def)

lemma clock_unchanged: "clock_now r st = Some (now, st') \<Longrightarrow> unchanged st st'"
  by (auto simp: clock_now_def unchanged_def vault_of_def books_def split: option.splits)

lemma drop_receipt_contents:
  "fmdom (drop_receipt now k m) = fmdom m
   \<and> (\<forall>v. map_option contents (fmlookup (drop_receipt now k m) v) = map_option contents (fmlookup m v))"
  by (cases k) (auto simp: drop_receipt_def fmdomI split: option.split)

lemma prune_receipts_unchanged: "unchanged st (prune_expired_receipts now st)"
proof -
  obtain n h m where p: "prune MAX_RECEIPT_PRUNE_PER_WRITE now (drop_receipt now) (os_receipt_expiries st) (os_vaults st) = (n, h, m)"
    by (rule prod_cases3)
  let ?R = "\<lambda>m m'. fmdom m' = fmdom m \<and> (\<forall>v. map_option contents (fmlookup m' v) = map_option contents (fmlookup m v))"
  have R: "?R (os_vaults st) m"
    by (rule prune_rel [OF p, where R = ?R]) (use drop_receipt_contents in simp_all)
  note d = R [THEN conjunct1] and c = R [THEN conjunct2, THEN spec]
  have "contents (case fmlookup m v of None \<Rightarrow> empty_vault | Some s \<Rightarrow> s)
      = contents (case fmlookup (os_vaults st) v of None \<Rightarrow> empty_vault | Some s \<Rightarrow> s)" for v
    using c [of v] by (cases "fmlookup m v"; cases "fmlookup (os_vaults st) v") simp_all
  then show ?thesis using d
    by (simp add: prune_expired_receipts_def p unchanged_def vault_of_def books_def)
qed

lemma replay_contents: "replay_receipt s rk attempt now = (res, s') \<Longrightarrow> contents s' = contents s"
  by (auto simp: replay_receipt_def split: option.splits if_splits)

lemma vault_of_share: "vault_of (share v s st) u = (if u = v \<and> v |\<in>| fmdom (os_vaults st) then s else vault_of st u)"
  by (simp add: share_def vault_of_def)

lemma share_fields [simp]:
  "fmdom (os_vaults (share v s st)) = fmdom (os_vaults st)" "books (share v s st) = books st"
  "os_cursors (share v s st) = os_cursors st" "os_cursor_expiries (share v s st) = os_cursor_expiries st"
  "os_cursor_serial (share v s st) = os_cursor_serial st" "os_last_clock (share v s st) = os_last_clock st"
  "os_receipt_expiries (share v s st) = os_receipt_expiries st" "os_receipt_serial (share v s st) = os_receipt_serial st"
  by (auto simp: share_def books_def)

lemma vault_of_more [simp]:
  "vault_of (st\<lparr>os_receipt_serial := i\<rparr>) u = vault_of st u" "vault_of (st\<lparr>os_receipt_expiries := h\<rparr>) u = vault_of st u"
  "vault_of (st\<lparr>os_last_clock := t\<rparr>) u = vault_of st u" "vault_of (st\<lparr>os_cursors := cs\<rparr>) u = vault_of st u"
  "vault_of (st\<lparr>os_cursor_expiries := es\<rparr>) u = vault_of st u" "vault_of (st\<lparr>os_cursor_serial := i\<rparr>) u = vault_of st u"
  by (simp_all add: vault_of_def)

lemma record_receipt_effect:
  assumes "record_receipt v rk attempt resp now (s, st) = (s', st')"
  shows "contents s' = contents s" "fmdom (os_vaults st') = fmdom (os_vaults st)" "books st' = books st"
    "u \<noteq> v \<Longrightarrow> vault_of st' u = vault_of st u" "os_cursors st' = os_cursors st"
    "os_cursor_expiries st' = os_cursor_expiries st" "os_cursor_serial st' = os_cursor_serial st"
proof -
  define i where "i = os_receipt_serial st + 1"
  define h where "h = heap_push ((now + IDEMPOTENCY_RECEIPT_LIFETIME_SECONDS, i), (v, rk)) (os_receipt_expiries st)"
  have s': "contents s' = contents s" and st': "st' = share v s' (st\<lparr>os_receipt_serial := i, os_receipt_expiries := h\<rparr>)"
    using assms by (auto simp: record_receipt_def Let_def i_def h_def)
  show "contents s' = contents s" by (rule s')
  show "fmdom (os_vaults st') = fmdom (os_vaults st)" "os_cursors st' = os_cursors st"
    "os_cursor_expiries st' = os_cursor_expiries st" "os_cursor_serial st' = os_cursor_serial st"
    by (simp_all add: st')
  show "books st' = books st" unfolding st' share_fields by (simp add: books_def)
  show "vault_of st' u = vault_of st u" if "u \<noteq> v" using that by (simp add: st' vault_of_share)
qed

lemma share_unchanged: "contents s = contents (vault_of st v) \<Longrightarrow> unchanged st (share v s st)"
  by (auto simp: unchanged_def vault_of_share)

lemma record_receipt_unchanged:
  assumes "contents s = contents (vault_of st v)" "record_receipt v rk attempt resp now (s, st) = (s', st')"
  shows "unchanged st st' \<and> contents s' = contents s"
proof -
  note r = record_receipt_effect [OF assms(2)]
  have "contents (vault_of st' v) = contents (vault_of st v)"
    using assms by (auto simp: record_receipt_def Let_def vault_of_share)
  then have "contents (vault_of st' u) = contents (vault_of st u)" for u
    using r(4) [of u] by (cases "u = v") auto
  then show ?thesis using r unfolding unchanged_def by blast
qed

section \<open>What a write does to the contents\<close>

definition stored :: "opaque_store \<Rightarrow> opaque_store \<Rightarrow> vault_key \<Rightarrow> vault_state \<Rightarrow> capacity_delta \<Rightarrow> bool" where
  "stored st st' v s d \<longleftrightarrow> fmdom (os_vaults st') = finsert v (fmdom (os_vaults st))
     \<and> (\<forall>u. contents (vault_of st' u) = contents (if u = v then s else vault_of st u))
     \<and> books st' = books (retain_state v s d st)
     \<and> os_cursors st' = os_cursors st \<and> os_cursor_expiries st' = os_cursor_expiries st
     \<and> os_cursor_serial st' = os_cursor_serial st"

lemma contents_target:
  assumes "contents s = contents t"
  shows "target_current w s = target_current w t" "target_admitted w expected s = target_admitted w expected t"
    "target_objects w s = target_objects w t" "contents (target_update w fp s) = contents (target_update w fp t)"
  using assms by (cases w; simp add: contents_iff object_history_def last_patch_def)+

lemma books_retain: "books st = books t \<Longrightarrow> books (retain_state v s d st) = books (retain_state v s' d t)"
  by (simp add: books_def retain_state_def Let_def)

lemma capacity_same:
  assumes "fmdom (os_vaults st) = fmdom (os_vaults t)" "books st = books t"
  shows "capacity_delta_of v n i j st = capacity_delta_of v n i j t" "has_capacity l a d st = has_capacity l a d t"
  using assms by (simp_all add: capacity_delta_of_def has_capacity_def books_def)

lemma store_put_effect:
  assumes "store_put encode l account vault w expected k r st = (res, st')"
  shows "unchanged st st' \<or>
    (let s = vault_of st (account, vault);
         d = capacity_delta_of (account, vault) (length (encode (target_envelope w))) (target_objects w s) (target_patches w) st
     in res = Inr (target_envelope w) \<and> target_fits vault w \<and> target_admitted w expected s
        \<and> same_revision (target_current w s) (target_envelope w) = Inr None \<and> has_capacity l account d st
        \<and> stored st st' (account, vault) (target_update w (sha256 (encode (target_envelope w))) s) d)"
proof (cases "target_fits vault w \<and> require_write_tokens expected k \<and> clock_now r st \<noteq> None")
  case False
  then have "st' = st" using assms
    by (cases "clock_now r st") (simp_all add: store_put_def prepare_write_def split: if_splits)
  then show ?thesis by simp
next
  case True
  let ?v = "(account, vault)" and ?rk = "(target_scope w, k)"
  let ?attempt = "\<lparr>expected_revision = expected, envelope_fingerprint = sha256 (encode (target_envelope w))\<rparr>"
  obtain now st0 where c: "clock_now r st = Some (now, st0)" using True by auto
  define st1 where "st1 = prune_expired_receipts now st0"
  obtain replayed s where rp: "replay_receipt (vault_of st1 ?v) ?rk ?attempt now = (replayed, s)" by (rule prod.exhaust)
  define st2 where "st2 = share ?v s st1"
  have u1: "unchanged st st1" unfolding st1_def
    by (rule unchanged_trans [OF clock_unchanged [OF c] prune_receipts_unchanged])
  have s1: "contents s = contents (vault_of st1 ?v)" by (rule replay_contents [OF rp])
  have u2: "unchanged st st2" unfolding st2_def
    by (rule unchanged_trans [OF u1 share_unchanged [OF s1]])
  have s: "contents s = contents (vault_of st ?v)" using s1 u1 by (simp add: unchanged_def)
  have s2: "contents s = contents (vault_of st2 ?v)" using s u2 by (simp add: unchanged_def)
  have dom2: "fmdom (os_vaults st2) = fmdom (os_vaults st)" "books st2 = books st" using u2 by (simp_all add: unchanged_def)
  note e = assms [unfolded store_put_def prepare_write_def]
  show ?thesis
  proof (cases "replayed = Inr None \<and> same_revision (target_current w s) (target_envelope w) = Inr None
      \<and> target_admitted w expected s
      \<and> has_capacity l account (capacity_delta_of ?v (length (encode (target_envelope w))) (target_objects w s) (target_patches w) st2) st2")
    case False
    show ?thesis
    proof (cases "\<exists>dup. replayed = Inr None \<and> same_revision (target_current w s) (target_envelope w) = Inr (Some dup)")
      case True
      then obtain dup where dup: "replayed = Inr None" "same_revision (target_current w s) (target_envelope w) = Inr (Some dup)" by blast
      have "st' = snd (record_receipt ?v ?rk ?attempt dup now (s, st2))"
        using e \<open>target_fits vault w \<and> _\<close> c rp dup by (simp add: st1_def [symmetric] st2_def [symmetric] Let_def)
      then have "unchanged st2 st'"
        using record_receipt_unchanged [OF s2, of ?rk ?attempt dup now] by (metis prod.collapse)
      then show ?thesis using unchanged_trans [OF u2] by blast
    next
      case nodup: False
      have "st' = st2"
        using e \<open>target_fits vault w \<and> _\<close> c rp False nodup
        by (auto simp: st1_def [symmetric] st2_def [symmetric] Let_def split: sum.splits option.splits if_splits)
      then show ?thesis using u2 by simp
    qed
  next
    case ok: True
    define d where "d = capacity_delta_of ?v (length (encode (target_envelope w))) (target_objects w s) (target_patches w) st2"
    define t where "t = target_update w (sha256 (encode (target_envelope w))) s"
    obtain s4 st4 where r4: "record_receipt ?v ?rk ?attempt (target_envelope w) now (t, share ?v t st2) = (s4, st4)"
      by (rule prod.exhaust)
    have st': "res = Inr (target_envelope w)" "st' = retain_state ?v s4 d st4"
      using e \<open>target_fits vault w \<and> _\<close> c rp ok r4
      by (simp_all add: st1_def [symmetric] st2_def [symmetric] t_def [symmetric] d_def [symmetric] Let_def)
    have r: "contents s4 = contents t" "fmdom (os_vaults st4) = fmdom (os_vaults st2)" "books st4 = books st2"
      "\<And>u. u \<noteq> ?v \<Longrightarrow> vault_of st4 u = vault_of st2 u" "os_cursors st4 = os_cursors st2"
      "os_cursor_expiries st4 = os_cursor_expiries st2" "os_cursor_serial st4 = os_cursor_serial st2"
      using record_receipt_effect [OF r4] by (simp_all add: vault_of_share)
    have d: "d = capacity_delta_of ?v (length (encode (target_envelope w))) (target_objects w (vault_of st ?v)) (target_patches w) st"
      unfolding d_def capacity_same(1) [OF dom2] contents_target(3) [OF s] ..
    have "stored st st' ?v (target_update w (sha256 (encode (target_envelope w))) (vault_of st ?v)) d"
      unfolding stored_def
    proof (intro conjI allI)
      show "fmdom (os_vaults st') = finsert ?v (fmdom (os_vaults st))"
        using r(2) dom2 by (simp add: st'(2) retain_state_def Let_def)
      show "books st' = books (retain_state ?v (target_update w (sha256 (encode (target_envelope w))) (vault_of st ?v)) d st)"
        unfolding st'(2) by (rule books_retain) (simp add: r(3) dom2)
      fix u
      show "contents (vault_of st' u) = contents (if u = ?v then target_update w (sha256 (encode (target_envelope w))) (vault_of st ?v) else vault_of st u)"
      proof (cases "u = ?v")
        case True
        then have "contents (vault_of st' u) = contents t"
          using r(1) by (simp add: st'(2) retain_state_def Let_def vault_of_def)
        then show ?thesis using True contents_target(4) [OF s] by (simp add: t_def)
      next
        case False
        then have "vault_of st' u = vault_of st2 u"
          using r(4) [OF False] by (simp add: st'(2) retain_state_def Let_def vault_of_def)
        then show ?thesis using False unchanged_contents [OF u2] by simp
      qed
    qed (use r u2 in \<open>simp_all add: st'(2) retain_state_def Let_def unchanged_def\<close>)
    then show ?thesis
      using ok st'(1) \<open>target_fits vault w \<and> _\<close> d contents_target(1,2) [OF s] capacity_same(2) [OF dom2]
      unfolding Let_def d_def [symmetric] by auto
  qed
qed

end
