(* ===== verification/StoreRuns.thy ===== *)
theory StoreRuns
  imports StoreWrites
begin

text \<open>
  Runs of the opaque store: the calls a server makes in the order in which they get the lock, each
  with its reading of the clock, and what every run keeps.
\<close>

section \<open>Calls\<close>

datatype call = Put string string target string string
  | ListPatches "nat \<Rightarrow> string" string string "string option" "int option"

definition relabel :: "('a \<Rightarrow> 'b) \<Rightarrow> 'a outcome \<times> 's \<Rightarrow> 'b outcome \<times> 's" where
  "relabel f p = (map_sum id f (fst p), snd p)"

fun put_target :: "(storage_envelope \<Rightarrow> string) \<Rightarrow> limits \<Rightarrow> string \<Rightarrow> string \<Rightarrow> target \<Rightarrow> string \<Rightarrow> string
    \<Rightarrow> reading \<Rightarrow> opaque_store \<Rightarrow> storage_envelope outcome \<times> opaque_store" where
  "put_target encode l account vault (ToMetadata m) expected k r st =
     relabel MetadataModel (put_metadata encode l account vault m expected k r st)"
| "put_target encode l account vault (ToObject oid e) expected k r st =
     relabel OpaqueModel (put_object encode l account vault oid e expected k r st)"
| "put_target encode l account vault (ToPatches e) expected k r st =
     relabel OpaqueModel (append_patch encode l account vault e expected k r st)"
| "put_target encode l account vault (ToSnapshot e) expected k r st =
     relabel OpaqueModel (put_snapshot encode l account vault e expected k r st)"

fun perform :: "(storage_envelope \<Rightarrow> string) \<Rightarrow> limits \<Rightarrow> call \<Rightarrow> reading \<Rightarrow> opaque_store \<Rightarrow> opaque_store" where
  "perform encode l (Put account vault w expected k) r st = snd (put_target encode l account vault w expected k r st)"
| "perform encode l (ListPatches entropy account vault cursor_in n) r st =
     snd (list_patches entropy account vault cursor_in n r st)"

fun run_calls :: "(storage_envelope \<Rightarrow> string) \<Rightarrow> limits \<Rightarrow> (call \<times> reading) list \<Rightarrow> opaque_store \<Rightarrow> opaque_store" where
  "run_calls encode l [] st = st"
| "run_calls encode l ((c, r) # cs) st = run_calls encode l cs (perform encode l c r st)"

lemma run_calls_append: "run_calls encode l (cs @ ds) st = run_calls encode l ds (run_calls encode l cs st)"
  by (induction encode l cs st rule: run_calls.induct) simp_all

lemma run_invariant:
  assumes "P st" "\<And>c r st. (c, r) \<in> set cs \<Longrightarrow> P st \<Longrightarrow> P (perform encode l c r st)"
  shows "P (run_calls encode l cs st)"
  using assms by (induction encode l cs st rule: run_calls.induct) auto

section \<open>A write is a write to a target\<close>

fun same_kind :: "target \<Rightarrow> storage_envelope \<Rightarrow> bool" where
  "same_kind (ToMetadata m) v \<longleftrightarrow> (\<exists>m'. v = MetadataModel m')"
| "same_kind _ v \<longleftrightarrow> (\<exists>e. v = OpaqueModel e)"

definition expect_kind :: "target \<Rightarrow> storage_envelope \<Rightarrow> storage_envelope outcome" where
  "expect_kind w v = (if same_kind w v then Inr v else Inl TypeMismatch)"

lemma relabel_answer:
  "relabel MetadataModel (answer require_metadata p) = answer (expect_kind (ToMetadata m)) p"
  "relabel OpaqueModel (answer require_opaque p) = answer (expect_kind (ToObject oid e)) p"
  "relabel OpaqueModel (answer require_opaque p) = answer (expect_kind (ToPatches e)) p"
  "relabel OpaqueModel (answer require_opaque p) = answer (expect_kind (ToSnapshot e)) p"
  by (auto simp: relabel_def answer_def expect_kind_def require_metadata_def require_opaque_def
    split: sum.splits storage_envelope.splits)

lemma put_target_store_put:
  "put_target encode l account vault w expected k r st
    = answer (expect_kind w) (store_put encode l account vault w expected k r st)"
  by (cases w) (simp_all only: put_target.simps put_metadata_eq put_object_eq append_patch_eq put_snapshot_eq relabel_answer)

lemma answer_state [simp]: "snd (answer f p) = snd p"
  by (simp add: answer_def split: sum.split)

lemma perform_put: "perform encode l (Put account vault w expected k) r st
    = snd (store_put encode l account vault w expected k r st)"
  by (simp add: put_target_store_put)

text \<open>What a call does: a read leaves the contents alone, a write stores at most one envelope.\<close>

definition same_contents :: "opaque_store \<Rightarrow> opaque_store \<Rightarrow> bool" where
  "same_contents st st' \<longleftrightarrow> fmdom (os_vaults st') = fmdom (os_vaults st)
     \<and> (\<forall>v. contents (vault_of st' v) = contents (vault_of st v)) \<and> books st' = books st"

lemma same_contents_refl [simp]: "same_contents st st"
  by (simp add: same_contents_def)

lemma same_contents_trans: "same_contents st t \<Longrightarrow> same_contents t u \<Longrightarrow> same_contents st u"
  by (simp add: same_contents_def)

lemma unchanged_same: "unchanged st st' \<Longrightarrow> same_contents st st'"
  by (simp add: unchanged_def same_contents_def)

lemma same_vaults: "os_vaults st' = os_vaults st \<Longrightarrow> books st' = books st \<Longrightarrow> same_contents st st'"
  by (simp add: same_contents_def vault_of_def)

lemma prune_cursors_vaults: "os_vaults (prune_expired_cursors now st) = os_vaults st \<and> books (prune_expired_cursors now st) = books st"
  by (simp add: prune_expired_cursors_def books_def split: prod.split)

lemma new_cursor_vaults:
  "new_cursor entropy v i j n now st = (res, st') \<Longrightarrow> os_vaults st' = os_vaults st \<and> books st' = books st
    \<and> os_receipt_expiries st' = os_receipt_expiries st \<and> os_last_clock st' = os_last_clock st"
  by (auto simp: new_cursor_def Let_def books_def split: sum.splits)

lemma page_of_vaults:
  "page_of entropy v patches i j n rec now st = (res, st') \<Longrightarrow> os_vaults st' = os_vaults st \<and> books st' = books st
    \<and> os_receipt_expiries st' = os_receipt_expiries st \<and> os_last_clock st' = os_last_clock st"
  by (auto simp: page_of_def Let_def books_def dest!: new_cursor_vaults split: if_splits option.splits sum.splits prod.splits)

lemma clock_vaults: "clock_now r st = Some (now, st') \<Longrightarrow> os_vaults st' = os_vaults st \<and> books st' = books st"
  by (auto simp: clock_now_def books_def split: option.splits)

lemma list_patches_vaults:
  assumes "list_patches entropy account vault cur n r st = (res, st')"
  shows "os_vaults st' = os_vaults st \<and> books st' = books st"
proof (cases "clock_now r st")
  case None
  then show ?thesis using assms by (simp add: list_patches_def)
next
  case (Some p)
  obtain now st0 where p: "p = (now, st0)" by (cases p)
  have c: "os_vaults st0 = os_vaults st \<and> books st0 = books st" using clock_vaults Some p by blast
  define st1 where "st1 = prune_expired_cursors now st0"
  have s1: "os_vaults st1 = os_vaults st \<and> books st1 = books st" using c prune_cursors_vaults by (simp add: st1_def)
  show ?thesis
    using assms Some p s1
    by (auto simp: list_patches_def st1_def [symmetric] Let_def books_def
      dest!: page_of_vaults split: option.splits if_splits)
qed

lemma prune_cursors_clock [simp]: "os_last_clock (prune_expired_cursors now st) = os_last_clock st"
  by (simp add: prune_expired_cursors_def split: prod.split)

lemma list_clock:
  assumes "list_patches entropy account vault cur n r st = (res, st')" "clock_now r st = Some (now, st0)"
  shows "os_last_clock st' = Some now"
proof -
  have "os_last_clock (prune_expired_cursors now st0) = Some now"
    using assms(2) by (auto simp: clock_now_def split: option.splits)
  then show ?thesis
    using assms by (auto simp: list_patches_def Let_def dest!: page_of_vaults split: option.splits if_splits)
qed

lemma same_contents_vault: "same_contents st st' \<Longrightarrow> contents (vault_of st' v) = contents (vault_of st v)"
  unfolding same_contents_def by blast

lemma list_same: "same_contents st (perform encode l (ListPatches entropy account vault cur n) r st)"
  using list_patches_vaults [of entropy account vault cur n r st] same_vaults by (simp add: prod_eq_iff)

definition stores :: "(storage_envelope \<Rightarrow> string) \<Rightarrow> limits \<Rightarrow> string \<Rightarrow> string \<Rightarrow> target \<Rightarrow> string \<Rightarrow> opaque_store \<Rightarrow> opaque_store \<Rightarrow> bool" where
  "stores encode l account vault w expected st st' \<longleftrightarrow>
    (let s = vault_of st (account, vault);
         d = capacity_delta_of (account, vault) (length (encode (target_envelope w))) (target_objects w s) (target_patches w) st
     in target_fits vault w \<and> target_admitted w expected s
        \<and> same_revision (target_current w s) (target_envelope w) = Inr None \<and> has_capacity l account d st
        \<and> stored st st' (account, vault) (target_update w (sha256 (encode (target_envelope w))) s) d)"

lemma perform_cases:
  obtains "same_contents st (perform encode l c r st)"
  | account vault w expected where "stores encode l account vault w expected st (perform encode l c r st)"
proof (cases c)
  case (Put account vault w expected k)
  obtain res st' where p: "store_put encode l account vault w expected k r st = (res, st')" by (rule prod.exhaust)
  then have st': "perform encode l c r st = st'" by (simp add: Put put_target_store_put)
  have "unchanged st st' \<or> stores encode l account vault w expected st st'"
    using store_put_effect [OF p] unfolding stores_def Let_def by blast
  then show ?thesis using that st' unchanged_same by auto
next
  case (ListPatches entropy account vault cur n)
  then show ?thesis using that(1) list_same by simp
qed

section \<open>The clock\<close>

lemma record_receipt_clock: "record_receipt v rk attempt resp now (s, st) = (s', st') \<Longrightarrow> os_last_clock st' = os_last_clock st"
  by (auto simp: record_receipt_def Let_def)

lemma prune_receipts_clock [simp]: "os_last_clock (prune_expired_receipts now st) = os_last_clock st"
  by (simp add: prune_expired_receipts_def split: prod.split)

lemma retain_clock [simp]: "os_last_clock (retain_state v s d st) = os_last_clock st"
  by (simp add: retain_state_def Let_def)

lemma record_clock_snd [simp]: "os_last_clock (snd (record_receipt v rk attempt resp now p)) = os_last_clock (snd p)"
  using record_receipt_clock [of v rk attempt resp now "fst p" "snd p"] by (metis prod.collapse)

lemma store_put_clock:
  assumes "store_put encode l account vault w expected k r st = (res, st')"
  shows "os_last_clock st' = os_last_clock st \<or> (\<exists>now st0. clock_now r st = Some (now, st0) \<and> os_last_clock st' = Some now)"
proof (cases "target_fits vault w \<and> require_write_tokens expected k \<and> clock_now r st \<noteq> None")
  case False
  then show ?thesis using assms by (cases "clock_now r st") (simp_all add: store_put_def prepare_write_def split: if_splits)
next
  case True
  then obtain now st0 where c: "clock_now r st = Some (now, st0)" by auto
  then have "os_last_clock st0 = Some now" by (auto simp: clock_now_def split: option.splits)
  define st1 where "st1 = prune_expired_receipts now st0"
  obtain replayed s where rp: "replay_receipt (vault_of st1 (account, vault)) (target_scope w, k)
      \<lparr>expected_revision = expected, envelope_fingerprint = sha256 (encode (target_envelope w))\<rparr> now = (replayed, s)" by (rule prod.exhaust)
  have st1: "os_last_clock st1 = Some now" by (simp add: st1_def \<open>os_last_clock st0 = Some now\<close>)
  have "os_last_clock st' = Some now"
    using assms True c st1
    by (auto simp: store_put_def prepare_write_def st1_def [symmetric] rp Let_def split_def split: sum.splits option.splits if_splits)
  then show ?thesis using c by blast
qed

lemma perform_clock_cases:
  "os_last_clock (perform encode l c r st) = os_last_clock st
    \<or> (\<exists>now st0. clock_now r st = Some (now, st0) \<and> os_last_clock (perform encode l c r st) = Some now)"
proof (cases c)
  case (Put account vault w expected k)
  show ?thesis unfolding Put perform_put by (rule store_put_clock [OF prod.collapse [symmetric]])
next
  case (ListPatches entropy account vault cur n)
  obtain res st' where p: "list_patches entropy account vault cur n r st = (res, st')" by (rule prod.exhaust)
  show ?thesis
  proof (cases "clock_now r st")
    case None
    then show ?thesis using p by (auto simp: ListPatches list_patches_def)
  next
    case (Some q)
    then show ?thesis using list_clock [OF p] p by (cases q) (simp add: ListPatches)
  qed
qed

text \<open>Time does not go back: what is in the past stays in the past.\<close>

definition passed :: "rat \<Rightarrow> opaque_store \<Rightarrow> bool" where
  "passed t st \<longleftrightarrow> (\<exists>u. os_last_clock st = Some u \<and> t \<le> u)"

lemma passed_perform: "passed t st \<Longrightarrow> passed t (perform encode l c r st)"
  using perform_clock_cases [of encode l c r st] by (auto simp: passed_def clock_now_def observe_Some split: option.splits)

lemma clock_not_passed: "clock_now r st = Some (now, st0) \<Longrightarrow> passed t st \<Longrightarrow> t \<le> now"
  by (auto simp: passed_def clock_now_def observe_Some split: option.splits)

lemma clock_passes: "clock_now r st = Some (now, st0) \<Longrightarrow> r = Finite now"
  by (auto simp: clock_now_def observe_Some split: option.splits)

end
