(* ===== verification/StoreCapacity.thy ===== *)
theory StoreCapacity
  imports StoreRuns Samples
begin

text \<open>
  The capacity of the opaque store.  The counters the store keeps are the true totals over the
  vaults, so its limits bound what is really retained.
\<close>

section \<open>Totals over vaults\<close>

definition vaults_where :: "(vault_key \<Rightarrow> bool) \<Rightarrow> opaque_store \<Rightarrow> vault_key set" where
  "vaults_where P st = {v \<in> fset (fmdom (os_vaults st)). P v}"

definition total :: "(vault_state \<Rightarrow> int) \<Rightarrow> (vault_key \<Rightarrow> bool) \<Rightarrow> opaque_store \<Rightarrow> int" where
  "total f P st = (\<Sum>v\<in>vaults_where P st. f (vault_of st v))"

abbreviation of_account :: "string \<Rightarrow> vault_key \<Rightarrow> bool" where
  "of_account account \<equiv> \<lambda>v. fst v = account"

abbreviation everywhere :: "vault_key \<Rightarrow> bool" where
  "everywhere \<equiv> \<lambda>v. True"

text \<open>What a vault retains: objects, patches, revisions ever stored, and bytes of stored envelopes.\<close>

definition objects_in :: "vault_state \<Rightarrow> int" where
  "objects_in s = int (fcard (fmdom (vs_objects s)))"

definition patches_in :: "vault_state \<Rightarrow> int" where
  "patches_in s = int (length (vs_patches s))"

definition revisions_in :: "vault_state \<Rightarrow> int" where
  "revisions_in s = int (fcard (fmdom (vs_metadata_fps s))) + (\<Sum>oid\<in>fset (fmdom (vs_object_fps s)). int (fcard (fmdom (object_history s oid))))
     + int (length (vs_patches s)) + int (fcard (fmdom (vs_snapshot_fps s)))"

definition bytes_in :: "(storage_envelope \<Rightarrow> string) \<Rightarrow> vault_state \<Rightarrow> int" where
  "bytes_in encode s = (\<Sum>m\<in>set_option (vs_metadata s). int (length (encode (MetadataModel m))))
     + (\<Sum>oid\<in>fset (fmdom (vs_objects s)). int (length (encode (OpaqueModel (the (fmlookup (vs_objects s) oid))))))
     + (\<Sum>e\<leftarrow>vs_patches s. int (length (encode (OpaqueModel e))))
     + (\<Sum>e\<in>set_option (vs_snapshot s). int (length (encode (OpaqueModel e))))"

lemma measure_contents:
  assumes "contents s = contents t"
  shows "objects_in s = objects_in t" "patches_in s = patches_in t" "revisions_in s = revisions_in t"
    "bytes_in encode s = bytes_in encode t"
  using assms by (simp_all add: contents_iff objects_in_def patches_in_def revisions_in_def bytes_in_def object_history_def)

lemma measure_empty [simp]: "objects_in empty_vault = 0" "patches_in empty_vault = 0" "revisions_in empty_vault = 0"
  "bytes_in encode empty_vault = 0"
  by (simp_all add: objects_in_def patches_in_def revisions_in_def bytes_in_def empty_vault_def)

lemmas fcard_upd = fcard_finsert_if

lemma sum_upd:
  assumes "finite A"
  shows "(\<Sum>k\<in>insert a A. if k = a then (x::int) else f k) = (\<Sum>k\<in>A. f k) + x - (if a \<in> A then f a else 0)"
proof -
  have "(\<Sum>k\<in>insert a A. if k = a then x else f k) = x + (\<Sum>k\<in>A - {a}. f k)"
    using assms by (simp add: sum.insert_remove)
  then show ?thesis using assms by (simp add: sum_diff1)
qed

lemma stored_contents: "stored st st' v s d \<Longrightarrow> contents (vault_of st' u) = contents (if u = v then s else vault_of st u)"
  unfolding stored_def by blast

section \<open>What a write adds\<close>

lemma write_adds_objects: "objects_in (target_update w fp s) = objects_in s + target_objects w s"
  by (cases w) (auto simp: objects_in_def fcard_upd fmdom_notD intro: fmdomI)

lemma write_adds_patches: "patches_in (target_update w fp s) = patches_in s + target_patches w"
  by (cases w) (auto simp: patches_in_def)

lemma write_adds_revision: "target_admitted w expected s \<Longrightarrow> revisions_in (target_update w fp s) = revisions_in s + 1"
proof (cases w)
  case (ToObject oid e)
  assume "target_admitted w expected s"
  then have new: "revision e |\<notin>| fmdom (object_history s oid)" by (simp add: ToObject)
  let ?f = "\<lambda>k. int (fcard (fmdom (object_history s k)))"
  have "object_history (target_update w fp s) k = (if k = oid then fmupd (revision e) fp (object_history s oid) else object_history s k)" for k
    by (simp add: ToObject object_history_def)
  then have "(\<Sum>k\<in>fset (fmdom (vs_object_fps (target_update w fp s))). int (fcard (fmdom (object_history (target_update w fp s) k))))
      = (\<Sum>k\<in>insert oid (fset (fmdom (vs_object_fps s))). if k = oid then ?f oid + 1 else ?f k)"
    using new by (simp add: ToObject fcard_upd if_distrib cong: if_cong) (intro sum.cong; simp add: fcard_upd)
  also have "\<dots> = (\<Sum>k\<in>fset (fmdom (vs_object_fps s)). ?f k) + (?f oid + 1) - (if oid \<in> fset (fmdom (vs_object_fps s)) then ?f oid else 0)"
    by (rule sum_upd) simp
  also have "\<dots> = (\<Sum>k\<in>fset (fmdom (vs_object_fps s)). ?f k) + 1"
    by (auto simp: object_history_def fmdom_notD)
  finally show ?thesis by (simp add: ToObject revisions_in_def)
qed (auto simp: revisions_in_def fcard_upd object_history_def)

lemma write_adds_bytes: "bytes_in encode (target_update w fp s) \<le> bytes_in encode s + int (length (encode (target_envelope w)))"
proof (cases w)
  case (ToObject oid e)
  let ?f = "\<lambda>k. int (length (encode (OpaqueModel (the (fmlookup (vs_objects s) k)))))"
  have "(\<Sum>k\<in>fset (fmdom (vs_objects (target_update w fp s))). int (length (encode (OpaqueModel (the (fmlookup (vs_objects (target_update w fp s)) k))))))
      = (\<Sum>k\<in>insert oid (fset (fmdom (vs_objects s))). if k = oid then int (length (encode (OpaqueModel e))) else ?f k)"
    by (simp add: ToObject) (intro sum.cong; simp)
  also have "\<dots> \<le> (\<Sum>k\<in>fset (fmdom (vs_objects s)). ?f k) + int (length (encode (OpaqueModel e)))"
    by (subst sum_upd) auto
  finally show ?thesis by (simp add: ToObject bytes_in_def)
next
  case (ToMetadata m)
  have "(\<Sum>m\<in>set_option (vs_metadata s). int (length (encode (MetadataModel m)))) \<ge> 0" by (rule sum_nonneg) simp
  then show ?thesis by (simp add: ToMetadata bytes_in_def)
next
  case (ToSnapshot e)
  have "(\<Sum>e\<in>set_option (vs_snapshot s). int (length (encode (OpaqueModel e)))) \<ge> 0" by (rule sum_nonneg) simp
  then show ?thesis by (simp add: ToSnapshot bytes_in_def)
qed (simp add: bytes_in_def)

lemma total_same:
  assumes "same_contents st st'" "\<And>s t. contents s = contents t \<Longrightarrow> f s = f t"
  shows "total f P st' = total f P st"
proof -
  have "f (vault_of st' v) = f (vault_of st v)" for v using assms unfolding same_contents_def by blast
  then show ?thesis using assms(1) by (simp add: total_def vaults_where_def same_contents_def)
qed

lemma total_stored:
  assumes "stored st st' v s d" "\<And>s t. contents s = contents t \<Longrightarrow> f s = f t"
  shows "total f P st' = total f P st
    + (if P v then f s - (if v |\<in>| fmdom (os_vaults st) then f (vault_of st v) else 0) else 0)"
proof (cases "P v")
  case True
  have f: "f (vault_of st' u) = (if u = v then f s else f (vault_of st u))" for u
    using assms(2) [OF stored_contents [OF assms(1)], of u] by simp
  have "vaults_where P st' = insert v (vaults_where P st)"
    using assms(1) True by (auto simp: vaults_where_def stored_def)
  moreover have "finite (vaults_where P st)" by (simp add: vaults_where_def)
  ultimately have "total f P st' = (\<Sum>u\<in>vaults_where P st. f (vault_of st u)) + f s
      - (if v \<in> vaults_where P st then f (vault_of st v) else 0)"
    unfolding total_def using sum_upd [of "vaults_where P st" v "f s" "\<lambda>u. f (vault_of st u)"] by (simp add: f)
  then show ?thesis using True by (simp add: total_def vaults_where_def)
next
  case False
  have "f (vault_of st' u) = f (vault_of st u)" if "P u" for u
    using assms(2) [OF stored_contents [OF assms(1)], of u] that False by auto
  moreover have "vaults_where P st' = vaults_where P st"
    using assms(1) False by (auto simp: vaults_where_def stored_def)
  ultimately show ?thesis using False by (simp add: total_def vaults_where_def)
qed

section \<open>The counters\<close>

lemma get0_add_to: "get0 (add_to account n m) a = get0 m a + (if a = account then n else 0)"
  by (simp add: get0_def add_to_def)

definition sum0 :: "(string, int) fmap \<Rightarrow> int" where
  "sum0 m = (\<Sum>k\<in>fset (fmdom m). get0 m k)"

lemma sum0_add_to: "sum0 (add_to account n m) = sum0 m + n"
proof -
  have "sum0 (add_to account n m) = (\<Sum>k\<in>insert account (fset (fmdom m)). if k = account then get0 m account + n else get0 m k)"
    unfolding sum0_def by (intro sum.cong) (auto simp: add_to_def get0_def)
  also have "\<dots> = sum0 m + (get0 m account + n) - (if account \<in> fset (fmdom m) then get0 m account else 0)"
    by (subst sum_upd) (simp_all add: sum0_def)
  finally show ?thesis by (auto simp: get0_def fmdom_notD)
qed

definition counters_exact :: "(storage_envelope \<Rightarrow> string) \<Rightarrow> opaque_store \<Rightarrow> bool" where
  "counters_exact encode st \<longleftrightarrow>
     (\<forall>a. get0 (os_vaults_per_account st) a = total (\<lambda>s. 1) (of_account a) st)
     \<and> (\<forall>a. get0 (os_objects_per_account st) a = total objects_in (of_account a) st)
     \<and> (\<forall>a. get0 (os_patches_per_account st) a = total patches_in (of_account a) st)
     \<and> (\<forall>a. get0 (os_revisions_per_account st) a = total revisions_in (of_account a) st)
     \<and> (\<forall>a. total (bytes_in encode) (of_account a) st \<le> get0 (os_bytes_per_account st) a)
     \<and> total (bytes_in encode) everywhere st \<le> os_retained_bytes st"

lemma retained_counters:
  assumes "stored st st' v s d"
  shows "get0 (os_vaults_per_account st') a = get0 (os_vaults_per_account st) a + (if a = fst v then cd_vaults d else 0)"
    "get0 (os_objects_per_account st') a = get0 (os_objects_per_account st) a + (if a = fst v then cd_objects d else 0)"
    "get0 (os_patches_per_account st') a = get0 (os_patches_per_account st) a + (if a = fst v then cd_patches d else 0)"
    "get0 (os_revisions_per_account st') a = get0 (os_revisions_per_account st) a + (if a = fst v then cd_revisions d else 0)"
    "os_retained_bytes st' = os_retained_bytes st + cd_bytes d"
    "get0 (os_bytes_per_account st') a = get0 (os_bytes_per_account st) a + (if a = fst v then cd_bytes d else 0)"
  using assms by (simp_all add: stored_def books_def retain_state_def Let_def get0_add_to)

lemma vault_absent: "v |\<notin>| fmdom (os_vaults st) \<Longrightarrow> vault_of st v = empty_vault"
  by (simp add: vault_of_def fmdom_notD)

lemma written_total:
  assumes "stored st st' v s d" "\<And>s t. contents s = contents t \<Longrightarrow> f s = f t" "f empty_vault = 0"
  shows "total f P st' = total f P st + (if P v then f s - f (vault_of st v) else 0)"
  using total_stored [OF assms(1,2)] vault_absent [of v st] assms(3) by auto

lemma counters_written:
  assumes "counters_exact encode st" "stores encode l account vault w expected st st'"
  shows "counters_exact encode st'"
proof -
  let ?v = "(account, vault)"
  define s where "s = vault_of st ?v"
  define d where "d = capacity_delta_of ?v (length (encode (target_envelope w))) (target_objects w s) (target_patches w) st"
  have st: "stored st st' ?v (target_update w (sha256 (encode (target_envelope w))) s) d" and adm: "target_admitted w expected s"
    using assms(2) by (simp_all add: stores_def Let_def s_def d_def)
  note b = retained_counters [OF st]
  note t = written_total [OF st]
  have d: "cd_vaults d = (if ?v |\<notin>| fmdom (os_vaults st) then 1 else 0)" "cd_objects d = target_objects w s"
    "cd_patches d = target_patches w" "cd_revisions d = 1" "cd_bytes d = int (length (encode (target_envelope w)))"
    by (simp_all add: d_def capacity_delta_of_def)
  note c = assms(1) [unfolded counters_exact_def]
  have c1: "get0 (os_vaults_per_account st) a = total (\<lambda>s. 1) (of_account a) st"
    and c2: "get0 (os_objects_per_account st) a = total objects_in (of_account a) st"
    and c3: "get0 (os_patches_per_account st) a = total patches_in (of_account a) st"
    and c4: "get0 (os_revisions_per_account st) a = total revisions_in (of_account a) st"
    and c5: "total (bytes_in encode) (of_account a) st \<le> get0 (os_bytes_per_account st) a"
    and c6: "total (bytes_in encode) everywhere st \<le> os_retained_bytes st" for a
    using c by blast+
  let ?w = "target_update w (sha256 (encode (target_envelope w))) s"
  have bytes: "total (bytes_in encode) P st' \<le> total (bytes_in encode) P st + (if P ?v then cd_bytes d else 0)" for P
    using t [of "bytes_in encode" P, OF measure_contents(4) measure_empty(4)] write_adds_bytes [of encode w "sha256 (encode (target_envelope w))" s]
    unfolding s_def [symmetric] d by simp
  show ?thesis
    unfolding counters_exact_def
  proof (intro conjI allI)
    fix a
    show "get0 (os_vaults_per_account st') a = total (\<lambda>s. 1) (of_account a) st'"
      unfolding b(1) c1 d total_stored [OF st, of "\<lambda>s. 1", OF refl] by simp
    show "get0 (os_objects_per_account st') a = total objects_in (of_account a) st'"
      using t [of objects_in "of_account a", OF measure_contents(1) measure_empty(1)] unfolding b(2) c2 d write_adds_objects s_def [symmetric] by simp
    show "get0 (os_patches_per_account st') a = total patches_in (of_account a) st'"
      using t [of patches_in "of_account a", OF measure_contents(2) measure_empty(2)] unfolding b(3) c3 d write_adds_patches s_def [symmetric] by simp
    show "get0 (os_revisions_per_account st') a = total revisions_in (of_account a) st'"
      using t [of revisions_in "of_account a", OF measure_contents(3) measure_empty(3)] unfolding b(4) c4 d write_adds_revision [OF adm] s_def [symmetric] by simp
    show "total (bytes_in encode) (of_account a) st' \<le> get0 (os_bytes_per_account st') a"
      using bytes [of "of_account a"] c5 [of a] unfolding b(6) by auto
    show "total (bytes_in encode) everywhere st' \<le> os_retained_bytes st'"
      using bytes [of everywhere] c6 unfolding b(5) by simp
  qed
qed

lemma counters_same:
  assumes "counters_exact encode st" "same_contents st st'"
  shows "counters_exact encode st'"
proof -
  have "books st' = books st" using assms(2) by (simp add: same_contents_def)
  moreover note total_same [OF assms(2), of "\<lambda>s. 1", OF refl] total_same [OF assms(2), of objects_in, OF measure_contents(1)]
    total_same [OF assms(2), of patches_in, OF measure_contents(2)] total_same [OF assms(2), of revisions_in, OF measure_contents(3)]
    total_same [OF assms(2), of "bytes_in encode", OF measure_contents(4)]
  ultimately show ?thesis using assms(1) unfolding counters_exact_def books_def by simp
qed

lemma run_counters: "counters_exact encode (run_calls encode l cs initial_store)"
proof (rule run_invariant)
  show "counters_exact encode initial_store"
    by (simp add: counters_exact_def initial_store_def total_def vaults_where_def get0_def)
next
  fix c r st assume "counters_exact encode st"
  then show "counters_exact encode (perform encode l c r st)"
    by (cases rule: perform_cases [where encode = encode and l = l and c = c and r = r and st = st]) (blast intro: counters_same counters_written)+
qed

section \<open>The limits\<close>

definition counters_within :: "limits \<Rightarrow> opaque_store \<Rightarrow> bool" where
  "counters_within l st \<longleftrightarrow> int (fcard (fmdom (os_vaults st))) \<le> max_retained_vaults l
     \<and> (\<forall>a. get0 (os_vaults_per_account st) a \<le> max_retained_vaults_per_account l)
     \<and> (\<forall>a. get0 (os_objects_per_account st) a \<le> max_retained_objects_per_account l)
     \<and> (\<forall>a. get0 (os_patches_per_account st) a \<le> max_retained_patches_per_account l)
     \<and> (\<forall>a. get0 (os_revisions_per_account st) a \<le> max_retained_revisions_per_account l)
     \<and> (\<forall>a. get0 (os_bytes_per_account st) a \<le> max_retained_bytes_per_account l)
     \<and> os_retained_bytes st \<le> max_retained_bytes l - reserved_retained_bytes l"

lemma within_written:
  assumes "counters_within l st" "stores encode l account vault w expected st st'"
  shows "counters_within l st'"
proof -
  let ?v = "(account, vault)"
  define d where "d = capacity_delta_of ?v (length (encode (target_envelope w))) (target_objects w (vault_of st ?v)) (target_patches w) st"
  have st: "stored st st' ?v (target_update w (sha256 (encode (target_envelope w))) (vault_of st ?v)) d"
    and cap: "has_capacity l account d st"
    using assms(2) by (simp_all add: stores_def Let_def d_def)
  note b = retained_counters [OF st] and w = assms(1) [unfolded counters_within_def]
  have "cd_vaults d = (if ?v |\<notin>| fmdom (os_vaults st) then 1 else 0)" by (simp add: d_def capacity_delta_of_def)
  moreover have "fmdom (os_vaults st') = finsert ?v (fmdom (os_vaults st))" using st by (simp add: stored_def)
  ultimately have n: "int (fcard (fmdom (os_vaults st'))) = int (fcard (fmdom (os_vaults st))) + cd_vaults d"
    by (simp add: fcard_finsert_if)
  note c = cap [unfolded has_capacity_def de_Morgan_disj not_less]
  show ?thesis
    unfolding counters_within_def n b
    using w c by auto
qed

lemma within_same: "counters_within l st \<Longrightarrow> same_contents st st' \<Longrightarrow> counters_within l st'"
  by (simp add: counters_within_def same_contents_def books_def)

lemma run_within:
  assumes "valid_limits l"
  shows "counters_within l (run_calls encode l cs initial_store)"
proof (rule run_invariant)
  show "counters_within l initial_store"
    using assms by (simp add: counters_within_def initial_store_def get0_def valid_limits_def fcard_fempty)
next
  fix c r st assume "counters_within l st"
  then show "counters_within l (perform encode l c r st)"
    by (cases rule: perform_cases [where encode = encode and l = l and c = c and r = r and st = st])
      (blast intro: within_same within_written)+
qed

text \<open>C16: capacity.  Whatever calls are made in whatever order, what the store retains is within its
  limits: the number of vaults, for every account its vaults, objects, patches, revisions ever
  stored and bytes of stored envelopes, and the bytes of all accounts, of which the reserve is kept
  free.\<close>

theorem store_within_limits:
  assumes "valid_limits l"
  shows "let st = run_calls encode l cs initial_store in
    int (fcard (fmdom (os_vaults st))) \<le> max_retained_vaults l
    \<and> (\<forall>a. total (\<lambda>s. 1) (of_account a) st \<le> max_retained_vaults_per_account l
        \<and> total objects_in (of_account a) st \<le> max_retained_objects_per_account l
        \<and> total patches_in (of_account a) st \<le> max_retained_patches_per_account l
        \<and> total revisions_in (of_account a) st \<le> max_retained_revisions_per_account l
        \<and> total (bytes_in encode) (of_account a) st \<le> max_retained_bytes_per_account l)
    \<and> total (bytes_in encode) everywhere st \<le> max_retained_bytes l - reserved_retained_bytes l"
  using run_within [OF assms, of encode cs] run_counters [of encode l cs]
  unfolding counters_within_def counters_exact_def Let_def by (metis order.trans)

theorem store_within_limits_witness:
  "int (fcard (fmdom (os_vaults (run_calls se_revision default_limits
     [(Put ''a'' ''v'' (ToPatches (sample_envelope ''x'' ''r1'' None False)) ''*'' ''k'', Finite 0)] initial_store)))) \<le> 4096"
  using store_within_limits [OF policy_check_valid [OF default_policy_check], of se_revision
    "[(Put ''a'' ''v'' (ToPatches (sample_envelope ''x'' ''r1'' None False)) ''*'' ''k'', Finite 0)]"]
  by (simp add: Let_def default_limits_def policy_check_def default_policy_def del: run_calls.simps)

end
