(* ===== verification/StoreReceipts.thy ===== *)
theory StoreReceipts
  imports StoreRuns
begin

text \<open>
  Receipts: what a write answers, and what it leaves for a retry.  A receipt that has not expired
  decides the answer; without one the answer depends on the contents of the vault alone.
\<close>

section \<open>Receipts in the store\<close>

definition receipt_at :: "(vault_key, vault_state) fmap \<Rightarrow> vault_key \<times> receipt_key \<Rightarrow> receipt option" where
  "receipt_at vaults k = (case fmlookup vaults (fst k) of None \<Rightarrow> None | Some s \<Rightarrow> fmlookup (vs_receipts s) (snd k))"

interpretation receipts: expiring receipt_at drop_receipt rc_expires_at
  by unfold_locales (auto simp: receipt_at_def drop_receipt_def split: option.splits prod.splits)

lemma receipt_at_vault: "receipt_at (os_vaults st) (v, rk) = fmlookup (vs_receipts (vault_of st v)) rk"
  by (simp add: receipt_at_def vault_of_def empty_vault_def split: option.split)

definition live_receipt :: "rat \<Rightarrow> opaque_store \<Rightarrow> vault_key \<times> receipt_key \<Rightarrow> receipt option" where
  "live_receipt now st k = (case receipt_at (os_vaults st) k of
     None \<Rightarrow> None | Some rc \<Rightarrow> if now < rc_expires_at rc then Some rc else None)"

lemma live_receipt_Some: "live_receipt now st k = Some rc \<longleftrightarrow> receipt_at (os_vaults st) k = Some rc \<and> now < rc_expires_at rc"
  by (auto simp: live_receipt_def split: option.splits if_splits)

lemma live_receipt_None: "live_receipt now st k = None \<longleftrightarrow> (\<forall>rc. receipt_at (os_vaults st) k = Some rc \<longrightarrow> rc_expires_at rc \<le> now)"
  by (auto simp: live_receipt_def not_less split: option.splits)

text \<open>Receipts fade: each stays, or is gone once it has expired.\<close>

definition fades_at :: "rat \<Rightarrow> opaque_store \<Rightarrow> opaque_store \<Rightarrow> vault_key \<times> receipt_key \<Rightarrow> bool" where
  "fades_at now st st' k \<longleftrightarrow> receipt_at (os_vaults st') k = receipt_at (os_vaults st) k
     \<or> receipt_at (os_vaults st') k = None \<and> live_receipt now st k = None"

lemma fades_refl [simp]: "fades_at now st st k"
  by (simp add: fades_at_def)

lemma fades_live: "fades_at now st st' k \<Longrightarrow> live_receipt now st' k = live_receipt now st k"
  by (auto simp: fades_at_def live_receipt_def)

lemma fades_trans: "fades_at now st t k \<Longrightarrow> fades_at now t u k \<Longrightarrow> fades_at now st u k"
  using fades_live [of now st t k] by (auto simp: fades_at_def)

lemma prune_receipts_fades: "fades_at now st (prune_expired_receipts now st) k"
proof -
  obtain n h m where p: "prune MAX_RECEIPT_PRUNE_PER_WRITE now (drop_receipt now) (os_receipt_expiries st) (os_vaults st) = (n, h, m)"
    by (rule prod_cases3)
  show ?thesis
    using receipts.prune_look [OF p, of k] by (auto simp: fades_at_def prune_expired_receipts_def p live_receipt_None)
qed

lemma live_clock [simp]: "live_receipt now (st\<lparr>os_last_clock := c\<rparr>) k = live_receipt now st k"
  by (simp add: live_receipt_def)

lemma clock_now_Some: "clock_now r st = Some (now, st') \<Longrightarrow> st' = st\<lparr>os_last_clock := Some now\<rparr>"
  by (simp add: clock_now_def split: option.splits)

lemma clock_fades: "clock_now r st = Some (now, st') \<Longrightarrow> fades_at t st st' k"
  using clock_vaults [of r st now st'] by (simp add: fades_at_def)

lemma receipt_at_share:
  "receipt_at (os_vaults (share v s st)) (u, rk)
    = (if u = v \<and> v |\<in>| fmdom (os_vaults st) then fmlookup (vs_receipts s) rk else receipt_at (os_vaults st) (u, rk))"
  by (simp add: receipt_at_vault vault_of_share)

lemma empty_receipts: "vs_receipts empty_vault = fmempty"
  by (simp add: empty_vault_def)

section \<open>The courses of a write\<close>

definition attempt_of :: "(storage_envelope \<Rightarrow> string) \<Rightarrow> target \<Rightarrow> string \<Rightarrow> write_attempt" where
  "attempt_of encode w expected = \<lparr>expected_revision = expected, envelope_fingerprint = sha256 (encode (target_envelope w))\<rparr>"

lemma attempt_of_fp [simp]: "envelope_fingerprint (attempt_of encode w expected) = sha256 (encode (target_envelope w))"
  by (simp add: attempt_of_def)

definition receipt_for :: "(storage_envelope \<Rightarrow> string) \<Rightarrow> target \<Rightarrow> string \<Rightarrow> storage_envelope \<Rightarrow> rat \<Rightarrow> receipt" where
  "receipt_for encode w expected response now =
     \<lparr>rc_attempt = attempt_of encode w expected, rc_response = response, rc_expires_at = now + IDEMPOTENCY_RECEIPT_LIFETIME_SECONDS\<rparr>"

text \<open>The answer of a write when there is no receipt, from the contents of the vault.\<close>

definition fresh_answer :: "(storage_envelope \<Rightarrow> string) \<Rightarrow> limits \<Rightarrow> string \<Rightarrow> string \<Rightarrow> target \<Rightarrow> string \<Rightarrow> opaque_store
    \<Rightarrow> storage_envelope outcome" where
  "fresh_answer encode l account vault w expected st =
     (let s = vault_of st (account, vault) in
      case same_revision (target_current w s) (target_envelope w) of
        Inl e \<Rightarrow> Inl e
      | Inr (Some duplicate) \<Rightarrow> Inr duplicate
      | Inr None \<Rightarrow>
          if \<not> target_admitted w expected s then Inl Conflict
          else if \<not> has_capacity l account (capacity_delta_of (account, vault) (length (encode (target_envelope w)))
              (target_objects w s) (target_patches w) st) st then Inl CapacityExceeded
          else Inr (target_envelope w))"

lemma fresh_answer_same:
  assumes "same_contents st st'"
  shows "fresh_answer encode l account vault w expected st' = fresh_answer encode l account vault w expected st"
proof -
  have "contents (vault_of st' (account, vault)) = contents (vault_of st (account, vault))"
    and c: "fmdom (os_vaults st') = fmdom (os_vaults st)" "books st' = books st"
    using assms unfolding same_contents_def by blast+
  from contents_target [OF this(1)] capacity_same [OF c] show ?thesis by (simp add: fresh_answer_def Let_def)
qed

lemma drop_none: "fmlookup (vs_receipts s) rk = None \<Longrightarrow> s\<lparr>vs_receipts := fmdrop rk (vs_receipts s)\<rparr> = s"
  by (simp add: fmdrop_idle fmdom_notI)

lemma replay_receipt_eq:
  "replay_receipt (vault_of st v) rk attempt now = (case live_receipt now st (v, rk) of
     None \<Rightarrow> (Inr None, (vault_of st v)\<lparr>vs_receipts := fmdrop rk (vs_receipts (vault_of st v))\<rparr>)
   | Some rc \<Rightarrow> (if rc_attempt rc \<noteq> attempt then Inl Conflict else Inr (Some (rc_response rc)), vault_of st v))"
  by (auto simp: replay_receipt_def live_receipt_def receipt_at_vault drop_none split: option.splits)

lemma replay_fades:
  assumes "replay_receipt (vault_of st v) rk attempt now = (replayed, s)"
  shows "fades_at now st (share v s st) j"
proof -
  obtain u k where Pair: "j = (u, k)" by (rule prod.exhaust)
  show ?thesis
  proof (cases "live_receipt now st (v, rk)")
    case None
    then have "s = (vault_of st v)\<lparr>vs_receipts := fmdrop rk (vs_receipts (vault_of st v))\<rparr>"
      using assms by (simp add: replay_receipt_eq)
    then show ?thesis using None by (auto simp: Pair fades_at_def receipt_at_share receipt_at_vault [symmetric])
  next
    case (Some rc)
    then have "s = vault_of st v" using assms by (simp add: replay_receipt_eq)
    then show ?thesis by (simp add: Pair fades_at_def receipt_at_vault vault_of_share)
  qed
qed

lemma record_receipt_at:
  assumes "record_receipt v rk attempt resp now (s, st) = (s', st')"
  shows "fmlookup (vs_receipts s') rk = Some \<lparr>rc_attempt = attempt, rc_response = resp, rc_expires_at = now + IDEMPOTENCY_RECEIPT_LIFETIME_SECONDS\<rparr>"
    and "k \<noteq> rk \<Longrightarrow> fmlookup (vs_receipts s') k = fmlookup (vs_receipts s) k"
    and "receipt_at (os_vaults st') (u, k) = (if u = v \<and> v |\<in>| fmdom (os_vaults st) then fmlookup (vs_receipts s') k else receipt_at (os_vaults st) (u, k))"
  using assms by (auto simp: record_receipt_def Let_def receipt_at_share)

lemma retain_receipt_at:
  "receipt_at (os_vaults (retain_state v s d st)) (u, k) = (if u = v then fmlookup (vs_receipts s) k else receipt_at (os_vaults st) (u, k))"
  by (simp add: retain_state_def Let_def receipt_at_def)

lemma target_update_receipts [simp]: "vs_receipts (target_update w fp s) = vs_receipts s"
  by (cases w) simp_all

text \<open>A write that gets past its checks and the clock: a live receipt decides; otherwise the contents do,
  and an answer without an error leaves a receipt.\<close>

lemma store_put_answer:
  assumes "target_fits vault w" "require_write_tokens expected k" "clock_now r st = Some (now, st0)"
    and "store_put encode l account vault w expected k r st = (res, st')"
    and key: "key = ((account, vault), (target_scope w, k))"
  shows "res = (case live_receipt now st key of
      Some rc \<Rightarrow> if rc_attempt rc \<noteq> attempt_of encode w expected then Inl Conflict else Inr (rc_response rc)
    | None \<Rightarrow> fresh_answer encode l account vault w expected st)" (is ?answer)
    and "live_receipt now st key = None \<Longrightarrow> res = Inr x \<Longrightarrow>
      receipt_at (os_vaults st') key = Some (receipt_for encode w expected x now)" (is "_ \<Longrightarrow> _ \<Longrightarrow> ?receipt")
    and "j \<noteq> key \<or> live_receipt now st key \<noteq> None \<or> res = Inl e \<Longrightarrow> fades_at now st st' j" (is "_ \<Longrightarrow> ?fades")
    and "live_receipt now st key \<noteq> None \<Longrightarrow> same_contents st st'" (is "_ \<Longrightarrow> ?same")
    and "os_last_clock st' = Some now" (is ?clock)
proof -
  let ?v = "(account, vault)" and ?rk = "(target_scope w, k)"
  let ?at = "attempt_of encode w expected"
  define st1 where "st1 = prune_expired_receipts now st0"
  obtain replayed s where rp: "replay_receipt (vault_of st1 ?v) ?rk ?at now = (replayed, s)" by (rule prod.exhaust)
  define st2 where "st2 = share ?v s st1"
  have same1: "same_contents st st1"
    unfolding st1_def by (intro unchanged_same unchanged_trans [OF clock_unchanged [OF assms(3)] prune_receipts_unchanged])
  have s1: "contents s = contents (vault_of st1 ?v)" by (rule replay_contents [OF rp])
  have same2: "same_contents st st2"
    unfolding st2_def by (rule same_contents_trans [OF same1 unchanged_same [OF share_unchanged [OF s1]]])
  have s: "contents s = contents (vault_of st2 ?v)"
    using s1 unchanged_contents [OF share_unchanged [OF s1]] by (simp add: st2_def)
  have fades1: "fades_at now st st1 j" for j
    unfolding st1_def by (rule fades_trans [OF clock_fades [OF assms(3)] prune_receipts_fades])
  have fades2: "fades_at now st st2 j" for j
    unfolding st2_def by (rule fades_trans [OF fades1 replay_fades [OF rp]])
  have live1: "live_receipt now st1 j = live_receipt now st j" for j
    by (rule fades_live [OF fades1])
  define fresh where "fresh = fresh_answer encode l account vault w expected st"
  have fresh2: "fresh = fresh_answer encode l account vault w expected st2"
    unfolding fresh_def by (rule fresh_answer_same [OF same2, symmetric])
  note ct = contents_target [OF s]
  define d where "d = capacity_delta_of ?v (length (encode (target_envelope w))) (target_objects w s) (target_patches w) st2"
  define t where "t = target_update w (sha256 (encode (target_envelope w))) s"
  have f: "fresh = (case same_revision (target_current w s) (target_envelope w) of
      Inl e \<Rightarrow> Inl e | Inr (Some duplicate) \<Rightarrow> Inr duplicate
    | Inr None \<Rightarrow> if \<not> target_admitted w expected s then Inl Conflict
        else if \<not> has_capacity l account d st2 then Inl CapacityExceeded else Inr (target_envelope w))"
    by (simp only: fresh2 fresh_answer_def Let_def ct d_def)
  have sp: "(res, st') = (case replayed of Inl e \<Rightarrow> (Inl e, st2) | Inr (Some response) \<Rightarrow> (Inr response, st2)
    | Inr None \<Rightarrow> (case same_revision (target_current w s) (target_envelope w) of Inl e \<Rightarrow> (Inl e, st2)
       | Inr (Some duplicate) \<Rightarrow> (Inr duplicate, snd (record_receipt ?v ?rk ?at duplicate now (s, st2)))
       | Inr None \<Rightarrow> (if \<not> target_admitted w expected s then (Inl Conflict, st2)
           else if \<not> has_capacity l account d st2 then (Inl CapacityExceeded, st2)
           else (Inr (target_envelope w), (case record_receipt ?v ?rk ?at (target_envelope w) now (t, share ?v t st2)
             of (s4, st4) \<Rightarrow> retain_state ?v s4 d st4)))))"
    unfolding assms(4) [symmetric] d_def t_def
    by (simp add: store_put_def prepare_write_def attempt_of_def [symmetric] assms(1-3) st1_def [symmetric] rp
      st2_def [symmetric] Let_def split_def cong: option.case_cong sum.case_cong if_cong)
  have kept: "?v |\<in>| fmdom (os_vaults st2)" if "target_current w s \<noteq> None"
  proof (rule ccontr)
    assume "?v |\<notin>| fmdom (os_vaults st2)"
    then have "vault_of st2 ?v = empty_vault" by (simp add: vault_of_def fmdom_notD)
    then have "target_current w s = None" using ct(1) [of w] by (cases w) (simp_all add: empty_vault_def)
    then show False using that by simp
  qed
  have srec: "fmlookup (vs_receipts s) i = receipt_at (os_vaults st2) (?v, i)" for i
  proof (cases "?v |\<in>| fmdom (os_vaults st1)")
    case True
    then show ?thesis by (simp add: st2_def receipt_at_share)
  next
    case False
    then have "vault_of st1 ?v = empty_vault" by (simp add: vault_of_def fmdom_notD)
    then have "vs_receipts s = fmempty"
      using rp by (auto simp: replay_receipt_def empty_receipts)
    then show ?thesis using False by (simp add: st2_def receipt_at_share) (simp add: receipt_at_def fmdom_notD)
  qed
  consider (quiet) e where "st' = st2" "res = Inl e" "fresh = Inl e" "replayed = Inr None"
    | (replay) "st' = st2" "replayed \<noteq> Inr None" "res = (case replayed of Inl e \<Rightarrow> Inl e | Inr None \<Rightarrow> res | Inr (Some y) \<Rightarrow> Inr y)"
    | (recorded) y where "replayed = Inr None" "res = Inr y" "fresh = Inr y"
        "receipt_at (os_vaults st') key = Some (receipt_for encode w expected y now)"
        "\<And>j. j \<noteq> key \<Longrightarrow> receipt_at (os_vaults st') j = receipt_at (os_vaults st2) j"
  proof (cases "replayed = Inr None")
    case False
    then have "st' = st2 \<and> res = (case replayed of Inl e \<Rightarrow> Inl e | Inr None \<Rightarrow> res | Inr (Some y) \<Rightarrow> Inr y)"
      using sp by (cases replayed) (auto split: option.splits)
    then show ?thesis using replay False by blast
  next
    case new: True
    show ?thesis
    proof (cases "same_revision (target_current w s) (target_envelope w)")
      case (Inl e)
      then show ?thesis using quiet sp f new by simp
    next
      case (Inr o')
      show ?thesis
      proof (cases o')
        case (Some y)
        obtain s4 st4 where r: "record_receipt ?v ?rk ?at y now (s, st2) = (s4, st4)" by (rule prod.exhaust)
        have dom: "?v |\<in>| fmdom (os_vaults st2)"
          by (rule kept) (use Inr Some in \<open>auto simp: same_revision_def split: option.splits if_splits\<close>)
        have "st' = st4" "res = Inr y" "fresh = Inr y" using sp f new Inr Some r by simp_all
        moreover have "receipt_at (os_vaults st4) key = Some (receipt_for encode w expected y now)"
          using dom by (simp add: key record_receipt_at [OF r] receipt_for_def)
        moreover have "receipt_at (os_vaults st4) j = receipt_at (os_vaults st2) j" if "j \<noteq> key" for j
        proof -
          obtain u i where j: "j = (u, i)" by (rule prod.exhaust)
          show ?thesis using that by (auto simp: j key record_receipt_at(3) [OF r] record_receipt_at(2) [OF r] srec)
        qed
        ultimately show ?thesis using recorded new by blast
      next
        case None
        show ?thesis
        proof (cases "target_admitted w expected s \<and> has_capacity l account d st2")
          case False
          then have "\<exists>e. st' = st2 \<and> res = Inl e \<and> fresh = Inl e" using sp f new Inr None by (auto split: if_splits)
          then show ?thesis using quiet new by blast
        next
          case True
          obtain s4 st4 where r: "record_receipt ?v ?rk ?at (target_envelope w) now (t, share ?v t st2) = (s4, st4)"
            by (rule prod.exhaust)
          have "st' = retain_state ?v s4 d st4" "res = Inr (target_envelope w)" "fresh = Inr (target_envelope w)"
            using sp f new Inr None True r by simp_all
          moreover have "receipt_at (os_vaults (retain_state ?v s4 d st4)) key = Some (receipt_for encode w expected (target_envelope w) now)"
            by (simp add: key retain_receipt_at record_receipt_at [OF r] receipt_for_def)
          moreover have "receipt_at (os_vaults (retain_state ?v s4 d st4)) j = receipt_at (os_vaults st2) j" if "j \<noteq> key" for j
          proof -
            obtain u i where j: "j = (u, i)" by (rule prod.exhaust)
            show ?thesis
              using that by (auto simp: j key retain_receipt_at record_receipt_at(3) [OF r] record_receipt_at(2) [OF r]
                receipt_at_share t_def srec)
          qed
          ultimately show ?thesis using recorded new by blast
        qed
      qed
    qed
  qed
  note courses = this
  have replay: "replayed = (case live_receipt now st key of None \<Rightarrow> Inr None
    | Some rc \<Rightarrow> if rc_attempt rc \<noteq> ?at then Inl Conflict else Inr (Some (rc_response rc)))"
    using rp by (cases "live_receipt now st key") (auto simp: replay_receipt_eq live1 key)
  show ?answer
    using courses replay fresh_def by cases (auto split: option.splits if_splits)
  show ?receipt if "live_receipt now st key = None" "res = Inr x"
    using courses that replay by cases auto
  show ?fades if "j \<noteq> key \<or> live_receipt now st key \<noteq> None \<or> res = Inl e"
    using courses
  proof cases
    case (recorded y)
    then have "j \<noteq> key" using that replay by (auto split: option.splits if_splits)
    then show ?thesis using recorded(5) [of j] fades2 [of j] by (simp add: fades_at_def)
  qed (use fades2 in simp_all)
  show ?clock
    using sp clock_now_Some [OF assms(3)]
    by (auto simp: st2_def st1_def split: sum.splits option.splits if_splits prod.splits dest!: record_receipt_clock)
  show ?same if "live_receipt now st key \<noteq> None"
    using courses that replay same2 by cases (auto split: if_splits)
qed

section \<open>Every receipt has the kind of its scope\<close>

definition fits_scope :: "string \<Rightarrow> storage_envelope \<Rightarrow> bool" where
  "fits_scope scope x \<longleftrightarrow> (if scope = ''metadata'' then (\<exists>m. x = MetadataModel m) else (\<exists>e. x = OpaqueModel e))"

lemma fits_target: "fits_scope (target_scope w) x \<longleftrightarrow> same_kind w x"
  by (cases w) (simp_all add: fits_scope_def)

definition receipts_typed :: "opaque_store \<Rightarrow> bool" where
  "receipts_typed st \<longleftrightarrow> (\<forall>v scope k rc. receipt_at (os_vaults st) (v, (scope, k)) = Some rc \<longrightarrow> fits_scope scope (rc_response rc))"

lemma fresh_answer_kind: "fresh_answer encode l account vault w expected st = Inr x \<Longrightarrow> same_kind w x"
  by (cases w) (auto simp: fresh_answer_def Let_def same_revision_def split: option.splits if_splits sum.splits)

lemma store_put_failed:
  assumes "\<not> (target_fits vault w \<and> require_write_tokens expected k \<and> clock_now r st \<noteq> None)"
  shows "store_put encode l account vault w expected k r st = (Inl InvalidRequest, st)"
  using assms by (cases "clock_now r st") (simp_all add: store_put_def prepare_write_def)

lemma store_put_kind:
  assumes "receipts_typed st" "store_put encode l account vault w expected k r st = (Inr x, st')"
  shows "same_kind w x"
proof -
  obtain now st0 where g: "target_fits vault w" "require_write_tokens expected k" "clock_now r st = Some (now, st0)"
    using assms(2) store_put_failed [of vault w expected k r st] by fastforce
  have "fits_scope (target_scope w) (rc_response rc)" if "live_receipt now st ((account, vault), (target_scope w, k)) = Some rc" for rc
    using assms(1) that unfolding receipts_typed_def live_receipt_Some by blast
  then show ?thesis
    using store_put_answer(1) [OF g assms(2) refl] fresh_answer_kind [of encode l account vault w expected st x]
    by (auto simp: fits_target split: option.splits if_splits)
qed

lemma typed_put:
  assumes "receipts_typed st" "store_put encode l account vault w expected k r st = (res, st')"
  shows "receipts_typed st'"
proof (cases "target_fits vault w \<and> require_write_tokens expected k \<and> clock_now r st \<noteq> None")
  case False
  then have "store_put encode l account vault w expected k r st = (Inl InvalidRequest, st)" by (rule store_put_failed)
  then show ?thesis using assms by simp
next
  case True
  then obtain now st0 where g: "target_fits vault w" "require_write_tokens expected k" "clock_now r st = Some (now, st0)" by auto
  let ?key = "((account, vault), (target_scope w, k))"
  note a = store_put_answer [OF g assms(2) refl]
  show ?thesis
    unfolding receipts_typed_def
  proof (intro allI impI)
    fix v scope i rc assume rc: "receipt_at (os_vaults st') (v, (scope, i)) = Some rc"
    show "fits_scope scope (rc_response rc)"
    proof (cases "(v, (scope, i)) \<noteq> ?key \<or> live_receipt now st ?key \<noteq> None \<or> (\<exists>e. res = Inl e)")
      case True
      then obtain e where "(v, (scope, i)) \<noteq> ?key \<or> live_receipt now st ?key \<noteq> None \<or> res = Inl e" by blast
      then have "fades_at now st st' (v, (scope, i))" by (rule a(3))
      then have "receipt_at (os_vaults st) (v, (scope, i)) = Some rc" using rc by (simp add: fades_at_def)
      then show ?thesis using assms(1) unfolding receipts_typed_def by blast
    next
      case False
      then obtain x where x: "res = Inr x" by (cases res) auto
      have "rc = receipt_for encode w expected x now" using a(2) [of x] False x rc by auto
      moreover have "same_kind w x" using store_put_kind [OF assms(1)] assms(2) x by blast
      ultimately show ?thesis using False by (simp add: receipt_for_def fits_target)
    qed
  qed
qed

lemma typed_perform:
  assumes "receipts_typed st"
  shows "receipts_typed (perform encode l c r st)"
proof (cases c)
  case (Put account vault w expected k)
  obtain res st' where p: "store_put encode l account vault w expected k r st = (res, st')" by (rule prod.exhaust)
  from typed_put [OF assms p] p show ?thesis by (simp only: Put perform_put snd_conv)
next
  case (ListPatches entropy account vault cur n)
  obtain res st' where p: "list_patches entropy account vault cur n r st = (res, st')" by (rule prod.exhaust)
  from list_patches_vaults [OF p] assms p show ?thesis by (simp add: ListPatches receipts_typed_def)
qed

lemma typed_run: "receipts_typed (run_calls encode l cs initial_store)"
proof (rule run_invariant)
  show "receipts_typed initial_store" by (simp add: receipts_typed_def initial_store_def receipt_at_def)
qed (rule typed_perform)

end
