(* ===== verification/StoreHistory.thy ===== *)
theory StoreHistory
  imports StoreCapacity
begin

text \<open>
  The history of a vault: patches form one linear log that only grows, and in every other slot a
  revision that was replaced never returns, so compare-and-set on the revision is compare-and-set
  on the envelope.
\<close>

section \<open>Slots\<close>

datatype slot = MetadataSlot | ObjectSlot string | SnapshotSlot

fun slot_of :: "slot \<Rightarrow> vault_state \<Rightarrow> storage_envelope option" where
  "slot_of MetadataSlot s = map_option MetadataModel (vs_metadata s)"
| "slot_of (ObjectSlot oid) s = map_option OpaqueModel (fmlookup (vs_objects s) oid)"
| "slot_of SnapshotSlot s = map_option OpaqueModel (vs_snapshot s)"

fun slot_revisions :: "slot \<Rightarrow> vault_state \<Rightarrow> string fset" where
  "slot_revisions MetadataSlot s = fmdom (vs_metadata_fps s)"
| "slot_revisions (ObjectSlot oid) s = fmdom (object_history s oid)"
| "slot_revisions SnapshotSlot s = fmdom (vs_snapshot_fps s)"

lemma slot_contents:
  assumes "contents s = contents t"
  shows "slot_of k s = slot_of k t" "slot_revisions k s = slot_revisions k t"
  using assms by (cases k; simp add: contents_iff object_history_def)+

text \<open>A write to a vault either leaves a slot alone or puts an envelope with a new revision in it.\<close>

lemma slot_update:
  assumes "target_admitted w expected s"
  shows "slot_of k (target_update w fp s) = slot_of k s \<and> slot_revisions k (target_update w fp s) = slot_revisions k s
    \<or> (\<exists>x. slot_of k (target_update w fp s) = Some x \<and> se_revision x |\<notin>| slot_revisions k s
        \<and> slot_revisions k (target_update w fp s) = finsert (se_revision x) (slot_revisions k s))"
proof (cases w)
  case (ToObject oid e)
  then show ?thesis using assms by (cases k) (auto simp: object_history_def)
qed (use assms in \<open>cases k; auto simp: object_history_def\<close>)+

text \<open>What has been in a slot: its revision has been recorded, and the revisions recorded only grow.\<close>

definition slot_recorded :: "vault_state \<Rightarrow> bool" where
  "slot_recorded s \<longleftrightarrow> (\<forall>k x. slot_of k s = Some x \<longrightarrow> se_revision x |\<in>| slot_revisions k s)"

text \<open>Between two states of a vault, envelopes that appear in a slot have new revisions.\<close>

definition slot_moves :: "slot \<Rightarrow> vault_state \<Rightarrow> vault_state \<Rightarrow> bool" where
  "slot_moves k s t \<longleftrightarrow> slot_revisions k s |\<subseteq>| slot_revisions k t
     \<and> (slot_of k t = slot_of k s \<or> (\<exists>x. slot_of k t = Some x \<and> se_revision x |\<notin>| slot_revisions k s))"

lemma slot_moves_refl [simp]: "slot_moves k s s"
  by (simp add: slot_moves_def)

lemma slot_moves_trans:
  assumes "slot_moves k s t" "slot_moves k t u"
  shows "slot_moves k s u"
  using assms unfolding slot_moves_def by (metis (no_types, lifting) fsubsetD order.trans)

lemma slot_moves_contents: "contents s' = contents s \<Longrightarrow> contents t' = contents t \<Longrightarrow> slot_moves k s t \<Longrightarrow> slot_moves k s' t'"
  by (simp add: slot_moves_def slot_contents [of s' s] slot_contents [of t' t])

lemma slot_moves_update: "target_admitted w expected s \<Longrightarrow> slot_moves k s (target_update w fp s)"
  using slot_update [of w expected s k fp] by (auto simp: slot_moves_def)

lemma slot_recorded_update:
  assumes "target_admitted w expected s" "slot_recorded s"
  shows "slot_recorded (target_update w fp s)"
  unfolding slot_recorded_def
proof (intro allI impI)
  fix k x assume "slot_of k (target_update w fp s) = Some x"
  then show "se_revision x |\<in>| slot_revisions k (target_update w fp s)"
    using slot_update [OF assms(1), of k fp] assms(2) unfolding slot_recorded_def by fastforce
qed

lemma slot_recorded_contents: "contents s' = contents s \<Longrightarrow> slot_recorded s' = slot_recorded s"
  unfolding slot_recorded_def using slot_contents [of s' s] by simp

section \<open>Patches\<close>

lemma find_append: "find P (xs @ ys) = (case find P xs of None \<Rightarrow> find P ys | Some x \<Rightarrow> Some x)"
  by (induction xs) simp_all

definition linear_log :: "vault_state \<Rightarrow> bool" where
  "linear_log s \<longleftrightarrow> revision_chain None (vs_patches s) \<and> distinct (map revision (vs_patches s))
     \<and> (\<forall>rev. fmlookup (vs_patches_by_revision s) rev = find (\<lambda>e. revision e = rev) (vs_patches s))"

lemma linear_log_contents: "contents s' = contents s \<Longrightarrow> linear_log s' = linear_log s"
  by (simp add: linear_log_def contents_iff)

lemma linear_log_update:
  assumes "linear_log s" "target_admitted w expected s" "same_revision (target_current w s) (target_envelope w) = Inr None"
  shows "linear_log (target_update w fp s)"
proof (cases w)
  case (ToPatches e)
  have new: "fmlookup (vs_patches_by_revision s) (revision e) = None"
  proof (rule ccontr)
    assume "fmlookup (vs_patches_by_revision s) (revision e) \<noteq> None"
    then obtain x where x: "fmlookup (vs_patches_by_revision s) (revision e) = Some x" by auto
    then have "revision x = revision e" using assms(1) by (auto simp: linear_log_def find_Some_iff)
    then show False using assms(3) x by (simp add: ToPatches same_revision_def split: if_splits)
  qed
  then have fresh: "revision e \<notin> revision ` set (vs_patches s)"
    using assms(1) by (auto simp: linear_log_def find_None_iff)
  have "parent_revision e = map_option revision (last_patch s)"
    using assms(2) by (simp add: ToPatches require_parent_cas_def)
  then have "parent_revision e = last_revision (vs_patches s)"
    by (auto simp: last_patch_def last_revision_def)
  then show ?thesis
    using assms(1) fresh new
    by (auto simp: ToPatches linear_log_def revision_chain_snoc find_append last_revision_def split: option.splits)
qed (use assms(1) in \<open>simp_all add: linear_log_def\<close>)

section \<open>Over runs\<close>

text \<open>What every call keeps of a vault, and how a vault changes over a run.\<close>

lemma vault_step:
  assumes "\<And>s t. contents s = contents t \<Longrightarrow> I s = I t" "I (vault_of st v)"
    and "\<And>w expected fp s. I s \<Longrightarrow> target_admitted w expected s
      \<Longrightarrow> same_revision (target_current w s) (target_envelope w) = Inr None \<Longrightarrow> I (target_update w fp s)"
  shows "I (vault_of (perform encode l c r st) v)"
proof (cases rule: perform_cases [where encode = encode and l = l and c = c and r = r and st = st])
  case 1
  then have "contents (vault_of (perform encode l c r st) v) = contents (vault_of st v)"
    unfolding same_contents_def by blast
  then show ?thesis using assms(1,2) by metis
next
  case (2 account vault w expected)
  let ?fp = "sha256 (encode (target_envelope w))"
  have c: "contents (vault_of (perform encode l c r st) v)
      = contents (if v = (account, vault) then target_update w ?fp (vault_of st (account, vault)) else vault_of st v)"
    and adm: "target_admitted w expected (vault_of st (account, vault))"
      "same_revision (target_current w (vault_of st (account, vault))) (target_envelope w) = Inr None"
    using 2 stored_contents unfolding stores_def Let_def by blast+
  have "I (vault_of (perform encode l c r st) v)
      = I (if v = (account, vault) then target_update w ?fp (vault_of st (account, vault)) else vault_of st v)"
    by (rule assms(1) [OF c])
  then show ?thesis using assms(2) assms(3) [OF _ adm] by (cases "v = (account, vault)") simp_all
qed

lemma vault_invariant:
  assumes "\<And>s t. contents s = contents t \<Longrightarrow> I s = I t" "I (vault_of st v)"
    and "\<And>w expected fp s. I s \<Longrightarrow> target_admitted w expected s
      \<Longrightarrow> same_revision (target_current w s) (target_envelope w) = Inr None \<Longrightarrow> I (target_update w fp s)"
  shows "I (vault_of (run_calls encode l cs st) v)"
proof (rule run_invariant [where P = "\<lambda>st. I (vault_of st v)"])
  show "I (vault_of st v)" by (rule assms(2))
next
  fix c r st' assume "I (vault_of st' v)"
  with assms(1) show "I (vault_of (perform encode l c r st') v)" by (rule vault_step [of I]) (assumption, blast intro: assms(3))
qed

lemma vault_of_initial [simp]: "vault_of initial_store v = empty_vault"
  by (simp add: vault_of_def initial_store_def)

lemma linear_log_run: "linear_log (vault_of (run_calls encode l cs initial_store) v)"
proof (rule vault_invariant)
  show "linear_log (vault_of initial_store v)" by (simp add: linear_log_def empty_vault_def)
qed (use linear_log_contents linear_log_update in blast)+

lemma slot_recorded_run: "slot_recorded (vault_of (run_calls encode l cs initial_store) v)"
proof (rule vault_invariant)
  have "slot_of k empty_vault = None" for k by (cases k) (simp_all add: empty_vault_def)
  then show "slot_recorded (vault_of initial_store v)" by (simp add: slot_recorded_def)
qed (use slot_recorded_contents slot_recorded_update in blast)+

lemma slot_moves_run: "slot_moves k (vault_of st v) (vault_of (run_calls encode l cs st) v)"
proof (rule vault_invariant)
  show "slot_moves k (vault_of st v) (vault_of st v)" by simp
qed (use slot_moves_contents [OF refl] slot_moves_trans slot_moves_update in metis)+

lemma patches_grow_run: "\<exists>more. vs_patches (vault_of (run_calls encode l cs st) v) = vs_patches (vault_of st v) @ more"
proof (rule vault_invariant)
  fix w expected fp and s :: vault_state
  assume "\<exists>more. vs_patches s = vs_patches (vault_of st v) @ more"
  then show "\<exists>more. vs_patches (target_update w fp s) = vs_patches (vault_of st v) @ more" by (cases w) auto
qed (auto simp: contents_iff)

end
