(* ===== verification/StoreProperties.thy ===== *)
theory StoreProperties
  imports StoreReceipts StoreHistory
begin

text \<open>What the opaque store promises to a client that writes: answers, retries and error atomicity.\<close>

section \<open>A run\<close>

definition sample_snapshot :: envelope where
  "sample_snapshot = sample_envelope ''x'' ''r1'' None False"

definition sample_put :: call where
  "sample_put = Put ''a'' ''v'' (ToSnapshot sample_snapshot) ''*'' ''k''"

lemma prune_Nil [simp]: "prune n now d [] s = (n, [], s)"
  by (cases n) simp_all

lemmas store_eval = store_put_def prepare_write_def require_write_tokens_def REVISION_MAX_LENGTH_def
  IDEMPOTENCY_KEY_MAX_LENGTH_def header_safe_def byte_val_def clock_now_def observe_def initial_store_def
  prune_expired_receipts_def vault_of_def replay_receipt_def share_def same_revision_def require_parent_cas_def
  require_cas_def Let_def empty_vault_def has_capacity_def capacity_delta_of_def get0_def fcard_fempty
  default_limits_def policy_check_def default_policy_def record_receipt_def retain_state_def heap_push_def

definition sample_list :: call where
  "sample_list = ListPatches (\<lambda>_. []) ''a'' ''v'' None None"

definition sample_store :: opaque_store where
  "sample_store = perform se_revision default_limits sample_put (Finite 0) initial_store"

lemma sample_store_eval:
  "store_put se_revision default_limits ''a'' ''v'' (ToSnapshot sample_snapshot) ''*'' ''k'' (Finite 0) initial_store
    = (Inr (OpaqueModel sample_snapshot), sample_store)"
  "slot_of SnapshotSlot (vault_of sample_store (''a'', ''v'')) = Some (OpaqueModel sample_snapshot)"
  "os_last_clock sample_store = Some 0"
  by (simp_all only: sample_store_def sample_put_def perform_put) (simp_all add: sample_snapshot_def store_eval)

section \<open>Answers\<close>

lemma answer_kind: "receipts_typed st \<Longrightarrow>
  put_target encode l account vault w expected k r st = store_put encode l account vault w expected k r st"
proof -
  assume t: "receipts_typed st"
  obtain res st' where p: "store_put encode l account vault w expected k r st = (res, st')" by (rule prod.exhaust)
  show ?thesis
    using store_put_kind [OF t, of encode l account vault w expected k r _ st'] p
    by (cases res) (simp_all add: put_target_store_put answer_simps expect_kind_def)
qed

lemma store_put_fst:
  "fst (store_put encode l account vault w expected k r st) =
    (if \<not> (target_fits vault w \<and> require_write_tokens expected k) then Inl InvalidRequest
     else case clock_now r st of None \<Rightarrow> Inl InvalidRequest
     | Some (now, _) \<Rightarrow> (case live_receipt now st ((account, vault), (target_scope w, k)) of
         Some rc \<Rightarrow> if rc_attempt rc \<noteq> attempt_of encode w expected then Inl Conflict else Inr (rc_response rc)
       | None \<Rightarrow> fresh_answer encode l account vault w expected st))"
proof (cases "target_fits vault w \<and> require_write_tokens expected k \<and> clock_now r st \<noteq> None")
  case False
  then show ?thesis using store_put_failed [OF False, of encode l account] by (cases "clock_now r st") auto
next
  case True
  then obtain now st0 where g: "target_fits vault w" "require_write_tokens expected k" "clock_now r st = Some (now, st0)" by auto
  from store_put_answer(1) [OF g prod.collapse [symmetric] refl] g show ?thesis by simp
qed

text \<open>C22: the type check of a stored response never fires: on a store the server can reach no write
  answers with a type mismatch, since a receipt of the metadata scope holds metadata and every other
  receipt holds an opaque envelope.\<close>

theorem no_type_mismatch:
  "fst (put_target encode l account vault w expected k r (run_calls encode l cs initial_store)) \<noteq> Inl TypeMismatch"
proof -
  have "fresh_answer encode l account vault w expected st \<noteq> Inl TypeMismatch" for st
    by (auto simp: fresh_answer_def Let_def same_revision_def split: option.splits)
  then show ?thesis
    unfolding answer_kind [OF typed_run] store_put_fst by (auto split: option.splits)
qed

text \<open>C19: what a write answers.  Bad tokens, a path that does not fit or a clock that is not accepted are
  an invalid request.  A live receipt of the key repeats its response to the same request and is a
  conflict for another one.  Without one the answer depends on the contents of the vault alone: the
  stored envelope if it is the one sent, a conflict if its revision is known or the expected
  revision or the parent is wrong, a refusal if a limit would be exceeded, and else the envelope
  itself.  An answer that is an error leaves all contents and counters as they were.\<close>

theorem write_answer:
  "let st = run_calls encode l cs initial_store; p = put_target encode l account vault w expected k r st in
   fst p = (if \<not> (target_fits vault w \<and> require_write_tokens expected k) then Inl InvalidRequest
     else case clock_now r st of None \<Rightarrow> Inl InvalidRequest
     | Some (now, _) \<Rightarrow> (case live_receipt now st ((account, vault), (target_scope w, k)) of
         Some rc \<Rightarrow> if rc_attempt rc \<noteq> attempt_of encode w expected then Inl Conflict else Inr (rc_response rc)
       | None \<Rightarrow> fresh_answer encode l account vault w expected st))
   \<and> ((\<exists>x. fst p = Inr x) \<or> same_contents st (snd p))"
proof -
  let ?st = "run_calls encode l cs initial_store"
  obtain res st' where p: "store_put encode l account vault w expected k r ?st = (res, st')" by (rule prod.exhaust)
  have "same_contents ?st st' \<or> (\<exists>x. res = Inr x)"
    using store_put_effect [OF p] unchanged_same unfolding Let_def by blast
  then show ?thesis
    unfolding Let_def answer_kind [OF typed_run] using p store_put_fst [of encode l account vault w expected k r ?st] by auto
qed

section \<open>Properties\<close>

text \<open>C17: the patches of a vault are one linear history.  Whatever calls are made, the first patch has no
  parent, every other patch names the one before it as its parent, no revision occurs twice, and
  what has been appended stays: later calls only add patches at the end.\<close>

theorem patch_log_linear:
  "let log = vs_patches (vault_of (run_calls encode l cs initial_store) v);
       later = vs_patches (vault_of (run_calls encode l (cs @ ds) initial_store) v)
   in revision_chain None log \<and> distinct (map revision log) \<and> take (length log) later = log"
  using linear_log_run [of encode l cs v] patches_grow_run [of encode l ds "run_calls encode l cs initial_store" v]
  by (auto simp: Let_def linear_log_def run_calls_append)

text \<open>C18: no lost update.  In the metadata, in each object and in the snapshot of a vault a revision that
  has been replaced never comes back: if the envelopes found at two moments have the same revision,
  they are the same envelope and it has been there all the time between.  So a write whose expected
  revision matches replaces exactly the envelope the client has read.\<close>

theorem no_lost_update:
  assumes "slot_of k (vault_of (run_calls encode l cs initial_store) v) = Some x"
    and "slot_of k (vault_of (run_calls encode l (cs @ ds @ es) initial_store) v) = Some y"
    and "se_revision x = se_revision y"
  shows "x = y \<and> slot_of k (vault_of (run_calls encode l (cs @ ds) initial_store) v) = Some x"
proof -
  let ?s = "vault_of (run_calls encode l cs initial_store) v" and ?t = "vault_of (run_calls encode l (cs @ ds) initial_store) v"
    and ?u = "vault_of (run_calls encode l (cs @ ds @ es) initial_store) v"
  have st: "slot_moves k ?s ?t" using slot_moves_run by (simp add: run_calls_append)
  have tu: "slot_moves k ?t ?u" using slot_moves_run by (simp add: run_calls_append)
  have old: "se_revision x |\<in>| slot_revisions k ?s"
    using slot_recorded_run assms(1) unfolding slot_recorded_def by blast
  have grown: "slot_revisions k ?s |\<subseteq>| slot_revisions k ?t" using st by (simp add: slot_moves_def)
  have "slot_of k ?u = slot_of k ?t"
    using tu assms(2,3) old grown unfolding slot_moves_def by (metis fsubsetD option.inject)
  moreover from this have "slot_of k ?t = slot_of k ?s"
    using st assms(2,3) old unfolding slot_moves_def by (metis option.inject)
  ultimately show ?thesis using assms(1,2) by simp
qed

theorem no_lost_update_witness:
  "slot_of SnapshotSlot (vault_of (run_calls se_revision default_limits ([(sample_put, Finite 0)] @ [(sample_list, Finite 1)])
     initial_store) (''a'', ''v'')) = Some (OpaqueModel sample_snapshot)"
proof (rule no_lost_update [where es = "[]", THEN conjunct2])
  show a: "slot_of SnapshotSlot (vault_of (run_calls se_revision default_limits [(sample_put, Finite 0)] initial_store) (''a'', ''v''))
      = Some (OpaqueModel sample_snapshot)"
    by (simp only: run_calls.simps sample_store_def [symmetric] sample_store_eval(2))
  show "slot_of SnapshotSlot (vault_of (run_calls se_revision default_limits ([(sample_put, Finite 0)] @ [(sample_list, Finite 1)] @ [])
      initial_store) (''a'', ''v'')) = Some (OpaqueModel sample_snapshot)"
    unfolding append_assoc [symmetric] run_calls_append append_Nil2
    using slot_contents(1) [OF same_contents_vault [OF list_same]] a
    by (simp add: sample_list_def)
qed (rule refl)

section \<open>Retries\<close>

text \<open>A receipt stays until its time has passed.\<close>

lemma receipt_kept:
  assumes "receipt_at (os_vaults st) key = Some rc \<or> passed (rc_expires_at rc) st"
  shows "receipt_at (os_vaults (perform encode l c r st)) key = Some rc \<or> passed (rc_expires_at rc) (perform encode l c r st)"
proof (cases "passed (rc_expires_at rc) st \<or> passed (rc_expires_at rc) (perform encode l c r st)")
  case True
  then show ?thesis using passed_perform by blast
next
  case False
  then have at: "receipt_at (os_vaults st) key = Some rc" using assms by blast
  show ?thesis
  proof (cases c)
    case (Put account vault w expected k)
    obtain res st' where p: "store_put encode l account vault w expected k r st = (res, st')" by (rule prod.exhaust)
    then have st': "perform encode l c r st = st'" by (simp only: Put perform_put snd_conv)
    have "receipt_at (os_vaults st') key = Some rc"
    proof (cases "target_fits vault w \<and> require_write_tokens expected k \<and> clock_now r st \<noteq> None")
      case False
      then have "st' = st" using store_put_failed [OF False, of encode l account] p by simp
      then show ?thesis using at by simp
    next
      case True
      then obtain now st0 where g: "target_fits vault w" "require_write_tokens expected k" "clock_now r st = Some (now, st0)" by auto
      have "passed now st'" using store_put_answer(5) [OF g p refl] by (simp add: passed_def)
      then have "now < rc_expires_at rc" using False st' by (auto simp: passed_def not_le)
      then have live: "live_receipt now st key = Some rc" using at by (simp add: live_receipt_Some)
      then have "fades_at now st st' key"
        using store_put_answer(3) [OF g p refl, of key] by (cases "key = ((account, vault), (target_scope w, k))") auto
      then show ?thesis using live at by (simp add: fades_at_def)
    qed
    then show ?thesis using st' by simp
  next
    case (ListPatches entropy account vault cur n)
    obtain res st' where p: "list_patches entropy account vault cur n r st = (res, st')" by (rule prod.exhaust)
    from list_patches_vaults [OF p] at p show ?thesis by (simp add: ListPatches)
  qed
qed

lemma receipt_kept_run:
  assumes "receipt_at (os_vaults st) key = Some rc"
  shows "receipt_at (os_vaults (run_calls encode l ds st)) key = Some rc \<or> passed (rc_expires_at rc) (run_calls encode l ds st)"
  by (rule run_invariant [where P = "\<lambda>st. receipt_at (os_vaults st) key = Some rc \<or> passed (rc_expires_at rc) st"])
    (use assms receipt_kept in blast)+

text \<open>C20: retries are idempotent.  A request answered under a key that had no live receipt is answered the
  same way when it is sent again before 600 seconds have passed, whatever other calls come between
  (even ones that replace the envelope), and the retry changes no contents and no counter.\<close>

theorem retry_is_idempotent:
  assumes "put_target encode l account vault w expected k (Finite t) (run_calls encode l cs initial_store) = (Inr x, st1)"
    and "live_receipt t (run_calls encode l cs initial_store) ((account, vault), (target_scope w, k)) = None"
    and "clock_now (Finite t') (run_calls encode l ds st1) \<noteq> None" "t' < t + 600"
  shows "let st2 = run_calls encode l ds st1; p = put_target encode l account vault w expected k (Finite t') st2
    in fst p = Inr x \<and> same_contents st2 (snd p)"
proof -
  let ?st = "run_calls encode l cs initial_store" and ?key = "((account, vault), (target_scope w, k))"
  let ?st2 = "run_calls encode l ds st1"
  have put: "store_put encode l account vault w expected k (Finite t) ?st = (Inr x, st1)"
    using assms(1) by (simp only: answer_kind [OF typed_run])
  then obtain now st0 where g: "target_fits vault w" "require_write_tokens expected k" "clock_now (Finite t) ?st = Some (now, st0)"
    using store_put_failed [of vault w expected k "Finite t" ?st encode l account] by fastforce
  then have "now = t" by (auto simp: clock_now_def observe_Some split: option.splits)
  then have r1: "receipt_at (os_vaults st1) ?key = Some (receipt_for encode w expected x t)"
    using store_put_answer(2) [OF g put refl] assms(2) by simp
  have exp: "rc_expires_at (receipt_for encode w expected x t) = t + 600"
    by (simp add: receipt_for_def IDEMPOTENCY_RECEIPT_LIFETIME_SECONDS_def)
  obtain st0' where g': "clock_now (Finite t') ?st2 = Some (t', st0')"
    using assms(3) by (auto simp: clock_now_def observe_Some split: option.splits)
  have r2: "receipt_at (os_vaults ?st2) ?key = Some (receipt_for encode w expected x t)"
    using receipt_kept_run [OF r1, of encode l ds] clock_not_passed [OF g', of "t + 600"] assms(4) exp by auto
  have live: "live_receipt t' ?st2 ?key = Some (receipt_for encode w expected x t)"
    using r2 exp assms(4) by (simp add: live_receipt_Some)
  have typed: "receipts_typed ?st2"
  proof (rule run_invariant)
    show "receipts_typed st1" by (rule typed_put [OF typed_run put])
  qed (rule typed_perform)
  obtain res st3 where p: "store_put encode l account vault w expected k (Finite t') ?st2 = (res, st3)" by (rule prod.exhaust)
  have "res = Inr x"
    using store_put_answer(1) [OF g(1,2) g' p refl] live by (simp add: receipt_for_def)
  moreover have "same_contents ?st2 st3"
    by (rule store_put_answer(4) [OF g(1,2) g' p refl]) (simp add: live)
  ultimately show ?thesis by (simp add: Let_def answer_kind [OF typed] p)
qed

theorem retry_is_idempotent_witness:
  "let st2 = run_calls se_revision default_limits [(sample_list, Finite 1)] sample_store;
       p = put_target se_revision default_limits ''a'' ''v'' (ToSnapshot sample_snapshot) ''*'' ''k'' (Finite 599) st2
   in fst p = Inr (OpaqueModel sample_snapshot) \<and> same_contents st2 (snd p)"
proof (rule retry_is_idempotent [where cs = "[]" and t = 0])
  show "put_target se_revision default_limits ''a'' ''v'' (ToSnapshot sample_snapshot) ''*'' ''k'' (Finite 0)
      (run_calls se_revision default_limits [] initial_store) = (Inr (OpaqueModel sample_snapshot), sample_store)"
    unfolding run_calls.simps put_target_store_put sample_store_eval by (simp add: answer_simps expect_kind_def)
  show "live_receipt 0 (run_calls se_revision default_limits [] initial_store)
      ((''a'', ''v''), (target_scope (ToSnapshot sample_snapshot), ''k'')) = None"
    by (simp add: live_receipt_def receipt_at_def initial_store_def)
  have "clock_now (Finite 1) sample_store = Some (1, sample_store\<lparr>os_last_clock := Some 1\<rparr>)"
    by (simp add: clock_now_def observe_def sample_store_eval)
  then have "os_last_clock (run_calls se_revision default_limits [(sample_list, Finite 1)] sample_store) = Some 1"
    unfolding run_calls.simps sample_list_def perform.simps by (rule list_clock [OF prod.collapse [symmetric]])
  then show "clock_now (Finite 599) (run_calls se_revision default_limits [(sample_list, Finite 1)] sample_store) \<noteq> None"
    by (auto simp: clock_now_def observe_def split: option.splits)
qed auto

end
