(* ===== verification/StorePages.thy ===== *)
theory StorePages
  imports StoreProperties
begin

text \<open>
  Cursors over the patches of a vault: what the table of cursors keeps, and that following cursors
  yields exactly the patches there were at the first call.
\<close>

interpretation cursors: expiring fmlookup drop_cursor cu_expires_at
  by unfold_locales (auto simp: drop_cursor_def split: option.splits)

section \<open>The table of cursors\<close>

text \<open>A cursor and the one handed out with its page.\<close>

definition follows :: "cursor_record \<Rightarrow> cursor_record \<Rightarrow> bool" where
  "follows c d \<longleftrightarrow> cu_account d = cu_account c \<and> cu_vault d = cu_vault c
     \<and> cu_start d = min (cu_start c + nat (cu_page_size c)) (cu_end c) \<and> cu_end d = cu_end c
     \<and> cu_page_size d = cu_page_size c \<and> cu_expires_at c \<le> cu_expires_at d"

definition cursor_ok :: "rat \<Rightarrow> (vault_key \<Rightarrow> nat) \<Rightarrow> (string, cursor_record) fmap \<Rightarrow> cursor_record \<Rightarrow> bool" where
  "cursor_ok now len m c \<longleftrightarrow> cu_start c < cu_end c \<and> cu_end c \<le> len (cu_account c, cu_vault c)
     \<and> 1 \<le> cu_page_size c \<and> cu_page_size c \<le> MAX_PAGE_SIZE \<and> cu_expires_at c \<le> now + CURSOR_LIFETIME_SECONDS
     \<and> (\<forall>n. cu_next c = Some n \<longrightarrow> cu_expires_at c \<le> now \<or> (\<exists>d. fmlookup m n = Some d \<and> follows c d))"

definition cursors_at :: "rat \<Rightarrow> (vault_key \<Rightarrow> nat) \<Rightarrow> (string, cursor_record) fmap \<Rightarrow> bool" where
  "cursors_at now len m \<longleftrightarrow> (\<forall>k c. fmlookup m k = Some c \<longrightarrow> cursor_ok now len m c)"

lemma cursors_at_empty [simp]: "cursors_at now len fmempty"
  by (simp add: cursors_at_def)

lemma cursors_at_mono:
  assumes "cursors_at now len m" "now \<le> now'" "\<And>v. len v \<le> len' v"
  shows "cursors_at now' len' m"
  using assms(1) unfolding cursors_at_def cursor_ok_def
  by (smt (verit, ccfv_threshold) assms(2,3) add_right_mono order.trans)

lemma cursors_at_drop:
  assumes "cursors_at now len m"
    and "\<And>k. fmlookup m' k = fmlookup m k \<or> fmlookup m' k = None \<and> (\<exists>c. fmlookup m k = Some c \<and> cu_expires_at c \<le> now)"
  shows "cursors_at now len m'"
  unfolding cursors_at_def
proof (intro allI impI)
  fix k c assume "fmlookup m' k = Some c"
  then have "fmlookup m k = Some c" using assms(2) [of k] by auto
  then have c: "cursor_ok now len m c" using assms(1) by (simp add: cursors_at_def)
  have "cu_expires_at c \<le> now \<or> (\<exists>d. fmlookup m' n = Some d \<and> follows c d)" if "cu_next c = Some n" for n
  proof -
    have "cu_expires_at c \<le> now \<or> (\<exists>d. fmlookup m n = Some d \<and> follows c d)"
      using c that by (simp add: cursor_ok_def)
    then show ?thesis using assms(2) [of n] by (auto simp: follows_def)
  qed
  then show "cursor_ok now len m' c" using c by (simp add: cursor_ok_def)
qed

lemma cursors_at_add:
  assumes "cursors_at now len m" "k |\<notin>| fmdom m" "cursor_ok now len m c"
  shows "cursors_at now len (fmupd k c m)"
proof -
  have "cursor_ok now len (fmupd k c m) d" if "cursor_ok now len m d" for d
    using that assms(2) unfolding cursor_ok_def by (auto simp: fmdom_notD)
  then show ?thesis using assms(1,3) by (auto simp: cursors_at_def)
qed

lemma cursors_at_link:
  assumes "cursors_at now len m" "fmlookup m k = Some c" "fmlookup m n = Some d" "follows c d"
  shows "cursors_at now len (fmupd k (c\<lparr>cu_next := Some n\<rparr>) m)"
proof -
  let ?c = "c\<lparr>cu_next := Some n\<rparr>"
  have f: "follows a ?c \<longleftrightarrow> follows a c" "follows ?c a \<longleftrightarrow> follows c a" for a
    by (simp_all add: follows_def)
  have "cursor_ok now len (fmupd k ?c m) a" if "cursor_ok now len m a" for a
    using that assms(2) unfolding cursor_ok_def by (auto simp: f)
  moreover have "cursor_ok now len (fmupd k ?c m) ?c"
  proof -
    have "cursor_ok now len m c" using assms(1,2) by (simp add: cursors_at_def)
    moreover have "\<exists>e. fmlookup (fmupd k ?c m) n = Some e \<and> follows ?c e"
      using assms(2-4) by (cases "n = k") (auto simp: follows_def)
    ultimately show ?thesis by (simp add: cursor_ok_def)
  qed
  ultimately show ?thesis using assms(1) by (simp add: cursors_at_def)
qed

section \<open>Serving a page\<close>

lemma fresh_token_new: "fresh_token bs m = Inr token \<Longrightarrow> token |\<notin>| fmdom m"
  by (induction bs m rule: fresh_token.induct) (auto simp: Let_def split: if_splits)

definition page_stop :: "cursor_record \<Rightarrow> nat" where
  "page_stop c = min (cu_start c + nat (cu_page_size c)) (cu_end c)"

definition slice :: "nat \<Rightarrow> nat \<Rightarrow> 'a list \<Rightarrow> 'a list" where
  "slice i j xs = take (j - i) (drop i xs)"

text \<open>The table after a page: the cursors there were, up to their links, and the one handed out.\<close>

definition same_cursor :: "cursor_record \<Rightarrow> cursor_record \<Rightarrow> bool" where
  "same_cursor c d \<longleftrightarrow> (\<exists>n. d = c\<lparr>cu_next := n\<rparr>)"

lemma same_cursor_refl [simp]: "same_cursor c c"
  unfolding same_cursor_def by (rule exI [of _ "cu_next c"]) simp

lemma same_cursor_fields: "same_cursor c d \<Longrightarrow> cu_account d = cu_account c \<and> cu_vault d = cu_vault c \<and> cu_start d = cu_start c
   \<and> cu_end d = cu_end c \<and> cu_page_size d = cu_page_size c \<and> cu_expires_at d = cu_expires_at c"
  by (auto simp: same_cursor_def)

lemma same_cursor_trans: "same_cursor c d \<Longrightarrow> same_cursor d e \<Longrightarrow> same_cursor c e"
  by (auto simp: same_cursor_def)

lemma new_cursor_effect:
  assumes "new_cursor entropy v i j n now st = (Inr token, st')"
  shows "token |\<notin>| fmdom (os_cursors st) \<and> os_cursors st' = fmupd token \<lparr>cu_account = fst v, cu_vault = snd v, cu_start = i,
     cu_end = j, cu_page_size = n, cu_expires_at = now + CURSOR_LIFETIME_SECONDS, cu_next = None\<rparr> (os_cursors st)"
  using assms by (auto simp: new_cursor_def Let_def dest: fresh_token_new split: sum.splits)

lemma new_cursor_failed: "new_cursor entropy v i j n now st = (Inl e, st') \<Longrightarrow> st' = st"
  by (auto simp: new_cursor_def Let_def split: sum.splits)

definition cursor_for :: "vault_key \<Rightarrow> nat \<Rightarrow> nat \<Rightarrow> int \<Rightarrow> cursor_record \<Rightarrow> bool" where
  "cursor_for v i j n d \<longleftrightarrow> cu_account d = fst v \<and> cu_vault d = snd v \<and> cu_start d = i \<and> cu_end d = j \<and> cu_page_size d = n"

definition keeps_cursors :: "(string, cursor_record) fmap \<Rightarrow> (string, cursor_record) fmap \<Rightarrow> bool" where
  "keeps_cursors m m' \<longleftrightarrow> (\<forall>k c. fmlookup m k = Some c \<longrightarrow> (\<exists>d. fmlookup m' k = Some d \<and> same_cursor c d))"

lemma keeps_refl [simp]: "keeps_cursors m m"
  by (auto simp: keeps_cursors_def)

lemma keeps_upd: "k |\<notin>| fmdom m \<Longrightarrow> keeps_cursors m (fmupd k c m)"
  by (auto simp: keeps_cursors_def fmdom_notD)

lemma keeps_link: "fmlookup m k = Some c \<Longrightarrow> keeps_cursors m (fmupd k (c\<lparr>cu_next := n\<rparr>) m)"
  by (auto simp: keeps_cursors_def same_cursor_def) (metis same_cursor_def same_cursor_refl)

lemma keeps_trans: "keeps_cursors m m' \<Longrightarrow> keeps_cursors m' m'' \<Longrightarrow> keeps_cursors m m''"
  unfolding keeps_cursors_def using same_cursor_trans by blast

definition page_done :: "rat \<Rightarrow> (vault_key \<Rightarrow> nat) \<Rightarrow> vault_key \<Rightarrow> nat \<Rightarrow> nat \<Rightarrow> int \<Rightarrow> string option
    \<Rightarrow> (string, cursor_record) fmap \<Rightarrow> (string, cursor_record) fmap \<Rightarrow> bool" where
  "page_done now len v stop j n nxt m m' \<longleftrightarrow> cursors_at now len m' \<and> keeps_cursors m m'
     \<and> (case nxt of None \<Rightarrow> stop = j | Some k \<Rightarrow> stop < j \<and> (\<exists>d. fmlookup m' k = Some d \<and> cursor_for v stop j n d))"

lemma new_cursor_done:
  assumes "new_cursor entropy v stop j n now st = (Inr token, st')" "cursors_at now len (os_cursors st)"
    and "stop < j" "j \<le> len v" "1 \<le> n" "n \<le> MAX_PAGE_SIZE"
  shows "page_done now len v stop j n (Some token) (os_cursors st) (os_cursors st')"
proof -
  note e = new_cursor_effect [OF assms(1)]
  let ?c = "\<lparr>cu_account = fst v, cu_vault = snd v, cu_start = stop, cu_end = j, cu_page_size = n,
    cu_expires_at = now + CURSOR_LIFETIME_SECONDS, cu_next = None\<rparr>"
  have "cursor_ok now len (os_cursors st) ?c" using assms(3-6) by (simp add: cursor_ok_def)
  then have "cursors_at now len (os_cursors st')" using e cursors_at_add [OF assms(2)] by simp
  then show ?thesis using e keeps_upd assms(3) by (simp add: page_done_def cursor_for_def)
qed

lemma page_of_effect:
  assumes "page_of entropy v patches i j n rec_in now st = (res, st')" "cursors_at now len (os_cursors st)"
    and "i \<le> j" "j \<le> length patches" "length patches \<le> len v" "1 \<le> n" "n \<le> MAX_PAGE_SIZE"
    and rec_in: "\<And>token c. rec_in = Some (token, c) \<Longrightarrow> fmlookup (os_cursors st) token = Some c \<and> cursor_for v i j n c \<and> now < cu_expires_at c"
  defines "stop \<equiv> min (i + nat n) j"
  shows "case res of Inl e \<Rightarrow> st' = st
    | Inr (objs, nxt) \<Rightarrow> objs = slice i stop patches \<and> page_done now len v stop j n nxt (os_cursors st) (os_cursors st')"
proof -
  have guard: "(\<not> (1 \<le> n \<and> n \<le> MAX_PAGE_SIZE) \<or> \<not> (i \<le> j \<and> j \<le> length patches)) = False"
    using assms(3,4,6,7) by simp
  have page: "page_of entropy v patches i j n rec_in now st =
      (if stop < j then
        (case rec_in of
          Some (token, c) \<Rightarrow> (case cu_next c of
             Some next_token \<Rightarrow> (Inr (slice i stop patches, Some next_token), st)
           | None \<Rightarrow> (case new_cursor entropy v stop j n now st of
               (Inl e, st1) \<Rightarrow> (Inl e, st1)
             | (Inr next_token, st1) \<Rightarrow> (Inr (slice i stop patches, Some next_token),
                 st1\<lparr>os_cursors := fmupd token (c\<lparr>cu_next := Some next_token\<rparr>) (os_cursors st1)\<rparr>)))
        | None \<Rightarrow> (case new_cursor entropy v stop j n now st of
             (Inl e, st1) \<Rightarrow> (Inl e, st1)
           | (Inr next_token, st1) \<Rightarrow> (Inr (slice i stop patches, Some next_token), st1)))
       else (Inr (slice i stop patches, None), st))"
    by (simp only: page_of_def guard if_False Let_def slice_def stop_def)
  have j: "j \<le> len v" using assms(4,5) by simp
  show ?thesis
  proof (cases "stop < j")
    case False
    then show ?thesis using assms(1,2) page by (auto simp: page_done_def stop_def)
  next
    case more: True
    obtain nres st1 where nc: "new_cursor entropy v stop j n now st = (nres, st1)" by (rule prod.exhaust)
    show ?thesis
    proof (cases rec_in)
      case None
      then show ?thesis
        using assms(1) page more nc new_cursor_failed [of entropy v stop j n now st] new_cursor_done [OF _ assms(2) more j assms(6,7)]
        by (cases nres) auto
    next
      case (Some p)
      obtain token c where p: "p = (token, c)" by (cases p)
      have c: "fmlookup (os_cursors st) token = Some c" "cursor_for v i j n c" "now < cu_expires_at c"
        using rec_in Some p by auto
      have cok: "cursor_ok now len (os_cursors st) c" using assms(2) c(1) by (simp add: cursors_at_def)
      show ?thesis
      proof (cases "cu_next c")
        case next_known: (Some k)
        then obtain d where "fmlookup (os_cursors st) k = Some d" "follows c d"
          using cok c(3) by (auto simp: cursor_ok_def)
        then have "page_done now len v stop j n (Some k) (os_cursors st) (os_cursors st)"
          using assms(2) c(2) more by (simp add: page_done_def cursor_for_def follows_def stop_def)
        then show ?thesis using assms(1) page more Some p next_known by auto
      next
        case None
        show ?thesis
        proof (cases nres)
          case (Inl e)
          then show ?thesis using assms(1) page more Some p None nc new_cursor_failed [of entropy v stop j n now st] by auto
        next
          case (Inr k)
          let ?m = "fmupd token (c\<lparr>cu_next := Some k\<rparr>) (os_cursors st1)"
          have served: "page_done now len v stop j n (Some k) (os_cursors st) (os_cursors st1)"
            using new_cursor_done [OF _ assms(2) more j assms(6,7)] nc Inr by simp
          note e = new_cursor_effect [OF nc [unfolded Inr]]
          have c1: "fmlookup (os_cursors st1) token = Some c" using e c(1) by (auto simp: fmdom_notD)
          obtain d where d: "fmlookup (os_cursors st1) k = Some d" "cursor_for v stop j n d"
            "cu_expires_at d = now + CURSOR_LIFETIME_SECONDS"
            using e by (simp add: cursor_for_def)
          have "follows c d" using d c(2) cok by (simp add: follows_def cursor_for_def stop_def cursor_ok_def)
          then have "cursors_at now len ?m"
            using served cursors_at_link [OF _ c1 d(1)] by (simp add: page_done_def)
          moreover have "keeps_cursors (os_cursors st) ?m"
            using served keeps_trans [OF _ keeps_link [OF c1]] by (simp add: page_done_def)
          moreover have "\<exists>d. fmlookup ?m k = Some d \<and> cursor_for v stop j n d"
            using d c1 by (cases "k = token") (auto simp: cursor_for_def)
          ultimately have "page_done now len v stop j n (Some k) (os_cursors st) ?m" using more by (simp add: page_done_def)
          then show ?thesis using assms(1) page more Some p None nc Inr by auto
        qed
      qed
    qed
  qed
qed

section \<open>Listing patches\<close>

definition patch_count :: "opaque_store \<Rightarrow> vault_key \<Rightarrow> nat" where
  "patch_count st v = length (vs_patches (vault_of st v))"

definition cursors_ok :: "opaque_store \<Rightarrow> bool" where
  "cursors_ok st \<longleftrightarrow> (case os_last_clock st of None \<Rightarrow> os_cursors st = fmempty
     | Some now \<Rightarrow> cursors_at now (patch_count st) (os_cursors st))"

lemma cursors_okI: "os_last_clock st = Some now \<Longrightarrow> cursors_at now (patch_count st) (os_cursors st) \<Longrightarrow> cursors_ok st"
  by (simp add: cursors_ok_def)

lemma cursors_ok_at:
  assumes "cursors_ok st" "clock_now r st = Some (now, st0)" "\<And>v. patch_count st v \<le> len v"
  shows "cursors_at now len (os_cursors st)"
  using assms cursors_at_mono [of _ "patch_count st" "os_cursors st" now len]
  by (auto simp: cursors_ok_def clock_now_def observe_Some split: option.splits)

lemma prune_cursors_look:
  "fmlookup (os_cursors (prune_expired_cursors now st)) k = fmlookup (os_cursors st) k
    \<or> fmlookup (os_cursors (prune_expired_cursors now st)) k = None
      \<and> (\<exists>c. fmlookup (os_cursors st) k = Some c \<and> cu_expires_at c \<le> now)"
proof -
  obtain n h m where p: "prune MAX_CURSOR_PRUNE_PER_LIST now (drop_cursor now) (os_cursor_expiries st) (os_cursors st) = (n, h, m)"
    by (rule prod_cases3)
  show ?thesis using cursors.prune_look [OF p, of k] by (simp add: prune_expired_cursors_def p)
qed

definition fades_cursors :: "rat \<Rightarrow> opaque_store \<Rightarrow> opaque_store \<Rightarrow> bool" where
  "fades_cursors now st st' \<longleftrightarrow> (\<forall>k c. fmlookup (os_cursors st) k = Some c \<longrightarrow> now < cu_expires_at c \<longrightarrow>
     (\<exists>d. fmlookup (os_cursors st') k = Some d \<and> same_cursor c d))"

text \<open>A page that has been served: what it holds and the cursor that comes with it.\<close>

definition page_served :: "string option \<Rightarrow> vault_key \<Rightarrow> rat \<Rightarrow> opaque_store \<Rightarrow> page \<Rightarrow> opaque_store \<Rightarrow> bool" where
  "page_served cursor_in v now st p st' \<longleftrightarrow> (\<exists>i j n. 1 \<le> n \<and> fst p = slice i (min (i + nat n) j) (vs_patches (vault_of st v))
     \<and> (case cursor_in of None \<Rightarrow> i = 0 \<and> j = patch_count st v
        | Some k \<Rightarrow> i < j \<and> (\<exists>c. fmlookup (os_cursors st) k = Some c \<and> cursor_for v i j n c \<and> now < cu_expires_at c))
     \<and> (case snd p of None \<Rightarrow> min (i + nat n) j = j
        | Some k \<Rightarrow> min (i + nat n) j < j \<and> (\<exists>d. fmlookup (os_cursors st') k = Some d \<and> cursor_for v (min (i + nat n) j) j n d)))"

lemma list_patches_effect:
  assumes "list_patches entropy account vault cursor_in wanted r st = (res, st')" "clock_now r st = Some (now, st0)" "cursors_ok st"
  shows "cursors_ok st' \<and> fades_cursors now st st'
    \<and> (\<forall>p. res = Inr p \<longrightarrow> page_served cursor_in (account, vault) now st p st')"
proof -
  let ?v = "(account, vault)" and ?len = "patch_count st"
  define st1 where "st1 = prune_expired_cursors now st0"
  have st0: "os_cursors st0 = os_cursors st" "os_vaults st0 = os_vaults st"
    using assms(2) by (auto simp: clock_now_def split: option.splits)
  have vaults1: "os_vaults st1 = os_vaults st" using prune_cursors_vaults [of now st0] st0 by (simp add: st1_def)
  have look1: "fmlookup (os_cursors st1) k = fmlookup (os_cursors st) k
    \<or> fmlookup (os_cursors st1) k = None \<and> (\<exists>c. fmlookup (os_cursors st) k = Some c \<and> cu_expires_at c \<le> now)" for k
    using prune_cursors_look [of now st0 k] by (simp add: st1_def st0)
  have at1: "cursors_at now ?len (os_cursors st1)"
    by (rule cursors_at_drop [OF cursors_ok_at [OF assms(3,2)]]) (use look1 in auto)
  define P where "P = vs_patches (vault_of st ?v)"
  have P: "(case fmlookup (os_vaults st1) ?v of None \<Rightarrow> [] | Some s \<Rightarrow> vs_patches s) = P"
    by (simp add: P_def vault_of_def vaults1 empty_vault_def split: option.split)
  have len: "?len ?v = length P" by (simp add: patch_count_def P_def)
  have clock': "os_last_clock st' = Some now" by (rule list_clock [OF assms(1,2)])
  have vaults': "os_vaults st' = os_vaults st" using list_patches_vaults [OF assms(1)] by simp
  have len': "patch_count st' = ?len" by (rule ext) (simp add: patch_count_def vault_of_def vaults')
  have ok': "cursors_ok st'" if "cursors_at now ?len (os_cursors st')"
    using that clock' len' by (simp add: cursors_ok_def)
  have kept': "fades_cursors now st st'" if "keeps_cursors (os_cursors st1) (os_cursors st')"
    using look1 that unfolding fades_cursors_def keeps_cursors_def by (metis linorder_not_less option.inject)
  have lp: "(res, st') = (case cursor_in of
      None \<Rightarrow> page_of entropy ?v P 0 (length P) (case wanted of None \<Rightarrow> DEFAULT_PAGE_SIZE | Some n \<Rightarrow> if n = 0 then DEFAULT_PAGE_SIZE else n) None now st1
    | Some token \<Rightarrow> (case fmlookup (os_cursors st1) token of None \<Rightarrow> (Inl InvalidRequest, st1)
      | Some c \<Rightarrow> (if cu_expires_at c \<le> now \<or> cu_account c \<noteq> account \<or> cu_vault c \<noteq> vault
            \<or> (\<exists>n \<in> set_option wanted. n \<noteq> cu_page_size c)
          then (Inl InvalidRequest, if cu_expires_at c \<le> now then st1\<lparr>os_cursors := fmdrop token (os_cursors st1)\<rparr> else st1)
          else page_of entropy ?v P (cu_start c) (cu_end c) (cu_page_size c) (Some (token, c)) now st1)))"
    unfolding assms(1) [symmetric]
    by (simp only: list_patches_def assms(2) option.case prod.case Let_def st1_def [symmetric] P)
  have quiet: ?thesis if "st' = st1" "res = Inl e" for e
    using that ok' kept' at1 by simp
  have served: ?thesis
    if pg: "page_of entropy ?v P i j n rec_in now st1 = (res, st')" and ij: "i \<le> j" "j \<le> length P" "1 \<le> n" "n \<le> MAX_PAGE_SIZE"
      and rec_in: "\<And>token c. rec_in = Some (token, c) \<Longrightarrow> fmlookup (os_cursors st1) token = Some c \<and> cursor_for ?v i j n c \<and> now < cu_expires_at c"
      and start: "case cursor_in of None \<Rightarrow> i = 0 \<and> j = length P
        | Some k \<Rightarrow> i < j \<and> (\<exists>c. fmlookup (os_cursors st) k = Some c \<and> cursor_for ?v i j n c \<and> now < cu_expires_at c)"
    for i j n rec_in
  proof -
    note pe = page_of_effect [OF pg at1 ij(1,2) _ ij(3,4) rec_in, unfolded len, simplified]
    show ?thesis
    proof (cases res)
      case (Inl e)
      then show ?thesis using pe quiet by simp
    next
      case (Inr p)
      let ?stop = "min (i + nat n) j"
      have e: "fst p = slice i ?stop P" and d: "page_done now ?len ?v ?stop j n (snd p) (os_cursors st1) (os_cursors st')"
        using pe Inr by (simp_all add: case_prod_unfold)
      have "1 \<le> n \<and> fst p = slice i ?stop (vs_patches (vault_of st ?v))
        \<and> (case cursor_in of None \<Rightarrow> i = 0 \<and> j = ?len ?v
           | Some k \<Rightarrow> i < j \<and> (\<exists>c. fmlookup (os_cursors st) k = Some c \<and> cursor_for ?v i j n c \<and> now < cu_expires_at c))
        \<and> (case snd p of None \<Rightarrow> ?stop = j
           | Some k \<Rightarrow> ?stop < j \<and> (\<exists>d. fmlookup (os_cursors st') k = Some d \<and> cursor_for ?v ?stop j n d))"
        using ij(3) e start d unfolding page_done_def len P_def by blast
      then have "page_served cursor_in ?v now st p st'" unfolding page_served_def by blast
      then show ?thesis using Inr ok' kept' d by (simp add: page_done_def)
    qed
  qed
  show ?thesis
  proof (cases cursor_in)
    case None
    define n where "n = (case wanted of None \<Rightarrow> DEFAULT_PAGE_SIZE | Some n \<Rightarrow> if n = 0 then DEFAULT_PAGE_SIZE else n)"
    have pg: "page_of entropy ?v P 0 (length P) n None now st1 = (res, st')" using lp None by (simp add: n_def)
    show ?thesis
    proof (cases "1 \<le> n \<and> n \<le> MAX_PAGE_SIZE")
      case True
      show ?thesis by (rule served [OF pg]) (use True None in auto)
    next
      case False
      then show ?thesis using pg by (intro quiet [of InvalidRequest]) (auto simp: page_of_def)
    qed
  next
    case (Some token)
    show ?thesis
    proof (cases "fmlookup (os_cursors st1) token")
      case None
      then show ?thesis using lp Some by (intro quiet [of InvalidRequest]) simp_all
    next
      case c: (Some c)
      have cst: "fmlookup (os_cursors st) token = Some c" using look1 [of token] c by auto
      have cok: "cursor_ok now ?len (os_cursors st1) c" using at1 c by (simp add: cursors_at_def)
      show ?thesis
      proof (cases "cu_expires_at c \<le> now \<or> cu_account c \<noteq> account \<or> cu_vault c \<noteq> vault \<or> (\<exists>n \<in> set_option wanted. n \<noteq> cu_page_size c)")
        case False
        then have v: "?v = (cu_account c, cu_vault c)" and live: "now < cu_expires_at c" by auto
        have pg: "page_of entropy ?v P (cu_start c) (cu_end c) (cu_page_size c) (Some (token, c)) now st1 = (res, st')"
          using lp Some c False by simp
        show ?thesis
          by (rule served [OF pg]) (use Some c cst cok v live len in \<open>auto simp: cursor_ok_def cursor_for_def\<close>)
      next
        case bad: True
        show ?thesis
        proof (cases "cu_expires_at c \<le> now")
          case True
          let ?m = "fmdrop token (os_cursors st1)"
          have r: "res = Inl InvalidRequest" "st' = st1\<lparr>os_cursors := ?m\<rparr>" using lp Some c bad True by simp_all
          have "cursors_at now ?len ?m" by (rule cursors_at_drop [OF at1]) (use c True in auto)
          moreover have "fades_cursors now st st'"
            using look1 True c r(2) unfolding fades_cursors_def
            by (auto simp: fmlookup_drop) (metis linorder_not_less option.inject same_cursor_refl)+
          ultimately show ?thesis using r ok' by simp
        next
          case False
          then show ?thesis using lp Some c bad by (intro quiet [of InvalidRequest]) simp_all
        qed
      qed
    qed
  qed
qed

section \<open>Over runs\<close>

lemma put_cursors: "os_cursors (perform encode l (Put account vault w expected k) r st) = os_cursors st"
proof -
  obtain res st' where p: "store_put encode l account vault w expected k r st = (res, st')" by (rule prod.exhaust)
  show ?thesis
    using store_put_effect [OF p] p unfolding Let_def
    by (auto simp: perform_put unchanged_def stored_def simp del: perform.simps)
qed

lemma patch_count_grows: "patch_count st v \<le> patch_count (perform encode l c r st) v"
  using patches_grow_run [of encode l "[(c, r)]" st v] by (auto simp: patch_count_def)

lemma list_refused: "clock_now r st = None \<Longrightarrow> perform encode l (ListPatches entropy account vault cur n) r st = st"
  by (simp add: list_patches_def)

lemma cursors_ok_perform:
  assumes "cursors_ok st"
  shows "cursors_ok (perform encode l c r st)"
proof (cases c)
  case (Put account vault w expected k)
  let ?st = "perform encode l c r st"
  have m: "os_cursors ?st = os_cursors st" by (simp only: Put put_cursors)
  consider "os_last_clock ?st = os_last_clock st" | now st0 where "clock_now r st = Some (now, st0)" "os_last_clock ?st = Some now"
    using perform_clock_cases by blast
  then show ?thesis
  proof cases
    case 1
    show ?thesis
    proof (cases "os_last_clock st")
      case (Some t)
      then have "cursors_at t (patch_count st) (os_cursors st)" using assms by (simp add: cursors_ok_def)
      then have "cursors_at t (patch_count ?st) (os_cursors ?st)"
        unfolding m by (rule cursors_at_mono) (use patch_count_grows in auto)
      then show ?thesis using 1 Some by (simp only: cursors_ok_def option.case)
    qed (use assms 1 m in \<open>simp only: cursors_ok_def option.case\<close>)
  next
    case (2 now st0)
    have "cursors_at now (patch_count ?st) (os_cursors ?st)"
      unfolding m by (rule cursors_ok_at [OF assms 2(1)]) (rule patch_count_grows)
    then show ?thesis by (rule cursors_okI [OF 2(2)])
  qed
next
  case (ListPatches entropy account vault cur n)
  obtain res st' where p: "list_patches entropy account vault cur n r st = (res, st')" by (rule prod.exhaust)
  show ?thesis
  proof (cases "clock_now r st")
    case None
    then show ?thesis using assms by (simp only: ListPatches list_refused)
  next
    case (Some q)
    then obtain now st0 where "clock_now r st = Some (now, st0)" by (cases q) auto
    from list_patches_effect [OF p this assms] p show ?thesis by (simp add: ListPatches)
  qed
qed

lemma cursors_ok_initial: "cursors_ok initial_store"
  by (simp add: cursors_ok_def initial_store_def)

lemma cursors_ok_run: "cursors_ok st \<Longrightarrow> cursors_ok (run_calls encode l cs st)"
  by (rule run_invariant) (use cursors_ok_perform in blast)+

text \<open>A cursor stays until its time has passed.\<close>

lemma cursor_kept:
  assumes "cursors_ok st" "fmlookup (os_cursors st) k = Some c"
  shows "(\<exists>d. fmlookup (os_cursors (perform encode l x r st)) k = Some d \<and> same_cursor c d)
    \<or> passed (cu_expires_at c) (perform encode l x r st)"
proof (cases x)
  case (Put account vault w expected k')
  then show ?thesis using assms(2) put_cursors same_cursor_refl by metis
next
  case (ListPatches entropy account vault cur n)
  obtain res st' where p: "list_patches entropy account vault cur n r st = (res, st')" by (rule prod.exhaust)
  show ?thesis
  proof (cases "clock_now r st")
    case None
    then have "perform encode l x r st = st" by (simp only: ListPatches list_refused)
    then show ?thesis using assms(2) same_cursor_refl by auto
  next
    case (Some q)
    then obtain now st0 where clk: "clock_now r st = Some (now, st0)" by (cases q) auto
    have st': "perform encode l x r st = st'" using p by (simp add: ListPatches)
    have "passed now st'" using list_clock [OF p clk] by (simp add: passed_def)
    moreover have "fades_cursors now st st'" using list_patches_effect [OF p clk assms(1)] by simp
    ultimately show ?thesis
      using assms(2) unfolding st' fades_cursors_def passed_def by (cases "now < cu_expires_at c") auto
  qed
qed

definition cursor_lasts :: "string \<Rightarrow> cursor_record \<Rightarrow> opaque_store \<Rightarrow> bool" where
  "cursor_lasts k c st \<longleftrightarrow> cursors_ok st
     \<and> ((\<exists>d. fmlookup (os_cursors st) k = Some d \<and> same_cursor c d) \<or> passed (cu_expires_at c) st)"

lemma cursor_lasts_perform:
  assumes "cursor_lasts k c st"
  shows "cursor_lasts k c (perform encode l x r st)"
proof -
  have ok: "cursors_ok (perform encode l x r st)"
    using assms by (intro cursors_ok_perform) (simp add: cursor_lasts_def)
  consider "passed (cu_expires_at c) st" | d where "fmlookup (os_cursors st) k = Some d" "same_cursor c d"
    using assms unfolding cursor_lasts_def by blast
  then show ?thesis
  proof cases
    case 1
    then have "passed (cu_expires_at c) (perform encode l x r st)" by (rule passed_perform)
    then show ?thesis using ok unfolding cursor_lasts_def by blast
  next
    case (2 d)
    have "cursors_ok st" using assms by (simp add: cursor_lasts_def)
    from cursor_kept [OF this 2(1), of encode l x r]
    have "(\<exists>e. fmlookup (os_cursors (perform encode l x r st)) k = Some e \<and> same_cursor c e)
      \<or> passed (cu_expires_at c) (perform encode l x r st)"
      using same_cursor_trans [OF 2(2)] same_cursor_fields [OF 2(2)] by auto
    then show ?thesis using ok unfolding cursor_lasts_def by blast
  qed
qed

lemma cursor_kept_run:
  assumes "cursors_ok st" "fmlookup (os_cursors st) k = Some c"
  shows "(\<exists>d. fmlookup (os_cursors (run_calls encode l cs st)) k = Some d \<and> same_cursor c d)
    \<or> passed (cu_expires_at c) (run_calls encode l cs st)"
proof -
  have "cursor_lasts k c (run_calls encode l cs st)"
  proof (rule run_invariant)
    show "cursor_lasts k c st" using assms same_cursor_refl unfolding cursor_lasts_def by blast
  qed (rule cursor_lasts_perform)
  then show ?thesis by (simp only: cursor_lasts_def)
qed

section \<open>Walking the pages\<close>

lemma slice_snoc: "i \<le> j \<Longrightarrow> take i xs @ slice i j xs = take j xs"
  by (simp add: slice_def take_add [symmetric])

text \<open>A live cursor is served: nothing but the clock and the entropy source can stop it.\<close>

lemma live_cursor_served:
  assumes "cursors_ok st" "fmlookup (os_cursors st) token = Some c" "cu_account c = account" "cu_vault c = vault"
    and "clock_now r st = Some (now, st0)" "now < cu_expires_at c"
    and "length (entropy 0) = 16" "CURSOR_PREFIX @ hex_of (entropy 0) |\<notin>| fmdom (os_cursors st)"
  shows "\<exists>p st'. list_patches entropy account vault (Some token) None r st = (Inr p, st')"
proof -
  define st1 where "st1 = prune_expired_cursors now st0"
  have st0: "os_cursors st0 = os_cursors st" "os_vaults st0 = os_vaults st"
    using assms(5) by (auto simp: clock_now_def split: option.splits)
  have c1: "fmlookup (os_cursors st1) token = Some c"
    using prune_cursors_look [of now st0 token] assms(2,6) by (auto simp: st1_def st0)
  have dom1: "CURSOR_PREFIX @ hex_of (entropy 0) |\<notin>| fmdom (os_cursors st1)"
    using prune_cursors_look [of now st0 "CURSOR_PREFIX @ hex_of (entropy 0)"] assms(8)
    by (auto simp: st1_def st0 fmdom_notD intro!: fmdom_notI)
  have eight: "[0..<8] = 0 # [1..<8::nat]" by (simp add: upt_rec)
  have new: "\<exists>k st'. new_cursor entropy v i j n now st1 = (Inr k, st')" for v i j n
    using assms(7) dom1 by (simp add: new_cursor_def eight Let_def)
  have "cursor_ok now (patch_count st) (os_cursors st) c"
    using cursors_ok_at [OF assms(1,5), of "patch_count st"] assms(2) by (simp add: cursors_at_def)
  then have ok: "1 \<le> cu_page_size c" "cu_page_size c \<le> MAX_PAGE_SIZE" "cu_start c \<le> cu_end c"
    "cu_end c \<le> length (vs_patches (vault_of st (account, vault)))"
    using assms(3,4) by (simp_all add: cursor_ok_def patch_count_def)
  have P: "(case fmlookup (os_vaults st1) (account, vault) of None \<Rightarrow> [] | Some s \<Rightarrow> vs_patches s) = vs_patches (vault_of st (account, vault))"
    using prune_cursors_vaults [of now st0] by (simp add: st1_def st0 vault_of_def empty_vault_def split: option.split)
  have "list_patches entropy account vault (Some token) None r st
      = page_of entropy (account, vault) (vs_patches (vault_of st (account, vault))) (cu_start c) (cu_end c) (cu_page_size c) (Some (token, c)) now st1"
    unfolding list_patches_def assms(5) option.case prod.case Let_def st1_def [symmetric] P c1
    using assms(3,4,6) by simp
  moreover have "\<exists>p st'. page_of entropy (account, vault) (vs_patches (vault_of st (account, vault))) (cu_start c) (cu_end c)
      (cu_page_size c) (Some (token, c)) now st1 = (Inr p, st')"
    using ok new [of "(account, vault)" "min (cu_start c + nat (cu_page_size c)) (cu_end c)" "cu_end c" "cu_page_size c"]
    by (auto simp: page_of_def Let_def split: option.split)
  ultimately show ?thesis by simp
qed

text \<open>A client that lists the patches of a vault page by page: \<open>page_walk P n got nxt st\<close> after \<open>n\<close> pages,
  with the envelopes \<open>got\<close>, the cursor \<open>nxt\<close> if there is one and the store \<open>st\<close>, where \<open>P\<close> are the
  patches at the first call.  Other calls come between, and each cursor is used before it expires.\<close>

inductive page_walk :: "(storage_envelope \<Rightarrow> string) \<Rightarrow> limits \<Rightarrow> string \<Rightarrow> string \<Rightarrow> envelope list \<Rightarrow> nat \<Rightarrow> envelope list
    \<Rightarrow> string option \<Rightarrow> opaque_store \<Rightarrow> bool" for encode l account vault where
  walk_first: "list_patches entropy account vault None wanted r (run_calls encode l cs initial_store) = (Inr (got, nxt), st)
    \<Longrightarrow> page_walk encode l account vault (vs_patches (vault_of (run_calls encode l cs initial_store) (account, vault))) 1 got nxt st"
| walk_next: "page_walk encode l account vault P n got (Some token) st \<Longrightarrow> fmlookup (os_cursors st) token = Some c
    \<Longrightarrow> now < cu_expires_at c
    \<Longrightarrow> list_patches entropy account vault (Some token) None (Finite now) (run_calls encode l cs st) = (Inr (got', nxt), st')
    \<Longrightarrow> page_walk encode l account vault P (Suc n) (got @ got') nxt st'"

text \<open>What a walk keeps.\<close>

definition walk_holds :: "vault_key \<Rightarrow> envelope list \<Rightarrow> nat \<Rightarrow> envelope list \<Rightarrow> string option \<Rightarrow> opaque_store \<Rightarrow> bool" where
  "walk_holds v P n got nxt st \<longleftrightarrow> cursors_ok st \<and> (\<exists>later. vs_patches (vault_of st v) = P @ later)
     \<and> (case nxt of None \<Rightarrow> got = P \<and> n \<le> length P + 1
        | Some k \<Rightarrow> n \<le> length got \<and> length got < length P \<and> got = take (length got) P
            \<and> (\<exists>d size. fmlookup (os_cursors st) k = Some d \<and> cursor_for v (length got) (length P) size d))"

lemma list_answered: "list_patches entropy account vault cur n r st = (Inr p, st') \<Longrightarrow> \<exists>now st0. clock_now r st = Some (now, st0)"
  by (auto simp: list_patches_def split: option.splits)

lemma listed_patches: "list_patches entropy account vault cur n r st = (res, st') \<Longrightarrow> vs_patches (vault_of st' v) = vs_patches (vault_of st v)"
  using list_patches_vaults [of entropy account vault cur n r st res st'] by (simp add: vault_of_def)

lemma page_walk_holds:
  assumes "page_walk encode l account vault P n got nxt st"
  shows "walk_holds (account, vault) P n got nxt st"
  using assms
proof induction
  case (walk_first entropy wanted r cs got nxt st)
  let ?st0 = "run_calls encode l cs initial_store" and ?v = "(account, vault)"
  let ?P = "vs_patches (vault_of ?st0 ?v)"
  obtain now st1 where clk: "clock_now r ?st0 = Some (now, st1)" using list_answered [OF walk_first] by blast
  note e = list_patches_effect [OF walk_first clk cursors_ok_run [OF cursors_ok_initial]]
  obtain size where s: "1 \<le> size" "got = slice 0 (min (0 + nat size) (length ?P)) ?P"
    "case nxt of None \<Rightarrow> min (0 + nat size) (length ?P) = length ?P
      | Some k \<Rightarrow> min (0 + nat size) (length ?P) < length ?P \<and> (\<exists>d. fmlookup (os_cursors st) k = Some d
          \<and> cursor_for ?v (min (0 + nat size) (length ?P)) (length ?P) size d)"
    using e by (auto simp: page_served_def patch_count_def)
  then have got: "length got = min (0 + nat size) (length ?P)" "got = take (length got) ?P" by (simp_all add: slice_def)
  then show ?case
    using s(1,3) got e listed_patches [OF walk_first, of ?v] by (cases nxt) (auto simp: walk_holds_def)
next
  case (walk_next P n got token st c now entropy cs got' nxt st')
  let ?st = "run_calls encode l cs st" and ?v = "(account, vault)"
  have IH: "cursors_ok st" "\<exists>later. vs_patches (vault_of st ?v) = P @ later" "n \<le> length got" "length got < length P"
    "got = take (length got) P"
    using walk_next.IH by (simp_all add: walk_holds_def)
  obtain size where c: "cursor_for ?v (length got) (length P) size c"
    using walk_next.IH walk_next.hyps(2) by (auto simp: walk_holds_def)
  have ok: "cursors_ok ?st" by (rule cursors_ok_run [OF IH(1)])
  obtain now' st1 where clk: "clock_now (Finite now) ?st = Some (now', st1)" using list_answered [OF walk_next.hyps(4)] by blast
  then have "now' = now" using clock_passes by fastforce
  then have "\<not> passed (cu_expires_at c) ?st" using clock_not_passed [OF clk] walk_next.hyps(3) by fastforce
  then obtain c' where c': "fmlookup (os_cursors ?st) token = Some c'" "same_cursor c c'"
    using cursor_kept_run [OF IH(1) walk_next.hyps(2), of encode l cs] by blast
  have c'for: "cursor_for ?v (length got) (length P) size c'"
    using c same_cursor_fields [OF c'(2)] by (simp add: cursor_for_def)
  obtain later where later: "vs_patches (vault_of ?st ?v) = P @ later"
    using IH(2) patches_grow_run [of encode l cs st ?v] by auto
  note e = list_patches_effect [OF walk_next.hyps(4) clk ok]
  let ?stop = "min (length got + nat size) (length P)"
  have "page_served (Some token) ?v now' ?st (got', nxt) st'" using e by simp
  then obtain i j m d where q: "1 \<le> m" "got' = slice i (min (i + nat m) j) (P @ later)"
    "fmlookup (os_cursors ?st) token = Some d" "cursor_for ?v i j m d"
    "case nxt of None \<Rightarrow> min (i + nat m) j = j
      | Some k \<Rightarrow> min (i + nat m) j < j \<and> (\<exists>d. fmlookup (os_cursors st') k = Some d \<and> cursor_for ?v (min (i + nat m) j) j m d)"
    unfolding page_served_def later fst_conv snd_conv option.case by blast
  have "i = length got" "j = length P" "m = size" using q(3,4) c'(1) c'for by (simp_all add: cursor_for_def)
  note s = q(1,2,5) [unfolded this]
  have "got' = slice (length got) ?stop P" using s(2) by (simp add: slice_def)
  then have all: "got @ got' = take ?stop P"
    using slice_snoc [of "length got" ?stop P] IH(4,5) by simp
  have "1 \<le> nat size" using s(1) by linarith
  then have "Suc n \<le> ?stop" using IH(3,4) by (simp add: min_def)
  then show ?case
    using s(3) e all later listed_patches [OF walk_next.hyps(4), of ?v] by (cases nxt) (auto simp: walk_holds_def min_def)
qed

text \<open>C21: paging is a snapshot.  Whatever other calls come between, a client that follows the cursors while
  they live gets a growing prefix of the patches there were at the first call, each once and in
  order, with at least one new patch per page but possibly the last, and when no cursor is left it
  has exactly those patches.  As long as a cursor lives its page is served, if the clock is accepted
  and the entropy source is sound.\<close>

theorem paging_is_a_snapshot:
  assumes "page_walk encode l account vault P n got nxt st"
  shows "case nxt of None \<Rightarrow> got = P \<and> n \<le> length P + 1
    | Some token \<Rightarrow> n \<le> length got \<and> length got < length P \<and> got = take (length got) P
        \<and> (\<exists>c. fmlookup (os_cursors st) token = Some c \<and> (\<forall>cs entropy now.
             clock_now (Finite now) (run_calls encode l cs st) \<noteq> None \<longrightarrow> now < cu_expires_at c \<longrightarrow> length (entropy 0) = 16
             \<longrightarrow> CURSOR_PREFIX @ hex_of (entropy 0) |\<notin>| fmdom (os_cursors (run_calls encode l cs st)) \<longrightarrow>
             (\<exists>p st'. list_patches entropy account vault (Some token) None (Finite now) (run_calls encode l cs st) = (Inr p, st'))))"
proof (cases nxt)
  case None
  then show ?thesis using page_walk_holds [OF assms] by (simp add: walk_holds_def)
next
  case (Some token)
  have w: "cursors_ok st" "n \<le> length got" "length got < length P" "got = take (length got) P"
    using page_walk_holds [OF assms] Some by (simp_all add: walk_holds_def)
  obtain c size where c: "fmlookup (os_cursors st) token = Some c" "cursor_for (account, vault) (length got) (length P) size c"
    using page_walk_holds [OF assms] Some by (auto simp: walk_holds_def)
  have "\<exists>p st'. list_patches entropy account vault (Some token) None (Finite now) (run_calls encode l cs st) = (Inr p, st')"
    if clk: "clock_now (Finite now) (run_calls encode l cs st) \<noteq> None" and live: "now < cu_expires_at c" and ent: "length (entropy 0) = 16"
      "CURSOR_PREFIX @ hex_of (entropy 0) |\<notin>| fmdom (os_cursors (run_calls encode l cs st))" for cs entropy now
  proof -
    obtain now' st0 where n: "clock_now (Finite now) (run_calls encode l cs st) = Some (now', st0)" using clk by auto
    have "now' = now" using clock_passes [OF n] by simp
    then have "\<not> passed (cu_expires_at c) (run_calls encode l cs st)" using clock_not_passed [OF n] live by fastforce
    then obtain d where d: "fmlookup (os_cursors (run_calls encode l cs st)) token = Some d" "same_cursor c d"
      using cursor_kept_run [OF w(1) c(1)] by blast
    have f: "cu_account d = account" "cu_vault d = vault" "now' < cu_expires_at d"
      using same_cursor_fields [OF d(2)] c(2) live \<open>now' = now\<close> by (simp_all add: cursor_for_def)
    show ?thesis by (rule live_cursor_served [where c = d and now = now' and entropy = entropy])
      (use cursors_ok_run [OF w(1)] d(1) f n ent in simp_all)
  qed
  then show ?thesis using w c(1) unfolding Some option.case by blast
qed

definition sample_patch :: envelope where
  "sample_patch = sample_envelope ''x'' ''r1'' None False"

lemma sample_patches:
  "let st = run_calls se_revision default_limits [(Put ''a'' ''v'' (ToPatches sample_patch) ''*'' ''k'', Finite 0)] initial_store
   in vs_patches (vault_of st (''a'', ''v'')) = [sample_patch]
    \<and> fst (list_patches (\<lambda>_. []) ''a'' ''v'' None None (Finite 1) st) = Inr ([sample_patch], None)"
  unfolding run_calls.simps perform_put Let_def
  by (simp add: sample_patch_def store_eval last_patch_def list_patches_def page_of_def DEFAULT_PAGE_SIZE_def MAX_PAGE_SIZE_def
    prune_expired_cursors_def)

theorem paging_is_a_snapshot_witness:
  "\<exists>got nxt. page_walk se_revision default_limits ''a'' ''v'' [sample_patch] 1 got nxt
      (snd (list_patches (\<lambda>_. []) ''a'' ''v'' None None (Finite 1)
        (run_calls se_revision default_limits [(Put ''a'' ''v'' (ToPatches sample_patch) ''*'' ''k'', Finite 0)] initial_store)))
    \<and> nxt = None \<and> got = [sample_patch]"
proof -
  let ?st = "run_calls se_revision default_limits [(Put ''a'' ''v'' (ToPatches sample_patch) ''*'' ''k'', Finite 0)] initial_store"
  note e = sample_patches [unfolded Let_def]
  have "list_patches (\<lambda>_. []) ''a'' ''v'' None None (Finite 1) ?st
      = (Inr ([sample_patch], None), snd (list_patches (\<lambda>_. []) ''a'' ''v'' None None (Finite 1) ?st))"
    using e by (metis prod.collapse)
  from walk_first [OF this] have w: "page_walk se_revision default_limits ''a'' ''v'' [sample_patch] 1 [sample_patch] None
      (snd (list_patches (\<lambda>_. []) ''a'' ''v'' None None (Finite 1) ?st))"
    using e by (simp only:)
  from paging_is_a_snapshot [OF this] w show ?thesis by auto
qed

end
