(* ===== verification/Concurrency.thy ===== *)
theory Concurrency
  imports Expiry Json
begin

text \<open>
  The feedback controller of the job aggregator's workers
  (\<open>jobagg/remediation_concurrency.py\<close>): how many distinct hosts are fetched at once.

  The state is a dict that the coordinator persists.  \<open>validate_state\<close> reads it, or raises; the
  model of the dict that passes is a record, and \<open>state_value\<close> is its dict again.  A raise is
  \<open>None\<close>, except where a caller tells the exceptions apart.  Times are ints or finite floats; their
  difference is exact.
\<close>

section \<open>Python values\<close>

datatype py_value = PNone | PBool bool | PInt int | PFloat reading | PStr string
  | PList "py_value list" | PDict "(string \<times> py_value) list"

type_synonym dict = "(string \<times> py_value) list"

fun py_mapping :: "py_value \<Rightarrow> dict option" where
  "py_mapping (PDict kv) = Some kv"
| "py_mapping _ = None"

fun py_list :: "py_value \<Rightarrow> py_value list option" where
  "py_list (PList vs) = Some vs"
| "py_list _ = None"

fun py_bool :: "py_value \<Rightarrow> bool option" where
  "py_bool (PBool b) = Some b"
| "py_bool _ = None"

fun py_str :: "py_value \<Rightarrow> string option" where
  "py_str (PStr s) = Some s"
| "py_str _ = None"

fun py_none :: "py_value \<Rightarrow> unit option" where
  "py_none PNone = Some ()"
| "py_none _ = None"

lemma py_iff [simp]:
  "py_mapping v = Some kv \<longleftrightarrow> v = PDict kv" "py_list v = Some vs \<longleftrightarrow> v = PList vs" "py_bool v = Some b \<longleftrightarrow> v = PBool b"
  "py_str v = Some s \<longleftrightarrow> v = PStr s" "py_none v = Some u \<longleftrightarrow> v = PNone"
  by (cases v; simp)+

section \<open>Checks\<close>

definition HARD_CEILING :: int where
  "HARD_CEILING = 32"

definition HISTORY_LIMIT :: nat where
  "HISTORY_LIMIT = 128"

definition LARGEST_COUNT :: int where
  "LARGEST_COUNT = 10 ^ 9"

fun integer_between :: "int \<Rightarrow> int \<Rightarrow> py_value \<Rightarrow> int option" where
  "integer_between lo hi (PInt n) = (if lo \<le> n \<and> n \<le> hi then Some n else None)"
| "integer_between lo hi _ = None"

datatype epoch = IntEpoch int | FloatEpoch rat

fun instant :: "epoch \<Rightarrow> rat" where
  "instant (IntEpoch n) = of_int n"
| "instant (FloatEpoch r) = r"

fun epoch_value :: "epoch \<Rightarrow> py_value" where
  "epoch_value (IntEpoch n) = PInt n"
| "epoch_value (FloatEpoch r) = PFloat (Finite r)"

text \<open>\<open>isfinite\<close> raises an \<open>OverflowError\<close> on an int that is too large for a float.\<close>

datatype raised = ValueRaised | OverflowRaised

fun time_value :: "py_value \<Rightarrow> raised + epoch" where
  "time_value (PInt n) = (if \<bar>n\<bar> \<ge> FLOAT_OVERFLOW then Inl OverflowRaised
     else if n < 0 then Inl ValueRaised else Inr (IntEpoch n))"
| "time_value (PFloat (Finite r)) = (if r < 0 then Inl ValueRaised else Inr (FloatEpoch r))"
| "time_value _ = Inl ValueRaised"

definition time_or_raise :: "py_value \<Rightarrow> epoch option" where
  "time_or_raise v = (case time_value v of Inl _ \<Rightarrow> None | Inr t \<Rightarrow> Some t)"

definition whitespace :: "char \<Rightarrow> bool" where
  "whitespace c \<longleftrightarrow> (let n = byte_val c in 9 \<le> n \<and> n \<le> 13 \<or> 28 \<le> n \<and> n \<le> 32 \<or> n = 133 \<or> n = 160)"

fun identifier_text :: "py_value \<Rightarrow> string option" where
  "identifier_text (PStr s) = (if list_ex (\<lambda>c. \<not> whitespace c) s \<and> length s \<le> 256 then Some s else None)"
| "identifier_text _ = None"

section \<open>Policies\<close>

record controller_policy =
  initial_limit :: int
  minimum_limit :: int
  maximum_limit :: int
  healthy_batches_to_increase :: int
  max_batch_age_seconds :: int
  policy_mode :: string
  fixed_limit :: "int option"
  transport_pressure_min_failures :: int

definition policy_value :: "controller_policy \<Rightarrow> py_value" where
  "policy_value p = PDict
     [(''initial_limit'', PInt (initial_limit p)), (''minimum_limit'', PInt (minimum_limit p)),
      (''maximum_limit'', PInt (maximum_limit p)),
      (''healthy_batches_to_increase'', PInt (healthy_batches_to_increase p)),
      (''max_batch_age_seconds'', PInt (max_batch_age_seconds p)), (''mode'', PStr (policy_mode p)),
      (''fixed_limit'', (case fixed_limit p of None \<Rightarrow> PNone | Some n \<Rightarrow> PInt n)),
      (''transport_pressure_min_failures'', PInt (transport_pressure_min_failures p))]"

definition default_controller :: controller_policy where
  "default_controller = \<lparr>initial_limit = 4, minimum_limit = 1, maximum_limit = 8, healthy_batches_to_increase = 3,
     max_batch_age_seconds = 1800, policy_mode = ''adaptive'', fixed_limit = None,
     transport_pressure_min_failures = 2\<rparr>"

text \<open>\<open>__post_init__\<close> on the arguments of \<open>ControllerPolicy(**kwargs)\<close>, defaults filled in.\<close>

definition policy_from_kwargs :: "py_value \<Rightarrow> controller_policy option" where
  "policy_from_kwargs v = do {
     kv \<leftarrow> py_mapping v;
     defaults \<leftarrow> py_mapping (policy_value default_controller);
     require (set (map fst kv) \<subseteq> set (map fst defaults));
     let get = (\<lambda>k. case map_of kv k of None \<Rightarrow> map_of defaults k | Some x \<Rightarrow> Some x);
     initial_l \<leftarrow> get ''initial_limit'' \<bind> integer_between 1 HARD_CEILING;
     minimum_l \<leftarrow> get ''minimum_limit'' \<bind> integer_between 1 HARD_CEILING;
     maximum_l \<leftarrow> get ''maximum_limit'' \<bind> integer_between 1 HARD_CEILING;
     require (minimum_l \<le> initial_l \<and> initial_l \<le> maximum_l);
     healthy \<leftarrow> get ''healthy_batches_to_increase'' \<bind> integer_between 1 100;
     age \<leftarrow> get ''max_batch_age_seconds'' \<bind> integer_between 1 86400;
     transport \<leftarrow> get ''transport_pressure_min_failures'' \<bind> integer_between 1 1000;
     md \<leftarrow> get ''mode'' \<bind> py_str;
     require (md = ''adaptive'' \<or> md = ''fixed'');
     fixed_v \<leftarrow> get ''fixed_limit'';
     fixed \<leftarrow> (if md = ''fixed'' then map_option Some (integer_between minimum_l maximum_l fixed_v)
       else map_option (\<lambda>_. None) (py_none fixed_v));
     Some \<lparr>initial_limit = initial_l, minimum_limit = minimum_l, maximum_limit = maximum_l,
       healthy_batches_to_increase = healthy, max_batch_age_seconds = age, policy_mode = md, fixed_limit = fixed,
       transport_pressure_min_failures = transport\<rparr> }"

text \<open>\<open>json.dumps(asdict(self), sort_keys=True)\<close> and its SHA-256.\<close>

definition policy_text :: "controller_policy \<Rightarrow> string" where
  "policy_text p = ''{'' @ join '', '' (map (\<lambda>(k, v). quote k @ '': '' @ v)
     [(''fixed_limit'', (case fixed_limit p of None \<Rightarrow> ''null'' | Some n \<Rightarrow> int_str n)),
      (''healthy_batches_to_increase'', int_str (healthy_batches_to_increase p)),
      (''initial_limit'', int_str (initial_limit p)), (''max_batch_age_seconds'', int_str (max_batch_age_seconds p)),
      (''maximum_limit'', int_str (maximum_limit p)), (''minimum_limit'', int_str (minimum_limit p)),
      (''mode'', quote (policy_mode p)),
      (''transport_pressure_min_failures'', int_str (transport_pressure_min_failures p))]) @ ''}''"

definition policy_signature :: "controller_policy \<Rightarrow> string" where
  "policy_signature p = sha256_hex (policy_text p)"

section \<open>Observations\<close>

record batch_observation =
  batch_id :: string
  started_at :: epoch
  finished_at :: epoch
  limit_used :: int
  eligible_distinct_sources :: int
  eligible_distinct_hosts :: int
  peak_active_tasks :: int
  peak_active_sources :: int
  peak_active_hosts :: int
  peak_active_scheduling_hosts :: int
  attempted_tasks :: int
  accepted_progress :: int
  eligible_backlog_remaining :: int
  new_access_blocks :: int
  transport_failures :: int
  runtime_errors :: int
  integrity_errors :: int
  database_errors :: int
  control_cycle_complete :: bool
  killed :: bool
  publication_status :: string
  existing_held_hosts :: int
  global_completeness_certified :: bool

definition observation_value :: "batch_observation \<Rightarrow> py_value" where
  "observation_value b = PDict
     [(''batch_id'', PStr (batch_id b)), (''started_at'', epoch_value (started_at b)),
      (''finished_at'', epoch_value (finished_at b)), (''limit_used'', PInt (limit_used b)),
      (''eligible_distinct_sources'', PInt (eligible_distinct_sources b)),
      (''eligible_distinct_hosts'', PInt (eligible_distinct_hosts b)),
      (''peak_active_tasks'', PInt (peak_active_tasks b)), (''peak_active_sources'', PInt (peak_active_sources b)),
      (''peak_active_hosts'', PInt (peak_active_hosts b)),
      (''peak_active_scheduling_hosts'', PInt (peak_active_scheduling_hosts b)),
      (''attempted_tasks'', PInt (attempted_tasks b)), (''accepted_progress'', PInt (accepted_progress b)),
      (''eligible_backlog_remaining'', PInt (eligible_backlog_remaining b)),
      (''new_access_blocks'', PInt (new_access_blocks b)), (''transport_failures'', PInt (transport_failures b)),
      (''runtime_errors'', PInt (runtime_errors b)), (''integrity_errors'', PInt (integrity_errors b)),
      (''database_errors'', PInt (database_errors b)), (''control_cycle_complete'', PBool (control_cycle_complete b)),
      (''killed'', PBool (killed b)), (''publication_status'', PStr (publication_status b)),
      (''existing_held_hosts'', PInt (existing_held_hosts b)),
      (''global_completeness_certified'', PBool (global_completeness_certified b))]"

definition observation_fields :: "string list" where
  "observation_fields = [''batch_id'', ''started_at'', ''finished_at'', ''limit_used'', ''eligible_distinct_sources'',
     ''eligible_distinct_hosts'', ''peak_active_tasks'', ''peak_active_sources'', ''peak_active_hosts'',
     ''peak_active_scheduling_hosts'', ''attempted_tasks'', ''accepted_progress'', ''eligible_backlog_remaining'',
     ''new_access_blocks'', ''transport_failures'', ''runtime_errors'', ''integrity_errors'', ''database_errors'',
     ''control_cycle_complete'', ''killed'', ''publication_status'']"

definition optional_observation_fields :: dict where
  "optional_observation_fields = [(''existing_held_hosts'', PInt 0), (''global_completeness_certified'', PBool False)]"

definition publication_statuses :: "string list" where
  "publication_statuses = [''verified'', ''failed'', ''pending'', ''not_run'', ''unknown'']"

text \<open>The checks of \<open>__post_init__\<close> after the two times have been read.\<close>

definition observation_counts :: "(string \<Rightarrow> py_value option) \<Rightarrow> string \<Rightarrow> epoch \<Rightarrow> epoch \<Rightarrow> batch_observation option" where
  "observation_counts get ident s f = do {
     let count = (\<lambda>k. get k \<bind> integer_between 0 LARGEST_COUNT);
     let flag = (\<lambda>k. get k \<bind> py_bool);
     require (\<not> (instant f < instant s));
     used \<leftarrow> get ''limit_used'' \<bind> integer_between 1 HARD_CEILING;
     sources \<leftarrow> count ''eligible_distinct_sources'';
     hosts \<leftarrow> count ''eligible_distinct_hosts'';
     tasks \<leftarrow> count ''peak_active_tasks'';
     peak_sources \<leftarrow> count ''peak_active_sources'';
     peak_hosts \<leftarrow> count ''peak_active_hosts'';
     scheduling \<leftarrow> count ''peak_active_scheduling_hosts'';
     attempted \<leftarrow> count ''attempted_tasks'';
     accepted \<leftarrow> count ''accepted_progress'';
     backlog \<leftarrow> count ''eligible_backlog_remaining'';
     blocks \<leftarrow> count ''new_access_blocks'';
     transport \<leftarrow> count ''transport_failures'';
     runtime \<leftarrow> count ''runtime_errors'';
     integrity \<leftarrow> count ''integrity_errors'';
     database \<leftarrow> count ''database_errors'';
     held \<leftarrow> count ''existing_held_hosts'';
     complete \<leftarrow> flag ''control_cycle_complete'';
     killed_flag \<leftarrow> flag ''killed'';
     certified \<leftarrow> flag ''global_completeness_certified'';
     status \<leftarrow> get ''publication_status'' \<bind> py_str;
     require (status \<in> set publication_statuses);
     require (accepted \<le> attempted \<and> tasks \<le> attempted \<and> peak_sources \<le> tasks \<and> scheduling \<le> tasks);
     Some \<lparr>batch_id = ident, started_at = s, finished_at = f, limit_used = used, eligible_distinct_sources = sources,
       eligible_distinct_hosts = hosts, peak_active_tasks = tasks, peak_active_sources = peak_sources,
       peak_active_hosts = peak_hosts, peak_active_scheduling_hosts = scheduling, attempted_tasks = attempted,
       accepted_progress = accepted, eligible_backlog_remaining = backlog, new_access_blocks = blocks,
       transport_failures = transport, runtime_errors = runtime, integrity_errors = integrity,
       database_errors = database, control_cycle_complete = complete, killed = killed_flag,
       publication_status = status, existing_held_hosts = held, global_completeness_certified = certified\<rparr> }"

definition or_raise :: "'a option \<Rightarrow> raised + 'a" where
  "or_raise m = (case m of None \<Rightarrow> Inl ValueRaised | Some x \<Rightarrow> Inr x)"

definition observation_from_mapping :: "py_value \<Rightarrow> raised + batch_observation" where
  "observation_from_mapping v =
     and_then (or_raise (do {
       kv \<leftarrow> py_mapping v;
       require (set observation_fields \<subseteq> set (map fst kv)
         \<and> set (map fst kv) \<subseteq> set observation_fields \<union> set (map fst optional_observation_fields));
       let get = (\<lambda>k. case map_of kv k of None \<Rightarrow> map_of optional_observation_fields k | Some x \<Rightarrow> Some x);
       ident \<leftarrow> get ''batch_id'' \<bind> identifier_text;
       s \<leftarrow> get ''started_at'';
       f \<leftarrow> get ''finished_at'';
       Some (get, ident, s, f) }))
     (\<lambda>(get, ident, s, f). and_then (time_value s) (\<lambda>t. and_then (time_value f) (\<lambda>u.
        or_raise (observation_counts get ident t u))))"

definition observation_or_raise :: "py_value \<Rightarrow> batch_observation option" where
  "observation_or_raise v = (case observation_from_mapping v of Inl _ \<Rightarrow> None | Inr b \<Rightarrow> Some b)"

section \<open>The state\<close>

definition VERSION :: string where
  "VERSION = ''distinct-host-concurrency-v1''"

record controller =
  ct_policy :: controller_policy
  created_at :: epoch
  updated_at :: epoch
  task_limit :: int
  healthy_streak :: int
  processed_batches :: int
  recent_batch_ids :: "string list"
  last_finished_at :: "epoch option"
  last_observation :: "batch_observation option"
  last_reasons :: "string list"

definition state_value :: "controller \<Rightarrow> py_value" where
  "state_value c = PDict
     [(''version'', PStr VERSION), (''policy'', policy_value (ct_policy c)),
      (''policy_signature'', PStr (policy_signature (ct_policy c))),
      (''created_at'', epoch_value (created_at c)), (''updated_at'', epoch_value (updated_at c)),
      (''limit'', PInt (task_limit c)), (''healthy_streak'', PInt (healthy_streak c)),
      (''processed_batches'', PInt (processed_batches c)),
      (''recent_batch_ids'', PList (map PStr (recent_batch_ids c))),
      (''last_finished_at'', (case last_finished_at c of None \<Rightarrow> PNone | Some t \<Rightarrow> epoch_value t)),
      (''last_observation'', (case last_observation c of None \<Rightarrow> PNone | Some b \<Rightarrow> observation_value b)),
      (''last_reasons'', PList (map PStr (last_reasons c)))]"

definition STATE_FIELDS :: "string list" where
  "STATE_FIELDS = [''version'', ''policy'', ''policy_signature'', ''created_at'', ''updated_at'', ''limit'',
     ''healthy_streak'', ''processed_batches'', ''recent_batch_ids'', ''last_finished_at'', ''last_observation'',
     ''last_reasons'']"

definition policy_limit :: "controller_policy \<Rightarrow> int" where
  "policy_limit p = (if policy_mode p = ''fixed'' then the (fixed_limit p) else initial_limit p)"

definition initial_controller :: "controller_policy \<Rightarrow> py_value \<Rightarrow> controller option" where
  "initial_controller p now = do {
     t \<leftarrow> time_or_raise now;
     Some \<lparr>ct_policy = p, created_at = t, updated_at = t, task_limit = policy_limit p, healthy_streak = 0,
       processed_batches = 0, recent_batch_ids = [], last_finished_at = None, last_observation = None,
       last_reasons = [''initialized_without_health_credit'']\<rparr> }"

text \<open>The evidence that health credit needs, as \<open>validate_state\<close> checks it.\<close>

definition contradicts_credit :: "controller_policy \<Rightarrow> int \<Rightarrow> epoch \<Rightarrow> batch_observation \<Rightarrow> bool" where
  "contradicts_credit p limit_v updated b \<longleftrightarrow>
     publication_status b \<noteq> ''verified'' \<or> \<not> control_cycle_complete b \<or> killed b
     \<or> new_access_blocks b \<noteq> 0 \<or> transport_failures b \<noteq> 0 \<or> runtime_errors b \<noteq> 0
     \<or> integrity_errors b \<noteq> 0 \<or> database_errors b \<noteq> 0 \<or> limit_used b \<noteq> limit_v
     \<or> min (peak_active_tasks b) (min (peak_active_sources b) (peak_active_scheduling_hosts b)) < limit_v
     \<or> peak_active_tasks b > limit_used b \<or> accepted_progress b < limit_v
     \<or> eligible_backlog_remaining b = 0
     \<or> min (eligible_distinct_sources b) (eligible_distinct_hosts b) \<le> limit_v
     \<or> instant updated - instant (finished_at b) > of_int (max_batch_age_seconds p)"

definition dict_equal :: "py_value \<Rightarrow> py_value \<Rightarrow> bool" where
  "dict_equal v w = (case (py_mapping v, py_mapping w) of
     (Some kv, Some lw) \<Rightarrow> set (map fst kv) = set (map fst lw) \<and> list_all (\<lambda>k. map_of kv k = map_of lw k) (map fst kv)
   | _ \<Rightarrow> False)"

definition validate_state :: "py_value \<Rightarrow> controller_policy \<Rightarrow> controller option" where
  "validate_state v p = do {
     kv \<leftarrow> py_mapping v;
     require (set (map fst kv) = set STATE_FIELDS);
     policy_v \<leftarrow> map_of kv ''policy'';
     stored \<leftarrow> policy_from_kwargs policy_v;
     require (stored = p);
     require (map_of kv ''version'' = Some (PStr VERSION) \<and> dict_equal policy_v (policy_value p)
       \<and> map_of kv ''policy_signature'' = Some (PStr (policy_signature p)));
     created \<leftarrow> map_of kv ''created_at'' \<bind> time_or_raise;
     updated \<leftarrow> map_of kv ''updated_at'' \<bind> time_or_raise;
     require (\<not> (instant updated < instant created));
     limit_v \<leftarrow> map_of kv ''limit'' \<bind> integer_between (minimum_limit p) (maximum_limit p);
     streak \<leftarrow> map_of kv ''healthy_streak'' \<bind> integer_between 0 (healthy_batches_to_increase p - 1);
     processed \<leftarrow> map_of kv ''processed_batches'' \<bind> integer_between 0 LARGEST_COUNT;
     require (\<not> (policy_mode p = ''fixed'' \<and> (Some limit_v \<noteq> fixed_limit p \<or> streak \<noteq> 0)));
     seen_v \<leftarrow> map_of kv ''recent_batch_ids'' \<bind> py_list;
     require (length seen_v \<le> HISTORY_LIMIT);
     seen \<leftarrow> traverse identifier_text seen_v;
     require (set_size seen = length seen \<and> int (length seen) = min processed (int HISTORY_LIMIT));
     finished_v \<leftarrow> map_of kv ''last_finished_at'';
     observation_v \<leftarrow> map_of kv ''last_observation'';
     history \<leftarrow> (if processed = 0 then do { require (finished_v = PNone \<and> observation_v = PNone); Some None }
       else do {
         f \<leftarrow> time_or_raise finished_v;
         b \<leftarrow> observation_or_raise observation_v;
         require (batch_id b = last seen \<and> instant (finished_at b) = instant f
           \<and> instant created \<le> instant (started_at b) \<and> instant (started_at b) \<le> instant (finished_at b)
           \<and> instant (finished_at b) \<le> instant updated);
         Some (Some (f, b)) });
     require (streak \<le> processed);
     require (\<not> (streak \<noteq> 0 \<and> (case history of None \<Rightarrow> True | Some (_, b) \<Rightarrow> contradicts_credit p limit_v updated b)));
     reasons_v \<leftarrow> map_of kv ''last_reasons'' \<bind> py_list;
     require (1 \<le> length reasons_v \<and> length reasons_v \<le> 30);
     reasons \<leftarrow> traverse identifier_text reasons_v;
     Some \<lparr>ct_policy = p, created_at = created, updated_at = updated, task_limit = limit_v, healthy_streak = streak,
       processed_batches = processed, recent_batch_ids = seen, last_finished_at = map_option fst history,
       last_observation = map_option snd history, last_reasons = reasons\<rparr> }"

definition current_state :: "py_value \<Rightarrow> controller_policy \<Rightarrow> py_value \<Rightarrow> (controller \<times> epoch) option" where
  "current_state v p now = do {
     c \<leftarrow> validate_state v p;
     t \<leftarrow> time_or_raise now;
     require (\<not> (instant t < instant (updated_at c)));
     Some (c, t) }"

section \<open>Decisions\<close>

record decision =
  dn_state :: controller
  dn_limit :: int
  dn_previous_limit :: int
  dn_action :: string
  dn_reasons :: "string list"
  dn_qualifying :: bool
  dn_consumed :: bool
  dn_observation :: "batch_observation option"
  dn_global_completeness_certified :: bool

definition decision_of :: "controller \<Rightarrow> int \<Rightarrow> string list \<Rightarrow> bool \<Rightarrow> bool \<Rightarrow> batch_observation option \<Rightarrow> decision" where
  "decision_of c old_limit reasons qualifying consumed observed =
     \<lparr>dn_state = c\<lparr>last_reasons := reasons\<rparr>, dn_limit = task_limit c, dn_previous_limit = old_limit,
       dn_action = (if task_limit c > old_limit then ''increase'' else if task_limit c < old_limit then ''decrease'' else ''hold''),
       dn_reasons = reasons, dn_qualifying = qualifying, dn_consumed = consumed, dn_observation = observed,
       dn_global_completeness_certified = False\<rparr>"

definition interrupt :: "py_value \<Rightarrow> controller_policy \<Rightarrow> py_value \<Rightarrow> string \<Rightarrow> decision option" where
  "interrupt v p now reason = do {
     (c, t) \<leftarrow> current_state v p now;
     reason_text \<leftarrow> identifier_text (PStr reason);
     Some (decision_of (c\<lparr>healthy_streak := 0, updated_at := t\<rparr>) (task_limit c)
       [''control_cycle_interrupted'', reason_text] False False None) }"

definition keep_last :: "nat \<Rightarrow> 'a list \<Rightarrow> 'a list" where
  "keep_last n xs = drop (length xs - n) xs"

definition pressure_reasons :: "controller_policy \<Rightarrow> batch_observation \<Rightarrow> string list" where
  "pressure_reasons p b =
     (if new_access_blocks b \<noteq> 0 then [''new_access_block''] else [])
     @ (if transport_failures b \<ge> transport_pressure_min_failures p then [''transport_pressure''] else [])
     @ (if runtime_errors b \<noteq> 0 \<or> integrity_errors b \<noteq> 0 \<or> database_errors b \<noteq> 0
        then [''runtime_integrity_or_database_error''] else [])
     @ (if killed b then [''killed_control_cycle''] else [])
     @ (if peak_active_tasks b > limit_used b then [''observed_concurrency_exceeded_selected_limit''] else [])"

definition hold_reasons :: "int \<Rightarrow> epoch \<Rightarrow> batch_observation \<Rightarrow> string list" where
  "hold_reasons old_limit updated b =
     (if publication_status b \<noteq> ''verified'' then [''publication_not_verified''] else [])
     @ (if \<not> control_cycle_complete b then [''control_cycle_incomplete''] else [])
     @ (if transport_failures b \<noteq> 0 then [''transport_failure_health_credit_reset''] else [])
     @ (if limit_used b \<noteq> old_limit then [''observed_limit_differs_from_selected_limit''] else [])
     @ (if instant (started_at b) < instant updated then [''batch_started_before_latest_control_update''] else [])
     @ (if min (peak_active_tasks b) (min (peak_active_sources b) (peak_active_scheduling_hosts b)) < old_limit
        then [''observed_distinct_source_host_concurrency_not_saturated''] else [])
     @ (if accepted_progress b < old_limit then [''insufficient_accepted_task_progress''] else [])
     @ (if eligible_backlog_remaining b = 0 \<or> min (eligible_distinct_sources b) (eligible_distinct_hosts b) \<le> old_limit
        then [''insufficient_distinct_source_host_backlog_to_grow''] else [])"

definition out_of_order :: "controller \<Rightarrow> epoch \<Rightarrow> batch_observation \<Rightarrow> bool" where
  "out_of_order c now b \<longleftrightarrow> instant (finished_at b) > instant now \<or> instant (started_at b) < instant (created_at c)
     \<or> (\<exists>t \<in> set_option (last_finished_at c). instant (finished_at b) \<le> instant t \<or> instant (started_at b) < instant t)"

definition credit_expired :: "controller \<Rightarrow> controller_policy \<Rightarrow> epoch \<Rightarrow> bool" where
  "credit_expired c p now \<longleftrightarrow> healthy_streak c \<noteq> 0
     \<and> (\<exists>t \<in> set_option (last_finished_at c). instant now - instant t > of_int (max_batch_age_seconds p))"

text \<open>The course of \<open>decide\<close> for an observation that is new and in order.\<close>

definition consume_batch :: "controller \<Rightarrow> controller_policy \<Rightarrow> epoch \<Rightarrow> batch_observation \<Rightarrow> decision" where
  "consume_batch c p now b =
     (let old_limit = task_limit c;
          result = c\<lparr>updated_at := now, processed_batches := processed_batches c + 1,
            recent_batch_ids := keep_last HISTORY_LIMIT (recent_batch_ids c @ [batch_id b]),
            last_finished_at := Some (finished_at b), last_observation := Some b, healthy_streak := 0\<rparr>;
          pressure = pressure_reasons p b;
          reasons = hold_reasons old_limit (updated_at c) b
      in if instant now - instant (finished_at b) > of_int (max_batch_age_seconds p)
         then decision_of result old_limit [''stale_batch_no_health_or_pressure_credit''] False True (Some b)
         else if policy_mode p = ''fixed'' then decision_of result old_limit (''manual_fixed_limit'' # pressure) False True (Some b)
         else if pressure \<noteq> [] then
           decision_of (result\<lparr>task_limit := max (minimum_limit p) (old_limit - 1)\<rparr>) old_limit
             (pressure @ [''conservative_one_step_backoff'']) False True (Some b)
         else if reasons \<noteq> [] then decision_of result old_limit reasons False True (Some b)
         else if old_limit \<ge> maximum_limit p then
           decision_of result old_limit [''configured_ceiling_reached''] False True (Some b)
         else (let expired = credit_expired c p now;
                   streak = (if expired then 0 else healthy_streak c) + 1;
                   expiry_note = (if expired then [''previous_health_credit_expired''] else [])
               in if streak = healthy_batches_to_increase p
                  then decision_of (result\<lparr>task_limit := old_limit + 1\<rparr>) old_limit
                    ([''required_healthy_batches_reached'', ''increase_one''] @ expiry_note) True True (Some b)
                  else decision_of (result\<lparr>healthy_streak := streak\<rparr>) old_limit
                    ([''healthy_backlogged_parallel_batch'', ''await_additional_consecutive_health''] @ expiry_note)
                    True True (Some b)))"

definition decide :: "py_value \<Rightarrow> py_value \<Rightarrow> controller_policy \<Rightarrow> py_value \<Rightarrow> decision option" where
  "decide v observation p now = do {
     (c, t) \<leftarrow> current_state v p now;
     (case observation_from_mapping observation of
        Inl ValueRaised \<Rightarrow> interrupt v p now ''invalid_or_missing_batch_metrics''
      | Inl OverflowRaised \<Rightarrow> None
      | Inr b \<Rightarrow>
         (if batch_id b \<in> set (recent_batch_ids c) then
            Some \<lparr>dn_state = c, dn_limit = task_limit c, dn_previous_limit = task_limit c, dn_action = ''hold'',
              dn_reasons = [''duplicate_batch_ignored''], dn_qualifying = False, dn_consumed = False,
              dn_observation = Some b, dn_global_completeness_certified = False\<rparr>
          else if out_of_order c t b then interrupt v p now ''future_overlapping_or_out_of_order_batch''
          else Some (consume_batch c p t b))) }"

definition reconfigure_state :: "py_value \<Rightarrow> controller_policy \<Rightarrow> py_value \<Rightarrow> py_value \<Rightarrow> controller option" where
  "reconfigure_state v p now requested_limit = do {
     kv \<leftarrow> py_mapping v;
     policy_v \<leftarrow> map_of kv ''policy'';
     old \<leftarrow> policy_from_kwargs policy_v;
     (c, t) \<leftarrow> current_state v old now;
     requested \<leftarrow> (if requested_limit = PNone then Some None else do {
       n \<leftarrow> integer_between (minimum_limit p) (maximum_limit p) requested_limit;
       require (policy_mode p = ''adaptive'');
       Some (Some n) });
     if old = p \<and> requested_limit = PNone then Some c
     else (let clamped = (if policy_mode p = ''fixed'' then the (fixed_limit p)
             else min (maximum_limit p) (max (minimum_limit p) (task_limit c)));
             result = c\<lparr>ct_policy := p, updated_at := t, healthy_streak := 0,
               task_limit := (case requested of None \<Rightarrow> clamped | Some n \<Rightarrow> n),
               last_reasons := ''explicit_policy_change_health_credit_reset''
                 # (if requested = None then [] else [''explicit_operator_limit_change''])\<rparr>
           in validate_state (state_value result) p) }"

end
