(* ===== verification/ConcurrencyCodecs.thy ===== *)
theory ConcurrencyCodecs
  imports Concurrency
begin

text \<open>
  What passes the readers of the concurrency controller: policies, observations and states are
  written and read back unchanged, and whatever is read is well formed.
\<close>

section \<open>Times and identifiers\<close>

fun valid_epoch :: "epoch \<Rightarrow> bool" where
  "valid_epoch (IntEpoch n) \<longleftrightarrow> 0 \<le> n \<and> n < FLOAT_OVERFLOW"
| "valid_epoch (FloatEpoch r) \<longleftrightarrow> 0 \<le> r"

lemma time_value_iff: "time_value v = Inr t \<longleftrightarrow> v = epoch_value t \<and> valid_epoch t"
  by (cases v rule: time_value.cases; cases t) auto

lemma time_value_epoch [simp]: "valid_epoch t \<Longrightarrow> time_value (epoch_value t) = Inr t"
  by (simp add: time_value_iff)

interpretation epoch_codec: codec valid_epoch epoch_value time_or_raise
  by unfold_locales (auto simp: time_or_raise_def time_value_iff split: sum.splits)

definition is_identifier_text :: "string \<Rightarrow> bool" where
  "is_identifier_text s \<longleftrightarrow> list_ex (\<lambda>c. \<not> whitespace c) s \<and> length s \<le> 256"

lemma identifier_text_iff [simp]: "identifier_text v = Some s \<longleftrightarrow> v = PStr s \<and> is_identifier_text s"
  by (cases v) (auto simp: is_identifier_text_def)

lemma identifier_text_ok [simp]: "is_identifier_text s \<Longrightarrow> identifier_text (PStr s) = Some s"
  by (simp add: is_identifier_text_def)

declare identifier_text.simps(1) [simp del]

lemma integer_between_iff [simp]: "integer_between lo hi v = Some n \<longleftrightarrow> v = PInt n \<and> lo \<le> n \<and> n \<le> hi"
  by (cases v) auto

interpretation identifier_codec: codec is_identifier_text PStr identifier_text
  by unfold_locales simp_all

section \<open>Policies\<close>

definition valid_policy :: "controller_policy \<Rightarrow> bool" where
  "valid_policy p \<longleftrightarrow> 1 \<le> minimum_limit p \<and> minimum_limit p \<le> initial_limit p \<and> initial_limit p \<le> maximum_limit p
     \<and> maximum_limit p \<le> HARD_CEILING \<and> 1 \<le> healthy_batches_to_increase p \<and> healthy_batches_to_increase p \<le> 100
     \<and> 1 \<le> max_batch_age_seconds p \<and> max_batch_age_seconds p \<le> 86400
     \<and> 1 \<le> transport_pressure_min_failures p \<and> transport_pressure_min_failures p \<le> 1000
     \<and> (policy_mode p = ''adaptive'' \<and> fixed_limit p = None
        \<or> policy_mode p = ''fixed'' \<and> (\<exists>n. fixed_limit p = Some n \<and> minimum_limit p \<le> n \<and> n \<le> maximum_limit p))"

lemma policy_read: "valid_policy p \<Longrightarrow> policy_from_kwargs (policy_value p) = Some p"
  by (cases p) (auto simp: policy_from_kwargs_def policy_value_def default_controller_def valid_policy_def Let_def HARD_CEILING_def)

lemma policy_read_valid: "policy_from_kwargs v = Some p \<Longrightarrow> valid_policy p"
  unfolding policy_from_kwargs_def Let_def
  by (elim bind_SomeE) (auto simp: valid_policy_def split: if_splits)

interpretation policy_codec: codec valid_policy policy_value policy_from_kwargs
  by unfold_locales (auto intro: policy_read policy_read_valid)

section \<open>Observations\<close>

definition is_count :: "int \<Rightarrow> bool" where
  "is_count n \<longleftrightarrow> 0 \<le> n \<and> n \<le> LARGEST_COUNT"

definition valid_observation :: "batch_observation \<Rightarrow> bool" where
  "valid_observation b \<longleftrightarrow> is_identifier_text (batch_id b) \<and> valid_epoch (started_at b) \<and> valid_epoch (finished_at b)
     \<and> instant (started_at b) \<le> instant (finished_at b) \<and> 1 \<le> limit_used b \<and> limit_used b \<le> HARD_CEILING
     \<and> list_all is_count [eligible_distinct_sources b, eligible_distinct_hosts b, peak_active_tasks b, peak_active_sources b,
         peak_active_hosts b, peak_active_scheduling_hosts b, attempted_tasks b, accepted_progress b,
         eligible_backlog_remaining b, new_access_blocks b, transport_failures b, runtime_errors b, integrity_errors b,
         database_errors b, existing_held_hosts b]
     \<and> publication_status b \<in> set publication_statuses
     \<and> accepted_progress b \<le> attempted_tasks b \<and> peak_active_tasks b \<le> attempted_tasks b
     \<and> peak_active_sources b \<le> peak_active_tasks b \<and> peak_active_scheduling_hosts b \<le> peak_active_tasks b"

declare and_then_Inr [simp]

lemma or_raise_Inr [simp]: "or_raise m = Inr x \<longleftrightarrow> m = Some x"
  by (cases m) (simp_all add: or_raise_def)

lemma observation_counts_valid:
  assumes "observation_counts get ident s f = Some b" "is_identifier_text ident" "valid_epoch s" "valid_epoch f"
  shows "valid_observation b"
  using assms unfolding observation_counts_def Let_def
  apply (elim bind_SomeE)
  apply (simp only: require_simps option.inject integer_between_iff py_iff)
  apply (elim conjE)
  apply hypsubst
  by (simp add: valid_observation_def is_count_def not_less)

lemma observation_read_valid: "observation_from_mapping v = Inr b \<Longrightarrow> valid_observation b"
  unfolding observation_from_mapping_def Let_def
  by (auto simp: time_value_iff elim!: bind_SomeE intro: observation_counts_valid)

lemma observation_read: "valid_observation b \<Longrightarrow> observation_from_mapping (observation_value b) = Inr b"
  by (cases b) (auto simp: observation_from_mapping_def observation_value_def observation_fields_def
    optional_observation_fields_def valid_observation_def observation_counts_def Let_def is_count_def not_less)

lemma observation_or_raise_iff: "observation_or_raise v = Some b \<longleftrightarrow> observation_from_mapping v = Inr b"
  by (auto simp: observation_or_raise_def split: sum.splits)

interpretation observation_codec: codec valid_observation observation_value observation_or_raise
  by unfold_locales (auto simp: observation_or_raise_iff intro: observation_read observation_read_valid)

section \<open>States\<close>

definition valid_history :: "controller \<Rightarrow> bool" where
  "valid_history c \<longleftrightarrow> (if processed_batches c = 0 then last_finished_at c = None \<and> last_observation c = None
     else \<exists>f b. last_finished_at c = Some f \<and> last_observation c = Some b \<and> valid_epoch f \<and> valid_observation b
       \<and> batch_id b = last (recent_batch_ids c) \<and> instant (finished_at b) = instant f
       \<and> instant (created_at c) \<le> instant (started_at b) \<and> instant (finished_at b) \<le> instant (updated_at c))"

definition valid_credit :: "controller_policy \<Rightarrow> controller \<Rightarrow> bool" where
  "valid_credit p c \<longleftrightarrow> 0 \<le> healthy_streak c \<and> healthy_streak c < healthy_batches_to_increase p
     \<and> healthy_streak c \<le> processed_batches c
     \<and> (healthy_streak c = 0 \<or> (\<exists>b. last_observation c = Some b \<and> \<not> contradicts_credit p (task_limit c) (updated_at c) b))"

definition valid_controller :: "controller_policy \<Rightarrow> controller \<Rightarrow> bool" where
  "valid_controller p c \<longleftrightarrow> ct_policy c = p \<and> valid_policy p \<and> valid_epoch (created_at c) \<and> valid_epoch (updated_at c)
     \<and> instant (created_at c) \<le> instant (updated_at c) \<and> minimum_limit p \<le> task_limit c \<and> task_limit c \<le> maximum_limit p
     \<and> 0 \<le> processed_batches c \<and> processed_batches c \<le> LARGEST_COUNT
     \<and> \<not> (policy_mode p = ''fixed'' \<and> (Some (task_limit c) \<noteq> fixed_limit p \<or> healthy_streak c \<noteq> 0))
     \<and> length (recent_batch_ids c) \<le> HISTORY_LIMIT \<and> list_all is_identifier_text (recent_batch_ids c)
     \<and> distinct (recent_batch_ids c) \<and> int (length (recent_batch_ids c)) = min (processed_batches c) (int HISTORY_LIMIT)
     \<and> valid_history c \<and> valid_credit p c
     \<and> 1 \<le> length (last_reasons c) \<and> length (last_reasons c) \<le> 30 \<and> list_all is_identifier_text (last_reasons c)"

lemma dict_equal_refl [simp]: "dict_equal (PDict kv) (PDict kv)"
  by (simp add: dict_equal_def list_all_iff)

lemma dict_equal_policy [simp]: "dict_equal (policy_value p) (policy_value p)"
  by (simp add: policy_value_def)

lemma identifiers_read: "list_all is_identifier_text ss \<Longrightarrow> traverse identifier_text (map PStr ss) = Some ss"
  by (rule identifier_codec.list_dec_enc) (simp add: list_all_iff)

lemma identifiers_valid: "traverse identifier_text vs = Some ss \<Longrightarrow> list_all is_identifier_text ss \<and> length vs = length ss"
  using identifier_codec.list_dec_valid [of vs ss] traverse_length [of identifier_text vs ss] by (auto simp: list_all_iff)

lemma state_fields: "set (map fst kv) = set STATE_FIELDS" if "state_value c = PDict kv"
  using that by (auto simp: state_value_def STATE_FIELDS_def)

lemma epoch_read [simp]: "valid_epoch t \<Longrightarrow> time_or_raise (epoch_value t) = Some t"
  by (rule epoch_codec.dec_enc)

lemma observation_read_or_raise [simp]: "valid_observation b \<Longrightarrow> observation_or_raise (observation_value b) = Some b"
  by (rule observation_codec.dec_enc)

lemma state_read:
  assumes "valid_controller p c"
  shows "validate_state (state_value c) p = Some c"
proof -
  have v: "ct_policy c = p" "valid_policy p" "valid_epoch (created_at c)" "valid_epoch (updated_at c)"
    "\<not> instant (updated_at c) < instant (created_at c)" "minimum_limit p \<le> task_limit c" "task_limit c \<le> maximum_limit p"
    "0 \<le> processed_batches c" "processed_batches c \<le> LARGEST_COUNT"
    "\<not> (policy_mode p = ''fixed'' \<and> (Some (task_limit c) \<noteq> fixed_limit p \<or> healthy_streak c \<noteq> 0))"
    "length (recent_batch_ids c) \<le> HISTORY_LIMIT" "traverse identifier_text (map PStr (recent_batch_ids c)) = Some (recent_batch_ids c)"
    "set_size (recent_batch_ids c) = length (recent_batch_ids c)"
    "int (length (recent_batch_ids c)) = min (processed_batches c) (int HISTORY_LIMIT)"
    "1 \<le> length (last_reasons c)" "length (last_reasons c) \<le> 30"
    "traverse identifier_text (map PStr (last_reasons c)) = Some (last_reasons c)"
    using assms by (simp_all add: valid_controller_def identifiers_read)
  have s: "0 \<le> healthy_streak c" "healthy_streak c \<le> healthy_batches_to_increase p - 1" "healthy_streak c \<le> processed_batches c"
    using assms by (simp_all add: valid_controller_def valid_credit_def)
  show ?thesis
  proof (cases "processed_batches c = 0")
    case True
    then have h: "last_finished_at c = None" "last_observation c = None" "healthy_streak c = 0"
      using assms s by (simp_all add: valid_controller_def valid_history_def)
    show ?thesis
      by (cases c) (use v s h True in \<open>simp add: validate_state_def state_value_def STATE_FIELDS_def policy_read\<close>)
  next
    case False
    then obtain f b where h: "last_finished_at c = Some f" "last_observation c = Some b" "valid_epoch f" "valid_observation b"
      "batch_id b = last (recent_batch_ids c)" "instant (finished_at b) = instant f"
      "instant (created_at c) \<le> instant (started_at b)" "instant (finished_at b) \<le> instant (updated_at c)"
      using assms by (auto simp: valid_controller_def valid_history_def)
    have order: "instant (started_at b) \<le> instant (finished_at b)" using h(4) by (simp add: valid_observation_def)
    have credit: "\<not> (healthy_streak c \<noteq> 0 \<and> contradicts_credit p (task_limit c) (updated_at c) b)"
      using assms h(2) by (auto simp: valid_controller_def valid_credit_def)
    show ?thesis
      by (cases c) (use v s h order credit False in \<open>simp add: validate_state_def state_value_def STATE_FIELDS_def policy_read\<close>)
  qed
qed

lemma state_read_valid:
  assumes "validate_state v p = Some c" "valid_policy p"
  shows "valid_controller p c"
  using assms unfolding validate_state_def Let_def
  apply (elim bind_SomeE)
  apply (simp only: require_simps option.inject integer_between_iff py_iff)
  apply (elim conjE)
  apply hypsubst
  apply (drule identifiers_valid)+
  by (auto simp: valid_controller_def valid_history_def valid_credit_def dest!: epoch_codec.dec_valid observation_codec.dec_valid
    elim!: bind_SomeE split: if_splits)

end
