(* ===== verification/ConcurrencyRuns.thy ===== *)
theory ConcurrencyRuns
  imports ConcurrencyCodecs
begin

text \<open>
  The steps of the concurrency controller: what a call does to a state that passes
  \<open>validate_state\<close>, and that the state it returns passes again.
\<close>

section \<open>A call on a valid state\<close>

lemma valid_controller_policy: "valid_controller p c \<Longrightarrow> valid_policy p \<and> ct_policy c = p"
  by (simp add: valid_controller_def)

lemma time_or_raise_Some: "time_or_raise v = Some t \<longleftrightarrow> v = epoch_value t \<and> valid_epoch t"
  using time_value_iff [of v t] by (auto simp: time_or_raise_def split: sum.splits)

lemma current_state_valid:
  "valid_controller p c \<Longrightarrow> current_state (state_value c) p now = Some (d, t) \<longleftrightarrow>
     d = c \<and> now = epoch_value t \<and> valid_epoch t \<and> instant (updated_at c) \<le> instant t"
  by (auto simp: current_state_def state_read not_less time_or_raise_Some bind_eq_Some_conv)

definition interrupted :: "controller \<Rightarrow> epoch \<Rightarrow> string \<Rightarrow> decision" where
  "interrupted c t reason = decision_of (c\<lparr>healthy_streak := 0, updated_at := t\<rparr>) (task_limit c)
     [''control_cycle_interrupted'', reason] False False None"

definition ignored :: "controller \<Rightarrow> batch_observation \<Rightarrow> decision" where
  "ignored c b = \<lparr>dn_state = c, dn_limit = task_limit c, dn_previous_limit = task_limit c, dn_action = ''hold'',
     dn_reasons = [''duplicate_batch_ignored''], dn_qualifying = False, dn_consumed = False,
     dn_observation = Some b, dn_global_completeness_certified = False\<rparr>"

definition refusals :: "string list" where
  "refusals = [''invalid_or_missing_batch_metrics'', ''future_overlapping_or_out_of_order_batch'']"

lemma interrupt_valid:
  assumes "valid_controller p c"
  shows "interrupt (state_value c) p now reason = Some d \<longleftrightarrow> (\<exists>t. now = epoch_value t \<and> valid_epoch t
    \<and> instant (updated_at c) \<le> instant t \<and> is_identifier_text reason \<and> d = interrupted c t reason)"
  by (auto simp: interrupt_def interrupted_def bind_eq_Some_conv current_state_valid [OF assms])

lemma decide_cases:
  assumes "valid_controller p c" "decide (state_value c) observation p now = Some d"
  obtains (refused) t reason where "now = epoch_value t" "valid_epoch t" "instant (updated_at c) \<le> instant t"
      "reason \<in> set refusals" "is_identifier_text reason" "d = interrupted c t reason"
  | (duplicate) b where "observation_from_mapping observation = Inr b" "batch_id b \<in> set (recent_batch_ids c)" "d = ignored c b"
  | (consumed) t b where "now = epoch_value t" "valid_epoch t" "instant (updated_at c) \<le> instant t"
      "observation_from_mapping observation = Inr b" "valid_observation b"
      "batch_id b \<notin> set (recent_batch_ids c)" "\<not> out_of_order c t b" "d = consume_batch c p t b"
proof -
  obtain t where t: "now = epoch_value t" "valid_epoch t" "instant (updated_at c) \<le> instant t"
    and cs: "current_state (state_value c) p now = Some (c, t)"
    using assms(2) by (auto simp: decide_def bind_eq_Some_conv current_state_valid [OF assms(1)])
  have body: "decide (state_value c) observation p now = (case observation_from_mapping observation of
        Inl ValueRaised \<Rightarrow> interrupt (state_value c) p now ''invalid_or_missing_batch_metrics''
      | Inl OverflowRaised \<Rightarrow> None
      | Inr b \<Rightarrow> if batch_id b \<in> set (recent_batch_ids c) then Some (ignored c b)
          else if out_of_order c t b then interrupt (state_value c) p now ''future_overlapping_or_out_of_order_batch''
          else Some (consume_batch c p t b))"
    by (simp add: decide_def cs ignored_def split: sum.splits raised.splits)
  show thesis
  proof (cases "observation_from_mapping observation")
    case (Inl e)
    then show thesis
      using assms(2) t refused unfolding body interrupt_valid [OF assms(1)]
      by (cases e) (auto simp: interrupt_valid [OF assms(1)] refusals_def)
  next
    case (Inr b)
    then have "valid_observation b" by (rule observation_read_valid)
    then show thesis
      using assms(2) t Inr refused duplicate consumed unfolding body
      by (auto simp: interrupt_valid [OF assms(1)] refusals_def split: if_splits)
  qed
qed

section \<open>What a consumed batch does\<close>

text \<open>The state of \<open>decide\<close> after it has taken note of the batch.\<close>

definition noted :: "controller \<Rightarrow> epoch \<Rightarrow> batch_observation \<Rightarrow> controller" where
  "noted c t b = c\<lparr>updated_at := t, processed_batches := processed_batches c + 1,
     recent_batch_ids := keep_last HISTORY_LIMIT (recent_batch_ids c @ [batch_id b]),
     last_finished_at := Some (finished_at b), last_observation := Some b, healthy_streak := 0\<rparr>"

text \<open>Verified, free of errors, saturated and with more hosts to go: what earns credit.\<close>

definition healthy_evidence :: "int \<Rightarrow> batch_observation \<Rightarrow> bool" where
  "healthy_evidence l b \<longleftrightarrow> publication_status b = ''verified'' \<and> control_cycle_complete b \<and> \<not> killed b
     \<and> new_access_blocks b = 0 \<and> transport_failures b = 0 \<and> runtime_errors b = 0 \<and> integrity_errors b = 0
     \<and> database_errors b = 0 \<and> limit_used b = l \<and> peak_active_tasks b = l \<and> l \<le> peak_active_sources b
     \<and> l \<le> peak_active_scheduling_hosts b \<and> l \<le> accepted_progress b \<and> 0 < eligible_backlog_remaining b
     \<and> l < eligible_distinct_sources b \<and> l < eligible_distinct_hosts b"

definition too_old :: "controller_policy \<Rightarrow> epoch \<Rightarrow> batch_observation \<Rightarrow> bool" where
  "too_old p t b \<longleftrightarrow> instant t - instant (finished_at b) > of_int (max_batch_age_seconds p)"

definition next_credit :: "controller \<Rightarrow> controller_policy \<Rightarrow> epoch \<Rightarrow> int" where
  "next_credit c p t = (if credit_expired c p t then 0 else healthy_streak c) + 1"

lemma no_reasons_healthy:
  assumes "pressure_reasons p b = []" "hold_reasons l u b = []" "valid_observation b"
  shows "healthy_evidence l b"
proof -
  have "0 \<le> eligible_backlog_remaining b" using assms(3) by (simp add: valid_observation_def is_count_def)
  then show ?thesis
    using assms(1,2) by (auto simp: pressure_reasons_def hold_reasons_def healthy_evidence_def min_def split: if_splits)
qed

definition controller_reasons :: "string list \<Rightarrow> bool" where
  "controller_reasons rs \<longleftrightarrow> 1 \<le> length rs \<and> length rs \<le> 30 \<and> list_all is_identifier_text rs"

lemma consume_reasons: "controller_reasons (dn_reasons (consume_batch c p t b))"
proof -
  have p: "length (pressure_reasons p b) \<le> 5" "list_all is_identifier_text (pressure_reasons p b)"
    by (simp_all add: pressure_reasons_def is_identifier_text_def whitespace_def byte_val_def)
  have h: "length (hold_reasons l u b) \<le> 8" "list_all is_identifier_text (hold_reasons l u b)" for l u
    by (simp_all add: hold_reasons_def is_identifier_text_def whitespace_def byte_val_def)
  have n: "rs \<noteq> [] \<Longrightarrow> Suc 0 \<le> length rs" for rs :: "string list" by (cases rs) auto
  show ?thesis
    using p h [of "task_limit c" "updated_at c"]
    by (auto simp: consume_batch_def Let_def decision_of_def controller_reasons_def is_identifier_text_def whitespace_def
        byte_val_def Suc_le_eq)
qed

lemma consume_cases:
  assumes "valid_observation b"
  obtains (held) rs where "consume_batch c p t b = decision_of (noted c t b) (task_limit c) rs False True (Some b)"
      "policy_mode p = ''fixed'' \<or> pressure_reasons p b = [] \<or> too_old p t b"
  | (backoff) rs where "consume_batch c p t b =
        decision_of (noted c t b\<lparr>task_limit := max (minimum_limit p) (task_limit c - 1)\<rparr>) (task_limit c) rs False True (Some b)"
      "policy_mode p \<noteq> ''fixed''" "pressure_reasons p b \<noteq> []" "\<not> too_old p t b"
  | (grown) rs where "consume_batch c p t b =
        decision_of (noted c t b\<lparr>task_limit := task_limit c + 1\<rparr>) (task_limit c) rs True True (Some b)"
      "policy_mode p \<noteq> ''fixed''" "\<not> too_old p t b" "healthy_evidence (task_limit c) b" "pressure_reasons p b = []"
      "task_limit c < maximum_limit p" "next_credit c p t = healthy_batches_to_increase p"
  | (credited) rs where "consume_batch c p t b =
        decision_of (noted c t b\<lparr>healthy_streak := next_credit c p t\<rparr>) (task_limit c) rs True True (Some b)"
      "policy_mode p \<noteq> ''fixed''" "\<not> too_old p t b" "healthy_evidence (task_limit c) b" "pressure_reasons p b = []"
      "task_limit c < maximum_limit p" "next_credit c p t \<noteq> healthy_batches_to_increase p"
proof -
  note body = consume_batch_def [of c p t b, unfolded Let_def, folded noted_def too_old_def, folded next_credit_def]
  show thesis
  proof (cases "too_old p t b")
    case True
    then show thesis by (intro held [OF trans [OF body if_P]]) simp_all
  next
    case fresh: False
    note body1 = trans [OF body if_not_P [OF fresh]]
    show thesis
    proof (cases "policy_mode p = ''fixed''")
      case True
      then show thesis by (intro held [OF trans [OF body1 if_P]]) simp_all
    next
      case adaptive: False
      note body2 = trans [OF body1 if_not_P [OF adaptive]]
      show thesis
      proof (cases "pressure_reasons p b = []")
        case False
        then show thesis by (intro backoff [OF trans [OF body2 if_P]] adaptive fresh)
      next
        case calm: True
        then have "\<not> pressure_reasons p b \<noteq> []" by simp
        note body3 = trans [OF body2 if_not_P [OF this]]
        show thesis
        proof (cases "hold_reasons (task_limit c) (updated_at c) b = []")
          case False
          then show thesis by (intro held [OF trans [OF body3 if_P]] disjI2 disjI1 calm)
        next
          case True
          then have "\<not> hold_reasons (task_limit c) (updated_at c) b \<noteq> []" by simp
          note body4 = trans [OF body3 if_not_P [OF this]]
          have healthy: "healthy_evidence (task_limit c) b" using no_reasons_healthy [OF calm True assms] .
          show thesis
          proof (cases "maximum_limit p \<le> task_limit c")
            case True
            then show thesis by (intro held [OF trans [OF body4 if_P]] disjI2 disjI1 calm)
          next
            case False
            note body5 = trans [OF body4 if_not_P [OF False]]
            have below: "task_limit c < maximum_limit p" using False by simp
            show thesis
            proof (cases "next_credit c p t = healthy_batches_to_increase p")
              case True
              show thesis
                by (rule grown [OF trans [OF body5 if_P] adaptive fresh healthy calm below]) (rule True)+
            next
              case False
              show thesis
                by (rule credited [OF trans [OF body5 if_not_P] adaptive fresh healthy calm below]) (rule False)+
            qed
          qed
        qed
      qed
    qed
  qed
qed

section \<open>The state stays valid\<close>

lemma keep_last_snoc:
  assumes "length xs \<le> n" "0 < n"
  shows "keep_last n (xs @ [x]) = (if length xs < n then xs else tl xs) @ [x]"
proof (cases "length xs < n")
  case False
  then have "length xs = n" using assms by simp
  then show ?thesis using assms by (cases xs) (simp_all add: keep_last_def)
qed (simp add: keep_last_def)

lemma noted_valid:
  assumes c: "valid_controller p c" and b: "valid_observation b" and t: "valid_epoch t" "instant (updated_at c) \<le> instant t"
    and new: "batch_id b \<notin> set (recent_batch_ids c)" "\<not> out_of_order c t b" and room: "processed_batches c < LARGEST_COUNT"
    and l: "minimum_limit p \<le> l" "l \<le> maximum_limit p" and fixed: "policy_mode p = ''fixed'' \<Longrightarrow> l = task_limit c \<and> s = 0"
    and s: "0 \<le> s" "s < healthy_batches_to_increase p" "s \<le> processed_batches c + 1"
    and credit: "s = 0 \<or> \<not> contradicts_credit p l t b" and rs: "controller_reasons rs"
  shows "valid_controller p (noted c t b\<lparr>task_limit := l, healthy_streak := s, last_reasons := rs\<rparr>)"
proof -
  let ?ids = "recent_batch_ids c"
  have v: "valid_policy p" "ct_policy c = p" "valid_epoch (created_at c)" "instant (created_at c) \<le> instant (updated_at c)"
    "0 \<le> processed_batches c" "length ?ids \<le> HISTORY_LIMIT" "list_all is_identifier_text ?ids" "distinct ?ids"
    "int (length ?ids) = min (processed_batches c) (int HISTORY_LIMIT)"
    and fx: "policy_mode p = ''fixed'' \<Longrightarrow> Some (task_limit c) = fixed_limit p"
    using c by (auto simp: valid_controller_def)
  have ids: "keep_last HISTORY_LIMIT (?ids @ [batch_id b]) = (if length ?ids < HISTORY_LIMIT then ?ids else tl ?ids) @ [batch_id b]"
    using v(6) by (simp add: keep_last_snoc HISTORY_LIMIT_def)
  have tl: "list_all is_identifier_text (tl ?ids)" "distinct (tl ?ids)" "batch_id b \<notin> set (tl ?ids)"
    using v(7,8) new(1) by (auto simp: list_all_iff distinct_tl dest: list.set_sel(2) [rotated])
       (metis list.sel(2) list.set_sel(2))+
  have len: "int (length (keep_last HISTORY_LIMIT (?ids @ [batch_id b]))) = min (processed_batches c + 1) (int HISTORY_LIMIT)"
    using v(5,6,9) unfolding ids by (auto simp: min_def HISTORY_LIMIT_def split: if_splits)
  have "length (keep_last HISTORY_LIMIT (?ids @ [batch_id b])) \<le> HISTORY_LIMIT"
    "list_all is_identifier_text (keep_last HISTORY_LIMIT (?ids @ [batch_id b]))"
    "distinct (keep_last HISTORY_LIMIT (?ids @ [batch_id b]))" "last (keep_last HISTORY_LIMIT (?ids @ [batch_id b])) = batch_id b"
    using len v(6,7,8) tl new(1) b unfolding ids by (auto simp: valid_observation_def)
  moreover have "instant (created_at c) \<le> instant (started_at b)" "instant (finished_at b) \<le> instant t"
    using new(2) by (auto simp: out_of_order_def)
  moreover have "valid_epoch (finished_at b)" using b by (simp add: valid_observation_def)
  ultimately show ?thesis
    using v fx fixed l s credit rs t room b len
    by (auto simp: valid_controller_def noted_def valid_history_def valid_credit_def controller_reasons_def)
qed

lemma healthy_credit: "healthy_evidence l b \<Longrightarrow> \<not> too_old p t b \<Longrightarrow> \<not> contradicts_credit p l t b"
  by (auto simp: healthy_evidence_def contradicts_credit_def too_old_def)

lemma next_credit_bounds:
  "valid_controller p c \<Longrightarrow> 1 \<le> next_credit c p t \<and> next_credit c p t \<le> healthy_batches_to_increase p
     \<and> next_credit c p t \<le> processed_batches c + 1"
  by (auto simp: next_credit_def valid_controller_def valid_credit_def valid_policy_def)

lemma noted_streak [simp]: "noted c t b\<lparr>healthy_streak := 0\<rparr> = noted c t b"
  "noted c t b\<lparr>task_limit := task_limit c\<rparr> = noted c t b"
  "noted c t b\<lparr>task_limit := l, healthy_streak := 0\<rparr> = noted c t b\<lparr>task_limit := l\<rparr>"
  by (simp_all add: noted_def)

lemma consume_valid:
  assumes c: "valid_controller p c" and b: "valid_observation b" and t: "valid_epoch t" "instant (updated_at c) \<le> instant t"
    and new: "batch_id b \<notin> set (recent_batch_ids c)" "\<not> out_of_order c t b" and room: "processed_batches c < LARGEST_COUNT"
  shows "valid_controller p (dn_state (consume_batch c p t b))"
proof -
  note valid = noted_valid [OF c b t new room]
  have l: "minimum_limit p \<le> task_limit c" "task_limit c \<le> maximum_limit p" and h: "0 < healthy_batches_to_increase p"
    and processed: "0 \<le> processed_batches c"
    using c by (auto simp: valid_controller_def valid_policy_def)
  note credit = next_credit_bounds [OF c, of t]
  show ?thesis
  proof (rule consume_cases [OF b, of c p t])
    fix rs assume d: "consume_batch c p t b = decision_of (noted c t b) (task_limit c) rs False True (Some b)"
    then have "controller_reasons rs" using consume_reasons [of c p t b] by (simp add: decision_of_def)
    then show ?thesis using valid [of "task_limit c" 0 rs] l h processed by (simp add: d decision_of_def)
  next
    fix rs assume d: "consume_batch c p t b =
        decision_of (noted c t b\<lparr>task_limit := max (minimum_limit p) (task_limit c - 1)\<rparr>) (task_limit c) rs False True (Some b)"
      and adaptive: "policy_mode p \<noteq> ''fixed''"
    then have "controller_reasons rs" using consume_reasons [of c p t b] by (simp add: decision_of_def)
    then show ?thesis using valid [of "max (minimum_limit p) (task_limit c - 1)" 0 rs] l h processed adaptive
      by (simp add: d decision_of_def)
  next
    fix rs assume d: "consume_batch c p t b =
        decision_of (noted c t b\<lparr>task_limit := task_limit c + 1\<rparr>) (task_limit c) rs True True (Some b)"
      and adaptive: "policy_mode p \<noteq> ''fixed''" and below: "task_limit c < maximum_limit p"
    then have "controller_reasons rs" using consume_reasons [of c p t b] by (simp add: decision_of_def)
    then show ?thesis using valid [of "task_limit c + 1" 0 rs] l h processed adaptive below by (simp add: d decision_of_def)
  next
    fix rs assume d: "consume_batch c p t b =
        decision_of (noted c t b\<lparr>healthy_streak := next_credit c p t\<rparr>) (task_limit c) rs True True (Some b)"
      and adaptive: "policy_mode p \<noteq> ''fixed''" and fresh: "\<not> too_old p t b" "healthy_evidence (task_limit c) b"
      and next_c: "next_credit c p t \<noteq> healthy_batches_to_increase p"
    then have "controller_reasons rs" using consume_reasons [of c p t b] by (simp add: decision_of_def)
    then show ?thesis
      using valid [of "task_limit c" "next_credit c p t" rs] l credit adaptive next_c healthy_credit [OF fresh(2,1)]
      by (simp add: d decision_of_def)
  qed
qed

lemma interrupted_valid:
  assumes "valid_controller p c" "valid_epoch t" "instant (updated_at c) \<le> instant t" "is_identifier_text reason"
  shows "valid_controller p (dn_state (interrupted c t reason))"
  using assms
  by (fastforce simp: valid_controller_def interrupted_def decision_of_def valid_history_def valid_credit_def is_identifier_text_def
      whitespace_def byte_val_def valid_policy_def split: if_splits)

lemma decide_valid:
  assumes c: "valid_controller p c" and d: "decide (state_value c) observation p now = Some d"
    and room: "processed_batches c < LARGEST_COUNT"
  shows "valid_controller p (dn_state d)"
  using c d
proof (cases rule: decide_cases)
  case (refused t reason)
  then show ?thesis using interrupted_valid c by metis
next
  case (duplicate b)
  then show ?thesis using c by (simp add: ignored_def)
next
  case (consumed t b)
  then show ?thesis using consume_valid [OF c] room by metis
qed

lemma interrupt_stays_valid:
  "valid_controller p c \<Longrightarrow> interrupt (state_value c) p now reason = Some d \<Longrightarrow> valid_controller p (dn_state d)"
  using interrupted_valid by (auto simp: interrupt_valid)

lemma initial_controller_valid:
  assumes "valid_policy p" "initial_controller p now = Some c"
  shows "valid_controller p c"
proof -
  have fixed: "policy_mode p = ''fixed'' \<Longrightarrow> \<exists>n. fixed_limit p = Some n \<and> minimum_limit p \<le> n \<and> n \<le> maximum_limit p"
    using assms(1) by (auto simp: valid_policy_def)
  show ?thesis
    using assms fixed
    by (auto simp: initial_controller_def bind_eq_Some_conv time_or_raise_Some valid_controller_def policy_limit_def
        valid_history_def valid_credit_def valid_policy_def is_identifier_text_def whitespace_def byte_val_def
        LARGEST_COUNT_def)
qed

lemma reconfigure_valid:
  assumes "reconfigure_state v p now requested = Some c" "valid_policy p"
  shows "valid_controller p c"
proof -
  obtain old c' t where old: "valid_policy old" and cur: "current_state v old now = Some (c', t)"
    and res: "old = p \<and> c = c' \<or> (\<exists>w. validate_state w p = Some c)"
    using assms(1) by (auto simp: reconfigure_state_def bind_eq_Some_conv Let_def dest!: policy_read_valid split: if_splits)
  have "valid_controller old c'"
    using cur old by (auto simp: current_state_def bind_eq_Some_conv intro: state_read_valid)
  then show ?thesis using res assms(2) by (auto intro: state_read_valid)
qed

end
