(* ===== verification/ConcurrencyHistory.thy ===== *)
theory ConcurrencyHistory
  imports ConcurrencyRuns
begin

text \<open>
  Runs of the concurrency controller.  The caller keeps the state that a call returns, and the one
  it had when the call raises; terminal batches, interruptions and operator changes come in any
  order, with any values.
\<close>

section \<open>Runs\<close>

datatype control_event = Terminal py_value py_value | Crash string py_value | Reconfigure py_value py_value py_value

fun verdict :: "controller \<Rightarrow> control_event \<Rightarrow> decision option" where
  "verdict c (Terminal observation now) = decide (state_value c) observation (ct_policy c) now"
| "verdict c (Crash reason now) = interrupt (state_value c) (ct_policy c) now reason"
| "verdict c (Reconfigure kwargs now requested) = None"

definition reconfigured :: "controller \<Rightarrow> py_value \<Rightarrow> py_value \<Rightarrow> py_value \<Rightarrow> controller option" where
  "reconfigured c kwargs now requested = do {
     p \<leftarrow> policy_from_kwargs kwargs;
     reconfigure_state (state_value c) p now requested }"

fun respond :: "controller \<Rightarrow> control_event \<Rightarrow> controller" where
  "respond c (Reconfigure kwargs now requested) =
     (case reconfigured c kwargs now requested of None \<Rightarrow> c | Some c' \<Rightarrow> c')"
| "respond c e = (case verdict c e of None \<Rightarrow> c | Some d \<Rightarrow> dn_state d)"

definition run_controller :: "controller \<Rightarrow> control_event list \<Rightarrow> controller" where
  "run_controller = foldl respond"

definition sound_controller :: "controller \<Rightarrow> bool" where
  "sound_controller c \<longleftrightarrow> valid_controller (ct_policy c) c"

lemma run_controller_simps [simp]:
  "run_controller c [] = c" "run_controller c (es @ [e]) = respond (run_controller c es) e"
  by (simp_all add: run_controller_def)

section \<open>One response\<close>

definition reset_controller :: "controller \<Rightarrow> controller_policy \<Rightarrow> epoch \<Rightarrow> int \<Rightarrow> string list \<Rightarrow> controller" where
  "reset_controller c p t n rs =
     c\<lparr>ct_policy := p, updated_at := t, healthy_streak := 0, task_limit := n, last_reasons := rs\<rparr>"

lemma reset_valid:
  assumes "valid_controller q c" "valid_policy p" "valid_epoch t" "instant (updated_at c) \<le> instant t"
    "minimum_limit p \<le> n" "n \<le> maximum_limit p" "policy_mode p = ''fixed'' \<Longrightarrow> Some n = fixed_limit p" "controller_reasons rs"
  shows "valid_controller p (reset_controller c p t n rs)"
proof -
  have h: "valid_history c" "instant (created_at c) \<le> instant (updated_at c)" "1 \<le> healthy_batches_to_increase p"
    using assms(1,2) by (auto simp: valid_controller_def valid_policy_def)
  then have "valid_history (reset_controller c p t n rs)"
    using assms(4) unfolding valid_history_def reset_controller_def by (auto split: if_splits)
  moreover have "valid_credit p (reset_controller c p t n rs)"
    using assms(1) h(3) by (simp add: valid_credit_def reset_controller_def valid_controller_def)
  ultimately show ?thesis
    using assms h(2) by (simp add: valid_controller_def reset_controller_def controller_reasons_def)
qed

lemma state_fields_of: "\<exists>kv. state_value c = PDict kv \<and> map_of kv ''policy'' = Some (policy_value (ct_policy c))"
  by (simp add: state_value_def)

definition asked_limit :: "controller_policy \<Rightarrow> controller \<Rightarrow> int option \<Rightarrow> int" where
  "asked_limit p c asked = (case asked of
     None \<Rightarrow> if policy_mode p = ''fixed'' then the (fixed_limit p)
       else min (maximum_limit p) (max (minimum_limit p) (task_limit c))
   | Some n \<Rightarrow> n)"

definition change_reasons :: "int option \<Rightarrow> string list" where
  "change_reasons asked = ''explicit_policy_change_health_credit_reset''
     # (if asked = None then [] else [''explicit_operator_limit_change''])"

lemma change_reasons_ok: "controller_reasons (change_reasons asked)"
  by (simp add: controller_reasons_def change_reasons_def is_identifier_text_def whitespace_def byte_val_def)

lemma reconfigure_cases:
  assumes c: "valid_controller q c" and p: "valid_policy p"
    and re: "reconfigure_state (state_value c) p now requested = Some c'"
  obtains "c' = c" "q = p" | t n rs where "c' = reset_controller c p t n rs" "valid_controller p c'"
proof -
  have q: "ct_policy c = q" "policy_from_kwargs (policy_value q) = Some q"
    using c by (auto simp: valid_controller_def intro: policy_read)
  obtain kv where kv: "state_value c = PDict kv" "map_of kv ''policy'' = Some (policy_value q)"
    using state_fields_of [of c] q(1) by auto
  obtain t asked where t: "valid_epoch t" "instant (updated_at c) \<le> instant t"
    and asked: "case asked of None \<Rightarrow> True | Some n \<Rightarrow> minimum_limit p \<le> n \<and> n \<le> maximum_limit p \<and> policy_mode p = ''adaptive''"
    and res: "(if q = p \<and> requested = PNone then Some c
      else validate_state (state_value (reset_controller c p t (asked_limit p c asked) (change_reasons asked)))
        p) = Some c'"
  proof -
    obtain t where cs: "current_state (state_value c) q now = Some (c, t)"
      using re by (auto simp: reconfigure_state_def kv q(2) bind_eq_Some_conv current_state_valid [OF c, unfolded kv(1)])
    then have t: "valid_epoch t" "instant (updated_at c) \<le> instant t" by (simp_all add: current_state_valid [OF c])
    have body: "reconfigure_state (state_value c) p now requested =
      ((if requested = PNone then Some None else do {
         n \<leftarrow> integer_between (minimum_limit p) (maximum_limit p) requested;
         require (policy_mode p = ''adaptive'');
         Some (Some n) }) \<bind> (\<lambda>asked. if q = p \<and> requested = PNone then Some c
      else validate_state (state_value (reset_controller c p t (asked_limit p c asked) (change_reasons asked)))
        p))"
      by (simp add: reconfigure_state_def kv q(2) cs [unfolded kv(1)] Let_def reset_controller_def asked_limit_def change_reasons_def cong: if_cong option.case_cong)
    obtain asked where asked: "(if requested = PNone then Some None else do {
         n \<leftarrow> integer_between (minimum_limit p) (maximum_limit p) requested;
         require (policy_mode p = ''adaptive'');
         Some (Some n) }) = Some asked"
      and res: "(if q = p \<and> requested = PNone then Some c
      else validate_state (state_value (reset_controller c p t (asked_limit p c asked) (change_reasons asked)))
        p) = Some c'"
      using re unfolding body by (elim bind_SomeE)
    have "case asked of None \<Rightarrow> True | Some n \<Rightarrow> minimum_limit p \<le> n \<and> n \<le> maximum_limit p \<and> policy_mode p = ''adaptive''"
      using asked by (auto simp: bind_eq_Some_conv split: if_splits)
    then show thesis by (rule that [OF t _ res])
  qed
  show thesis
  proof (cases "q = p \<and> requested = PNone")
    case True
    then show thesis using res that(1) by simp
  next
    case False
    let ?n = "asked_limit p c asked"
    have "minimum_limit p \<le> ?n \<and> ?n \<le> maximum_limit p \<and> (policy_mode p = ''fixed'' \<longrightarrow> Some ?n = fixed_limit p)"
      using asked p by (auto simp: asked_limit_def valid_policy_def min_def max_def split: option.splits)
    then have v: "valid_controller p (reset_controller c p t ?n (change_reasons asked))"
      using reset_valid [OF c p t, of ?n] change_reasons_ok [of asked] by blast
    have "c' = reset_controller c p t ?n (change_reasons asked)"
      using res unfolding if_not_P [OF False] by (simp add: state_read [OF v])
    then show thesis using that(2) v by blast
  qed
qed

lemma sound_reconfigured:
  assumes "sound_controller c" "reconfigured c kwargs now requested = Some c'"
  shows "sound_controller c' \<and> processed_batches c' = processed_batches c \<and> (c' = c \<or> healthy_streak c' = 0)
    \<and> last_finished_at c' = last_finished_at c"
proof -
  obtain p where p: "valid_policy p" and re: "reconfigure_state (state_value c) p now requested = Some c'"
    using assms(2) by (auto simp: reconfigured_def bind_eq_Some_conv dest: policy_read_valid)
  show ?thesis
    by (rule reconfigure_cases [OF assms(1) [unfolded sound_controller_def] p re], insert assms(1))
       (auto simp: reset_controller_def sound_controller_def)
qed

lemma decide_fields:
  assumes "valid_controller p c" "decide (state_value c) observation p now = Some d"
  shows "ct_policy (dn_state d) = p \<and> processed_batches (dn_state d) \<le> processed_batches c + 1"
  using assms
proof (cases rule: decide_cases)
  case (consumed t b)
  show ?thesis
    by (rule consume_cases [OF consumed(5), of c p t])
       (use assms(1) in \<open>simp_all add: consumed(8) decision_of_def noted_def valid_controller_def\<close>)
qed (use assms(1) in \<open>simp_all add: interrupted_def decision_of_def ignored_def valid_controller_def\<close>)

lemma interrupt_fields:
  "valid_controller p c \<Longrightarrow> interrupt (state_value c) p now reason = Some d \<Longrightarrow>
     ct_policy (dn_state d) = p \<and> processed_batches (dn_state d) = processed_batches c"
  using valid_controller_policy [of p c] by (auto simp: interrupt_valid interrupted_def decision_of_def)

lemma respond_sound:
  assumes "sound_controller c" "processed_batches c < LARGEST_COUNT"
  shows "sound_controller (respond c e) \<and> processed_batches (respond c e) \<le> processed_batches c + 1"
proof (cases e)
  case (Terminal observation now)
  then show ?thesis
    using assms decide_valid [of "ct_policy c" c observation now] decide_fields [of "ct_policy c" c observation now]
    by (auto simp: sound_controller_def split: option.splits)
next
  case (Crash reason now)
  then show ?thesis
    using assms interrupt_stays_valid [of "ct_policy c" c now reason] interrupt_fields [of "ct_policy c" c now reason]
    by (auto simp: sound_controller_def split: option.splits)
next
  case (Reconfigure kwargs now requested)
  then show ?thesis using assms sound_reconfigured [of c kwargs now requested] by (auto split: option.splits)
qed

lemma run_sound:
  assumes "sound_controller c" "processed_batches c = 0" "int (length es) \<le> LARGEST_COUNT"
  shows "sound_controller (run_controller c es) \<and> processed_batches (run_controller c es) \<le> int (length es)"
  using assms(3)
proof (induction es rule: rev_induct)
  case Nil
  then show ?case using assms by simp
next
  case (snoc e es)
  then show ?case using respond_sound [of "run_controller c es" e] by auto
qed

lemma initial_sound:
  assumes "policy_from_kwargs kwargs = Some p" "initial_controller p now = Some c"
  shows "sound_controller c \<and> processed_batches c = 0 \<and> healthy_streak c = 0 \<and> last_finished_at c = None"
  using initial_controller_valid [OF policy_read_valid [OF assms(1)] assms(2)] assms(2)
  by (auto simp: sound_controller_def initial_controller_def bind_eq_Some_conv)

section \<open>What changed the state\<close>

text \<open>The verdicts of the events that changed the state, in order; an operator's change has none.\<close>

fun effects :: "controller \<Rightarrow> control_event list \<Rightarrow> decision option list" where
  "effects c [] = []"
| "effects c (e # es) = (if respond c e = c then effects c es else verdict c e # effects (respond c e) es)"

lemma effects_append:
  "effects c (es @ fs) = effects c es @ effects (run_controller c es) fs"
  by (induction es arbitrary: c) (simp_all add: run_controller_def)

lemma effects_snoc:
  "effects c (es @ [e]) = effects c es
     @ (if respond (run_controller c es) e = run_controller c es then [] else [verdict (run_controller c es) e])"
  by (simp add: effects_append)

definition earned :: "int \<Rightarrow> decision \<Rightarrow> bool" where
  "earned l d \<longleftrightarrow> dn_qualifying d \<and> dn_consumed d \<and> dn_previous_limit d = l
     \<and> (\<exists>b. dn_observation d = Some b \<and> healthy_evidence l b)"

text \<open>The credit of a state is that of the last verdicts, all of them earned at the present limit.\<close>

definition credit_backed :: "controller \<Rightarrow> decision option list \<Rightarrow> bool" where
  "credit_backed c rs \<longleftrightarrow> (\<exists>older ds. rs = older @ map Some ds \<and> int (length ds) = healthy_streak c
     \<and> list_all (earned (task_limit c)) ds)"

lemma credit_backed_0: "healthy_streak c = 0 \<Longrightarrow> credit_backed c rs"
  by (auto simp: credit_backed_def intro: exI [of _ rs] exI [of _ "[]"])

lemma credit_extends:
  assumes "credit_backed c rs" "earned (task_limit c) d"
  obtains older ds where "rs @ [Some d] = older @ map Some ds" "int (length ds) = next_credit c p t"
    "list_all (earned (task_limit c)) ds"
proof (cases "credit_expired c p t")
  case True
  then show thesis using that [of rs "[d]"] assms(2) by (simp add: next_credit_def)
next
  case False
  obtain older ds where "rs = older @ map Some ds" "int (length ds) = healthy_streak c" "list_all (earned (task_limit c)) ds"
    using assms(1) by (auto simp: credit_backed_def)
  then show thesis using that [of older "ds @ [d]"] assms(2) False by (simp add: next_credit_def)
qed

lemma decide_credit:
  assumes c: "valid_controller p c" and d: "decide (state_value c) observation p now = Some d"
    and backed: "credit_backed c rs" and changed: "dn_state d \<noteq> c"
  shows "credit_backed (dn_state d) (rs @ [Some d])"
    and "task_limit c < dn_limit d \<Longrightarrow> dn_limit d = task_limit c + 1 \<and> (\<exists>older ds. rs @ [Some d] = older @ map Some ds
      \<and> int (length ds) = healthy_batches_to_increase p \<and> list_all (earned (task_limit c)) ds)"
proof -
  have "credit_backed (dn_state d) (rs @ [Some d]) \<and> (task_limit c < dn_limit d \<longrightarrow> dn_limit d = task_limit c + 1
    \<and> (\<exists>older ds. rs @ [Some d] = older @ map Some ds
      \<and> int (length ds) = healthy_batches_to_increase p \<and> list_all (earned (task_limit c)) ds))"
    using c d
  proof (cases rule: decide_cases)
    case (refused t reason)
    then show ?thesis by (auto intro: credit_backed_0 simp: interrupted_def decision_of_def)
  next
    case (duplicate b)
    then show ?thesis using changed by (simp add: ignored_def)
  next
    case (consumed t b)
    have "minimum_limit p \<le> task_limit c" using c by (simp add: valid_controller_def)
    show ?thesis
    proof (rule consume_cases [OF consumed(5), of c p t])
      fix r assume e: "consume_batch c p t b =
          decision_of (noted c t b\<lparr>task_limit := task_limit c + 1\<rparr>) (task_limit c) r True True (Some b)"
        and h: "healthy_evidence (task_limit c) b" "next_credit c p t = healthy_batches_to_increase p"
      have "earned (task_limit c) d" using h by (simp add: earned_def consumed(8) e decision_of_def)
      then obtain older ds where "rs @ [Some d] = older @ map Some ds" "int (length ds) = next_credit c p t"
          "list_all (earned (task_limit c)) ds"
        using credit_extends [OF backed] by blast
      moreover have "healthy_streak (dn_state d) = 0" "dn_limit d = task_limit c + 1"
        by (simp_all add: consumed(8) e decision_of_def noted_def)
      ultimately show ?thesis using h credit_backed_0 by auto
    next
      fix r assume e: "consume_batch c p t b =
          decision_of (noted c t b\<lparr>healthy_streak := next_credit c p t\<rparr>) (task_limit c) r True True (Some b)"
        and h: "healthy_evidence (task_limit c) b"
      have "earned (task_limit c) d" using h by (simp add: earned_def consumed(8) e decision_of_def noted_def)
      then obtain older ds where "rs @ [Some d] = older @ map Some ds" "int (length ds) = next_credit c p t"
          "list_all (earned (task_limit c)) ds"
        using credit_extends [OF backed] by blast
      moreover have "healthy_streak (dn_state d) = next_credit c p t" "task_limit (dn_state d) = task_limit c"
          "dn_limit d = task_limit c"
        by (simp_all add: consumed(8) e decision_of_def noted_def)
      ultimately show ?thesis unfolding credit_backed_def by auto
    qed (use \<open>minimum_limit p \<le> task_limit c\<close> in
        \<open>auto intro: credit_backed_0 simp: consumed(8) decision_of_def noted_def\<close>)
  qed
  then show "credit_backed (dn_state d) (rs @ [Some d])"
    and "task_limit c < dn_limit d \<Longrightarrow> dn_limit d = task_limit c + 1 \<and> (\<exists>older ds. rs @ [Some d] = older @ map Some ds
      \<and> int (length ds) = healthy_batches_to_increase p \<and> list_all (earned (task_limit c)) ds)" by blast+
qed

end
