(* ===== verification/ConcurrencyProperties.thy ===== *)
theory ConcurrencyProperties
  imports ConcurrencyHistory
begin

text \<open>
  The properties of the concurrency controller, over the dict that is stored and over runs from a
  fresh state, with a small run that meets their hypotheses.
\<close>

section \<open>Stored states\<close>

lemma stored_state:
  assumes "policy_from_kwargs kwargs = Some p" "validate_state v p = Some c"
  shows "valid_controller p c" "decide v observation p now = decide (state_value c) observation p now"
proof -
  show c: "valid_controller p c" using assms by (auto intro: state_read_valid policy_read_valid)
  then have cur: "current_state v p t = current_state (state_value c) p t" for t
    using assms(2) by (simp add: current_state_def state_read)
  then have "interrupt v p now reason = interrupt (state_value c) p now reason" for reason
    by (simp only: interrupt_def)
  with cur show "decide v observation p now = decide (state_value c) observation p now"
    by (simp only: decide_def)
qed

lemma crashed:
  assumes "sound_controller c" "respond c (Crash reason now) \<noteq> c"
  obtains u where "respond c (Crash reason now) = dn_state (interrupted c u reason)"
    "verdict c (Crash reason now) = Some (interrupted c u reason)"
proof -
  obtain d where d: "interrupt (state_value c) (ct_policy c) now reason = Some d" using assms(2) by (auto split: option.splits)
  then obtain u where "d = interrupted c u reason" using interrupt_valid assms(1) by (auto simp: sound_controller_def)
  then show thesis using d that by simp
qed

lemma run_credit:
  assumes "policy_from_kwargs kwargs = Some p" "initial_controller p now = Some c" "int (length es) \<le> LARGEST_COUNT"
  shows "credit_backed (run_controller c es) (effects c es)"
  using assms(3)
proof (induction es rule: rev_induct)
  case Nil
  then show ?case using initial_sound [OF assms(1,2)] by (simp add: credit_backed_0)
next
  case (snoc e es)
  let ?s = "run_controller c es"
  have s: "sound_controller ?s" using run_sound [of c es] initial_sound [OF assms(1,2)] snoc.prems by simp
  have backed: "credit_backed ?s (effects c es)" using snoc by simp
  show ?case
  proof (cases "respond ?s e = ?s")
    case True
    then show ?thesis using backed by (simp add: effects_snoc)
  next
    case False
    show ?thesis
    proof (cases e)
      case (Terminal observation t)
      then obtain d where "decide (state_value ?s) observation (ct_policy ?s) t = Some d" "respond ?s e = dn_state d"
        using False by (auto split: option.splits)
      then show ?thesis
        using decide_credit(1) [OF s [unfolded sound_controller_def] _ backed] False Terminal by (simp add: effects_snoc)
    next
      case (Crash reason t)
      then obtain u where "respond ?s e = dn_state (interrupted ?s u reason)" using False crashed [OF s] by metis
      then show ?thesis using False by (auto simp: interrupted_def decision_of_def intro!: credit_backed_0)
    next
      case (Reconfigure k t r)
      then show ?thesis using False sound_reconfigured [OF s, of k t r]
        by (auto intro!: credit_backed_0 split: option.splits)
    qed
  qed
qed

section \<open>Batches that count\<close>

fun counted_batch :: "decision option \<Rightarrow> batch_observation list" where
  "counted_batch (Some d) = (if dn_consumed d then (case dn_observation d of None \<Rightarrow> [] | Some b \<Rightarrow> [b]) else [])"
| "counted_batch None = []"

definition counted :: "controller \<Rightarrow> control_event list \<Rightarrow> batch_observation list" where
  "counted c es = concat (map counted_batch (effects c es))"

definition follows :: "batch_observation \<Rightarrow> batch_observation \<Rightarrow> bool" where
  "follows a b \<longleftrightarrow> instant (finished_at a) \<le> instant (started_at b) \<and> instant (finished_at a) < instant (finished_at b)"

definition counted_until :: "epoch option \<Rightarrow> batch_observation list \<Rightarrow> bool" where
  "counted_until f bs \<longleftrightarrow> sorted_wrt follows bs
     \<and> list_all (\<lambda>b. \<exists>t. f = Some t \<and> instant (finished_at b) \<le> instant t) bs"

lemma counted_snoc:
  assumes "counted_until f bs" "\<not> (\<exists>t \<in> set_option f. instant (finished_at b) \<le> instant t \<or> instant (started_at b) < instant t)"
  shows "counted_until (Some (finished_at b)) (bs @ [b])"
proof -
  have "\<forall>a \<in> set bs. follows a b \<and> instant (finished_at a) \<le> instant (finished_at b)"
    using assms by (fastforce simp: counted_until_def list_all_iff follows_def not_le not_less)
  then show ?thesis using assms(1) by (simp add: counted_until_def list_all_iff sorted_wrt_append)
qed

lemma consume_record:
  "valid_observation b \<Longrightarrow> last_finished_at (dn_state (consume_batch c p t b)) = Some (finished_at b)
     \<and> dn_consumed (consume_batch c p t b) \<and> dn_observation (consume_batch c p t b) = Some b
     \<and> processed_batches (dn_state (consume_batch c p t b)) = processed_batches c + 1
     \<and> recent_batch_ids (dn_state (consume_batch c p t b)) = keep_last HISTORY_LIMIT (recent_batch_ids c @ [batch_id b])
     \<and> dn_limit (consume_batch c p t b) = task_limit (dn_state (consume_batch c p t b))"
  by (rule consume_cases [of b c p t]) (auto simp: decision_of_def noted_def)

lemma decide_counts:
  assumes "valid_controller p c" "decide (state_value c) observation p now = Some d" "counted_until (last_finished_at c) bs"
  shows "counted_until (last_finished_at (dn_state d)) (bs @ counted_batch (Some d))"
  using assms(1,2)
proof (cases rule: decide_cases)
  case (consumed t b)
  then show ?thesis
    using consume_record [OF consumed(5), of c p t] counted_snoc [OF assms(3), of b] by (simp add: out_of_order_def)
qed (use assms(3) in \<open>simp_all add: interrupted_def decision_of_def ignored_def\<close>)

lemma run_counts:
  assumes "policy_from_kwargs kwargs = Some p" "initial_controller p now = Some c" "int (length es) \<le> LARGEST_COUNT"
  shows "counted_until (last_finished_at (run_controller c es)) (counted c es)"
  using assms(3)
proof (induction es rule: rev_induct)
  case Nil
  then show ?case by (simp add: counted_def counted_until_def)
next
  case (snoc e es)
  let ?s = "run_controller c es"
  have s: "sound_controller ?s" using run_sound [of c es] initial_sound [OF assms(1,2)] snoc.prems by simp
  have upto: "counted_until (last_finished_at ?s) (counted c es)" using snoc by simp
  show ?case
  proof (cases "respond ?s e = ?s")
    case True
    then show ?thesis using upto by (simp add: counted_def effects_snoc)
  next
    case False
    show ?thesis
    proof (cases e)
      case (Terminal observation t)
      then obtain d where "decide (state_value ?s) observation (ct_policy ?s) t = Some d" "respond ?s e = dn_state d"
        using False by (auto split: option.splits)
      then show ?thesis
        using decide_counts [OF s [unfolded sound_controller_def] _ upto] False Terminal
        by (simp add: counted_def effects_snoc)
    next
      case (Crash reason t)
      then obtain u where "respond ?s e = dn_state (interrupted ?s u reason)" "verdict ?s e = Some (interrupted ?s u reason)"
        using False crashed [OF s] by metis
      then show ?thesis using upto by (simp add: interrupted_def decision_of_def counted_def effects_snoc)
    next
      case (Reconfigure k t r)
      then show ?thesis using False sound_reconfigured [OF s, of k t r] upto
        by (auto simp: counted_def effects_snoc split: option.splits)
    qed
  qed
qed

section \<open>A small run\<close>

lemma decide_new_batch:
  assumes "valid_controller p c" "valid_epoch t" "instant (updated_at c) \<le> instant t" "valid_observation b"
    "batch_id b \<notin> set (recent_batch_ids c)" "\<not> out_of_order c t b"
  shows "decide (state_value c) (observation_value b) p (epoch_value t) = Some (consume_batch c p t b)"
proof -
  have "current_state (state_value c) p (epoch_value t) = Some (c, t)" using assms by (simp add: current_state_valid)
  then show ?thesis using assms by (simp add: decide_def observation_read)
qed

definition sample_kwargs :: py_value where
  "sample_kwargs = PDict [(''maximum_limit'', PInt 5), (''healthy_batches_to_increase'', PInt 2)]"

definition sample_policy :: controller_policy where
  "sample_policy = default_controller\<lparr>maximum_limit := 5, healthy_batches_to_increase := 2\<rparr>"

definition sample_batch :: "string \<Rightarrow> int \<Rightarrow> int \<Rightarrow> batch_observation" where
  "sample_batch ident s f = \<lparr>batch_id = ident, started_at = IntEpoch s, finished_at = IntEpoch f, limit_used = 4,
     eligible_distinct_sources = 9, eligible_distinct_hosts = 9, peak_active_tasks = 4, peak_active_sources = 4,
     peak_active_hosts = 4, peak_active_scheduling_hosts = 4, attempted_tasks = 8, accepted_progress = 6,
     eligible_backlog_remaining = 3, new_access_blocks = 0, transport_failures = 0, runtime_errors = 0,
     integrity_errors = 0, database_errors = 0, control_cycle_complete = True, killed = False,
     publication_status = ''verified'', existing_held_hosts = 0, global_completeness_certified = False\<rparr>"

definition sample_controller :: controller where
  "sample_controller = \<lparr>ct_policy = sample_policy, created_at = IntEpoch 0, updated_at = IntEpoch 0, task_limit = 4,
     healthy_streak = 0, processed_batches = 0, recent_batch_ids = [], last_finished_at = None, last_observation = None,
     last_reasons = [''initialized_without_health_credit'']\<rparr>"

definition sample_first :: decision where
  "sample_first = consume_batch sample_controller sample_policy (IntEpoch 20) (sample_batch ''b1'' 10 20)"

definition sample_second :: decision where
  "sample_second = consume_batch (dn_state sample_first) sample_policy (IntEpoch 30) (sample_batch ''b2'' 20 30)"

lemmas sample_text = is_identifier_text_def whitespace_def byte_val_def

lemma sample_batch_valid: "valid_observation (sample_batch ''b1'' 10 20)" "valid_observation (sample_batch ''b2'' 20 30)"
  by (simp_all add: valid_observation_def sample_batch_def sample_text is_count_def LARGEST_COUNT_def HARD_CEILING_def
      publication_statuses_def FLOAT_OVERFLOW_def)

lemma sample_policy_read: "policy_from_kwargs sample_kwargs = Some sample_policy"
  by (simp add: sample_kwargs_def sample_policy_def policy_from_kwargs_def policy_value_def default_controller_def
      HARD_CEILING_def Let_def)

lemma sample_start: "initial_controller sample_policy (PInt 0) = Some sample_controller"
  by (simp add: initial_controller_def sample_controller_def sample_policy_def default_controller_def policy_limit_def
      time_or_raise_def FLOAT_OVERFLOW_def)

lemma sample_valid: "valid_controller sample_policy sample_controller"
  using initial_sound [OF sample_policy_read sample_start] by (simp add: sound_controller_def sample_controller_def)

lemma sample_first_state:
  "dn_state sample_first = sample_controller\<lparr>updated_at := IntEpoch 20, processed_batches := 1, recent_batch_ids := [''b1''],
     last_finished_at := Some (IntEpoch 20), last_observation := Some (sample_batch ''b1'' 10 20), healthy_streak := 1,
     last_reasons := [''healthy_backlogged_parallel_batch'', ''await_additional_consecutive_health'']\<rparr>"
  "dn_consumed sample_first"
  by (simp_all add: sample_first_def sample_controller_def sample_policy_def default_controller_def sample_batch_def
      consume_batch_def Let_def pressure_reasons_def hold_reasons_def decision_of_def keep_last_def HISTORY_LIMIT_def
      credit_expired_def)

lemma sample_decide_first:
  "decide (state_value sample_controller) (observation_value (sample_batch ''b1'' 10 20)) sample_policy (epoch_value (IntEpoch 20))
     = Some sample_first"
  unfolding sample_first_def
  by (rule decide_new_batch [OF sample_valid _ _ sample_batch_valid(1)])
     (simp_all add: sample_controller_def out_of_order_def sample_batch_def FLOAT_OVERFLOW_def)

lemma sample_first_valid: "valid_controller sample_policy (dn_state sample_first)"
  by (rule decide_valid [OF sample_valid sample_decide_first]) (simp add: sample_controller_def LARGEST_COUNT_def)

lemma sample_decide_second:
  "decide (state_value (dn_state sample_first)) (observation_value (sample_batch ''b2'' 20 30)) sample_policy (epoch_value (IntEpoch 30))
     = Some sample_second"
  unfolding sample_second_def
  by (rule decide_new_batch [OF sample_first_valid _ _ sample_batch_valid(2)])
     (simp_all add: sample_first_state sample_controller_def out_of_order_def sample_batch_def FLOAT_OVERFLOW_def)

lemma sample_second_limit: "dn_limit sample_second = 5"
  unfolding sample_second_def sample_first_state
  by (simp add: sample_controller_def sample_policy_def default_controller_def sample_batch_def
      consume_batch_def Let_def pressure_reasons_def hold_reasons_def decision_of_def keep_last_def HISTORY_LIMIT_def
      credit_expired_def)

definition sample_events :: "control_event list" where
  "sample_events = [Terminal (observation_value (sample_batch ''b1'' 10 20)) (epoch_value (IntEpoch 20))]"

lemma sample_policy_of: "ct_policy sample_controller = sample_policy" "ct_policy (dn_state sample_first) = sample_policy"
  "task_limit sample_controller = 4" "task_limit (dn_state sample_first) = 4"
  by (simp_all add: sample_first_state sample_controller_def)

lemma sample_run: "run_controller sample_controller sample_events = dn_state sample_first"
  using sample_decide_first by (simp add: run_controller_def sample_events_def sample_policy_of)

section \<open>Properties\<close>

text \<open>C23: whatever batches, interruptions and operator changes come, the state that is kept passes the checks of the next call.\<close>

theorem controller_state_survives:
  assumes "policy_from_kwargs kwargs = Some p" "initial_controller p now = Some c" "int (length es) \<le> LARGEST_COUNT"
  shows "validate_state (state_value (run_controller c es)) (ct_policy (run_controller c es)) = Some (run_controller c es)"
  using run_sound [of c es] initial_sound [OF assms(1,2)] assms(3) by (auto simp: sound_controller_def intro: state_read)

theorem controller_state_survives_witness:
  "validate_state (state_value (dn_state sample_first)) sample_policy = Some (dn_state sample_first)"
  using controller_state_survives [OF sample_policy_read sample_start, of sample_events]
  by (simp add: sample_run sample_policy_of) (simp add: sample_events_def LARGEST_COUNT_def)

text \<open>C24: the limit grows by one, and only after the configured number of batches in a row earned it at the present limit: verified, free of errors, saturated, and with more hosts waiting.\<close>

theorem growth_needs_consecutive_health:
  assumes "policy_from_kwargs kwargs = Some p" "initial_controller p now = Some c" "int (length es) < LARGEST_COUNT"
    "decide (state_value (run_controller c es)) observation (ct_policy (run_controller c es)) t = Some d"
    "task_limit (run_controller c es) < dn_limit d"
  shows "dn_limit d = task_limit (run_controller c es) + 1 \<and>
    (\<exists>older ds. effects c (es @ [Terminal observation t]) = older @ map Some ds
      \<and> int (length ds) = healthy_batches_to_increase (ct_policy (run_controller c es))
      \<and> list_all (earned (task_limit (run_controller c es))) ds)"
proof -
  let ?s = "run_controller c es"
  have s: "valid_controller (ct_policy ?s) ?s"
    using run_sound [of c es] initial_sound [OF assms(1,2)] assms(3) by (simp add: sound_controller_def)
  have changed: "dn_state d \<noteq> ?s"
    using s assms(4)
  proof (cases rule: decide_cases)
    case (consumed u b)
    then show ?thesis using consume_record [OF consumed(5), of ?s "ct_policy ?s" u] by force
  qed (use assms(5) in \<open>auto simp: interrupted_def decision_of_def ignored_def\<close>)
  show ?thesis
    using decide_credit(2) [OF s assms(4) run_credit [OF assms(1,2)] changed assms(5)] assms(3,4) changed
    by (simp add: effects_snoc)
qed

theorem growth_needs_consecutive_health_witness:
  "dn_limit sample_second = 5 \<and> (\<exists>older ds. effects sample_controller (sample_events
      @ [Terminal (observation_value (sample_batch ''b2'' 20 30)) (epoch_value (IntEpoch 30))]) = older @ map Some ds
    \<and> length ds = 2 \<and> list_all (earned 4) ds)"
proof -
  have "int (length sample_events) < LARGEST_COUNT" by (simp add: sample_events_def LARGEST_COUNT_def)
  moreover have "healthy_batches_to_increase sample_policy = 2" by (simp add: sample_policy_def)
  ultimately show ?thesis
    using growth_needs_consecutive_health [OF sample_policy_read sample_start, of sample_events
        "observation_value (sample_batch ''b2'' 20 30)" "epoch_value (IntEpoch 30)" sample_second]
    by (simp add: sample_run sample_policy_of sample_decide_second sample_second_limit del: epoch_value.simps)
qed

text \<open>Fresh pressure lowers the limit by one step, to the minimum at least, and takes the credit, whether or not the batch was published.\<close>

theorem pressure_backs_off:
  assumes "policy_from_kwargs kwargs = Some p" "policy_mode p = ''adaptive''" "validate_state v p = Some c"
    "observation_from_mapping observation = Inr b" "pressure_reasons p b \<noteq> []" "\<not> too_old p t b"
    "decide v observation p (epoch_value t) = Some d" "dn_consumed d"
  shows "dn_limit d = max (minimum_limit p) (task_limit c - 1) \<and> task_limit (dn_state d) = dn_limit d
    \<and> healthy_streak (dn_state d) = 0 \<and> \<not> dn_qualifying d"
proof -
  note c = stored_state [OF assms(1,3)]
  have "policy_mode p \<noteq> ''fixed''" using assms(2) by simp
  then have backoff: "consume_batch c p t b =
      decision_of (noted c t b\<lparr>task_limit := max (minimum_limit p) (task_limit c - 1)\<rparr>) (task_limit c)
        (pressure_reasons p b @ [''conservative_one_step_backoff'']) False True (Some b)"
    using assms(5,6) by (simp add: consume_batch_def Let_def too_old_def noted_def)
  show ?thesis
    using c(1) assms(7) [unfolded c(2)]
  proof (cases rule: decide_cases)
    case (consumed u b')
    then have "u = t" "b' = b" using assms(4) by (auto elim: epoch_value.elims)
    then show ?thesis using consumed(8) by (simp add: backoff decision_of_def noted_def)
  qed (use assms(8) in \<open>simp_all add: interrupted_def decision_of_def ignored_def\<close>)
qed

theorem pressure_backs_off_witness:
  "dn_limit (consume_batch sample_controller sample_policy (IntEpoch 20) (sample_batch ''b1'' 10 20\<lparr>killed := True\<rparr>)) = 3"
proof -
  let ?b = "sample_batch ''b1'' 10 20\<lparr>killed := True\<rparr>"
  have b: "valid_observation ?b" using sample_batch_valid(1) by (simp add: valid_observation_def)
  have d: "decide (state_value sample_controller) (observation_value ?b) sample_policy (epoch_value (IntEpoch 20))
      = Some (consume_batch sample_controller sample_policy (IntEpoch 20) ?b)"
    by (rule decide_new_batch [OF sample_valid _ _ b])
       (simp_all add: sample_controller_def out_of_order_def sample_batch_def FLOAT_OVERFLOW_def)
  have "policy_mode sample_policy = ''adaptive''" "minimum_limit sample_policy = 1"
    by (simp_all add: sample_policy_def default_controller_def)
  moreover have "pressure_reasons sample_policy ?b \<noteq> []" "\<not> too_old sample_policy (IntEpoch 20) ?b"
    by (simp_all add: pressure_reasons_def too_old_def sample_policy_def default_controller_def sample_batch_def)
  ultimately show ?thesis
    using pressure_backs_off [OF sample_policy_read _ state_read [OF sample_valid] observation_read [OF b] _ _ d]
      consume_record [OF b, of sample_controller sample_policy "IntEpoch 20"] by (simp add: sample_policy_of)
qed

text \<open>A decision moves the limit by one step at most and inside the bounds of the policy, and never away from a fixed limit.\<close>

theorem limit_moves_in_steps:
  assumes "policy_from_kwargs kwargs = Some p" "validate_state v p = Some c" "decide v observation p now = Some d"
  shows "\<bar>dn_limit d - task_limit c\<bar> \<le> 1 \<and> minimum_limit p \<le> dn_limit d \<and> dn_limit d \<le> maximum_limit p
    \<and> dn_limit d \<le> HARD_CEILING \<and> (policy_mode p = ''fixed'' \<longrightarrow> Some (dn_limit d) = fixed_limit p)"
proof -
  note c = stored_state [OF assms(1,2)]
  have l: "minimum_limit p \<le> task_limit c" "task_limit c \<le> maximum_limit p" "maximum_limit p \<le> HARD_CEILING"
    "policy_mode p = ''fixed'' \<longrightarrow> Some (task_limit c) = fixed_limit p"
    using c(1) by (auto simp: valid_controller_def valid_policy_def)
  show ?thesis
    using c(1) assms(3) [unfolded c(2)]
  proof (cases rule: decide_cases)
    case (consumed t b)
    show ?thesis
      by (rule consume_cases [OF consumed(5), of c p t])
         (use l in \<open>auto simp: consumed(8) decision_of_def noted_def\<close>)
  qed (use l in \<open>simp_all add: interrupted_def decision_of_def ignored_def\<close>)
qed

theorem limit_moves_in_steps_witness:
  "\<bar>dn_limit sample_second - 4\<bar> \<le> 1 \<and> dn_limit sample_second \<le> 5"
proof -
  have "maximum_limit sample_policy = 5" by (simp add: sample_policy_def)
  then show ?thesis
    using limit_moves_in_steps [OF sample_policy_read state_read [OF sample_first_valid] sample_decide_second]
    by (simp add: sample_policy_of)
qed

text \<open>The batches that count in a run follow each other in time without overlap, so none counts twice.\<close>

theorem no_batch_counted_twice:
  assumes "policy_from_kwargs kwargs = Some p" "initial_controller p now = Some c" "int (length es) \<le> LARGEST_COUNT"
  shows "sorted_wrt follows (counted c es) \<and> distinct (counted c es)"
proof -
  have s: "sorted_wrt follows (counted c es)" using run_counts [OF assms] by (simp add: counted_until_def)
  have "sorted_wrt follows bs \<Longrightarrow> distinct bs" for bs
    by (induction bs) (auto simp: follows_def)
  then show ?thesis using s by blast
qed

theorem no_batch_counted_twice_witness:
  "sorted_wrt follows (counted sample_controller sample_events) \<and> distinct (counted sample_controller sample_events)"
proof -
  have "int (length sample_events) \<le> LARGEST_COUNT" by (simp add: sample_events_def LARGEST_COUNT_def)
  then show ?thesis by (rule no_batch_counted_twice [OF sample_policy_read sample_start])
qed

text \<open>Repeating the call for a batch that was taken returns the state unchanged.\<close>

theorem terminal_callback_idempotent:
  assumes "policy_from_kwargs kwargs = Some p" "validate_state v p = Some c" "processed_batches c < LARGEST_COUNT"
    "decide v observation p now = Some d" "dn_consumed d" "valid_epoch t" "instant (updated_at (dn_state d)) \<le> instant t"
  shows "\<exists>d'. decide (state_value (dn_state d)) observation p (epoch_value t) = Some d'
    \<and> dn_state d' = dn_state d \<and> dn_limit d' = dn_limit d \<and> \<not> dn_consumed d'"
proof -
  note c = stored_state [OF assms(1,2)]
  have v: "valid_controller p (dn_state d)" using decide_valid [OF c(1) assms(4) [unfolded c(2)] assms(3)] .
  have "\<exists>b. observation_from_mapping observation = Inr b \<and> batch_id b \<in> set (recent_batch_ids (dn_state d))
    \<and> dn_limit d = task_limit (dn_state d)"
    using c(1) assms(4) [unfolded c(2)]
  proof (cases rule: decide_cases)
    case (consumed u b)
    have "batch_id b \<in> set (keep_last HISTORY_LIMIT (recent_batch_ids c @ [batch_id b]))"
      by (simp add: keep_last_def HISTORY_LIMIT_def)
    then have "batch_id b \<in> set (recent_batch_ids (dn_state d)) \<and> dn_limit d = task_limit (dn_state d)"
      using consume_record [OF consumed(5), of c p u] consumed(8) by simp
    then show ?thesis using consumed(4) by blast
  qed (use assms(5) in \<open>simp_all add: interrupted_def decision_of_def ignored_def\<close>)
  then obtain b where "observation_from_mapping observation = Inr b" "batch_id b \<in> set (recent_batch_ids (dn_state d))"
    "dn_limit d = task_limit (dn_state d)" by blast
  moreover have "current_state (state_value (dn_state d)) p (epoch_value t) = Some (dn_state d, t)"
    using assms(6,7) by (simp add: current_state_valid [OF v])
  ultimately show ?thesis by (simp add: decide_def)
qed

theorem terminal_callback_idempotent_witness:
  "\<exists>d'. decide (state_value (dn_state sample_first)) (observation_value (sample_batch ''b1'' 10 20)) sample_policy
      (epoch_value (IntEpoch 25)) = Some d' \<and> dn_state d' = dn_state sample_first \<and> \<not> dn_consumed d'"
proof -
  have "processed_batches sample_controller < LARGEST_COUNT" by (simp add: sample_controller_def LARGEST_COUNT_def)
  moreover have "valid_epoch (IntEpoch 25)" by (simp add: FLOAT_OVERFLOW_def)
  moreover have "instant (updated_at (dn_state sample_first)) \<le> instant (IntEpoch 25)" by (simp add: sample_first_state)
  ultimately show ?thesis
    using terminal_callback_idempotent [OF sample_policy_read state_read [OF sample_valid] _ sample_decide_first sample_first_state(2)]
    by blast
qed

end
