(* ===== verification/Timestamps.thy ===== *)
theory Timestamps
  imports Snapshot
begin

text \<open>
  The timestamps of the device and pairing state, \<open>YYYY-MM-DDTHH:MM:SSZ\<close>
  (\<open>_require_utc_seconds\<close> of \<open>device_identity.py\<close>, \<open>_timestamp\<close> and \<open>_time\<close> of
  \<open>trusted_devices.py\<close>).  \<open>strptime\<close> reads the fields, the \<open>datetime\<close> constructor checks them, and
  \<open>strftime\<close> must print the same text; it prints the year without leading zeros, as the C library
  of Linux does, so years before 1000 are refused.  A \<open>datetime\<close> is the list of its fields, in the
  order in which Python compares them.
\<close>

section \<open>Reading\<close>

definition at_separators :: "string \<Rightarrow> bool" where
  "at_separators s \<longleftrightarrow> length s = 20 \<and> s ! 4 = CHR ''-'' \<and> s ! 7 = CHR ''-'' \<and> s ! 10 = CHR ''T''
     \<and> s ! 13 = CHR '':'' \<and> s ! 16 = CHR '':'' \<and> s ! 19 = CHR ''Z''"

definition leap_year :: "nat \<Rightarrow> bool" where
  "leap_year y \<longleftrightarrow> y mod 4 = 0 \<and> (y mod 100 \<noteq> 0 \<or> y mod 400 = 0)"

definition days_in_month :: "nat \<Rightarrow> nat \<Rightarrow> nat" where
  "days_in_month y m = (if m = 2 then (if leap_year y then 29 else 28)
     else if m \<in> {4, 6, 9, 11} then 30 else 31)"

definition field :: "nat \<Rightarrow> nat \<Rightarrow> string \<Rightarrow> nat option" where
  "field pos width s = (let ds = take width (drop pos s) in
     if length ds = width \<and> list_all is_digit ds then Some (digits_val ds) else None)"

definition strptime :: "string \<Rightarrow> nat list option" where
  "strptime s = do {
     y \<leftarrow> field 0 4 s; m \<leftarrow> field 5 2 s; d \<leftarrow> field 8 2 s;
     h \<leftarrow> field 11 2 s; mi \<leftarrow> field 14 2 s; sec \<leftarrow> field 17 2 s;
     require (1 \<le> y \<and> 1 \<le> m \<and> m \<le> 12 \<and> 1 \<le> d \<and> d \<le> days_in_month y m \<and> h \<le> 23 \<and> mi \<le> 59 \<and> sec \<le> 59);
     Some [y, m, d, h, mi, sec] }"

definition pad2 :: "nat \<Rightarrow> string" where
  "pad2 n = [char_of (48 + n div 10), char_of (48 + n mod 10)]"

fun strftime :: "nat list \<Rightarrow> string" where
  "strftime [y, m, d, h, mi, sec] = nat_digits y @ CHR ''-'' # pad2 m @ CHR ''-'' # pad2 d
     @ CHR ''T'' # pad2 h @ CHR '':'' # pad2 mi @ CHR '':'' # pad2 sec @ ''Z''"
| "strftime _ = []"

definition datetime_of :: "string \<Rightarrow> nat list option" where
  "datetime_of s = do {
     require (at_separators s);
     t \<leftarrow> strptime s;
     require (strftime t = s);
     Some t }"

fun timestamp_value :: "json \<Rightarrow> string option" where
  "timestamp_value (JStr s) = (case datetime_of s of None \<Rightarrow> None | Some _ \<Rightarrow> Some s)"
| "timestamp_value _ = None"

definition is_timestamp :: "string \<Rightarrow> bool" where
  "is_timestamp s \<longleftrightarrow> datetime_of s \<noteq> None"

definition instant_of :: "string \<Rightarrow> nat list" where
  "instant_of s = the (datetime_of s)"

lemma timestamp_value_iff [simp]: "timestamp_value v = Some s \<longleftrightarrow> v = JStr s \<and> is_timestamp s"
  by (cases v) (auto simp: is_timestamp_def split: option.splits)

lemma timestamp_value_accepts [simp]: "is_timestamp s \<Longrightarrow> timestamp_value (JStr s) = Some s"
  by (auto simp: is_timestamp_def)

lemma datetime_of_timestamp: "is_timestamp s \<Longrightarrow> datetime_of s = Some (instant_of s)"
  by (auto simp: is_timestamp_def instant_of_def)

lemma is_timestamp_length: "is_timestamp s \<Longrightarrow> length s = 20"
  by (auto simp: is_timestamp_def datetime_of_def at_separators_def bind_eq_Some_conv)

declare timestamp_value.simps [simp del]

section \<open>Order\<close>

lemma digit_order: "a < 10 \<Longrightarrow> b < 10 \<Longrightarrow> (char_of (48 + a) :: char) < char_of (48 + b) \<longleftrightarrow> a < b" for a b :: nat
  by (simp add: less_char_def)

lemma digit_same: "a < 10 \<Longrightarrow> b < 10 \<Longrightarrow> (char_of (48 + a) :: char) = char_of (48 + b) \<longleftrightarrow> a = b" for a b :: nat
  using byte_val_digit by (metis add_left_cancel)

text \<open>Numbers compare as their quotients and remainders do, one after the other.\<close>

lemma quotient_order:
  fixes a b k :: nat
  assumes "0 < k"
  shows "a < b \<longleftrightarrow> a div k < b div k \<or> a div k = b div k \<and> a mod k < b mod k"
    and "a = b \<longleftrightarrow> a div k = b div k \<and> a mod k = b mod k"
proof -
  show "a = b \<longleftrightarrow> a div k = b div k \<and> a mod k = b mod k" by (metis div_mult_mod_eq)
  have less: "x div k < y div k \<Longrightarrow> x < y" for x y using div_le_mono [of y x k] by linarith
  have "a div k = b div k \<Longrightarrow> a < b \<longleftrightarrow> a mod k < b mod k"
    using div_mult_mod_eq [of a k] div_mult_mod_eq [of b k] by (metis add_less_cancel_left)
  then show "a < b \<longleftrightarrow> a div k < b div k \<or> a div k = b div k \<and> a mod k < b mod k"
    using less [of a b] less [of b a] by (metis linorder_neqE_nat order_less_asym)
qed

lemma pad2_order:
  assumes "a < 100" "b < 100"
  shows "pad2 a @ r < pad2 b @ r' \<longleftrightarrow> a < b \<or> a = b \<and> r < r'"
proof -
  have "a div 10 < 10" "b div 10 < 10" using assms by auto
  then have "pad2 a @ r < pad2 b @ r' \<longleftrightarrow> a div 10 < b div 10 \<or> a div 10 = b div 10
      \<and> (a mod 10 < b mod 10 \<or> a mod 10 = b mod 10 \<and> r < r')"
    by (simp add: pad2_def digit_order digit_same)
  then show ?thesis using quotient_order [of 10 a b, OF zero_less_numeral] by blast
qed

definition pad4 :: "nat \<Rightarrow> string" where
  "pad4 n = pad2 (n div 100) @ pad2 (n mod 100)"

lemma pad4_order:
  assumes "a < 10000" "b < 10000"
  shows "pad4 a @ r < pad4 b @ r' \<longleftrightarrow> a < b \<or> a = b \<and> r < r'"
proof -
  have "a div 100 < 100" "b div 100 < 100" using assms by auto
  then have "pad4 a @ r < pad4 b @ r' \<longleftrightarrow> a div 100 < b div 100 \<or> a div 100 = b div 100
      \<and> (a mod 100 < b mod 100 \<or> a mod 100 = b mod 100 \<and> r < r')"
    by (simp add: pad4_def pad2_order)
  then show ?thesis using quotient_order [of 100 a b, OF zero_less_numeral] by blast
qed

lemma nat_digits_pad4:
  assumes "1000 \<le> n" "n < 10000"
  shows "nat_digits n = pad4 n"
proof -
  have d: "n div 10 div 10 = n div 100" "n div 100 div 10 = n div 1000" by (simp_all flip: div_mult2_eq)
  have "n mod 100 = 10 * (n div 10 mod 10) + n mod 10" using mod_mult2_eq [of n 10 10] by simp
  then have m: "n mod 100 mod 10 = n mod 10" "n mod 100 div 10 = n div 10 mod 10" by simp_all
  have big: "\<not> n < 10" "\<not> n div 10 < 10" "\<not> n div 100 < 10" "n div 1000 < 10" using assms by linarith+
  have "nat_digits (n div 1000) = [char_of (48 + n div 1000)]"
    by (subst nat_digits.simps) (simp only: big if_True)
  moreover have "nat_digits (n div 100) = nat_digits (n div 1000) @ [char_of (48 + n div 100 mod 10)]"
    by (subst nat_digits.simps) (simp only: big d if_False)
  moreover have "nat_digits (n div 10) = nat_digits (n div 100) @ [char_of (48 + n div 10 mod 10)]"
    by (subst nat_digits.simps) (simp only: big d if_False)
  moreover have "nat_digits n = nat_digits (n div 10) @ [char_of (48 + n mod 10)]"
    by (subst nat_digits.simps) (simp only: big if_False)
  ultimately show ?thesis by (simp only: pad4_def pad2_def d m append_Cons append_Nil)
qed

lemma digits_val_less: "list_all is_digit ds \<Longrightarrow> digits_val ds < 10 ^ length ds"
proof (induction ds rule: rev_induct)
  case (snoc c ds)
  then have "digits_val ds * 10 + (byte_val c - 48) < 10 ^ length ds * 10" by (auto simp: is_digit_def)
  then show ?case by (simp add: digits_val_def mult.commute)
qed (simp add: digits_val_def)

lemma field_less: "field pos w s = Some n \<Longrightarrow> n < 10 ^ w"
  using digits_val_less [of "take w (drop pos s)"]
  by (simp add: field_def Let_def del: length_take length_drop split: if_splits)

definition timestamp_text :: "nat \<Rightarrow> nat \<Rightarrow> nat \<Rightarrow> nat \<Rightarrow> nat \<Rightarrow> nat \<Rightarrow> string" where
  "timestamp_text y m d h mi sec = pad4 y @ CHR ''-'' # pad2 m @ CHR ''-'' # pad2 d
     @ CHR ''T'' # pad2 h @ CHR '':'' # pad2 mi @ CHR '':'' # pad2 sec @ ''Z''"

lemma datetime_ofE:
  assumes "datetime_of s = Some t"
  obtains y m d h mi sec where "t = [y, m, d, h, mi, sec]" "s = timestamp_text y m d h mi sec"
    "1000 \<le> y" "y < 10000" "m < 100" "d < 100" "h < 100" "mi < 100" "sec < 100"
proof -
  obtain y m d h mi sec where t: "t = [y, m, d, h, mi, sec]" and s: "strftime [y, m, d, h, mi, sec] = s" and len: "length s = 20"
    and f: "field 0 4 s = Some y" "field 5 2 s = Some m" "field 8 2 s = Some d" "field 11 2 s = Some h"
      "field 14 2 s = Some mi" "field 17 2 s = Some sec"
    using assms by (auto simp: datetime_of_def strptime_def bind_eq_Some_conv at_separators_def)
  have b: "y < 10000" "m < 100" "d < 100" "h < 100" "mi < 100" "sec < 100"
    using f [THEN field_less] by simp_all
  have "length (nat_digits y) = 4" using s len by (auto simp: pad2_def)
  then have y: "1000 \<le> y" using length_nat_digits [of y 3] by (cases "y < 1000") simp_all
  show thesis
    by (rule that [OF t _ y b]) (use s y b nat_digits_pad4 in \<open>simp add: timestamp_text_def\<close>)
qed

lemma timestamp_order:
  assumes "is_timestamp a" "is_timestamp b"
  shows "a < b \<longleftrightarrow> instant_of a < instant_of b"
proof (rule datetime_ofE [OF datetime_of_timestamp [OF assms(1)]], rule datetime_ofE [OF datetime_of_timestamp [OF assms(2)]])
  fix y m d h mi sec y' m' d' h' mi' sec'
  assume "instant_of a = [y, m, d, h, mi, sec]" "a = timestamp_text y m d h mi sec" "y < 10000" "m < 100" "d < 100" "h < 100" "mi < 100" "sec < 100"
    and "instant_of b = [y', m', d', h', mi', sec']" "b = timestamp_text y' m' d' h' mi' sec'" "y' < 10000" "m' < 100" "d' < 100" "h' < 100" "mi' < 100" "sec' < 100"
  then show ?thesis by (simp add: timestamp_text_def pad4_order pad2_order)
qed

lemma instant_of_inject: "is_timestamp a \<Longrightarrow> is_timestamp b \<Longrightarrow> instant_of a = instant_of b \<longleftrightarrow> a = b"
  using timestamp_order [of a b] timestamp_order [of b a] by (metis linorder_neq_iff)

lemma timestamp_order_le: "is_timestamp a \<Longrightarrow> is_timestamp b \<Longrightarrow> a \<le> b \<longleftrightarrow> instant_of a \<le> instant_of b"
  using timestamp_order [of b a] by (simp flip: not_less)

lemma sample_timestamps [simp]:
  "is_timestamp ''2026-01-01T00:00:00Z''" "is_timestamp ''2026-01-01T01:00:00Z''" "is_timestamp ''2026-01-02T00:00:00Z''"
  by (simp_all add: is_timestamp_def datetime_of_def at_separators_def strptime_def field_def is_digit_def byte_val_def
      digits_val_def days_in_month_def leap_year_def nat_digits.simps pad2_def Let_def) code_simp+

end
