(* ===== verification/JsonParse.thy ===== *)
theory JsonParse
  imports Canonical
begin

text \<open>
  \<open>json.loads\<close> on the texts that the canonical comparison can let through.  The code decodes bytes
  with it and then compares them with the canonical bytes of what it decoded, so white space,
  other escapes and other spellings of numbers need no reading here: a text with them is refused
  either way.  Floats and characters outside Latin-1 are not read; no class of the program has a
  field that takes them.

  The reader works with fuel; the length of the text is enough (\<open>loads_dumps\<close>).
\<close>

section \<open>The reader\<close>

fun read_string :: "nat \<Rightarrow> string \<Rightarrow> (string \<times> string) option" where
  "read_string 0 s = None"
| "read_string (Suc n) s = (case s of [] \<Rightarrow> None
     | c # r \<Rightarrow> if c = CHR 0x22 then Some ([], r)
         else do { (d, r') \<leftarrow> read_char s; (t, r'') \<leftarrow> read_string n r'; Some (d # t, r'') })"

definition read_int :: "string \<Rightarrow> (int \<times> string) option" where
  "read_int s = (let negative = (s \<noteq> [] \<and> hd s = CHR ''-'');
       ds = takeWhile is_digit (if negative then tl s else s);
       r = dropWhile is_digit (if negative then tl s else s)
     in if ds = [] then None else Some (if negative then - int (digits_val ds) else int (digits_val ds), r))"

definition read_word :: "string \<Rightarrow> json \<Rightarrow> string \<Rightarrow> (json \<times> string) option" where
  "read_word w v s = (if take (length w) s = w then Some (v, drop (length w) s) else None)"

text \<open>The entries of a dict: of two with the same key the later one counts.\<close>

fun dict_of :: "(string \<times> 'a) list \<Rightarrow> (string \<times> 'a) list" where
  "dict_of [] = []"
| "dict_of (e # es) = (if fst e \<in> set (map fst es) then dict_of es else e # dict_of es)"

fun read_value :: "nat \<Rightarrow> string \<Rightarrow> (json \<times> string) option"
  and read_elements :: "nat \<Rightarrow> string \<Rightarrow> (json list \<times> string) option"
  and read_entry :: "nat \<Rightarrow> string \<Rightarrow> ((string \<times> json) \<times> string) option"
  and read_entries :: "nat \<Rightarrow> string \<Rightarrow> ((string \<times> json) list \<times> string) option" where
  "read_value 0 s = None"
| "read_value (Suc n) s = (case s of [] \<Rightarrow> None | c # r \<Rightarrow>
     if c = CHR ''n'' then read_word ''null'' JNull s
     else if c = CHR ''t'' then read_word ''true'' (JBool True) s
     else if c = CHR ''f'' then read_word ''false'' (JBool False) s
     else if c = CHR 0x22 then do { (t, r') \<leftarrow> read_string n r; Some (JStr t, r') }
     else if c = CHR ''['' then
       (if r \<noteq> [] \<and> hd r = CHR '']'' then Some (JList [], tl r)
        else do { (x, r') \<leftarrow> read_value n r; (xs, r'') \<leftarrow> read_elements n r'; Some (JList (x # xs), r'') })
     else if c = CHR ''{'' then
       (if r \<noteq> [] \<and> hd r = CHR ''}'' then Some (JObj [], tl r)
        else do { (e, r') \<leftarrow> read_entry n r; (es, r'') \<leftarrow> read_entries n r'; Some (JObj (dict_of (e # es)), r'') })
     else do { (i, r') \<leftarrow> read_int s; Some (JInt i, r') })"
| "read_elements 0 s = None"
| "read_elements (Suc n) s = (case s of [] \<Rightarrow> None | c # r \<Rightarrow>
     if c = CHR '']'' then Some ([], r)
     else if c = CHR '','' then do { (x, r') \<leftarrow> read_value n r; (xs, r'') \<leftarrow> read_elements n r'; Some (x # xs, r'') }
     else None)"
| "read_entry 0 s = None"
| "read_entry (Suc n) s = do {
     require (s \<noteq> [] \<and> hd s = CHR 0x22);
     (k, r) \<leftarrow> read_string n (tl s);
     require (r \<noteq> [] \<and> hd r = CHR '':'');
     (v, r') \<leftarrow> read_value n (tl r);
     Some ((k, v), r') }"
| "read_entries 0 s = None"
| "read_entries (Suc n) s = (case s of [] \<Rightarrow> None | c # r \<Rightarrow>
     if c = CHR ''}'' then Some ([], r)
     else if c = CHR '','' then do { (e, r') \<leftarrow> read_entry n r; (es, r'') \<leftarrow> read_entries n r'; Some (e # es, r'') }
     else None)"

definition loads :: "string \<Rightarrow> json option" where
  "loads s = (case read_value (length s) s of Some (v, []) \<Rightarrow> Some v | _ \<Rightarrow> None)"

section \<open>Reading what was written\<close>

primrec distinct_keys :: "json \<Rightarrow> bool" where
  "distinct_keys JNull = True"
| "distinct_keys (JBool b) = True"
| "distinct_keys (JInt i) = True"
| "distinct_keys (JFloat s) = True"
| "distinct_keys (JStr s) = True"
| "distinct_keys (JList xs) = list_all id (map distinct_keys xs)"
| "distinct_keys (JObj es) = (distinct (map fst es) \<and> list_all snd (map (map_prod id distinct_keys) es))"

lemma read_string_quoted:
  "length (concat (map esc_char s)) < n \<Longrightarrow> read_string n (concat (map esc_char s) @ CHR 0x22 # r) = Some (s, r)"
proof (induction s arbitrary: n)
  case Nil
  then show ?case by (cases n) simp_all
next
  case (Cons c s)
  obtain m where n: "n = Suc m" using Cons.prems by (cases n) simp_all
  obtain d t where e: "esc_char c = d # t" by (cases "esc_char c") (auto simp: esc_char_def Let_def split: if_splits)
  have "d \<noteq> CHR 0x22" using esc_char_first [of c r] e by (cases "d = CHR 0x22") (use esc_char_first [of c "[]"] in auto)
  moreover have "length (concat (map esc_char s)) < m" using Cons.prems n e by simp
  moreover have "read_char (d # t @ concat (map esc_char s) @ CHR 0x22 # r) = Some (c, concat (map esc_char s) @ CHR 0x22 # r)"
    using read_esc_char [of c "concat (map esc_char s) @ CHR 0x22 # r"] e by simp
  ultimately show ?case using Cons.IH [of m] by (simp add: n e del: read_char.simps)
qed

lemma digits_read:
  assumes "list_all is_digit ds" "delimited r"
  shows "takeWhile is_digit (ds @ r) = ds" "dropWhile is_digit (ds @ r) = r"
proof -
  have "r = [] \<or> \<not> is_digit (hd r)" using assms(2) by (auto simp: delimited_def is_digit_def byte_val_def)
  then show "takeWhile is_digit (ds @ r) = ds" "dropWhile is_digit (ds @ r) = r"
    using assms(1) by (cases r; simp add: takeWhile_append2 dropWhile_append2 list_all_iff)+
qed

lemma read_int_str:
  assumes "delimited r"
  shows "read_int (int_str i @ r) = Some (i, r)"
proof (cases "i < 0")
  case True
  then show ?thesis
    using nat_digits_parse [of "nat (- i)"] digits_read [OF _ assms] by (simp add: read_int_def int_str_def Let_def)
next
  case False
  have "hd (nat_digits (nat i) @ r) \<noteq> CHR ''-''"
    using nat_digits_no_minus nat_digits_parse [of "nat i"] by (cases "nat_digits (nat i)") auto
  then show ?thesis
    using False nat_digits_parse [of "nat i"] digits_read [OF _ assms] by (simp add: read_int_def int_str_def Let_def)
qed

lemma dict_of_id: "distinct (map fst es) \<Longrightarrow> dict_of es = es"
  by (induction es) auto

text \<open>What a reader must do with each element that was written.\<close>

definition reads :: "(nat \<Rightarrow> string \<Rightarrow> ('b \<times> string) option) \<Rightarrow> ('a \<Rightarrow> string) \<Rightarrow> ('a \<Rightarrow> 'b) \<Rightarrow> 'a \<Rightarrow> bool" where
  "reads rd f g x \<longleftrightarrow> (\<forall>n r. delimited r \<longrightarrow> length (f x) \<le> n \<longrightarrow> rd n (f x @ r) = Some (g x, r))"

lemma readsD: "reads rd f g x \<Longrightarrow> delimited r \<Longrightarrow> length (f x) \<le> n \<Longrightarrow> rd n (f x @ r) = Some (g x, r)"
  by (simp add: reads_def)

lemma read_elements_written:
  "\<forall>x \<in> set xs. reads read_value f g x \<Longrightarrow> length (comma_tail f xs) < n \<Longrightarrow>
     read_elements n (comma_tail f xs @ CHR '']'' # r) = Some (map g xs, r)"
proof (induction xs arbitrary: n)
  case Nil
  then show ?case by (cases n) simp_all
next
  case (Cons x xs)
  obtain m where n: "n = Suc m" using Cons.prems(2) by (cases n) simp_all
  have "read_value m (f x @ comma_tail f xs @ CHR '']'' # r) = Some (g x, comma_tail f xs @ CHR '']'' # r)"
    by (rule readsD) (use Cons.prems n in \<open>simp_all add: delimited_tail\<close>)
  then show ?case using Cons.IH [of m] Cons.prems by (simp add: n)
qed

lemma read_entries_written:
  "\<forall>x \<in> set xs. reads read_entry f g x \<Longrightarrow> length (comma_tail f xs) < n \<Longrightarrow>
     read_entries n (comma_tail f xs @ CHR ''}'' # r) = Some (map g xs, r)"
proof (induction xs arbitrary: n)
  case Nil
  then show ?case by (cases n) simp_all
next
  case (Cons x xs)
  obtain m where n: "n = Suc m" using Cons.prems(2) by (cases n) simp_all
  have "read_entry m (f x @ comma_tail f xs @ CHR ''}'' # r) = Some (g x, comma_tail f xs @ CHR ''}'' # r)"
    by (rule readsD) (use Cons.prems n in \<open>simp_all add: delimited_tail\<close>)
  then show ?case using Cons.IH [of m] Cons.prems by (simp add: n)
qed

lemma read_entry_written:
  assumes "reads read_value dumps normal (snd e)"
  shows "reads read_entry render_entry (map_prod id normal) e"
  unfolding reads_def
proof (intro allI impI)
  fix n r assume r: "delimited r" and n: "length (render_entry e) \<le> n"
  then obtain m where m: "n = Suc m" by (cases n) (simp_all add: render_entry_def quote_def)
  let ?q = "concat (map esc_char (fst e))"
  have "read_string m (?q @ CHR 0x22 # CHR '':'' # dumps (snd e) @ r) = Some (fst e, CHR '':'' # dumps (snd e) @ r)"
    by (rule read_string_quoted) (use n m in \<open>simp add: render_entry_def quote_def\<close>)
  moreover have "read_value m (dumps (snd e) @ r) = Some (normal (snd e), r)"
    by (rule readsD [OF assms r]) (use n m in \<open>simp add: render_entry_def quote_def\<close>)
  ultimately show "read_entry n (render_entry e @ r) = Some (map_prod id normal e, r)"
    by (simp add: m render_entry_def quote_def map_prod_def case_prod_unfold)
qed

lemma reads_int: "reads read_value dumps normal (JInt i)"
  unfolding reads_def
proof (intro allI impI)
  fix n r assume r: "delimited r" and n: "length (dumps (JInt i)) \<le> n"
  obtain c t where e: "int_str i = c # t" using nat_digits_parse by (cases "int_str i") (auto simp: int_str_def split: if_splits)
  then obtain m where m: "n = Suc m" using n by (cases n) simp_all
  have "c = CHR ''-'' \<or> is_digit c" using int_str_chars [of c i] e by simp
  then have c: "c \<noteq> CHR ''n''" "c \<noteq> CHR ''t''" "c \<noteq> CHR ''f''" "c \<noteq> CHR 0x22" "c \<noteq> CHR ''[''" "c \<noteq> CHR ''{''"
    by (auto simp: is_digit_def byte_val_def)
  show "read_value n (dumps (JInt i) @ r) = Some (normal (JInt i), r)"
    using read_int_str [OF r, of i] c by (simp add: m e)
qed

lemma starts_not: "starts_value t \<Longrightarrow> c \<in> {CHR '']'', CHR ''}''} \<Longrightarrow> t @ r \<noteq> [] \<and> hd (t @ r) \<noteq> c"
  by (auto simp: starts_value_def)

lemma reads_list:
  assumes "\<forall>x \<in> set xs. reads read_value dumps normal x" "\<forall>x \<in> set xs. float_free x"
  shows "reads read_value dumps normal (JList xs)"
  unfolding reads_def
proof (intro allI impI)
  fix n r assume r: "delimited r" and n: "length (dumps (JList xs)) \<le> n"
  then obtain m where m: "n = Suc m" by (cases n) simp_all
  show "read_value n (dumps (JList xs) @ r) = Some (normal (JList xs), r)"
  proof (cases xs)
    case (Cons x ys)
    have len: "length (dumps x) + length (comma_tail dumps ys) < m"
      using n m unfolding Cons dumps.simps join_comma by simp
    have "read_value m (dumps x @ comma_tail dumps ys @ CHR '']'' # r) = Some (normal x, comma_tail dumps ys @ CHR '']'' # r)"
      by (rule readsD) (use assms(1) Cons len in \<open>simp_all add: delimited_tail\<close>)
    moreover have "read_elements m (comma_tail dumps ys @ CHR '']'' # r) = Some (map normal ys, r)"
      by (rule read_elements_written) (use assms(1) Cons len in simp_all)
    moreover note starts_not [OF dumps_starts_value, of x "CHR '']''" "comma_tail dumps ys @ CHR '']'' # r"]
    ultimately show ?thesis using assms(2) unfolding Cons dumps.simps join_comma by (simp add: m)
  qed (simp add: m)
qed

lemma reads_obj:
  assumes "\<forall>e \<in> set es. reads read_value dumps normal (snd e)" "\<forall>e \<in> set es. float_free (snd e)" "distinct (map fst es)"
  shows "reads read_value dumps normal (JObj es)"
  unfolding reads_def
proof (intro allI impI)
  fix n r assume r: "delimited r" and n: "length (dumps (JObj es)) \<le> n"
  then obtain m where m: "n = Suc m" by (cases n) simp_all
  let ?g = "map_prod id normal"
  show "read_value n (dumps (JObj es) @ r) = Some (normal (JObj es), r)"
  proof (cases "sort_entries es")
    case Nil
    then show ?thesis unfolding dumps_obj normal_obj by (simp add: m)
  next
    case (Cons e ys)
    have rd: "\<forall>x \<in> set (e # ys). reads read_entry render_entry ?g x"
      using assms(1) read_entry_written set_sort_entries [of es] unfolding Cons by blast
    have len: "length (render_entry e) + length (comma_tail render_entry ys) < m"
      using n m unfolding dumps_obj Cons join_comma by simp
    have "read_entry m (render_entry e @ comma_tail render_entry ys @ CHR ''}'' # r)
        = Some (?g e, comma_tail render_entry ys @ CHR ''}'' # r)"
      by (rule readsD [of read_entry render_entry ?g e]) (use rd len in \<open>simp_all add: delimited_tail\<close>)
    moreover have "read_entries m (comma_tail render_entry ys @ CHR ''}'' # r) = Some (map ?g ys, r)"
      by (rule read_entries_written) (use rd len in simp_all)
    moreover have "dict_of (?g e # map ?g ys) = map ?g (sort_entries es)"
    proof -
      have "mset (map fst (sort_entries es)) = mset (map fst es)" by (simp add: sort_entries_def)
      then have "distinct (map fst (sort_entries es))" using assms(3) mset_eq_imp_distinct_iff by blast
      then have "distinct (map fst (map ?g (sort_entries es)))" by (simp add: comp_def)
      then show ?thesis using dict_of_id [of "map ?g (sort_entries es)"] Cons by simp
    qed
    ultimately show ?thesis
      unfolding dumps_obj normal_obj Cons join_comma
      by (simp add: m render_entry_def quote_def del: dict_of.simps)
  qed
qed

lemma reads_dumps: "float_free j \<Longrightarrow> distinct_keys j \<Longrightarrow> reads read_value dumps normal j"
proof (induction j)
  case (JBool b)
  then show ?case by (auto simp: reads_def read_word_def gr0_conv_Suc dest!: Suc_le_D)
next
  case JNull
  then show ?case by (auto simp: reads_def read_word_def dest!: Suc_le_D)
next
  case (JInt i)
  show ?case by (rule reads_int)
next
  case (JStr s)
  have "read_value n (quote s @ r) = Some (JStr s, r)" if "length (quote s) \<le> n" for n r
  proof -
    from that obtain m where "n = Suc m" by (cases n) (simp_all add: quote_def)
    then show ?thesis using that read_string_quoted [of s m r] by (simp add: quote_def)
  qed
  then show ?case by (simp add: reads_def)
next
  case (JList xs)
  then show ?case by (intro reads_list) (auto simp: list_all_iff)
next
  case (JObj es)
  have "reads read_value dumps normal (snd e)" if "e \<in> set es" for e
    using JObj.IH [OF that, of "snd e"] JObj.prems that by (cases e) (fastforce simp: list_all_iff)
  then show ?case using JObj.prems by (intro reads_obj) (auto simp: list_all_iff)
qed simp

theorem loads_dumps: "float_free j \<Longrightarrow> distinct_keys j \<Longrightarrow> loads (dumps j) = Some (normal j)"
  using readsD [OF reads_dumps, of j "[]" "length (dumps j)"] by (simp add: loads_def)

text \<open>What is read has no floats and no dict with a repeated key.\<close>

lemma dict_of_distinct: "set (map fst (dict_of es)) = set (map fst es)" "distinct (map fst (dict_of es))"
    "set (dict_of es) \<subseteq> set es"
proof -
  show k: "set (map fst (dict_of es)) = set (map fst es)" for es :: "(string \<times> 'a) list"
    by (induction es) auto
  show "distinct (map fst (dict_of es))"
    by (induction es) (use k in auto)
  show "set (dict_of es) \<subseteq> set es" by (induction es) auto
qed

lemma list_all_dict_of: "list_all P es \<Longrightarrow> list_all P (dict_of es)"
  using dict_of_distinct(3) by (auto simp: list_all_iff)

definition plain :: "json \<Rightarrow> bool" where
  "plain j \<longleftrightarrow> float_free j \<and> distinct_keys j"

lemma plain_simps [simp]:
  "plain JNull" "plain (JBool b)" "plain (JInt i)" "plain (JStr s)" "\<not> plain (JFloat t)"
  "plain (JList xs) \<longleftrightarrow> list_all plain xs"
  "plain (JObj es) \<longleftrightarrow> distinct (map fst es) \<and> list_all (\<lambda>e. plain (snd e)) es"
  by (auto simp: plain_def list_all_iff)

lemma read_plain:
  "read_value n s = Some (v, r) \<Longrightarrow> plain v"
  "read_elements n s = Some (xs, r) \<Longrightarrow> list_all plain xs"
  "read_entry n s = Some (e, r) \<Longrightarrow> plain (snd e)"
  "read_entries n s = Some (es, r) \<Longrightarrow> list_all (\<lambda>e. plain (snd e)) es"
proof (induction n s and n s and n s and n s arbitrary: v r and xs r and e r and es r
    rule: read_value_read_elements_read_entry_read_entries.induct)
  case (2 n s)
  then show ?case
    by (auto simp: read_word_def bind_eq_Some_conv dict_of_distinct(2) simp del: dict_of.simps
        intro!: list_all_dict_of split: list.splits if_splits)
qed (auto simp: bind_eq_Some_conv split: list.splits if_splits)

lemma loads_plain: "loads s = Some j \<Longrightarrow> plain j"
  by (auto simp: loads_def dest: read_plain(1) split: option.splits list.splits)

section \<open>Documents\<close>

text \<open>
  What the classes with \<open>canonical_bytes\<close> promise of their codec: a written dict is read whatever
  the order of its keys.  Then \<open>from_canonical_bytes\<close> accepts exactly the canonical bytes of valid
  values.
\<close>

lemma map_of_sort_entries [simp]: "distinct (map fst es) \<Longrightarrow> map_of (sort_entries es) = map_of es"
proof -
  assume d: "distinct (map fst es)"
  have "mset (map fst (sort_entries es)) = mset (map fst es)" by (simp add: sort_entries_def)
  then have "distinct (map fst (sort_entries es))" using d mset_eq_imp_distinct_iff by blast
  then show ?thesis using d by (intro map_of_inject_set [THEN iffD2]) simp_all
qed

lemma exact_sort_entries [simp]: "exact (sort_entries es) ks = exact es ks"
  by (simp add: exact_def)

locale document = codec valid enc dec
  for valid :: "'a \<Rightarrow> bool" and enc :: "'a \<Rightarrow> json" and dec :: "json \<Rightarrow> 'a option" +
  assumes enc_plain: "valid x \<Longrightarrow> plain (enc x)"
    and dec_normal: "valid x \<Longrightarrow> dec (normal (enc x)) = Some x"
begin

lemma loads_written: "valid x \<Longrightarrow> loads (canonical_json (enc x)) = Some (normal (enc x))"
  using enc_plain [of x] loads_dumps [of "enc x"] by (simp add: plain_def canonical_json_def)

lemma checked_bytes:
  "(do { j \<leftarrow> loads data; x \<leftarrow> dec j; require (canonical_json (enc x) = data); Some x }) = Some y
     \<longleftrightarrow> valid y \<and> data = canonical_json (enc y)"
  using dec_valid by (auto simp: bind_eq_Some_conv loads_written dec_normal)

lemma canonical_inject: "valid x \<Longrightarrow> valid y \<Longrightarrow> canonical_json (enc x) = canonical_json (enc y) \<longleftrightarrow> x = y"
  using loads_written dec_normal by (metis option.inject)

end

text \<open>A reader that looks at the whole dict determines its canonical bytes.\<close>

locale faithful_document = document valid enc dec
  for valid :: "'a \<Rightarrow> bool" and enc :: "'a \<Rightarrow> json" and dec :: "json \<Rightarrow> 'a option" +
  assumes dec_dumps: "plain j \<Longrightarrow> dec j = Some x \<Longrightarrow> dumps j = dumps (enc x)"
begin

lemma compared_bytes:
  "(do { j \<leftarrow> loads data; require (canonical_json j = data); dec j }) = Some y
     \<longleftrightarrow> valid y \<and> data = canonical_json (enc y)"
proof
  assume "(do { j \<leftarrow> loads data; require (canonical_json j = data); dec j }) = Some y"
  then obtain j where "loads data = Some j" "canonical_json j = data" "dec j = Some y" by (auto simp: bind_eq_Some_conv)
  then show "valid y \<and> data = canonical_json (enc y)"
    using dec_dumps [of j y] loads_plain dec_valid by (auto simp: canonical_json_def)
next
  assume y: "valid y \<and> data = canonical_json (enc y)"
  then have "loads data = Some (normal (enc y))" "dec (normal (enc y)) = Some y"
    by (simp_all add: loads_written dec_normal)
  moreover have "canonical_json (normal (enc y)) = data"
    using dec_dumps [of "normal (enc y)" y] loads_plain [of data] calculation y by (simp add: canonical_json_def)
  ultimately show "(do { j \<leftarrow> loads data; require (canonical_json j = data); dec j }) = Some y" by simp
qed

end

lemma dumps_obj_cong:
  assumes "distinct (map fst es)" "distinct (map fst es')" "set (map fst es) = set (map fst es')"
    and "\<And>k v. map_of es k = Some v \<Longrightarrow> \<exists>v'. map_of es' k = Some v' \<and> dumps v = dumps v'"
  shows "dumps (JObj es) = dumps (JObj es')"
proof -
  let ?d = "map (map_prod id dumps)"
  have keys: "map fst (?d xs) = map fst xs" for xs by simp
  have look: "map_of (?d xs) k = map_option dumps (map_of xs k)" for xs k by (induction xs) auto
  have "map_of (?d es) k = map_of (?d es') k" for k
  proof (cases "map_of es k")
    case None
    then have "map_of es' k = None" using assms(3) by (auto simp: map_of_eq_None_iff)
    with None show ?thesis by (simp add: look)
  next
    case (Some v)
    then show ?thesis using assms(4) [OF Some] by (auto simp: look)
  qed
  then have "set (?d es) = set (?d es')"
    using assms(1,2) by (intro map_of_inject_set [THEN iffD1] ext) (simp_all add: comp_def)
  then have "sort_entries (?d es) = sort_entries (?d es')"
    unfolding sort_entries_def by (rule sort_key_set_eq [rotated 2]) (use assms(1,2) in \<open>simp_all add: comp_def\<close>)
  then show ?thesis by simp
qed

lemma dumps_obj_fields:
  assumes "distinct (map fst es)" "distinct (map fst es')" "exact es (map fst es') = Some ()"
    and "list_all (\<lambda>(k, v'). \<exists>v. map_of es k = Some v \<and> dumps v = dumps v') es'"
  shows "dumps (JObj es) = dumps (JObj es')"
proof (rule dumps_obj_cong [OF assms(1,2)])
  show keys: "set (map fst es) = set (map fst es')" using assms(3) by (simp add: exact_def)
  fix k v assume v: "map_of es k = Some v"
  then have "k \<in> set (map fst es')" using keys by (metis map_of_SomeD fst_conv image_eqI list.set_map)
  then obtain v' where v': "map_of es' k = Some v'" by (auto simp: map_of_eq_None_iff dest: weak_map_of_SomeI)
  then have "(k, v') \<in> set es'" by (rule map_of_SomeD)
  then show "\<exists>v'. map_of es' k = Some v' \<and> dumps v = dumps v'"
    using assms(4) v v' by (fastforce simp: list_all_iff)
qed

end
