(* ===== verification/Devices.thy ===== *)
theory Devices
  imports Timestamps JsonParse
begin

text \<open>
  Device identities (\<open>vaultsync/device_identity.py\<close>): public descriptors, their signed form, and the
  private bundle of a device.  Every exception of the module is a \<open>DeviceIdentityError\<close>, here \<open>None\<close>.

  The keys are parameters: \<open>ed\<close> and \<open>xp\<close> give the public key of an Ed25519 seed and of an X25519
  private key, \<open>sign\<close> signs under a seed, \<open>verify\<close> takes a public key, a signature and a message, and
  \<open>exchange\<close> is the X25519 exchange, which may raise.
\<close>

section \<open>Fields\<close>

definition DEVICE_DESCRIPTOR_FORMAT :: string where
  "DEVICE_DESCRIPTOR_FORMAT = ''atlasvault-device-descriptor''"

definition SIGNED_DEVICE_DESCRIPTOR_FORMAT :: string where
  "SIGNED_DEVICE_DESCRIPTOR_FORMAT = ''atlasvault-signed-device-descriptor''"

definition DEVICE_IDENTITY_SECRET_FORMAT :: string where
  "DEVICE_IDENTITY_SECRET_FORMAT = ''atlasvault-device-identity-secret''"

definition DEVICE_KEY_BYTES :: nat where
  "DEVICE_KEY_BYTES = 32"

definition DEVICE_SIGNATURE_BYTES :: nat where
  "DEVICE_SIGNATURE_BYTES = 64"

definition MAXIMUM_DEVICE_KEY_EPOCH :: int where
  "MAXIMUM_DEVICE_KEY_EPOCH = 2 ^ 63 - 1"

definition DEVICE_ID_DOMAIN :: string where
  "DEVICE_ID_DOMAIN = ''atlasvault-device-id-v1:''"

definition DEVICE_DESCRIPTOR_SIGNATURE_DOMAIN :: string where
  "DEVICE_DESCRIPTOR_SIGNATURE_DOMAIN = ''atlasvault-device-descriptor-signature-v1:''"

fun int_value :: "json \<Rightarrow> int option" where
  "int_value (JInt i) = Some i"
| "int_value _ = None"

fun str_value :: "json \<Rightarrow> string option" where
  "str_value (JStr s) = Some s"
| "str_value _ = None"

definition is_key_epoch :: "int \<Rightarrow> bool" where
  "is_key_epoch e \<longleftrightarrow> 0 < e \<and> e \<le> MAXIMUM_DEVICE_KEY_EPOCH"

definition key_epoch_value :: "json \<Rightarrow> int option" where
  "key_epoch_value v = do { e \<leftarrow> int_value v; require (is_key_epoch e); Some e }"

definition decode_base64 :: "nat \<Rightarrow> json \<Rightarrow> string option" where
  "decode_base64 n v = do {
     t \<leftarrow> str_value v;
     decoded \<leftarrow> b64decode t;
     require (\<not> (length decoded \<noteq> n \<or> b64encode decoded \<noteq> t));
     Some decoded }"

definition derive_device_id :: "string \<Rightarrow> string \<Rightarrow> string option" where
  "derive_device_id signing agreement = do {
     require (length signing = DEVICE_KEY_BYTES);
     require (length agreement = DEVICE_KEY_BYTES);
     Some (''avd1-'' @ sha256_hex (DEVICE_ID_DOMAIN @ signing @ agreement)) }"

lemma int_value_iff [simp]: "int_value v = Some i \<longleftrightarrow> v = JInt i"
  by (cases v) auto

lemma str_value_iff [simp]: "str_value v = Some s \<longleftrightarrow> v = JStr s"
  by (cases v) auto

lemma key_epoch_value_iff [simp]: "key_epoch_value v = Some e \<longleftrightarrow> v = JInt e \<and> is_key_epoch e"
  by (auto simp: key_epoch_value_def bind_eq_Some_conv)

lemma decode_base64_iff [simp]: "decode_base64 n v = Some bs \<longleftrightarrow> v = JStr (b64encode bs) \<and> length bs = n"
  by (auto simp: decode_base64_def bind_eq_Some_conv)

lemma device_fields_accept [simp]:
  "is_key_epoch e \<Longrightarrow> key_epoch_value (JInt e) = Some e"
  "length bs = n \<Longrightarrow> decode_base64 n (JStr (b64encode bs)) = Some bs"
  by simp_all

section \<open>Descriptors\<close>

record device_descriptor =
  dd_device_id :: string
  dd_signing_key :: string
  dd_agreement_key :: string
  dd_created_at :: string
  dd_key_epoch :: int

text \<open>\<open>__post_init__\<close>; the format and the version have their only values.\<close>

definition new_descriptor :: "device_descriptor \<Rightarrow> device_descriptor option" where
  "new_descriptor d = do {
     require (length (dd_signing_key d) = DEVICE_KEY_BYTES \<and> length (dd_agreement_key d) = DEVICE_KEY_BYTES);
     require (is_key_epoch (dd_key_epoch d));
     require (is_timestamp (dd_created_at d));
     expected \<leftarrow> derive_device_id (dd_signing_key d) (dd_agreement_key d);
     require (dd_device_id d = expected);
     Some d }"

definition descriptor_from_public_keys :: "string \<Rightarrow> string \<Rightarrow> string \<Rightarrow> int \<Rightarrow> device_descriptor option" where
  "descriptor_from_public_keys signing agreement created epoch_v = do {
     device_id \<leftarrow> derive_device_id signing agreement;
     new_descriptor \<lparr>dd_device_id = device_id, dd_signing_key = signing, dd_agreement_key = agreement,
       dd_created_at = created, dd_key_epoch = epoch_v\<rparr> }"

definition descriptor_keys :: "string list" where
  "descriptor_keys = [''format'', ''version'', ''device_id'', ''signing_public_key'', ''agreement_public_key'',
     ''created_at'', ''key_epoch'']"

definition descriptor_from_dict :: "json \<Rightarrow> device_descriptor option" where
  "descriptor_from_dict v = do {
     obj \<leftarrow> mapping v;
     exact obj descriptor_keys;
     format_v \<leftarrow> map_of obj ''format'';
     version_v \<leftarrow> map_of obj ''version'' \<bind> int_value;
     device_id \<leftarrow> map_of obj ''device_id'' \<bind> str_value;
     signing \<leftarrow> map_of obj ''signing_public_key'' \<bind> decode_base64 DEVICE_KEY_BYTES;
     agreement \<leftarrow> map_of obj ''agreement_public_key'' \<bind> decode_base64 DEVICE_KEY_BYTES;
     created \<leftarrow> map_of obj ''created_at'' \<bind> timestamp_value;
     epoch_v \<leftarrow> map_of obj ''key_epoch'' \<bind> key_epoch_value;
     require (format_v = JStr DEVICE_DESCRIPTOR_FORMAT);
     require (version_v = 1);
     new_descriptor \<lparr>dd_device_id = device_id, dd_signing_key = signing, dd_agreement_key = agreement,
       dd_created_at = created, dd_key_epoch = epoch_v\<rparr> }"

definition descriptor_to_dict :: "device_descriptor \<Rightarrow> json" where
  "descriptor_to_dict d = JObj
     [(''format'', JStr DEVICE_DESCRIPTOR_FORMAT), (''version'', JInt 1), (''device_id'', JStr (dd_device_id d)),
      (''signing_public_key'', JStr (b64encode (dd_signing_key d))),
      (''agreement_public_key'', JStr (b64encode (dd_agreement_key d))),
      (''created_at'', JStr (dd_created_at d)), (''key_epoch'', JInt (dd_key_epoch d))]"

definition descriptor_bytes :: "device_descriptor \<Rightarrow> string" where
  "descriptor_bytes d = canonical_json (descriptor_to_dict d)"

definition valid_descriptor :: "device_descriptor \<Rightarrow> bool" where
  "valid_descriptor d \<longleftrightarrow> length (dd_signing_key d) = DEVICE_KEY_BYTES \<and> length (dd_agreement_key d) = DEVICE_KEY_BYTES
     \<and> is_key_epoch (dd_key_epoch d) \<and> is_timestamp (dd_created_at d)
     \<and> derive_device_id (dd_signing_key d) (dd_agreement_key d) = Some (dd_device_id d)"

lemma new_descriptor_iff [simp]: "new_descriptor d = Some d' \<longleftrightarrow> d' = d \<and> valid_descriptor d"
  by (auto simp: new_descriptor_def valid_descriptor_def bind_eq_Some_conv)

lemma new_descriptor_valid [simp]: "valid_descriptor d \<Longrightarrow> new_descriptor d = Some d"
  by simp

lemma descriptor_read: "valid_descriptor d \<Longrightarrow> descriptor_from_dict (descriptor_to_dict d) = Some d"
    "valid_descriptor d \<Longrightarrow> descriptor_from_dict (normal (descriptor_to_dict d)) = Some d"
  by (cases d; simp add: descriptor_from_dict_def descriptor_to_dict_def descriptor_keys_def exact_def valid_descriptor_def)+

lemma descriptor_from_valid:
  assumes "descriptor_from_dict j = Some d"
  shows "valid_descriptor d" "plain j \<Longrightarrow> dumps j = dumps (descriptor_to_dict d)"
proof -
  obtain es where j: "j = JObj es" using assms by (auto simp: descriptor_from_dict_def bind_eq_Some_conv)
  show "valid_descriptor d" using assms by (auto simp: descriptor_from_dict_def bind_eq_Some_conv)
  assume "plain j"
  then show "dumps j = dumps (descriptor_to_dict d)"
    using assms unfolding j descriptor_to_dict_def
    by (intro dumps_obj_fields) (auto simp: descriptor_from_dict_def descriptor_keys_def bind_eq_Some_conv)
qed

lemma descriptor_plain: "plain (descriptor_to_dict d)"
  by (simp add: descriptor_to_dict_def)

interpretation descriptors: faithful_document valid_descriptor descriptor_to_dict descriptor_from_dict
  by unfold_locales (rule descriptor_read descriptor_from_valid descriptor_plain; assumption)+

section \<open>Signed descriptors\<close>

record signed_descriptor =
  sd_descriptor :: device_descriptor
  sd_signature :: string

definition new_signed_descriptor :: "signed_descriptor \<Rightarrow> signed_descriptor option" where
  "new_signed_descriptor sd = do { require (length (sd_signature sd) = DEVICE_SIGNATURE_BYTES); Some sd }"

definition signed_keys :: "string list" where
  "signed_keys = [''format'', ''version'', ''descriptor'', ''signature'']"

definition signed_from_dict :: "json \<Rightarrow> signed_descriptor option" where
  "signed_from_dict v = do {
     obj \<leftarrow> mapping v;
     exact obj signed_keys;
     format_v \<leftarrow> map_of obj ''format'';
     version_v \<leftarrow> map_of obj ''version'' \<bind> int_value;
     d \<leftarrow> map_of obj ''descriptor'' \<bind> descriptor_from_dict;
     signature \<leftarrow> map_of obj ''signature'' \<bind> decode_base64 DEVICE_SIGNATURE_BYTES;
     require (\<not> (format_v \<noteq> JStr SIGNED_DEVICE_DESCRIPTOR_FORMAT \<or> version_v \<noteq> 1));
     new_signed_descriptor \<lparr>sd_descriptor = d, sd_signature = signature\<rparr> }"

definition signed_to_dict :: "signed_descriptor \<Rightarrow> json" where
  "signed_to_dict sd = JObj
     [(''format'', JStr SIGNED_DEVICE_DESCRIPTOR_FORMAT), (''version'', JInt 1),
      (''descriptor'', descriptor_to_dict (sd_descriptor sd)), (''signature'', JStr (b64encode (sd_signature sd)))]"

definition signed_bytes :: "signed_descriptor \<Rightarrow> string" where
  "signed_bytes sd = canonical_json (signed_to_dict sd)"

definition signed_from_bytes :: "string \<Rightarrow> signed_descriptor option" where
  "signed_from_bytes data = do {
     j \<leftarrow> loads data;
     sd \<leftarrow> signed_from_dict j;
     require (signed_bytes sd = data);
     Some sd }"

definition verify_signed_descriptor ::
  "(string \<Rightarrow> string \<Rightarrow> string \<Rightarrow> bool) \<Rightarrow> signed_descriptor \<Rightarrow> device_descriptor option" where
  "verify_signed_descriptor verify sd = do {
     require (verify (dd_signing_key (sd_descriptor sd)) (sd_signature sd)
       (DEVICE_DESCRIPTOR_SIGNATURE_DOMAIN @ descriptor_bytes (sd_descriptor sd)));
     Some (sd_descriptor sd) }"

definition valid_signed :: "signed_descriptor \<Rightarrow> bool" where
  "valid_signed sd \<longleftrightarrow> valid_descriptor (sd_descriptor sd) \<and> length (sd_signature sd) = DEVICE_SIGNATURE_BYTES"

lemma signed_read: "valid_signed sd \<Longrightarrow> signed_from_dict (signed_to_dict sd) = Some sd"
    "valid_signed sd \<Longrightarrow> signed_from_dict (normal (signed_to_dict sd)) = Some sd"
  by (cases sd; simp add: signed_from_dict_def signed_to_dict_def signed_keys_def exact_def valid_signed_def
      new_signed_descriptor_def descriptor_read)+

lemma signed_from_valid:
  assumes "signed_from_dict j = Some sd"
  shows "valid_signed sd" "plain j \<Longrightarrow> dumps j = dumps (signed_to_dict sd)"
proof -
  obtain es where j: "j = JObj es" using assms by (auto simp: signed_from_dict_def bind_eq_Some_conv)
  show "valid_signed sd" using assms
    by (auto simp: signed_from_dict_def bind_eq_Some_conv new_signed_descriptor_def valid_signed_def descriptor_from_valid)
  assume p: "plain j"
  then have inner: "dumps w = dumps (descriptor_to_dict d)" if "map_of es ''descriptor'' = Some w" "descriptor_from_dict w = Some d" for w d
    using that map_of_SomeD [OF that(1)] by (intro descriptor_from_valid(2)) (auto simp: j list_all_iff)
  show "dumps j = dumps (signed_to_dict sd)"
    using assms p inner unfolding j signed_to_dict_def
    by (intro dumps_obj_fields) (auto simp: signed_from_dict_def signed_keys_def bind_eq_Some_conv new_signed_descriptor_def)
qed

lemma signed_plain: "plain (signed_to_dict sd)"
  using descriptor_plain by (simp add: signed_to_dict_def)

interpretation signed_descriptors: faithful_document valid_signed signed_to_dict signed_from_dict
  by unfold_locales (rule signed_read signed_from_valid signed_plain; assumption)+

lemma signed_from_bytes_iff: "signed_from_bytes data = Some sd \<longleftrightarrow> valid_signed sd \<and> data = signed_bytes sd"
  unfolding signed_from_bytes_def signed_bytes_def by (rule signed_descriptors.checked_bytes)

lemma verify_signed_iff: "verify_signed_descriptor verify sd = Some d \<longleftrightarrow> d = sd_descriptor sd
    \<and> verify (dd_signing_key d) (sd_signature sd) (DEVICE_DESCRIPTOR_SIGNATURE_DOMAIN @ descriptor_bytes d)"
  by (auto simp: verify_signed_descriptor_def bind_eq_Some_conv)

section \<open>Secret bundles\<close>

record identity_secret =
  is_device_id :: string
  is_created_at :: string
  is_key_epoch_no :: int
  is_signing_seed :: string
  is_agreement_key :: string

definition new_secret :: "(string \<Rightarrow> string) \<Rightarrow> (string \<Rightarrow> string) \<Rightarrow> identity_secret \<Rightarrow> identity_secret option" where
  "new_secret ed xp b = do {
     require (is_key_epoch (is_key_epoch_no b));
     require (is_timestamp (is_created_at b));
     require (length (is_signing_seed b) = DEVICE_KEY_BYTES \<and> length (is_agreement_key b) = DEVICE_KEY_BYTES);
     expected \<leftarrow> derive_device_id (ed (is_signing_seed b)) (xp (is_agreement_key b));
     require (is_device_id b = expected);
     Some b }"

definition secret_keys :: "string list" where
  "secret_keys = [''format'', ''version'', ''device_id'', ''created_at'', ''key_epoch'', ''signing_private_key'',
     ''agreement_private_key'']"

definition secret_from_dict :: "(string \<Rightarrow> string) \<Rightarrow> (string \<Rightarrow> string) \<Rightarrow> json \<Rightarrow> identity_secret option" where
  "secret_from_dict ed xp v = do {
     obj \<leftarrow> mapping v;
     exact obj secret_keys;
     format_v \<leftarrow> map_of obj ''format'';
     version_v \<leftarrow> map_of obj ''version'' \<bind> int_value;
     device_id \<leftarrow> map_of obj ''device_id'' \<bind> str_value;
     created \<leftarrow> map_of obj ''created_at'' \<bind> timestamp_value;
     epoch_v \<leftarrow> map_of obj ''key_epoch'' \<bind> key_epoch_value;
     signing \<leftarrow> map_of obj ''signing_private_key'' \<bind> decode_base64 DEVICE_KEY_BYTES;
     agreement \<leftarrow> map_of obj ''agreement_private_key'' \<bind> decode_base64 DEVICE_KEY_BYTES;
     require (format_v = JStr DEVICE_IDENTITY_SECRET_FORMAT);
     require (version_v = 1);
     new_secret ed xp \<lparr>is_device_id = device_id, is_created_at = created, is_key_epoch_no = epoch_v,
       is_signing_seed = signing, is_agreement_key = agreement\<rparr> }"

definition secret_to_dict :: "identity_secret \<Rightarrow> json" where
  "secret_to_dict b = JObj
     [(''format'', JStr DEVICE_IDENTITY_SECRET_FORMAT), (''version'', JInt 1), (''device_id'', JStr (is_device_id b)),
      (''created_at'', JStr (is_created_at b)), (''key_epoch'', JInt (is_key_epoch_no b)),
      (''signing_private_key'', JStr (b64encode (is_signing_seed b))),
      (''agreement_private_key'', JStr (b64encode (is_agreement_key b)))]"

definition secret_bytes :: "identity_secret \<Rightarrow> string" where
  "secret_bytes b = canonical_json (secret_to_dict b)"

definition secret_from_bytes :: "(string \<Rightarrow> string) \<Rightarrow> (string \<Rightarrow> string) \<Rightarrow> string \<Rightarrow> identity_secret option" where
  "secret_from_bytes ed xp data = do {
     j \<leftarrow> loads data;
     b \<leftarrow> secret_from_dict ed xp j;
     require (secret_bytes b = data);
     Some b }"

definition valid_secret :: "(string \<Rightarrow> string) \<Rightarrow> (string \<Rightarrow> string) \<Rightarrow> identity_secret \<Rightarrow> bool" where
  "valid_secret ed xp b \<longleftrightarrow> is_key_epoch (is_key_epoch_no b) \<and> is_timestamp (is_created_at b)
     \<and> length (is_signing_seed b) = DEVICE_KEY_BYTES \<and> length (is_agreement_key b) = DEVICE_KEY_BYTES
     \<and> derive_device_id (ed (is_signing_seed b)) (xp (is_agreement_key b)) = Some (is_device_id b)"

lemma new_secret_iff [simp]: "new_secret ed xp b = Some b' \<longleftrightarrow> b' = b \<and> valid_secret ed xp b"
  by (auto simp: new_secret_def valid_secret_def bind_eq_Some_conv)

lemma new_secret_valid [simp]: "valid_secret ed xp b \<Longrightarrow> new_secret ed xp b = Some b"
  by simp

lemma secret_read: "valid_secret ed xp b \<Longrightarrow> secret_from_dict ed xp (secret_to_dict b) = Some b"
    "valid_secret ed xp b \<Longrightarrow> secret_from_dict ed xp (normal (secret_to_dict b)) = Some b"
  by (cases b; simp add: secret_from_dict_def secret_to_dict_def secret_keys_def exact_def valid_secret_def)+

interpretation secrets: document "valid_secret ed xp" secret_to_dict "secret_from_dict ed xp" for ed xp
proof unfold_locales
  show "secret_from_dict ed xp w = Some b \<Longrightarrow> valid_secret ed xp b" for w b
    by (auto simp: secret_from_dict_def bind_eq_Some_conv)
qed (simp_all add: secret_read, simp add: secret_to_dict_def)

lemma secret_from_bytes_iff: "secret_from_bytes ed xp data = Some b \<longleftrightarrow> valid_secret ed xp b \<and> data = secret_bytes b"
  unfolding secret_from_bytes_def secret_bytes_def by (rule secrets.checked_bytes)

section \<open>Identities\<close>

record device_identity =
  di_seed :: string
  di_agreement_key :: string
  di_descriptor :: device_descriptor

definition new_identity :: "(string \<Rightarrow> string) \<Rightarrow> (string \<Rightarrow> string) \<Rightarrow> device_identity \<Rightarrow> device_identity option" where
  "new_identity ed xp i = do {
     require (length (di_seed i) = DEVICE_KEY_BYTES);
     require (length (di_agreement_key i) = DEVICE_KEY_BYTES);
     expected \<leftarrow> descriptor_from_public_keys (ed (di_seed i)) (xp (di_agreement_key i))
       (dd_created_at (di_descriptor i)) (dd_key_epoch (di_descriptor i));
     require (expected = di_descriptor i);
     Some i }"

definition identity_from_private_keys ::
  "(string \<Rightarrow> string) \<Rightarrow> (string \<Rightarrow> string) \<Rightarrow> string \<Rightarrow> string \<Rightarrow> string \<Rightarrow> int \<Rightarrow> string option \<Rightarrow> device_identity option" where
  "identity_from_private_keys ed xp seed key created epoch_v expected_id = do {
     require (length seed = DEVICE_KEY_BYTES);
     require (length key = DEVICE_KEY_BYTES);
     d \<leftarrow> descriptor_from_public_keys (ed seed) (xp key) created epoch_v;
     require (expected_id = None \<or> expected_id = Some (dd_device_id d));
     new_identity ed xp \<lparr>di_seed = seed, di_agreement_key = key, di_descriptor = d\<rparr> }"

text \<open>\<open>generate_device_identity\<close>, given the two random keys and the clock.\<close>

definition generate_identity ::
  "(string \<Rightarrow> string) \<Rightarrow> (string \<Rightarrow> string) \<Rightarrow> string \<Rightarrow> string \<Rightarrow> string \<Rightarrow> string option \<Rightarrow> int \<Rightarrow> device_identity option" where
  "generate_identity ed xp seed key now created epoch_v =
     identity_from_private_keys ed xp seed key (case created of None \<Rightarrow> now | Some t \<Rightarrow> t) epoch_v None"

definition identity_sign :: "(string \<Rightarrow> string \<Rightarrow> string) \<Rightarrow> device_identity \<Rightarrow> string \<Rightarrow> string" where
  "identity_sign sign i message = sign (di_seed i) message"

definition sign_descriptor :: "(string \<Rightarrow> string \<Rightarrow> string) \<Rightarrow> device_identity \<Rightarrow> signed_descriptor option" where
  "sign_descriptor sign i = new_signed_descriptor \<lparr>sd_descriptor = di_descriptor i,
     sd_signature = identity_sign sign i (DEVICE_DESCRIPTOR_SIGNATURE_DOMAIN @ descriptor_bytes (di_descriptor i))\<rparr>"

definition shared_secret_for :: "(string \<Rightarrow> string \<Rightarrow> string option) \<Rightarrow> device_identity \<Rightarrow> string \<Rightarrow> string option" where
  "shared_secret_for exchange i public_key = do {
     require (length public_key = DEVICE_KEY_BYTES);
     secret \<leftarrow> exchange (di_agreement_key i) public_key;
     require (\<not> (length secret \<noteq> DEVICE_KEY_BYTES \<or> secret = replicate DEVICE_KEY_BYTES (CHR 0x00)));
     Some secret }"

definition secret_bundle :: "(string \<Rightarrow> string) \<Rightarrow> (string \<Rightarrow> string) \<Rightarrow> device_identity \<Rightarrow> identity_secret option" where
  "secret_bundle ed xp i = new_secret ed xp
     \<lparr>is_device_id = dd_device_id (di_descriptor i), is_created_at = dd_created_at (di_descriptor i),
       is_key_epoch_no = dd_key_epoch (di_descriptor i), is_signing_seed = di_seed i, is_agreement_key = di_agreement_key i\<rparr>"

definition load_identity :: "(string \<Rightarrow> string) \<Rightarrow> (string \<Rightarrow> string) \<Rightarrow> identity_secret \<Rightarrow> device_identity option" where
  "load_identity ed xp b = identity_from_private_keys ed xp (is_signing_seed b) (is_agreement_key b)
     (is_created_at b) (is_key_epoch_no b) (Some (is_device_id b))"

lemma from_public_keys_iff:
  "descriptor_from_public_keys k a t e = Some d \<longleftrightarrow> valid_descriptor d \<and> dd_signing_key d = k \<and> dd_agreement_key d = a
     \<and> dd_created_at d = t \<and> dd_key_epoch d = e"
  by (cases d) (auto simp: descriptor_from_public_keys_def bind_eq_Some_conv valid_descriptor_def)

definition valid_identity :: "(string \<Rightarrow> string) \<Rightarrow> (string \<Rightarrow> string) \<Rightarrow> device_identity \<Rightarrow> bool" where
  "valid_identity ed xp i \<longleftrightarrow> length (di_seed i) = DEVICE_KEY_BYTES \<and> length (di_agreement_key i) = DEVICE_KEY_BYTES
     \<and> valid_descriptor (di_descriptor i) \<and> dd_signing_key (di_descriptor i) = ed (di_seed i)
     \<and> dd_agreement_key (di_descriptor i) = xp (di_agreement_key i)"

lemma new_identity_iff [simp]: "new_identity ed xp i = Some i' \<longleftrightarrow> i' = i \<and> valid_identity ed xp i"
  by (auto simp: new_identity_def bind_eq_Some_conv from_public_keys_iff valid_identity_def)

lemma identity_from_keys_iff:
  "identity_from_private_keys ed xp seed key t e x = Some i \<longleftrightarrow> valid_identity ed xp i \<and> di_seed i = seed
     \<and> di_agreement_key i = key \<and> dd_created_at (di_descriptor i) = t \<and> dd_key_epoch (di_descriptor i) = e
     \<and> (x = None \<or> x = Some (dd_device_id (di_descriptor i)))"
  by (cases i) (auto simp: identity_from_private_keys_def bind_eq_Some_conv from_public_keys_iff valid_identity_def)

lemma valid_identity_secret:
  "valid_identity ed xp i \<Longrightarrow> valid_secret ed xp \<lparr>is_device_id = dd_device_id (di_descriptor i),
     is_created_at = dd_created_at (di_descriptor i), is_key_epoch_no = dd_key_epoch (di_descriptor i),
     is_signing_seed = di_seed i, is_agreement_key = di_agreement_key i\<rparr>"
  by (auto simp: valid_identity_def valid_secret_def valid_descriptor_def)

section \<open>Properties\<close>

text \<open>C25: the bytes of a signed descriptor and of a secret bundle are accepted exactly when they are the canonical bytes of a valid value, so nothing has two encodings and nothing that was written is refused.\<close>

theorem device_bytes_canonical:
  "(signed_from_bytes data = Some sd \<longleftrightarrow> valid_signed sd \<and> data = signed_bytes sd)
   \<and> (secret_from_bytes ed xp data = Some b \<longleftrightarrow> valid_secret ed xp b \<and> data = secret_bytes b)"
  using signed_from_bytes_iff secret_from_bytes_iff by blast

text \<open>An identity that was made can be stored as its secret bundle and loaded again, and the descriptor it signs is read and verified by every other device.\<close>

theorem identity_survives:
  assumes "identity_from_private_keys ed xp seed key created epoch_v expected = Some i"
    and "\<And>m. verify (ed seed) (sign seed m) m" "\<And>m. length (sign seed m) = DEVICE_SIGNATURE_BYTES"
  shows "(\<exists>b. secret_bundle ed xp i = Some b \<and> secret_from_bytes ed xp (secret_bytes b) = Some b \<and> load_identity ed xp b = Some i)
    \<and> (\<exists>sd. sign_descriptor sign i = Some sd \<and> signed_from_bytes (signed_bytes sd) = Some sd
      \<and> verify_signed_descriptor verify sd = Some (di_descriptor i))"
proof -
  have i: "valid_identity ed xp i" "di_seed i = seed" "di_agreement_key i = key"
    using assms(1) by (simp_all add: identity_from_keys_iff)
  let ?b = "\<lparr>is_device_id = dd_device_id (di_descriptor i), is_created_at = dd_created_at (di_descriptor i),
    is_key_epoch_no = dd_key_epoch (di_descriptor i), is_signing_seed = di_seed i, is_agreement_key = di_agreement_key i\<rparr>"
  let ?sd = "\<lparr>sd_descriptor = di_descriptor i,
    sd_signature = sign seed (DEVICE_DESCRIPTOR_SIGNATURE_DOMAIN @ descriptor_bytes (di_descriptor i))\<rparr>"
  note b = valid_identity_secret [OF i(1)]
  have "secret_bundle ed xp i = Some ?b" using b by (simp add: secret_bundle_def)
  moreover have "secret_from_bytes ed xp (secret_bytes ?b) = Some ?b" using b by (simp add: secret_from_bytes_iff)
  moreover have "load_identity ed xp ?b = Some i" using i(1) by (simp add: load_identity_def identity_from_keys_iff)
  moreover have "sign_descriptor sign i = Some ?sd"
    using assms(3) i(2) by (simp add: sign_descriptor_def new_signed_descriptor_def identity_sign_def)
  moreover have "signed_from_bytes (signed_bytes ?sd) = Some ?sd"
    using assms(3) i(1) by (simp add: signed_from_bytes_iff valid_signed_def valid_identity_def)
  moreover have "verify_signed_descriptor verify ?sd = Some (di_descriptor i)"
    using assms(2) i by (simp add: verify_signed_iff valid_identity_def)
  ultimately show ?thesis by blast
qed

definition sample_seed :: string where
  "sample_seed = replicate 32 (CHR ''s'')"

definition sample_identity :: device_identity where
  "sample_identity = \<lparr>di_seed = sample_seed, di_agreement_key = sample_seed, di_descriptor =
     \<lparr>dd_device_id = ''avd1-'' @ sha256_hex (DEVICE_ID_DOMAIN @ sample_seed @ sample_seed), dd_signing_key = sample_seed,
       dd_agreement_key = sample_seed, dd_created_at = ''2026-01-01T00:00:00Z'', dd_key_epoch = 1\<rparr>\<rparr>"

lemma length_sample_seed [simp]: "length sample_seed = DEVICE_KEY_BYTES"
  by (simp add: sample_seed_def DEVICE_KEY_BYTES_def)

lemma sample_identity_made:
  "identity_from_private_keys id id sample_seed sample_seed ''2026-01-01T00:00:00Z'' 1 None = Some sample_identity"
  by (simp add: identity_from_keys_iff valid_identity_def sample_identity_def valid_descriptor_def derive_device_id_def
      is_key_epoch_def MAXIMUM_DEVICE_KEY_EPOCH_def)

theorem identity_survives_witness:
  "\<exists>b. secret_bundle id id sample_identity = Some b \<and> load_identity id id b = Some sample_identity"
  using identity_survives [OF sample_identity_made, of "\<lambda>_ _ _. True" "\<lambda>_ _. replicate DEVICE_SIGNATURE_BYTES (CHR ''x'')"]
  by auto

text \<open>C26: if nobody can sign under a device's key anything but its own descriptor, then no other descriptor with that signing key is accepted: every field is covered by the signature.\<close>

theorem descriptor_not_forged:
  assumes "signed_from_bytes data = Some sd" "verify_signed_descriptor verify sd = Some d"
    and "valid_descriptor genuine" "dd_signing_key d = dd_signing_key genuine"
    and "\<And>signature message. verify (dd_signing_key genuine) signature message \<Longrightarrow>
      message = DEVICE_DESCRIPTOR_SIGNATURE_DOMAIN @ descriptor_bytes genuine"
  shows "d = genuine"
proof -
  have "valid_descriptor d" "descriptor_bytes d = descriptor_bytes genuine"
    using assms by (auto simp: verify_signed_iff signed_from_bytes_iff valid_signed_def)
  then show ?thesis using assms(3) by (simp add: descriptor_bytes_def descriptors.canonical_inject)
qed

lemma sample_descriptor_valid: "valid_descriptor (di_descriptor sample_identity)"
  using sample_identity_made by (simp add: identity_from_keys_iff valid_identity_def)

definition sample_signed :: signed_descriptor where
  "sample_signed = \<lparr>sd_descriptor = di_descriptor sample_identity, sd_signature = replicate 64 (CHR ''x'')\<rparr>"

lemma sample_signed_valid: "valid_signed sample_signed"
  using sample_descriptor_valid by (simp add: valid_signed_def sample_signed_def DEVICE_SIGNATURE_BYTES_def)

theorem descriptor_not_forged_witness: "sd_descriptor sample_signed = di_descriptor sample_identity"
proof (rule descriptor_not_forged [of "signed_bytes sample_signed" sample_signed
      "\<lambda>_ _ m. m = DEVICE_DESCRIPTOR_SIGNATURE_DOMAIN @ descriptor_bytes (di_descriptor sample_identity)"])
  show "signed_from_bytes (signed_bytes sample_signed) = Some sample_signed"
    using sample_signed_valid by (simp add: signed_from_bytes_iff)
qed (simp_all add: sample_descriptor_valid verify_signed_iff, simp_all add: sample_signed_def)

end
