(* ===== verification/TrustedDevices.thy ===== *)
theory TrustedDevices
  imports Devices
begin

text \<open>
  The protected state of pairing (\<open>vaultsync/trusted_devices.py\<close>): the registry of trusted devices and
  the store of consumed pairing objects, and the size limits of protected state
  (\<open>vaultsync/protected_state_bounds.py\<close>).  Every exception is a \<open>TrustedDeviceStateError\<close>, here
  \<open>None\<close>.  \<open>verify\<close> is Ed25519 verification, as in \<open>Devices\<close>.
\<close>

section \<open>Size limits of protected state\<close>

datatype protected_category = Trusted_device_registry | Pairing_replay_state | Pairing_transaction_journal
  | Pairing_bootstrap | Imported_encrypted_state

fun maximum_protected_bytes :: "protected_category \<Rightarrow> nat" where
  "maximum_protected_bytes Trusted_device_registry = 2 * 1024 * 1024"
| "maximum_protected_bytes Pairing_replay_state = 2 * 1024 * 1024"
| "maximum_protected_bytes Pairing_transaction_journal = 64 * 1024"
| "maximum_protected_bytes Pairing_bootstrap = 128 * 1024 * 1024"
| "maximum_protected_bytes Imported_encrypted_state = 128 * 1024 * 1024"

definition require_protected_bytes :: "protected_category \<Rightarrow> nat \<Rightarrow> nat option" where
  "require_protected_bytes c n = (if n = 0 \<or> n > maximum_protected_bytes c then None else Some n)"

definition MAXIMUM_STAGED_BYTES :: int where
  "MAXIMUM_STAGED_BYTES = 128 * 1024 * 1024"

definition MAXIMUM_STAGED_COUNT :: nat where
  "MAXIMUM_STAGED_COUNT = 4"

fun staged_loop :: "nat \<Rightarrow> int \<Rightarrow> int list \<Rightarrow> int option" where
  "staged_loop k acc [] = Some acc"
| "staged_loop k acc (n # ns) =
     (if Suc k > MAXIMUM_STAGED_COUNT \<or> n \<le> 0 \<or> n > MAXIMUM_STAGED_BYTES \<or> acc > MAXIMUM_STAGED_BYTES - n then None
      else staged_loop (Suc k) (acc + n) ns)"

definition require_staged_bytes :: "int list \<Rightarrow> int option" where
  "require_staged_bytes ns = staged_loop 0 0 ns"

section \<open>Fields\<close>

definition is_device_id_text :: "string \<Rightarrow> bool" where
  "is_device_id_text s \<longleftrightarrow> take 5 s = ''avd1-'' \<and> length s = 69 \<and> list_all is_hex (drop 5 s)"

definition device_id_value :: "json \<Rightarrow> string option" where
  "device_id_value v = do { s \<leftarrow> str_value v; require (is_device_id_text s); Some s }"

text \<open>\<open>str(uuid.UUID(value)) == value\<close> leaves exactly the lower-case hyphenated form.\<close>

definition uuid_value :: "json \<Rightarrow> string option" where
  "uuid_value v = do { s \<leftarrow> str_value v; require (is_uuid s); Some s }"

fun optional_uuid :: "json \<Rightarrow> string option option" where
  "optional_uuid JNull = Some None"
| "optional_uuid v = map_option Some (uuid_value v)"

definition sha256_value :: "json \<Rightarrow> string option" where
  "sha256_value v = do { s \<leftarrow> str_value v; require (match_sha256 s); Some s }"

definition MAX_VAULT_ID_LENGTH :: nat where
  "MAX_VAULT_ID_LENGTH = 96"

definition vault_id_char :: "char \<Rightarrow> bool" where
  "vault_id_char c \<longleftrightarrow> (let n = byte_val c in 65 \<le> n \<and> n \<le> 90 \<or> 97 \<le> n \<and> n \<le> 122 \<or> 48 \<le> n \<and> n \<le> 57 \<or> n = 95 \<or> n = 45)"

definition lower_char :: "char \<Rightarrow> char" where
  "lower_char c = (let n = byte_val c in if 65 \<le> n \<and> n \<le> 90 then char_of (n + 32) else c)"

definition reserved_vault_ids :: "string list" where
  "reserved_vault_ids = [''application_note'', ''draft_metadata'', ''profile_snippet'', ''saved_job'', ''saved_search'']"

text \<open>The characters allowed leave nothing to strip and neither \<open>.\<close> nor \<open>..\<close>.\<close>

definition is_vault_id :: "string \<Rightarrow> bool" where
  "is_vault_id s \<longleftrightarrow> s \<noteq> [] \<and> length s \<le> MAX_VAULT_ID_LENGTH \<and> list_all vault_id_char s
     \<and> map lower_char s \<notin> set reserved_vault_ids"

definition vault_id_value :: "json \<Rightarrow> string option" where
  "vault_id_value v = do { s \<leftarrow> str_value v; require (is_vault_id s); Some s }"

lemma trusted_fields_iff [simp]:
  "device_id_value v = Some s \<longleftrightarrow> v = JStr s \<and> is_device_id_text s"
  "uuid_value v = Some s \<longleftrightarrow> v = JStr s \<and> is_uuid s"
  "sha256_value v = Some s \<longleftrightarrow> v = JStr s \<and> match_sha256 s"
  "vault_id_value v = Some s \<longleftrightarrow> v = JStr s \<and> is_vault_id s"
  by (auto simp: device_id_value_def uuid_value_def sha256_value_def vault_id_value_def bind_eq_Some_conv)

lemma optional_uuid_iff [simp]: "optional_uuid v = Some p \<longleftrightarrow> v = json_opt p \<and> (\<forall>s \<in> set_option p. is_uuid s)"
  by (cases v rule: optional_uuid.cases; cases p) auto

lemma trusted_fields_accept [simp]:
  "is_device_id_text s \<Longrightarrow> device_id_value (JStr s) = Some s"
  "is_uuid s \<Longrightarrow> uuid_value (JStr s) = Some s"
  "match_sha256 s \<Longrightarrow> sha256_value (JStr s) = Some s"
  "is_vault_id s \<Longrightarrow> vault_id_value (JStr s) = Some s"
  "\<forall>s \<in> set_option p. is_uuid s \<Longrightarrow> optional_uuid (json_opt p) = Some p"
  by simp_all

declare optional_uuid.simps [simp del]

section \<open>Trusted peers\<close>

record trusted_peer =
  tp_device_id :: string
  tp_descriptor :: signed_descriptor
  tp_transcript :: string
  tp_linked_at :: string
  tp_role :: string
  tp_vault_id :: string
  tp_key_epoch :: int
  tp_delivery_id :: string
  tp_acknowledgement :: string

type_synonym verifier = "string \<Rightarrow> string \<Rightarrow> string \<Rightarrow> bool"

definition new_peer :: "verifier \<Rightarrow> trusted_peer \<Rightarrow> trusted_peer option" where
  "new_peer verify p = do {
     require (is_device_id_text (tp_device_id p));
     d \<leftarrow> verify_signed_descriptor verify (tp_descriptor p);
     require (dd_device_id d = tp_device_id p);
     require (match_sha256 (tp_transcript p));
     require (is_timestamp (tp_linked_at p));
     require (tp_role p = ''inviter'' \<or> tp_role p = ''invitee'');
     require (is_vault_id (tp_vault_id p));
     require (\<not> (tp_key_epoch p \<le> 0 \<or> tp_key_epoch p > 2 ^ 63 - 1));
     require (is_uuid (tp_delivery_id p));
     require (match_sha256 (tp_acknowledgement p));
     Some p }"

definition peer_keys :: "string list" where
  "peer_keys = [''peer_device_id'', ''peer_descriptor'', ''pairing_transcript_sha256'', ''linked_at'', ''role'',
     ''vault_id'', ''key_epoch'', ''delivery_id'', ''acknowledgement_sha256'']"

definition peer_from_dict :: "verifier \<Rightarrow> json \<Rightarrow> trusted_peer option" where
  "peer_from_dict verify v = do {
     obj \<leftarrow> mapping v;
     exact obj peer_keys;
     device_id \<leftarrow> map_of obj ''peer_device_id'' \<bind> device_id_value;
     sd \<leftarrow> map_of obj ''peer_descriptor'' \<bind> signed_from_dict;
     transcript \<leftarrow> map_of obj ''pairing_transcript_sha256'' \<bind> sha256_value;
     linked \<leftarrow> map_of obj ''linked_at'' \<bind> timestamp_value;
     role \<leftarrow> map_of obj ''role'' \<bind> str_value;
     require (role \<noteq> []);
     vault \<leftarrow> map_of obj ''vault_id'' \<bind> vault_id_value;
     epoch_v \<leftarrow> map_of obj ''key_epoch'' \<bind> int_value;
     delivery \<leftarrow> map_of obj ''delivery_id'' \<bind> uuid_value;
     ack \<leftarrow> map_of obj ''acknowledgement_sha256'' \<bind> sha256_value;
     new_peer verify \<lparr>tp_device_id = device_id, tp_descriptor = sd, tp_transcript = transcript, tp_linked_at = linked,
       tp_role = role, tp_vault_id = vault, tp_key_epoch = epoch_v, tp_delivery_id = delivery,
       tp_acknowledgement = ack\<rparr> }"

definition peer_to_dict :: "trusted_peer \<Rightarrow> json" where
  "peer_to_dict p = JObj
     [(''peer_device_id'', JStr (tp_device_id p)), (''peer_descriptor'', signed_to_dict (tp_descriptor p)),
      (''pairing_transcript_sha256'', JStr (tp_transcript p)), (''linked_at'', JStr (tp_linked_at p)),
      (''role'', JStr (tp_role p)), (''vault_id'', JStr (tp_vault_id p)), (''key_epoch'', JInt (tp_key_epoch p)),
      (''delivery_id'', JStr (tp_delivery_id p)), (''acknowledgement_sha256'', JStr (tp_acknowledgement p))]"

definition valid_peer :: "verifier \<Rightarrow> trusted_peer \<Rightarrow> bool" where
  "valid_peer verify p \<longleftrightarrow> is_device_id_text (tp_device_id p) \<and> valid_signed (tp_descriptor p)
     \<and> verify_signed_descriptor verify (tp_descriptor p) = Some (sd_descriptor (tp_descriptor p))
     \<and> dd_device_id (sd_descriptor (tp_descriptor p)) = tp_device_id p \<and> match_sha256 (tp_transcript p)
     \<and> is_timestamp (tp_linked_at p) \<and> (tp_role p = ''inviter'' \<or> tp_role p = ''invitee'')
     \<and> is_vault_id (tp_vault_id p) \<and> is_counter (tp_key_epoch p) \<and> is_uuid (tp_delivery_id p)
     \<and> match_sha256 (tp_acknowledgement p)"

lemma new_peer_iff: "valid_signed (tp_descriptor p) \<Longrightarrow> new_peer verify p = Some q \<longleftrightarrow> q = p \<and> valid_peer verify p"
  by (auto simp: new_peer_def valid_peer_def bind_eq_Some_conv verify_signed_iff is_counter_def MAXIMUM_INTEGER_def)

lemma new_peer_valid: "valid_peer verify p \<Longrightarrow> new_peer verify p = Some p"
  using new_peer_iff [of p verify p] by (simp add: valid_peer_def)

lemma peer_read: "valid_peer verify p \<Longrightarrow> peer_from_dict verify (peer_to_dict p) = Some p"
    "valid_peer verify p \<Longrightarrow> peer_from_dict verify (normal (peer_to_dict p)) = Some p"
proof -
  assume p: "valid_peer verify p"
  then have f: "valid_signed (tp_descriptor p)" "is_device_id_text (tp_device_id p)" "match_sha256 (tp_transcript p)"
    "is_timestamp (tp_linked_at p)" "is_vault_id (tp_vault_id p)" "is_uuid (tp_delivery_id p)"
    "match_sha256 (tp_acknowledgement p)" "tp_role p \<noteq> []"
    by (auto simp: valid_peer_def)
  note rd = f signed_read [OF f(1)] new_peer_valid [OF p]
  show "peer_from_dict verify (peer_to_dict p) = Some p"
    by (cases p) (use rd in \<open>simp add: peer_from_dict_def peer_to_dict_def peer_keys_def exact_def\<close>)
  show "peer_from_dict verify (normal (peer_to_dict p)) = Some p"
    by (cases p) (use rd in \<open>simp add: peer_from_dict_def peer_to_dict_def peer_keys_def exact_def\<close>)
qed

lemma peer_from_valid:
  assumes "peer_from_dict verify j = Some p"
  shows "valid_peer verify p" "plain j \<Longrightarrow> dumps j = dumps (peer_to_dict p)"
proof -
  obtain es where j: "j = JObj es" using assms by (auto simp: peer_from_dict_def bind_eq_Some_conv)
  show "valid_peer verify p" using assms
    by (auto simp: peer_from_dict_def bind_eq_Some_conv new_peer_iff signed_from_valid)
  assume pl: "plain j"
  then have inner: "dumps w = dumps (signed_to_dict d)" if "map_of es ''peer_descriptor'' = Some w" "signed_from_dict w = Some d" for w d
    using that map_of_SomeD [OF that(1)] by (intro signed_from_valid(2)) (auto simp: j list_all_iff)
  show "dumps j = dumps (peer_to_dict p)"
    using assms pl inner unfolding j peer_to_dict_def
    by (intro dumps_obj_fields) (auto simp: peer_from_dict_def peer_keys_def bind_eq_Some_conv new_peer_iff signed_from_valid)
qed

lemma peer_plain: "plain (peer_to_dict p)"
  using signed_plain by (simp add: peer_to_dict_def)

interpretation peers: faithful_document "valid_peer verify" peer_to_dict "peer_from_dict verify" for verify
  by unfold_locales (rule peer_read peer_from_valid peer_plain; assumption)+

section \<open>The registry\<close>

definition TRUSTED_DEVICE_REGISTRY_FORMAT :: string where
  "TRUSTED_DEVICE_REGISTRY_FORMAT = ''atlasvault-trusted-device-registry''"

definition PAIRING_REPLAY_STORE_FORMAT :: string where
  "PAIRING_REPLAY_STORE_FORMAT = ''atlasvault-pairing-replay''"

definition MAXIMUM_TRUSTED_PEERS :: nat where
  "MAXIMUM_TRUSTED_PEERS = 64"

definition MAXIMUM_REPLAY_ENTRIES :: nat where
  "MAXIMUM_REPLAY_ENTRIES = 2048"

text \<open>What the registry and the replay store have in common.\<close>

record protected_state =
  st_device_id :: string
  st_revision :: string
  st_parent :: "string option"
  st_created_at :: string
  st_updated_at :: string

definition new_protected :: "'a protected_state_scheme \<Rightarrow> unit option" where
  "new_protected h = do {
     require (is_device_id_text (st_device_id h));
     require (is_uuid (st_revision h));
     require (\<forall>p \<in> set_option (st_parent h). is_uuid p);
     created \<leftarrow> datetime_of (st_created_at h);
     updated \<leftarrow> datetime_of (st_updated_at h);
     require (\<not> updated < created) }"

definition valid_protected :: "'a protected_state_scheme \<Rightarrow> bool" where
  "valid_protected h \<longleftrightarrow> is_device_id_text (st_device_id h) \<and> is_uuid (st_revision h)
     \<and> (\<forall>p \<in> set_option (st_parent h). is_uuid p) \<and> is_timestamp (st_created_at h) \<and> is_timestamp (st_updated_at h)
     \<and> st_created_at h \<le> st_updated_at h"

lemma new_protected_iff [simp]: "new_protected h = Some u \<longleftrightarrow> valid_protected h"
proof -
  have "new_protected h = Some u \<longleftrightarrow> is_device_id_text (st_device_id h) \<and> is_uuid (st_revision h)
     \<and> (\<forall>p \<in> set_option (st_parent h). is_uuid p) \<and> is_timestamp (st_created_at h) \<and> is_timestamp (st_updated_at h)
     \<and> \<not> instant_of (st_updated_at h) < instant_of (st_created_at h)"
    by (auto simp: new_protected_def bind_eq_Some_conv is_timestamp_def instant_of_def)
  then show ?thesis
    using timestamp_order [of "st_updated_at h" "st_created_at h"] unfolding valid_protected_def not_less [symmetric] by blast
qed

record trusted_registry = protected_state +
  tr_devices :: "trusted_peer list"

definition new_registry :: "trusted_registry \<Rightarrow> trusted_registry option" where
  "new_registry r = do {
     new_protected r;
     require (\<not> length (tr_devices r) > MAXIMUM_TRUSTED_PEERS);
     require (\<not> list_ex (\<lambda>p. tp_device_id p = st_device_id r) (tr_devices r));
     require (set_size (map tp_device_id (tr_devices r)) = length (tr_devices r));
     require (tr_devices r = sort_key tp_device_id (tr_devices r));
     Some r }"

definition registry_keys :: "string list" where
  "registry_keys = [''format'', ''version'', ''local_device_id'', ''revision'', ''parent_revision'', ''created_at'',
     ''updated_at'', ''devices'']"

definition registry_from_dict :: "verifier \<Rightarrow> json \<Rightarrow> trusted_registry option" where
  "registry_from_dict verify v = do {
     obj \<leftarrow> mapping v;
     exact obj registry_keys;
     values \<leftarrow> map_of obj ''devices'' \<bind> json_list;
     format_v \<leftarrow> map_of obj ''format'';
     version_v \<leftarrow> map_of obj ''version'' \<bind> int_value;
     device_id \<leftarrow> map_of obj ''local_device_id'' \<bind> device_id_value;
     rev_text \<leftarrow> map_of obj ''revision'' \<bind> uuid_value;
     parent \<leftarrow> map_of obj ''parent_revision'' \<bind> optional_uuid;
     created \<leftarrow> map_of obj ''created_at'' \<bind> timestamp_value;
     updated \<leftarrow> map_of obj ''updated_at'' \<bind> timestamp_value;
     devices \<leftarrow> traverse (peer_from_dict verify) values;
     require (\<not> (format_v \<noteq> JStr TRUSTED_DEVICE_REGISTRY_FORMAT \<or> version_v \<noteq> 1));
     new_registry \<lparr>st_device_id = device_id, st_revision = rev_text, st_parent = parent, st_created_at = created,
       st_updated_at = updated, tr_devices = devices\<rparr> }"

definition registry_to_dict :: "trusted_registry \<Rightarrow> json" where
  "registry_to_dict r = JObj
     [(''format'', JStr TRUSTED_DEVICE_REGISTRY_FORMAT), (''version'', JInt 1), (''local_device_id'', JStr (st_device_id r)),
      (''revision'', JStr (st_revision r)), (''parent_revision'', json_opt (st_parent r)),
      (''created_at'', JStr (st_created_at r)), (''updated_at'', JStr (st_updated_at r)),
      (''devices'', JList (map peer_to_dict (tr_devices r)))]"

definition registry_bytes :: "trusted_registry \<Rightarrow> string" where
  "registry_bytes r = canonical_json (registry_to_dict r)"

text \<open>\<open>_canonical_object\<close>.\<close>

definition canonical_object :: "string \<Rightarrow> json option" where
  "canonical_object data = do {
     require (data \<noteq> []);
     j \<leftarrow> loads data;
     _ \<leftarrow> mapping j;
     require (canonical_json j = data);
     Some j }"

definition registry_from_bytes :: "verifier \<Rightarrow> string \<Rightarrow> trusted_registry option" where
  "registry_from_bytes verify data = do {
     require_protected_bytes Trusted_device_registry (length data);
     j \<leftarrow> canonical_object data;
     registry_from_dict verify j }"

datatype commit_outcome = Committed | Already_trusted

definition commit_trusted_device ::
  "trusted_registry \<Rightarrow> trusted_peer \<Rightarrow> string \<Rightarrow> string \<Rightarrow> (trusted_registry \<times> commit_outcome) option" where
  "commit_trusted_device r p rev_text updated =
     (case find (\<lambda>q. tp_device_id q = tp_device_id p) (tr_devices r) of
        Some existing \<Rightarrow> if existing = p then Some (r, Already_trusted) else None
      | None \<Rightarrow> do {
          require (\<not> length (tr_devices r) \<ge> MAXIMUM_TRUSTED_PEERS);
          require (is_uuid rev_text);
          require (\<not> (rev_text = st_revision r \<or> Some rev_text = st_parent r));
          later \<leftarrow> datetime_of updated;
          earlier \<leftarrow> datetime_of (st_updated_at r);
          require (\<not> later < earlier);
          r' \<leftarrow> new_registry \<lparr>st_device_id = st_device_id r, st_revision = rev_text, st_parent = Some (st_revision r),
            st_created_at = st_created_at r, st_updated_at = updated,
            tr_devices = sort_key tp_device_id (tr_devices r @ [p])\<rparr>;
          Some (r', Committed) })"

section \<open>The replay store\<close>

record replay_entry =
  re_kind :: string
  re_object :: string
  re_transcript :: string
  re_consumed_at :: string
  re_expires_at :: string

definition new_entry :: "replay_entry \<Rightarrow> replay_entry option" where
  "new_entry e = do {
     require (re_kind e = ''offer'' \<or> re_kind e = ''acknowledgement'');
     require (is_uuid (re_object e));
     require (match_sha256 (re_transcript e));
     consumed \<leftarrow> datetime_of (re_consumed_at e);
     expires \<leftarrow> datetime_of (re_expires_at e);
     require (\<not> expires \<le> consumed);
     Some e }"

definition entry_keys :: "string list" where
  "entry_keys = [''kind'', ''object_id'', ''transcript_sha256'', ''consumed_at'', ''expires_at'']"

definition entry_from_dict :: "json \<Rightarrow> replay_entry option" where
  "entry_from_dict v = do {
     obj \<leftarrow> mapping v;
     exact obj entry_keys;
     kind \<leftarrow> map_of obj ''kind'' \<bind> str_value;
     require (kind \<noteq> []);
     object_text \<leftarrow> map_of obj ''object_id'' \<bind> uuid_value;
     transcript \<leftarrow> map_of obj ''transcript_sha256'' \<bind> sha256_value;
     consumed \<leftarrow> map_of obj ''consumed_at'' \<bind> timestamp_value;
     expires \<leftarrow> map_of obj ''expires_at'' \<bind> timestamp_value;
     new_entry \<lparr>re_kind = kind, re_object = object_text, re_transcript = transcript, re_consumed_at = consumed,
       re_expires_at = expires\<rparr> }"

definition entry_to_dict :: "replay_entry \<Rightarrow> json" where
  "entry_to_dict e = JObj
     [(''kind'', JStr (re_kind e)), (''object_id'', JStr (re_object e)), (''transcript_sha256'', JStr (re_transcript e)),
      (''consumed_at'', JStr (re_consumed_at e)), (''expires_at'', JStr (re_expires_at e))]"

text \<open>Tuples of strings compare like lists of their components.\<close>

definition replay_order :: "replay_entry \<Rightarrow> string list" where
  "replay_order e = [re_expires_at e, re_kind e, re_object e]"

record replay_store = protected_state +
  rs_entries :: "replay_entry list"

definition new_replay_store :: "replay_store \<Rightarrow> replay_store option" where
  "new_replay_store s = do {
     new_protected s;
     require (\<not> length (rs_entries s) > MAXIMUM_REPLAY_ENTRIES);
     require (\<not> (set_size (map (\<lambda>e. (re_kind e, re_object e)) (rs_entries s)) \<noteq> length (rs_entries s)
       \<or> rs_entries s \<noteq> sort_key replay_order (rs_entries s)));
     Some s }"

definition replay_keys :: "string list" where
  "replay_keys = [''format'', ''version'', ''local_device_id'', ''revision'', ''parent_revision'', ''created_at'',
     ''updated_at'', ''entries'']"

definition replay_store_from_dict :: "json \<Rightarrow> replay_store option" where
  "replay_store_from_dict v = do {
     obj \<leftarrow> mapping v;
     exact obj replay_keys;
     values \<leftarrow> map_of obj ''entries'' \<bind> json_list;
     format_v \<leftarrow> map_of obj ''format'';
     version_v \<leftarrow> map_of obj ''version'' \<bind> int_value;
     device_id \<leftarrow> map_of obj ''local_device_id'' \<bind> device_id_value;
     rev_text \<leftarrow> map_of obj ''revision'' \<bind> uuid_value;
     parent \<leftarrow> map_of obj ''parent_revision'' \<bind> optional_uuid;
     created \<leftarrow> map_of obj ''created_at'' \<bind> timestamp_value;
     updated \<leftarrow> map_of obj ''updated_at'' \<bind> timestamp_value;
     entries \<leftarrow> traverse entry_from_dict values;
     require (\<not> (format_v \<noteq> JStr PAIRING_REPLAY_STORE_FORMAT \<or> version_v \<noteq> 1));
     new_replay_store \<lparr>st_device_id = device_id, st_revision = rev_text, st_parent = parent, st_created_at = created,
       st_updated_at = updated, rs_entries = entries\<rparr> }"

definition replay_store_to_dict :: "replay_store \<Rightarrow> json" where
  "replay_store_to_dict s = JObj
     [(''format'', JStr PAIRING_REPLAY_STORE_FORMAT), (''version'', JInt 1), (''local_device_id'', JStr (st_device_id s)),
      (''revision'', JStr (st_revision s)), (''parent_revision'', json_opt (st_parent s)),
      (''created_at'', JStr (st_created_at s)), (''updated_at'', JStr (st_updated_at s)),
      (''entries'', JList (map entry_to_dict (rs_entries s)))]"

definition replay_store_bytes :: "replay_store \<Rightarrow> string" where
  "replay_store_bytes s = canonical_json (replay_store_to_dict s)"

definition replay_store_from_bytes :: "string \<Rightarrow> replay_store option" where
  "replay_store_from_bytes data = do {
     require_protected_bytes Pairing_replay_state (length data);
     j \<leftarrow> canonical_object data;
     replay_store_from_dict j }"

datatype consume_outcome = Consumed | Already_consumed

definition consume_pairing_replay ::
  "replay_store \<Rightarrow> replay_entry \<Rightarrow> string \<Rightarrow> string \<Rightarrow> string \<Rightarrow> (replay_store \<times> consume_outcome) option" where
  "consume_pairing_replay s e rev_text updated current =
     (case find (\<lambda>x. re_kind x = re_kind e \<and> re_object x = re_object e) (rs_entries s) of
        Some existing \<Rightarrow> if re_transcript existing = re_transcript e then Some (s, Already_consumed) else None
      | None \<Rightarrow> do {
          now \<leftarrow> datetime_of current;
          expires \<leftarrow> datetime_of (re_expires_at e);
          require (\<not> expires \<le> now);
          let retained = filter (\<lambda>x. now < instant_of (re_expires_at x)) (rs_entries s);
          require (\<not> length retained \<ge> MAXIMUM_REPLAY_ENTRIES);
          let values = sort_key replay_order (retained @ [e]);
          require (is_uuid rev_text);
          require (\<not> (rev_text = st_revision s \<or> Some rev_text = st_parent s));
          later \<leftarrow> datetime_of updated;
          earlier \<leftarrow> datetime_of (st_updated_at s);
          require (\<not> later < earlier);
          s' \<leftarrow> new_replay_store \<lparr>st_device_id = st_device_id s, st_revision = rev_text, st_parent = Some (st_revision s),
            st_created_at = st_created_at s, st_updated_at = updated, rs_entries = values\<rparr>;
          Some (s', Consumed) })"

end
