(* ===== verification/PairingState.thy ===== *)
theory PairingState
  imports TrustedDevices
begin

text \<open>
  The codecs of the trusted-device registry and of the replay store: what \<open>from_canonical_bytes\<close>
  accepts are exactly the canonical bytes of valid states, all of which are within the size limit.
\<close>

section \<open>Valid states\<close>

definition valid_registry :: "verifier \<Rightarrow> trusted_registry \<Rightarrow> bool" where
  "valid_registry verify r \<longleftrightarrow> valid_protected r \<and> list_all (valid_peer verify) (tr_devices r)
     \<and> length (tr_devices r) \<le> MAXIMUM_TRUSTED_PEERS \<and> st_device_id r \<notin> tp_device_id ` set (tr_devices r)
     \<and> distinct (map tp_device_id (tr_devices r)) \<and> sorted (map tp_device_id (tr_devices r))"

lemma new_registry_iff:
  "list_all (valid_peer verify) (tr_devices r) \<Longrightarrow> new_registry r = Some r' \<longleftrightarrow> r' = r \<and> valid_registry verify r"
  by (auto simp: new_registry_def valid_registry_def bind_eq_Some_conv list_ex_iff sort_key_id_iff image_iff)

definition entry_key :: "replay_entry \<Rightarrow> string \<times> string" where
  "entry_key e = (re_kind e, re_object e)"

definition valid_entry :: "replay_entry \<Rightarrow> bool" where
  "valid_entry e \<longleftrightarrow> (re_kind e = ''offer'' \<or> re_kind e = ''acknowledgement'') \<and> is_uuid (re_object e)
     \<and> match_sha256 (re_transcript e) \<and> is_timestamp (re_consumed_at e) \<and> is_timestamp (re_expires_at e)
     \<and> re_consumed_at e < re_expires_at e"

lemma new_entry_iff [simp]: "new_entry e = Some e' \<longleftrightarrow> e' = e \<and> valid_entry e"
proof -
  have "new_entry e = Some e' \<longleftrightarrow> e' = e \<and> (re_kind e = ''offer'' \<or> re_kind e = ''acknowledgement'') \<and> is_uuid (re_object e)
     \<and> match_sha256 (re_transcript e) \<and> is_timestamp (re_consumed_at e) \<and> is_timestamp (re_expires_at e)
     \<and> \<not> instant_of (re_expires_at e) \<le> instant_of (re_consumed_at e)"
    by (auto simp: new_entry_def bind_eq_Some_conv is_timestamp_def instant_of_def)
  then show ?thesis
    using timestamp_order [of "re_consumed_at e" "re_expires_at e"] unfolding valid_entry_def not_le by blast
qed

definition valid_replay_store :: "replay_store \<Rightarrow> bool" where
  "valid_replay_store s \<longleftrightarrow> valid_protected s \<and> list_all valid_entry (rs_entries s)
     \<and> length (rs_entries s) \<le> MAXIMUM_REPLAY_ENTRIES \<and> distinct (map entry_key (rs_entries s))
     \<and> sorted (map replay_order (rs_entries s))"

lemma new_replay_store_iff:
  "list_all valid_entry (rs_entries s) \<Longrightarrow> new_replay_store s = Some s' \<longleftrightarrow> s' = s \<and> valid_replay_store s"
  by (auto simp: new_replay_store_def valid_replay_store_def bind_eq_Some_conv sort_key_id_iff entry_key_def [abs_def])

section \<open>Codecs\<close>

lemma plain_json_opt: "plain (json_opt p)" "normal (json_opt p) = json_opt p"
  by (cases p; simp)+

lemma valid_protected_fields:
  "valid_protected h \<Longrightarrow> is_device_id_text (st_device_id h) \<and> is_uuid (st_revision h)
     \<and> (\<forall>p \<in> set_option (st_parent h). is_uuid p) \<and> is_timestamp (st_created_at h) \<and> is_timestamp (st_updated_at h)"
  by (simp add: valid_protected_def)

lemma dumps_list_all2: "list_all2 (\<lambda>j k. dumps j = dumps k) js ks \<Longrightarrow> dumps (JList js) = dumps (JList ks)"
  by (simp add: list_all2_conv_all_nth) (metis nth_equalityI length_map nth_map)

text \<open>A list of values that a faithful reader reads back.\<close>

context faithful_document
begin

lemma list_read:
  assumes "list_all valid xs"
  shows "traverse dec (map enc xs) = Some xs" "traverse dec (map (normal \<circ> enc) xs) = Some xs"
  using assms traverse_map_Some [of xs dec enc id] traverse_map_Some [of xs dec "normal \<circ> enc" id]
  by (simp_all add: list_all_iff dec_enc dec_normal)

lemma list_valid: "traverse dec js = Some xs \<Longrightarrow> list_all valid xs"
  using list_dec_valid by (simp add: list_all_iff)

lemma list_dumps:
  assumes "plain (JList js)" "traverse dec js = Some xs"
  shows "dumps (JList js) = dumps (JList (map enc xs))"
proof (rule dumps_list_all2)
  show "list_all2 (\<lambda>j k. dumps j = dumps k) js (map enc xs)"
    using traverse_SomeD [OF assms(2)] assms(1) dec_dumps by (auto simp: list_all2_conv_all_nth list_all_length)
qed

end

lemma registry_read: "valid_registry verify r \<Longrightarrow> registry_from_dict verify (registry_to_dict r) = Some r"
    "valid_registry verify r \<Longrightarrow> registry_from_dict verify (normal (registry_to_dict r)) = Some r"
proof -
  assume r: "valid_registry verify r"
  then have ps: "list_all (valid_peer verify) (tr_devices r)" and "valid_protected r" by (simp_all add: valid_registry_def)
  then have f: "is_device_id_text (st_device_id r)" "is_uuid (st_revision r)" "\<forall>p \<in> set_option (st_parent r). is_uuid p"
    "is_timestamp (st_created_at r)" "is_timestamp (st_updated_at r)"
    using valid_protected_fields [of r] by blast+
  have new: "new_registry r = Some r" using r new_registry_iff [OF ps] by simp
  note rd = f peers.list_read [OF ps] new plain_json_opt
  show "registry_from_dict verify (registry_to_dict r) = Some r"
    by (cases r) (use rd in \<open>simp add: registry_from_dict_def registry_to_dict_def registry_keys_def exact_def\<close>)
  show "registry_from_dict verify (normal (registry_to_dict r)) = Some r"
    by (cases r) (use rd in \<open>simp add: registry_from_dict_def registry_to_dict_def registry_keys_def exact_def\<close>)
qed

lemma registry_from_valid:
  assumes "registry_from_dict verify j = Some r"
  shows "valid_registry verify r" "plain j \<Longrightarrow> dumps j = dumps (registry_to_dict r)"
proof -
  obtain es where j: "j = JObj es" using assms by (auto simp: registry_from_dict_def bind_eq_Some_conv)
  show "valid_registry verify r" using assms
    by (auto simp: registry_from_dict_def bind_eq_Some_conv new_registry_iff [OF peers.list_valid])
  assume pl: "plain j"
  have inner: "dumps (JList vs) = dumps (JList (map peer_to_dict ps))"
    if "map_of es ''devices'' = Some (JList vs)" "traverse (peer_from_dict verify) vs = Some ps" for vs ps
    by (rule peers.list_dumps [OF _ that(2)]) (use pl map_of_SomeD [OF that(1)] in \<open>fastforce simp: j list_all_iff\<close>)
  show "dumps j = dumps (registry_to_dict r)"
    using assms pl inner unfolding j registry_to_dict_def
    by (intro dumps_obj_fields)
      (auto simp: registry_from_dict_def registry_keys_def bind_eq_Some_conv new_registry_iff [OF peers.list_valid] simp del: dumps.simps(6))
qed

lemma registry_plain: "plain (registry_to_dict r)"
  using peer_plain plain_json_opt by (simp add: registry_to_dict_def list_all_iff)

interpretation registries: faithful_document "valid_registry verify" registry_to_dict "registry_from_dict verify" for verify
  by unfold_locales (rule registry_read registry_from_valid registry_plain; assumption)+

lemma entry_read: "valid_entry e \<Longrightarrow> entry_from_dict (entry_to_dict e) = Some e"
    "valid_entry e \<Longrightarrow> entry_from_dict (normal (entry_to_dict e)) = Some e"
proof -
  assume e: "valid_entry e"
  then have f: "re_kind e \<noteq> []" "is_uuid (re_object e)" "match_sha256 (re_transcript e)" "is_timestamp (re_consumed_at e)"
    "is_timestamp (re_expires_at e)" "new_entry e = Some e"
    using new_entry_iff [of e e] by (auto simp: valid_entry_def)
  show "entry_from_dict (entry_to_dict e) = Some e"
    by (cases e) (use f in \<open>simp add: entry_from_dict_def entry_to_dict_def entry_keys_def exact_def del: new_entry_iff\<close>)
  show "entry_from_dict (normal (entry_to_dict e)) = Some e"
    by (cases e) (use f in \<open>simp add: entry_from_dict_def entry_to_dict_def entry_keys_def exact_def del: new_entry_iff\<close>)
qed

lemma entry_from_valid:
  assumes "entry_from_dict j = Some e"
  shows "valid_entry e" "plain j \<Longrightarrow> dumps j = dumps (entry_to_dict e)"
proof -
  obtain es where j: "j = JObj es" using assms by (auto simp: entry_from_dict_def bind_eq_Some_conv)
  show "valid_entry e" using assms by (auto simp: entry_from_dict_def bind_eq_Some_conv)
  assume pl: "plain j"
  show "dumps j = dumps (entry_to_dict e)"
    using assms pl unfolding j entry_to_dict_def
    by (intro dumps_obj_fields) (auto simp: entry_from_dict_def entry_keys_def bind_eq_Some_conv)
qed

lemma entry_plain: "plain (entry_to_dict e)"
  by (simp add: entry_to_dict_def)

interpretation entries: faithful_document valid_entry entry_to_dict entry_from_dict
  by unfold_locales (rule entry_read entry_from_valid entry_plain; assumption)+

lemma replay_store_read: "valid_replay_store s \<Longrightarrow> replay_store_from_dict (replay_store_to_dict s) = Some s"
    "valid_replay_store s \<Longrightarrow> replay_store_from_dict (normal (replay_store_to_dict s)) = Some s"
proof -
  assume s: "valid_replay_store s"
  then have es: "list_all valid_entry (rs_entries s)" and "valid_protected s" by (simp_all add: valid_replay_store_def)
  then have f: "is_device_id_text (st_device_id s)" "is_uuid (st_revision s)" "\<forall>p \<in> set_option (st_parent s). is_uuid p"
    "is_timestamp (st_created_at s)" "is_timestamp (st_updated_at s)"
    using valid_protected_fields [of s] by blast+
  have new: "new_replay_store s = Some s" using s new_replay_store_iff [OF es] by simp
  note rd = f entries.list_read [OF es] new plain_json_opt
  show "replay_store_from_dict (replay_store_to_dict s) = Some s"
    by (cases s) (use rd in \<open>simp add: replay_store_from_dict_def replay_store_to_dict_def replay_keys_def exact_def\<close>)
  show "replay_store_from_dict (normal (replay_store_to_dict s)) = Some s"
    by (cases s) (use rd in \<open>simp add: replay_store_from_dict_def replay_store_to_dict_def replay_keys_def exact_def\<close>)
qed

lemma replay_store_from_valid:
  assumes "replay_store_from_dict j = Some s"
  shows "valid_replay_store s" "plain j \<Longrightarrow> dumps j = dumps (replay_store_to_dict s)"
proof -
  obtain es where j: "j = JObj es" using assms by (auto simp: replay_store_from_dict_def bind_eq_Some_conv)
  show "valid_replay_store s" using assms
    by (auto simp: replay_store_from_dict_def bind_eq_Some_conv new_replay_store_iff [OF entries.list_valid])
  assume pl: "plain j"
  have inner: "dumps (JList vs) = dumps (JList (map entry_to_dict xs))"
    if "map_of es ''entries'' = Some (JList vs)" "traverse entry_from_dict vs = Some xs" for vs xs
    by (rule entries.list_dumps [OF _ that(2)]) (use pl map_of_SomeD [OF that(1)] in \<open>fastforce simp: j list_all_iff\<close>)
  show "dumps j = dumps (replay_store_to_dict s)"
    using assms pl inner unfolding j replay_store_to_dict_def
    by (intro dumps_obj_fields)
      (auto simp: replay_store_from_dict_def replay_keys_def bind_eq_Some_conv new_replay_store_iff [OF entries.list_valid]
        simp del: dumps.simps(6))
qed

lemma replay_store_plain: "plain (replay_store_to_dict s)"
  using entry_plain plain_json_opt by (simp add: replay_store_to_dict_def list_all_iff)

interpretation replay_stores: faithful_document valid_replay_store replay_store_to_dict replay_store_from_dict
  by unfold_locales (rule replay_store_read replay_store_from_valid replay_store_plain; assumption)+

section \<open>Sizes\<close>

lemma key_epoch_counter: "is_key_epoch e \<longleftrightarrow> is_counter e"
  by (auto simp: is_key_epoch_def is_counter_def MAXIMUM_DEVICE_KEY_EPOCH_def MAXIMUM_INTEGER_def)

lemma descriptor_weight:
  assumes "valid_descriptor d" "is_device_id_text (dd_device_id d)"
  shows "json_weight (descriptor_to_dict d) \<le> 2100"
proof -
  have "length (int_str (dd_key_epoch d)) \<le> 19"
    using assms(1) length_int_str by (simp add: valid_descriptor_def key_epoch_counter)
  moreover have "length (dd_device_id d) = 69" "length (dd_created_at d) = 20"
    using assms is_timestamp_length by (simp_all add: is_device_id_text_def valid_descriptor_def)
  moreover have "length (b64encode (dd_signing_key d)) = 44" "length (b64encode (dd_agreement_key d)) = 44"
    using assms(1) by (simp_all add: valid_descriptor_def length_b64encode DEVICE_KEY_BYTES_def)
  moreover have "length (int_str 1) \<le> 19" using length_int_str [of 1] by (simp add: is_counter_def MAXIMUM_INTEGER_def)
  ultimately show ?thesis by (simp add: descriptor_to_dict_def DEVICE_DESCRIPTOR_FORMAT_def)
qed

lemma peer_weight:
  assumes "valid_peer verify p"
  shows "json_weight (peer_to_dict p) \<le> 10000"
proof -
  let ?sd = "tp_descriptor p"
  have "json_weight (descriptor_to_dict (sd_descriptor ?sd)) \<le> 2100"
    using assms by (intro descriptor_weight) (simp_all add: valid_peer_def valid_signed_def)
  moreover have "length (b64encode (sd_signature ?sd)) = 88"
    using assms by (simp add: valid_peer_def valid_signed_def length_b64encode DEVICE_SIGNATURE_BYTES_def)
  moreover have "length (int_str 1) \<le> 19" using length_int_str [of 1] by (simp add: is_counter_def MAXIMUM_INTEGER_def)
  ultimately have "json_weight (signed_to_dict ?sd) \<le> 3500"
    by (simp add: signed_to_dict_def SIGNED_DEVICE_DESCRIPTOR_FORMAT_def)
  moreover have "length (int_str (tp_key_epoch p)) \<le> 19" using assms length_int_str by (simp add: valid_peer_def)
  moreover have "length (tp_device_id p) = 69" "length (tp_transcript p) = 64" "length (tp_linked_at p) = 20"
    "length (tp_role p) \<le> 8" "length (tp_vault_id p) \<le> 96" "length (tp_delivery_id p) \<le> 36" "length (tp_acknowledgement p) = 64"
    using assms is_timestamp_length [of "tp_linked_at p"]
    by (auto simp: valid_peer_def is_device_id_text_def match_sha256_def is_vault_id_def MAX_VAULT_ID_LENGTH_def is_uuid_def is_text_def)
  ultimately show ?thesis by (simp add: peer_to_dict_def)
qed

lemma protected_lengths:
  assumes "valid_protected h"
  shows "length (st_device_id h) = 69" "length (st_revision h) \<le> 36" "json_weight (json_opt (st_parent h)) \<le> 218"
    "length (st_created_at h) = 20" "length (st_updated_at h) = 20"
  using assms is_timestamp_length
  by (cases "st_parent h"; auto simp: valid_protected_def is_device_id_text_def is_uuid_def is_text_def)+

lemma sum_list_bound: "(\<And>x. x \<in> set xs \<Longrightarrow> f x \<le> k) \<Longrightarrow> sum_list (map f xs) \<le> k * length xs" for f :: "_ \<Rightarrow> nat"
  by (induction xs) (auto intro: add_mono)

lemma registry_fits:
  assumes "valid_registry verify r"
  shows "0 < length (registry_bytes r)" "length (registry_bytes r) \<le> maximum_protected_bytes Trusted_device_registry"
proof -
  have "sum_list (map (\<lambda>p. json_weight (peer_to_dict p) + 1) (tr_devices r)) \<le> 10001 * length (tr_devices r)"
    using assms peer_weight by (intro sum_list_bound) (fastforce simp: valid_registry_def list_all_iff)
  moreover have "length (tr_devices r) \<le> 64" using assms by (simp add: valid_registry_def MAXIMUM_TRUSTED_PEERS_def)
  ultimately have "json_weight (JList (map peer_to_dict (tr_devices r))) \<le> 700000"
    by (simp add: comp_def)
  moreover have "length (int_str 1) \<le> 19" using length_int_str [of 1] by (simp add: is_counter_def MAXIMUM_INTEGER_def)
  moreover note protected_lengths [of r]
  ultimately have "json_weight (registry_to_dict r) \<le> 2000000"
    using assms by (simp add: registry_to_dict_def TRUSTED_DEVICE_REGISTRY_FORMAT_def valid_registry_def)
  then show "length (registry_bytes r) \<le> maximum_protected_bytes Trusted_device_registry"
    using length_dumps [of "registry_to_dict r"] by (simp add: registry_bytes_def canonical_json_def)
  show "0 < length (registry_bytes r)" by (simp add: registry_bytes_def canonical_json_def registry_to_dict_def)
qed

lemma hex_printable: "is_hex c \<Longrightarrow> printable c"
  by (auto simp: is_hex_def printable_def Let_def)

lemma sha_quoted: "match_sha256 s \<Longrightarrow> length (quote s) = 66"
  using hex_printable by (subst length_quote_printable) (auto simp: match_sha256_def list_all_iff)

lemma groups_printable: "match_groups ns s \<Longrightarrow> list_all printable s"
proof (induction ns s rule: match_groups.induct)
  case (3 n m ns s)
  have s: "s = take n s @ CHR ''-'' # drop (Suc n) s"
    using 3(2) by (metis id_take_nth_drop match_groups.simps(3))
  have "list_all printable (take n s)" "list_all printable (drop (Suc n) s)"
    using 3 hex_printable by (auto simp: list_all_iff)
  moreover have "printable (CHR ''-'')" by (simp add: printable_def byte_val_def)
  ultimately show ?case by (subst s) (simp del: append_take_drop_id)
qed (use hex_printable in \<open>auto simp: list_all_iff\<close>)

lemma uuid_quoted: "is_uuid s \<Longrightarrow> length (quote s) \<le> 38"
  using groups_printable by (subst length_quote_printable) (auto simp: is_uuid_def match_uuid_def is_text_def)

end
