(* ===== verification/PairingSizes.thy ===== *)
theory PairingSizes
  imports PairingState
begin

text \<open>
  Every valid registry and replay store is within the size limit of its protected file, so the
  bytes that are accepted are exactly the canonical bytes of valid states.
\<close>

lemma digit_printable: "n < 10 \<Longrightarrow> printable (char_of (48 + n))" for n :: nat
  by (simp add: printable_def byte_val_digit)

lemma pad2_printable: "n < 100 \<Longrightarrow> list_all printable (pad2 n)"
  using digit_printable [of "n div 10"] digit_printable [of "n mod 10"] by (simp add: pad2_def)

lemma timestamp_quoted: "is_timestamp s \<Longrightarrow> length (quote s) = 22"
proof -
  assume s: "is_timestamp s"
  have "list_all printable s"
  proof (rule datetime_ofE [OF datetime_of_timestamp [OF s]])
    fix y m d h mi sec :: nat
    assume "s = timestamp_text y m d h mi sec" "y < 10000" "m < 100" "d < 100" "h < 100" "mi < 100" "sec < 100"
    moreover have "printable (CHR ''-'')" "printable (CHR ''T'')" "printable (CHR '':'')" "printable (CHR ''Z'')"
      by (simp_all add: printable_def byte_val_def)
    ultimately show ?thesis by (simp add: timestamp_text_def pad4_def pad2_printable)
  qed
  then show ?thesis using is_timestamp_length [OF s] by (simp add: length_quote_printable)
qed

lemma entry_size: "valid_entry e \<Longrightarrow> json_size (entry_to_dict e) \<le> 900"
proof -
  assume e: "valid_entry e"
  have "length (quote (re_kind e)) \<le> 92" using e length_quote [of "re_kind e"] by (auto simp: valid_entry_def)
  moreover have "length (quote (re_object e)) \<le> 38" "length (quote (re_transcript e)) = 66"
    "length (quote (re_consumed_at e)) = 22" "length (quote (re_expires_at e)) = 22"
    using e by (simp_all add: valid_entry_def uuid_quoted sha_quoted timestamp_quoted)
  moreover note length_quote [of "''kind''"] length_quote [of "''object_id''"] length_quote [of "''transcript_sha256''"]
    length_quote [of "''consumed_at''"] length_quote [of "''expires_at''"]
  ultimately show ?thesis by (simp add: entry_to_dict_def)
qed

lemma replay_store_fits:
  assumes "valid_replay_store s"
  shows "0 < length (replay_store_bytes s)" "length (replay_store_bytes s) \<le> maximum_protected_bytes Pairing_replay_state"
proof -
  have "sum_list (map (\<lambda>e. json_size (entry_to_dict e) + 1) (rs_entries s)) \<le> 901 * length (rs_entries s)"
    using assms entry_size by (intro sum_list_bound) (fastforce simp: valid_replay_store_def list_all_iff)
  moreover have "length (rs_entries s) \<le> 2048" using assms by (simp add: valid_replay_store_def MAXIMUM_REPLAY_ENTRIES_def)
  ultimately have es: "json_size (JList (map entry_to_dict (rs_entries s))) \<le> 1900000"
    by (simp add: comp_def)
  have one: "length (int_str 1) \<le> 19" using length_int_str [of 1] by (simp add: is_counter_def MAXIMUM_INTEGER_def)
  have h: "length (quote (st_device_id s)) \<le> 416" "length (quote (st_revision s)) \<le> 218"
    "json_size (json_opt (st_parent s)) \<le> 218" "length (quote (st_created_at s)) \<le> 122" "length (quote (st_updated_at s)) \<le> 122"
    using protected_lengths [of s] assms length_quote [of "st_device_id s"] length_quote [of "st_revision s"]
      length_quote [of "st_created_at s"] length_quote [of "st_updated_at s"] size_weight [of "json_opt (st_parent s)"]
    by (simp_all add: valid_replay_store_def)
  note keys = length_quote [of "''format''"] length_quote [of "''version''"] length_quote [of "''local_device_id''"]
    length_quote [of "''revision''"] length_quote [of "''parent_revision''"] length_quote [of "''created_at''"]
    length_quote [of "''updated_at''"] length_quote [of "''entries''"] length_quote [of PAIRING_REPLAY_STORE_FORMAT]
  have "json_size (replay_store_to_dict s) \<le> 1999999"
    using es one h keys by (simp add: replay_store_to_dict_def PAIRING_REPLAY_STORE_FORMAT_def)
  then show "length (replay_store_bytes s) \<le> maximum_protected_bytes Pairing_replay_state"
    using dumps_size [of "replay_store_to_dict s"] by (simp add: replay_store_bytes_def canonical_json_def)
  show "0 < length (replay_store_bytes s)" by (simp add: replay_store_bytes_def canonical_json_def replay_store_to_dict_def)
qed

section \<open>Bytes\<close>

lemma canonical_object_iff:
  assumes "data \<noteq> []"
  shows "canonical_object data = Some j \<longleftrightarrow> loads data = Some j \<and> (\<exists>es. j = JObj es) \<and> canonical_json j = data"
  using assms by (auto simp: canonical_object_def bind_eq_Some_conv)

lemma registry_from_bytes_iff:
  "registry_from_bytes verify data = Some r \<longleftrightarrow> valid_registry verify r \<and> data = registry_bytes r"
proof -
  have obj: "registry_from_dict verify j = Some r \<Longrightarrow> \<exists>es. j = JObj es" for j
    by (auto simp: registry_from_dict_def bind_eq_Some_conv)
  have "registry_from_bytes verify data = Some r \<longleftrightarrow> 0 < length data \<and> length data \<le> maximum_protected_bytes Trusted_device_registry
    \<and> (do { j \<leftarrow> loads data; require (canonical_json j = data); registry_from_dict verify j }) = Some r"
    using obj by (auto simp: registry_from_bytes_def require_protected_bytes_def canonical_object_def bind_eq_Some_conv not_less
        split: if_splits)
  then show ?thesis
    unfolding registries.compared_bytes registry_bytes_def [symmetric] using registry_fits [of verify r] by blast
qed

lemma replay_store_from_bytes_iff:
  "replay_store_from_bytes data = Some s \<longleftrightarrow> valid_replay_store s \<and> data = replay_store_bytes s"
proof -
  have obj: "replay_store_from_dict j = Some s \<Longrightarrow> \<exists>es. j = JObj es" for j
    by (auto simp: replay_store_from_dict_def bind_eq_Some_conv)
  have "replay_store_from_bytes data = Some s \<longleftrightarrow> 0 < length data \<and> length data \<le> maximum_protected_bytes Pairing_replay_state
    \<and> (do { j \<leftarrow> loads data; require (canonical_json j = data); replay_store_from_dict j }) = Some s"
    using obj by (auto simp: replay_store_from_bytes_def require_protected_bytes_def canonical_object_def bind_eq_Some_conv not_less
        split: if_splits)
  then show ?thesis
    unfolding replay_stores.compared_bytes replay_store_bytes_def [symmetric] using replay_store_fits [of s] by blast
qed

end
