(* ===== verification/PairingProperties.thy ===== *)
theory PairingProperties
  imports PairingSizes
begin

text \<open>
  The properties of the trusted-device registry and the replay store: their bytes, the registry as
  a map that only grows, and the replay store over runs of attempts.
\<close>

section \<open>The registry as a map\<close>

definition trusted :: "trusted_registry \<Rightarrow> string \<Rightarrow> trusted_peer option" where
  "trusted r = map_of (map (\<lambda>p. (tp_device_id p, p)) (tr_devices r))"

lemma find_key: "find (\<lambda>q. f q = k) xs = map_of (map (\<lambda>p. (f p, p)) xs) k"
  by (induction xs) auto

lemma map_of_keyed:
  assumes "distinct (map f xs)" "distinct (map f ys)" "set ys = insert p (set xs)" "f p \<notin> f ` set xs"
  shows "map_of (map (\<lambda>x. (f x, x)) ys) = (map_of (map (\<lambda>x. (f x, x)) xs))(f p \<mapsto> p)"
proof -
  have k: "map fst (map (\<lambda>x. (f x, x)) zs) = map f zs" for zs by simp
  have "map_of (map (\<lambda>x. (f x, x)) ys) = map_of (map (\<lambda>x. (f x, x)) (p # xs))"
    using assms by (intro map_of_inject_set [THEN iffD2]) (auto simp: comp_def)
  then show ?thesis by simp
qed

definition admissible :: "trusted_registry \<Rightarrow> trusted_peer \<Rightarrow> string \<Rightarrow> string \<Rightarrow> bool" where
  "admissible r p rev_text updated \<longleftrightarrow> length (tr_devices r) < MAXIMUM_TRUSTED_PEERS \<and> tp_device_id p \<noteq> st_device_id r
     \<and> is_uuid rev_text \<and> rev_text \<noteq> st_revision r \<and> Some rev_text \<noteq> st_parent r
     \<and> is_timestamp updated \<and> instant_of (st_updated_at r) \<le> instant_of updated"

lemma valid_protected_next:
  assumes "valid_protected h" "is_uuid rev_text" "is_timestamp updated" "instant_of (st_updated_at h) \<le> instant_of updated"
    and "st_device_id h' = st_device_id h" "st_revision h' = rev_text" "st_parent h' = Some (st_revision h)"
    "st_created_at h' = st_created_at h" "st_updated_at h' = updated"
  shows "valid_protected h'"
proof -
  have "st_created_at h \<le> st_updated_at h" "st_updated_at h \<le> updated"
    using assms(1-4) timestamp_order_le [of "st_updated_at h" updated] by (simp_all add: valid_protected_def)
  then have "st_created_at h \<le> updated" by (rule order_trans)
  then show ?thesis using assms by (simp add: valid_protected_def)
qed

definition enrolled :: "trusted_registry \<Rightarrow> trusted_peer \<Rightarrow> string \<Rightarrow> string \<Rightarrow> trusted_registry" where
  "enrolled r p rev_text updated = \<lparr>st_device_id = st_device_id r, st_revision = rev_text, st_parent = Some (st_revision r),
     st_created_at = st_created_at r, st_updated_at = updated, tr_devices = sort_key tp_device_id (tr_devices r @ [p])\<rparr>"

lemma enrolled_valid:
  assumes "valid_registry verify r" "valid_peer verify p" "trusted r (tp_device_id p) = None" "admissible r p rev_text updated"
  shows "valid_registry verify (enrolled r p rev_text updated)"
    "trusted (enrolled r p rev_text updated) = (trusted r)(tp_device_id p \<mapsto> p)"
proof -
  let ?ds = "sort_key tp_device_id (tr_devices r @ [p])"
  have r: "valid_protected r" "list_all (valid_peer verify) (tr_devices r)" "distinct (map tp_device_id (tr_devices r))"
    "st_device_id r \<notin> tp_device_id ` set (tr_devices r)"
    using assms(1) by (simp_all add: valid_registry_def)
  have fresh: "tp_device_id p \<notin> tp_device_id ` set (tr_devices r)"
    using assms(3) by (simp add: trusted_def map_of_eq_None_iff image_image)
  have ds: "set ?ds = insert p (set (tr_devices r))" "length ?ds = Suc (length (tr_devices r))" "sorted (map tp_device_id ?ds)"
    using sorted_sort_key by simp_all
  have "mset (map tp_device_id ?ds) = mset (map tp_device_id (tr_devices r @ [p]))" by simp
  then have d: "distinct (map tp_device_id ?ds)"
    using fresh r(3) mset_eq_imp_distinct_iff by fastforce
  have "valid_protected (enrolled r p rev_text updated)"
    by (rule valid_protected_next [OF r(1)]) (use assms(4) in \<open>simp_all add: admissible_def enrolled_def\<close>)
  moreover have "list_all (valid_peer verify) ?ds" using r(2) assms(2) unfolding list_all_iff ds(1) by blast
  moreover have "st_device_id r \<notin> tp_device_id ` set ?ds" using r(4) assms(4) unfolding ds(1) by (auto simp: admissible_def)
  moreover have "length ?ds \<le> MAXIMUM_TRUSTED_PEERS" using assms(4) unfolding ds(2) by (simp add: admissible_def)
  ultimately show "valid_registry verify (enrolled r p rev_text updated)"
    using d ds(3) unfolding valid_registry_def enrolled_def trusted_registry.simps protected_state.simps by blast
  show "trusted (enrolled r p rev_text updated) = (trusted r)(tp_device_id p \<mapsto> p)"
    unfolding trusted_def enrolled_def trusted_registry.simps
    by (rule map_of_keyed [OF r(3) d ds(1) fresh])
qed

lemma datetime_of_if: "datetime_of s = (if is_timestamp s then Some (instant_of s) else None)"
  by (simp add: datetime_of_timestamp is_timestamp_def)

lemma commit_new:
  assumes "valid_registry verify r" "valid_peer verify p" "trusted r (tp_device_id p) = None"
  shows "commit_trusted_device r p rev_text updated =
    (if admissible r p rev_text updated then Some (enrolled r p rev_text updated, Committed) else None)"
proof -
  have "find (\<lambda>q. tp_device_id q = tp_device_id p) (tr_devices r) = None" using assms(3) by (simp add: trusted_def find_key)
  moreover have "is_timestamp (st_updated_at r)" using assms(1) by (simp add: valid_registry_def valid_protected_def)
  ultimately have body: "commit_trusted_device r p rev_text updated = do {
      require (length (tr_devices r) < MAXIMUM_TRUSTED_PEERS \<and> is_uuid rev_text \<and> rev_text \<noteq> st_revision r
        \<and> Some rev_text \<noteq> st_parent r \<and> is_timestamp updated \<and> instant_of (st_updated_at r) \<le> instant_of updated);
      r' \<leftarrow> new_registry (enrolled r p rev_text updated);
      Some (r', Committed) }"
    by (auto simp: commit_trusted_device_def datetime_of_if not_less not_le enrolled_def require_def dest: leD)
  show ?thesis
  proof (cases "admissible r p rev_text updated")
    case True
    have v: "valid_registry verify (enrolled r p rev_text updated)" by (rule enrolled_valid(1) [OF assms True])
    then have "new_registry (enrolled r p rev_text updated) = Some (enrolled r p rev_text updated)"
      using new_registry_iff [of verify "enrolled r p rev_text updated"] by (simp add: valid_registry_def)
    then show ?thesis using True by (simp add: body admissible_def)
  next
    case False
    have "new_registry (enrolled r p rev_text updated) = None" if "tp_device_id p = st_device_id r"
      using that by (simp add: new_registry_def enrolled_def list_ex_iff require_def)
    then show ?thesis using False by (auto simp: body admissible_def require_def)
  qed
qed

lemma commit_known:
  assumes "trusted r (tp_device_id p) = Some q"
  shows "commit_trusted_device r p rev_text updated = (if q = p then Some (r, Already_trusted) else None)"
  using assms by (simp add: commit_trusted_device_def trusted_def find_key)

section \<open>The replay store as a set\<close>

definition unexpired :: "replay_store \<Rightarrow> string \<Rightarrow> replay_entry list" where
  "unexpired s current = filter (\<lambda>x. instant_of current < instant_of (re_expires_at x)) (rs_entries s)"

definition acceptable :: "replay_store \<Rightarrow> replay_entry \<Rightarrow> string \<Rightarrow> string \<Rightarrow> string \<Rightarrow> bool" where
  "acceptable s e rev_text updated current \<longleftrightarrow> is_timestamp current \<and> instant_of current < instant_of (re_expires_at e)
     \<and> length (unexpired s current) < MAXIMUM_REPLAY_ENTRIES \<and> is_uuid rev_text \<and> rev_text \<noteq> st_revision s
     \<and> Some rev_text \<noteq> st_parent s \<and> is_timestamp updated \<and> instant_of (st_updated_at s) \<le> instant_of updated"

definition recorded :: "replay_store \<Rightarrow> replay_entry \<Rightarrow> string \<Rightarrow> string \<Rightarrow> string \<Rightarrow> replay_store" where
  "recorded s e rev_text updated current = \<lparr>st_device_id = st_device_id s, st_revision = rev_text,
     st_parent = Some (st_revision s), st_created_at = st_created_at s, st_updated_at = updated,
     rs_entries = sort_key replay_order (unexpired s current @ [e])\<rparr>"

lemma recorded_valid:
  assumes "valid_replay_store s" "valid_entry e" "entry_key e \<notin> entry_key ` set (rs_entries s)" "acceptable s e rev_text updated current"
  shows "valid_replay_store (recorded s e rev_text updated current)"
proof -
  let ?es = "sort_key replay_order (unexpired s current @ [e])"
  have s: "valid_protected s" "list_all valid_entry (rs_entries s)" "distinct (map entry_key (rs_entries s))"
    using assms(1) by (simp_all add: valid_replay_store_def)
  have es: "set ?es = insert e (set (unexpired s current))" "length ?es = Suc (length (unexpired s current))"
    "sorted (map replay_order ?es)" using sorted_sort_key by simp_all
  have "distinct (map entry_key (unexpired s current @ [e]))"
    using s(3) assms(3) by (auto simp: unexpired_def distinct_map_filter)
  moreover have "mset (map entry_key ?es) = mset (map entry_key (unexpired s current @ [e]))" by simp
  ultimately have d: "distinct (map entry_key ?es)" using mset_eq_imp_distinct_iff by blast
  have "valid_protected (recorded s e rev_text updated current)"
    by (rule valid_protected_next [OF s(1)]) (use assms(4) in \<open>simp_all add: acceptable_def recorded_def\<close>)
  moreover have "list_all valid_entry ?es" using s(2) assms(2) unfolding list_all_iff es(1) unexpired_def by auto
  moreover have "length ?es \<le> MAXIMUM_REPLAY_ENTRIES" using assms(4) unfolding es(2) by (simp add: acceptable_def)
  ultimately show ?thesis
    using d es(3) unfolding valid_replay_store_def recorded_def replay_store.simps protected_state.simps by blast
qed

lemma consume_new:
  assumes "valid_replay_store s" "valid_entry e" "entry_key e \<notin> entry_key ` set (rs_entries s)"
  shows "consume_pairing_replay s e rev_text updated current =
    (if acceptable s e rev_text updated current then Some (recorded s e rev_text updated current, Consumed) else None)"
proof -
  have "find (\<lambda>x. re_kind x = re_kind e \<and> re_object x = re_object e) (rs_entries s) = None"
    using assms(3) by (fastforce simp: find_None_iff entry_key_def image_iff)
  moreover have "is_timestamp (st_updated_at s)" "is_timestamp (re_expires_at e)"
    using assms(1,2) by (simp_all add: valid_replay_store_def valid_protected_def valid_entry_def)
  ultimately have body: "consume_pairing_replay s e rev_text updated current = do {
      require (acceptable s e rev_text updated current);
      s' \<leftarrow> new_replay_store (recorded s e rev_text updated current);
      Some (s', Consumed) }"
    by (auto simp: consume_pairing_replay_def datetime_of_if not_less not_le recorded_def require_def acceptable_def
        unexpired_def Let_def dest: leD)
  show ?thesis
  proof (cases "acceptable s e rev_text updated current")
    case True
    have v: "valid_replay_store (recorded s e rev_text updated current)" by (rule recorded_valid [OF assms True])
    then have "new_replay_store (recorded s e rev_text updated current) = Some (recorded s e rev_text updated current)"
      using new_replay_store_iff [of "recorded s e rev_text updated current"] by (simp add: valid_replay_store_def)
    then show ?thesis using True by (simp add: body)
  qed (simp add: body)
qed

lemma consume_known:
  assumes "valid_replay_store s" "x \<in> set (rs_entries s)" "entry_key x = entry_key e"
  shows "consume_pairing_replay s e rev_text updated current =
    (if re_transcript x = re_transcript e then Some (s, Already_consumed) else None)"
proof -
  have "find (\<lambda>y. entry_key y = entry_key e) (rs_entries s) = Some x"
    unfolding find_key using assms by (intro map_of_is_SomeI) (auto simp: valid_replay_store_def comp_def image_iff)
  then have "find (\<lambda>y. re_kind y = re_kind e \<and> re_object y = re_object e) (rs_entries s) = Some x" by (simp add: entry_key_def)
  then show ?thesis by (simp add: consume_pairing_replay_def)
qed

section \<open>The replay store over runs\<close>

type_synonym attempt = "replay_entry \<times> string \<times> string \<times> string"

text \<open>What a run consumes, with the time it was consumed; a raise leaves the store.\<close>

fun consumptions :: "replay_store \<Rightarrow> attempt list \<Rightarrow> (replay_entry \<times> string) list" where
  "consumptions s [] = []"
| "consumptions s ((e, rev_text, updated, current) # as) = (case consume_pairing_replay s e rev_text updated current of
     None \<Rightarrow> consumptions s as
   | Some (s', Already_consumed) \<Rightarrow> consumptions s' as
   | Some (s', Consumed) \<Rightarrow> (e, current) # consumptions s' as)"

fun clock :: "attempt \<Rightarrow> string" where
  "clock (e, rev_text, updated, current) = current"

fun claimed :: "attempt \<Rightarrow> replay_entry" where
  "claimed (e, rev_text, updated, current) = e"

lemma consume_replay_cases:
  assumes "consume_pairing_replay s e rev_text updated current = Some (s', out)"
  obtains (known) x where "out = Already_consumed" "s' = s" "x \<in> set (rs_entries s)" "entry_key x = entry_key e"
      "re_transcript x = re_transcript e"
  | (fresh) "out = Consumed" "entry_key e \<notin> entry_key ` set (rs_entries s)" "is_timestamp current" "is_timestamp (re_expires_at e)"
      "instant_of current < instant_of (re_expires_at e)"
      "set (rs_entries s') = insert e {x \<in> set (rs_entries s). instant_of current < instant_of (re_expires_at x)}"
proof (cases "find (\<lambda>x. re_kind x = re_kind e \<and> re_object x = re_object e) (rs_entries s)")
  case (Some x)
  then have "x \<in> set (rs_entries s)" "entry_key x = entry_key e" by (auto simp: find_Some_iff entry_key_def)
  then show thesis using known assms Some by (auto simp: consume_pairing_replay_def split: if_splits)
next
  case None
  then have k: "entry_key e \<notin> entry_key ` set (rs_entries s)" by (auto simp: find_None_iff entry_key_def)
  show thesis
    using assms None fresh k
    by (auto simp: consume_pairing_replay_def Let_def bind_eq_Some_conv datetime_of_if new_replay_store_def not_le split: if_splits)
qed

lemma consumption_step:
  obtains (same) "consumptions s (a # as) = consumptions s as"
  | (taken) s' where "consumptions s (a # as) = (claimed a, clock a) # consumptions s' as"
      "entry_key (claimed a) \<notin> entry_key ` set (rs_entries s)" "is_timestamp (clock a)"
      "instant_of (clock a) < instant_of (re_expires_at (claimed a))"
      "set (rs_entries s') = insert (claimed a) {x \<in> set (rs_entries s). instant_of (clock a) < instant_of (re_expires_at x)}"
proof -
  obtain e rev_text updated current where a: "a = (e, rev_text, updated, current)" by (cases a)
  show thesis
  proof (cases "consume_pairing_replay s e rev_text updated current")
    case None
    then show thesis using same by (simp add: a)
  next
    case (Some so)
    then obtain s' out where so: "consume_pairing_replay s e rev_text updated current = Some (s', out)" by (cases so) simp
    then show thesis
    proof (cases rule: consume_replay_cases)
      case known
      then show thesis using so same by (simp add: a)
    next
      case fresh
      then show thesis using so by (intro taken [of s']) (simp_all add: a)
    qed
  qed
qed

lemma consumed_claims:
  "(e, c) \<in> set (consumptions s as) \<Longrightarrow> (\<exists>a \<in> set as. claimed a = e \<and> clock a = c) \<and> instant_of c < instant_of (re_expires_at e)"
proof (induction as arbitrary: s)
  case (Cons a as)
  show ?case
    by (rule consumption_step [of s a as]) (use Cons in \<open>auto dest: Cons.IH\<close>)
qed simp

text \<open>An object that the store knows is consumed again only after it has expired.\<close>

lemma known_objects:
  assumes "sorted (map (\<lambda>a. instant_of (clock a)) as)" "x \<in> set (rs_entries s)" "(e, c) \<in> set (consumptions s as)"
    and "entry_key x = entry_key e"
  shows "instant_of (re_expires_at x) \<le> instant_of c"
  using assms
proof (induction as arbitrary: s)
  case (Cons a as)
  show ?case
  proof (rule consumption_step [of s a as])
    assume "consumptions s (a # as) = consumptions s as"
    then show ?thesis using Cons by simp
  next
    fix s' assume run: "consumptions s (a # as) = (claimed a, clock a) # consumptions s' as"
      and new: "entry_key (claimed a) \<notin> entry_key ` set (rs_entries s)"
      and kept: "set (rs_entries s') = insert (claimed a) {y \<in> set (rs_entries s). instant_of (clock a) < instant_of (re_expires_at y)}"
    have "e \<noteq> claimed a" using new Cons.prems(2,4) by (metis imageI)
    then have later: "(e, c) \<in> set (consumptions s' as)" using Cons.prems(3) run by simp
    show ?thesis
    proof (cases "instant_of (clock a) < instant_of (re_expires_at x)")
      case True
      then show ?thesis using Cons.IH [of s'] Cons.prems kept later by simp
    next
      case False
      obtain b where "b \<in> set as" "clock b = c" using consumed_claims [OF later] by auto
      then have "instant_of (clock a) \<le> instant_of c" using Cons.prems(1) by auto
      then show ?thesis using False by simp
    qed
  qed
qed simp

definition expired_before :: "replay_entry \<times> string \<Rightarrow> replay_entry \<times> string \<Rightarrow> bool" where
  "expired_before x y \<longleftrightarrow> (entry_key (fst x) = entry_key (fst y) \<longrightarrow> instant_of (re_expires_at (fst x)) \<le> instant_of (snd y))"

lemma consumed_once:
  assumes "sorted (map (\<lambda>a. instant_of (clock a)) as)"
  shows "sorted_wrt expired_before (consumptions s as)"
  using assms
proof (induction as arbitrary: s)
  case (Cons a as)
  show ?case
  proof (rule consumption_step [of s a as])
    assume "consumptions s (a # as) = consumptions s as"
    then show ?thesis using Cons by simp
  next
    fix s' assume run: "consumptions s (a # as) = (claimed a, clock a) # consumptions s' as"
      and kept: "set (rs_entries s') = insert (claimed a) {y \<in> set (rs_entries s). instant_of (clock a) < instant_of (re_expires_at y)}"
    have s: "sorted (map (\<lambda>a. instant_of (clock a)) as)" using Cons.prems by simp
    have "expired_before (claimed a, clock a) y" if "y \<in> set (consumptions s' as)" for y
      using known_objects [OF s, of "claimed a" s' "fst y" "snd y"] kept that by (simp add: expired_before_def)
    then show ?thesis using Cons.IH [OF s] by (simp add: run)
  qed
qed simp

section \<open>A small state\<close>

definition anyone :: verifier where
  "anyone = (\<lambda>_ _ _. True)"

definition sample_header :: protected_state where
  "sample_header = \<lparr>st_device_id = ''avd1-'' @ replicate 64 (CHR ''1''), st_revision = sample_uuid (CHR ''1''), st_parent = None,
     st_created_at = ''2026-01-01T00:00:00Z'', st_updated_at = ''2026-01-01T00:00:00Z''\<rparr>"

definition sample_registry :: trusted_registry where
  "sample_registry = protected_state.extend sample_header \<lparr>tr_devices = []\<rparr>"

definition sample_peer :: trusted_peer where
  "sample_peer = \<lparr>tp_device_id = dd_device_id (di_descriptor sample_identity), tp_descriptor = sample_signed,
     tp_transcript = replicate 64 (CHR ''1''), tp_linked_at = ''2026-01-01T00:00:00Z'', tp_role = ''invitee'',
     tp_vault_id = ''main'', tp_key_epoch = 1, tp_delivery_id = sample_uuid (CHR ''2''), tp_acknowledgement = replicate 64 (CHR ''2'')\<rparr>"

definition sample_replay_store :: replay_store where
  "sample_replay_store = protected_state.extend sample_header \<lparr>rs_entries = []\<rparr>"

definition sample_entry :: replay_entry where
  "sample_entry = \<lparr>re_kind = ''offer'', re_object = sample_uuid (CHR ''3''), re_transcript = replicate 64 (CHR ''1''),
     re_consumed_at = ''2026-01-01T00:00:00Z'', re_expires_at = ''2026-01-02T00:00:00Z''\<rparr>"

definition sample_attempts :: "attempt list" where
  "sample_attempts = [(sample_entry, sample_uuid (CHR ''2''), ''2026-01-01T00:00:00Z'', ''2026-01-01T00:00:00Z''),
     (sample_entry, sample_uuid (CHR ''3''), ''2026-01-01T01:00:00Z'', ''2026-01-01T01:00:00Z'')]"

lemma sample_header_valid: "valid_protected sample_header"
  by (simp add: valid_protected_def sample_header_def is_device_id_text_def is_uuid_sample list_all_iff)

lemma sample_registry_valid: "valid_registry anyone sample_registry" "trusted sample_registry = Map.empty"
  using sample_header_valid
  by (simp_all add: valid_registry_def sample_registry_def protected_state.extend_def valid_protected_def trusted_def)

lemma sample_device_id_text: "is_device_id_text (dd_device_id (di_descriptor sample_identity))"
  by (simp add: sample_identity_def is_device_id_text_def)

lemma sample_peer_valid: "valid_peer anyone sample_peer"
  using sample_signed_valid sample_device_id_text
  by (simp add: valid_peer_def sample_peer_def verify_signed_iff anyone_def match_sha256_def list_all_iff is_uuid_sample
      is_vault_id_def MAX_VAULT_ID_LENGTH_def vault_id_char_def byte_val_def lower_char_def reserved_vault_ids_def
      is_counter_def MAXIMUM_INTEGER_def Let_def sample_signed_def)

lemma sample_store_valid: "valid_replay_store sample_replay_store"
  using sample_header_valid
  by (simp add: valid_replay_store_def sample_replay_store_def protected_state.extend_def valid_protected_def)

lemma sample_entry_valid: "valid_entry sample_entry"
  by (simp add: valid_entry_def sample_entry_def is_uuid_sample match_sha256_def list_all_iff)

lemma sample_clock: "sorted (map (\<lambda>a. instant_of (clock a)) sample_attempts)"
  using timestamp_order_le [OF sample_timestamps(1,2)] by (simp add: sample_attempts_def)

lemma sample_consumed:
  "\<exists>s'. consume_pairing_replay sample_replay_store sample_entry (sample_uuid (CHR ''2'')) ''2026-01-01T00:00:00Z'' ''2026-01-01T00:00:00Z''
    = Some (s', Consumed)"
proof -
  have "acceptable sample_replay_store sample_entry (sample_uuid (CHR ''2'')) ''2026-01-01T00:00:00Z'' ''2026-01-01T00:00:00Z''"
    using timestamp_order_le [OF sample_timestamps(3,1)] is_uuid_sample
    by (simp add: acceptable_def unexpired_def sample_replay_store_def sample_header_def sample_entry_def sample_uuid_def
        protected_state.extend_def MAXIMUM_REPLAY_ENTRIES_def not_le [symmetric])
  then show ?thesis
    using consume_new [OF sample_store_valid sample_entry_valid]
    by (simp add: sample_replay_store_def protected_state.extend_def)
qed

section \<open>Properties\<close>

text \<open>The files of the registry and of the replay store are read exactly when they hold the canonical bytes of a valid state; no valid state is too large for its file.\<close>

theorem pairing_bytes_canonical:
  "(registry_from_bytes verify data = Some r \<longleftrightarrow> valid_registry verify r \<and> data = registry_bytes r)
   \<and> (replay_store_from_bytes data = Some s \<longleftrightarrow> valid_replay_store s \<and> data = replay_store_bytes s)"
  using registry_from_bytes_iff replay_store_from_bytes_iff by blast

text \<open>C27: committing a peer refines the insertion into the map of trusted devices: it happens for a new device that is admissible, does nothing for a peer that is already there, and is refused otherwise; no device is ever replaced or lost.\<close>

theorem commit_refines_insertion:
  assumes "valid_registry verify r" "valid_peer verify p"
  shows "case commit_trusted_device r p rev_text updated of
      None \<Rightarrow> (\<exists>q. trusted r (tp_device_id p) = Some q \<and> q \<noteq> p) \<or> trusted r (tp_device_id p) = None \<and> \<not> admissible r p rev_text updated
    | Some (r', outcome) \<Rightarrow> valid_registry verify r' \<and> trusted r' = (trusted r)(tp_device_id p \<mapsto> p)
        \<and> (if outcome = Already_trusted then r' = r \<and> trusted r (tp_device_id p) = Some p
           else trusted r (tp_device_id p) = None \<and> admissible r p rev_text updated \<and> st_revision r' = rev_text
             \<and> st_parent r' = Some (st_revision r))"
proof (cases "trusted r (tp_device_id p)")
  case None
  then show ?thesis
    using commit_new [OF assms None, of rev_text updated] enrolled_valid [OF assms None, of rev_text updated]
    by (auto simp: enrolled_def split: if_splits)
next
  case (Some q)
  then show ?thesis using commit_known [OF Some, of rev_text updated] assms(1) by (auto split: if_splits)
qed

theorem commit_refines_insertion_witness:
  "case commit_trusted_device sample_registry sample_peer (sample_uuid (CHR ''2'')) ''2026-01-01T01:00:00Z'' of
      None \<Rightarrow> \<not> admissible sample_registry sample_peer (sample_uuid (CHR ''2'')) ''2026-01-01T01:00:00Z''
    | Some (r', outcome) \<Rightarrow> valid_registry anyone r' \<and> outcome = Committed
        \<and> trusted r' = [tp_device_id sample_peer \<mapsto> sample_peer]"
  using commit_refines_insertion [OF sample_registry_valid(1) sample_peer_valid, of "sample_uuid (CHR ''2'')" "''2026-01-01T01:00:00Z''"]
  by (auto simp: sample_registry_valid(2) split: option.splits if_splits intro: commit_outcome.exhaust)

text \<open>C28: replay protection is per object, which is a kind and an identifier.  As long as the clock does not go back, an object
  that the store knows or that was consumed is not consumed again before its entry has expired, whatever transcript it is presented
  with; so an object that is always presented with the same expiry is consumed at most once, ever.  The transcript is only compared
  with that of the same object: presented under another identifier, it is another object.\<close>

theorem no_pairing_replay:
  assumes "sorted (map (\<lambda>a. instant_of (clock a)) as)"
  shows "(\<forall>x \<in> set (rs_entries s). \<forall>(e, c) \<in> set (consumptions s as). entry_key x = entry_key e \<longrightarrow>
        instant_of (re_expires_at x) \<le> instant_of c)
    \<and> sorted_wrt expired_before (consumptions s as)
    \<and> ((\<forall>a \<in> set as. \<forall>b \<in> set as. entry_key (claimed a) = entry_key (claimed b) \<longrightarrow>
          re_expires_at (claimed a) = re_expires_at (claimed b)) \<longrightarrow>
        distinct (map (\<lambda>(e, c). entry_key e) (consumptions s as)))"
proof (intro conjI impI)
  let ?id = "\<lambda>(e, c). entry_key e"
  show s: "sorted_wrt expired_before (consumptions s as)" using consumed_once [OF assms] .
  show "\<forall>x \<in> set (rs_entries s). \<forall>(e, c) \<in> set (consumptions s as). entry_key x = entry_key e \<longrightarrow>
      instant_of (re_expires_at x) \<le> instant_of c"
    using known_objects [OF assms] by blast
  assume fixed: "\<forall>a \<in> set as. \<forall>b \<in> set as. entry_key (claimed a) = entry_key (claimed b) \<longrightarrow>
      re_expires_at (claimed a) = re_expires_at (claimed b)"
  have "distinct (map ?id xs)" if "sorted_wrt expired_before xs" "set xs \<subseteq> set (consumptions s as)" for xs
    using that
  proof (induction xs)
    case (Cons x xs)
    have "?id x \<noteq> ?id y" if y: "y \<in> set xs" for y
    proof
      assume same: "?id x = ?id y"
      obtain e c e' c' where xy: "x = (e, c)" "y = (e', c')" by (cases x; cases y)
      have m: "(e, c) \<in> set (consumptions s as)" "(e', c') \<in> set (consumptions s as)" using Cons.prems(2) y xy by auto
      have "re_expires_at e = re_expires_at e'"
        using fixed consumed_claims [OF m(1)] consumed_claims [OF m(2)] same xy by fastforce
      moreover have "instant_of (re_expires_at e) \<le> instant_of c'"
        using Cons.prems(1) y same xy by (auto simp: expired_before_def)
      ultimately show False using consumed_claims [OF m(2)] by (metis leD)
    qed
    then show ?case using Cons by auto
  qed simp
  then show "distinct (map ?id (consumptions s as))" using s by blast
qed

theorem no_pairing_replay_witness:
  "consumptions sample_replay_store sample_attempts = [(sample_entry, ''2026-01-01T00:00:00Z'')]"
proof -
  obtain cs where cs: "consumptions sample_replay_store sample_attempts = (sample_entry, ''2026-01-01T00:00:00Z'') # cs"
    using sample_consumed by (auto simp: sample_attempts_def)
  have "distinct (map (\<lambda>(e, c). entry_key e) (consumptions sample_replay_store sample_attempts))"
    using no_pairing_replay [OF sample_clock, of sample_replay_store] by (simp add: sample_attempts_def)
  moreover have "e = sample_entry" if "(e, c) \<in> set cs" for e c
    using consumed_claims [of e c sample_replay_store sample_attempts] that by (auto simp: cs) (auto simp: sample_attempts_def)
  ultimately have "cs = []" unfolding cs by (cases cs) fastforce+
  then show ?thesis by (simp add: cs)
qed

text \<open>Consuming an object answers by what the store knows of it: a new object within its lifetime is recorded beside the unexpired ones, a repetition changes nothing, and a known object with another transcript is refused.\<close>

theorem consume_answer:
  assumes "valid_replay_store s" "valid_entry e"
  shows "case consume_pairing_replay s e rev_text updated current of
      None \<Rightarrow> (\<exists>x \<in> set (rs_entries s). entry_key x = entry_key e \<and> re_transcript x \<noteq> re_transcript e)
        \<or> entry_key e \<notin> entry_key ` set (rs_entries s) \<and> \<not> acceptable s e rev_text updated current
    | Some (s', outcome) \<Rightarrow> valid_replay_store s' \<and>
        (if outcome = Already_consumed
         then s' = s \<and> (\<exists>x \<in> set (rs_entries s). entry_key x = entry_key e \<and> re_transcript x = re_transcript e)
         else entry_key e \<notin> entry_key ` set (rs_entries s) \<and> acceptable s e rev_text updated current
           \<and> set (rs_entries s') = insert e {x \<in> set (rs_entries s). instant_of current < instant_of (re_expires_at x)})"
proof (cases "entry_key e \<in> entry_key ` set (rs_entries s)")
  case True
  then obtain x where x: "x \<in> set (rs_entries s)" "entry_key x = entry_key e" by (metis imageE)
  then show ?thesis
    using consume_known [OF assms(1) x, of rev_text updated current] assms(1) by (cases "re_transcript x = re_transcript e") auto
next
  case False
  show ?thesis
    using consume_new [OF assms False, of rev_text updated current] recorded_valid [OF assms False, of rev_text updated current] False
    by (cases "acceptable s e rev_text updated current") (simp_all add: recorded_def unexpired_def)
qed

theorem consume_answer_witness:
  "case consume_pairing_replay sample_replay_store sample_entry (sample_uuid (CHR ''2'')) ''2026-01-01T01:00:00Z'' ''2026-01-01T00:00:00Z'' of
      None \<Rightarrow> \<not> acceptable sample_replay_store sample_entry (sample_uuid (CHR ''2'')) ''2026-01-01T01:00:00Z'' ''2026-01-01T00:00:00Z''
    | Some (s', outcome) \<Rightarrow> valid_replay_store s' \<and> rs_entries sample_replay_store = []"
  using consume_answer [OF sample_store_valid sample_entry_valid, of "sample_uuid (CHR ''2'')" "''2026-01-01T01:00:00Z''" "''2026-01-01T00:00:00Z''"]
  by (auto simp: sample_replay_store_def protected_state.extend_def split: option.splits)

end
