(* ===== verification/StateView.thy ===== *)
theory StateView
  imports Commitment Canonical Sizes
begin

text \<open>
  Authenticated state views and the history of them that a client keeps
  (\<open>vaultsync/authenticated_state_view.py\<close>).

  \<open>_boundary\<close> turns every exception of the checks into the code ATLAS_STATE_VIEW_REJECTED, except a
  \<open>StateViewError\<close>, which keeps its own; so a check that raises anything else is \<open>None\<close>, and a call
  of the history answers \<open>view_error + 'a\<close> with the file after it, since finding a fork writes the
  file and then raises.  \<open>verify\<close> takes a public key, a signature and a message.
\<close>

section \<open>Views\<close>

datatype view_error = State_view_rejected | Registry_substitution | History_limit
  | State_equivocation | Checkpoint_required | Rollback_rejected

record unsigned_view =
  sv_account :: string
  sv_vault :: string
  sv_sequence :: int
  sv_previous_root :: string
  sv_collection_root :: string
  sv_registry_root :: string
  sv_previous_registry :: string
  sv_key_epoch :: int

record state_view = unsigned_view +
  sv_root :: string
  sv_signature_b64 :: string

definition VIEW_FORMAT :: string where
  "VIEW_FORMAT = ''atlasvault-authenticated-state-view''"

definition REGISTRY_TRANSCRIPT :: string where
  "REGISTRY_TRANSCRIPT = ''atlasvault-registry-root-v1'' @ newline"

definition EMPTY_REGISTRY :: string where
  "EMPTY_REGISTRY = sha256_hex REGISTRY_TRANSCRIPT"

definition VIEW_LIMIT :: nat where
  "VIEW_LIMIT = 256"

definition unsigned_keys :: "string list" where
  "unsigned_keys = [''format'', ''version'', ''account_id'', ''vault_id'', ''sequence'', ''previous_root'',
     ''collection_root'', ''registry_root'', ''previous_registry_root'', ''key_epoch'']"

definition view_keys :: "string list" where
  "view_keys = unsigned_keys @ [''root'', ''signature_b64'']"

text \<open>The checks of \<open>_root\<close>, and the digest it returns.\<close>

definition unsigned_from_dict :: "json \<Rightarrow> unsigned_view option" where
  "unsigned_from_dict v = do {
     obj \<leftarrow> mapping v;
     exact obj unsigned_keys;
     format_v \<leftarrow> map_of obj ''format'';
     version_v \<leftarrow> map_of obj ''version'';
     require (format_v = JStr VIEW_FORMAT \<and> version_v = JInt 2);
     account \<leftarrow> map_of obj ''account_id'' \<bind> identifier_value;
     vault \<leftarrow> map_of obj ''vault_id'' \<bind> identifier_value;
     seq \<leftarrow> map_of obj ''sequence'' \<bind> commitment_sequence False;
     previous \<leftarrow> map_of obj ''previous_root'' \<bind> commitment_hex;
     collection \<leftarrow> map_of obj ''collection_root'' \<bind> commitment_hex;
     registry \<leftarrow> map_of obj ''registry_root'' \<bind> commitment_hex;
     previous_registry \<leftarrow> map_of obj ''previous_registry_root'' \<bind> commitment_hex;
     epoch \<leftarrow> map_of obj ''key_epoch'' \<bind> commitment_sequence False;
     Some \<lparr>sv_account = account, sv_vault = vault, sv_sequence = seq, sv_previous_root = previous,
       sv_collection_root = collection, sv_registry_root = registry,
       sv_previous_registry = previous_registry, sv_key_epoch = epoch\<rparr> }"

definition view_transcript :: "'a unsigned_view_scheme \<Rightarrow> string" where
  "view_transcript u = ''atlasvault-authenticated-state-view-v2'' @ newline @ sv_account u @ newline
     @ sv_vault u @ newline @ int_str (sv_sequence u) @ newline @ sv_previous_root u @ newline
     @ sv_collection_root u @ newline @ sv_registry_root u @ newline @ sv_previous_registry u @ newline
     @ int_str (sv_key_epoch u) @ newline"

definition view_root :: "'a unsigned_view_scheme \<Rightarrow> string" where
  "view_root u = sha256_hex (view_transcript u)"

definition view_message :: "string \<Rightarrow> string" where
  "view_message root = ''atlasvault-state-view-signature-v2'' @ [CHR 0x00] @ from_hex root"

definition view_to_dict :: "state_view \<Rightarrow> json" where
  "view_to_dict v = JObj
     [(''format'', JStr VIEW_FORMAT), (''version'', JInt 2), (''account_id'', JStr (sv_account v)),
      (''vault_id'', JStr (sv_vault v)), (''sequence'', JInt (sv_sequence v)),
      (''previous_root'', JStr (sv_previous_root v)), (''collection_root'', JStr (sv_collection_root v)),
      (''registry_root'', JStr (sv_registry_root v)),
      (''previous_registry_root'', JStr (sv_previous_registry v)), (''key_epoch'', JInt (sv_key_epoch v)),
      (''root'', JStr (sv_root v)), (''signature_b64'', JStr (sv_signature_b64 v))]"

type_synonym verifier = "string \<Rightarrow> string \<Rightarrow> string \<Rightarrow> bool"

definition without_signature :: "obj \<Rightarrow> obj" where
  "without_signature obj = filter (\<lambda>(k, _). k \<notin> {''root'', ''signature_b64''}) obj"

text \<open>\<open>_verified\<close>.\<close>

definition verified_view :: "verifier \<Rightarrow> string \<Rightarrow> json \<Rightarrow> state_view option" where
  "verified_view verify public v = do {
     obj \<leftarrow> mapping v;
     exact obj view_keys;
     u \<leftarrow> unsigned_from_dict (JObj (without_signature obj));
     root \<leftarrow> map_of obj ''root'' \<bind> commitment_hex;
     require (root = view_root u);
     signature_v \<leftarrow> map_of obj ''signature_b64'';
     text \<leftarrow> canonical_base64 (Some 64) 1 signature_v;
     require (length text = 88);
     signature \<leftarrow> b64decode text;
     require (verify public signature (view_message root));
     Some (unsigned_view.extend u (state_view.fields root text)) }"

definition sign_state_view :: "verifier \<Rightarrow> string \<Rightarrow> (string \<Rightarrow> string) \<Rightarrow> json \<Rightarrow> state_view option" where
  "sign_state_view verify public sign v = do {
     u \<leftarrow> unsigned_from_dict v;
     let root = view_root u;
     verified_view verify public (view_to_dict
       (unsigned_view.extend u (state_view.fields root (b64encode (sign (view_message root)))))) }"

section \<open>The registry of devices in a view\<close>

text \<open>The entries of \<open>registry_root\<close>; every failure but that of \<open>_commitment_hex\<close> has its own code.\<close>

fun registry_rows :: "json list \<Rightarrow> (string, string) fmap \<Rightarrow> view_error + (string, string) fmap" where
  "registry_rows [] checked = Inr checked"
| "registry_rows (e # es) checked = (case mapping e of None \<Rightarrow> Inl Registry_substitution
     | Some obj \<Rightarrow>
       if exact obj [''device_id'', ''descriptor_sha256''] = None then Inl Registry_substitution
       else and_then (or_error State_view_rejected (map_of obj ''device_id'' \<bind> commitment_hex)) (\<lambda>device.
         and_then (or_error State_view_rejected (map_of obj ''descriptor_sha256'' \<bind> commitment_hex)) (\<lambda>descriptor.
           if device |\<in>| fmdom checked then Inl Registry_substitution
           else registry_rows es (fmupd device descriptor checked))))"

definition registry_transcript :: "(string, string) fmap \<Rightarrow> string" where
  "registry_transcript m = REGISTRY_TRANSCRIPT @ concat (map (\<lambda>(k, d). k @ '':'' @ d @ newline) (items m))"

definition state_registry_root :: "json \<Rightarrow> view_error + string" where
  "state_registry_root v = (case json_list v of None \<Rightarrow> Inl Registry_substitution
     | Some es \<Rightarrow> if \<not> (1 \<le> length es \<and> length es \<le> VIEW_LIMIT) then Inl Registry_substitution
         else and_then (registry_rows es fmempty) (\<lambda>m. Inr (sha256_hex (registry_transcript m))))"

section \<open>The history\<close>

text \<open>\<open>AuthenticatedHistory._context\<close>, with the raw public key.\<close>

record view_context =
  vc_account :: string
  vc_vault :: string
  vc_collection :: string
  vc_key_epoch :: int
  vc_public :: string

definition history_init :: "string \<Rightarrow> string \<Rightarrow> string \<Rightarrow> int \<Rightarrow> string \<Rightarrow> view_context option" where
  "history_init account_text vault_text collection_text epoch_in trusted_signer = do {
     require (length trusted_signer = 32);
     account \<leftarrow> identifier_value (JStr account_text);
     vault \<leftarrow> identifier_value (JStr vault_text);
     collection \<leftarrow> identifier_value (JStr collection_text);
     epoch \<leftarrow> commitment_sequence False (JInt epoch_in);
     Some \<lparr>vc_account = account, vc_vault = vault, vc_collection = collection, vc_key_epoch = epoch,
       vc_public = trusted_signer\<rparr> }"

definition context_dict :: "view_context \<Rightarrow> json" where
  "context_dict ctx = JObj
     [(''account_id'', JStr (vc_account ctx)), (''vault_id'', JStr (vc_vault ctx)),
      (''collection_id'', JStr (vc_collection ctx)), (''key_epoch'', JInt (vc_key_epoch ctx)),
      (''signing_public_b64'', JStr (b64encode (vc_public ctx)))]"

text \<open>\<open>==\<close> with a positive int below 2^53: of the int, of True, and of the float of that value.\<close>

fun py_int_eq :: "json \<Rightarrow> int \<Rightarrow> bool" where
  "py_int_eq (JInt i) n \<longleftrightarrow> i = n"
| "py_int_eq (JBool b) n \<longleftrightarrow> b \<and> n = 1"
| "py_int_eq (JFloat s) n \<longleftrightarrow> s = int_str n @ ''.0''"
| "py_int_eq _ n \<longleftrightarrow> False"

definition context_matches :: "view_context \<Rightarrow> json \<Rightarrow> bool" where
  "context_matches ctx v = (case mapping v of None \<Rightarrow> False | Some obj \<Rightarrow>
     exact obj [''account_id'', ''vault_id'', ''collection_id'', ''key_epoch'', ''signing_public_b64''] \<noteq> None
     \<and> map_of obj ''account_id'' = Some (JStr (vc_account ctx))
     \<and> map_of obj ''vault_id'' = Some (JStr (vc_vault ctx))
     \<and> map_of obj ''collection_id'' = Some (JStr (vc_collection ctx))
     \<and> (case map_of obj ''key_epoch'' of None \<Rightarrow> False | Some e \<Rightarrow> py_int_eq e (vc_key_epoch ctx))
     \<and> map_of obj ''signing_public_b64'' = Some (JStr (b64encode (vc_public ctx))))"

definition in_context :: "view_context \<Rightarrow> state_view \<Rightarrow> bool" where
  "in_context ctx v \<longleftrightarrow> sv_account v = vc_account ctx \<and> sv_vault v = vc_vault ctx \<and> sv_key_epoch v = vc_key_epoch ctx"

text \<open>The loop of \<open>_chain\<close>: the views seen before are \<open>i\<close>.\<close>

fun chain_views :: "verifier \<Rightarrow> view_context \<Rightarrow> int \<Rightarrow> string \<Rightarrow> string \<Rightarrow> json list \<Rightarrow> state_view list option" where
  "chain_views verify ctx i previous registry [] = Some []"
| "chain_views verify ctx i previous registry (raw # raws) = do {
     v \<leftarrow> verified_view verify (vc_public ctx) raw;
     require (in_context ctx v);
     require (\<not> (sv_sequence v \<noteq> i + 1 \<or> sv_previous_root v \<noteq> previous \<or> sv_previous_registry v \<noteq> registry));
     vs \<leftarrow> chain_views verify ctx (i + 1) (sv_root v) (sv_registry_root v) raws;
     Some (v # vs) }"

definition history_chain :: "verifier \<Rightarrow> view_context \<Rightarrow> json \<Rightarrow> view_error + state_view list" where
  "history_chain verify ctx v = (case json_list v of None \<Rightarrow> Inl History_limit
     | Some raws \<Rightarrow> if VIEW_LIMIT < length raws then Inl History_limit
         else or_error State_view_rejected (chain_views verify ctx 0 ZERO_ROOT EMPTY_REGISTRY raws))"

definition history_dict :: "view_context \<Rightarrow> state_view list \<Rightarrow> bool \<Rightarrow> json" where
  "history_dict ctx views blocked = JObj
     [(''context'', context_dict ctx), (''views'', JList (map view_to_dict views)), (''blocked'', JBool blocked)]"

definition history_load :: "verifier \<Rightarrow> view_context \<Rightarrow> store \<Rightarrow> view_error + (state_view list \<times> bool)" where
  "history_load verify ctx st =
     and_then (or_error State_view_rejected (do {
       value \<leftarrow> mapping (store_read st (JObj []));
       exact value [''context'', ''views'', ''blocked''];
       context_v \<leftarrow> map_of value ''context'';
       require (context_matches ctx context_v);
       blocked \<leftarrow> map_of value ''blocked'' \<bind> json_bool;
       views_v \<leftarrow> map_of value ''views'';
       Some (views_v, blocked) }))
     (\<lambda>(views_v, blocked). and_then (history_chain verify ctx views_v) (\<lambda>views. Inr (views, blocked)))"

definition history_save :: "view_context \<Rightarrow> state_view list \<Rightarrow> bool \<Rightarrow> store option" where
  "history_save ctx views blocked = store_write (history_dict ctx views blocked)"

definition history_initialize :: "view_context \<Rightarrow> store \<Rightarrow> store option" where
  "history_initialize ctx st = do { require (st = None); history_save ctx [] False }"

definition export_evidence :: "verifier \<Rightarrow> view_context \<Rightarrow> store \<Rightarrow> view_error + state_view list" where
  "export_evidence verify ctx st = and_then (history_load verify ctx st) (\<lambda>(views, _). Inr views)"

definition history_fork :: "view_context \<Rightarrow> state_view list \<Rightarrow> store \<Rightarrow> (view_error + 'a) \<times> store" where
  "history_fork ctx views st = (case history_save ctx views True of
     None \<Rightarrow> (Inl State_view_rejected, st) | Some st' \<Rightarrow> (Inl State_equivocation, st'))"

definition compare_evidence :: "verifier \<Rightarrow> view_context \<Rightarrow> store \<Rightarrow> json \<Rightarrow> (view_error + nat) \<times> store" where
  "compare_evidence verify ctx st peer_v = (case history_load verify ctx st of
     Inl e \<Rightarrow> (Inl e, st)
   | Inr (views, blocked) \<Rightarrow>
       if blocked then (Inl State_equivocation, st)
       else (case history_chain verify ctx peer_v of
         Inl e \<Rightarrow> (Inl e, st)
       | Inr peer \<Rightarrow>
           if views = [] \<or> peer = [] then (Inl Checkpoint_required, st)
           else if list_ex (\<lambda>(left, right). sv_root left \<noteq> sv_root right) (zip views peer)
             then history_fork ctx views st
           else (Inr (min (length views) (length peer)), st)))"

text \<open>The checks of \<open>observe\<close> on what is presented: the view, the registry, the commitment and the state.\<close>

definition presented :: "verifier \<Rightarrow> view_context \<Rightarrow> json \<Rightarrow> json \<Rightarrow> json \<Rightarrow> string
    \<Rightarrow> view_error + (state_view \<times> commitment)" where
  "presented verify ctx raw_view registry raw_collection opaque_state =
     and_then (or_error State_view_rejected (do {
       v \<leftarrow> verified_view verify (vc_public ctx) raw_view;
       require (in_context ctx v);
       Some v }))
     (\<lambda>v. and_then (state_registry_root registry) (\<lambda>root.
       if root \<noteq> sv_registry_root v then Inl Registry_substitution
       else or_error State_view_rejected (do {
         c \<leftarrow> commitment_from_dict raw_collection;
         dig \<leftarrow> state_digest opaque_state;
         require (\<not> (cm_collection c \<noteq> vc_collection ctx \<or> cm_sequence c \<noteq> sv_sequence v
           \<or> cm_root c \<noteq> sv_collection_root v \<or> cm_state_sha256 c \<noteq> dig));
         signature \<leftarrow> b64decode (cm_signature_b64 c);
         require (verify (vc_public ctx) signature (signed_message (cm_root c)));
         Some (v, c) })))"

definition view_sequel :: "state_view list \<Rightarrow> state_view \<Rightarrow> commitment \<Rightarrow> bool" where
  "view_sequel views v c \<longleftrightarrow> sv_sequence v = int (length views) + 1
     \<and> sv_previous_root v = (if views = [] then ZERO_ROOT else sv_root (last views))
     \<and> sv_previous_registry v = (if views = [] then EMPTY_REGISTRY else sv_registry_root (last views))
     \<and> cm_previous c = (if views = [] then ZERO_ROOT else sv_collection_root (last views))"

definition observe_view :: "verifier \<Rightarrow> view_context \<Rightarrow> store \<Rightarrow> json \<Rightarrow> json \<Rightarrow> json \<Rightarrow> string
    \<Rightarrow> (view_error + bool) \<times> store" where
  "observe_view verify ctx st raw_view registry raw_collection opaque_state = (case history_load verify ctx st of
     Inl e \<Rightarrow> (Inl e, st)
   | Inr (views, blocked) \<Rightarrow>
       if blocked then (Inl State_equivocation, st)
       else (case presented verify ctx raw_view registry raw_collection opaque_state of
         Inl e \<Rightarrow> (Inl e, st)
       | Inr (v, c) \<Rightarrow>
           let n = nat (sv_sequence v) in
           if n \<le> length views \<and> sv_root v \<noteq> sv_root (views ! (n - 1)) then history_fork ctx views st
           else if n < length views then (Inl Rollback_rejected, st)
           else if n = length views then (Inr False, st)
           else if length views = VIEW_LIMIT then (Inl History_limit, st)
           else if \<not> view_sequel views v c then (Inl State_view_rejected, st)
           else (case history_save ctx (views @ [v]) False of
             None \<Rightarrow> (Inl State_view_rejected, st) | Some st' \<Rightarrow> (Inr True, st'))))"

end
