(* ===== verification/StateHistory.thy ===== *)
theory StateHistory
  imports StateView RollbackTracker
begin

text \<open>
  The history of authenticated views: the codec of views, the file of a history, and the runs of
  calls on it.  Views and evidence from peers are arbitrary JSON.
\<close>

section \<open>Views that pass the checks\<close>

definition valid_unsigned :: "'a unsigned_view_scheme \<Rightarrow> bool" where
  "valid_unsigned u \<longleftrightarrow> is_identifier (sv_account u) \<and> is_identifier (sv_vault u)
     \<and> 1 \<le> sv_sequence u \<and> sv_sequence u \<le> MAX_COMMITMENT_SEQUENCE \<and> match_sha256 (sv_previous_root u)
     \<and> match_sha256 (sv_collection_root u) \<and> match_sha256 (sv_registry_root u)
     \<and> match_sha256 (sv_previous_registry u) \<and> 1 \<le> sv_key_epoch u \<and> sv_key_epoch u \<le> MAX_COMMITMENT_SEQUENCE"

definition valid_view :: "verifier \<Rightarrow> string \<Rightarrow> state_view \<Rightarrow> bool" where
  "valid_view verify public v \<longleftrightarrow> valid_unsigned v \<and> sv_root v = view_root v
     \<and> is_base64 (Some 64) 1 (sv_signature_b64 v) \<and> length (sv_signature_b64 v) = 88
     \<and> (\<exists>signature. b64decode (sv_signature_b64 v) = Some signature
         \<and> verify public signature (view_message (sv_root v)))"

lemma view_root_extend [simp]: "view_root (unsigned_view.extend u m) = view_root u"
  by (simp add: view_root_def view_transcript_def unsigned_view.defs)

lemma match_view_root [simp]: "match_sha256 (view_root u)"
  by (simp add: view_root_def)

lemma valid_unsigned_extend [simp]: "valid_unsigned (unsigned_view.extend u m) = valid_unsigned u"
  by (simp add: valid_unsigned_def unsigned_view.defs)

lemma extend_view [simp]:
  "sv_root (unsigned_view.extend u (state_view.fields r s)) = r"
  "sv_signature_b64 (unsigned_view.extend u (state_view.fields r s)) = s"
  by (simp_all add: unsigned_view.defs state_view.defs)

lemma unsigned_from_valid: "unsigned_from_dict v = Some u \<Longrightarrow> valid_unsigned u"
  unfolding unsigned_from_dict_def
  by (auto elim!: bind_SomeE simp: valid_unsigned_def)

lemma extend_truncate: "unsigned_view.extend (unsigned_view.truncate v) (state_view.fields (sv_root v) (sv_signature_b64 v)) = v"
  by (cases v) (simp add: unsigned_view.defs state_view.defs)

lemma view_root_truncate [simp]: "view_root (unsigned_view.truncate v) = view_root v"
  by (simp add: view_root_def view_transcript_def unsigned_view.defs)

lemma unsigned_from_view:
  assumes "valid_unsigned v" and "view_to_dict v = JObj obj"
  shows "unsigned_from_dict (JObj (without_signature obj)) = Some (unsigned_view.truncate v)"
proof -
  have f: "without_signature obj = take 10 obj"
    using assms(2) unfolding view_to_dict_def without_signature_def json.inject by (elim subst) simp
  show ?thesis
    unfolding f using assms(2) [symmetric] assms(1)
    by (simp add: valid_unsigned_def unsigned_from_dict_def view_to_dict_def exact_def unsigned_keys_def unsigned_view.defs)
qed

lemma verified_view_of:
  assumes "valid_view verify public v"
  shows "verified_view verify public (view_to_dict v) = Some v"
proof -
  obtain obj where o: "view_to_dict v = JObj obj" by (simp add: view_to_dict_def)
  have u: "valid_unsigned v" using assms by (simp add: valid_view_def)
  have k: "exact obj view_keys = Some ()" "map_of obj ''root'' = Some (JStr (sv_root v))"
    "map_of obj ''signature_b64'' = Some (JStr (sv_signature_b64 v))"
    using o by (auto simp: view_to_dict_def exact_def view_keys_def unsigned_keys_def)
  have "unsigned_view.extend (unsigned_view.truncate v) (state_view.fields (view_root v) (sv_signature_b64 v)) = v"
    using extend_truncate [of v] assms by (simp add: valid_view_def)
  then show ?thesis
    unfolding o verified_view_def
    using assms by (auto simp: k unsigned_from_view [OF u o] valid_view_def)
qed

lemma verified_view_valid:
  assumes "verified_view verify public w = Some v"
  shows "valid_view verify public v"
  using assms unfolding verified_view_def
  by (elim bind_SomeE)
    (auto simp: valid_view_def dest: unsigned_from_valid)

interpretation view_codec: codec "valid_view verify public" view_to_dict "verified_view verify public"
  for verify public
  by unfold_locales (rule verified_view_of, assumption, rule verified_view_valid)

section \<open>Chains of views\<close>

fun view_chain :: "verifier \<Rightarrow> view_context \<Rightarrow> int \<Rightarrow> string \<Rightarrow> string \<Rightarrow> state_view list \<Rightarrow> bool" where
  "view_chain verify ctx i previous registry [] = True"
| "view_chain verify ctx i previous registry (v # vs) \<longleftrightarrow> valid_view verify (vc_public ctx) v \<and> in_context ctx v
     \<and> sv_sequence v = i + 1 \<and> sv_previous_root v = previous \<and> sv_previous_registry v = registry
     \<and> view_chain verify ctx (i + 1) (sv_root v) (sv_registry_root v) vs"

definition valid_history :: "verifier \<Rightarrow> view_context \<Rightarrow> state_view list \<Rightarrow> bool" where
  "valid_history verify ctx vs \<longleftrightarrow> view_chain verify ctx 0 ZERO_ROOT EMPTY_REGISTRY vs \<and> length vs \<le> VIEW_LIMIT"

lemma chain_views_of:
  "view_chain verify ctx i previous registry vs \<Longrightarrow>
     chain_views verify ctx i previous registry (map view_to_dict vs) = Some vs"
  by (induction vs arbitrary: i previous registry) (auto simp: verified_view_of)

lemma chain_views_valid:
  "chain_views verify ctx i previous registry raws = Some vs \<Longrightarrow>
     view_chain verify ctx i previous registry vs \<and> length vs = length raws"
proof (induction raws arbitrary: i previous registry vs)
  case (Cons raw raws)
  from Cons.prems show ?case
    by (auto elim!: bind_SomeE dest: verified_view_valid Cons.IH)
qed simp

lemma view_chain_snoc:
  "view_chain verify ctx i previous registry (vs @ [v]) \<longleftrightarrow> view_chain verify ctx i previous registry vs
     \<and> valid_view verify (vc_public ctx) v \<and> in_context ctx v \<and> sv_sequence v = i + int (length vs) + 1
     \<and> sv_previous_root v = (if vs = [] then previous else sv_root (last vs))
     \<and> sv_previous_registry v = (if vs = [] then registry else sv_registry_root (last vs))"
  by (induction vs arbitrary: i previous registry) auto

lemma view_chain_nth:
  "view_chain verify ctx i previous registry vs \<Longrightarrow> n < length vs \<Longrightarrow>
     valid_view verify (vc_public ctx) (vs ! n) \<and> in_context ctx (vs ! n) \<and> sv_sequence (vs ! n) = i + int n + 1"
proof (induction vs arbitrary: i previous registry n)
  case (Cons v vs)
  then show ?case by (cases n) fastforce+
qed simp

text \<open>The evidence a client exports is what another one reads.\<close>

definition evidence :: "state_view list \<Rightarrow> json" where
  "evidence vs = JList (map view_to_dict vs)"

definition read_evidence :: "verifier \<Rightarrow> view_context \<Rightarrow> json \<Rightarrow> state_view list option" where
  "read_evidence verify ctx w = (case history_chain verify ctx w of Inl _ \<Rightarrow> None | Inr vs \<Rightarrow> Some vs)"

lemma history_chain_of: "valid_history verify ctx vs \<Longrightarrow> history_chain verify ctx (evidence vs) = Inr vs"
  by (auto simp: history_chain_def evidence_def valid_history_def dest: chain_views_of)

lemma history_chain_valid: "history_chain verify ctx w = Inr vs \<Longrightarrow> valid_history verify ctx vs"
  by (auto simp: history_chain_def valid_history_def split: option.splits if_splits dest: chain_views_valid)

interpretation evidence_codec: codec "valid_history verify ctx" evidence "read_evidence verify ctx"
  for verify ctx
  by unfold_locales
    (auto simp: read_evidence_def history_chain_of split: sum.splits dest: history_chain_valid)

section \<open>The file\<close>

definition valid_context :: "view_context \<Rightarrow> bool" where
  "valid_context ctx \<longleftrightarrow> is_identifier (vc_account ctx) \<and> is_identifier (vc_vault ctx)
     \<and> is_identifier (vc_collection ctx) \<and> 1 \<le> vc_key_epoch ctx \<and> vc_key_epoch ctx \<le> MAX_COMMITMENT_SEQUENCE
     \<and> length (vc_public ctx) = 32"

lemma history_init_valid: "history_init a v c e k = Some ctx \<Longrightarrow> valid_context ctx"
  by (auto simp: history_init_def valid_context_def elim!: bind_SomeE split: if_splits)

lemma context_matches_dict: "context_matches ctx (context_dict ctx)"
  by (simp add: context_matches_def context_dict_def exact_def)

lemma sequence_width: "1 \<le> n \<Longrightarrow> n \<le> MAX_COMMITMENT_SEQUENCE \<Longrightarrow> length (int_str n) \<le> 19"
  by (rule length_int_str) (simp add: is_counter_def MAX_COMMITMENT_SEQUENCE_def MAXIMUM_INTEGER_def)

lemma view_weight: "valid_view verify public v \<Longrightarrow> json_weight (view_to_dict v) \<le> 8000"
proof -
  assume v: "valid_view verify public v"
  have "length (int_str 2) \<le> 19" by (rule sequence_width) (simp_all add: MAX_COMMITMENT_SEQUENCE_def)
  moreover have "length (int_str (sv_sequence v)) \<le> 19" "length (int_str (sv_key_epoch v)) \<le> 19"
    using v by (auto simp: valid_view_def valid_unsigned_def intro: sequence_width)
  moreover have "length (sv_account v) \<le> 128" "length (sv_vault v) \<le> 128" "length (sv_previous_root v) = 64"
    "length (sv_collection_root v) = 64" "length (sv_registry_root v) = 64" "length (sv_previous_registry v) = 64"
    "length (sv_root v) = 64" "length (sv_signature_b64 v) = 88"
    using v match_view_root [of v] by (simp_all add: valid_view_def valid_unsigned_def is_identifier_def match_sha256_def)
  ultimately show ?thesis by (simp add: view_to_dict_def VIEW_FORMAT_def)
qed

lemma context_weight: "valid_context ctx \<Longrightarrow> json_weight (context_dict ctx) \<le> 4000"
proof -
  assume c: "valid_context ctx"
  then have "length (int_str (vc_key_epoch ctx)) \<le> 19" by (auto simp: valid_context_def intro: sequence_width)
  then show ?thesis using c by (simp add: valid_context_def context_dict_def is_identifier_def length_b64encode)
qed

lemma history_fits:
  assumes "valid_context ctx" "valid_history verify ctx vs"
  shows "write_fits (history_dict ctx vs blocked)"
proof -
  have "json_weight (view_to_dict v) \<le> 8000" if "v \<in> set vs" for v
    using that assms(2) view_chain_nth [of verify ctx] view_weight
    by (fastforce simp: valid_history_def in_set_conv_nth)
  then have "sum_list (map (\<lambda>v. json_weight (view_to_dict v) + 1) vs) \<le> sum_list (map (\<lambda>v. 8001) vs)"
    by (intro sum_list_mono_map) simp
  also have "\<dots> \<le> 8001 * 256"
    using assms(2) by (simp add: valid_history_def VIEW_LIMIT_def sum_list_triv)
  finally show ?thesis
    unfolding history_dict_def
    by (intro write_fits_weight) (use context_weight [OF assms(1)] in \<open>simp add: comp_def\<close>)
qed

lemma history_load_saved:
  "valid_history verify ctx vs \<Longrightarrow> history_load verify ctx (Some (history_dict ctx vs blocked)) = Inr (vs, blocked)"
  using history_chain_of [of verify ctx vs] context_matches_dict [of ctx]
  by (simp add: history_load_def history_dict_def exact_def evidence_def)

lemma history_save_of:
  "valid_context ctx \<Longrightarrow> valid_history verify ctx vs \<Longrightarrow>
     history_save ctx vs blocked = Some (Some (history_dict ctx vs blocked))"
  by (simp add: history_save_def store_write_def history_fits)

section \<open>Calls on a valid history\<close>

abbreviation history_file :: "view_context \<Rightarrow> state_view list \<Rightarrow> bool \<Rightarrow> store" where
  "history_file ctx vs blocked \<equiv> Some (history_dict ctx vs blocked)"

lemma history_fork_of:
  "valid_context ctx \<Longrightarrow> valid_history verify ctx vs \<Longrightarrow>
     history_fork ctx vs st = (Inl State_equivocation, history_file ctx vs True)"
  by (simp add: history_fork_def history_save_of)

text \<open>Two histories agree when the roots are the same wherever both have one.\<close>

definition agree :: "state_view list \<Rightarrow> state_view list \<Rightarrow> bool" where
  "agree vs ws \<longleftrightarrow> (\<forall>n < min (length vs) (length ws). sv_root (vs ! n) = sv_root (ws ! n))"

lemma list_ex_zip_agree:
  "list_ex (\<lambda>(left, right). sv_root left \<noteq> sv_root right) (zip vs ws) \<longleftrightarrow> \<not> agree vs ws"
  by (force simp: agree_def list_ex_iff set_zip)

lemma compare_evidence_of:
  assumes "valid_context ctx" "valid_history verify ctx vs"
  shows "compare_evidence verify ctx (history_file ctx vs blocked) w =
    (if blocked then (Inl State_equivocation, history_file ctx vs True)
     else (case history_chain verify ctx w of
         Inl e \<Rightarrow> (Inl e, history_file ctx vs False)
       | Inr ws \<Rightarrow>
           if vs = [] \<or> ws = [] then (Inl Checkpoint_required, history_file ctx vs False)
           else if agree vs ws then (Inr (min (length vs) (length ws)), history_file ctx vs False)
           else (Inl State_equivocation, history_file ctx vs True)))"
  using assms
  by (simp add: compare_evidence_def history_load_saved list_ex_zip_agree history_fork_of split: sum.splits)

lemma presented_Inr:
  assumes "presented verify ctx raw_view registry raw_collection opaque_state = Inr (v, c)"
  shows "valid_view verify (vc_public ctx) v" "in_context ctx v"
    "authentic verify (vc_collection ctx) (vc_public ctx) c opaque_state"
    "cm_sequence c = sv_sequence v" "cm_root c = sv_collection_root v"
    "state_registry_root registry = Inr (sv_registry_root v)" "commitment_from_dict raw_collection = Some c"
proof -
  have "valid_view verify (vc_public ctx) v \<and> in_context ctx v
    \<and> authentic verify (vc_collection ctx) (vc_public ctx) c opaque_state
    \<and> cm_sequence c = sv_sequence v \<and> cm_root c = sv_collection_root v
    \<and> state_registry_root registry = Inr (sv_registry_root v) \<and> commitment_from_dict raw_collection = Some c"
    using assms unfolding presented_def
    by (auto simp: and_then_Inr authentic_def elim!: bind_SomeE dest: verified_view_valid
        commitment_codec.dec_valid split: if_splits)
  then show "valid_view verify (vc_public ctx) v" "in_context ctx v"
    "authentic verify (vc_collection ctx) (vc_public ctx) c opaque_state"
    "cm_sequence c = sv_sequence v" "cm_root c = sv_collection_root v"
    "state_registry_root registry = Inr (sv_registry_root v)" "commitment_from_dict raw_collection = Some c"
    by simp_all
qed

lemma valid_history_snoc:
  "valid_history verify ctx (vs @ [v]) \<longleftrightarrow> valid_history verify ctx vs \<and> length vs < VIEW_LIMIT
     \<and> valid_view verify (vc_public ctx) v \<and> in_context ctx v \<and> sv_sequence v = int (length vs) + 1
     \<and> sv_previous_root v = (if vs = [] then ZERO_ROOT else sv_root (last vs))
     \<and> sv_previous_registry v = (if vs = [] then EMPTY_REGISTRY else sv_registry_root (last vs))"
  by (auto simp: valid_history_def view_chain_snoc Suc_le_eq)

lemma observe_view_of:
  assumes "valid_context ctx" "valid_history verify ctx vs"
  shows "observe_view verify ctx (history_file ctx vs blocked) raw_view registry raw_collection opaque_state =
    (if blocked then (Inl State_equivocation, history_file ctx vs True)
     else (case presented verify ctx raw_view registry raw_collection opaque_state of
         Inl e \<Rightarrow> (Inl e, history_file ctx vs False)
       | Inr (v, c) \<Rightarrow>
           let n = nat (sv_sequence v) in
           if n \<le> length vs \<and> sv_root v \<noteq> sv_root (vs ! (n - 1)) then (Inl State_equivocation, history_file ctx vs True)
           else if n < length vs then (Inl Rollback_rejected, history_file ctx vs False)
           else if n = length vs then (Inr False, history_file ctx vs False)
           else if length vs = VIEW_LIMIT then (Inl History_limit, history_file ctx vs False)
           else if view_sequel vs v c then (Inr True, history_file ctx (vs @ [v]) False)
           else (Inl State_view_rejected, history_file ctx vs False)))"
proof (cases "presented verify ctx raw_view registry raw_collection opaque_state")
  case (Inr p)
  obtain v c where p: "p = (v, c)" by (cases p)
  note pr = presented_Inr [OF Inr [unfolded p]]
  have extended: "valid_history verify ctx (vs @ [v])" if "view_sequel vs v c" "length vs \<noteq> VIEW_LIMIT"
    using that pr(1,2) assms(2) le_neq_implies_less [of "length vs" VIEW_LIMIT]
    by (simp add: valid_history_snoc view_sequel_def) (simp add: valid_history_def)
  then show ?thesis
    using assms Inr p by (simp add: observe_view_def history_load_saved history_fork_of history_save_of [OF _ extended] Let_def)
qed (use assms in \<open>simp add: observe_view_def history_load_saved\<close>)

text \<open>Only a fork is answered with ATLAS_STATE_EQUIVOCATION.\<close>

lemma history_chain_error: "history_chain verify ctx w \<noteq> Inl State_equivocation"
  by (auto simp: history_chain_def or_error_def split: option.split)

lemma registry_rows_error: "registry_rows es m = Inl e \<Longrightarrow> e = Registry_substitution \<or> e = State_view_rejected"
  by (induction es arbitrary: m) (auto simp: and_then_def or_error_def split: option.splits sum.splits if_splits)

lemma presented_error: "presented verify ctx raw_view registry raw_collection opaque_state \<noteq> Inl State_equivocation"
  by (auto simp: presented_def and_then_def or_error_def state_registry_root_def split: option.splits sum.splits
      dest: registry_rows_error)

end
