(* ===== verification/StateViewProperties.thy ===== *)
theory StateViewProperties
  imports StateHistory
begin

text \<open>
  The properties of the history of authenticated views over runs of calls: what it holds, that a
  fork blocks it for good, what the comparison of two histories shows, and that the commitments it
  admits are ones a rollback tracker accepts.
\<close>

section \<open>Runs\<close>

datatype history_call = Observe json json json string | Compare json | Export | Initialize

datatype history_answer = Observed bool | Compared nat | Exported "state_view list" | Initialized

fun history_step :: "verifier \<Rightarrow> view_context \<Rightarrow> store \<Rightarrow> history_call \<Rightarrow> (view_error + history_answer) \<times> store" where
  "history_step verify ctx st (Observe raw_view registry raw_collection opaque_state) =
     map_prod (map_sum id Observed) id (observe_view verify ctx st raw_view registry raw_collection opaque_state)"
| "history_step verify ctx st (Compare peer) = map_prod (map_sum id Compared) id (compare_evidence verify ctx st peer)"
| "history_step verify ctx st Export = (map_sum id Exported (export_evidence verify ctx st), st)"
| "history_step verify ctx st Initialize = (case history_initialize ctx st of
     None \<Rightarrow> (Inl State_view_rejected, st) | Some st' \<Rightarrow> (Inr Initialized, st'))"

text \<open>What a call adds to the log when it is answered with \<open>Observed True\<close>.\<close>

type_synonym observation = "state_view \<times> commitment \<times> string"

fun observation_of :: "verifier \<Rightarrow> view_context \<Rightarrow> history_call \<Rightarrow> observation list" where
  "observation_of verify ctx (Observe raw_view registry raw_collection opaque_state) =
     (case presented verify ctx raw_view registry raw_collection opaque_state of
        Inl _ \<Rightarrow> [] | Inr (v, c) \<Rightarrow> [(v, c, opaque_state)])"
| "observation_of verify ctx _ = []"

inductive history_run :: "verifier \<Rightarrow> view_context \<Rightarrow> store \<Rightarrow> observation list \<Rightarrow> bool" for verify ctx where
  run_start: "history_initialize ctx st = Some st' \<Longrightarrow> history_run verify ctx st' []"
| run_step: "history_run verify ctx st log \<Longrightarrow> history_step verify ctx st call = (r, st') \<Longrightarrow>
     history_run verify ctx st' (if r = Inr (Observed True) then log @ observation_of verify ctx call else log)"

abbreviation log_views :: "observation list \<Rightarrow> state_view list" where
  "log_views log \<equiv> map fst log"

abbreviation log_commitments :: "observation list \<Rightarrow> (commitment \<times> string) list" where
  "log_commitments log \<equiv> map snd log"

definition history_holds :: "verifier \<Rightarrow> view_context \<Rightarrow> store \<Rightarrow> observation list \<Rightarrow> bool \<Rightarrow> bool" where
  "history_holds verify ctx st log blocked \<longleftrightarrow> st = history_file ctx (log_views log) blocked
     \<and> valid_history verify ctx (log_views log) \<and> commitment_chain ZERO_ROOT 0 (map fst (log_commitments log))
     \<and> (\<forall>(v, c, opaque_state) \<in> set log. cm_root c = sv_collection_root v
         \<and> authentic verify (vc_collection ctx) (vc_public ctx) c opaque_state)"

lemma export_step:
  "valid_history verify ctx vs \<Longrightarrow>
     history_step verify ctx (history_file ctx vs blocked) Export = (Inr (Exported vs), history_file ctx vs blocked)"
  by (simp add: export_evidence_def history_load_saved)

lemma initialize_step:
  "history_step verify ctx (history_file ctx vs blocked) Initialize = (Inl State_view_rejected, history_file ctx vs blocked)"
  by (simp add: history_initialize_def)

lemma observe_step:
  assumes ctx: "valid_context ctx" and h: "history_holds verify ctx st log blocked"
    and o: "observe_view verify ctx st raw_view registry raw_collection opaque_state = (r, st')"
    and p: "presented verify ctx raw_view registry raw_collection opaque_state = Inr (v, c)"
    and r: "r = Inr True"
  shows "history_holds verify ctx st' (log @ [(v, c, opaque_state)]) False"
proof -
  let ?vs = "log_views log"
  have vs: "valid_history verify ctx ?vs" "st = history_file ctx ?vs blocked"
    using h by (simp_all add: history_holds_def)
  have s: "view_sequel ?vs v c" "length ?vs \<noteq> VIEW_LIMIT" "st' = history_file ctx (?vs @ [v]) False"
    using o r unfolding vs(2) observe_view_of [OF ctx vs(1)] by (auto simp: p Let_def split: if_splits)
  note pr = presented_Inr [OF p]
  have "length ?vs \<le> VIEW_LIMIT" using vs(1) by (simp add: valid_history_def)
  then have "valid_history verify ctx (?vs @ [v])"
    using s(1,2) pr(1,2) vs(1) by (simp add: valid_history_snoc view_sequel_def)
  moreover have "log = [] \<or> cm_root (fst (snd (last log))) = sv_collection_root (fst (last log))"
    using h last_in_set [of log] by (cases "last log") (fastforce simp: history_holds_def)
  then have "commitment_chain ZERO_ROOT 0 (map fst (log_commitments log) @ [c])"
    using h s(1) pr(4) by (auto simp: history_holds_def commitment_chain_snoc view_sequel_def last_map)
  ultimately show ?thesis
    using h s(3) pr(3,5) by (auto simp: history_holds_def)
qed

lemma step_other:
  assumes "valid_context ctx" and "history_holds verify ctx st log blocked"
    and "history_step verify ctx st call = (r, st')" and "r \<noteq> Inr (Observed True)"
  shows "history_holds verify ctx st' log (blocked \<or> r = Inl State_equivocation)"
proof -
  have vs: "valid_history verify ctx (log_views log)" "st = history_file ctx (log_views log) blocked"
    using assms(2) by (simp_all add: history_holds_def)
  have "st' = history_file ctx (log_views log) (blocked \<or> r = Inl State_equivocation)"
  proof (cases call)
    case (Observe a b c d)
    then show ?thesis
      using assms(3,4) presented_error [of verify ctx a b c d]
      unfolding vs(2) by (auto simp: observe_view_of [OF assms(1) vs(1)] Let_def split: if_splits sum.splits prod.splits)
  next
    case (Compare w)
    then show ?thesis
      using assms(3,4) history_chain_error [of verify ctx w]
      unfolding vs(2) by (auto simp: compare_evidence_of [OF assms(1) vs(1)] split: if_splits sum.splits)
  next
    case Export
    then show ?thesis using assms(3) unfolding vs(2) by (auto simp: export_step [OF vs(1)] simp del: history_step.simps)
  next
    case Initialize
    then show ?thesis using assms(3) unfolding vs(2) by (auto simp: initialize_step simp del: history_step.simps)
  qed
  then show ?thesis using assms(2) by (simp add: history_holds_def)
qed

lemma map_sum_eq [simp]:
  "map_sum id f r = Inr y \<longleftrightarrow> (\<exists>x. r = Inr x \<and> y = f x)" "map_sum id f r = Inl e \<longleftrightarrow> r = Inl e"
  by (cases r; auto)+

lemma observed_presented:
  assumes "valid_context ctx" and "history_holds verify ctx st log blocked"
    and "history_step verify ctx st call = (Inr (Observed True), st')"
  obtains a b c d v cm where "call = Observe a b c d" "presented verify ctx a b c d = Inr (v, cm)"
    "observe_view verify ctx st a b c d = (Inr True, st')"
proof (cases call)
  case (Observe a b c d)
  have vs: "valid_history verify ctx (log_views log)" "st = history_file ctx (log_views log) blocked"
    using assms(2) by (simp_all add: history_holds_def)
  have o: "observe_view verify ctx st a b c d = (Inr True, st')"
    using assms(3) Observe by (auto simp: map_prod_def split: prod.splits)
  moreover have "\<exists>v cm. presented verify ctx a b c d = Inr (v, cm)"
    using o unfolding vs(2) observe_view_of [OF assms(1) vs(1)] by (auto split: if_splits sum.splits)
  ultimately show ?thesis using Observe that by blast
qed (use assms(3) in \<open>auto simp: map_prod_def split: prod.splits option.splits\<close>)

lemma history_step_holds:
  assumes "valid_context ctx" and "history_holds verify ctx st log blocked"
    and "history_step verify ctx st call = (r, st')"
  shows "\<exists>blocked'. history_holds verify ctx st' (if r = Inr (Observed True) then log @ observation_of verify ctx call else log) blocked'"
proof (cases "r = Inr (Observed True)")
  case True
  with assms obtain a b c d v cm where "call = Observe a b c d" "presented verify ctx a b c d = Inr (v, cm)"
    "observe_view verify ctx st a b c d = (Inr True, st')" by (auto elim: observed_presented)
  with True observe_step [OF assms(1,2)] show ?thesis by (intro exI [of _ False]) simp
next
  case False
  with step_other [OF assms False] show ?thesis by auto
qed

lemma history_run_holds:
  assumes "valid_context ctx" and "history_run verify ctx st log"
  shows "\<exists>blocked. history_holds verify ctx st log blocked"
  using assms(2)
proof (induction rule: history_run.induct)
  case (run_start st st')
  have "valid_history verify ctx []" by (simp add: valid_history_def)
  with run_start history_save_of [OF assms(1)] show ?case
    by (intro exI [of _ False]) (auto simp: history_holds_def history_initialize_def)
next
  case (run_step st log call r st')
  then show ?case using history_step_holds [OF assms(1)] by blast
qed

section \<open>A concrete run\<close>

definition sample_context :: view_context where
  "sample_context = \<lparr>vc_account = ''o'', vc_vault = ''v'', vc_collection = ''a'', vc_key_epoch = 1, vc_public = sample_public\<rparr>"

definition sample_device_id :: string where
  "sample_device_id = replicate 64 (CHR ''1'')"

definition sample_state_registry :: json where
  "sample_state_registry = JList [JObj [(''device_id'', JStr sample_device_id), (''descriptor_sha256'', JStr ZERO_ROOT)]]"

definition sample_registry_root :: string where
  "sample_registry_root = sha256_hex (registry_transcript (fmupd sample_device_id ZERO_ROOT fmempty))"

definition sample_unsigned :: unsigned_view where
  "sample_unsigned = \<lparr>sv_account = ''o'', sv_vault = ''v'', sv_sequence = 1, sv_previous_root = ZERO_ROOT,
     sv_collection_root = cm_root sample_commitment, sv_registry_root = sample_registry_root,
     sv_previous_registry = EMPTY_REGISTRY, sv_key_epoch = 1\<rparr>"

definition sample_view :: state_view where
  "sample_view = unsigned_view.extend sample_unsigned
     (state_view.fields (view_root sample_unsigned) (b64encode sample_signature))"

definition sample_observe :: history_call where
  "sample_observe = Observe (view_to_dict sample_view) sample_state_registry (commitment_to_dict sample_commitment) sample_state"

lemma sample_context_valid [simp]: "valid_context sample_context"
  by (simp add: valid_context_def sample_context_def sample_public_def is_identifier_def identifier_char_def
      byte_val_def MAX_COMMITMENT_SEQUENCE_def)

lemma sample_root_hex [simp]: "match_sha256 (cm_root sample_commitment)" "match_sha256 EMPTY_REGISTRY"
  "match_sha256 sample_registry_root" "match_sha256 sample_device_id"
proof -
  show "match_sha256 sample_device_id"
    by (simp add: sample_device_id_def match_sha256_def is_hex_def byte_val_def list_all_iff)
qed (simp_all add: sample_commitment_def Let_def EMPTY_REGISTRY_def sample_registry_root_def)

lemma sample_view_fields [simp]:
  "sv_account sample_view = ''o''" "sv_vault sample_view = ''v''" "sv_sequence sample_view = 1"
  "sv_previous_root sample_view = ZERO_ROOT" "sv_collection_root sample_view = cm_root sample_commitment"
  "sv_registry_root sample_view = sample_registry_root" "sv_previous_registry sample_view = EMPTY_REGISTRY"
  "sv_key_epoch sample_view = 1"
  by (simp_all add: sample_view_def sample_unsigned_def unsigned_view.defs)

lemma sample_view_valid: "valid_view sample_verify sample_public sample_view"
proof -
  have "view_root sample_view = view_root sample_unsigned" by (simp add: sample_view_def)
  moreover have "valid_unsigned sample_view"
    by (simp add: valid_unsigned_def is_identifier_def identifier_char_def byte_val_def MAX_COMMITMENT_SEQUENCE_def)
  ultimately show ?thesis
    using sample_signature_text by (simp add: valid_view_def) (simp add: sample_view_def sample_verify_def)
qed

lemma sample_registry: "state_registry_root sample_state_registry = Inr sample_registry_root"
  by (simp add: state_registry_root_def sample_state_registry_def VIEW_LIMIT_def exact_def sample_registry_root_def insert_commute)

lemma sample_presented:
  "presented sample_verify sample_context (view_to_dict sample_view) sample_state_registry
     (commitment_to_dict sample_commitment) sample_state = Inr (sample_view, sample_commitment)"
proof -
  have v: "verified_view sample_verify sample_public (view_to_dict sample_view) = Some sample_view"
    by (rule verified_view_of [OF sample_view_valid])
  have c: "commitment_from_dict (commitment_to_dict sample_commitment) = Some sample_commitment"
    by (rule commitment_from_to) (use sample_commitment_authentic in \<open>simp add: authentic_def\<close>)
  have f: "cm_collection sample_commitment = ''a''" "cm_sequence sample_commitment = 1"
    "cm_state_sha256 sample_commitment = sha256_hex sample_state" "cm_signature_b64 sample_commitment = b64encode sample_signature"
    by (simp_all add: sample_commitment_def Let_def)
  have i: "in_context sample_context sample_view" "vc_public sample_context = sample_public"
    "vc_collection sample_context = ''a''" by (simp_all add: in_context_def sample_context_def)
  show ?thesis
    by (simp add: presented_def v c f sample_registry sample_state_digest i sample_verify_def)
qed

lemma sample_started: "history_run sample_verify sample_context (history_file sample_context [] False) []"
  by (rule run_start [of sample_context None])
    (simp add: history_initialize_def history_save_of [of _ sample_verify] valid_history_def)

lemma sample_observed:
  "history_step sample_verify sample_context (history_file sample_context [] False) sample_observe
    = (Inr (Observed True), history_file sample_context [sample_view] False)"
proof -
  have "cm_previous sample_commitment = ZERO_ROOT" by (simp add: sample_commitment_def Let_def)
  then show ?thesis
    using observe_view_of [of sample_context sample_verify "[]" False] sample_presented
    by (simp add: sample_observe_def valid_history_def view_sequel_def VIEW_LIMIT_def)
qed

lemma sample_history:
  "history_run sample_verify sample_context (history_file sample_context [sample_view] False)
     [(sample_view, sample_commitment, sample_state)]"
  using run_step [OF sample_started sample_observed] sample_presented by (simp add: sample_observe_def)

section \<open>Transcripts\<close>

definition view_fields :: "'a unsigned_view_scheme \<Rightarrow> string list" where
  "view_fields u = [sv_account u, sv_vault u, int_str (sv_sequence u), sv_previous_root u, sv_collection_root u,
     sv_registry_root u, sv_previous_registry u, int_str (sv_key_epoch u)]"

lemma view_transcript_lines:
  "view_transcript u = ''atlasvault-authenticated-state-view-v2'' @ newline @ text_lines (view_fields u)"
  by (simp add: view_transcript_def text_lines_def view_fields_def)

lemma view_fields_no_newline: "valid_unsigned u \<Longrightarrow> list_all (\<lambda>f. CHR 0x0A \<notin> set f) (view_fields u)"
  by (simp add: view_fields_def valid_unsigned_def no_newline)

lemma transcript_determines_view:
  assumes "valid_unsigned u" "valid_unsigned w" "view_transcript u = view_transcript w"
  shows "unsigned_view.truncate u = unsigned_view.truncate w"
proof -
  have "text_lines (view_fields u) = text_lines (view_fields w)"
    using assms(3) by (simp add: view_transcript_lines)
  then have "view_fields u = view_fields w"
    by (rule text_lines_inject) (simp add: view_fields_no_newline assms(1,2))
  then show ?thesis by (simp add: view_fields_def unsigned_view.defs int_str_inject_all)
qed

section \<open>Properties\<close>

text \<open>C29: whatever views, registries, states and peers' evidence are presented, in any order, the file
  of a history holds exactly the views that were accepted: a chain from sequence number 1 of views
  that are signed and of this account, vault and epoch, never more than 256; and the commitments
  they were accepted with are a chain of their own, each signed, over the state it was presented
  with, and with the root that its view names.\<close>

theorem accepted_views_chain:
  assumes "valid_context ctx" and "history_run verify ctx st log"
  shows "(\<exists>blocked. st = history_file ctx (log_views log) blocked)
    \<and> view_chain verify ctx 0 ZERO_ROOT EMPTY_REGISTRY (log_views log) \<and> length log \<le> 256
    \<and> commitment_chain ZERO_ROOT 0 (map fst (log_commitments log))
    \<and> (\<forall>(v, c, opaque_state) \<in> set log. cm_root c = sv_collection_root v
         \<and> authentic verify (vc_collection ctx) (vc_public ctx) c opaque_state)"
  using history_run_holds [OF assms] by (auto simp: history_holds_def valid_history_def VIEW_LIMIT_def)

theorem accepted_views_chain_witness:
  "view_chain sample_verify sample_context 0 ZERO_ROOT EMPTY_REGISTRY [sample_view]"
  using accepted_views_chain [OF sample_context_valid sample_history] by simp

lemma run_valid:
  assumes "valid_context ctx" "history_run verify ctx st log"
  shows "valid_history verify ctx (log_views log)"
  using history_run_holds [OF assms] by (auto simp: history_holds_def)

text \<open>The answers of a blocked history.\<close>

fun blocked_answer :: "state_view list \<Rightarrow> history_call \<Rightarrow> view_error + history_answer" where
  "blocked_answer vs Export = Inr (Exported vs)"
| "blocked_answer vs Initialize = Inl State_view_rejected"
| "blocked_answer vs _ = Inl State_equivocation"

lemma blocked_step:
  assumes "valid_context ctx" "valid_history verify ctx vs"
  shows "history_step verify ctx (history_file ctx vs True) call = (blocked_answer vs call, history_file ctx vs True)"
proof (cases call)
  case Export
  then show ?thesis using export_step [OF assms(2)] by simp
next
  case Initialize
  then show ?thesis using initialize_step [of verify ctx vs True] by simp
qed (simp_all add: observe_view_of [OF assms] compare_evidence_of [OF assms])

lemma blocked_run:
  assumes "valid_context ctx" "valid_history verify ctx vs"
  shows "foldl (\<lambda>s k. snd (history_step verify ctx s k)) (history_file ctx vs True) calls = history_file ctx vs True"
  by (induction calls) (simp_all add: blocked_step [OF assms])

text \<open>C30: comparing the histories of two clients gives the same verdict on both sides, and the verdict is
  right: without a view on one side there is nothing to compare; if the roots agree as far as both
  histories go, the answer is that length and the file is unchanged; otherwise the answer is
  ATLAS_STATE_EQUIVOCATION and the history is blocked.  A blocked history stays so: however many calls
  come before, no call changes the file, every observation and every comparison is answered with
  ATLAS_STATE_EQUIVOCATION, whatever it presents, and the evidence that is exported is still the
  views that were held when the fork was found.\<close>

theorem comparison_verdict:
  assumes "valid_context ctx" and "history_run verify ctx (history_file ctx vs False) log"
    and "history_run verify ctx (history_file ctx ws False) peer_log"
    and "vs = log_views log" and "ws = log_views peer_log"
  shows "compare_evidence verify ctx (history_file ctx vs False) (evidence ws) =
      (if vs = [] \<or> ws = [] then (Inl Checkpoint_required, history_file ctx vs False)
       else if agree vs ws then (Inr (min (length vs) (length ws)), history_file ctx vs False)
       else (Inl State_equivocation, history_file ctx vs True))
    \<and> fst (compare_evidence verify ctx (history_file ctx ws False) (evidence vs))
      = fst (compare_evidence verify ctx (history_file ctx vs False) (evidence ws))
    \<and> (\<forall>calls next_call. history_step verify ctx
         (foldl (\<lambda>s k. snd (history_step verify ctx s k)) (history_file ctx vs True) calls) next_call
         = (blocked_answer vs next_call, history_file ctx vs True))"
proof -
  have v: "valid_history verify ctx vs" "valid_history verify ctx ws"
    using run_valid [OF assms(1,2)] run_valid [OF assms(1,3)] assms(4,5) by simp_all
  have sym: "agree ws vs \<longleftrightarrow> agree vs ws" by (auto simp: agree_def)
  have left: "compare_evidence verify ctx (history_file ctx xs False) (evidence ys) =
      (if xs = [] \<or> ys = [] then (Inl Checkpoint_required, history_file ctx xs False)
       else if agree xs ys then (Inr (min (length xs) (length ys)), history_file ctx xs False)
       else (Inl State_equivocation, history_file ctx xs True))"
    if "valid_history verify ctx xs" "valid_history verify ctx ys" for xs ys
    by (simp only: compare_evidence_of [OF assms(1) that(1)] history_chain_of [OF that(2)] sum.case if_False)
  have "fst (compare_evidence verify ctx (history_file ctx ws False) (evidence vs))
      = fst (compare_evidence verify ctx (history_file ctx vs False) (evidence ws))"
    unfolding left [OF v] left [OF v(2) v(1)] sym by (simp add: min.commute)
  moreover have "history_step verify ctx
         (foldl (\<lambda>s k. snd (history_step verify ctx s k)) (history_file ctx vs True) calls) next_call
         = (blocked_answer vs next_call, history_file ctx vs True)" for calls next_call
    unfolding blocked_run [OF assms(1) v(1)] by (rule blocked_step [OF assms(1) v(1)])
  ultimately show ?thesis using left [OF v] by blast
qed

theorem comparison_verdict_witness:
  "compare_evidence sample_verify sample_context (history_file sample_context [sample_view] False) (evidence [sample_view])
    = (Inr 1, history_file sample_context [sample_view] False)
   \<and> history_step sample_verify sample_context (history_file sample_context [sample_view] True) sample_observe
    = (Inl State_equivocation, history_file sample_context [sample_view] True)
   \<and> history_step sample_verify sample_context (history_file sample_context [sample_view] True) Export
    = (Inr (Exported [sample_view]), history_file sample_context [sample_view] True)"
proof -
  have e: "[sample_view] = log_views [(sample_view, sample_commitment, sample_state)]" by simp
  note v = comparison_verdict [OF sample_context_valid sample_history sample_history e e]
  note later = spec [OF spec [OF conjunct2 [OF conjunct2 [OF v]], of "[]"]]
  have a: "agree [sample_view] [sample_view]" "[sample_view] \<noteq> []" by (simp_all add: agree_def)
  show ?thesis
    using conjunct1 [OF v] later [of sample_observe] later [of Export]
    unfolding sample_observe_def foldl.simps blocked_answer.simps by (simp only: a if_True if_False simp_thms) simp
qed

text \<open>Two histories that pass a comparison as far as n views hold the same first n views, up to
  their signatures, unless two different texts with the same SHA-256 digest are at hand.\<close>

theorem agreement_or_collision:
  assumes "valid_context ctx" and "history_run verify ctx (history_file ctx vs False) log" and "vs = log_views log"
    and "fst (compare_evidence verify ctx (history_file ctx vs False) peer) = Inr n"
  shows "\<exists>ws. history_chain verify ctx peer = Inr ws \<and> n = min (length vs) (length ws) \<and> 0 < n
    \<and> ((\<forall>i \<in> {..<n}. unsigned_view.truncate (vs ! i) = unsigned_view.truncate (ws ! i))
       \<or> (\<exists>i \<in> {..<n}. view_transcript (vs ! i) \<noteq> view_transcript (ws ! i)
            \<and> sha256_hex (view_transcript (vs ! i)) = sha256_hex (view_transcript (ws ! i))))"
proof -
  have v: "valid_history verify ctx vs" using run_valid [OF assms(1,2)] assms(3) by simp
  obtain ws where ws: "history_chain verify ctx peer = Inr ws" "n = min (length vs) (length ws)" "0 < n" "agree vs ws"
    using assms(4) by (auto simp: compare_evidence_of [OF assms(1) v] split: sum.splits if_splits)
  have w: "valid_history verify ctx ws" by (rule history_chain_valid [OF ws(1)])
  have "valid_view verify (vc_public ctx) (vs ! i) \<and> valid_view verify (vc_public ctx) (ws ! i)" if "i < n" for i
    using that ws(2) view_chain_nth v w by (fastforce simp: valid_history_def)
  then have "unsigned_view.truncate (vs ! i) = unsigned_view.truncate (ws ! i)
      \<or> view_transcript (vs ! i) \<noteq> view_transcript (ws ! i)
        \<and> sha256_hex (view_transcript (vs ! i)) = sha256_hex (view_transcript (ws ! i))" if "i < n" for i
    using that ws(2,4) transcript_determines_view [of "vs ! i" "ws ! i"]
    by (auto simp: agree_def valid_view_def view_root_def)
  then show ?thesis using ws by (intro exI [of _ ws]) blast
qed

theorem agreement_or_collision_witness:
  "\<exists>ws. history_chain sample_verify sample_context (evidence [sample_view]) = Inr ws \<and> 1 \<le> length ws"
proof -
  have v: "valid_history sample_verify sample_context [sample_view]"
    using run_valid [OF sample_context_valid sample_history] by simp
  have "fst (compare_evidence sample_verify sample_context (history_file sample_context [sample_view] False)
      (evidence [sample_view])) = Inr 1"
    by (simp add: compare_evidence_of [OF sample_context_valid v] history_chain_of [OF v] agree_def)
  from agreement_or_collision [OF sample_context_valid sample_history [unfolded] _ this] show ?thesis by auto
qed

lemma tracker_follows_chain:
  assumes "is_identifier coll" "length public = 32"
  shows "commitment_chain ZERO_ROOT 0 (map fst cs) \<Longrightarrow>
    list_all (\<lambda>(c, opaque_state). authentic verify coll public c opaque_state) cs \<Longrightarrow>
    tracker_reachable verify coll public (Some (anchor coll public (int (length cs)) (last_root cs))) cs"
proof (induction cs rule: rev_induct)
  case Nil
  have "tracker_initialize coll public None = Some (Some (anchor coll public 0 ZERO_ROOT))"
    using anchor_fits [OF assms zero_root_hex, of 0] by (simp add: tracker_initialize_def store_write_def int_str_def)
  then show ?case by (simp add: last_root_def tracker_start)
next
  case (snoc p cs)
  obtain c opaque_state where p: "p = (c, opaque_state)" by (cases p)
  let ?n = "int (length cs)" and ?root = "last_root cs"
  have IH: "tracker_reachable verify coll public (Some (anchor coll public ?n ?root)) cs"
    using snoc by (simp add: commitment_chain_snoc p)
  have a: "authentic verify coll public c opaque_state" "cm_sequence c = ?n + 1" "cm_previous c = ?root"
    using snoc.prems by (auto simp: p commitment_chain_snoc last_root_def last_map)
  then have v: "valid_commitment c" by (simp add: authentic_def)
  have l: "tracker_load coll public (Some (anchor coll public ?n ?root)) = Some (?n, ?root)"
    by (rule tracker_load_anchor) (use v a(2,3) in \<open>auto simp: valid_commitment_def\<close>)
  have "length (int_str (?n + 1)) \<le> 19"
    by (rule sequence_width) (use v a(2) in \<open>simp_all add: valid_commitment_def\<close>)
  then have "write_fits (anchor coll public (?n + 1) (cm_root c))"
    by (intro anchor_fits assms) (use v in \<open>simp_all add: valid_commitment_def\<close>)
  then have "tracker_accept verify coll public (Some (anchor coll public ?n ?root)) (commitment_to_dict c) opaque_state
      = Some (True, Some (anchor coll public (?n + 1) (cm_root c)))"
    unfolding tracker_accept_eq [OF l] using a by (simp add: commitment_from_to [OF v] store_write_def)
  from tracker_new [OF IH commitment_from_to [OF v] this] show ?case
    by (simp add: p last_root_def add.commute)
qed

text \<open>C31: a history is at least as strict as a rollback tracker: a tracker of the same collection and
  signer that is served the commitments a history accepted, in their order, accepts every one of
  them and ends with the last as its anchor.\<close>

theorem tracker_follows_history:
  assumes "valid_context ctx" and "history_run verify ctx st log"
  shows "tracker_reachable verify (vc_collection ctx) (vc_public ctx)
    (Some (anchor (vc_collection ctx) (vc_public ctx) (int (length log)) (last_root (log_commitments log))))
    (log_commitments log)"
proof -
  obtain blocked where "history_holds verify ctx st log blocked"
    using history_run_holds [OF assms] by blast
  then have "commitment_chain ZERO_ROOT 0 (map fst (log_commitments log))"
    "list_all (\<lambda>(c, opaque_state). authentic verify (vc_collection ctx) (vc_public ctx) c opaque_state) (log_commitments log)"
    by (auto simp: history_holds_def list_all_iff)
  from tracker_follows_chain [OF _ _ this] show ?thesis using assms(1) by (simp add: valid_context_def)
qed

theorem tracker_follows_history_witness:
  "tracker_reachable sample_verify ''a'' sample_public (Some (anchor ''a'' sample_public 1 (cm_root sample_commitment)))
     [(sample_commitment, sample_state)]"
  using tracker_follows_history [OF sample_context_valid sample_history] by (simp add: sample_context_def last_root_def)

text \<open>The honest signer gets through: a view and a commitment that sign_state_view and
  SignedStateCommitment.sign make for the next sequence number, on top of the last ones, over the
  registry and the state that are presented, are accepted, and the view becomes the last of the
  history.\<close>

theorem honest_view_observed:
  assumes "valid_context ctx" and "history_run verify ctx (history_file ctx vs False) log" and "vs = log_views log"
    and "length vs < 256" and "\<And>m. verify (vc_public ctx) (sign m) m"
    and "sign_state_view verify (vc_public ctx) sign unsigned_v = Some v"
    and "commitment_sign sign opaque_state (vc_collection ctx) (sv_sequence v) (cm_previous c) = Some c"
    and "in_context ctx v" and "view_sequel vs v c" and "sv_collection_root v = cm_root c"
    and "state_registry_root registry = Inr (sv_registry_root v)"
  shows "observe_view verify ctx (history_file ctx vs False) (view_to_dict v) registry (commitment_to_dict c) opaque_state
    = (Inr True, history_file ctx (vs @ [v]) False)"
proof -
  have vs: "valid_history verify ctx vs" using run_valid [OF assms(1,2)] assms(3) by simp
  have v: "verified_view verify (vc_public ctx) (view_to_dict v) = Some v"
    using assms(6) by (auto simp: sign_state_view_def Let_def elim!: bind_SomeE intro!: view_codec.revalidate)
  obtain dig where dig: "state_digest opaque_state = Some dig"
    using assms(7) by (auto simp: commitment_sign_def elim!: bind_SomeE)
  have c: "commitment_from_dict (commitment_to_dict c) = Some c"
    using assms(7) by (auto simp: commitment_sign_def Let_def elim!: bind_SomeE intro!: commitment_codec.revalidate)
  define root where "root = commitment_root (vc_collection ctx) (sv_sequence v) (cm_previous c) dig"
  define d where "d = \<lparr>cm_collection = vc_collection ctx, cm_sequence = sv_sequence v, cm_previous = cm_previous c,
    cm_state_sha256 = dig, cm_root = root, cm_signature_b64 = b64encode (sign (signed_message root))\<rparr>"
  have "commitment_from_dict (commitment_to_dict d) = Some c"
    using assms(7) dig by (auto simp: commitment_sign_def d_def root_def Let_def elim!: bind_SomeE split: if_splits)
  then have "c = d"
    by (auto simp: commitment_from_dict_def commitment_to_dict_def d_def elim!: bind_SomeE split: if_splits)
  then have f: "cm_collection c = vc_collection ctx" "cm_sequence c = sv_sequence v" "cm_state_sha256 c = dig"
    "cm_signature_b64 c = b64encode (sign (signed_message (cm_root c)))"
    unfolding d_def by (metis commitment.select_convs)+
  have "presented verify ctx (view_to_dict v) registry (commitment_to_dict c) opaque_state = Inr (v, c)"
    by (simp add: presented_def v c f dig assms(5,8,10,11))
  moreover have "nat (sv_sequence v) = Suc (length vs)" using assms(9) by (simp add: view_sequel_def)
  ultimately show ?thesis
    using assms(4,9) by (simp add: observe_view_of [OF assms(1) vs] VIEW_LIMIT_def)
qed

theorem honest_view_observed_witness:
  "observe_view sample_verify sample_context (history_file sample_context [] False) (view_to_dict sample_view)
     sample_state_registry (commitment_to_dict sample_commitment) sample_state
   = (Inr True, history_file sample_context [sample_view] False)"
proof -
  have k: "vc_public sample_context = sample_public" "vc_collection sample_context = ''a''"
    by (simp_all add: sample_context_def)
  obtain obj where o: "view_to_dict sample_view = JObj obj" by (simp add: view_to_dict_def)
  have u: "unsigned_from_dict (JObj (without_signature obj)) = Some sample_unsigned"
    using unsigned_from_view [OF _ o] sample_view_valid by (simp add: valid_view_def sample_view_def unsigned_view.defs)
  have s: "sign_state_view sample_verify sample_public (\<lambda>m. sample_signature) (JObj (without_signature obj)) = Some sample_view"
    using verified_view_of [OF sample_view_valid] by (simp add: sign_state_view_def u Let_def sample_view_def)
  have "commitment_from_dict (commitment_to_dict sample_commitment) = Some sample_commitment"
    by (rule commitment_from_to) (use sample_commitment_authentic in \<open>simp add: authentic_def\<close>)
  then have c: "commitment_sign (\<lambda>m. sample_signature) sample_state ''a'' 1 ZERO_ROOT = Some sample_commitment"
    by (simp add: commitment_sign_def sample_state_digest sample_commitment_def Let_def MAX_COMMITMENT_SEQUENCE_def)
  have p: "cm_previous sample_commitment = ZERO_ROOT" by (simp add: sample_commitment_def Let_def)
  show ?thesis
    using honest_view_observed [OF sample_context_valid sample_started, of "\<lambda>m. sample_signature" _ sample_view
        sample_state sample_commitment sample_state_registry] s c p sample_registry
    by (simp add: k sample_verify_def in_context_def sample_context_def view_sequel_def)
qed

end
