(* ===== verification/Revocation.thy ===== *)
theory Revocation
  imports Devices StateViewProperties
begin

text \<open>
  Removal of a device (\<open>vaultsync/revocation.py\<close>): the registry of devices, signed removals, the
  rotation plan that follows one, and the store that keeps at most one removal.

  \<open>_boundary\<close> turns every exception into the code ATLAS_REVOCATION_REJECTED, except a
  \<open>RevocationError\<close>, which keeps its own; so a check that raises anything else is \<open>None\<close>, and a
  function that can raise another code returns \<open>revocation_error + 'a\<close>.  \<open>verify\<close> takes a public
  key, a signature and a message.
\<close>

section \<open>Fields\<close>

datatype revocation_error = Revocation_rejected | Removal_authority | Rotation_plan_rejected
  | Removal_pending | Revocation_conflict | Removal_authorization

definition identifier_field :: "json \<Rightarrow> string option" where
  "identifier_field v = do { t \<leftarrow> str_value v; require (match_identifier t); Some t }"

fun number_field :: "json \<Rightarrow> int option" where
  "number_field (JInt n) = (if 1 \<le> n \<and> n < 9007199254740991 then Some n else None)"
| "number_field _ = None"

definition decode_field :: "nat \<Rightarrow> json \<Rightarrow> string option" where
  "decode_field n v = do {
     t \<leftarrow> str_value v;
     require (length t = 4 * ((n + 2) div 3));
     decoded \<leftarrow> b64decode t;
     require (\<not> (length decoded \<noteq> n \<or> b64encode decoded \<noteq> t));
     Some decoded }"

section \<open>The registry\<close>

datatype device_state = Active | Revoked

record device_entry =
  de_device_id :: string
  de_signing_b64 :: string
  de_agreement_b64 :: string
  de_state :: device_state

definition device_entry_keys :: "string list" where
  "device_entry_keys = [''device_id'', ''signing_public_b64'', ''agreement_public_b64'', ''state'']"

fun state_name :: "device_state \<Rightarrow> string" where
  "state_name Active = ''ACTIVE''"
| "state_name Revoked = ''REVOKED''"

definition device_state_value :: "json \<Rightarrow> device_state option" where
  "device_state_value v = (if v = JStr ''ACTIVE'' then Some Active else if v = JStr ''REVOKED'' then Some Revoked else None)"

text \<open>The checks on one entry, but for duplicates.\<close>

definition entry_keys_of :: "device_entry \<Rightarrow> (string \<times> string) option" where
  "entry_keys_of e = do {
     signing \<leftarrow> decode_field 32 (JStr (de_signing_b64 e));
     agreement \<leftarrow> decode_field 32 (JStr (de_agreement_b64 e));
     device \<leftarrow> derive_device_id signing agreement;
     require (de_device_id e = device);
     Some (signing, agreement) }"

definition read_entry :: "json \<Rightarrow> device_entry option" where
  "read_entry v = do {
     obj \<leftarrow> mapping v;
     exact obj device_entry_keys;
     device \<leftarrow> map_of obj ''device_id'' \<bind> str_value;
     signing \<leftarrow> map_of obj ''signing_public_b64'' \<bind> str_value;
     agreement \<leftarrow> map_of obj ''agreement_public_b64'' \<bind> str_value;
     state \<leftarrow> map_of obj ''state'' \<bind> device_state_value;
     let e = \<lparr>de_device_id = device, de_signing_b64 = signing, de_agreement_b64 = agreement, de_state = state\<rparr>;
     entry_keys_of e;
     Some e }"

definition entry_dict :: "device_entry \<Rightarrow> json" where
  "entry_dict e = JObj
     [(''device_id'', JStr (de_device_id e)), (''signing_public_b64'', JStr (de_signing_b64 e)),
      (''agreement_public_b64'', JStr (de_agreement_b64 e)), (''state'', JStr (state_name (de_state e)))]"

type_synonym registry = "device_entry list"

definition registry_dict :: "registry \<Rightarrow> json" where
  "registry_dict es = JList (map entry_dict es)"

text \<open>\<open>registry_root\<close> reads the entries and computes their digest; here the two are apart, because the
  entries are used after they have been checked.\<close>

definition read_registry :: "json \<Rightarrow> registry option" where
  "read_registry v = do {
     vs \<leftarrow> json_list v;
     require (1 \<le> length vs \<and> length vs \<le> 256);
     es \<leftarrow> traverse read_entry vs;
     require (distinct (map de_device_id es));
     Some es }"

definition entry_row :: "device_entry \<Rightarrow> string" where
  "entry_row e = (case entry_keys_of e of None \<Rightarrow> [] | Some (signing, agreement) \<Rightarrow>
     de_device_id e @ '':'' @ hex_of signing @ '':'' @ hex_of agreement @ '':'' @ state_name (de_state e) @ newline)"

definition devices_transcript :: "registry \<Rightarrow> string" where
  "devices_transcript es = ''atlasvault-revocation-registry-v1'' @ newline
     @ concat (map entry_row (sort_key de_device_id es))"

definition devices_root :: "registry \<Rightarrow> string" where
  "devices_root es = sha256_hex (devices_transcript es)"

text \<open>The first entry of a device.\<close>

definition find_device :: "string \<Rightarrow> registry \<Rightarrow> device_entry option" where
  "find_device d es = find (\<lambda>e. de_device_id e = d) es"

definition active_ids :: "registry \<Rightarrow> string list" where
  "active_ids es = map de_device_id (filter (\<lambda>e. de_state e = Active) es)"

section \<open>Removals\<close>

record removal =
  rm_account :: string
  rm_vault :: string
  rm_target :: string
  rm_initiator :: string
  rm_prior_root :: string
  rm_resulting_root :: string
  rm_key_epoch :: int
  rm_sequence :: int

definition DEVICE_PRESENCE :: string where
  "DEVICE_PRESENCE = ''DEVICE_PRESENCE''"

definition removal_keys :: "string list" where
  "removal_keys = [''format'', ''version'', ''account_id'', ''vault_id'', ''target_device_id'', ''initiator_device_id'',
     ''prior_registry_root'', ''resulting_registry_root'', ''key_epoch'', ''sequence'', ''authorization_category'']"

definition signed_removal_keys :: "string list" where
  "signed_removal_keys = removal_keys @ [''root'', ''signature_b64'']"

text \<open>The checks of \<open>_root\<close>.\<close>

definition removal_from_dict :: "json \<Rightarrow> removal option" where
  "removal_from_dict v = do {
     obj \<leftarrow> mapping v;
     exact obj removal_keys;
     format_v \<leftarrow> map_of obj ''format'';
     version_v \<leftarrow> map_of obj ''version'';
     require (format_v = JStr ''atlasvault-device-revocation'' \<and> version_v = JInt 1);
     account \<leftarrow> map_of obj ''account_id'' \<bind> identifier_field;
     vault \<leftarrow> map_of obj ''vault_id'' \<bind> identifier_field;
     target \<leftarrow> map_of obj ''target_device_id'' \<bind> identifier_field;
     initiator \<leftarrow> map_of obj ''initiator_device_id'' \<bind> identifier_field;
     prior \<leftarrow> map_of obj ''prior_registry_root'' \<bind> commitment_hex;
     resulting \<leftarrow> map_of obj ''resulting_registry_root'' \<bind> commitment_hex;
     epoch \<leftarrow> map_of obj ''key_epoch'' \<bind> number_field;
     seq \<leftarrow> map_of obj ''sequence'' \<bind> number_field;
     category \<leftarrow> map_of obj ''authorization_category'' \<bind> identifier_field;
     require (category = DEVICE_PRESENCE);
     Some \<lparr>rm_account = account, rm_vault = vault, rm_target = target, rm_initiator = initiator,
       rm_prior_root = prior, rm_resulting_root = resulting, rm_key_epoch = epoch, rm_sequence = seq\<rparr> }"

definition removal_dict :: "removal \<Rightarrow> obj" where
  "removal_dict r =
     [(''format'', JStr ''atlasvault-device-revocation''), (''version'', JInt 1),
      (''account_id'', JStr (rm_account r)), (''vault_id'', JStr (rm_vault r)),
      (''target_device_id'', JStr (rm_target r)), (''initiator_device_id'', JStr (rm_initiator r)),
      (''prior_registry_root'', JStr (rm_prior_root r)), (''resulting_registry_root'', JStr (rm_resulting_root r)),
      (''key_epoch'', JInt (rm_key_epoch r)), (''sequence'', JInt (rm_sequence r)),
      (''authorization_category'', JStr DEVICE_PRESENCE)]"

definition removal_transcript :: "removal \<Rightarrow> string" where
  "removal_transcript r = ''atlasvault-device-revocation-v1'' @ newline @ text_lines
     [rm_account r, rm_vault r, rm_target r, rm_initiator r, rm_prior_root r, rm_resulting_root r,
      int_str (rm_key_epoch r), int_str (rm_sequence r), DEVICE_PRESENCE]"

definition removal_root :: "removal \<Rightarrow> string" where
  "removal_root r = sha256_hex (removal_transcript r)"

definition removal_message :: "string \<Rightarrow> string" where
  "removal_message root = ''atlasvault-revocation-signature-v1'' @ [CHR 0x00] @ from_hex root"

text \<open>\<open>_removed\<close>, on entries that were read.\<close>

definition removed :: "registry \<Rightarrow> string \<Rightarrow> string \<Rightarrow> revocation_error + registry" where
  "removed es target initiator = (let active = active_ids es in
     if target = initiator \<or> target \<notin> set active \<or> initiator \<notin> set active \<or> set active - {target} = {}
     then Inl Removal_authority
     else Inr (map (\<lambda>e. if de_device_id e = target then e\<lparr>de_state := Revoked\<rparr> else e) es))"

definition verify_transition :: "verifier \<Rightarrow> json \<Rightarrow> registry \<Rightarrow> revocation_error + registry" where
  "verify_transition verify t es =
     and_then (or_error Revocation_rejected (do {
       obj \<leftarrow> mapping t;
       exact obj signed_removal_keys;
       r \<leftarrow> removal_from_dict (JObj (without_signature obj));
       Some (obj, r) }))
     (\<lambda>(obj, r). and_then (removed es (rm_target r) (rm_initiator r))
     (\<lambda>after. or_error Revocation_rejected (do {
       root_v \<leftarrow> map_of obj ''root'';
       require (root_v = JStr (removal_root r));
       require (rm_prior_root r = devices_root es);
       require (rm_resulting_root r = devices_root after);
       signer \<leftarrow> find_device (rm_initiator r) es;
       public \<leftarrow> decode_field 32 (JStr (de_signing_b64 signer));
       signature \<leftarrow> map_of obj ''signature_b64'' \<bind> decode_field 64;
       require (verify public signature (removal_message (removal_root r)));
       Some after })))"

text \<open>\<open>verify_transition\<close> on a registry that has not been read.\<close>

definition verify_transition_json :: "verifier \<Rightarrow> json \<Rightarrow> json \<Rightarrow> revocation_error + registry" where
  "verify_transition_json verify t registry =
     and_then (or_error Revocation_rejected (read_registry registry)) (verify_transition verify t)"

section \<open>The rotation plan\<close>

definition rotation_plan :: "removal \<Rightarrow> string \<Rightarrow> registry \<Rightarrow> string \<Rightarrow> obj" where
  "rotation_plan r root after state_root =
     [(''format'', JStr ''atlasvault-rotation-plan''), (''version'', JInt 1),
      (''account_id'', JStr (rm_account r)), (''vault_id'', JStr (rm_vault r)),
      (''previous_epoch'', JInt (rm_key_epoch r)), (''new_epoch'', JInt (rm_key_epoch r + 1)),
      (''prior_registry_root'', JStr (rm_prior_root r)), (''resulting_registry_root'', JStr (rm_resulting_root r)),
      (''state_root'', JStr state_root), (''initiator_device_id'', JStr (rm_initiator r)),
      (''revocation_root'', JStr root), (''recipients'', JList (map JStr (sort (active_ids after))))]"

definition validate_rotation_plan :: "json \<Rightarrow> json \<Rightarrow> registry \<Rightarrow> json \<Rightarrow> revocation_error + unit" where
  "validate_rotation_plan plan t after state_v =
     and_then (or_error Revocation_rejected (do {
       state_root \<leftarrow> commitment_hex state_v;
       obj \<leftarrow> mapping t;
       exact obj signed_removal_keys;
       r \<leftarrow> removal_from_dict (JObj (without_signature obj));
       root_v \<leftarrow> map_of obj ''root'';
       require (root_v = JStr (removal_root r));
       map_of obj ''signature_b64'' \<bind> decode_field 64;
       require (devices_root after = rm_resulting_root r);
       p \<leftarrow> mapping plan;
       let expected = rotation_plan r (removal_root r) after state_root;
       exact p (map fst expected);
       Some (p, expected) }))
     (\<lambda>(p, expected). if list_all (\<lambda>(k, v). map_of p k = Some v) expected then Inr () else Inl Rotation_plan_rejected)"

section \<open>The store of removals\<close>

record revocation_context =
  rv_account :: string
  rv_vault :: string
  rv_key_epoch :: int
  rv_state_root :: string
  rv_registry_root :: string
  rv_initial :: registry

definition revocation_init :: "json \<Rightarrow> json \<Rightarrow> json \<Rightarrow> json \<Rightarrow> json \<Rightarrow> revocation_context option" where
  "revocation_init account_v vault_v epoch_v registry state_v = do {
     account \<leftarrow> identifier_field account_v;
     vault \<leftarrow> identifier_field vault_v;
     epoch \<leftarrow> number_field epoch_v;
     state_root \<leftarrow> commitment_hex state_v;
     es \<leftarrow> read_registry registry;
     Some \<lparr>rv_account = account, rv_vault = vault, rv_key_epoch = epoch, rv_state_root = state_root,
       rv_registry_root = devices_root es, rv_initial = es\<rparr> }"

definition revocation_context_dict :: "revocation_context \<Rightarrow> json" where
  "revocation_context_dict ctx = JObj
     [(''account_id'', JStr (rv_account ctx)), (''vault_id'', JStr (rv_vault ctx)),
      (''key_epoch'', JInt (rv_key_epoch ctx)), (''state_root'', JStr (rv_state_root ctx)),
      (''registry_root'', JStr (rv_registry_root ctx))]"

definition revocation_context_matches :: "revocation_context \<Rightarrow> json \<Rightarrow> bool" where
  "revocation_context_matches ctx v = (case mapping v of None \<Rightarrow> False | Some obj \<Rightarrow>
     exact obj [''account_id'', ''vault_id'', ''key_epoch'', ''state_root'', ''registry_root''] \<noteq> None
     \<and> map_of obj ''account_id'' = Some (JStr (rv_account ctx))
     \<and> map_of obj ''vault_id'' = Some (JStr (rv_vault ctx))
     \<and> (case map_of obj ''key_epoch'' of None \<Rightarrow> False | Some e \<Rightarrow> py_int_eq e (rv_key_epoch ctx))
     \<and> map_of obj ''state_root'' = Some (JStr (rv_state_root ctx))
     \<and> map_of obj ''registry_root'' = Some (JStr (rv_registry_root ctx)))"

definition check_context :: "revocation_context \<Rightarrow> json \<Rightarrow> unit option" where
  "check_context ctx t = do {
     obj \<leftarrow> mapping t;
     account_v \<leftarrow> map_of obj ''account_id'';
     vault_v \<leftarrow> map_of obj ''vault_id'';
     epoch_v \<leftarrow> map_of obj ''key_epoch'';
     seq_v \<leftarrow> map_of obj ''sequence'';
     require (\<not> (account_v \<noteq> JStr (rv_account ctx) \<or> vault_v \<noteq> JStr (rv_vault ctx)
       \<or> \<not> py_int_eq epoch_v (rv_key_epoch ctx) \<or> seq_v \<noteq> JInt 1)) }"

definition revocation_dict :: "json \<Rightarrow> json \<Rightarrow> bool \<Rightarrow> json" where
  "revocation_dict context_v transition_v pending = JObj
     [(''context'', context_v), (''transition'', transition_v), (''recovery_pending'', JBool pending)]"

text \<open>\<open>_read\<close>: the context as it is stored, the removal that is kept (null for none), and the flag.\<close>

definition revocation_read :: "verifier \<Rightarrow> revocation_context \<Rightarrow> store \<Rightarrow> revocation_error + (json \<times> json \<times> bool)" where
  "revocation_read verify ctx st =
     and_then (or_error Revocation_rejected (do {
       stored \<leftarrow> st;
       require (queue_file_length (length (canonical_json stored)) \<le> 1024 * 1024);
       obj \<leftarrow> mapping stored;
       exact obj [''context'', ''transition'', ''recovery_pending''];
       context_v \<leftarrow> map_of obj ''context'';
       pending \<leftarrow> map_of obj ''recovery_pending'' \<bind> json_bool;
       require (revocation_context_matches ctx context_v);
       t \<leftarrow> map_of obj ''transition'';
       (if t = JNull then Some () else check_context ctx t);
       Some (context_v, t, pending) }))
     (\<lambda>(context_v, t, pending). if t = JNull then Inr (context_v, t, pending)
        else and_then (verify_transition verify t (rv_initial ctx)) (\<lambda>_. Inr (context_v, t, pending)))"

definition revocation_initialize :: "revocation_context \<Rightarrow> store \<Rightarrow> store option" where
  "revocation_initialize ctx st = do { require (st = None); store_write (revocation_dict (revocation_context_dict ctx) JNull False) }"

datatype revocation_status = Status_active | Status_revocation_pending | Status_recovery_pending

record revocation_view =
  vw_registry :: registry
  vw_root :: string
  vw_sequence :: int
  vw_status :: revocation_status
  vw_transition :: json

definition revocation_snapshot :: "verifier \<Rightarrow> revocation_context \<Rightarrow> store \<Rightarrow> revocation_error + revocation_view" where
  "revocation_snapshot verify ctx st = and_then (revocation_read verify ctx st) (\<lambda>(_, t, pending).
     and_then (if t = JNull then Inr (rv_initial ctx) else verify_transition verify t (rv_initial ctx)) (\<lambda>es.
       Inr \<lparr>vw_registry = es, vw_root = devices_root es, vw_sequence = (if t = JNull then 0 else 1),
         vw_status = (if pending then Status_recovery_pending
           else if t = JNull then Status_active else Status_revocation_pending),
         vw_transition = t\<rparr>))"

definition revocation_prepare :: "verifier \<Rightarrow> revocation_context \<Rightarrow> store \<Rightarrow> string \<Rightarrow> string \<Rightarrow> revocation_error + removal" where
  "revocation_prepare verify ctx st target initiator = and_then (revocation_snapshot verify ctx st) (\<lambda>s.
     if vw_status s \<noteq> Status_active then Inl Removal_pending
     else and_then (removed (vw_registry s) target initiator) (\<lambda>after.
       Inr \<lparr>rm_account = rv_account ctx, rm_vault = rv_vault ctx, rm_target = target, rm_initiator = initiator,
         rm_prior_root = vw_root s, rm_resulting_root = devices_root after, rm_key_epoch = rv_key_epoch ctx,
         rm_sequence = 1\<rparr>))"

definition transition_root_v :: "json \<Rightarrow> json option" where
  "transition_root_v t = mapping t \<bind> (\<lambda>obj. map_of obj ''root'')"

definition revocation_commit :: "verifier \<Rightarrow> revocation_context \<Rightarrow> store \<Rightarrow> json \<Rightarrow> (revocation_error + bool) \<times> store" where
  "revocation_commit verify ctx st transition = (case revocation_read verify ctx st of
     Inl e \<Rightarrow> (Inl e, st)
   | Inr (context_v, t, pending) \<Rightarrow>
       if pending then (Inl Removal_pending, st)
       else if check_context ctx transition = None then (Inl Revocation_rejected, st)
       else (case verify_transition verify transition (rv_initial ctx) of
         Inl e \<Rightarrow> (Inl e, st)
       | Inr _ \<Rightarrow>
           if t \<noteq> JNull \<and> transition_root_v t = transition_root_v transition then (Inr False, st)
           else if t \<noteq> JNull then (Inl Revocation_conflict, st)
           else (case store_write (revocation_dict context_v transition False) of
             None \<Rightarrow> (Inl Revocation_rejected, st) | Some st' \<Rightarrow> (Inr True, st'))))"

definition revocation_fence :: "verifier \<Rightarrow> revocation_context \<Rightarrow> store \<Rightarrow> (revocation_error + unit) \<times> store" where
  "revocation_fence verify ctx st = (case revocation_read verify ctx st of
     Inl e \<Rightarrow> (Inl e, st)
   | Inr (context_v, t, _) \<Rightarrow> (case store_write (revocation_dict context_v t True) of
       None \<Rightarrow> (Inl Revocation_rejected, st) | Some st' \<Rightarrow> (Inr (), st')))"

end
