(* ===== verification/RevocationRuns.thy ===== *)
theory RevocationRuns
  imports Revocation
begin

text \<open>
  What the checks of a removal let through, what a removal does to a registry, and the file of the
  store of removals over runs of calls.
\<close>

section \<open>Registries\<close>

definition valid_devices :: "registry \<Rightarrow> bool" where
  "valid_devices es \<longleftrightarrow> 1 \<le> length es \<and> length es \<le> 256 \<and> list_all (\<lambda>e. entry_keys_of e \<noteq> None) es
     \<and> distinct (map de_device_id es)"

lemma state_value_iff [simp]: "device_state_value v = Some s \<longleftrightarrow> v = JStr (state_name s)"
  by (cases s) (auto simp: device_state_value_def)

lemma state_value_name [simp]: "device_state_value (JStr (state_name s)) = Some s"
  by simp

lemma state_name_eq [simp]: "''ACTIVE'' = state_name s \<longleftrightarrow> s = Active" "''REVOKED'' = state_name s \<longleftrightarrow> s = Revoked"
  by (cases s; simp)+

lemma read_entry_of: "entry_keys_of e \<noteq> None \<Longrightarrow> read_entry (entry_dict e) = Some e"
  by (cases e) (auto simp: read_entry_def entry_dict_def exact_def device_entry_keys_def Let_def)

lemma read_entry_valid: "read_entry v = Some e \<Longrightarrow> entry_keys_of e \<noteq> None"
  by (auto simp: read_entry_def Let_def elim!: bind_SomeE)

interpretation entry_codec: codec "\<lambda>e. entry_keys_of e \<noteq> None" entry_dict read_entry
  by unfold_locales (rule read_entry_of, assumption, rule read_entry_valid)

lemma read_registry_of: "valid_devices es \<Longrightarrow> read_registry (registry_dict es) = Some es"
  using entry_codec.list_dec_enc [of es] by (simp add: valid_devices_def read_registry_def registry_dict_def list_all_iff)

lemma read_registry_valid: "read_registry v = Some es \<Longrightarrow> valid_devices es"
  using entry_codec.list_dec_valid
  by (fastforce simp: read_registry_def valid_devices_def list_all_iff dest: traverse_length elim!: bind_SomeE)

interpretation registry_codec: codec valid_devices registry_dict read_registry
  by unfold_locales (rule read_registry_of, assumption, rule read_registry_valid)

lemma entry_keys_state [simp]: "entry_keys_of (e\<lparr>de_state := s\<rparr>) = entry_keys_of e"
  by (simp add: entry_keys_of_def)

definition set_revoked :: "string \<Rightarrow> registry \<Rightarrow> registry" where
  "set_revoked target es = map (\<lambda>e. if de_device_id e = target then e\<lparr>de_state := Revoked\<rparr> else e) es"

lemma set_revoked_ids [simp]: "map de_device_id (set_revoked target es) = map de_device_id es"
  by (simp add: set_revoked_def)

lemma length_set_revoked [simp]: "length (set_revoked target es) = length es"
  by (simp add: set_revoked_def)

lemma set_revoked_valid: "valid_devices es \<Longrightarrow> valid_devices (set_revoked target es)"
proof -
  assume "valid_devices es"
  moreover have "list_all (\<lambda>e. entry_keys_of e \<noteq> None) es \<Longrightarrow> list_all (\<lambda>e. entry_keys_of e \<noteq> None) (set_revoked target es)"
    by (auto simp: list_all_iff set_revoked_def)
  ultimately show ?thesis by (simp add: valid_devices_def)
qed

lemma active_set_revoked: "active_ids (set_revoked target es) = filter (\<lambda>d. d \<noteq> target) (active_ids es)"
  by (induction es) (auto simp: active_ids_def set_revoked_def)

lemma removed_iff:
  "removed es target initiator = Inr after \<longleftrightarrow> target \<noteq> initiator \<and> target \<in> set (active_ids es)
     \<and> initiator \<in> set (active_ids es) \<and> after = set_revoked target es"
  by (auto simp: removed_def Let_def set_revoked_def)

lemma removed_error: "removed es target initiator = Inl e \<Longrightarrow> e = Removal_authority"
  by (auto simp: removed_def Let_def split: if_splits)

lemma find_device_Some: "find_device d es = Some e \<Longrightarrow> e \<in> set es \<and> de_device_id e = d"
  by (auto simp: find_device_def find_Some_iff)

lemma find_active: "d \<in> set (active_ids es) \<Longrightarrow> \<exists>e. find_device d es = Some e"
  by (cases "find_device d es") (auto simp: active_ids_def find_device_def find_None_iff)

section \<open>Removals\<close>

definition valid_removal :: "removal \<Rightarrow> bool" where
  "valid_removal r \<longleftrightarrow> match_identifier (rm_account r) \<and> match_identifier (rm_vault r)
     \<and> match_identifier (rm_target r) \<and> match_identifier (rm_initiator r)
     \<and> match_sha256 (rm_prior_root r) \<and> match_sha256 (rm_resulting_root r)
     \<and> 1 \<le> rm_key_epoch r \<and> rm_key_epoch r < 9007199254740991 \<and> 1 \<le> rm_sequence r \<and> rm_sequence r < 9007199254740991"

lemma identifier_field_iff [simp]: "identifier_field v = Some s \<longleftrightarrow> v = JStr s \<and> match_identifier s"
  by (cases v) (auto simp: identifier_field_def)

lemma number_field_iff [simp]: "number_field v = Some n \<longleftrightarrow> v = JInt n \<and> 1 \<le> n \<and> n < 9007199254740991"
  by (cases v) auto

declare number_field.simps [simp del]

lemma field_accepts [simp]:
  "match_identifier s \<Longrightarrow> identifier_field (JStr s) = Some s"
  "1 \<le> n \<Longrightarrow> n < 9007199254740991 \<Longrightarrow> number_field (JInt n) = Some n"
  by simp_all

lemma match_device_presence [simp]: "match_identifier DEVICE_PRESENCE"
  by (simp add: match_identifier_def DEVICE_PRESENCE_def identifier_char_def byte_val_def)

lemma removal_from_to: "valid_removal r \<Longrightarrow> removal_from_dict (JObj (removal_dict r)) = Some r"
  by (cases r) (simp add: valid_removal_def removal_from_dict_def removal_dict_def exact_def removal_keys_def)

lemma removal_from_valid: "removal_from_dict v = Some r \<Longrightarrow> valid_removal r"
  unfolding removal_from_dict_def by (auto elim!: bind_SomeE simp: valid_removal_def)

interpretation removal_codec: codec valid_removal "\<lambda>r. JObj (removal_dict r)" removal_from_dict
  by unfold_locales (rule removal_from_to, assumption, rule removal_from_valid)

definition signed_removal :: "removal \<Rightarrow> string \<Rightarrow> json" where
  "signed_removal r signature = JObj (removal_dict r @
     [(''root'', JStr (removal_root r)), (''signature_b64'', JStr (b64encode signature))])"

lemma decode_field_encode: "length bs = n \<Longrightarrow> decode_field n (JStr (b64encode bs)) = Some bs"
  by (simp add: decode_field_def length_b64encode)

lemma without_signature_signed:
  "without_signature (removal_dict r @ [(''root'', a), (''signature_b64'', b)]) = removal_dict r"
  by (simp add: without_signature_def removal_dict_def)

lemma signed_removal_keys_exact:
  "exact (removal_dict r @ [(''root'', a), (''signature_b64'', b)]) signed_removal_keys = Some ()"
  by (simp add: exact_def signed_removal_keys_def removal_keys_def removal_dict_def)

lemma signed_removal_fields:
  "map_of (removal_dict r @ [(''root'', a), (''signature_b64'', b)]) ''root'' = Some a"
  "map_of (removal_dict r @ [(''root'', a), (''signature_b64'', b)]) ''signature_b64'' = Some b"
  by (simp_all add: removal_dict_def)

lemma verify_transitionE:
  assumes "verify_transition verify t es = Inr after"
  obtains obj r signer public signature where
    "t = JObj obj" "exact obj signed_removal_keys = Some ()" "removal_from_dict (JObj (without_signature obj)) = Some r"
    "removed es (rm_target r) (rm_initiator r) = Inr after" "map_of obj ''root'' = Some (JStr (removal_root r))"
    "rm_prior_root r = devices_root es" "rm_resulting_root r = devices_root after"
    "find_device (rm_initiator r) es = Some signer" "decode_field 32 (JStr (de_signing_b64 signer)) = Some public"
    "map_of obj ''signature_b64'' \<bind> decode_field 64 = Some signature"
    "verify public signature (removal_message (removal_root r))"
  using assms unfolding verify_transition_def
  by (elim and_then_Inr [THEN iffD1, elim_format] exE conjE) (auto simp: and_then_Inr elim!: bind_SomeE)

lemma verify_transition_signed:
  assumes "valid_removal r" "removed es (rm_target r) (rm_initiator r) = Inr after"
    and "rm_prior_root r = devices_root es" "rm_resulting_root r = devices_root after"
    and "find_device (rm_initiator r) es = Some signer" "decode_field 32 (JStr (de_signing_b64 signer)) = Some public"
    and "length signature = 64" "verify public signature (removal_message (removal_root r))"
  shows "verify_transition verify (signed_removal r signature) es = Inr after"
  using assms
  by (simp add: verify_transition_def signed_removal_def without_signature_signed signed_removal_keys_exact
      signed_removal_fields removal_from_to decode_field_encode del: map_of_append)

text \<open>The removal a signed text speaks of.\<close>

definition removal_of :: "json \<Rightarrow> removal option" where
  "removal_of t = mapping t \<bind> (\<lambda>obj. removal_from_dict (JObj (without_signature obj)))"

lemma verify_transition_effect:
  assumes "verify_transition verify t es = Inr after"
  obtains r where "removal_of t = Some r" "valid_removal r" "rm_target r \<noteq> rm_initiator r"
    "rm_target r \<in> set (active_ids es)" "rm_initiator r \<in> set (active_ids es)" "after = set_revoked (rm_target r) es"
    "transition_root_v t = Some (JStr (removal_root r))"
  using assms
  by (elim verify_transitionE)
    (auto simp: removal_of_def transition_root_v_def removed_iff intro: removal_from_valid)

section \<open>The file\<close>

abbreviation revocation_file :: "revocation_context \<Rightarrow> json \<Rightarrow> bool \<Rightarrow> store" where
  "revocation_file ctx t pending \<equiv> Some (revocation_dict (revocation_context_dict ctx) t pending)"

definition kept :: "json list \<Rightarrow> json" where
  "kept log = (if log = [] then JNull else hd log)"

definition small_file :: "json \<Rightarrow> bool" where
  "small_file v \<longleftrightarrow> queue_file_length (length (canonical_json v)) \<le> 1024 * 1024"

text \<open>A removal that the store may keep.\<close>

definition keepable :: "verifier \<Rightarrow> revocation_context \<Rightarrow> json \<Rightarrow> bool" where
  "keepable verify ctx t \<longleftrightarrow> check_context ctx t = Some () \<and> (\<exists>after. verify_transition verify t (rv_initial ctx) = Inr after)"

lemma admissible_not_null: "keepable verify ctx t \<Longrightarrow> t \<noteq> JNull"
  by (auto simp: keepable_def check_context_def)

lemma revocation_context_matches_dict: "revocation_context_matches ctx (revocation_context_dict ctx)"
  by (simp add: revocation_context_matches_def revocation_context_dict_def exact_def)

lemma revocation_read_of:
  assumes "t = JNull \<or> keepable verify ctx t"
  shows "revocation_read verify ctx (revocation_file ctx t pending) =
    (if small_file (revocation_dict (revocation_context_dict ctx) t pending)
     then Inr (revocation_context_dict ctx, t, pending) else Inl Revocation_rejected)"
proof -
  have e: "exact [(''context'', a), (''transition'', b), (''recovery_pending'', c)] [''context'', ''transition'', ''recovery_pending''] = Some ()"
    for a b c :: json by (simp add: exact_def)
  show ?thesis
    using assms revocation_context_matches_dict [of ctx] admissible_not_null
    by (auto simp: revocation_read_def small_file_def revocation_dict_def e keepable_def require_def)
qed

lemma revocation_commit_of:
  assumes "t = JNull \<or> keepable verify ctx t"
  shows "revocation_commit verify ctx (revocation_file ctx t pending) u = (let st = revocation_file ctx t pending in
    if \<not> small_file (revocation_dict (revocation_context_dict ctx) t pending) then (Inl Revocation_rejected, st)
    else if pending then (Inl Removal_pending, st)
    else if check_context ctx u = None then (Inl Revocation_rejected, st)
    else (case verify_transition verify u (rv_initial ctx) of
         Inl e \<Rightarrow> (Inl e, st)
       | Inr _ \<Rightarrow>
           if t \<noteq> JNull \<and> transition_root_v t = transition_root_v u then (Inr False, st)
           else if t \<noteq> JNull then (Inl Revocation_conflict, st)
           else if write_fits (revocation_dict (revocation_context_dict ctx) u False)
             then (Inr True, revocation_file ctx u False)
           else (Inl Revocation_rejected, st)))"
  by (simp add: revocation_commit_def revocation_read_of [OF assms] Let_def store_write_def split: sum.split)

lemma revocation_fence_of:
  assumes "t = JNull \<or> keepable verify ctx t"
  shows "revocation_fence verify ctx (revocation_file ctx t pending) =
    (if small_file (revocation_dict (revocation_context_dict ctx) t pending)
       \<and> write_fits (revocation_dict (revocation_context_dict ctx) t True)
     then (Inr (), revocation_file ctx t True)
     else (Inl Revocation_rejected, revocation_file ctx t pending))"
  by (simp add: revocation_fence_def revocation_read_of [OF assms] store_write_def)

section \<open>Runs\<close>

text \<open>The log holds the removals whose commit answered True.  A process that is restarted reads the
  same file with the same context, so a run may span any number of processes.\<close>

inductive revocation_run :: "verifier \<Rightarrow> revocation_context \<Rightarrow> store \<Rightarrow> json list \<Rightarrow> bool" for verify ctx where
  rv_start: "revocation_initialize ctx st = Some st' \<Longrightarrow> revocation_run verify ctx st' []"
| rv_commit: "revocation_run verify ctx st log \<Longrightarrow> revocation_commit verify ctx st t = (r, st') \<Longrightarrow>
     revocation_run verify ctx st' (if r = Inr True then log @ [t] else log)"
| rv_fence: "revocation_run verify ctx st log \<Longrightarrow> revocation_fence verify ctx st = (r, st') \<Longrightarrow>
     revocation_run verify ctx st' log"

definition revocation_holds :: "verifier \<Rightarrow> revocation_context \<Rightarrow> store \<Rightarrow> json list \<Rightarrow> bool \<Rightarrow> bool" where
  "revocation_holds verify ctx st log pending \<longleftrightarrow> st = revocation_file ctx (kept log) pending
     \<and> length log \<le> 1 \<and> list_all (keepable verify ctx) log"

lemma revocation_holds_kept:
  "revocation_holds verify ctx st log pending \<Longrightarrow> kept log = JNull \<or> keepable verify ctx (kept log)"
  by (cases log) (simp_all add: revocation_holds_def kept_def)

lemma kept_null: "revocation_holds verify ctx st log pending \<Longrightarrow> kept log = JNull \<longleftrightarrow> log = []"
  using admissible_not_null by (cases log) (auto simp: revocation_holds_def kept_def)

lemma commit_holds:
  assumes "revocation_holds verify ctx st log pending" "revocation_commit verify ctx st t = (r, st')"
  shows "if r = Inr True then log = [] \<and> \<not> pending \<and> keepable verify ctx t \<and> st' = revocation_file ctx t False
    else st' = st"
proof -
  have st: "st = revocation_file ctx (kept log) pending" using assms(1) by (simp add: revocation_holds_def)
  note e = revocation_commit_of [OF revocation_holds_kept [OF assms(1)], of pending t]
  show ?thesis
    using assms(2) kept_null [OF assms(1)] unfolding st e
    by (auto simp: Let_def keepable_def split: if_splits sum.splits)
qed

lemma revocation_run_holds: "revocation_run verify ctx st log \<Longrightarrow> \<exists>pending. revocation_holds verify ctx st log pending"
proof (induction rule: revocation_run.induct)
  case (rv_start st st')
  then show ?case
    by (intro exI [of _ False]) (auto simp: revocation_initialize_def revocation_holds_def kept_def store_write_iff)
next
  case (rv_commit st log t r st')
  then obtain pending where h: "revocation_holds verify ctx st log pending" by blast
  show ?case
    using commit_holds [OF h rv_commit.hyps(2)] h
    by (cases "r = Inr True") (auto simp: revocation_holds_def kept_def)
next
  case (rv_fence st log r st')
  then obtain pending where h: "revocation_holds verify ctx st log pending" by blast
  then have st: "st = revocation_file ctx (kept log) pending" by (simp add: revocation_holds_def)
  show ?case
    using rv_fence.hyps(2) h unfolding st revocation_fence_of [OF revocation_holds_kept [OF h]]
    by (auto simp: revocation_holds_def split: if_splits)
qed

end
