(* ===== verification/RemovalPrompt.thy ===== *)
theory RemovalPrompt
  imports RevocationRuns Expiry
begin

text \<open>
  The prompt for a removal (\<open>RemovalController\<close> of \<open>vaultsync/revocation.py\<close>), without a guarding
  history.  \<open>remove\<close> is a coroutine: it is suspended while the user is asked and while the key signs,
  and everything else may happen in between.  Each stretch up to a suspension is one step here.
\<close>

section \<open>The controller\<close>

text \<open>What the suspended coroutine remembers.\<close>

datatype prompt_phase = Asking_user | Asking_key

record removal_prompt =
  pr_phase :: prompt_phase
  pr_confirmed :: string
  pr_unsigned :: removal
  pr_generation :: nat
  pr_started :: reading

record removal_controller =
  rc_target :: "string option"
  rc_generation :: nat
  rc_busy :: bool
  rc_prompt :: "removal_prompt option"

definition new_controller :: removal_controller where
  "new_controller = \<lparr>rc_target = None, rc_generation = 0, rc_busy = False, rc_prompt = None\<rparr>"

definition controller_select :: "string \<Rightarrow> removal_controller \<Rightarrow> (revocation_error + unit) \<times> removal_controller" where
  "controller_select target c = (if match_identifier target
     then (Inr (), c\<lparr>rc_target := Some target, rc_generation := Suc (rc_generation c)\<rparr>)
     else (Inl Revocation_rejected, c))"

definition controller_cancel :: "removal_controller \<Rightarrow> removal_controller" where
  "controller_cancel c = c\<lparr>rc_generation := Suc (rc_generation c)\<rparr>"

definition finish :: "removal_controller \<Rightarrow> removal_controller" where
  "finish c = c\<lparr>rc_busy := False, rc_prompt := None\<rparr>"

datatype removal_outcome = Removal_done json | Removal_denied revocation_error | Removal_cancelled

text \<open>From the call to the question to the user.\<close>

definition remove_begin :: "verifier \<Rightarrow> revocation_context \<Rightarrow> string \<Rightarrow> store \<Rightarrow> string option \<Rightarrow> reading \<Rightarrow> removal_controller
    \<Rightarrow> removal_outcome option \<times> removal_controller" where
  "remove_begin verify ctx initiator st confirmed now c =
     (if rc_busy c \<or> confirmed \<noteq> rc_target c then (Some (Removal_denied Removal_authorization), c)
      else (case confirmed of
        None \<Rightarrow> (Some (Removal_denied Removal_authorization), finish c)
      | Some target \<Rightarrow> (case revocation_prepare verify ctx st target initiator of
          Inl _ \<Rightarrow> (Some (Removal_denied Removal_authorization), finish c)
        | Inr r \<Rightarrow> (None, c\<lparr>rc_busy := True, rc_prompt := Some \<lparr>pr_phase = Asking_user, pr_confirmed = target,
            pr_unsigned = r, pr_generation = rc_generation c, pr_started = now\<rparr>\<rparr>))))"

definition within_minute :: "reading \<Rightarrow> reading \<Rightarrow> bool" where
  "within_minute started now = (case (started, now) of
     (Finite s, Finite t) \<Rightarrow> 0 \<le> t - s \<and> t - s < 60 | _ \<Rightarrow> False)"

definition revalidate :: "verifier \<Rightarrow> revocation_context \<Rightarrow> string \<Rightarrow> store \<Rightarrow> reading \<Rightarrow> removal_controller \<Rightarrow> removal_prompt \<Rightarrow> bool" where
  "revalidate verify ctx initiator st now c p \<longleftrightarrow> within_minute (pr_started p) now \<and> pr_generation p = rc_generation c
     \<and> revocation_prepare verify ctx st (pr_confirmed p) initiator = Inr (pr_unsigned p)"

text \<open>The end of a wait: an answer, an exception or the end of the minute, or the task is cancelled.\<close>

datatype 'a waited = Answered 'a | Failed | Task_cancelled

text \<open>From the user's answer to the question to the key.\<close>

definition remove_authorized :: "verifier \<Rightarrow> revocation_context \<Rightarrow> string \<Rightarrow> store \<Rightarrow> bool waited \<Rightarrow> reading \<Rightarrow> removal_controller
    \<Rightarrow> removal_outcome option \<times> removal_controller" where
  "remove_authorized verify ctx initiator st a now c = (case rc_prompt c of
     None \<Rightarrow> (None, c)
   | Some p \<Rightarrow> if pr_phase p \<noteq> Asking_user then (None, c)
       else if a = Task_cancelled then (Some Removal_cancelled, finish (controller_cancel c))
       else if a = Answered True \<and> revalidate verify ctx initiator st now c p
           \<and> removal_from_dict (JObj (removal_dict (pr_unsigned p))) \<noteq> None
         then (None, c\<lparr>rc_prompt := Some (p\<lparr>pr_phase := Asking_key\<rparr>)\<rparr>)
       else (Some (Removal_denied Removal_authorization), finish c))"

text \<open>From the signature to the end.\<close>

definition remove_signed :: "verifier \<Rightarrow> revocation_context \<Rightarrow> string \<Rightarrow> store \<Rightarrow> string waited \<Rightarrow> reading \<Rightarrow> removal_controller
    \<Rightarrow> removal_outcome option \<times> removal_controller \<times> store" where
  "remove_signed verify ctx initiator st a now c = (case rc_prompt c of
     None \<Rightarrow> (None, c, st)
   | Some p \<Rightarrow> if pr_phase p \<noteq> Asking_key then (None, c, st)
       else (case a of
         Task_cancelled \<Rightarrow> (Some Removal_cancelled, finish (controller_cancel c), st)
       | Failed \<Rightarrow> (Some (Removal_denied Removal_authorization), finish c, st)
       | Answered signature \<Rightarrow>
           if \<not> revalidate verify ctx initiator st now c p then (Some (Removal_denied Removal_authorization), finish c, st)
           else let t = signed_removal (pr_unsigned p) signature in
             (case revocation_commit verify ctx st t of
               (Inl _, st') \<Rightarrow> (Some (Removal_denied Removal_authorization), finish c, st')
             | (Inr _, st') \<Rightarrow> (Some (Removal_done t), finish (controller_cancel c), st'))))"

section \<open>Runs\<close>

text \<open>What may happen around a controller: its own calls, and commits and fences of its registry by
  others.\<close>

datatype prompt_event =
    Ev_select string | Ev_cancel
  | Ev_begin "string option" reading
  | Ev_user "bool waited" reading
  | Ev_key "string waited" reading
  | Ev_commit json | Ev_fence

fun prompt_step :: "verifier \<Rightarrow> revocation_context \<Rightarrow> string \<Rightarrow> removal_controller \<times> store \<Rightarrow> prompt_event
    \<Rightarrow> removal_outcome option \<times> removal_controller \<times> store" where
  "prompt_step verify ctx initiator (c, st) (Ev_select target) = (None, snd (controller_select target c), st)"
| "prompt_step verify ctx initiator (c, st) Ev_cancel = (None, controller_cancel c, st)"
| "prompt_step verify ctx initiator (c, st) (Ev_begin confirmed now) =
     (let (res, c') = remove_begin verify ctx initiator st confirmed now c in (res, c', st))"
| "prompt_step verify ctx initiator (c, st) (Ev_user a now) =
     (let (res, c') = remove_authorized verify ctx initiator st a now c in (res, c', st))"
| "prompt_step verify ctx initiator (c, st) (Ev_key a now) = remove_signed verify ctx initiator st a now c"
| "prompt_step verify ctx initiator (c, st) (Ev_commit t) = (None, c, snd (revocation_commit verify ctx st t))"
| "prompt_step verify ctx initiator (c, st) Ev_fence = (None, c, snd (revocation_fence verify ctx st))"

fun prompt_run :: "verifier \<Rightarrow> revocation_context \<Rightarrow> string \<Rightarrow> removal_controller \<times> store \<Rightarrow> prompt_event list
    \<Rightarrow> removal_controller \<times> store" where
  "prompt_run verify ctx initiator s [] = s"
| "prompt_run verify ctx initiator s (ev # evs) = prompt_run verify ctx initiator (snd (prompt_step verify ctx initiator s ev)) evs"

lemma prompt_run_append [simp]: "prompt_run verify ctx initiator s (evs @ evs')
    = prompt_run verify ctx initiator (prompt_run verify ctx initiator s evs) evs'"
  by (induction evs arbitrary: s) simp_all

text \<open>The events that change what was selected, and what was selected last.\<close>

fun disturbs :: "prompt_event \<Rightarrow> bool" where
  "disturbs (Ev_select target) = match_identifier target"
| "disturbs Ev_cancel = True"
| "disturbs _ = False"

fun selected :: "prompt_event list \<Rightarrow> string option" where
  "selected [] = None"
| "selected (Ev_select target # evs) = (if selected evs = None \<and> match_identifier target then Some target else selected evs)"
| "selected (_ # evs) = selected evs"

lemma selected_snoc: "selected (evs @ [ev]) = (case ev of
    Ev_select target \<Rightarrow> if match_identifier target then Some target else selected evs | _ \<Rightarrow> selected evs)"
  by (induction evs rule: selected.induct) (auto split: prompt_event.splits)

end
