(* ===== verification/Rotation.thy ===== *)
theory Rotation
  imports RevocationRuns
begin

text \<open>
  Admission of a new key epoch after a removal (\<open>verify_epoch_rotation\<close> of
  \<open>vaultsync/epoch_rotation.py\<close>) and of the copy of a wrapper made for one device
  (\<open>verify_device_delivery\<close> of \<open>vaultsync/device_delivery.py\<close>).  Every exception becomes a
  \<open>RotationError\<close> with one of four codes.  The wrapped keys are bytes: nothing here opens one.
\<close>

definition success :: "'e + 'a \<Rightarrow> 'a option" where
  "success m = (case m of Inl _ \<Rightarrow> None | Inr x \<Rightarrow> Some x)"

lemma success_iff [simp]: "success m = Some x \<longleftrightarrow> m = Inr x"
  by (simp add: success_def split: sum.split)

lemma success_Inr [simp]: "success (Inr x) = Some x"
  by simp

section \<open>Epoch rotations\<close>

datatype rotation_error = Rotation_rejected | Rotation_authority | Delivery_rejected | Per_device_proof_required

record rotation_result =
  rr_new_epoch :: int
  rr_recipients :: "string list"
  rr_binding_root :: string
  rr_registry :: registry

definition rotation_binding :: "json \<Rightarrow> string" where
  "rotation_binding plan = sha256_hex (''atlasvault-rotation-binding-v1'' @ newline @ canonical_json plan)"

definition rotation_root :: "json \<Rightarrow> string" where
  "rotation_root unsigned_v = sha256_hex (''atlasvault-epoch-rotation-v1'' @ newline @ canonical_json unsigned_v)"

definition rotation_message :: "string \<Rightarrow> string" where
  "rotation_message root = ''atlasvault-epoch-rotation-signature-v1'' @ [CHR 0x00] @ from_hex root"

definition rotation_keys :: "string list" where
  "rotation_keys = [''format'', ''version'', ''plan'', ''revocation'', ''registry'', ''rotation_signer_device_id'',
     ''deliveries'', ''root'', ''signature_b64'']"

definition wrapper_keys :: "string list" where
  "wrapper_keys = [''device_id'', ''key_epoch'', ''encapsulated_key_b64'', ''ciphertext_b64'']"

text \<open>A wrapper for one device: the key of the new epoch, sealed to it.\<close>

definition check_wrapper :: "int \<Rightarrow> string \<Rightarrow> json \<Rightarrow> unit option" where
  "check_wrapper new_epoch device v = do {
     obj \<leftarrow> mapping v;
     exact obj wrapper_keys;
     device_v \<leftarrow> map_of obj ''device_id'';
     epoch_v \<leftarrow> map_of obj ''key_epoch'';
     require (\<not> (device_v \<noteq> JStr device \<or> epoch_v \<noteq> JInt new_epoch));
     map_of obj ''encapsulated_key_b64'' \<bind> decode_field 32;
     map_of obj ''ciphertext_b64'' \<bind> decode_field 48;
     Some () }"

text \<open>The context of a removal, whose check rotations and deliveries share.\<close>

definition in_rotation_context :: "removal \<Rightarrow> json \<Rightarrow> json \<Rightarrow> json \<Rightarrow> bool" where
  "in_rotation_context r account_v vault_v previous_v \<longleftrightarrow> \<not> (JStr (rm_account r) \<noteq> account_v \<or> JStr (rm_vault r) \<noteq> vault_v
     \<or> JInt (rm_key_epoch r) \<noteq> previous_v \<or> rm_sequence r \<noteq> 1)"

definition removal_in_context :: "verifier \<Rightarrow> json \<Rightarrow> registry \<Rightarrow> json \<Rightarrow> json \<Rightarrow> json \<Rightarrow> (removal \<times> registry) option" where
  "removal_in_context verify t es account_v vault_v previous_v = do {
     after \<leftarrow> success (verify_transition verify t es);
     r \<leftarrow> removal_of t;
     require (in_rotation_context r account_v vault_v previous_v);
     Some (r, after) }"

text \<open>What is read of a plan once it has been validated.\<close>

definition plan_fields :: "json \<Rightarrow> (int \<times> string list) option" where
  "plan_fields plan = do {
     p \<leftarrow> mapping plan;
     new_epoch \<leftarrow> map_of p ''new_epoch'' \<bind> int_value;
     vs \<leftarrow> map_of p ''recipients'' \<bind> json_list;
     recipients \<leftarrow> traverse str_value vs;
     Some (new_epoch, recipients) }"

definition verify_epoch_rotation :: "verifier \<Rightarrow> json \<Rightarrow> json \<Rightarrow> json \<Rightarrow> json \<Rightarrow> json \<Rightarrow> json
    \<Rightarrow> rotation_error + rotation_result" where
  "verify_epoch_rotation verify proof_v registry account_v vault_v previous_v state_v =
     and_then (or_error Rotation_rejected (do {
       obj \<leftarrow> mapping proof_v;
       exact obj rotation_keys;
       format_v \<leftarrow> map_of obj ''format'';
       version_v \<leftarrow> map_of obj ''version'';
       require (format_v = JStr ''atlasvault-epoch-rotation'' \<and> version_v = JInt 1);
       presented_es \<leftarrow> map_of obj ''registry'' \<bind> read_registry;
       es \<leftarrow> read_registry registry;
       require (devices_root presented_es = devices_root es);
       t \<leftarrow> map_of obj ''revocation'';
       (r, after) \<leftarrow> removal_in_context verify t es account_v vault_v previous_v;
       plan \<leftarrow> map_of obj ''plan'';
       success (validate_rotation_plan plan t after state_v);
       (new_epoch, recipients) \<leftarrow> plan_fields plan;
       signer_v \<leftarrow> map_of obj ''rotation_signer_device_id'';
       Some (obj, after, plan, new_epoch, recipients, signer_v) }))
     (\<lambda>(obj, after, plan, new_epoch, recipients, signer_v).
       if signer_v \<notin> set (map JStr recipients) then Inl Rotation_authority
       else or_error Rotation_rejected (do {
         deliveries \<leftarrow> map_of obj ''deliveries'' \<bind> json_list;
         require (length deliveries = length recipients);
         traverse (\<lambda>(device, delivery). check_wrapper new_epoch device delivery) (zip recipients deliveries);
         let root = rotation_root (JObj (without_signature obj));
         root_v \<leftarrow> map_of obj ''root'';
         require (root_v = JStr root);
         signer_id \<leftarrow> str_value signer_v;
         signer \<leftarrow> find_device signer_id after;
         public \<leftarrow> decode_field 32 (JStr (de_signing_b64 signer));
         signature \<leftarrow> map_of obj ''signature_b64'' \<bind> decode_field 64;
         require (verify public signature (rotation_message root));
         Some \<lparr>rr_new_epoch = new_epoch, rr_recipients = recipients, rr_binding_root = rotation_binding plan,
           rr_registry = after\<rparr> }))"

section \<open>Deliveries to one device\<close>

definition HPKE_SUITE :: string where
  "HPKE_SUITE = ''0x0020/0x0001/0x0002''"

definition delivery_keys :: "string list" where
  "delivery_keys = [''format'', ''version'', ''activation_id'', ''plan'', ''revocation'', ''registry'',
     ''recipient_device_id'', ''recipient_agreement_sha256'', ''wrapper_sha256'', ''registry_generation'',
     ''issuer_device_id'', ''hpke_suite'', ''hpke_version'', ''signature_algorithm'', ''signature_version'',
     ''root'', ''signature_b64'', ''rotation_signer_device_id'']"

definition delivery_root :: "obj \<Rightarrow> string" where
  "delivery_root p = sha256_hex (''atlasvault-device-delivery-proof-v2'' @ newline @ canonical_json (JObj (without_signature p)))"

definition delivery_message :: "string \<Rightarrow> string" where
  "delivery_message root = ''atlasvault-device-delivery-signature-v2'' @ [CHR 0x00] @ from_hex root"

text \<open>The constant fields of a packet's proof.\<close>

definition delivery_constants :: "(string \<times> json) list" where
  "delivery_constants = [(''format'', JStr ''atlasvault-device-delivery-proof''), (''version'', JInt 2),
     (''hpke_suite'', JStr HPKE_SUITE), (''hpke_version'', JInt 2), (''signature_algorithm'', JStr ''Ed25519''),
     (''signature_version'', JInt 1)]"

text \<open>The first ACTIVE entry of a device.\<close>

definition find_active_device :: "json \<Rightarrow> registry \<Rightarrow> device_entry option" where
  "find_active_device v es = find (\<lambda>e. JStr (de_device_id e) = v \<and> de_state e = Active) es"

record delivery_result =
  dr_new_epoch :: int
  dr_recipients :: "string list"
  dr_registry :: registry
  dr_recipient_commitment :: string

definition activation_record :: "json \<Rightarrow> bool" where
  "activation_record packet = (case mapping packet of None \<Rightarrow> False | Some obj \<Rightarrow>
     map_of obj ''format'' \<in> {Some (JStr ''atlasvault-activation-record''), Some (JStr ''atlasvault-epoch-rotation'')})"

definition check :: "'e \<Rightarrow> bool \<Rightarrow> 'e + unit" where
  "check e b = (if b then Inr () else Inl e)"

lemma check_Inr [simp]: "check e b = Inr u \<longleftrightarrow> b"
  by (simp add: check_def)

lemma check_True [simp]: "check e True = Inr ()"
  by (simp add: check_def)

text \<open>A failed comparison is answered with the code of \<open>_reject()\<close>, which is the one of rotations; any
  other exception with the code of deliveries.\<close>

definition verify_device_delivery :: "verifier \<Rightarrow> json \<Rightarrow> json \<Rightarrow> json \<Rightarrow> json \<Rightarrow> json \<Rightarrow> json \<Rightarrow> json \<Rightarrow> json
    \<Rightarrow> rotation_error + delivery_result" where
  "verify_device_delivery verify packet registry account_v vault_v previous_v state_v activation_v recipient_v =
     (if activation_record packet then Inl Per_device_proof_required
      else and_then (or_error Delivery_rejected (do {
        outer \<leftarrow> mapping packet;
        exact outer [''proof'', ''wrapper''];
        p \<leftarrow> map_of outer ''proof'' \<bind> mapping;
        w \<leftarrow> map_of outer ''wrapper'';
        exact p delivery_keys;
        Some (p, w) }))
      (\<lambda>(p, w). and_then (check Rotation_rejected (list_all (\<lambda>(k, v). map_of p k = Some v) delivery_constants))
      (\<lambda>_. and_then (or_error Delivery_rejected (commitment_hex activation_v))
      (\<lambda>activation. and_then (check Rotation_rejected (map_of p ''activation_id'' = Some (JStr activation)
        \<and> map_of p ''recipient_device_id'' = Some recipient_v))
      (\<lambda>_. and_then (or_error Delivery_rejected (do {
        presented_es \<leftarrow> map_of p ''registry'' \<bind> read_registry;
        es \<leftarrow> read_registry registry;
        Some (presented_es, es) }))
      (\<lambda>(presented_es, es). and_then (check Rotation_rejected (devices_root presented_es = devices_root es))
      (\<lambda>_. and_then (or_error Delivery_rejected (do {
        t \<leftarrow> map_of p ''revocation'';
        after \<leftarrow> success (verify_transition verify t es);
        r \<leftarrow> removal_of t;
        Some (t, r, after) }))
      (\<lambda>(t, r, after). and_then (check Rotation_rejected (in_rotation_context r account_v vault_v previous_v))
      (\<lambda>_. and_then (or_error Delivery_rejected (do {
        plan \<leftarrow> map_of p ''plan'';
        success (validate_rotation_plan plan t after state_v);
        plan_fields plan }))
      (\<lambda>(new_epoch, recipients). and_then (check Rotation_rejected (map_of p ''registry_generation'' = Some (JInt new_epoch)))
      (\<lambda>_. and_then (or_error Delivery_rejected (do {
        issuer \<leftarrow> map_of p ''issuer_device_id'' \<bind> (\<lambda>v. find_active_device v after);
        map_of p ''rotation_signer_device_id'' \<bind> (\<lambda>v. find_active_device v after);
        recipient \<leftarrow> find_active_device recipient_v after;
        agreement \<leftarrow> decode_field 32 (JStr (de_agreement_b64 recipient));
        wrapper \<leftarrow> mapping w;
        exact wrapper wrapper_keys;
        Some (issuer, agreement, wrapper) }))
      (\<lambda>(issuer, agreement, wrapper). and_then (check Rotation_rejected (map_of wrapper ''device_id'' = Some recipient_v
        \<and> map_of wrapper ''key_epoch'' = Some (JInt new_epoch)))
      (\<lambda>_. and_then (or_error Delivery_rejected (do {
        map_of wrapper ''encapsulated_key_b64'' \<bind> decode_field 32;
        map_of wrapper ''ciphertext_b64'' \<bind> decode_field 48 }))
      (\<lambda>_. and_then (check Rotation_rejected (map_of p ''wrapper_sha256'' = Some (JStr (sha256_hex (canonical_json w)))
        \<and> map_of p ''recipient_agreement_sha256'' = Some (JStr (sha256_hex agreement))
        \<and> map_of p ''root'' = Some (JStr (delivery_root p))))
      (\<lambda>_. or_error Delivery_rejected (do {
        public \<leftarrow> decode_field 32 (JStr (de_signing_b64 issuer));
        signature \<leftarrow> map_of p ''signature_b64'' \<bind> decode_field 64;
        require (verify public signature (delivery_message (delivery_root p)));
        Some \<lparr>dr_new_epoch = new_epoch, dr_recipients = recipients, dr_registry = after,
          dr_recipient_commitment = sha256_hex (''atlasvault-active-recipients-v1'' @ newline
            @ canonical_json (JObj [(''recipients'', JList (map JStr recipients))]))\<rparr> }))))))))))))))))"

end
