(* ===== verification/Enrollment.thy ===== *)
theory Enrollment
  imports Rotation
begin

text \<open>
  Enrollment of a further device (\<open>vaultsync/device_enrollment.py\<close>): the checks on a signed
  enrollment, which add an entry to a registry.  Every exception becomes the one \<open>EnrollmentError\<close>,
  here \<open>None\<close>.
\<close>

definition enrollment_context_keys :: "string list" where
  "enrollment_context_keys = [''account_id'', ''vault_id'', ''registry_generation'', ''key_epoch'', ''state_root'', ''activation_id'']"

definition enrollment_keys :: "string list" where
  "enrollment_keys = enrollment_context_keys @ [''format'', ''version'', ''next_registry_generation'',
     ''prior_registry_root'', ''resulting_registry_root'', ''target_device_id'', ''target_signing_public_b64'',
     ''target_agreement_public_b64'', ''target_agreement_sha256'', ''transcript_sha256'', ''issuer_device_id'',
     ''authorization_category'', ''signature_algorithm'']"

definition signed_enrollment_keys :: "string list" where
  "signed_enrollment_keys = enrollment_keys @ [''root'', ''signature_b64'']"

definition enrollment_root :: "obj \<Rightarrow> string" where
  "enrollment_root p = sha256_hex (''atlasvault-device-enrollment-v1'' @ newline @ canonical_json (JObj (without_signature p)))"

definition enrollment_message :: "string \<Rightarrow> string" where
  "enrollment_message root = ''atlasvault-device-enrollment-signature-v1'' @ [CHR 0x00] @ from_hex root"

text \<open>The constant fields of an enrollment.\<close>

definition enrollment_constants :: "(string \<times> json) list" where
  "enrollment_constants = [(''version'', JInt 1), (''format'', JStr ''atlasvault-device-enrollment''),
     (''authorization_category'', JStr ''SAS_CONFIRMED''), (''signature_algorithm'', JStr ''Ed25519'')]"

text \<open>The registry generation of a context that passes.\<close>

definition enrollment_context :: "json \<Rightarrow> (obj \<times> int) option" where
  "enrollment_context context_v = do {
     c \<leftarrow> mapping context_v;
     exact c enrollment_context_keys;
     map_of c ''key_epoch'' \<bind> number_field;
     generation \<leftarrow> map_of c ''registry_generation'' \<bind> number_field;
     map_of c ''state_root'' \<bind> commitment_hex;
     map_of c ''activation_id'' \<bind> commitment_hex;
     map_of c ''account_id'' \<bind> identifier_field;
     map_of c ''vault_id'' \<bind> identifier_field;
     Some (c, generation) }"

text \<open>The entry of the target, which \<open>registry_root\<close> checks with the others.\<close>

definition target_entry :: "obj \<Rightarrow> device_entry option" where
  "target_entry p = do {
     device_v \<leftarrow> map_of p ''target_device_id'';
     signing_v \<leftarrow> map_of p ''target_signing_public_b64'';
     agreement_v \<leftarrow> map_of p ''target_agreement_public_b64'';
     read_entry (JObj [(''device_id'', device_v), (''signing_public_b64'', signing_v),
       (''agreement_public_b64'', agreement_v), (''state'', JStr ''ACTIVE'')]) }"

definition verify_enrollment_attestation :: "verifier \<Rightarrow> json \<Rightarrow> json \<Rightarrow> json \<Rightarrow> string \<Rightarrow> registry option" where
  "verify_enrollment_attestation verify proof_v registry context_v status = do {
     p \<leftarrow> mapping proof_v;
     exact p signed_enrollment_keys;
     (c, generation) \<leftarrow> enrollment_context context_v;
     require (status = ''ACTIVE'');
     require (list_all (\<lambda>(k, v). map_of p k = Some v) enrollment_constants);
     require (list_all (\<lambda>k. map_of p k = map_of c k) enrollment_context_keys);
     next_generation \<leftarrow> map_of p ''next_registry_generation'' \<bind> number_field;
     require (next_generation = generation + 1);
     transcript \<leftarrow> map_of p ''transcript_sha256'' \<bind> commitment_hex;
     require (transcript \<noteq> ZERO_ROOT);
     es \<leftarrow> read_registry registry;
     require (map_of p ''prior_registry_root'' = Some (JStr (devices_root es)));
     target \<leftarrow> target_entry p;
     require (\<not> list_ex (\<lambda>e. de_device_id e = de_device_id target) es);
     let after = sort_key de_device_id (es @ [target]);
     require (length after \<le> 256);
     require (map_of p ''resulting_registry_root'' = Some (JStr (devices_root after)));
     agreement \<leftarrow> decode_field 32 (JStr (de_agreement_b64 target));
     require (map_of p ''target_agreement_sha256'' = Some (JStr (sha256_hex agreement)));
     signer \<leftarrow> map_of p ''issuer_device_id'' \<bind> (\<lambda>v. find_active_device v es);
     require (map_of p ''root'' = Some (JStr (enrollment_root p)));
     public \<leftarrow> decode_field 32 (JStr (de_signing_b64 signer));
     signature \<leftarrow> map_of p ''signature_b64'' \<bind> decode_field 64;
     require (verify public signature (enrollment_message (enrollment_root p)));
     Some after }"

definition verify_enrollment :: "verifier \<Rightarrow> json \<Rightarrow> json \<Rightarrow> json \<Rightarrow> json \<Rightarrow> string \<Rightarrow> registry option" where
  "verify_enrollment verify proof_v registry context_v confirmed_v status = do {
     confirmed \<leftarrow> commitment_hex confirmed_v;
     require (confirmed \<noteq> ZERO_ROOT);
     p \<leftarrow> mapping proof_v;
     require (map_of p ''transcript_sha256'' = Some (JStr confirmed));
     verify_enrollment_attestation verify proof_v registry context_v status }"

definition create_enrollment :: "verifier \<Rightarrow> (string \<Rightarrow> string) \<Rightarrow> json \<Rightarrow> json \<Rightarrow> json \<Rightarrow> json \<Rightarrow> string \<Rightarrow> json option" where
  "create_enrollment verify sign unsigned_v registry context_v confirmed_v status = do {
     u \<leftarrow> mapping unsigned_v;
     exact u enrollment_keys;
     require (status = ''ACTIVE'');
     require (map_of u ''transcript_sha256'' = Some confirmed_v);
     confirmed \<leftarrow> commitment_hex confirmed_v;
     require (confirmed \<noteq> ZERO_ROOT);
     let root = enrollment_root u;
     let proof_v = JObj (u @ [(''root'', JStr root), (''signature_b64'', JStr (b64encode (sign (enrollment_message root))))]);
     verify_enrollment verify proof_v registry context_v confirmed_v status;
     Some proof_v }"

end
