(* ===== verification/MembershipHistory.thy ===== *)
theory MembershipHistory
  imports Enrollment
begin

text \<open>
  What removals and enrollments do to a registry, one at a time and in any sequence, and that the text
  a removal is signed over determines it.
\<close>

section \<open>Digests as bytes\<close>

lemma hex_digit_val_digit: "n < 16 \<Longrightarrow> hex_digit_val (hex_digit n) = n"
  by (auto simp: hex_digit_val_def hex_digit_def byte_val_def Let_def)

lemma from_hex_hex_of [simp]: "from_hex (hex_of bs) = bs"
proof (induction bs)
  case (Cons b bs)
  have "byte_val b div 16 < 16" using byte_val_less [of b] by linarith
  then have "byte_of (16 * hex_digit_val (hex_digit (byte_val b div 16)) + hex_digit_val (hex_digit (byte_val b mod 16))) = b"
    by (simp add: hex_digit_val_digit)
  with Cons show ?case by (simp add: hex_of_def)
qed (simp add: hex_of_def)

lemma from_hex_sha256 [simp]: "from_hex (sha256_hex m) = sha256 m"
  by (simp add: sha256_hex_def)

lemma sha256_hex_inject: "sha256_hex m = sha256_hex n \<longleftrightarrow> sha256 m = sha256 n"
  by (metis from_hex_sha256 sha256_hex_def)

lemma removal_message_eq: "removal_message (removal_root r) = removal_message (removal_root s) \<longleftrightarrow>
    sha256_hex (removal_transcript r) = sha256_hex (removal_transcript s)"
  by (simp add: removal_message_def removal_root_def sha256_hex_inject)

lemma removal_transcript_inject:
  assumes "valid_removal r" "valid_removal s" "removal_transcript r = removal_transcript s"
  shows "r = s"
proof -
  have id: "match_identifier t \<Longrightarrow> CHR 0x0A \<notin> set t" for t
    by (auto simp: match_identifier_def list_all_iff identifier_char_def byte_val_def Let_def dest!: bspec)
  define fields where "fields x = [rm_account x, rm_vault x, rm_target x, rm_initiator x, rm_prior_root x,
    rm_resulting_root x, int_str (rm_key_epoch x), int_str (rm_sequence x), DEVICE_PRESENCE]" for x :: removal
  have "text_lines (fields r) = text_lines (fields s)"
    using assms(3) by (simp add: removal_transcript_def fields_def)
  moreover have "list_all (\<lambda>f. CHR 0x0A \<notin> set f) (fields x)" if "valid_removal x" for x
    using that id [OF match_device_presence] by (simp add: fields_def valid_removal_def id no_newline)
  ultimately have "fields r = fields s"
    using assms(1,2) by (intro text_lines_inject) simp_all
  then show ?thesis by (cases r; cases s) (simp add: fields_def int_str_inject_all)
qed

section \<open>The life of a device\<close>

text \<open>The state of a device in a registry, if it has an entry.\<close>

definition device_state_in :: "registry \<Rightarrow> string \<Rightarrow> device_state option" where
  "device_state_in es d = map_option de_state (find_device d es)"

lemma find_device_distinct:
  "distinct (map de_device_id es) \<Longrightarrow> e \<in> set es \<Longrightarrow> find_device (de_device_id e) es = Some e"
proof (induction es)
  case (Cons x es)
  then show ?case by (cases "e = x") (auto simp: find_device_def image_iff)
qed simp

lemma find_device_iff:
  "distinct (map de_device_id es) \<Longrightarrow> find_device d es = Some e \<longleftrightarrow> e \<in> set es \<and> de_device_id e = d"
  using find_device_distinct find_device_Some by metis

lemma active_state: "distinct (map de_device_id es) \<Longrightarrow> d \<in> set (active_ids es) \<longleftrightarrow> device_state_in es d = Some Active"
  by (auto simp: active_ids_def device_state_in_def find_device_iff image_iff)

lemma state_set_revoked:
  "distinct (map de_device_id es) \<Longrightarrow> device_state_in (set_revoked target es) d =
    (if d = target then map_option (\<lambda>_. Revoked) (device_state_in es d) else device_state_in es d)"
  unfolding device_state_in_def find_device_def set_revoked_def
  by (induction es) (auto simp: if_distrib)

lemma removal_step:
  assumes "valid_devices es" "verify_transition verify t es = Inr after"
  obtains r where "removal_of t = Some r" "valid_removal r" "after = set_revoked (rm_target r) es" "valid_devices after"
    "device_state_in es (rm_target r) = Some Active" "device_state_in es (rm_initiator r) = Some Active"
    "rm_target r \<noteq> rm_initiator r"
proof -
  have d: "distinct (map de_device_id es)" using assms(1) by (simp add: valid_devices_def)
  obtain r where "removal_of t = Some r" "valid_removal r" "rm_target r \<noteq> rm_initiator r"
    "rm_target r \<in> set (active_ids es)" "rm_initiator r \<in> set (active_ids es)" "after = set_revoked (rm_target r) es"
    using verify_transition_effect [OF assms(2)] by blast
  then show ?thesis using that set_revoked_valid [OF assms(1)] active_state [OF d] by simp
qed

lemma enrollment_step:
  assumes "verify_enrollment_attestation verify p registry ctx status = Some after"
  obtains es target issuer where "read_registry registry = Some es" "valid_devices es"
    "after = sort_key de_device_id (es @ [target])" "valid_devices after" "de_state target = Active"
    "de_device_id target \<notin> de_device_id ` set es" "issuer \<in> set es" "de_state issuer = Active"
proof -
  obtain es obj target issuer v where s: "read_registry registry = Some es" "target_entry obj = Some target"
    "\<not> list_ex (\<lambda>e. de_device_id e = de_device_id target) es"
    "after = sort_key de_device_id (es @ [target])" "length after \<le> 256" "find_active_device v es = Some issuer"
    using assms unfolding verify_enrollment_attestation_def Let_def
    by (elim bind_SomeE) (auto elim!: bind_SomeE split: prod.splits)
  have v: "valid_devices es" by (rule read_registry_valid [OF s(1)])
  have t: "entry_keys_of target \<noteq> None" "de_state target = Active"
    using s(2) by (auto simp: target_entry_def read_entry_def Let_def elim!: bind_SomeE)
  have n: "de_device_id target \<notin> de_device_id ` set es" using s(3) by (auto simp: list_ex_iff)
  have "distinct (map de_device_id after)"
    using v n unfolding s(4) valid_devices_def by (simp add: distinct_map inj_on_def) (metis image_eqI)
  moreover have "list_all (\<lambda>e. entry_keys_of e \<noteq> None) after"
    using v t(1) unfolding s(4) valid_devices_def list_all_iff by simp
  ultimately have "valid_devices after" using s(5) unfolding valid_devices_def by (simp add: s(4))
  moreover have "issuer \<in> set es" "de_state issuer = Active"
    using s(6) by (auto simp: find_active_device_def find_Some_iff)
  ultimately show ?thesis by (intro that [OF s(1) v s(4) _ t(2) n])
qed

text \<open>Removals and enrollments of one vault, in the order in which they were admitted.\<close>

inductive membership_step :: "verifier \<Rightarrow> registry \<Rightarrow> registry \<Rightarrow> bool" for verify where
  step_remove: "verify_transition verify t es = Inr after \<Longrightarrow> membership_step verify es after"
| step_enroll: "verify_enrollment_attestation verify p (registry_dict es) ctx status = Some after \<Longrightarrow>
     membership_step verify es after"

lemma state_after_enrollment:
  assumes "valid_devices es" "valid_devices (sort_key de_device_id (es @ [target]))"
  shows "device_state_in (sort_key de_device_id (es @ [target])) d =
    (if d = de_device_id target then Some (de_state target) else device_state_in es d)"
proof -
  let ?after = "sort_key de_device_id (es @ [target])"
  have d: "distinct (map de_device_id es)" "distinct (map de_device_id ?after)"
    using assms by (simp_all add: valid_devices_def)
  have f: "find_device d ?after = Some e \<longleftrightarrow> e \<in> insert target (set es) \<and> de_device_id e = d" for e
    unfolding find_device_iff [OF d(2)] by auto
  show ?thesis
  proof (cases "d = de_device_id target")
    case True
    then have "find_device d ?after = Some target" using f [of target] by simp
    with True show ?thesis by (simp add: device_state_in_def)
  next
    case False
    then have eq: "find_device d ?after = Some e \<longleftrightarrow> find_device d es = Some e" for e
      using f [of e] find_device_iff [OF d(1), of d e] by auto
    have "find_device d ?after = find_device d es"
    proof (cases "find_device d es")
      case None
      then show ?thesis using eq by (metis option.exhaust)
    next
      case (Some e)
      then show ?thesis using eq [of e] by metis
    qed
    with False show ?thesis by (simp add: device_state_in_def)
  qed
qed

lemma membership_step_effect:
  assumes "valid_devices es" "membership_step verify es after"
  shows "valid_devices after" "active_ids after \<noteq> []"
    "device_state_in es d = Some Revoked \<Longrightarrow> device_state_in after d = Some Revoked"
    "device_state_in es d = Some Active \<Longrightarrow> device_state_in after d \<noteq> None"
proof -
  have "valid_devices after \<and> active_ids after \<noteq> []
    \<and> (device_state_in es d = Some Revoked \<longrightarrow> device_state_in after d = Some Revoked)
    \<and> (device_state_in es d = Some Active \<longrightarrow> device_state_in after d \<noteq> None)"
    using assms(2)
  proof cases
    case (step_remove t)
    obtain r :: removal where r: "after = set_revoked (rm_target r) es" "valid_devices after"
      "device_state_in es (rm_target r) = Some Active" "device_state_in es (rm_initiator r) = Some Active"
      "rm_target r \<noteq> rm_initiator r" by (rule removal_step [OF assms(1) step_remove]) (rule that)
    have dist: "distinct (map de_device_id es)" "distinct (map de_device_id after)"
      using assms(1) r(2) by (simp_all add: valid_devices_def)
    have "device_state_in after (rm_initiator r) = Some Active"
      using r(1,4,5) by (simp add: state_set_revoked [OF dist(1)])
    then have "active_ids after \<noteq> []" using active_state [OF dist(2)] by force
    then show ?thesis using r(2) by (auto simp: r(1) state_set_revoked [OF dist(1)])
  next
    case (step_enroll p ctx status)
    obtain target where t: "after = sort_key de_device_id (es @ [target])"
      "valid_devices after" "de_state target = Active" "de_device_id target \<notin> de_device_id ` set es"
      by (rule enrollment_step [OF step_enroll]) (simp add: read_registry_of [OF assms(1)])
    have "find_device (de_device_id target) es = None"
      using t(4) unfolding find_device_def find_None_iff by (metis image_eqI)
    then have "device_state_in es (de_device_id target) = None" by (simp add: device_state_in_def)
    moreover have "de_device_id target \<in> set (active_ids after)" using t(1,3) by (auto simp: active_ids_def)
    moreover have "device_state_in after d = (if d = de_device_id target then Some (de_state target) else device_state_in es d)"
      using state_after_enrollment [OF assms(1), of target d] t(2) unfolding t(1) by simp
    ultimately show ?thesis using t(2) by force
  qed
  then show "valid_devices after" "active_ids after \<noteq> []"
    "device_state_in es d = Some Revoked \<Longrightarrow> device_state_in after d = Some Revoked"
    "device_state_in es d = Some Active \<Longrightarrow> device_state_in after d \<noteq> None" by simp_all
qed

lemma membership_life:
  assumes "(membership_step verify)\<^sup>*\<^sup>* es after" "valid_devices es" "active_ids es \<noteq> []"
  shows "valid_devices after \<and> active_ids after \<noteq> []
    \<and> (device_state_in es d = Some Revoked \<longrightarrow> device_state_in after d = Some Revoked)
    \<and> (device_state_in es d \<noteq> None \<longrightarrow> device_state_in after d \<noteq> None)"
  using assms(1)
proof (induction rule: rtranclp_induct)
  case (step xs ys)
  then have v: "valid_devices xs" by simp
  note e = membership_step_effect [OF v step.hyps(2)]
  have "device_state_in xs d \<noteq> None \<longrightarrow> device_state_in ys d \<noteq> None"
    using e(3,4) by (metis device_state.exhaust not_None_eq)
  then show ?case using step.IH e(1,2,3) by blast
qed (use assms in simp)

end
