(* ===== verification/RevocationSamples.thy ===== *)
theory RevocationSamples
  imports MembershipHistory ShaBits
begin

text \<open>
  Two devices, the removal of one by the other, the rotation that follows it and an enrollment.  That
  their identifiers differ is a computation of two digests.
\<close>

section \<open>Two devices\<close>

definition key_bytes :: "char \<Rightarrow> string" where
  "key_bytes c = replicate 32 c"

definition id_message :: "char \<Rightarrow> char \<Rightarrow> string" where
  "id_message c d = DEVICE_ID_DOMAIN @ key_bytes c @ key_bytes d"

lemma length_id_message: "length (id_message c d) = 88"
  by (simp add: id_message_def DEVICE_ID_DOMAIN_def key_bytes_def)

lemma identifiers_differ: "sha256 (id_message (CHR 0x02) (CHR 0x03)) \<noteq> sha256 (id_message (CHR 0x04) (CHR 0x05))"
  apply (rule sha256_differ_88 [OF length_id_message length_id_message])
  apply (simp only: pad_88 [OF length_id_message])
  apply (simp only: id_message_def key_bytes_def DEVICE_ID_DOMAIN_def message_eval)
  apply (simp only: block_eval)
  apply simp
  done

definition sample_device :: "char \<Rightarrow> char \<Rightarrow> device_entry" where
  "sample_device c d = \<lparr>de_device_id = ''avd1-'' @ sha256_hex (id_message c d), de_signing_b64 = b64encode (key_bytes c),
     de_agreement_b64 = b64encode (key_bytes d), de_state = Active\<rparr>"

definition first_device :: device_entry where
  "first_device = sample_device (CHR 0x02) (CHR 0x03)"

definition second_device :: device_entry where
  "second_device = sample_device (CHR 0x04) (CHR 0x05)"

abbreviation first_id :: string where
  "first_id \<equiv> de_device_id first_device"

abbreviation second_id :: string where
  "second_id \<equiv> de_device_id second_device"

definition sample_devices :: registry where
  "sample_devices = [first_device, second_device]"

lemma length_key_bytes [simp]: "length (key_bytes c) = 32"
  by (simp add: key_bytes_def)

lemma sample_entry_keys: "entry_keys_of (sample_device c d) = Some (key_bytes c, key_bytes d)"
  by (simp add: entry_keys_of_def sample_device_def decode_field_encode derive_device_id_def DEVICE_KEY_BYTES_def id_message_def)

lemma ids_differ [simp]: "first_id \<noteq> second_id" "second_id \<noteq> first_id"
proof -
  have "sha256_hex (id_message (CHR 0x02) (CHR 0x03)) \<noteq> sha256_hex (id_message (CHR 0x04) (CHR 0x05))"
    unfolding sha256_hex_inject by (rule identifiers_differ)
  then show "first_id \<noteq> second_id" "second_id \<noteq> first_id"
    unfolding first_device_def second_device_def sample_device_def by simp_all
qed

lemma sample_states [simp]: "de_state first_device = Active" "de_state second_device = Active"
  by (simp_all add: first_device_def second_device_def sample_device_def)

lemma sample_devices_valid: "valid_devices sample_devices" "valid_devices [first_device]"
  using ids_differ by (simp_all add: valid_devices_def sample_devices_def first_device_def second_device_def sample_entry_keys)

lemma active_sample: "active_ids sample_devices = [first_id, second_id]"
  by (simp add: active_ids_def sample_devices_def)

lemma sample_id_identifier: "match_identifier (de_device_id (sample_device c d))"
proof -
  have "list_all identifier_char (sha256_hex m)" for m
  proof -
    have "is_hex x \<Longrightarrow> identifier_char x" for x by (auto simp: is_hex_def identifier_char_def Let_def)
    then show ?thesis using list_all_sha256_hex [of m] by (auto simp: list_all_iff)
  qed
  then show ?thesis by (simp add: match_identifier_def sample_device_def identifier_char_def byte_val_def)
qed

section \<open>A removal\<close>

definition sample_after :: registry where
  "sample_after = set_revoked second_id sample_devices"

definition sample_removal :: removal where
  "sample_removal = \<lparr>rm_account = ''o'', rm_vault = ''v'', rm_target = second_id, rm_initiator = first_id,
     rm_prior_root = devices_root sample_devices, rm_resulting_root = devices_root sample_after,
     rm_key_epoch = 1, rm_sequence = 1\<rparr>"

definition sample_transition :: json where
  "sample_transition = signed_removal sample_removal sample_signature"

lemma match_devices_root [simp]: "match_sha256 (devices_root es)"
  by (simp add: devices_root_def)

lemma sample_removal_valid: "valid_removal sample_removal"
  using sample_id_identifier
  by (simp add: valid_removal_def sample_removal_def first_device_def second_device_def)
    (simp add: match_identifier_def identifier_char_def byte_val_def)

lemma sample_public_key: "key_bytes (CHR 0x02) = sample_public"
proof -
  have "byte_of 2 = CHR 0x02" by (simp add: byte_of_def) code_simp
  then show ?thesis by (simp add: key_bytes_def sample_public_def)
qed

lemma first_signer: "decode_field 32 (JStr (de_signing_b64 first_device)) = Some sample_public"
  by (simp add: first_device_def sample_device_def decode_field_encode flip: sample_public_key)

lemma sample_transition_verified: "verify_transition sample_verify sample_transition sample_devices = Inr sample_after"
  unfolding sample_transition_def
proof (rule verify_transition_signed [OF sample_removal_valid])
  show "find_device (rm_initiator sample_removal) sample_devices = Some first_device"
    by (simp add: find_device_def sample_removal_def sample_devices_def)
  show "decode_field 32 (JStr (de_signing_b64 first_device)) = Some sample_public" by (rule first_signer)
qed (simp_all add: sample_removal_def removed_iff active_sample sample_after_def sample_verify_def)

lemma sample_removal_of: "removal_of sample_transition = Some sample_removal"
  by (simp add: removal_of_def sample_transition_def signed_removal_def without_signature_signed
      removal_from_to [OF sample_removal_valid])

lemma active_after: "active_ids sample_after = [first_id]"
  by (simp add: sample_after_def active_set_revoked active_sample)

end
