(* ===== verification/RevocationProperties.thy ===== *)
theory RevocationProperties
  imports RevocationSamples
begin

text \<open>
  The properties of removals, rotations and enrollments: a revocation is permanent, a store keeps the
  first removal it commits, a removal cannot be forged, and only the remaining devices get a new epoch.
\<close>

section \<open>The life of a device\<close>

text \<open>C32: whatever removals and enrollments are admitted, in any order, a device that was revoked stays
  revoked, its identity is never enrolled again, and the registry stays well formed with at least one
  device that can act.\<close>

theorem revocation_is_permanent:
  assumes "(membership_step verify)\<^sup>*\<^sup>* es after" and "valid_devices es" and "active_ids es \<noteq> []"
    and "device_state_in es d = Some Revoked"
  shows "device_state_in after d = Some Revoked \<and> valid_devices after \<and> active_ids after \<noteq> []
    \<and> \<not> (\<exists>p ctx status later. verify_enrollment_attestation verify p (registry_dict after) ctx status = Some later
          \<and> device_state_in later d \<noteq> Some Revoked)"
proof -
  have a: "device_state_in after d = Some Revoked" "valid_devices after" "active_ids after \<noteq> []"
    using membership_life [OF assms(1-3), of d] assms(4) by simp_all
  have "device_state_in later d = Some Revoked"
    if "verify_enrollment_attestation verify p (registry_dict after) ctx status = Some later" for p ctx status later
    using membership_step_effect(3) [OF a(2) step_enroll [OF that] a(1)] .
  with a show ?thesis by blast
qed

lemma sample_step: "membership_step sample_verify sample_devices sample_after"
  by (rule step_remove [OF sample_transition_verified])

lemma sample_after_state: "device_state_in sample_after second_id = Some Revoked" "valid_devices sample_after"
proof -
  have "distinct (map de_device_id sample_devices)" by (simp add: sample_devices_def)
  from state_set_revoked [OF this] show "device_state_in sample_after second_id = Some Revoked"
    by (simp add: sample_after_def device_state_in_def find_device_def sample_devices_def)
  show "valid_devices sample_after" by (simp add: sample_after_def set_revoked_valid sample_devices_valid)
qed

theorem revocation_is_permanent_witness:
  "device_state_in sample_after second_id = Some Revoked \<and> active_ids sample_after \<noteq> []"
  using revocation_is_permanent [OF rtranclp.rtrancl_refl sample_after_state(2) _ sample_after_state(1), of sample_verify] active_after
  by simp

section \<open>The store of removals\<close>

text \<open>C33: a store keeps the first removal it commits.  It never commits another: after the first, no call
  changes the file but the fence, a commit answers True never again, a snapshot never shows the
  removed device as active nor the store as open for a removal, and no removal is prepared.\<close>

theorem first_removal_is_final:
  assumes "revocation_run verify ctx st log" and "log \<noteq> []" and "valid_devices (rv_initial ctx)"
  shows "\<exists>t r after. log = [t] \<and> removal_of t = Some r \<and> verify_transition verify t (rv_initial ctx) = Inr after
    \<and> (\<forall>u. snd (revocation_commit verify ctx st u) = st \<and> fst (revocation_commit verify ctx st u) \<noteq> Inr True)
    \<and> (case revocation_snapshot verify ctx st of Inl _ \<Rightarrow> True | Inr s \<Rightarrow> vw_registry s = after
         \<and> device_state_in (vw_registry s) (rm_target r) = Some Revoked \<and> vw_status s \<noteq> Status_active)
    \<and> (\<forall>target initiator. \<exists>e. revocation_prepare verify ctx st target initiator = Inl e)"
proof -
  obtain pending where h: "revocation_holds verify ctx st log pending"
    using revocation_run_holds [OF assms(1)] by blast
  then obtain t where t: "log = [t]" "keepable verify ctx t" "st = revocation_file ctx t pending"
    using assms(2) by (cases log) (auto simp: revocation_holds_def kept_def)
  obtain after where after: "verify_transition verify t (rv_initial ctx) = Inr after"
    using t(2) by (auto simp: keepable_def)
  obtain r where r: "removal_of t = Some r" "after = set_revoked (rm_target r) (rv_initial ctx)"
    "device_state_in (rv_initial ctx) (rm_target r) = Some Active"
    by (rule removal_step [OF assms(3) after]) simp
  have commit: "snd (revocation_commit verify ctx st u) = st \<and> fst (revocation_commit verify ctx st u) \<noteq> Inr True" for u
    using commit_holds [OF h, of u] assms(2) by (cases "revocation_commit verify ctx st u") (auto split: if_splits)
  have "distinct (map de_device_id (rv_initial ctx))" using assms(3) by (simp add: valid_devices_def)
  then have revoked: "device_state_in after (rm_target r) = Some Revoked"
    using r by (simp add: state_set_revoked)
  have "t \<noteq> JNull" by (rule admissible_not_null [OF t(2)])
  then have snap: "case revocation_snapshot verify ctx st of Inl _ \<Rightarrow> True | Inr s \<Rightarrow> vw_registry s = after
      \<and> device_state_in (vw_registry s) (rm_target r) = Some Revoked \<and> vw_status s \<noteq> Status_active"
    using revocation_read_of [OF disjI2 [OF t(2)], of pending] revoked after
    unfolding revocation_snapshot_def t(3) by (auto split: sum.splits)
  moreover have "\<exists>e. revocation_prepare verify ctx st target initiator = Inl e" for target initiator
    using snap unfolding revocation_prepare_def by (auto split: sum.splits)
  ultimately show ?thesis using t(1) r(1) after commit by blast
qed

section \<open>A run of the store\<close>

definition sample_revocation_context :: revocation_context where
  "sample_revocation_context = \<lparr>rv_account = ''o'', rv_vault = ''v'', rv_key_epoch = 1, rv_state_root = ZERO_ROOT,
     rv_registry_root = devices_root sample_devices, rv_initial = sample_devices\<rparr>"

definition valid_revocation_context :: "revocation_context \<Rightarrow> bool" where
  "valid_revocation_context ctx \<longleftrightarrow> match_identifier (rv_account ctx) \<and> match_identifier (rv_vault ctx)
     \<and> 1 \<le> rv_key_epoch ctx \<and> rv_key_epoch ctx < 9007199254740991 \<and> match_sha256 (rv_state_root ctx)
     \<and> rv_registry_root ctx = devices_root (rv_initial ctx) \<and> valid_devices (rv_initial ctx)"

lemma revocation_init_valid: "revocation_init a v e registry s = Some ctx \<Longrightarrow> valid_revocation_context ctx"
  by (auto simp: revocation_init_def valid_revocation_context_def dest: read_registry_valid elim!: bind_SomeE)

lemma sample_revocation_context_valid [simp]: "valid_revocation_context sample_revocation_context"
  using sample_devices_valid
  by (simp add: valid_revocation_context_def sample_revocation_context_def)
    (simp add: match_identifier_def identifier_char_def byte_val_def)

lemma number_width: "1 \<le> n \<Longrightarrow> n < 9007199254740991 \<Longrightarrow> length (int_str n) \<le> 19"
  by (rule sequence_width) (simp_all add: MAX_COMMITMENT_SEQUENCE_def)

lemma removal_weight:
  assumes "valid_removal r" "length signature = 64"
  shows "json_weight (signed_removal r signature) \<le> 10000"
proof -
  have "length (int_str (rm_key_epoch r)) \<le> 19" "length (int_str (rm_sequence r)) \<le> 19" "length (int_str 1) \<le> 19"
    using assms(1) number_width by (simp_all add: valid_removal_def)
  moreover have "length (removal_root r) = 64" by (simp add: removal_root_def)
  ultimately show ?thesis
    using assms by (simp add: signed_removal_def removal_dict_def valid_removal_def match_identifier_def match_sha256_def
        DEVICE_PRESENCE_def length_b64encode)
qed

lemma revocation_context_weight:
  assumes "valid_revocation_context ctx"
  shows "json_weight (revocation_context_dict ctx) \<le> 4000"
proof -
  have "length (int_str (rv_key_epoch ctx)) \<le> 19" "match_sha256 (rv_registry_root ctx)"
    using assms number_width by (simp_all add: valid_revocation_context_def)
  then show ?thesis
    using assms by (simp add: revocation_context_dict_def valid_revocation_context_def match_identifier_def match_sha256_def)
qed

text \<open>A file with a removal that was signed is far below its limit of one mebibyte.\<close>

lemma revocation_file_small:
  assumes "valid_revocation_context ctx" "t = JNull \<or> (\<exists>r signature. t = signed_removal r signature \<and> valid_removal r \<and> length signature = 64)"
  shows "small_file (revocation_dict (revocation_context_dict ctx) t pending)"
    "write_fits (revocation_dict (revocation_context_dict ctx) t pending)"
proof -
  have "json_weight t \<le> 10000" using assms(2) removal_weight by auto
  then have w: "json_weight (revocation_dict (revocation_context_dict ctx) t pending) \<le> 20000"
    using revocation_context_weight [OF assms(1)] by (simp add: revocation_dict_def)
  then show "write_fits (revocation_dict (revocation_context_dict ctx) t pending)"
    unfolding revocation_dict_def by (intro write_fits_weight) simp
  have "length (canonical_json (revocation_dict (revocation_context_dict ctx) t pending)) \<le> 20000"
    using w length_dumps order_trans unfolding canonical_json_def by blast
  then show "small_file (revocation_dict (revocation_context_dict ctx) t pending)"
    unfolding small_file_def queue_file_length_def by simp
qed

lemma sample_revocation_started:
  "revocation_run sample_verify sample_revocation_context (revocation_file sample_revocation_context JNull False) []"
  by (rule rv_start [of _ None])
    (use revocation_file_small(2) [OF sample_revocation_context_valid] in \<open>simp add: revocation_initialize_def store_write_def\<close>)

lemma check_context_signed:
  assumes "rm_account r = rv_account ctx" "rm_vault r = rv_vault ctx" "rm_key_epoch r = rv_key_epoch ctx" "rm_sequence r = 1"
  shows "check_context ctx (signed_removal r signature) = Some ()"
  using assms by (simp add: check_context_def signed_removal_def removal_dict_def)

lemma transition_root_signed: "transition_root_v (signed_removal r signature) = Some (JStr (removal_root r))"
  by (simp add: transition_root_v_def signed_removal_def signed_removal_fields del: map_of_append)

lemma prepared_removal:
  assumes "valid_revocation_context ctx" and "revocation_holds verify ctx st log pending"
    and "revocation_prepare verify ctx st target initiator = Inr r"
  shows "log = []" "\<not> pending" "removed (rv_initial ctx) target initiator = Inr (set_revoked target (rv_initial ctx))"
    "r = \<lparr>rm_account = rv_account ctx, rm_vault = rv_vault ctx, rm_target = target, rm_initiator = initiator,
       rm_prior_root = devices_root (rv_initial ctx), rm_resulting_root = devices_root (set_revoked target (rv_initial ctx)),
       rm_key_epoch = rv_key_epoch ctx, rm_sequence = 1\<rparr>"
proof -
  have st: "st = revocation_file ctx (kept log) pending" using assms(2) by (simp add: revocation_holds_def)
  obtain s after where s: "revocation_snapshot verify ctx st = Inr s" "vw_status s = Status_active"
    "removed (vw_registry s) target initiator = Inr after"
    "r = \<lparr>rm_account = rv_account ctx, rm_vault = rv_vault ctx, rm_target = target, rm_initiator = initiator,
       rm_prior_root = vw_root s, rm_resulting_root = devices_root after, rm_key_epoch = rv_key_epoch ctx, rm_sequence = 1\<rparr>"
    using assms(3) by (auto simp: revocation_prepare_def and_then_Inr split: if_splits)
  then have f: "kept log = JNull" "\<not> pending" "vw_registry s = rv_initial ctx" "vw_root s = devices_root (rv_initial ctx)"
    using revocation_read_of [OF revocation_holds_kept [OF assms(2)], of pending]
    unfolding revocation_snapshot_def st by (auto simp: and_then_Inr split: if_splits)
  then show "log = []" "\<not> pending" using kept_null [OF assms(2)] by simp_all
  show "removed (rv_initial ctx) target initiator = Inr (set_revoked target (rv_initial ctx))"
    using s(3) by (simp add: f(3) removed_iff)
  then show "r = \<lparr>rm_account = rv_account ctx, rm_vault = rv_vault ctx, rm_target = target, rm_initiator = initiator,
       rm_prior_root = devices_root (rv_initial ctx), rm_resulting_root = devices_root (set_revoked target (rv_initial ctx)),
       rm_key_epoch = rv_key_epoch ctx, rm_sequence = 1\<rparr>"
    using s(3,4) by (simp add: f(3,4))
qed

lemma device_id_identifier:
  assumes "entry_keys_of e = Some keys"
  shows "match_identifier (de_device_id e)"
proof -
  have hex: "is_hex x \<Longrightarrow> identifier_char x" for x by (auto simp: is_hex_def identifier_char_def Let_def)
  obtain m where m: "de_device_id e = ''avd1-'' @ sha256_hex m"
    using assms by (auto simp: entry_keys_of_def derive_device_id_def elim!: bind_SomeE)
  have "list_all identifier_char (sha256_hex m)"
    using hex list_all_sha256_hex [of m] by (auto simp: list_all_iff)
  then show ?thesis by (simp add: m match_identifier_def identifier_char_def byte_val_def)
qed

lemma active_device:
  assumes "valid_devices es" "d \<in> set (active_ids es)"
  obtains e signing agreement where "find_device d es = Some e" "entry_keys_of e = Some (signing, agreement)"
    "decode_field 32 (JStr (de_signing_b64 e)) = Some signing" "de_device_id e = d" "match_identifier d"
proof -
  obtain e where e: "find_device d es = Some e" using find_active [OF assms(2)] by blast
  then have m: "e \<in> set es" "de_device_id e = d" using find_device_Some by blast+
  then obtain keys where k: "entry_keys_of e = Some keys"
    using assms(1) by (auto simp: valid_devices_def list_all_iff)
  obtain signing agreement where keys: "keys = (signing, agreement)" by (cases keys)
  with k have "decode_field 32 (JStr (de_signing_b64 e)) = Some signing"
    by (auto simp: entry_keys_of_def elim!: bind_SomeE)
  then show ?thesis using that [OF e k [unfolded keys] _ m(2)] device_id_identifier [OF k] m(2) by blast
qed

lemma admissible_commit:
  assumes "valid_revocation_context ctx" "keepable verify ctx t"
    and "t = signed_removal r signature" "valid_removal r" "length signature = 64"
  shows "revocation_commit verify ctx (revocation_file ctx JNull False) t = (Inr True, revocation_file ctx t False)"
    "revocation_commit verify ctx (revocation_file ctx t False) t = (Inr False, revocation_file ctx t False)"
    "small_file (revocation_dict (revocation_context_dict ctx) t False)"
proof -
  have "t = JNull \<or> (\<exists>r signature. t = signed_removal r signature \<and> valid_removal r \<and> length signature = 64)"
    using assms(3-5) by blast
  note small = revocation_file_small [OF assms(1) this, of False] revocation_file_small [OF assms(1), of JNull False]
  then show "small_file (revocation_dict (revocation_context_dict ctx) t False)" by simp
  obtain after where v: "check_context ctx t = Some ()" "verify_transition verify t (rv_initial ctx) = Inr after"
    using assms(2) by (auto simp: keepable_def)
  show "revocation_commit verify ctx (revocation_file ctx JNull False) t = (Inr True, revocation_file ctx t False)"
    using small v unfolding revocation_commit_of [OF disjI1 [OF refl]] by (simp add: Let_def)
  show "revocation_commit verify ctx (revocation_file ctx t False) t = (Inr False, revocation_file ctx t False)"
    using small(1) v admissible_not_null [OF assms(2)]
    unfolding revocation_commit_of [OF disjI2 [OF assms(2)]] by (simp add: Let_def)
qed

text \<open>An honest removal goes through: what prepare returns, signed by the initiator, is committed; a
  repetition of the commit answers False and changes nothing; and from then on a snapshot shows the
  target revoked, with the removal pending.\<close>

theorem honest_removal_committed:
  assumes "valid_revocation_context ctx" and "revocation_run verify ctx st log"
    and "revocation_prepare verify ctx st target initiator = Inr r"
    and "find_device initiator (rv_initial ctx) = Some e" and "entry_keys_of e = Some (signing, agreement)"
    and "\<And>m. length (sign m) = 64 \<and> verify signing (sign m) m" and "t = signed_removal r (sign (removal_message (removal_root r)))"
  shows "revocation_commit verify ctx st t = (Inr True, revocation_file ctx t False)
    \<and> revocation_commit verify ctx (revocation_file ctx t False) t = (Inr False, revocation_file ctx t False)
    \<and> revocation_snapshot verify ctx (revocation_file ctx t False) = Inr \<lparr>vw_registry = set_revoked target (rv_initial ctx),
        vw_root = rm_resulting_root r, vw_sequence = 1, vw_status = Status_revocation_pending, vw_transition = t\<rparr>"
proof -
  obtain pending where h: "revocation_holds verify ctx st log pending"
    using revocation_run_holds [OF assms(2)] by blast
  note p = prepared_removal [OF assms(1) h assms(3)]
  let ?after = "set_revoked target (rv_initial ctx)"
  have vr: "valid_devices (rv_initial ctx)" using assms(1) by (simp add: valid_revocation_context_def)
  have ids: "target \<in> set (active_ids (rv_initial ctx))" "initiator \<in> set (active_ids (rv_initial ctx))"
    using p(3) by (simp_all add: removed_iff)
  have "match_identifier target" "match_identifier initiator"
    by (rule active_device [OF vr ids(1)], assumption, rule active_device [OF vr ids(2)], assumption)
  then have r: "valid_removal r" using assms(1) by (simp add: p(4) valid_removal_def valid_revocation_context_def)
  have signing: "decode_field 32 (JStr (de_signing_b64 e)) = Some signing"
    using assms(5) by (auto simp: entry_keys_of_def elim!: bind_SomeE)
  have v: "verify_transition verify t (rv_initial ctx) = Inr ?after"
    unfolding assms(7)
    by (rule verify_transition_signed [OF r, where signer = e and public = signing])
      (use p(3) assms(4,6) signing in \<open>simp_all add: p(4)\<close>)
  have c: "check_context ctx t = Some ()" unfolding assms(7) by (rule check_context_signed) (simp_all add: p(4))
  then have a: "keepable verify ctx t" using v by (simp add: keepable_def)
  note commit = admissible_commit [OF assms(1) a assms(7) r conjunct1 [OF assms(6)]]
  have st: "st = revocation_file ctx JNull False" using h p(1,2) by (simp add: revocation_holds_def kept_def)
  have "t \<noteq> JNull" by (rule admissible_not_null [OF a])
  then have "revocation_snapshot verify ctx (revocation_file ctx t False) = Inr \<lparr>vw_registry = ?after,
      vw_root = rm_resulting_root r, vw_sequence = 1, vw_status = Status_revocation_pending, vw_transition = t\<rparr>"
    using v commit(3) revocation_read_of [OF disjI2 [OF a], of False] by (simp add: revocation_snapshot_def p(4))
  with commit(1,2) show ?thesis unfolding st by blast
qed

lemma sample_prepared:
  "revocation_prepare sample_verify sample_revocation_context (revocation_file sample_revocation_context JNull False) second_id first_id
     = Inr sample_removal"
proof -
  have r: "revocation_read sample_verify sample_revocation_context (revocation_file sample_revocation_context JNull False)
      = Inr (revocation_context_dict sample_revocation_context, JNull, False)"
    using revocation_file_small(1) [OF sample_revocation_context_valid] by (simp add: revocation_read_of)
  have "removed sample_devices second_id first_id = Inr sample_after"
    by (simp add: removed_iff active_sample sample_after_def)
  then show ?thesis
    by (simp add: revocation_prepare_def revocation_snapshot_def r) (simp add: sample_revocation_context_def sample_removal_def)
qed

lemma sample_admissible: "keepable sample_verify sample_revocation_context sample_transition"
proof -
  have "check_context sample_revocation_context sample_transition = Some ()"
    unfolding sample_transition_def
    by (rule check_context_signed) (simp_all add: sample_removal_def sample_revocation_context_def)
  moreover have "rv_initial sample_revocation_context = sample_devices" by (simp add: sample_revocation_context_def)
  ultimately show ?thesis using sample_transition_verified by (simp add: keepable_def)
qed

theorem honest_removal_committed_witness:
  "revocation_commit sample_verify sample_revocation_context (revocation_file sample_revocation_context JNull False) sample_transition
     = (Inr True, revocation_file sample_revocation_context sample_transition False)"
proof (rule conjunct1 [OF honest_removal_committed [OF sample_revocation_context_valid sample_revocation_started sample_prepared]])
  show "find_device first_id (rv_initial sample_revocation_context) = Some first_device"
    by (simp add: find_device_def sample_devices_def sample_revocation_context_def)
  show "entry_keys_of first_device = Some (sample_public, key_bytes (CHR 0x03))"
    by (simp add: first_device_def sample_entry_keys sample_public_key)
  show "length ((\<lambda>_. sample_signature) m) = 64 \<and> sample_verify sample_public ((\<lambda>_. sample_signature) m) m" for m :: string
    by (simp add: sample_verify_def)
  show "sample_transition = signed_removal sample_removal ((\<lambda>_. sample_signature) (removal_message (removal_root sample_removal)))"
    by (simp add: sample_transition_def)
qed

lemma sample_committed:
  "revocation_run sample_verify sample_revocation_context
     (revocation_file sample_revocation_context sample_transition False) [sample_transition]"
proof -
  have "length sample_signature = 64" by simp
  from rv_commit [OF sample_revocation_started
      admissible_commit(1) [OF sample_revocation_context_valid sample_admissible sample_transition_def sample_removal_valid this]]
  show ?thesis by simp
qed

theorem first_removal_is_final_witness:
  "\<exists>t r after. [sample_transition] = [t] \<and> removal_of t = Some r
     \<and> verify_transition sample_verify t (rv_initial sample_revocation_context) = Inr after"
proof -
  have "valid_devices (rv_initial sample_revocation_context)"
    by (simp add: sample_revocation_context_def sample_devices_valid)
  from first_removal_is_final [OF sample_committed _ this] show ?thesis by blast
qed

section \<open>Forgery\<close>

text \<open>C34: a removal cannot be forged: when the key of the initiator verifies nothing but the removals its
  owner signed, an admitted removal is one of them, field by field, or two different transcripts with
  the same SHA-256 digest exist.\<close>

theorem removal_not_forged:
  assumes "verify_transition verify t es = Inr after" and "removal_of t = Some r"
    and "find_device (rm_initiator r) es = Some e" and "decode_field 32 (JStr (de_signing_b64 e)) = Some public"
    and "\<And>s m. verify public s m \<Longrightarrow> m \<in> (\<lambda>q. removal_message (removal_root q)) ` set issued" and "list_all valid_removal issued"
  shows "r \<in> set issued \<or> (\<exists>q\<in>set issued. removal_transcript q \<noteq> removal_transcript r
    \<and> sha256_hex (removal_transcript q) = sha256_hex (removal_transcript r))"
proof -
  obtain obj r' signer public' signature where v: "t = JObj obj" "removal_from_dict (JObj (without_signature obj)) = Some r'"
    "find_device (rm_initiator r') es = Some signer" "decode_field 32 (JStr (de_signing_b64 signer)) = Some public'"
    "verify public' signature (removal_message (removal_root r'))"
    by (rule verify_transitionE [OF assms(1)]) (rule that)
  then have "r' = r" "public' = public" "valid_removal r"
    using assms(2-4) removal_from_valid by (auto simp: removal_of_def)
  then obtain q where q: "q \<in> set issued" "removal_message (removal_root q) = removal_message (removal_root r)"
    using assms(5) [OF v(5) [unfolded \<open>public' = public\<close>]] by auto
  moreover have "valid_removal q" using assms(6) q(1) by (simp add: list_all_iff)
  ultimately show ?thesis
    using removal_transcript_inject [OF \<open>valid_removal r\<close> \<open>valid_removal q\<close>] by (metis removal_message_eq)
qed

definition owner_verify :: verifier where
  "owner_verify public signature m \<longleftrightarrow> public = sample_public \<and> signature = sample_signature
     \<and> m = removal_message (removal_root sample_removal)"

theorem removal_not_forged_witness:
  "sample_removal \<in> set [sample_removal] \<or> (\<exists>q\<in>set [sample_removal]. removal_transcript q \<noteq> removal_transcript sample_removal
    \<and> sha256_hex (removal_transcript q) = sha256_hex (removal_transcript sample_removal))"
proof (rule removal_not_forged [OF _ sample_removal_of])
  show find: "find_device (rm_initiator sample_removal) sample_devices = Some first_device"
    by (simp add: find_device_def sample_removal_def sample_devices_def)
  show "verify_transition owner_verify sample_transition sample_devices = Inr sample_after"
    unfolding sample_transition_def
    by (rule verify_transition_signed [OF sample_removal_valid _ _ _ find first_signer])
      (simp_all add: sample_removal_def removed_iff active_sample sample_after_def owner_verify_def)
  show "decode_field 32 (JStr (de_signing_b64 first_device)) = Some sample_public" by (rule first_signer)
  show "m \<in> (\<lambda>q. removal_message (removal_root q)) ` set [sample_removal]" if "owner_verify sample_public s m" for s m
    using that by (simp add: owner_verify_def)
qed (simp add: sample_removal_valid)

end
