(* ===== verification/RemovalPromptProperties.thy ===== *)
theory RemovalPromptProperties
  imports RemovalPrompt RevocationProperties
begin

text \<open>
  Whatever happens while a removal is prompted for, it is committed only with a fresh confirmation of
  exactly this removal.
\<close>

section \<open>Where a prompt comes from\<close>

text \<open>The events of a run up to which a prompt has come; nothing that disturbs it was among them unless the
  generation has moved on.\<close>

definition prompted :: "prompt_event list \<Rightarrow> nat \<Rightarrow> removal_prompt \<Rightarrow> bool" where
  "prompted evs generation p \<longleftrightarrow> pr_generation p \<le> generation \<and>
     (\<exists>pre mid. evs = pre @ Ev_begin (Some (pr_confirmed p)) (pr_started p) # mid \<and> selected pre = Some (pr_confirmed p)
       \<and> (pr_generation p = generation \<longrightarrow> \<not> list_ex disturbs mid)
       \<and> (pr_phase p = Asking_key \<longrightarrow> (\<exists>now. Ev_user (Answered True) now \<in> set mid \<and> within_minute (pr_started p) now)))"

lemma prompted_begin: "selected evs = Some target \<Longrightarrow> prompted (evs @ [Ev_begin (Some target) now]) generation
    \<lparr>pr_phase = Asking_user, pr_confirmed = target, pr_unsigned = r, pr_generation = generation, pr_started = now\<rparr>"
  unfolding prompted_def by (intro conjI exI [of _ evs] exI [of _ "[]"]) simp_all

lemma prompted_snoc:
  assumes "prompted evs generation p" "if disturbs ev then generation' = Suc generation else generation' = generation"
  shows "prompted (evs @ [ev]) generation' p"
proof -
  obtain pre mid where "evs = pre @ Ev_begin (Some (pr_confirmed p)) (pr_started p) # mid" "selected pre = Some (pr_confirmed p)"
    "pr_generation p = generation \<longrightarrow> \<not> list_ex disturbs mid"
    "pr_phase p = Asking_key \<longrightarrow> (\<exists>now. Ev_user (Answered True) now \<in> set mid \<and> within_minute (pr_started p) now)"
    "pr_generation p \<le> generation"
    using assms(1) by (auto simp: prompted_def)
  then show ?thesis
    using assms(2) unfolding prompted_def
    by (intro conjI exI [of _ pre] exI [of _ "mid @ [ev]"]) (auto split: if_splits)
qed

lemma prompted_user:
  assumes "prompted evs generation p" "within_minute (pr_started p) now"
  shows "prompted (evs @ [Ev_user (Answered True) now]) generation (p\<lparr>pr_phase := Asking_key\<rparr>)"
proof -
  obtain pre mid where "evs = pre @ Ev_begin (Some (pr_confirmed p)) (pr_started p) # mid" "selected pre = Some (pr_confirmed p)"
    "pr_generation p = generation \<longrightarrow> \<not> list_ex disturbs mid" "pr_generation p \<le> generation"
    using assms(1) by (auto simp: prompted_def)
  then show ?thesis
    using assms(2) unfolding prompted_def
    by (intro conjI exI [of _ pre] exI [of _ "mid @ [Ev_user (Answered True) now]"]) auto
qed

definition prompt_invariant :: "prompt_event list \<Rightarrow> removal_controller \<Rightarrow> bool" where
  "prompt_invariant evs c \<longleftrightarrow> rc_target c = selected evs \<and> (rc_busy c \<longleftrightarrow> rc_prompt c \<noteq> None)
     \<and> (\<forall>p. rc_prompt c = Some p \<longrightarrow> prompted evs (rc_generation c) p)"

lemma invariant_idle: "rc_target c = selected evs \<Longrightarrow> prompt_invariant evs (finish c)"
  by (simp add: prompt_invariant_def finish_def)

lemma invariant_quiet:
  assumes "prompt_invariant evs c" "\<not> disturbs ev"
  shows "prompt_invariant (evs @ [ev]) c"
proof -
  have "selected (evs @ [ev]) = selected evs" using assms(2) by (cases ev) (simp_all add: selected_snoc)
  then show ?thesis
    using assms prompted_snoc [of evs "rc_generation c" _ ev "rc_generation c"] unfolding prompt_invariant_def by simp
qed

lemma target_finish [simp]: "rc_target (finish c) = rc_target c" "rc_target (controller_cancel c) = rc_target c"
  by (simp_all add: finish_def controller_cancel_def)

lemma prompt_invariant_step:
  assumes "prompt_invariant evs c" "prompt_step verify ctx initiator (c, st) ev = (res, c', st')"
  shows "prompt_invariant (evs @ [ev]) c'"
proof (cases ev)
  case (Ev_select target)
  then show ?thesis
    using assms prompted_snoc [of evs "rc_generation c" _ ev "rc_generation c'"]
    by (auto simp: prompt_invariant_def controller_select_def selected_snoc)
next
  case Ev_cancel
  then show ?thesis
    using assms prompted_snoc [of evs "rc_generation c" _ ev "rc_generation c'"]
    by (auto simp: prompt_invariant_def controller_cancel_def selected_snoc)
next
  case (Ev_begin confirmed now)
  then have q: "prompt_invariant (evs @ [ev]) c" by (intro invariant_quiet [OF assms(1)]) simp
  show ?thesis
  proof (cases "rc_busy c \<or> confirmed \<noteq> rc_target c")
    case True
    with q show ?thesis using assms(2) Ev_begin by (simp add: remove_begin_def)
  next
    case False
    have t: "rc_target c = selected (evs @ [ev])" "rc_target c = selected evs"
      using q assms(1) by (simp_all add: prompt_invariant_def)
    show ?thesis
      using assms(2) Ev_begin False invariant_idle [OF t(1)] prompted_begin [of evs] t
      by (auto simp: remove_begin_def prompt_invariant_def split: option.splits sum.splits)
  qed
next
  case (Ev_user a now)
  then have q: "prompt_invariant (evs @ [ev]) c" by (intro invariant_quiet [OF assms(1)]) simp
  have t: "rc_target c = selected (evs @ [ev])" using q by (simp add: prompt_invariant_def)
  have i: "prompt_invariant (evs @ [ev]) (finish c)" "prompt_invariant (evs @ [ev]) (finish (controller_cancel c))"
    using t by (simp_all add: invariant_idle)
  show ?thesis
    using assms Ev_user q i prompted_user [of evs "rc_generation c"]
    by (auto simp: remove_authorized_def revalidate_def prompt_invariant_def split: option.splits if_splits)
next
  case (Ev_key a now)
  then have q: "prompt_invariant (evs @ [ev]) c" by (intro invariant_quiet [OF assms(1)]) simp
  have t: "rc_target c = selected (evs @ [ev])" using q by (simp add: prompt_invariant_def)
  have i: "prompt_invariant (evs @ [ev]) (finish c)" "prompt_invariant (evs @ [ev]) (finish (controller_cancel c))"
    using t by (simp_all add: invariant_idle)
  show ?thesis
    using assms(2) Ev_key q i
    by (auto simp: remove_signed_def Let_def split: option.splits if_splits waited.splits sum.splits prod.splits)
next
  case (Ev_commit t)
  then show ?thesis using invariant_quiet [OF assms(1), of ev] assms(2) by simp
next
  case Ev_fence
  then show ?thesis using invariant_quiet [OF assms(1), of ev] assms(2) by simp
qed

lemma prompt_run_invariant:
  "prompt_run verify ctx initiator (new_controller, st0) evs = (c, st) \<Longrightarrow> prompt_invariant evs c"
proof (induction evs arbitrary: c st rule: rev_induct)
  case Nil
  then show ?case by (auto simp: prompt_invariant_def new_controller_def)
next
  case (snoc ev evs)
  obtain c1 st1 where r: "prompt_run verify ctx initiator (new_controller, st0) evs = (c1, st1)" by fastforce
  then obtain res where "prompt_step verify ctx initiator (c1, st1) ev = (res, c, st)"
    using snoc.prems by (cases "prompt_step verify ctx initiator (c1, st1) ev") simp
  then show ?case using prompt_invariant_step [OF snoc.IH [OF r]] by blast
qed

section \<open>The registry under a controller\<close>

lemma prompt_step_registry:
  assumes "revocation_run verify ctx st done_log" "prompt_step verify ctx initiator (c, st) ev = (res, c', st')"
  shows "\<exists>done_log'. revocation_run verify ctx st' done_log'"
proof -
  have commit: "\<exists>done_log'. revocation_run verify ctx (snd (revocation_commit verify ctx st t)) done_log'" for t
    using rv_commit [OF assms(1), of t] by (metis prod.collapse)
  moreover have "\<exists>done_log'. revocation_run verify ctx (snd (revocation_fence verify ctx st)) done_log'"
    using rv_fence [OF assms(1)] by (metis prod.collapse)
  moreover have "st' = st \<or> (\<exists>t. st' = snd (revocation_commit verify ctx st t)) \<or> st' = snd (revocation_fence verify ctx st)"
    using assms(2)
    by (cases ev) (auto simp: remove_signed_def Let_def split: option.splits if_splits waited.splits sum.splits prod.splits,
      (metis snd_conv)+)
  ultimately show ?thesis using assms(1) by blast
qed

lemma prompt_run_registry:
  "revocation_run verify ctx st0 done_log \<Longrightarrow> prompt_run verify ctx initiator (c0, st0) evs = (c, st) \<Longrightarrow>
    \<exists>done_log'. revocation_run verify ctx st done_log'"
proof (induction evs arbitrary: st0 c0 done_log)
  case (Cons ev evs)
  obtain res c1 st1 where s: "prompt_step verify ctx initiator (c0, st0) ev = (res, c1, st1)"
    by (metis prod.collapse)
  then show ?case using Cons.IH Cons.prems prompt_step_registry [OF Cons.prems(1) s] by fastforce
qed auto

section \<open>Fresh confirmation\<close>

lemma removal_read_back: "removal_from_dict (JObj (removal_dict r)) = Some r' \<Longrightarrow> r' = r"
  by (cases r) (auto simp: removal_from_dict_def removal_dict_def elim!: bind_SomeE split: if_splits)

lemma done_signed:
  assumes "prompt_step verify ctx initiator (c, st) ev = (Some (Removal_done t), c', st')"
  obtains p signature now b where "ev = Ev_key (Answered signature) now" "rc_prompt c = Some p" "pr_phase p = Asking_key"
    "revalidate verify ctx initiator st now c p" "t = signed_removal (pr_unsigned p) signature"
    "revocation_commit verify ctx st t = (Inr b, st')"
  using assms
  by (cases ev) (auto simp: remove_begin_def remove_authorized_def remove_signed_def Let_def
      split: option.splits if_splits waited.splits sum.splits prod.splits)

text \<open>C35: no removal without fresh consent: whatever is selected, cancelled, answered, committed or fenced
  around a prompt, when a removal is carried out, then its target was the last device selected when the prompt
  began, nothing was selected or cancelled since, the user confirmed after that and within a
  minute, the key signed exactly this removal within the same minute, and the store, which held none, holds it now.\<close>

theorem removal_needs_fresh_consent:
  assumes "valid_revocation_context ctx" and "revocation_run verify ctx st0 done_log"
    and "prompt_run verify ctx initiator (new_controller, st0) evs = (c, st)"
    and "prompt_step verify ctx initiator (c, st) ev = (Some (Removal_done t), c', st')"
  shows "\<exists>pre target started mid now signature now' r.
      evs = pre @ Ev_begin (Some target) started # mid \<and> selected pre = Some target \<and> \<not> list_ex disturbs mid
    \<and> Ev_user (Answered True) now \<in> set mid \<and> within_minute started now
    \<and> ev = Ev_key (Answered signature) now' \<and> within_minute started now'
    \<and> t = signed_removal r signature \<and> rm_target r = target \<and> rm_initiator r = initiator
    \<and> verify_transition verify t (rv_initial ctx) = Inr (set_revoked target (rv_initial ctx))
    \<and> st = revocation_file ctx JNull False \<and> st' = revocation_file ctx t False"
proof -
  obtain p signature now' b where d: "ev = Ev_key (Answered signature) now'" "rc_prompt c = Some p" "pr_phase p = Asking_key"
    "revalidate verify ctx initiator st now' c p" "t = signed_removal (pr_unsigned p) signature"
    "revocation_commit verify ctx st t = (Inr b, st')"
    by (rule done_signed [OF assms(4)])
  have r: "within_minute (pr_started p) now'" "pr_generation p = rc_generation c"
    "revocation_prepare verify ctx st (pr_confirmed p) initiator = Inr (pr_unsigned p)"
    using d(4) by (simp_all add: revalidate_def)
  have "prompted evs (rc_generation c) p"
    using prompt_run_invariant [OF assms(3)] d(2) by (simp add: prompt_invariant_def)
  then obtain pre mid now where e: "evs = pre @ Ev_begin (Some (pr_confirmed p)) (pr_started p) # mid"
    "selected pre = Some (pr_confirmed p)" "\<not> list_ex disturbs mid" "Ev_user (Answered True) now \<in> set mid"
    "within_minute (pr_started p) now"
    using r(2) d(3) by (auto simp: prompted_def)
  obtain done_log' pending where h: "revocation_holds verify ctx st done_log' pending"
    using prompt_run_registry [OF assms(2,3)] revocation_run_holds by blast
  note u = prepared_removal [OF assms(1) h r(3)]
  have st: "st = revocation_file ctx JNull False" using h u(1,2) by (simp add: revocation_holds_def kept_def)
  have c: "st' = revocation_file ctx t False" "keepable verify ctx t"
    using d(6) unfolding st revocation_commit_of [OF disjI1 [OF refl]]
    by (auto simp: Let_def keepable_def split: if_splits sum.splits)
  obtain after where a: "verify_transition verify t (rv_initial ctx) = Inr after" using c(2) by (auto simp: keepable_def)
  obtain obj r' where "t = JObj obj" "removal_from_dict (JObj (without_signature obj)) = Some r'"
    "removed (rv_initial ctx) (rm_target r') (rm_initiator r') = Inr after"
    by (rule verify_transitionE [OF a]) (rule that)
  then have "after = set_revoked (rm_target r') (rv_initial ctx)" "valid_removal r'" "removal_of t = Some r'"
    using removal_from_valid by (auto simp: removed_iff removal_of_def)
  moreover have "removal_of t = removal_from_dict (JObj (removal_dict (pr_unsigned p)))"
    by (simp add: d(5) removal_of_def signed_removal_def without_signature_signed)
  ultimately have "after = set_revoked (pr_confirmed p) (rv_initial ctx)"
    using removal_read_back u(4) by fastforce
  with a have "verify_transition verify t (rv_initial ctx) = Inr (set_revoked (pr_confirmed p) (rv_initial ctx))" by simp
  then show ?thesis
    using d(1,5) e r(1) st c(1) u(4)
    by (intro exI [of _ pre] exI [of _ "pr_confirmed p"] exI [of _ "pr_started p"] exI [of _ mid] exI [of _ now]
        exI [of _ signature] exI [of _ now'] exI [of _ "pr_unsigned p"]) simp
qed

definition sample_prompt_events :: "prompt_event list" where
  "sample_prompt_events = [Ev_select second_id, Ev_begin (Some second_id) (Finite 0), Ev_user (Answered True) (Finite 1)]"

abbreviation sample_open_file :: store where
  "sample_open_file \<equiv> revocation_file sample_revocation_context JNull False"

definition sample_prompt :: removal_prompt where
  "sample_prompt = \<lparr>pr_phase = Asking_key, pr_confirmed = second_id, pr_unsigned = sample_removal, pr_generation = 1,
     pr_started = Finite 0\<rparr>"

definition sample_prompting :: removal_controller where
  "sample_prompting = \<lparr>rc_target = Some second_id, rc_generation = 1, rc_busy = True, rc_prompt = Some sample_prompt\<rparr>"

lemma sample_prompt_run: "prompt_run sample_verify sample_revocation_context first_id (new_controller, sample_open_file) sample_prompt_events
    = (sample_prompting, sample_open_file)"
proof -
  have "match_identifier second_id" using sample_id_identifier by (simp add: second_device_def)
  then show ?thesis
    by (simp add: sample_prompt_events_def new_controller_def controller_select_def remove_begin_def sample_prepared
        remove_authorized_def revalidate_def within_minute_def removal_from_to [OF sample_removal_valid]
        sample_prompting_def sample_prompt_def)
qed

lemma sample_prompt_done: "prompt_step sample_verify sample_revocation_context first_id (sample_prompting, sample_open_file)
    (Ev_key (Answered sample_signature) (Finite 2)) = (Some (Removal_done sample_transition),
      finish (controller_cancel sample_prompting), revocation_file sample_revocation_context sample_transition False)"
proof -
  have "length sample_signature = 64" by simp
  note c = admissible_commit(1) [OF sample_revocation_context_valid sample_admissible sample_transition_def sample_removal_valid this]
  have "revalidate sample_verify sample_revocation_context first_id sample_open_file (Finite 2) sample_prompting sample_prompt"
    by (simp add: revalidate_def within_minute_def sample_prompt_def sample_prompting_def sample_prepared)
  then show ?thesis
    using c by (simp add: remove_signed_def sample_prompting_def sample_transition_def)
      (simp add: sample_prompt_def Let_def)
qed

theorem removal_needs_fresh_consent_witness:
  "\<exists>pre target mid started. sample_prompt_events = pre @ Ev_begin (Some target) started # mid \<and> selected pre = Some target"
  using removal_needs_fresh_consent [OF sample_revocation_context_valid sample_revocation_started sample_prompt_run sample_prompt_done]
  by blast

end
