(* ===== verification/Hpke.thy ===== *)
theory Hpke
  imports Prelude Sha256
begin

text \<open>
  Delivery of a vault key by HPKE (\<open>vaultsync/hpke_key_delivery.py\<close>): the key schedule of RFC 9180
  over HMAC-SHA256, sealing and opening.  X25519, AES-GCM and, where it is installed, the whole
  suite of the cryptography package are parameters.  Every exception becomes the one
  \<open>HPKEKeyDeliveryError\<close>, here \<open>None\<close>.
\<close>

section \<open>Primitives\<close>

text \<open>What the code calls: the public key of a private one, the shared secret of a private and a public
  key (which raises for a public key of low order), and AES-GCM with key, nonce, text and associated data.\<close>

record primitives =
  x25519_public :: "string \<Rightarrow> string"
  x25519_exchange :: "string \<Rightarrow> string \<Rightarrow> string option"
  aesgcm_encrypt :: "string \<Rightarrow> string \<Rightarrow> string \<Rightarrow> string \<Rightarrow> string"
  aesgcm_decrypt :: "string \<Rightarrow> string \<Rightarrow> string \<Rightarrow> string \<Rightarrow> string option"

text \<open>\<open>Suite.encrypt\<close> of a text for a public key, with its own randomness as first argument, and
  \<open>Suite.decrypt\<close> by a private key; the last argument is the info.\<close>

record native_suite =
  suite_encrypt :: "string \<Rightarrow> string \<Rightarrow> string \<Rightarrow> string \<Rightarrow> string option"
  suite_decrypt :: "string \<Rightarrow> string \<Rightarrow> string \<Rightarrow> string option"

section \<open>Constants and readers\<close>

definition HPKE_INFO_PREFIX :: string where
  "HPKE_INFO_PREFIX = ''atlasvault-vault-key-delivery-hpke-v2:''"

definition HPKE_KEM_ID :: nat where "HPKE_KEM_ID = 0x0020"
definition HPKE_KDF_ID :: nat where "HPKE_KDF_ID = 0x0001"
definition HPKE_AEAD_ID :: nat where "HPKE_AEAD_ID = 0x0002"
definition HPKE_KEY_BYTES :: nat where "HPKE_KEY_BYTES = 32"
definition HPKE_CIPHERTEXT_BYTES :: nat where "HPKE_CIPHERTEXT_BYTES = 48"
definition HPKE_NONCE_BYTES :: nat where "HPKE_NONCE_BYTES = 12"
definition HPKE_MAX_CONTEXT :: nat where "HPKE_MAX_CONTEXT = 4096"

definition bytes_of_length :: "nat \<Rightarrow> string \<Rightarrow> string option" where
  "bytes_of_length n bs = do { require (length bs = n); Some bs }"

definition hpke_context :: "string \<Rightarrow> string option" where
  "hpke_context c = do { require (\<not> (c = [] \<or> length c > HPKE_MAX_CONTEXT)); Some c }"

definition hpke_info :: "string \<Rightarrow> string option" where
  "hpke_info c = do { c' \<leftarrow> hpke_context c; Some (HPKE_INFO_PREFIX @ c') }"

text \<open>\<open>n.to_bytes(k, "big")\<close>, for an \<open>n\<close> that fits.\<close>

definition big_endian :: "nat \<Rightarrow> nat \<Rightarrow> string" where
  "big_endian k n = map (\<lambda>i. byte_of (n div 256 ^ i)) (rev [0..<k])"

record sealed_key =
  sk_encapsulated :: string
  sk_ciphertext :: string

definition new_sealed :: "string \<Rightarrow> string \<Rightarrow> sealed_key option" where
  "new_sealed encapsulated ciphertext = do {
     e \<leftarrow> bytes_of_length HPKE_KEY_BYTES encapsulated;
     c \<leftarrow> bytes_of_length HPKE_CIPHERTEXT_BYTES ciphertext;
     Some \<lparr>sk_encapsulated = e, sk_ciphertext = c\<rparr> }"

section \<open>The key schedule\<close>

definition labeled_extract :: "string \<Rightarrow> string \<Rightarrow> string \<Rightarrow> string \<Rightarrow> string" where
  "labeled_extract suite salt label ikm =
     hmac_sha256 (if salt = [] then replicate 32 (CHR 0x00) else salt) (''HPKE-v1'' @ suite @ label @ ikm)"

text \<open>The loop over the counters, with the block and the output so far.\<close>

fun expand_blocks :: "string \<Rightarrow> string \<Rightarrow> nat list \<Rightarrow> string \<Rightarrow> string \<Rightarrow> string" where
  "expand_blocks prk labeled [] block output = output"
| "expand_blocks prk labeled (counter # counters) block output =
     (let block' = hmac_sha256 prk (block @ labeled @ [byte_of counter])
      in expand_blocks prk labeled counters block' (output @ block'))"

definition labeled_expand :: "string \<Rightarrow> string \<Rightarrow> string \<Rightarrow> string \<Rightarrow> nat \<Rightarrow> string" where
  "labeled_expand suite prk label info n =
     take n (expand_blocks prk (big_endian 2 n @ ''HPKE-v1'' @ suite @ label @ info) [1..<(n + 31) div 32 + 1] [] [])"

definition extract_and_expand :: "string \<Rightarrow> string \<Rightarrow> string" where
  "extract_and_expand dh kem_context = (let suite = ''KEM'' @ big_endian 2 HPKE_KEM_ID in
     labeled_expand suite (labeled_extract suite [] ''eae_prk'' dh) ''shared_secret'' kem_context HPKE_KEY_BYTES)"

definition hpke_suite_id :: string where
  "hpke_suite_id = ''HPKE'' @ big_endian 2 HPKE_KEM_ID @ big_endian 2 HPKE_KDF_ID @ big_endian 2 HPKE_AEAD_ID"

definition key_schedule :: "string \<Rightarrow> string \<Rightarrow> string \<Rightarrow> string \<Rightarrow> (string \<times> string) option" where
  "key_schedule dh encapsulated recipient info = do {
     secret_bytes \<leftarrow> bytes_of_length HPKE_KEY_BYTES dh;
     let shared = extract_and_expand secret_bytes (encapsulated @ recipient);
     let psk_id_hash = labeled_extract hpke_suite_id [] ''psk_id_hash'' [];
     let info_hash = labeled_extract hpke_suite_id [] ''info_hash'' info;
     let schedule_context = [CHR 0x00] @ psk_id_hash @ info_hash;
     let secret = labeled_extract hpke_suite_id shared ''secret'' [];
     Some (labeled_expand hpke_suite_id secret ''key'' schedule_context HPKE_KEY_BYTES,
           labeled_expand hpke_suite_id secret ''base_nonce'' schedule_context HPKE_NONCE_BYTES) }"

section \<open>Sealing and opening\<close>

definition seal_with_private_key :: "primitives \<Rightarrow> string \<Rightarrow> string \<Rightarrow> string \<Rightarrow> string \<Rightarrow> sealed_key option" where
  "seal_with_private_key X recipient vault_key info ephemeral = do {
     let encapsulated = x25519_public X ephemeral;
     dh \<leftarrow> x25519_exchange X ephemeral recipient;
     (key, nonce) \<leftarrow> key_schedule dh encapsulated recipient info;
     new_sealed encapsulated (aesgcm_encrypt X key nonce vault_key []) }"

text \<open>\<open>ephemeral\<close> is the randomness: the private key that is generated, or what the suite draws.\<close>

definition seal_vault_key :: "primitives \<Rightarrow> native_suite option \<Rightarrow> string \<Rightarrow> string \<Rightarrow> string \<Rightarrow> string \<Rightarrow> sealed_key option" where
  "seal_vault_key X native recipient vault_key context ephemeral = do {
     public \<leftarrow> bytes_of_length HPKE_KEY_BYTES recipient;
     plaintext \<leftarrow> bytes_of_length HPKE_KEY_BYTES vault_key;
     info \<leftarrow> hpke_info context;
     (case native of
        Some suite \<Rightarrow> do {
          combined \<leftarrow> suite_encrypt suite ephemeral plaintext public info;
          new_sealed (take HPKE_KEY_BYTES combined) (drop HPKE_KEY_BYTES combined) }
      | None \<Rightarrow> seal_with_private_key X public plaintext info ephemeral) }"

definition seal_vault_key_for_testing :: "primitives \<Rightarrow> string \<Rightarrow> string \<Rightarrow> string \<Rightarrow> string \<Rightarrow> sealed_key option" where
  "seal_vault_key_for_testing X recipient vault_key context ephemeral = do {
     public \<leftarrow> bytes_of_length HPKE_KEY_BYTES recipient;
     plaintext \<leftarrow> bytes_of_length HPKE_KEY_BYTES vault_key;
     info \<leftarrow> hpke_info context;
     private \<leftarrow> bytes_of_length HPKE_KEY_BYTES ephemeral;
     seal_with_private_key X public plaintext info private }"

definition open_vault_key :: "primitives \<Rightarrow> native_suite option \<Rightarrow> string \<Rightarrow> sealed_key \<Rightarrow> string \<Rightarrow> string option" where
  "open_vault_key X native recipient_private sealed context = do {
     private \<leftarrow> bytes_of_length HPKE_KEY_BYTES recipient_private;
     info \<leftarrow> hpke_info context;
     plaintext \<leftarrow> (case native of
        Some suite \<Rightarrow> suite_decrypt suite (sk_encapsulated sealed @ sk_ciphertext sealed) private info
      | None \<Rightarrow> do {
          dh \<leftarrow> x25519_exchange X private (sk_encapsulated sealed);
          (key, nonce) \<leftarrow> key_schedule dh (sk_encapsulated sealed) (x25519_public X private) info;
          aesgcm_decrypt X key nonce (sk_ciphertext sealed) [] });
     bytes_of_length HPKE_KEY_BYTES plaintext }"

section \<open>What is assumed of the primitives\<close>

text \<open>The documented behaviour of X25519 and AES-GCM: public keys have 32 bytes, a private and a public key
  have the secret of the two private keys, secrets have 32 bytes, and AES-GCM appends a tag of
  16 bytes and decrypts what it encrypted.\<close>

definition primitives_ok :: "primitives \<Rightarrow> bool" where
  "primitives_ok X \<longleftrightarrow> (\<forall>a. length a = 32 \<longrightarrow> length (x25519_public X a) = 32)
     \<and> (\<forall>a b. x25519_exchange X a (x25519_public X b) = x25519_exchange X b (x25519_public X a))
     \<and> (\<forall>a p s. x25519_exchange X a p = Some s \<longrightarrow> length s = 32)
     \<and> (\<forall>k n m d. length (aesgcm_encrypt X k n m d) = length m + 16)
     \<and> (\<forall>k n m d. aesgcm_decrypt X k n (aesgcm_encrypt X k n m d) d = Some m)"

text \<open>Of a suite: what it encrypts, a key and its tag, it decrypts.\<close>

definition suite_ok :: "primitives \<Rightarrow> native_suite \<Rightarrow> bool" where
  "suite_ok X suite \<longleftrightarrow> (\<forall>e m a i c. suite_encrypt suite e m (x25519_public X a) i = Some c
     \<longrightarrow> length c = 48 + length m \<and> suite_decrypt suite c a i = Some m)"

text \<open>The randomness with which sealing to a key succeeds.\<close>

definition usable :: "primitives \<Rightarrow> native_suite option \<Rightarrow> string \<Rightarrow> string \<Rightarrow> bool" where
  "usable X native recipient ephemeral \<longleftrightarrow> (case native of
     None \<Rightarrow> length ephemeral = 32 \<and> x25519_exchange X ephemeral recipient \<noteq> None
   | Some suite \<Rightarrow> \<forall>m i. suite_encrypt suite ephemeral m recipient i \<noteq> None)"

section \<open>Lemmas\<close>

lemma bytes_of_length_iff [simp]: "bytes_of_length n bs = Some x \<longleftrightarrow> length bs = n \<and> x = bs"
  by (auto simp: bytes_of_length_def)

lemma length_expand_blocks: "length (expand_blocks prk labeled counters block out) = length out + 32 * length counters"
  by (induction counters arbitrary: block out) (simp_all add: Let_def)

lemma length_labeled_expand [simp]: "length (labeled_expand suite prk label info n) = n"
proof -
  have "n \<le> 32 * ((n + 31) div 32)" by linarith
  then show ?thesis by (simp add: labeled_expand_def length_expand_blocks)
qed

lemma length_key_schedule: "key_schedule dh e r i = Some (key, nonce) \<Longrightarrow> length key = 32 \<and> length nonce = 12"
  by (auto simp: key_schedule_def HPKE_KEY_BYTES_def HPKE_NONCE_BYTES_def Let_def elim!: bind_SomeE)

lemma hpke_info_inject: "hpke_info c = Some i \<Longrightarrow> hpke_info d = Some i \<Longrightarrow> c = d"
  by (auto simp: hpke_info_def hpke_context_def elim!: bind_SomeE)

lemma hpke_info_Some: "c \<noteq> [] \<Longrightarrow> length c \<le> 4096 \<Longrightarrow> hpke_info c = Some (HPKE_INFO_PREFIX @ c)"
  by (simp add: hpke_info_def hpke_context_def HPKE_MAX_CONTEXT_def)

text \<open>What was sealed to a public key opens with its private key, in the same context.\<close>

lemma seal_opens:
  assumes "primitives_ok X" "\<And>suite. native = Some suite \<Longrightarrow> suite_ok X suite"
    and "length private = 32" "length vault_key = 32" "context \<noteq> []" "length context \<le> 4096"
    and "usable X native (x25519_public X private) ephemeral"
  obtains sealed where "seal_vault_key X native (x25519_public X private) vault_key context ephemeral = Some sealed"
    "length (sk_encapsulated sealed) = 32" "length (sk_ciphertext sealed) = 48"
    "open_vault_key X native private sealed context = Some vault_key"
proof (cases native)
  case None
  let ?R = "x25519_public X private" and ?E = "x25519_public X ephemeral"
  from assms(7) None obtain dh where dh: "x25519_exchange X ephemeral ?R = Some dh" "length ephemeral = 32"
    by (auto simp: usable_def)
  then have l: "length dh = 32" "length ?E = 32" "length ?R = 32" "x25519_exchange X private ?E = Some dh"
    using assms(1,3) by (auto simp: primitives_ok_def)
  obtain key nonce where k: "key_schedule dh ?E ?R (HPKE_INFO_PREFIX @ context) = Some (key, nonce)"
    using l(1) by (simp add: key_schedule_def bytes_of_length_def HPKE_KEY_BYTES_def Let_def)
  let ?c = "aesgcm_encrypt X key nonce vault_key []"
  have c: "length ?c = 48" "aesgcm_decrypt X key nonce ?c [] = Some vault_key"
    using assms(1,4) by (auto simp: primitives_ok_def)
  show ?thesis
    by (rule that [of "\<lparr>sk_encapsulated = ?E, sk_ciphertext = ?c\<rparr>"])
      (use None dh l k c assms(3-6) in \<open>simp_all add: seal_vault_key_def open_vault_key_def seal_with_private_key_def
        hpke_info_Some bytes_of_length_def new_sealed_def HPKE_KEY_BYTES_def HPKE_CIPHERTEXT_BYTES_def\<close>)
next
  case (Some suite)
  let ?R = "x25519_public X private"
  from assms(7) Some obtain c where c: "suite_encrypt suite ephemeral vault_key ?R (HPKE_INFO_PREFIX @ context) = Some c"
    by (auto simp: usable_def)
  have s: "length c = 80" "suite_decrypt suite c private (HPKE_INFO_PREFIX @ context) = Some vault_key"
    using assms(2) [OF Some] c assms(4) by (auto simp: suite_ok_def)
  have r: "length ?R = 32" using assms(1,3) by (simp add: primitives_ok_def)
  show ?thesis
    by (rule that [of "\<lparr>sk_encapsulated = take 32 c, sk_ciphertext = drop 32 c\<rparr>"])
      (use Some c s r assms(3-6) in \<open>simp_all add: seal_vault_key_def open_vault_key_def
        hpke_info_Some bytes_of_length_def new_sealed_def HPKE_KEY_BYTES_def HPKE_CIPHERTEXT_BYTES_def\<close>)
qed

end
