(* ===== verification/KeyEpochs.thy ===== *)
theory KeyEpochs
  imports Hpke Devices
begin

text \<open>
  Rings of vault keys by epoch (\<open>vaultsync/key_epochs.py\<close>): their metadata, the lookup of a key, the
  derivation of record keys, and the delivery of the current key over HPKE.  Every exception becomes
  the one \<open>KeyEpochError\<close>, here \<open>None\<close>.  HKDF of the cryptography package is a parameter: salt, info
  and key material to 32 bytes.
\<close>

section \<open>Readers\<close>

definition MAXIMUM_KEY_EPOCH :: int where
  "MAXIMUM_KEY_EPOCH = 2 ^ 63 - 1"

definition MAXIMUM_KEY_RING_ENTRIES :: nat where
  "MAXIMUM_KEY_RING_ENTRIES = 32"

definition epoch_number :: "int \<Rightarrow> int option" where
  "epoch_number e = do { require (\<not> (e < 1 \<or> e > MAXIMUM_KEY_EPOCH)); Some e }"

definition ring_epoch_value :: "json \<Rightarrow> int option" where
  "ring_epoch_value v = int_value v \<bind> epoch_number"

definition vault_key_bytes :: "string \<Rightarrow> string option" where
  "vault_key_bytes k = do { require (length k = 32); Some k }"

text \<open>The length of the text in UTF-8: a code point from 128 on takes two bytes.\<close>

definition utf8_bytes :: "string \<Rightarrow> string" where
  "utf8_bytes s = concat (map (\<lambda>c. if byte_val c < 128 then [c]
     else [byte_of (192 + byte_val c div 64), byte_of (128 + byte_val c mod 64)]) s)"

definition ring_identifier :: "string \<Rightarrow> string option" where
  "ring_identifier s = do { require (s \<noteq> [] \<and> length (utf8_bytes s) \<le> 1024); Some s }"

definition legacy_identifier :: "string \<Rightarrow> string option" where
  "legacy_identifier s = do { require (s \<noteq> []); Some s }"

section \<open>Metadata\<close>

record ring_metadata =
  km_current :: int
  km_retained :: "int list"

definition new_metadata :: "int \<Rightarrow> int list \<Rightarrow> ring_metadata option" where
  "new_metadata current retained = do {
     c \<leftarrow> epoch_number current;
     rs \<leftarrow> traverse epoch_number retained;
     require (\<not> (sorted_list_of_set (set rs) \<noteq> rs \<or> list_ex (\<lambda>e. e \<ge> c) rs \<or> length rs + 1 > MAXIMUM_KEY_RING_ENTRIES));
     Some \<lparr>km_current = c, km_retained = rs\<rparr> }"

definition metadata_from_dict :: "json \<Rightarrow> ring_metadata option" where
  "metadata_from_dict v = do {
     obj \<leftarrow> mapping v;
     exact obj [''format'', ''version'', ''current_key_epoch'', ''retained_key_epochs''];
     require (map_of obj ''format'' = Some (JStr ''atlasvault-vault-key-ring''));
     require (map_of obj ''version'' = Some (JInt 1));
     retained \<leftarrow> map_of obj ''retained_key_epochs'' \<bind> json_list;
     current \<leftarrow> map_of obj ''current_key_epoch'' \<bind> ring_epoch_value;
     rs \<leftarrow> traverse ring_epoch_value retained;
     new_metadata current rs }"

definition metadata_to_dict :: "ring_metadata \<Rightarrow> json" where
  "metadata_to_dict m = JObj
     [(''format'', JStr ''atlasvault-vault-key-ring''), (''version'', JInt 1),
      (''current_key_epoch'', JInt (km_current m)), (''retained_key_epochs'', JList (map JInt (km_retained m)))]"

section \<open>Rings\<close>

record key_ring =
  kr_metadata :: ring_metadata
  kr_keys :: "(int, string) fmap"

definition new_ring :: "ring_metadata \<Rightarrow> (int, string) fmap \<Rightarrow> key_ring option" where
  "new_ring m keys = do {
     traverse (\<lambda>(e, k). do { e' \<leftarrow> epoch_number e; k' \<leftarrow> vault_key_bytes k; Some (e', k') }) (items keys);
     require (\<not> (fset (fmdom keys) \<noteq> insert (km_current m) (set (km_retained m))
       \<or> length (items keys) > MAXIMUM_KEY_RING_ENTRIES
       \<or> length (remdups (map snd (items keys))) \<noteq> length (items keys)));
     Some \<lparr>kr_metadata = m, kr_keys = keys\<rparr> }"

definition ring_from_entries :: "int \<Rightarrow> (int, string) fmap \<Rightarrow> key_ring option" where
  "ring_from_entries current_epoch keys = do {
     current \<leftarrow> epoch_number current_epoch;
     require (fmlookup keys current \<noteq> None);
     epochs \<leftarrow> traverse epoch_number (map fst (items keys));
     let epochs = sort epochs;
     require (\<not> list_ex (\<lambda>e. e \<ge> current) (filter (\<lambda>e. e \<noteq> current) epochs));
     m \<leftarrow> new_metadata current (filter (\<lambda>e. e \<noteq> current) epochs);
     new_ring m keys }"

definition ring_from_legacy :: "string \<Rightarrow> int \<Rightarrow> key_ring option" where
  "ring_from_legacy vault_key epoch = do {
     e \<leftarrow> epoch_number epoch;
     require (e = 1);
     ring_from_entries e (fmupd e vault_key fmempty) }"

definition key_for_epoch :: "key_ring \<Rightarrow> int \<Rightarrow> string option" where
  "key_for_epoch ring epoch = do { e \<leftarrow> epoch_number epoch; fmlookup (kr_keys ring) e }"

definition current_vault_key :: "key_ring \<Rightarrow> string option" where
  "current_vault_key ring = key_for_epoch ring (km_current (kr_metadata ring))"

section \<open>Record keys\<close>

text \<open>\<open>derive_record_key\<close> of \<open>vaultsync/crypto.py\<close>, for the first epoch.\<close>

definition VAULT_FORMAT :: string where
  "VAULT_FORMAT = ''atlas-vault''"

definition derive_legacy_record_key :: "(string \<Rightarrow> string \<Rightarrow> string \<Rightarrow> string) \<Rightarrow> string \<Rightarrow> string \<Rightarrow> string \<Rightarrow> string option" where
  "derive_legacy_record_key hkdf vault_key vault_id record_id = do {
     k \<leftarrow> vault_key_bytes vault_key;
     require (\<not> (vault_id = [] \<or> record_id = []));
     Some (hkdf (utf8_bytes (VAULT_FORMAT @ '':v1:'' @ vault_id)) (utf8_bytes (''record:'' @ record_id)) k) }"

definition derive_record_key :: "(string \<Rightarrow> string \<Rightarrow> string \<Rightarrow> string) \<Rightarrow> key_ring \<Rightarrow> int \<Rightarrow> string \<Rightarrow> string \<Rightarrow> string option" where
  "derive_record_key hkdf ring epoch vault_id record_id = do {
     e \<leftarrow> epoch_number epoch;
     if e = 1 then do {
       k \<leftarrow> key_for_epoch ring e;
       v \<leftarrow> ring_identifier vault_id;
       r \<leftarrow> legacy_identifier record_id;
       derive_legacy_record_key hkdf k v r }
     else do {
       v \<leftarrow> ring_identifier vault_id;
       r \<leftarrow> ring_identifier record_id;
       k \<leftarrow> key_for_epoch ring e;
       Some (hkdf (utf8_bytes (''atlasvault-record-key-epoch-v1:'' @ v))
         (utf8_bytes (''epoch:'' @ int_str e @ '':record:'' @ r)) k) } }"

section \<open>Delivery\<close>

record epoch_sealed =
  es_epoch :: int
  es_encapsulated :: string
  es_ciphertext :: string

definition new_epoch_sealed :: "int \<Rightarrow> string \<Rightarrow> string \<Rightarrow> epoch_sealed option" where
  "new_epoch_sealed epoch encapsulated ciphertext = do {
     s \<leftarrow> new_sealed encapsulated ciphertext;
     e \<leftarrow> epoch_number epoch;
     Some \<lparr>es_epoch = e, es_encapsulated = sk_encapsulated s, es_ciphertext = sk_ciphertext s\<rparr> }"

definition EPOCH_CONTEXT_PREFIX :: string where
  "EPOCH_CONTEXT_PREFIX = ''atlasvault-key-epoch-hpke-v1:''"

definition MAXIMUM_EPOCH_CONTEXT :: nat where
  "MAXIMUM_EPOCH_CONTEXT = 4096 - length EPOCH_CONTEXT_PREFIX - 9"

definition epoch_context :: "int \<Rightarrow> string \<Rightarrow> string option" where
  "epoch_context epoch context = do {
     e \<leftarrow> epoch_number epoch;
     require (\<not> (context = [] \<or> length context > MAXIMUM_EPOCH_CONTEXT));
     Some (EPOCH_CONTEXT_PREFIX @ big_endian 8 (nat e) @ '':'' @ context) }"

definition seal_current :: "primitives \<Rightarrow> native_suite option \<Rightarrow> key_ring \<Rightarrow> string \<Rightarrow> string \<Rightarrow> string \<Rightarrow> epoch_sealed option" where
  "seal_current X native ring recipient context ephemeral = do {
     k \<leftarrow> current_vault_key ring;
     c \<leftarrow> epoch_context (km_current (kr_metadata ring)) context;
     s \<leftarrow> seal_vault_key X native recipient k c ephemeral;
     new_epoch_sealed (km_current (kr_metadata ring)) (sk_encapsulated s) (sk_ciphertext s) }"

definition seal_current_for_testing :: "primitives \<Rightarrow> key_ring \<Rightarrow> string \<Rightarrow> string \<Rightarrow> string \<Rightarrow> epoch_sealed option" where
  "seal_current_for_testing X ring recipient context ephemeral = do {
     k \<leftarrow> current_vault_key ring;
     c \<leftarrow> epoch_context (km_current (kr_metadata ring)) context;
     s \<leftarrow> seal_vault_key_for_testing X recipient k c ephemeral;
     new_epoch_sealed (km_current (kr_metadata ring)) (sk_encapsulated s) (sk_ciphertext s) }"

definition open_epoch :: "primitives \<Rightarrow> native_suite option \<Rightarrow> string \<Rightarrow> epoch_sealed \<Rightarrow> string \<Rightarrow> int \<Rightarrow> (int \<times> string) option" where
  "open_epoch X native recipient_private sealed context minimum_epoch = do {
     minimum \<leftarrow> epoch_number minimum_epoch;
     require (\<not> es_epoch sealed < minimum);
     s \<leftarrow> new_sealed (es_encapsulated sealed) (es_ciphertext sealed);
     c \<leftarrow> epoch_context (es_epoch sealed) context;
     k \<leftarrow> open_vault_key X native recipient_private s c;
     e \<leftarrow> epoch_number (es_epoch sealed);
     k' \<leftarrow> vault_key_bytes k;
     Some (e, k') }"

section \<open>Lemmas\<close>

lemma epoch_number_iff [simp]: "epoch_number e = Some x \<longleftrightarrow> x = e \<and> 1 \<le> e \<and> e \<le> MAXIMUM_KEY_EPOCH"
  by (auto simp: epoch_number_def)

lemma epoch_number_of: "1 \<le> e \<Longrightarrow> e \<le> MAXIMUM_KEY_EPOCH \<Longrightarrow> epoch_number e = Some e"
  by simp

lemma vault_key_bytes_iff [simp]: "vault_key_bytes k = Some x \<longleftrightarrow> x = k \<and> length k = 32"
  by (auto simp: vault_key_bytes_def)

lemma traverse_epochs: "traverse epoch_number es = (if \<forall>e \<in> set es. 1 \<le> e \<and> e \<le> MAXIMUM_KEY_EPOCH then Some es else None)"
  by (induction es) (auto simp: epoch_number_def require_def)

lemma new_metadata_iff: "new_metadata current retained = Some m \<longleftrightarrow> 1 \<le> current \<and> current \<le> MAXIMUM_KEY_EPOCH
     \<and> (\<forall>e \<in> set retained. 1 \<le> e \<and> e < current) \<and> sorted retained \<and> distinct retained
     \<and> length retained < MAXIMUM_KEY_RING_ENTRIES \<and> m = \<lparr>km_current = current, km_retained = retained\<rparr>"
proof -
  have "sorted_list_of_set (set retained) = retained \<longleftrightarrow> sorted retained \<and> distinct retained"
    by (metis List.finite_set distinct_sorted_list_of_set sorted_list_of_set.idem_if_sorted_distinct sorted_sorted_list_of_set)
  moreover have "(\<forall>e \<in> set retained. 1 \<le> e \<and> e \<le> MAXIMUM_KEY_EPOCH) \<and> \<not> list_ex (\<lambda>e. e \<ge> current) retained
      \<longleftrightarrow> (\<forall>e \<in> set retained. 1 \<le> e \<and> e < current)" if "current \<le> MAXIMUM_KEY_EPOCH"
    using that unfolding list_ex_iff by force
  moreover have "new_metadata current retained = Some m \<longleftrightarrow> (1 \<le> current \<and> current \<le> MAXIMUM_KEY_EPOCH)
      \<and> ((\<forall>e \<in> set retained. 1 \<le> e \<and> e \<le> MAXIMUM_KEY_EPOCH) \<and> \<not> list_ex (\<lambda>e. e \<ge> current) retained)
      \<and> sorted_list_of_set (set retained) = retained \<and> length retained < MAXIMUM_KEY_RING_ENTRIES
      \<and> m = \<lparr>km_current = current, km_retained = retained\<rparr>"
    by (auto simp: new_metadata_def traverse_epochs epoch_number_of elim!: bind_SomeE split: if_splits)
  ultimately show ?thesis by blast
qed

definition valid_ring_metadata :: "ring_metadata \<Rightarrow> bool" where
  "valid_ring_metadata m \<longleftrightarrow> new_metadata (km_current m) (km_retained m) = Some m"

lemma new_metadata_valid: "new_metadata c rs = Some m \<Longrightarrow> valid_ring_metadata m"
  by (auto simp: valid_ring_metadata_def new_metadata_iff)

lemma metadata_from_to:
  assumes "valid_ring_metadata m"
  shows "metadata_from_dict (metadata_to_dict m) = Some m"
proof -
  have m: "1 \<le> km_current m" "km_current m \<le> MAXIMUM_KEY_EPOCH" "\<forall>e \<in> set (km_retained m). 1 \<le> e \<and> e \<le> MAXIMUM_KEY_EPOCH"
    using assms by (auto simp: valid_ring_metadata_def new_metadata_iff)
  have "traverse ring_epoch_value (map JInt (km_retained m)) = Some (map id (km_retained m))"
    using m(3) by (intro traverse_map_Some) (simp add: ring_epoch_value_def)
  then show ?thesis
    using assms m(1,2)
    by (simp add: metadata_from_dict_def metadata_to_dict_def exact_def ring_epoch_value_def valid_ring_metadata_def epoch_number_of)
qed

lemma metadata_from_valid: "metadata_from_dict v = Some m \<Longrightarrow> valid_ring_metadata m"
  by (auto simp: metadata_from_dict_def elim!: bind_SomeE dest: new_metadata_valid)

interpretation metadata_codec: codec valid_ring_metadata metadata_to_dict metadata_from_dict
  by unfold_locales (rule metadata_from_to, assumption, rule metadata_from_valid)

end
