(* ===== verification/RotationCreate.thy ===== *)
theory RotationCreate
  imports Rotation KeyEpochs
begin

text \<open>
  Making a new key epoch (\<open>create_epoch_rotation\<close> of \<open>vaultsync/epoch_rotation.py\<close>) and the packet for
  one device (\<open>create_device_delivery\<close> of \<open>vaultsync/device_delivery.py\<close>).  \<open>sign\<close> is the Ed25519 key
  of the caller, \<open>vault_key\<close> the 32 random bytes of the new epoch, and \<open>ephemeral\<close> the randomness
  drawn while sealing to a device.  Every exception becomes the one code of the function, here \<open>None\<close>.
\<close>

definition delivery_context :: "json \<Rightarrow> string \<Rightarrow> string" where
  "delivery_context plan device = ''atlasvault-rotation-delivery-v1:'' @ rotation_binding plan @ '':'' @ device"

definition seal_delivery :: "primitives \<Rightarrow> native_suite option \<Rightarrow> (string \<Rightarrow> string) \<Rightarrow> key_ring \<Rightarrow> json \<Rightarrow> registry \<Rightarrow> string \<Rightarrow> json option" where
  "seal_delivery X native ephemeral ring plan after device = do {
     entry \<leftarrow> find_device device after;
     public \<leftarrow> decode_field 32 (JStr (de_agreement_b64 entry));
     sealed \<leftarrow> seal_current X native ring public (delivery_context plan device) (ephemeral device);
     Some (JObj [(''device_id'', JStr device), (''key_epoch'', JInt (es_epoch sealed)),
       (''encapsulated_key_b64'', JStr (b64encode (es_encapsulated sealed))),
       (''ciphertext_b64'', JStr (b64encode (es_ciphertext sealed)))]) }"

definition rotation_body :: "obj \<Rightarrow> json \<Rightarrow> json \<Rightarrow> string \<Rightarrow> json list \<Rightarrow> obj" where
  "rotation_body plan transition registry signer deliveries =
     [(''format'', JStr ''atlasvault-epoch-rotation''), (''version'', JInt 1), (''plan'', JObj plan),
      (''revocation'', transition), (''registry'', registry), (''rotation_signer_device_id'', JStr signer),
      (''deliveries'', JList deliveries)]"

definition create_epoch_rotation :: "verifier \<Rightarrow> (string \<Rightarrow> string) \<Rightarrow> primitives \<Rightarrow> native_suite option \<Rightarrow> string
    \<Rightarrow> (string \<Rightarrow> string) \<Rightarrow> json \<Rightarrow> json \<Rightarrow> json \<Rightarrow> json option" where
  "create_epoch_rotation verify sign X native vault_key ephemeral transition registry state_v = do {
     es \<leftarrow> read_registry registry;
     after \<leftarrow> success (verify_transition verify transition es);
     r \<leftarrow> removal_of transition;
     state_root \<leftarrow> commitment_hex state_v;
     let plan = rotation_plan r (removal_root r) after state_root;
     success (validate_rotation_plan (JObj plan) transition after state_v);
     ring \<leftarrow> ring_from_entries (rm_key_epoch r + 1) (fmupd (rm_key_epoch r + 1) vault_key fmempty);
     deliveries \<leftarrow> traverse (seal_delivery X native ephemeral ring (JObj plan) after) (sort (active_ids after));
     let body = rotation_body plan transition registry (rm_initiator r) deliveries;
     let root = rotation_root (JObj body);
     let proof_v = JObj (body @ [(''root'', JStr root), (''signature_b64'', JStr (b64encode (sign (rotation_message root))))]);
     success (verify_epoch_rotation verify proof_v registry (JStr (rm_account r)) (JStr (rm_vault r))
       (JInt (rm_key_epoch r)) state_v);
     Some proof_v }"

text \<open>How a device opens its wrapper when it activates the epoch (\<open>vaultsync/epoch_vault.py\<close>).\<close>

definition open_delivery :: "primitives \<Rightarrow> native_suite option \<Rightarrow> string \<Rightarrow> json \<Rightarrow> string \<Rightarrow> json list \<Rightarrow> int \<Rightarrow> (int \<times> string) option" where
  "open_delivery X native private plan device deliveries new_epoch = do {
     w \<leftarrow> find (\<lambda>w. mapping w \<bind> (\<lambda>obj. map_of obj ''device_id'') = Some (JStr device)) deliveries;
     obj \<leftarrow> mapping w;
     epoch \<leftarrow> map_of obj ''key_epoch'' \<bind> int_value;
     encapsulated \<leftarrow> map_of obj ''encapsulated_key_b64'' \<bind> decode_field 32;
     ciphertext \<leftarrow> map_of obj ''ciphertext_b64'' \<bind> decode_field 48;
     sealed \<leftarrow> new_epoch_sealed epoch encapsulated ciphertext;
     open_epoch X native private sealed (delivery_context plan device) new_epoch }"

section \<open>Packets\<close>

definition activation_keys :: "string list" where
  "activation_keys = [''format'', ''version'', ''status'', ''transition_id'', ''proof'']"

text \<open>The entry of a device, the same in the registry of the rotation and in the current one.\<close>

definition same_entry :: "registry \<Rightarrow> registry \<Rightarrow> json \<Rightarrow> unit option" where
  "same_entry historic current v = do {
     h \<leftarrow> find_active_device v historic;
     c \<leftarrow> find_active_device v current;
     require (h = c) }"

definition wrapper_for :: "json \<Rightarrow> json list \<Rightarrow> json option" where
  "wrapper_for device_v ws = find (\<lambda>w. mapping w \<bind> (\<lambda>obj. map_of obj ''device_id'') = Some device_v) ws"

definition create_device_delivery :: "verifier \<Rightarrow> (string \<Rightarrow> string) \<Rightarrow> json \<Rightarrow> json \<Rightarrow> json \<Rightarrow> json \<Rightarrow> bool \<Rightarrow> json option" where
  "create_device_delivery verify sign record_v recipient_v issuer_v current_v recovery_pending = do {
     rec \<leftarrow> mapping record_v;
     exact rec activation_keys;
     old_v \<leftarrow> map_of rec ''proof'';
     old \<leftarrow> mapping old_v;
     plan_v \<leftarrow> map_of old ''plan'';
     plan \<leftarrow> mapping plan_v;
     old_root \<leftarrow> map_of old ''root'';
     require (\<not> recovery_pending \<and> map_of rec ''format'' = Some (JStr ''atlasvault-activation-record'')
       \<and> map_of rec ''version'' = Some (JInt 1) \<and> map_of rec ''status'' = Some (JStr ''ACTIVATION_ACCEPTED'')
       \<and> map_of rec ''transition_id'' = Some old_root);
     registry \<leftarrow> map_of old ''registry'';
     revocation \<leftarrow> map_of old ''revocation'';
     signer_v \<leftarrow> map_of old ''rotation_signer_device_id'';
     account_v \<leftarrow> map_of plan ''account_id'';
     vault_v \<leftarrow> map_of plan ''vault_id'';
     previous_v \<leftarrow> map_of plan ''previous_epoch'';
     state_v \<leftarrow> map_of plan ''state_root'';
     result \<leftarrow> success (verify_epoch_rotation verify old_v registry account_v vault_v previous_v state_v);
     current \<leftarrow> read_registry current_v;
     same_entry (rr_registry result) current issuer_v;
     same_entry (rr_registry result) current recipient_v;
     deliveries \<leftarrow> map_of old ''deliveries'' \<bind> json_list;
     wrapper \<leftarrow> wrapper_for recipient_v deliveries;
     recipient \<leftarrow> find (\<lambda>e. JStr (de_device_id e) = recipient_v) (rr_registry result);
     agreement \<leftarrow> decode_field 32 (JStr (de_agreement_b64 recipient));
     new_epoch_v \<leftarrow> map_of plan ''new_epoch'';
     let body = [(''format'', JStr ''atlasvault-device-delivery-proof''), (''version'', JInt 2),
       (''activation_id'', old_root), (''plan'', plan_v), (''revocation'', revocation), (''registry'', registry),
       (''recipient_device_id'', recipient_v), (''recipient_agreement_sha256'', JStr (sha256_hex agreement)),
       (''wrapper_sha256'', JStr (sha256_hex (canonical_json wrapper))), (''registry_generation'', new_epoch_v),
       (''issuer_device_id'', issuer_v), (''rotation_signer_device_id'', signer_v), (''hpke_suite'', JStr HPKE_SUITE),
       (''hpke_version'', JInt 2), (''signature_algorithm'', JStr ''Ed25519''), (''signature_version'', JInt 1)];
     let root = delivery_root body;
     let proof_v = JObj (body @ [(''root'', JStr root), (''signature_b64'', JStr (b64encode (sign (delivery_message root))))]);
     let packet = JObj [(''proof'', proof_v), (''wrapper'', wrapper)];
     success (verify_device_delivery verify packet registry account_v vault_v previous_v state_v old_root recipient_v);
     Some packet }"

end
