(* ===== verification/RotationProperties.thy ===== *)
theory RotationProperties
  imports RevocationSamples RotationCreate
begin

text \<open>
  The properties of rotations and enrollments: a new epoch reaches exactly the devices that remain,
  and an enrollment adds one new device at the word of an active one.
\<close>

section \<open>Plans\<close>

lemma removal_of_obj: "removal_of (JObj obj) = removal_from_dict (JObj (without_signature obj))"
  by (simp add: removal_of_def)

lemma validated_plan:
  assumes "validate_rotation_plan plan t after state_v = Inr u" "removal_of t = Some r"
  obtains p state_root where "plan = JObj p" "state_v = JStr state_root" "devices_root after = rm_resulting_root r"
    "\<And>k v. (k, v) \<in> set (rotation_plan r (removal_root r) after state_root) \<Longrightarrow> map_of p k = Some v"
proof -
  have "\<exists>p state_root. plan = JObj p \<and> state_v = JStr state_root \<and> devices_root after = rm_resulting_root r
      \<and> (\<forall>(k, v) \<in> set (rotation_plan r (removal_root r) after state_root). map_of p k = Some v)"
    using assms unfolding validate_rotation_plan_def
    by (auto simp: removal_of_def and_then_Inr list_all_iff Let_def elim!: bind_SomeE split: if_splits)
  then show ?thesis using that by blast
qed

lemma traverse_strings [simp]: "traverse str_value (map JStr xs) = Some xs"
  by (induction xs) simp_all

lemma validated_plan_fields:
  assumes "validate_rotation_plan plan t after state_v = Inr u" "removal_of t = Some r"
  shows "plan_fields plan = Some (rm_key_epoch r + 1, sort (active_ids after))"
proof -
  obtain p state_root where p: "plan = JObj p"
    "\<And>k v. (k, v) \<in> set (rotation_plan r (removal_root r) after state_root) \<Longrightarrow> map_of p k = Some v"
    using validated_plan [OF assms] by metis
  have "map_of p ''new_epoch'' = Some (JInt (rm_key_epoch r + 1))"
    "map_of p ''recipients'' = Some (JList (map JStr (sort (active_ids after))))"
    by (rule p(2), simp add: rotation_plan_def)+
  then show ?thesis by (simp add: plan_fields_def p(1))
qed

lemma removal_in_context_Some:
  assumes "removal_in_context verify t es account_v vault_v previous_v = Some (r, after)"
  shows "removal_of t = Some r" "verify_transition verify t es = Inr after" "account_v = JStr (rm_account r)"
    "vault_v = JStr (rm_vault r)" "previous_v = JInt (rm_key_epoch r)" "rm_sequence r = 1"
  using assms by (auto simp: removal_in_context_def in_rotation_context_def elim!: bind_SomeE)

lemma traverse_zip:
  assumes "traverse (\<lambda>(x, y). f x y) (zip xs ys) = Some us" "length ys = length xs"
  shows "list_all2 (\<lambda>x y. f x y \<noteq> None) xs ys"
  using traverse_SomeD [OF assms(1)] assms(2)
  by (auto simp: list_all2_conv_all_nth)

lemma check_wrapper_Some:
  "check_wrapper epoch device v = Some () \<longleftrightarrow> check_wrapper epoch device v \<noteq> None"
  by (cases "check_wrapper epoch device v") auto

section \<open>A new epoch\<close>

text \<open>C36: only the devices that remain get the new epoch: when a rotation is admitted, a removal verified
  against the registry, the recipients are the sorted identifiers of the devices that are active after it, the
  removed device is not among them, its initiator is, the epoch is the next one, there is exactly one
  checked wrapper for each recipient, in that order, and one of them signed the whole of it.\<close>

theorem rotation_excludes_revoked:
  assumes "verify_epoch_rotation verify proof_v registry account_v vault_v previous_v state_v = Inr res"
  shows "\<exists>es t r. read_registry registry = Some es \<and> removal_of t = Some r
    \<and> verify_transition verify t es = Inr (rr_registry res) \<and> rr_registry res = set_revoked (rm_target r) es
    \<and> account_v = JStr (rm_account r) \<and> vault_v = JStr (rm_vault r) \<and> previous_v = JInt (rm_key_epoch r)
    \<and> rr_new_epoch res = rm_key_epoch r + 1 \<and> rr_recipients res = sort (active_ids (rr_registry res))
    \<and> rm_target r \<notin> set (rr_recipients res) \<and> rm_initiator r \<in> set (rr_recipients res)
    \<and> (\<exists>obj deliveries. proof_v = JObj obj \<and> map_of obj ''deliveries'' = Some (JList deliveries)
        \<and> list_all2 (\<lambda>device w. check_wrapper (rr_new_epoch res) device w = Some ()) (rr_recipients res) deliveries
        \<and> (\<exists>signer e public signature. map_of obj ''rotation_signer_device_id'' = Some (JStr signer)
              \<and> signer \<in> set (rr_recipients res) \<and> find_device signer (rr_registry res) = Some e
              \<and> decode_field 32 (JStr (de_signing_b64 e)) = Some public
              \<and> verify public signature (rotation_message (rotation_root (JObj (without_signature obj))))))"
proof -
  obtain obj es t r plan deliveries u us new_epoch recipients after signer e public signature where
    p: "proof_v = JObj obj" "read_registry registry = Some es"
      "removal_in_context verify t es account_v vault_v previous_v = Some (r, after)"
      "validate_rotation_plan plan t after state_v = Inr u" "plan_fields plan = Some (new_epoch, recipients)"
      "map_of obj ''deliveries'' = Some (JList deliveries)" "length deliveries = length recipients"
      "traverse (\<lambda>(device, delivery). check_wrapper new_epoch device delivery) (zip recipients deliveries) = Some us"
      "res = \<lparr>rr_new_epoch = new_epoch, rr_recipients = recipients, rr_binding_root = rotation_binding plan, rr_registry = after\<rparr>"
      "map_of obj ''rotation_signer_device_id'' = Some (JStr signer)" "signer \<in> set recipients"
      "find_device signer after = Some e" "decode_field 32 (JStr (de_signing_b64 e)) = Some public"
      "verify public signature (rotation_message (rotation_root (JObj (without_signature obj))))"
    using assms unfolding verify_epoch_rotation_def Let_def
    by (elim and_then_Inr [THEN iffD1, elim_format] exE conjE) (auto elim!: bind_SomeE split: if_splits)
  note c = removal_in_context_Some [OF p(3)]
  have f: "new_epoch = rm_key_epoch r + 1" "recipients = sort (active_ids after)"
    using validated_plan_fields [OF p(4) c(1)] p(5) by simp_all
  obtain r' :: removal where "removal_of t = Some r'" "rm_target r' \<noteq> rm_initiator r'" "rm_initiator r' \<in> set (active_ids es)"
    "after = set_revoked (rm_target r') es" by (rule verify_transition_effect [OF c(2)]) (rule that)
  then have e: "after = set_revoked (rm_target r) es" "rm_target r \<notin> set recipients" "rm_initiator r \<in> set recipients"
    using c(1) by (auto simp: f(2) active_set_revoked)
  have "list_all2 (\<lambda>device w. check_wrapper new_epoch device w = Some ()) recipients deliveries"
    unfolding check_wrapper_Some by (rule traverse_zip [OF p(8,7)])
  then show ?thesis using p(1,2,6,10-14) c e f by (intro exI [of _ es] exI [of _ t] exI [of _ r]) (simp add: p(9), blast)
qed

text \<open>The plan that follows a removal passes its validation.\<close>

lemma plan_validated:
  assumes "verify_transition verify t es = Inr after" "removal_of t = Some r" "match_sha256 state_root"
  shows "validate_rotation_plan (JObj (rotation_plan r (removal_root r) after state_root)) t after (JStr state_root) = Inr ()"
proof -
  obtain obj r' signer public signature where v: "t = JObj obj" "exact obj signed_removal_keys = Some ()"
    "removal_from_dict (JObj (without_signature obj)) = Some r'" "map_of obj ''root'' = Some (JStr (removal_root r'))"
    "rm_resulting_root r' = devices_root after" "map_of obj ''signature_b64'' \<bind> decode_field 64 = Some signature"
    by (rule verify_transitionE [OF assms(1)]) (rule that)
  moreover from v(6) obtain sv where "map_of obj ''signature_b64'' = Some sv" "decode_field 64 sv = Some signature"
    by (rule bind_SomeE)
  moreover from v have "r' = r" using assms(2) by (simp add: removal_of_def)
  ultimately show ?thesis
    using assms(3)
    by (simp add: validate_rotation_plan_def Let_def) (simp add: rotation_plan_def exact_def)
qed

text \<open>A rotation that is put together from checked parts and signed by a recipient is admitted.\<close>

lemma rotation_verified:
  assumes "valid_devices es" "verify_transition verify t es = Inr after" "removal_of t = Some r" "rm_sequence r = 1"
    and "match_sha256 state_root" "plan = rotation_plan r (removal_root r) after state_root"
    and "length deliveries = length (active_ids after)"
    and "\<And>i. i < length deliveries \<Longrightarrow> check_wrapper (rm_key_epoch r + 1) (sort (active_ids after) ! i) (deliveries ! i) = Some ()"
    and "signer \<in> set (active_ids after)" "find_device signer after = Some e"
    and "decode_field 32 (JStr (de_signing_b64 e)) = Some public" "length signature = 64"
    and "body = rotation_body plan t (registry_dict es) signer deliveries"
    and "verify public signature (rotation_message (rotation_root (JObj body)))"
  shows "verify_epoch_rotation verify (JObj (body @ [(''root'', JStr (rotation_root (JObj body))),
      (''signature_b64'', JStr (b64encode signature))])) (registry_dict es) (JStr (rm_account r)) (JStr (rm_vault r))
      (JInt (rm_key_epoch r)) (JStr state_root)
    = Inr \<lparr>rr_new_epoch = rm_key_epoch r + 1, rr_recipients = sort (active_ids after),
        rr_binding_root = rotation_binding (JObj plan), rr_registry = after\<rparr>"
proof -
  let ?recipients = "sort (active_ids after)"
  note p = plan_validated [OF assms(2,3,5), folded assms(6)]
  have "traverse (\<lambda>(device, delivery). check_wrapper (rm_key_epoch r + 1) device delivery) (map id (zip ?recipients deliveries))
      = Some (map (\<lambda>_. ()) (zip ?recipients deliveries))"
    using assms(7,8) by (intro traverse_map_Some) (auto simp: in_set_zip)
  moreover have "removal_in_context verify t es (JStr (rm_account r)) (JStr (rm_vault r)) (JInt (rm_key_epoch r)) = Some (r, after)"
    by (simp add: removal_in_context_def in_rotation_context_def assms(2-4))
  moreover have "without_signature (body @ [(''root'', a), (''signature_b64'', b)]) = body" for a b
    by (simp add: without_signature_def assms(13) rotation_body_def)
  moreover have "exact (body @ [(''root'', a), (''signature_b64'', b)]) rotation_keys = Some ()" for a b
    by (simp add: exact_def assms(13) rotation_body_def rotation_keys_def)
  moreover have "map_of (body @ [(''root'', a), (''signature_b64'', b)]) k = map_of
      [(''format'', JStr ''atlasvault-epoch-rotation''), (''version'', JInt 1), (''plan'', JObj plan),
      (''revocation'', t), (''registry'', registry_dict es), (''rotation_signer_device_id'', JStr signer),
      (''deliveries'', JList deliveries), (''root'', a), (''signature_b64'', b)] k" for a b k
    by (simp add: assms(13) rotation_body_def)
  ultimately show ?thesis
    using assms(7,9-12,14) validated_plan_fields [OF p assms(3)]
    by (simp add: verify_epoch_rotation_def read_registry_of assms(1) p decode_field_encode Let_def image_iff del: map_of_append)
qed

definition sample_plan :: obj where
  "sample_plan = rotation_plan sample_removal (removal_root sample_removal) sample_after ZERO_ROOT"

definition sample_wrapper :: json where
  "sample_wrapper = JObj [(''device_id'', JStr first_id), (''key_epoch'', JInt 2),
     (''encapsulated_key_b64'', JStr (b64encode (key_bytes (CHR 0x06)))),
     (''ciphertext_b64'', JStr (b64encode (replicate 48 (CHR 0x07))))]"

definition sample_rotation_body :: obj where
  "sample_rotation_body = rotation_body sample_plan sample_transition (registry_dict sample_devices) first_id [sample_wrapper]"

definition sample_rotation :: json where
  "sample_rotation = JObj (sample_rotation_body @ [(''root'', JStr (rotation_root (JObj sample_rotation_body))),
     (''signature_b64'', JStr (b64encode sample_signature))])"

lemma first_remains: "find_device first_id sample_after = Some first_device"
  by (simp add: find_device_def sample_after_def set_revoked_def sample_devices_def)

lemma sample_rotation_verified:
  "verify_epoch_rotation sample_verify sample_rotation (registry_dict sample_devices) (JStr (rm_account sample_removal))
     (JStr (rm_vault sample_removal)) (JInt (rm_key_epoch sample_removal)) (JStr ZERO_ROOT)
    = Inr \<lparr>rr_new_epoch = rm_key_epoch sample_removal + 1, rr_recipients = sort (active_ids sample_after),
        rr_binding_root = rotation_binding (JObj sample_plan), rr_registry = sample_after\<rparr>"
  unfolding sample_rotation_def
proof (rule rotation_verified [OF sample_devices_valid(1) sample_transition_verified sample_removal_of _ _ sample_plan_def _ _ _
      first_remains first_signer _ sample_rotation_body_def])
  have "check_wrapper 2 first_id sample_wrapper = Some ()"
    by (simp add: check_wrapper_def sample_wrapper_def exact_def wrapper_keys_def decode_field_encode)
  then show "check_wrapper (rm_key_epoch sample_removal + 1) (sort (active_ids sample_after) ! i) ([sample_wrapper] ! i) = Some ()"
    if "i < length [sample_wrapper]" for i
    using that by (simp add: active_after sample_removal_def)
qed (simp_all add: sample_removal_def active_after sample_verify_def)

theorem rotation_excludes_revoked_witness:
  "\<exists>es t r. read_registry (registry_dict sample_devices) = Some es \<and> removal_of t = Some r
    \<and> verify_transition sample_verify t es = Inr sample_after \<and> rm_target r \<notin> set (sort (active_ids sample_after))"
  using rotation_excludes_revoked [OF sample_rotation_verified] by (elim exE conjE) (simp, blast)

section \<open>Enrollments\<close>

text \<open>C37: an enrollment adds exactly one device, at the word of an active one: when it is admitted, the new
  registry holds the entries of the old one unchanged and one new active entry for a device that had none, in the order of
  the identifiers; the signature of an active device of the old registry covers the whole text, which
  names the digests of both registries and the transcript that was confirmed.\<close>

theorem enrollment_adds_one:
  assumes "verify_enrollment verify proof_v registry context_v confirmed_v status = Some after"
  shows "\<exists>es target issuer obj public signature. read_registry registry = Some es \<and> proof_v = JObj obj
    \<and> device_state_in es (de_device_id target) = None \<and> de_state target = Active
    \<and> set after = insert target (set es) \<and> length after = length es + 1 \<and> sorted (map de_device_id after)
    \<and> (\<forall>d. device_state_in after d = (if d = de_device_id target then Some Active else device_state_in es d))
    \<and> issuer \<in> set es \<and> de_state issuer = Active \<and> decode_field 32 (JStr (de_signing_b64 issuer)) = Some public
    \<and> verify public signature (enrollment_message (enrollment_root obj)) \<and> status = ''ACTIVE''
    \<and> map_of obj ''prior_registry_root'' = Some (JStr (devices_root es))
    \<and> map_of obj ''resulting_registry_root'' = Some (JStr (devices_root after))
    \<and> map_of obj ''transcript_sha256'' = Some confirmed_v \<and> confirmed_v \<noteq> JStr ZERO_ROOT"
proof -
  obtain obj where o: "proof_v = JObj obj" "map_of obj ''transcript_sha256'' = Some confirmed_v" "confirmed_v \<noteq> JStr ZERO_ROOT"
    "verify_enrollment_attestation verify proof_v registry context_v status = Some after"
    using assms unfolding verify_enrollment_def by (auto elim!: bind_SomeE)
  obtain es target issuer v public signature where e: "read_registry registry = Some es"
    "target_entry obj = Some target" "\<not> list_ex (\<lambda>e. de_device_id e = de_device_id target) es"
    "after = sort_key de_device_id (es @ [target])" "find_active_device v es = Some issuer"
    "decode_field 32 (JStr (de_signing_b64 issuer)) = Some public"
    "verify public signature (enrollment_message (enrollment_root obj))" "status = ''ACTIVE''"
    "map_of obj ''prior_registry_root'' = Some (JStr (devices_root es))"
    "map_of obj ''resulting_registry_root'' = Some (JStr (devices_root after))"
    using o(4) unfolding verify_enrollment_attestation_def Let_def o(1)
    by (elim bind_SomeE) (auto elim!: bind_SomeE split: prod.splits)
  have t: "de_state target = Active"
    using e(2) by (auto simp: target_entry_def read_entry_def Let_def elim!: bind_SomeE)
  have i: "issuer \<in> set es" "de_state issuer = Active"
    using e(5) by (auto simp: find_active_device_def find_Some_iff)
  have new: "device_state_in es (de_device_id target) = None"
    using e(3) by (auto simp: device_state_in_def find_device_def find_None_iff list_ex_iff)
  have v: "valid_devices es" by (rule read_registry_valid [OF e(1)])
  moreover have "valid_devices after" by (rule enrollment_step [OF o(4)])
  ultimately have "\<forall>d. device_state_in after d = (if d = de_device_id target then Some Active else device_state_in es d)"
    using state_after_enrollment [of es target] t unfolding e(4) by simp
  moreover have "set after = insert target (set es)" "length after = length es + 1" "sorted (map de_device_id after)"
    unfolding e(4) by simp_all
  ultimately show ?thesis using o(1-3) e(1,6-10) t i new by blast
qed

definition sample_enrolled :: registry where
  "sample_enrolled = sort_key de_device_id [first_device, second_device]"

definition sample_enrollment_context :: obj where
  "sample_enrollment_context = [(''account_id'', JStr ''o''), (''vault_id'', JStr ''v''), (''registry_generation'', JInt 1),
     (''key_epoch'', JInt 1), (''state_root'', JStr ZERO_ROOT), (''activation_id'', JStr ZERO_ROOT)]"

definition sample_confirmed :: string where
  "sample_confirmed = replicate 64 (CHR ''1'')"

definition sample_enrollment_body :: obj where
  "sample_enrollment_body = sample_enrollment_context @
    [(''format'', JStr ''atlasvault-device-enrollment''), (''version'', JInt 1), (''next_registry_generation'', JInt 2),
     (''prior_registry_root'', JStr (devices_root [first_device])), (''resulting_registry_root'', JStr (devices_root sample_enrolled)),
     (''target_device_id'', JStr second_id), (''target_signing_public_b64'', JStr (de_signing_b64 second_device)),
     (''target_agreement_public_b64'', JStr (de_agreement_b64 second_device)),
     (''target_agreement_sha256'', JStr (sha256_hex (key_bytes (CHR 0x05)))), (''transcript_sha256'', JStr sample_confirmed),
     (''issuer_device_id'', JStr first_id), (''authorization_category'', JStr ''SAS_CONFIRMED''),
     (''signature_algorithm'', JStr ''Ed25519'')]"

definition sample_enrollment :: obj where
  "sample_enrollment = sample_enrollment_body @ [(''root'', JStr (enrollment_root sample_enrollment_body)),
     (''signature_b64'', JStr (b64encode sample_signature))]"

lemmas sample_enrollment_defs = sample_enrollment_def sample_enrollment_body_def sample_enrollment_context_def

lemma sample_enrollment_field: "map_of sample_enrollment k = map_of (sample_enrollment_body
    @ [(''root'', JStr (enrollment_root sample_enrollment_body)), (''signature_b64'', JStr (b64encode sample_signature))]) k"
  by (simp add: sample_enrollment_def)

lemma sample_enrollment_verified:
  "verify_enrollment sample_verify (JObj sample_enrollment) (registry_dict [first_device]) (JObj sample_enrollment_context)
     (JStr sample_confirmed) ''ACTIVE'' = Some sample_enrolled"
proof -
  have c: "match_sha256 sample_confirmed" "sample_confirmed \<noteq> ZERO_ROOT"
    by (simp_all add: match_sha256_def sample_confirmed_def ZERO_ROOT_def is_hex_def byte_val_def Let_def list_all_iff
        replicate_eq_replicate)
  have ctx: "enrollment_context (JObj sample_enrollment_context) = Some (sample_enrollment_context, 1)"
    by (simp add: enrollment_context_def sample_enrollment_context_def exact_def enrollment_context_keys_def
        match_identifier_def identifier_char_def byte_val_def)
  have k: "exact sample_enrollment signed_enrollment_keys = Some ()"
    by (simp add: exact_def signed_enrollment_keys_def enrollment_keys_def enrollment_context_keys_def sample_enrollment_defs)
  have fields: "list_all (\<lambda>(k, v). map_of sample_enrollment k = Some v) enrollment_constants"
    "list_all (\<lambda>k. map_of sample_enrollment k = map_of sample_enrollment_context k) enrollment_context_keys"
    by (simp_all add: enrollment_constants_def enrollment_context_keys_def sample_enrollment_defs)
  have f: "map_of sample_enrollment ''next_registry_generation'' = Some (JInt 2)"
    "map_of sample_enrollment ''transcript_sha256'' = Some (JStr sample_confirmed)"
    "map_of sample_enrollment ''prior_registry_root'' = Some (JStr (devices_root [first_device]))"
    "map_of sample_enrollment ''resulting_registry_root'' = Some (JStr (devices_root sample_enrolled))"
    "map_of sample_enrollment ''target_agreement_sha256'' = Some (JStr (sha256_hex (key_bytes (CHR 0x05))))"
    "map_of sample_enrollment ''issuer_device_id'' = Some (JStr first_id)"
    "map_of sample_enrollment ''signature_b64'' = Some (JStr (b64encode sample_signature))"
    "map_of sample_enrollment ''target_device_id'' = Some (JStr second_id)"
    "map_of sample_enrollment ''target_signing_public_b64'' = Some (JStr (de_signing_b64 second_device))"
    "map_of sample_enrollment ''target_agreement_public_b64'' = Some (JStr (de_agreement_b64 second_device))"
    by (simp_all add: sample_enrollment_defs)
  have "without_signature sample_enrollment = sample_enrollment_body" "without_signature sample_enrollment_body = sample_enrollment_body"
    by (simp_all add: without_signature_def sample_enrollment_defs)
  then have root: "enrollment_root sample_enrollment = enrollment_root sample_enrollment_body"
    "map_of sample_enrollment ''root'' = Some (JStr (enrollment_root sample_enrollment))"
    by (simp_all add: enrollment_root_def) (simp_all add: sample_enrollment_defs enrollment_root_def)
  have target: "target_entry sample_enrollment = Some second_device"
  proof -
    have "read_entry (entry_dict second_device) = Some second_device"
      by (rule read_entry_of) (simp add: second_device_def sample_entry_keys)
    then show ?thesis by (simp add: target_entry_def f entry_dict_def)
  qed
  have issuer: "find_active_device (JStr first_id) [first_device] = Some first_device"
    by (simp add: find_active_device_def)
  have agreement: "decode_field 32 (JStr (de_agreement_b64 second_device)) = Some (key_bytes (CHR 0x05))"
    by (simp add: second_device_def sample_device_def decode_field_encode)
  show ?thesis
    by (simp add: verify_enrollment_def verify_enrollment_attestation_def c ctx k fields f root(2) target issuer agreement
        read_registry_of sample_devices_valid first_signer decode_field_encode sample_verify_def Let_def)
      (simp add: sample_enrolled_def)
qed

theorem enrollment_adds_one_witness:
  "\<exists>es target. read_registry (registry_dict [first_device]) = Some es \<and> de_state target = Active
    \<and> set sample_enrolled = insert target (set es) \<and> device_state_in es (de_device_id target) = None"
  using enrollment_adds_one [OF sample_enrollment_verified] by blast

end
