(* ===== verification/EpochKeyProperties.thy ===== *)
theory EpochKeyProperties
  imports RotationProperties RevocationProperties
begin

text \<open>
  Who can read a new epoch: what an honest device makes after a removal is admitted, and every remaining
  device gets the same key from it.
\<close>

section \<open>One wrapper\<close>

lemma epoch_bounds: "1 \<le> e \<Longrightarrow> e < 9007199254740991 \<Longrightarrow> 1 \<le> e + 1 \<and> e + 1 \<le> MAXIMUM_KEY_EPOCH"
  by (simp add: MAXIMUM_KEY_EPOCH_def)

lemma fresh_ring:
  assumes "1 \<le> e" "e \<le> MAXIMUM_KEY_EPOCH" "length vault_key = 32"
  shows "ring_from_entries e (fmupd e vault_key fmempty)
    = Some \<lparr>kr_metadata = \<lparr>km_current = e, km_retained = []\<rparr>, kr_keys = fmupd e vault_key fmempty\<rparr>"
proof -
  have i: "items (fmupd e vault_key fmempty) = [(e, vault_key)]"
    by (simp add: items_def sorted_list_of_fset.rep_eq)
  have "new_metadata e [] = Some \<lparr>km_current = e, km_retained = []\<rparr>"
    using assms by (simp add: new_metadata_iff MAXIMUM_KEY_RING_ENTRIES_def)
  then show ?thesis
    using assms by (simp add: ring_from_entries_def new_ring_def i epoch_number_of vault_key_bytes_def Let_def
        MAXIMUM_KEY_RING_ENTRIES_def)
qed

lemma epoch_context_of:
  assumes "1 \<le> e" "e \<le> MAXIMUM_KEY_EPOCH" "c \<noteq> []" "length c \<le> 4000"
  obtains full where "epoch_context e c = Some full" "full \<noteq> []" "length full \<le> 4096"
  using assms by (simp_all add: epoch_context_def MAXIMUM_EPOCH_CONTEXT_def EPOCH_CONTEXT_PREFIX_def epoch_number_of big_endian_def)

lemma length_delivery_context: "length device \<le> 128 \<Longrightarrow> length (delivery_context plan device) \<le> 4000"
  by (simp add: delivery_context_def rotation_binding_def)

text \<open>A wrapper is checked and opens, for a device whose agreement key is known.\<close>

lemma wrapper_opens:
  assumes "primitives_ok X" "\<And>suite. native = Some suite \<Longrightarrow> suite_ok X suite"
    and "find_device device after = Some entry" "decode_field 32 (JStr (de_agreement_b64 entry)) = Some (x25519_public X private)"
    and "length private = 32" "length vault_key = 32" "length device \<le> 128" "1 \<le> e" "e \<le> MAXIMUM_KEY_EPOCH"
    and "usable X native (x25519_public X private) (ephemeral device)"
    and "ring = \<lparr>kr_metadata = \<lparr>km_current = e, km_retained = []\<rparr>, kr_keys = fmupd e vault_key fmempty\<rparr>"
  obtains w where "seal_delivery X native ephemeral ring plan after device = Some w"
    "check_wrapper e device w = Some ()" "mapping w \<bind> (\<lambda>obj. map_of obj ''device_id'') = Some (JStr device)"
    "\<And>ws. find (\<lambda>w. mapping w \<bind> (\<lambda>obj. map_of obj ''device_id'') = Some (JStr device)) ws = Some w \<Longrightarrow>
       open_delivery X native private plan device ws e = Some (e, vault_key)"
proof -
  have n: "delivery_context plan device \<noteq> []" by (simp add: delivery_context_def)
  obtain c where c: "epoch_context e (delivery_context plan device) = Some c" "c \<noteq> []" "length c \<le> 4096"
    by (rule epoch_context_of [OF assms(8,9) n length_delivery_context [OF assms(7)]])
  obtain s where s: "seal_vault_key X native (x25519_public X private) vault_key c (ephemeral device) = Some s"
    "length (sk_encapsulated s) = 32" "length (sk_ciphertext s) = 48" "open_vault_key X native private s c = Some vault_key"
    using seal_opens [OF assms(1,2,5,6) c(2,3) assms(10)] by metis
  have k: "current_vault_key ring = Some vault_key" "km_current (kr_metadata ring) = e"
    using assms(8,9) by (simp_all add: assms(11) current_vault_key_def key_for_epoch_def epoch_number_of)
  let ?s = "\<lparr>es_epoch = e, es_encapsulated = sk_encapsulated s, es_ciphertext = sk_ciphertext s\<rparr>"
  have n: "new_sealed (sk_encapsulated s) (sk_ciphertext s) = Some s"
    using s(2,3) by (simp add: new_sealed_def bytes_of_length_def HPKE_KEY_BYTES_def HPKE_CIPHERTEXT_BYTES_def)
  have m: "new_epoch_sealed e (sk_encapsulated s) (sk_ciphertext s) = Some ?s"
    using assms(8,9) by (simp add: new_epoch_sealed_def n epoch_number_of)
  have seal: "seal_current X native ring (x25519_public X private) (delivery_context plan device) (ephemeral device) = Some ?s"
    by (simp add: seal_current_def k c(1) s(1) m)
  have op: "open_epoch X native private ?s (delivery_context plan device) e = Some (e, vault_key)"
    using assms(6,8,9) by (simp add: open_epoch_def n c(1) s(4) epoch_number_of vault_key_bytes_def)
  let ?w = "JObj [(''device_id'', JStr device), (''key_epoch'', JInt e),
     (''encapsulated_key_b64'', JStr (b64encode (sk_encapsulated s))), (''ciphertext_b64'', JStr (b64encode (sk_ciphertext s)))]"
  show ?thesis
  proof (rule that [of ?w])
    show "seal_delivery X native ephemeral ring plan after device = Some ?w"
      by (simp add: seal_delivery_def assms(3,4) seal)
    show "check_wrapper e device ?w = Some ()"
      by (simp add: check_wrapper_def exact_def wrapper_keys_def decode_field_encode s(2,3))
    show "open_delivery X native private plan device ws e = Some (e, vault_key)"
      if "find (\<lambda>w. mapping w \<bind> (\<lambda>obj. map_of obj ''device_id'') = Some (JStr device)) ws = Some ?w" for ws
      unfolding open_delivery_def that by (simp add: decode_field_encode s(2,3) m op)
  qed simp
qed

section \<open>A whole epoch\<close>

text \<open>The private agreement keys of the devices that are active in a registry, and randomness with which
  sealing to each of them succeeds.\<close>

definition holds_agreement_keys :: "primitives \<Rightarrow> native_suite option \<Rightarrow> (string \<Rightarrow> string) \<Rightarrow> (string \<Rightarrow> string) \<Rightarrow> registry \<Rightarrow> bool" where
  "holds_agreement_keys X native private ephemeral es \<longleftrightarrow> (\<forall>d \<in> set (active_ids es). \<forall>e. find_device d es = Some e \<longrightarrow>
     length (private d) = 32 \<and> decode_field 32 (JStr (de_agreement_b64 e)) = Some (x25519_public X (private d))
     \<and> usable X native (x25519_public X (private d)) (ephemeral d))"

lemma find_wrapper:
  assumes "\<And>d. d \<in> set ds \<Longrightarrow> mapping (W d) \<bind> (\<lambda>obj. map_of obj ''device_id'') = Some (JStr d)" "d \<in> set ds"
  shows "find (\<lambda>w. mapping w \<bind> (\<lambda>obj. map_of obj ''device_id'') = Some (JStr d)) (map W ds) = Some (W d)"
  using assms by (induction ds) auto

lemma wrappers_open:
  assumes "primitives_ok X" "\<And>suite. native = Some suite \<Longrightarrow> suite_ok X suite" "valid_devices after"
    and "holds_agreement_keys X native private ephemeral after" "length vault_key = 32" "1 \<le> e" "e \<le> MAXIMUM_KEY_EPOCH"
    and "ring = \<lparr>kr_metadata = \<lparr>km_current = e, km_retained = []\<rparr>, kr_keys = fmupd e vault_key fmempty\<rparr>"
  obtains deliveries where "traverse (seal_delivery X native ephemeral ring plan after) (sort (active_ids after)) = Some deliveries"
    "length deliveries = length (active_ids after)"
    "\<And>i. i < length deliveries \<Longrightarrow> check_wrapper e (sort (active_ids after) ! i) (deliveries ! i) = Some ()"
    "\<And>d. d \<in> set (active_ids after) \<Longrightarrow> open_delivery X native (private d) plan d deliveries e = Some (e, vault_key)"
proof -
  let ?id = "\<lambda>w d. mapping w \<bind> (\<lambda>obj. map_of obj ''device_id'') = Some (JStr d)"
  have "\<exists>w. seal_delivery X native ephemeral ring plan after d = Some w \<and> check_wrapper e d w = Some () \<and> ?id w d
      \<and> (\<forall>ws. find (\<lambda>w. ?id w d) ws = Some w \<longrightarrow> open_delivery X native (private d) plan d ws e = Some (e, vault_key))"
    if d: "d \<in> set (active_ids after)" for d
  proof -
    obtain entry where f: "find_device d after = Some entry" "match_identifier d"
      by (rule active_device [OF assms(3) d]) (rule that)
    then have l: "length d \<le> 128" by (simp add: match_identifier_def)
    have k: "length (private d) = 32" "decode_field 32 (JStr (de_agreement_b64 entry)) = Some (x25519_public X (private d))"
      "usable X native (x25519_public X (private d)) (ephemeral d)"
      using assms(4) d f(1) by (simp_all add: holds_agreement_keys_def)
    show ?thesis
      by (rule wrapper_opens [where device = d and ephemeral = ephemeral and plan = plan, OF assms(1,2) f(1) k(2,1) assms(5) l assms(6,7) k(3) assms(8)]) blast+
  qed
  then obtain W where W: "\<And>d. d \<in> set (active_ids after) \<Longrightarrow> seal_delivery X native ephemeral ring plan after d = Some (W d)"
    "\<And>d. d \<in> set (active_ids after) \<Longrightarrow> check_wrapper e d (W d) = Some ()"
    "\<And>d. d \<in> set (active_ids after) \<Longrightarrow> ?id (W d) d"
    "\<And>d ws. d \<in> set (active_ids after) \<Longrightarrow> find (\<lambda>w. ?id w d) ws = Some (W d) \<Longrightarrow>
       open_delivery X native (private d) plan d ws e = Some (e, vault_key)"
    by metis
  let ?ds = "sort (active_ids after)"
  show ?thesis
  proof (rule that [of "map W ?ds"])
    show "traverse (seal_delivery X native ephemeral ring plan after) ?ds = Some (map W ?ds)"
      using traverse_map_Some [of ?ds "seal_delivery X native ephemeral ring plan after" "\<lambda>d. d" W] W(1) by simp
    show "check_wrapper e (?ds ! i) (map W ?ds ! i) = Some ()" if "i < length (map W ?ds)" for i
    proof -
      have "?ds ! i \<in> set ?ds" using that by (intro nth_mem) simp
      then show ?thesis using W(2) that by simp
    qed
    show "open_delivery X native (private d) plan d (map W ?ds) e = Some (e, vault_key)" if "d \<in> set (active_ids after)" for d
      by (rule W(4) [OF that], rule find_wrapper) (use W(3) that in simp_all)
  qed simp
qed

text \<open>C38: the devices that remain get the new key: what an honest initiator makes of a verified removal is
  admitted as the next epoch, and every device that is still active opens its wrapper and finds the
  same new key, whether or not the package has a suite of its own.\<close>

theorem honest_rotation_opens:
  assumes "valid_devices es" and "verify_transition verify t es = Inr after" and "removal_of t = Some r" and "rm_sequence r = 1"
    and "match_sha256 state_root" and "length vault_key = 32"
    and "find_device (rm_initiator r) es = Some e" and "decode_field 32 (JStr (de_signing_b64 e)) = Some public"
    and "\<And>m. length (sign m) = 64 \<and> verify public (sign m) m"
    and "primitives_ok X" and "pred_option (suite_ok X) native"
    and "holds_agreement_keys X native private ephemeral after"
  shows "\<exists>obj deliveries res. create_epoch_rotation verify sign X native vault_key ephemeral t (registry_dict es) (JStr state_root) = Some (JObj obj)
    \<and> verify_epoch_rotation verify (JObj obj) (registry_dict es) (JStr (rm_account r)) (JStr (rm_vault r)) (JInt (rm_key_epoch r))
        (JStr state_root) = Inr res
    \<and> map_of obj ''deliveries'' = Some (JList deliveries) \<and> rr_registry res = after \<and> rr_new_epoch res = rm_key_epoch r + 1
    \<and> (\<forall>d \<in> set (active_ids after). open_delivery X native (private d)
          (JObj (rotation_plan r (removal_root r) after state_root)) d deliveries (rm_key_epoch r + 1) = Some (rm_key_epoch r + 1, vault_key))"
proof -
  let ?e = "rm_key_epoch r + 1" and ?plan = "rotation_plan r (removal_root r) after state_root"
  let ?ring = "\<lparr>kr_metadata = \<lparr>km_current = ?e, km_retained = []\<rparr>, kr_keys = fmupd ?e vault_key fmempty\<rparr>"
  have suite: "native = Some suite \<Longrightarrow> suite_ok X suite" for suite using assms(11) by simp
  obtain r' where "removal_of t = Some r'" "valid_removal r'" "after = set_revoked (rm_target r') es" "valid_devices after"
    "device_state_in es (rm_initiator r') = Some Active" "rm_target r' \<noteq> rm_initiator r'"
    by (rule removal_step [OF assms(1,2)]) (rule that)
  then have r: "valid_removal r" "after = set_revoked (rm_target r) es" "valid_devices after"
    "device_state_in es (rm_initiator r) = Some Active" "rm_target r \<noteq> rm_initiator r"
    using assms(3) by simp_all
  have b: "1 \<le> ?e" "?e \<le> MAXIMUM_KEY_EPOCH" using r(1) epoch_bounds by (simp_all add: valid_removal_def)
  have dist: "distinct (map de_device_id es)" "distinct (map de_device_id after)"
    using assms(1) r(3) by (simp_all add: valid_devices_def)
  have active: "rm_initiator r \<in> set (active_ids after)"
    using r(4,5) active_state [OF dist(1)] by (simp add: r(2) active_set_revoked)
  have "e \<in> set es" "de_device_id e = rm_initiator r" using find_device_Some [OF assms(7)] by simp_all
  then have signer: "find_device (rm_initiator r) after = Some e"
    using r(5) unfolding find_device_iff [OF dist(2)] by (force simp: r(2) set_revoked_def)
  obtain deliveries where d: "traverse (seal_delivery X native ephemeral ?ring (JObj ?plan) after) (sort (active_ids after)) = Some deliveries"
    "length deliveries = length (active_ids after)"
    "\<And>i. i < length deliveries \<Longrightarrow> check_wrapper ?e (sort (active_ids after) ! i) (deliveries ! i) = Some ()"
    "\<And>d. d \<in> set (active_ids after) \<Longrightarrow> open_delivery X native (private d) (JObj ?plan) d deliveries ?e = Some (?e, vault_key)"
    by (rule wrappers_open [OF assms(10) suite r(3) assms(12,6) b refl]) blast+
  let ?body = "rotation_body ?plan t (registry_dict es) (rm_initiator r) deliveries"
  let ?root = "rotation_root (JObj ?body)"
  let ?obj = "?body @ [(''root'', JStr ?root), (''signature_b64'', JStr (b64encode (sign (rotation_message ?root))))]"
  have v: "verify_epoch_rotation verify (JObj ?obj) (registry_dict es) (JStr (rm_account r)) (JStr (rm_vault r)) (JInt (rm_key_epoch r)) (JStr state_root)
      = Inr \<lparr>rr_new_epoch = ?e, rr_recipients = sort (active_ids after), rr_binding_root = rotation_binding (JObj ?plan), rr_registry = after\<rparr>"
    by (rule rotation_verified [OF assms(1-5) refl d(2,3) active signer assms(8) conjunct1 [OF assms(9)] refl conjunct2 [OF assms(9)]])
  have "map_of ?obj ''deliveries'' = Some (JList deliveries)" by (simp add: rotation_body_def)
  moreover have "create_epoch_rotation verify sign X native vault_key ephemeral t (registry_dict es) (JStr state_root) = Some (JObj ?obj)"
    using assms(2,3,5) plan_validated [OF assms(2,3,5)] v d(1)
    by (simp add: create_epoch_rotation_def read_registry_of assms(1) fresh_ring [OF b assms(6)] Let_def)
  ultimately show ?thesis
    using v d(4) by (intro exI [of _ ?obj] exI [of _ deliveries]) simp
qed

definition toy_primitives :: primitives where
  "toy_primitives = \<lparr>x25519_public = (\<lambda>a. a),
     x25519_exchange = (\<lambda>a p. if length a = 32 \<and> length p = 32
       then Some (map2 (\<lambda>x y. byte_of (byte_val x + byte_val y)) a p) else None),
     aesgcm_encrypt = (\<lambda>k n m d. m @ replicate 16 (CHR 0x00)),
     aesgcm_decrypt = (\<lambda>k n c d. Some (take (length c - 16) c))\<rparr>"

lemma toy_primitives_ok: "primitives_ok toy_primitives"
proof -
  have "map2 (\<lambda>x y. byte_of (byte_val x + byte_val y)) a b = map2 (\<lambda>x y. byte_of (byte_val x + byte_val y)) b a" for a b
    by (rule nth_equalityI) (simp_all add: add.commute)
  then show ?thesis by (simp add: primitives_ok_def toy_primitives_def split: if_splits)
qed

lemma toy_keys: "holds_agreement_keys toy_primitives None (\<lambda>_. key_bytes (CHR 0x03)) (\<lambda>_. key_bytes (CHR 0x08)) sample_after"
proof -
  have "decode_field 32 (JStr (de_agreement_b64 first_device)) = Some (key_bytes (CHR 0x03))"
    by (simp add: first_device_def sample_device_def decode_field_encode)
  then show ?thesis
    by (simp add: holds_agreement_keys_def active_after first_remains usable_def toy_primitives_def)
qed

theorem honest_rotation_opens_witness:
  "\<exists>obj deliveries. create_epoch_rotation sample_verify (\<lambda>_. sample_signature) toy_primitives None (key_bytes (CHR 0x09))
      (\<lambda>_. key_bytes (CHR 0x08)) sample_transition (registry_dict sample_devices) (JStr ZERO_ROOT) = Some (JObj obj)
    \<and> map_of obj ''deliveries'' = Some (JList deliveries)
    \<and> open_delivery toy_primitives None (key_bytes (CHR 0x03))
        (JObj (rotation_plan sample_removal (removal_root sample_removal) sample_after ZERO_ROOT)) first_id deliveries 2
      = Some (2, key_bytes (CHR 0x09))"
proof -
  have f: "find_device (rm_initiator sample_removal) sample_devices = Some first_device"
    by (simp add: find_device_def sample_removal_def sample_devices_def)
  have s: "length ((\<lambda>_. sample_signature) m) = 64 \<and> sample_verify sample_public ((\<lambda>_. sample_signature) m) m" for m :: string
    by (simp add: sample_verify_def)
  have n: "rm_sequence sample_removal = 1" "rm_key_epoch sample_removal + 1 = 2" "first_id \<in> set (active_ids sample_after)"
    by (simp_all add: sample_removal_def active_after)
  have k: "length (key_bytes (CHR 0x09)) = 32" by simp
  have native: "pred_option (suite_ok toy_primitives) None" by simp
  obtain obj deliveries where h: "create_epoch_rotation sample_verify (\<lambda>_. sample_signature) toy_primitives None (key_bytes (CHR 0x09))
      (\<lambda>_. key_bytes (CHR 0x08)) sample_transition (registry_dict sample_devices) (JStr ZERO_ROOT) = Some (JObj obj)"
    "map_of obj ''deliveries'' = Some (JList deliveries)"
    "\<forall>d \<in> set (active_ids sample_after). open_delivery toy_primitives None (key_bytes (CHR 0x03))
        (JObj (rotation_plan sample_removal (removal_root sample_removal) sample_after ZERO_ROOT)) d deliveries (rm_key_epoch sample_removal + 1)
      = Some (rm_key_epoch sample_removal + 1, key_bytes (CHR 0x09))"
    using honest_rotation_opens [OF sample_devices_valid(1) sample_transition_verified sample_removal_of n(1) zero_root_hex k
      f first_signer s toy_primitives_ok native toy_keys]
    by (elim exE conjE) (rule that)
  show ?thesis
    by (rule exI [of _ obj], rule exI [of _ deliveries], intro conjI)
      (rule h(1), rule h(2), rule bspec [OF h(3) n(3), unfolded n(2)])
qed

section \<open>Contexts\<close>

lemma byte_of_inject: "byte_of m = byte_of n \<longleftrightarrow> m mod 256 = n mod 256"
  by (metis byte_of_val byte_val_of)

lemma big_endian_inject:
  assumes "big_endian k m = big_endian k n" "m < 256 ^ k" "n < 256 ^ k"
  shows "m = n"
  using assms
proof (induction k arbitrary: m n)
  case (Suc k)
  have low: "byte_of m = byte_of n" and high: "big_endian k (m div 256) = big_endian k (n div 256)"
    using Suc.prems(1) by (simp_all add: big_endian_def upt_conv_Cons map_Suc_upt [symmetric] rev_map div_mult2_eq [symmetric] del: upt_Suc)
  have "m div 256 < 256 ^ k" "n div 256 < 256 ^ k" using Suc.prems(2,3) by (simp_all add: less_mult_imp_div_less)
  then have "m div 256 = n div 256" by (rule Suc.IH [OF high])
  moreover have "m mod 256 = n mod 256" using low by (simp add: byte_of_inject)
  ultimately show ?case by (metis div_mult_mod_eq)
qed simp

lemma epoch_context_inject:
  assumes "epoch_context e c = Some x" "epoch_context e' c' = Some x"
  shows "e = e' \<and> c = c'"
proof -
  have x: "x = EPOCH_CONTEXT_PREFIX @ big_endian 8 (nat e) @ '':'' @ c" "x = EPOCH_CONTEXT_PREFIX @ big_endian 8 (nat e') @ '':'' @ c'"
    and b: "1 \<le> e" "e \<le> MAXIMUM_KEY_EPOCH" "1 \<le> e'" "e' \<le> MAXIMUM_KEY_EPOCH"
    using assms by (auto simp: epoch_context_def elim!: bind_SomeE)
  have "length (big_endian 8 (nat e)) = length (big_endian 8 (nat e'))" by (simp add: big_endian_def)
  moreover have "big_endian 8 (nat e) @ '':'' @ c = big_endian 8 (nat e') @ '':'' @ c'"
    using x unfolding EPOCH_CONTEXT_PREFIX_def by (metis append_same_eq same_append_eq)
  ultimately have "big_endian 8 (nat e) = big_endian 8 (nat e')" "c = c'"
    by (simp_all add: append_eq_append_conv)
  moreover have "nat e < 256 ^ 8" "nat e' < 256 ^ 8" using b by (simp_all add: MAXIMUM_KEY_EPOCH_def nat_less_iff)
  ultimately show ?thesis using big_endian_inject b by (metis eq_nat_nat_iff order_trans zero_le_one)
qed

lemma delivery_context_inject:
  "delivery_context plan d = delivery_context plan' d' \<longleftrightarrow> rotation_binding plan = rotation_binding plan' \<and> d = d'"
  by (auto simp: delivery_context_def rotation_binding_def)

text \<open>C39: a wrapper belongs to one epoch, one plan and one device: whenever two deliveries are sealed under
  the same HPKE info, they are for the same epoch and the same device, and their plans are the same up
  to the order of keys; the one exception is that the two different texts these very plans are bound by have
  the same SHA-256 digest.\<close>

theorem wrapper_context_separates:
  assumes "(epoch_context e (delivery_context plan d) \<bind> hpke_info) = Some info"
    and "(epoch_context e' (delivery_context plan' d') \<bind> hpke_info) = Some info"
    and "float_free plan" and "float_free plan'"
  shows "e = e' \<and> d = d' \<and> (normal plan = normal plan'
    \<or> collide (''atlasvault-rotation-binding-v1'' @ newline @ canonical_json plan)
        (''atlasvault-rotation-binding-v1'' @ newline @ canonical_json plan'))"
proof -
  obtain c c' where c: "epoch_context e (delivery_context plan d) = Some c" "hpke_info c = Some info"
    "epoch_context e' (delivery_context plan' d') = Some c'" "hpke_info c' = Some info"
    using assms(1,2) by (auto elim!: bind_SomeE)
  then have "c = c'" using hpke_info_inject by blast
  then have "e = e' \<and> delivery_context plan d = delivery_context plan' d'"
    using epoch_context_inject c(1,3) by blast
  then have i: "e = e'" "d = d'" "rotation_binding plan = rotation_binding plan'"
    by (simp_all add: delivery_context_inject)
  have "canonical_json plan = canonical_json plan'
      \<or> collide (''atlasvault-rotation-binding-v1'' @ newline @ canonical_json plan)
          (''atlasvault-rotation-binding-v1'' @ newline @ canonical_json plan')"
    using i(3) unfolding rotation_binding_def same_digest by (simp only: same_append_eq)
  then show ?thesis using i(1,2) canonical_json_inject [OF assms(3,4)] by blast
qed

text \<open>A plan with its entries in one order and in the other.\<close>

definition two_entries :: "bool \<Rightarrow> json" where
  "two_entries turned = JObj ((if turned then rev else id) [(''key_epoch'', JInt 1), (''plan'', JStr ''p'')])"

lemma two_entries_same: "canonical_json (two_entries turned) = canonical_json (two_entries False)"
  unfolding canonical_json_def two_entries_def by (rule dumps_obj_perm) auto

lemma sample_plan_info: "(epoch_context 2 (delivery_context (two_entries turned) ''d'') \<bind> hpke_info)
    = Some (HPKE_INFO_PREFIX @ EPOCH_CONTEXT_PREFIX @ big_endian 8 2 @ '':'' @ delivery_context (two_entries False) ''d'')"
  by (simp add: epoch_context_def epoch_number_of MAXIMUM_KEY_EPOCH_def MAXIMUM_EPOCH_CONTEXT_def EPOCH_CONTEXT_PREFIX_def
      delivery_context_def rotation_binding_def hpke_info_Some big_endian_def two_entries_same [of turned])

theorem wrapper_context_separates_witness:
  "two_entries False \<noteq> two_entries True \<and> normal (two_entries False) = normal (two_entries True)"
proof -
  have "float_free (two_entries False)" "float_free (two_entries True)" by (simp_all add: two_entries_def)
  from wrapper_context_separates [OF sample_plan_info sample_plan_info this]
  have "normal (two_entries False) = normal (two_entries True)" unfolding two_entries_same [of True] by simp
  then show ?thesis by (simp add: two_entries_def)
qed

end
