(* ===== verification/KeyRings.thy ===== *)
theory KeyRings
  imports KeyEpochs
begin

text \<open>Which key rings can be made, and what they find.\<close>

lemma traverse_entries: "traverse (\<lambda>(e, k). do { e' \<leftarrow> epoch_number e; k' \<leftarrow> vault_key_bytes k; Some (e', k') }) es
    = (if \<forall>(e, k) \<in> set es. 1 \<le> e \<and> e \<le> MAXIMUM_KEY_EPOCH \<and> length k = 32 then Some es else None)"
  by (induction es) (auto simp: epoch_number_def vault_key_bytes_def require_def split: if_splits)

lemma items_entry: "(e, k) \<in> set (items m) \<longleftrightarrow> fmlookup m e = Some k"
  by (metis distinct_keys_items map_of_eq_Some_iff map_of_items)

lemma entries_card: "length (items m) = card (fset (fmdom m))"
  by (simp add: length_items fcard.rep_eq)

text \<open>No two epochs share a key.\<close>

lemma values_distinct: "length (remdups (map snd (items m))) = length (items m) \<longleftrightarrow> inj_on (fmlookup m) (fset (fmdom m))"
proof -
  have "length (remdups (map snd (items m))) = length (items m) \<longleftrightarrow> distinct (map snd (items m))"
    by (metis length_map length_remdups_eq remdups_id_iff_distinct)
  also have "\<dots> \<longleftrightarrow> inj_on snd (set (items m))"
    using distinct_keys_items [of m] by (simp add: distinct_map)
  also have "\<dots> \<longleftrightarrow> inj_on (fmlookup m) (fset (fmdom m))"
  proof
    assume a: "inj_on snd (set (items m))"
    show "inj_on (fmlookup m) (fset (fmdom m))"
    proof (rule inj_onI)
      fix x y assume xy: "x \<in> fset (fmdom m)" "fmlookup m x = fmlookup m y"
      then obtain k where k: "fmlookup m x = Some k" by (auto simp: fmlookup_dom_iff)
      then have "(x, k) = (y, k)" by (intro inj_onD [OF a]) (simp_all add: items_entry flip: xy(2))
      then show "x = y" by simp
    qed
  next
    assume a: "inj_on (fmlookup m) (fset (fmdom m))"
    show "inj_on snd (set (items m))"
    proof (rule inj_onI, clarify)
      fix x k y k' assume "(x, k) \<in> set (items m)" "(y, k') \<in> set (items m)" "snd (x, k) = snd (y, k')"
      then have l: "fmlookup m x = Some k" "fmlookup m y = Some k" "k' = k" by (simp_all add: items_entry)
      then have "x = y" by (intro inj_onD [OF a]) (auto simp: fmlookup_dom_iff)
      then show "x = y \<and> k = k'" using l(3) by simp
    qed
  qed
  finally show ?thesis .
qed

lemma retained_epochs: "filter (\<lambda>e. e \<noteq> (current :: int)) (sort (map fst (items keys)))
    = sorted_list_of_set (fset (fmdom keys) - {current})"
proof -
  have "filter (\<lambda>e. e \<noteq> current) xs = remove1 current xs" if "distinct xs" for xs :: "int list"
    using that by (simp add: distinct_remove1_removeAll removeAll_filter_not_eq eq_commute [of current])
  then show ?thesis
    by (simp add: map_fst_items sorted_list_of_fset.rep_eq sorted_sort_id sorted_list_of_set.sorted_key_list_of_set_remove)
qed

text \<open>The conditions under which a ring is made.\<close>

definition ring_entries_ok :: "int \<Rightarrow> (int, string) fmap \<Rightarrow> bool" where
  "ring_entries_ok current keys \<longleftrightarrow> current \<in> fset (fmdom keys) \<and> current \<le> MAXIMUM_KEY_EPOCH
     \<and> fset (fmdom keys) \<subseteq> {1..current} \<and> card (fset (fmdom keys)) \<le> MAXIMUM_KEY_RING_ENTRIES
     \<and> (\<forall>e k. fmlookup keys e = Some k \<longrightarrow> length k = 32) \<and> inj_on (fmlookup keys) (fset (fmdom keys))"

lemma ring_from_entries_Some:
  assumes "ring_from_entries current keys = Some ring"
  shows "ring_entries_ok current keys" "ring = \<lparr>kr_metadata = \<lparr>km_current = current,
      km_retained = sorted_list_of_set (fset (fmdom keys) - {current})\<rparr>, kr_keys = keys\<rparr>" "valid_ring_metadata (kr_metadata ring)"
proof -
  obtain m where m: "1 \<le> current" "current \<le> MAXIMUM_KEY_EPOCH" "fmlookup keys current \<noteq> None"
    "new_metadata current (filter (\<lambda>e. e \<noteq> current) (sort (map fst (items keys)))) = Some m" "new_ring m keys = Some ring"
    using assms by (auto simp: ring_from_entries_def traverse_epochs Let_def elim!: bind_SomeE split: if_splits)
  have r: "ring = \<lparr>kr_metadata = m, kr_keys = keys\<rparr>" "length (items keys) \<le> MAXIMUM_KEY_RING_ENTRIES"
    "length (remdups (map snd (items keys))) = length (items keys)" "\<forall>(e, k) \<in> set (items keys). length k = 32"
    using m(5) by (auto simp: new_ring_def traverse_entries elim!: bind_SomeE split: if_splits)
  have n: "m = \<lparr>km_current = current, km_retained = sorted_list_of_set (fset (fmdom keys) - {current})\<rparr>"
    "\<forall>e \<in> fset (fmdom keys) - {current}. 1 \<le> e \<and> e < current"
    using m(4) by (auto simp: retained_epochs new_metadata_iff)
  show "ring = \<lparr>kr_metadata = \<lparr>km_current = current,
      km_retained = sorted_list_of_set (fset (fmdom keys) - {current})\<rparr>, kr_keys = keys\<rparr>"
    by (simp add: r(1) n(1))
  show "valid_ring_metadata (kr_metadata ring)" using new_metadata_valid [OF m(4)] by (simp add: r(1))
  show "ring_entries_ok current keys"
    unfolding ring_entries_ok_def
  proof (intro conjI)
    show "fset (fmdom keys) \<subseteq> {1..current}"
    proof
      fix e assume "e \<in> fset (fmdom keys)"
      then have "e = current \<or> 1 \<le> e \<and> e < current" using n(2) by blast
      then show "e \<in> {1..current}" using m(1) by auto
    qed
    show "\<forall>e k. fmlookup keys e = Some k \<longrightarrow> length k = 32"
      using r(4) unfolding items_entry [symmetric] by blast
    show "current \<in> fset (fmdom keys)" using m(3) by (auto simp: fmlookup_dom_iff)
    show "inj_on (fmlookup keys) (fset (fmdom keys))" using r(3) by (simp only: values_distinct)
  qed (use m(2) r(2) in \<open>simp_all add: entries_card\<close>)
qed

lemma ring_from_entries_ok:
  assumes "ring_entries_ok current keys"
  shows "\<exists>ring. ring_from_entries current keys = Some ring"
proof -
  let ?retained = "sorted_list_of_set (fset (fmdom keys) - {current})"
  have in_dom: "current \<in> fset (fmdom keys)" "fset (fmdom keys) \<subseteq> {1..current}" using assms by (simp_all add: ring_entries_ok_def)
  have c: "1 \<le> current" "current \<le> MAXIMUM_KEY_EPOCH" "fmlookup keys current \<noteq> None" "finite (fset (fmdom keys))"
    "\<forall>e \<in> fset (fmdom keys). 1 \<le> e \<and> e \<le> current" "current \<in> fset (fmdom keys)"
    using assms in_dom subsetD [OF in_dom(2,1)] by (auto simp: ring_entries_ok_def fmlookup_dom_iff)
  have "length ?retained = card (fset (fmdom keys)) - 1" using c(4,6) by simp
  also have "\<dots> < MAXIMUM_KEY_RING_ENTRIES"
    using assms by (auto simp: ring_entries_ok_def MAXIMUM_KEY_RING_ENTRIES_def)
  finally have "new_metadata current ?retained = Some \<lparr>km_current = current, km_retained = ?retained\<rparr>"
    using c by (auto simp: new_metadata_iff order_less_le)
  moreover have "new_ring \<lparr>km_current = current, km_retained = ?retained\<rparr> keys \<noteq> None"
  proof -
    have "\<forall>(e, k) \<in> set (items keys). 1 \<le> e \<and> e \<le> MAXIMUM_KEY_EPOCH \<and> length k = 32"
    proof clarify
      fix e k assume "(e, k) \<in> set (items keys)"
      then have l: "fmlookup keys e = Some k" by (simp add: items_entry)
      then have "e \<in> fset (fmdom keys)" by (auto simp: fmlookup_dom_iff)
      then have "1 \<le> e \<and> e \<le> current" using c(5) by blast
      moreover have "length k = 32" using assms l by (simp add: ring_entries_ok_def)
      ultimately show "1 \<le> e \<and> e \<le> MAXIMUM_KEY_EPOCH \<and> length k = 32" using c(2) by simp
    qed
    moreover have "fset (fmdom keys) = insert current (set ?retained)" using c(4,6) by auto
    moreover have "length (remdups (map snd (items keys))) = length (items keys)"
      using assms values_distinct [of keys] unfolding ring_entries_ok_def by blast
    moreover have "length (items keys) \<le> MAXIMUM_KEY_RING_ENTRIES"
      using assms by (simp add: entries_card ring_entries_ok_def)
    ultimately show ?thesis by (simp add: new_ring_def traverse_entries)
  qed
  moreover have "traverse epoch_number (map fst (items keys)) = Some (map fst (items keys))"
    using c(2,5) by (force simp: traverse_epochs map_fst_items sorted_list_of_fset.rep_eq c(4))
  moreover have "\<not> list_ex (\<lambda>e. current \<le> e) ?retained" using c(4,5) by (auto simp: list_ex_iff)
  ultimately show ?thesis
    using c(1-3) by (simp add: ring_from_entries_def epoch_number_of retained_epochs Let_def)
qed

section \<open>Property\<close>

text \<open>C40: a ring can be made exactly from one to thirty-two different 32-byte keys whose epochs start at 1 and end
  with the current one; it then finds exactly these keys, and its metadata lists the earlier epochs
  in order and survives being written and read.\<close>

theorem key_ring_exact:
  "((\<exists>ring. ring_from_entries current keys = Some ring) \<longleftrightarrow> ring_entries_ok current keys)
   \<and> (\<forall>ring. ring_from_entries current keys = Some ring \<longrightarrow>
       (\<forall>e. key_for_epoch ring e = fmlookup keys e) \<and> current_vault_key ring = fmlookup keys current
     \<and> kr_metadata ring = \<lparr>km_current = current, km_retained = sorted_list_of_set (fset (fmdom keys) - {current})\<rparr>
     \<and> metadata_from_dict (metadata_to_dict (kr_metadata ring)) = Some (kr_metadata ring))"
proof (intro conjI allI impI iffI)
  fix ring assume ring: "ring_from_entries current keys = Some ring"
  note r = ring_from_entries_Some [OF ring]
  have lookup: "key_for_epoch ring e = fmlookup keys e" for e
  proof (cases "1 \<le> e \<and> e \<le> MAXIMUM_KEY_EPOCH")
    case True
    then show ?thesis by (simp add: key_for_epoch_def epoch_number_of r(2))
  next
    case False
    then have "e \<notin> fset (fmdom keys)" using r(1) by (auto simp: ring_entries_ok_def)
    with False show ?thesis by (auto simp: key_for_epoch_def epoch_number_def require_def fmlookup_dom_iff)
  qed
  then show "key_for_epoch ring e = fmlookup keys e" for e .
  show "current_vault_key ring = fmlookup keys current" unfolding current_vault_key_def lookup by (simp add: r(2))
  show "metadata_from_dict (metadata_to_dict (kr_metadata ring)) = Some (kr_metadata ring)"
    by (rule metadata_codec.dec_enc [OF r(3)])
  show "kr_metadata ring = \<lparr>km_current = current, km_retained = sorted_list_of_set (fset (fmdom keys) - {current})\<rparr>"
    by (subst r(2)) simp
qed (auto intro: ring_from_entries_ok ring_from_entries_Some(1))

theorem key_ring_exact_witness:
  "\<exists>ring. ring_from_entries 2 (fmap_of_list [(1, replicate 32 (CHR ''a'')), (2, replicate 32 (CHR ''b''))]) = Some ring
    \<and> key_for_epoch ring 1 = Some (replicate 32 (CHR ''a'')) \<and> km_retained (kr_metadata ring) = [1]"
proof -
  let ?keys = "fmap_of_list [(1 :: int, replicate 32 (CHR ''a'')), (2, replicate 32 (CHR ''b''))]"
  have d: "fset (fmdom ?keys) = {1, 2}" by auto
  have "ring_entries_ok 2 ?keys"
    by (auto simp: ring_entries_ok_def d fmlookup_of_list MAXIMUM_KEY_EPOCH_def MAXIMUM_KEY_RING_ENTRIES_def replicate_eq_replicate
        split: if_splits)
  with key_ring_exact [of 2 ?keys] obtain ring where r: "ring_from_entries 2 ?keys = Some ring" by blast
  have "key_for_epoch ring 1 = fmlookup ?keys 1" "km_retained (kr_metadata ring) = sorted_list_of_set (fset (fmdom ?keys) - {2})"
    using conjunct2 [OF key_ring_exact [of 2 ?keys]] r by simp_all
  moreover have "{1, 2 :: int} - {2} = {1}" by auto
  ultimately show ?thesis using r by (intro exI [of _ ring]) (simp add: d fmlookup_of_list)
qed

end
