(* ===== verification/Spec2Isabelle.thy ===== *)
theory Spec2Isabelle
  imports Outbox InboxHistory CollectionProperties ReplicaProperties RollbackTracker ControlsProperties StoreCapacity StorePages
    ConcurrencyProperties PairingProperties StateViewProperties
    RemovalPromptProperties EpochKeyProperties KeyRings
begin

text \<open>
  Verification of the encrypted synchronisation core of the UN job application helper.

  The repository is a monorepo: a job aggregator (packages/jobagg), a vault with encrypted
  synchronisation (packages/vaultsync), the synchronisation server (services/atlasvault-api), a
  local API (services/job-api), and prompt and script collections.  This library models

  \<^item> the synchronisation of vaultsync: the queues, replicas and signed commitments of
    vaultsync/sync_queue.py, the authenticated state views of authenticated_state_view.py, the
    device identities of device_identity.py, the trusted devices and replay protection of
    trusted_devices.py with protected_state_bounds.py, and what follows the loss of a device:
    revocation.py, epoch_rotation.py, device_delivery.py and device_enrollment.py with the keys of
    key_epochs.py and hpke_key_delivery.py;
  \<^item> the server that stores what the queues send: the opaque store of atlasvault_api/storage.py
    and the abuse controls of controls.py;
  \<^item> the feedback controller of the job aggregator's workers, jobagg/remediation_concurrency.py.

  A device is identified by a signed descriptor and trusted after pairing.  Its outbox, inbox,
  collection and replica hold operations around ciphertext envelopes; the server keeps the
  envelopes under compare-and-set and pages them out by cursors; commitments signed by a device
  let the rollback tracker notice a server that serves an older or another state, and views let two
  clients notice that they were served different ones.  When a device is removed, another one makes
  a new vault key and seals it to every device that remains.

  Conventions.  In vaultsync a function that may raise is option-valued; None is the raise and
  every guard is a \<open>require\<close>.  A call of the server's store returns \<open>storage_error + 'a\<close> with the
  store after it, because a call that raises may have changed the store; so do the calls of the
  state views, the removals and the rotations, whose errors carry one of several codes.  A JSON value is the
  datatype \<open>json\<close>; a str or bytes value is a \<open>string\<close>; a dict whose order is not observed is a
  finite map, else an association list; an int is an \<open>int\<close> with the bounds the code checks; a
  reading of a clock is \<open>Finite\<close> of a rational number or \<open>NonFinite\<close>.  The file behind a queue
  is a \<open>store\<close> = \<open>json option\<close>: None before the first write, else the decrypted state;
  \<open>store_write\<close> raises exactly when the encoded file would exceed MAXIMUM_QUEUE_FILE_BYTES.
  Ed25519 and X25519 are parameters (\<open>sign\<close>, \<open>verify\<close>, \<open>ed\<close>, \<open>xp\<close>, \<open>exchange\<close>), as are random
  identifiers and clocks; what is assumed of them is a hypothesis of the theorem.

  Shared theories:
  \<^item> Prelude: option monad helpers, traversal, sorted listings of finite maps, and the locales
    \<open>roundtrip\<close> and \<open>codec\<close>, the contract of an encoder and its strict reader.
  \<^item> Sha256, Base64, Json: SHA-256 and HMAC on bytes, base64, the JSON datatype and json.dumps
    with sorted keys.  A theorem that rests on a digest names the two texts that would have to
    \<open>collide\<close>.  ShaBits: SHA-256 on bits, to tell the digests of two concrete texts apart.
    Canonical: json.dumps is injective up to the order of keys.
  \<^item> JsonParse: json.loads on canonical text; its fuel is the length of the text, which
    \<open>loads_dumps\<close> shows to be enough.  The locale \<open>document\<close> is a class with
    from_canonical_bytes and canonical_bytes.
  \<^item> Timestamps: YYYY-MM-DDTHH:MM:SSZ through strptime and strftime, and its order.
  \<^item> Expiry: readings of a clock and expiry queues (heapq), with the locale \<open>expiring\<close>.

  The synchronisation queues (sync_queue.py), in the order of the code:
  \<^item> Wire: the readers _mapping, _exact, _text, _identifier, _integer, _canonical_uuid,
    _canonical_base64 and _canonical_json.
  \<^item> Envelope: OpaqueCiphertextEnvelope and EncryptedPatchOperation with from_dict and to_dict,
    _validated_operation, order_key, __lt__ and _fingerprint.  Both codecs interpret \<open>codec\<close>.
  \<^item> Store: _EncryptedQueueFile.read and write, and the locale \<open>persistent\<close>: what every
    component that loads and writes its state in one file may rely on.
  \<^item> Outbox: DurableEncryptedOutbox; refinement of a finite map keyed by operation identifier.
  \<^item> Dicts, History, Sizes, Samples: the validated dicts of the saved states, _advance_metadata,
    the abstract notion of an accepted history (gapless sequences, unbroken parent chains,
    strictly increasing order), bounds on the size of what is written, and concrete values.
  \<^item> Inbox, InboxHistory: DurableEncryptedInbox, its reachable states and the log of committed
    operations.  The callback of apply_next runs before the write, so \<open>apply_outcome\<close> tells a callback
    that raised, a write that raised after it, and a commit apart; \<open>inbox_run\<close> also has the call that is
    cut off in between.  Operations are committed exactly once and handed over at least once.
  \<^item> Snapshot: AuthenticatedCollectionSnapshot with from_dict, _create and to_dict.
  \<^item> Collection, CollectionHistory, CollectionProperties: _CollectionReplay and
    DurableEncryptedPatchCollection, replay as a simulation of the accepted history, compaction.
  \<^item> Convergent, HistoryCheck, Replica, ReplicaCalls, Resolution, ReplicaSamples,
    ReplicaProperties: the convergent replica; its validation loops characterised by one
    consistency predicate on sets, its reachable states, the resolution of records, and a run in
    which the order of delivery matters.  The number of snapshots is bounded by the reader and not by
    the writer: \<open>overfull\<close> is the one kind of reachable file that does not load.
  \<^item> Commitment, RollbackTracker: SignedStateCommitment and RollbackTracker; runs of served
    commitments, of which the accepted ones are a chain, and nothing beside it is accepted.
  \<^item> StateView, StateHistory, StateViewProperties (authenticated_state_view.py): signed views of a
    vault's state, the history a client keeps of them, runs of its calls, and the comparison with the
    history of another client.

  Devices and pairing:
  \<^item> Devices: device_identity.py, descriptors, their signed form and the secret bundle.
  \<^item> TrustedDevices, PairingState, PairingSizes, PairingProperties: the registry and the replay
    store, their canonical bytes and sizes, the registry as a map that only grows, and runs of
    attempts to consume a pairing object.

  Removal of a device and the next epoch:
  \<^item> Revocation, RevocationRuns, RevocationSamples, RevocationProperties: revocation.py, the registry
    of devices with signed removals, the store that commits one of them, and its runs.
  \<^item> RemovalPrompt, RemovalPromptProperties: RemovalController of revocation.py without its optional
    history; a removal as steps between which the target can be selected anew or cancelled.
  \<^item> Rotation, RotationCreate, RotationProperties: epoch_rotation.py and device_delivery.py, making
    and admitting the wrappers of a new key.  Enrollment, MembershipHistory: device_enrollment.py, and
    registries under any sequence of removals and enrollments.
  \<^item> Hpke, KeyEpochs, KeyRings: hpke_key_delivery.py with the HKDF written out, key_epochs.py, and the
    key rings that exist.  EpochKeyProperties: a rotation from its making to the opening of every
    wrapper, and what the HPKE info binds.

  The server:
  \<^item> Controls, Limiter, ControlsProperties: controls.py, the validation of the limits, both
    fixed-window limiters against the list of admitted requests, each with the window it was
    counted in, and the telemetry.
  \<^item> Storage, StoreWrites, StoreRuns: storage.py; the four writes as instances of one course;
    runs of calls in the order in which they get the lock.
  \<^item> StoreCapacity, StoreReceipts, StoreHistory, StoreProperties, StorePages: the counters are
    the true totals and within the limits; what a retry is answered; a revision that was replaced
    never returns; paging through cursors yields the patches there were at the first call.

  The workers:
  \<^item> Concurrency, ConcurrencyCodecs, ConcurrencyRuns, ConcurrencyHistory, ConcurrencyProperties:
    remediation_concurrency.py; its readers, its steps on valid states, and runs of terminal
    batches, interruptions and operator changes.

  Loops are structural recursions; the walk along parent revisions (\<open>chain_ends\<close>) is a
  \<open>function\<close> with a termination proof by the number of revisions not yet seen.  The one reader
  with fuel is \<open>loads\<close>.

  Not modelled: AES-GCM and the curves (third-party; the primitives of HPKE are a record of functions,
  with what is assumed of them in \<open>primitives_ok\<close>), the file system and locks under the stores (I/O; a
  call under its lock is one step), pydantic's encoder (a parameter \<open>encode\<close>), the HTTP layers, the
  pairing messages, the modules of vaultsync that compose the above (epoch_vault.py, sync_recovery.py,
  anchored_history.py and those of enrollment), and the parts of the repository that work through
  SQLite, a browser or documents.
\<close>

end
